(* ===== verification/Prelude.thy ===== *)
theory Prelude
  imports Main "HOL-Library.Monad_Syntax"
begin

text \<open>
  Shared ground of the development: results with an error, the collections of
  facts the component proofs draw on, and the generic lemmas on lists that more
  than one component needs.

  Every Go function of the form \<open>func f(..) (T, error)\<close> becomes a HOL function into
  \<open>error + T\<close>: \<open>Inl\<close> is the error, \<open>Inr\<close> the value.  The Go idiom
  \<open>if err != nil { return zero, err }\<close> is \<open>then_ok\<close> (values) or \<open>check\<close> (guards).
  Instants (\<open>time.Time\<close>) and spans (\<open>time.Duration\<close>) are integers counting
  nanoseconds; a Go \<open>int\<close> used as a counter is an \<open>int\<close> or a \<open>nat\<close>.
\<close>

section \<open>Collections of facts\<close>

named_theorems machine_defs \<open>definitions of the state machine of a commitment\<close>
named_theorems row_defs \<open>definitions of the write of a transition\<close>
named_theorems grid_defs \<open>definitions of the handoff grid\<close>

section \<open>Results\<close>

definition then_ok :: "'e + 'a \<Rightarrow> ('a \<Rightarrow> 'e + 'b) \<Rightarrow> 'e + 'b" where
  "then_ok r k = (case r of Inl e \<Rightarrow> Inl e | Inr x \<Rightarrow> k x)"

text \<open>A guard: the error when the condition holds, otherwise the rest.\<close>

definition refuse_if :: "bool \<Rightarrow> 'e \<Rightarrow> 'e + 'b \<Rightarrow> 'e + 'b" where
  "refuse_if b e rest = (if b then Inl e else rest)"

definition succeeds :: "'e + 'a \<Rightarrow> bool" where
  "succeeds r = (case r of Inl _ \<Rightarrow> False | Inr _ \<Rightarrow> True)"

lemma then_ok_simps [simp]:
  "then_ok (Inl e) k = Inl e"
  "then_ok (Inr x) k = k x"
  by (simp_all add: then_ok_def)

lemma succeeds_simps [simp]:
  "succeeds (Inl e) = False"
  "succeeds (Inr x) = True"
  by (simp_all add: succeeds_def)

lemma refuse_if_simps [simp]:
  "refuse_if True e rest = Inl e"
  "refuse_if False e rest = rest"
  by (simp_all add: refuse_if_def)

lemma refuse_if_Inr [simp]: "refuse_if b e rest = Inr y \<longleftrightarrow> \<not> b \<and> rest = Inr y"
  by (simp add: refuse_if_def)

lemma then_ok_Inr [simp]: "then_ok r k = Inr y \<longleftrightarrow> (\<exists>x. r = Inr x \<and> k x = Inr y)"
  by (cases r) auto

lemma then_ok_InrE:
  assumes "then_ok r k = Inr y"
  obtains x where "r = Inr x" "k x = Inr y"
  using assms by auto

lemma succeeds_iff: "succeeds r \<longleftrightarrow> (\<exists>x. r = Inr x)"
  by (cases r) auto

lemma succeeds_then_ok:
  "succeeds (then_ok r k) \<longleftrightarrow> (\<exists>x. r = Inr x \<and> succeeds (k x))"
  by (cases r) auto

lemma succeeds_then_Inr [simp]: "succeeds (then_ok r (\<lambda>x. Inr (f x))) = succeeds r"
  by (cases r) auto

lemma succeeds_then_const [simp]: "succeeds (then_ok r (\<lambda>_. k)) \<longleftrightarrow> succeeds r \<and> succeeds k"
  by (cases r) auto

lemma succeeds_refuse_if [simp]: "succeeds (refuse_if b e r) \<longleftrightarrow> \<not> b \<and> succeeds r"
  by (simp add: refuse_if_def)

text \<open>A loop over a list whose body can fail stops at the first failure.\<close>

fun check_all :: "('a \<Rightarrow> 'e + unit) \<Rightarrow> 'a list \<Rightarrow> 'e + unit" where
  "check_all f [] = Inr ()"
| "check_all f (x # xs) = then_ok (f x) (\<lambda>_. check_all f xs)"

lemma check_all_ok [simp]: "check_all f xs = Inr () \<longleftrightarrow> (\<forall>x \<in> set xs. f x = Inr ())"
  by (induction xs) auto

lemma succeeds_check_all [simp]: "succeeds (check_all f xs) \<longleftrightarrow> (\<forall>x \<in> set xs. succeeds (f x))"
  by (induction xs) (auto simp: succeeds_then_ok succeeds_iff)

section \<open>What a result ensures\<close>

text \<open>
  \<open>ensures P r\<close>: if \<open>r\<close> is a value, it satisfies \<open>P\<close>.  The rewrite rules below push
  it through the control flow of a translated function, so a law about every
  answer of the function is checked at its leaves.
\<close>

definition ensures :: "('a \<Rightarrow> bool) \<Rightarrow> 'e + 'a \<Rightarrow> bool" where
  "ensures P r = (case r of Inl _ \<Rightarrow> True | Inr y \<Rightarrow> P y)"

lemma ensures_simps [simp]:
  "ensures P (Inl e) = True"
  "ensures P (Inr y) = P y"
  "ensures P (refuse_if b e r) = (\<not> b \<longrightarrow> ensures P r)"
  "ensures P (if b then r else r') = (if b then ensures P r else ensures P r')"
  by (auto simp: ensures_def refuse_if_def split: sum.splits)

lemma ensures_then_ok [simp]: "ensures P (then_ok r k) = ensures (\<lambda>y. ensures P (k y)) r"
  by (cases r) simp_all

lemma ensuresD: "ensures P r \<Longrightarrow> r = Inr y \<Longrightarrow> P y"
  by simp

lemma ensures_mono: "ensures P r \<Longrightarrow> (\<And>y. P y \<Longrightarrow> Q y) \<Longrightarrow> ensures Q r"
  by (cases r) simp_all

end
