(* ===== verification/Vocabulary.thy ===== *)
theory Vocabulary
  imports Prelude
begin

text \<open>
  The closed sets a commitment is described by: \<open>internal/outbound/intent.go\<close>,
  \<open>internal/outbound/keys/keys.go\<close>, \<open>internal/outbound/keys/escalation.go\<close>,
  \<open>internal/outbound/keys/fingerprint.go\<close>.

  In Go each is a string type with named constants.  A value outside the
  constants is representable, and the code has a branch for it, so each datatype
  has a last constructor that carries such a string.
\<close>

section \<open>Kinds, families and recipients\<close>

datatype kind =
    KindEscalation | KindEscalationReplay | KindHandoff
  | KindWebhookEvent | KindWebhookReplay | KindOther string

datatype family =
    FamilyNotification | FamilyHandoff | FamilyWebhook | FamilyOther string

datatype target_kind =
    TargetChannel | TargetUser | TargetSubscriber | TargetThread | TargetThreadReply
  | TargetOther string

section \<open>Outcomes and policies\<close>

datatype attempt_outcome =
    OutcomeAccepted | OutcomeRetryableRejection | OutcomePermanentRejection
  | OutcomeAmbiguous | OutcomeCanceled | OutcomeOther string

datatype ambiguity_policy =
    PolicyRetry | PolicyReconcileThenRetry | PolicyManualReview | PolicyAssumeAccepted
  | PolicyOther string

datatype completion_mode =
    CompletionOnAcceptance | CompletionOnProviderReceipt | CompletionOther string

datatype operation =
    OperationSend | OperationUpdate | OperationResolve | OperationDeliver
  | OperationOther string

section \<open>Where a commitment stands\<close>

datatype status =
    StatusPending | StatusSending | StatusIdle | StatusManualReview | StatusAwaitingReceipt
  | StatusSucceeded | StatusPermanentFailed | StatusExpired | StatusNoContact | StatusCanceled
  | StatusOther string

text \<open>\<open>Status.Terminal\<close>: a status only an operator can leave.\<close>

fun Terminal :: "status \<Rightarrow> bool" where
  "Terminal StatusSucceeded = True"
| "Terminal StatusPermanentFailed = True"
| "Terminal StatusExpired = True"
| "Terminal StatusCanceled = True"
| "Terminal StatusNoContact = True"
| "Terminal _ = False"

text \<open>\<open>Statuses\<close>: every status a commitment can be in (\<open>series.go\<close>).\<close>

definition Statuses :: "status list" where
  "Statuses = [StatusPending, StatusSending, StatusIdle, StatusManualReview,
     StatusAwaitingReceipt,
     StatusSucceeded, StatusPermanentFailed, StatusExpired, StatusCanceled, StatusNoContact]"

datatype form = FormOneShot | FormEditable | FormOther string

datatype attempt_kind = AttemptCreate | AttemptMutation | AttemptReconcile | AttemptKindOther string

text \<open>The empty \<open>Proof\<close> of a Go zero value is \<open>ProofOther []\<close>.\<close>

datatype proof_of =
    ProofAccepted | ProofProviderConfirmed | ProofAssumed | ProofOther string

datatype preparation_outcome =
    PreparationReady | PreparationPermanent | PreparationNoContact | PreparationTransient
  | PreparationOther string

section \<open>The commitment as the domain reasons about it\<close>

text \<open>
  \<open>ParentState\<close> and \<open>Intent\<close>.  The two JSON blobs (\<open>Payload\<close>, \<open>Receipt\<close>) and the
  payload digest are strings of bytes; an optional instant or pointer is an option.
\<close>

record parent_state =
  pID :: string
  pStatus :: status
  pReceiptRecorded :: bool
  pReceiptRef :: string

definition Ended :: "parent_state \<Rightarrow> bool" where
  "Ended p = Terminal (pStatus p)"

record intent =
  iID :: string
  iBatchID :: string
  iAlertGroupID :: string
  iFamily :: family
  iKeyKind :: kind
  iProvider :: string
  iTargetKind :: target_kind
  iTargetRef :: string
  iForm :: form
  iCompletionMode :: completion_mode
  iAmbiguityPolicy :: ambiguity_policy
  iStatus :: status
  iGenerationNo :: int
  iAttemptsInGeneration :: int
  iFailureStreak :: int
  iBoundEndpoint :: string
  iGenerationBound :: bool
  iPayloadSchemaVersion :: int
  iProviderKeyCodecVersion :: int
  iPayload :: string
  iPayloadDigest :: string
  iDesiredRevision :: int
  iAppliedRevision :: "int option"
  iFinalRevisionApplied :: bool
  iHasReceipt :: bool
  iReceipt :: string
  iReceiptRef :: string
  iRecipientErased :: bool
  iCancellationRequested :: bool
  iAcceptedDuplicateRisk :: bool
  iObligationWithdrawn :: bool
  iNotBefore :: int
  iNextAttemptAt :: int
  iExpiresAt :: "int option"
  iCreatedAt :: int
  iUpdatedAt :: int
  iParentID :: string
  iParent :: "parent_state option"
  iAwaitsIntentIDs :: "string list"

definition GroupBound :: "intent \<Rightarrow> bool" where
  "GroupBound i = (iAlertGroupID i \<noteq> [])"

definition Satellite :: "intent \<Rightarrow> bool" where
  "Satellite i = (iTargetKind i = TargetThread \<or> iTargetKind i = TargetThreadReply)"

lemma Statuses_complete: "s \<in> set Statuses \<longleftrightarrow> (\<forall>x. s \<noteq> StatusOther x)"
  by (cases s) (auto simp: Statuses_def)

lemma Terminal_cases:
  "Terminal s \<longleftrightarrow> s \<in> {StatusSucceeded, StatusPermanentFailed, StatusExpired,
     StatusCanceled, StatusNoContact}"
  by (cases s) auto

end
