(* ===== verification/Families.thy ===== *)
theory Families
  imports Vocabulary Complex_Main
begin

text \<open>
  The execution policy of a family: \<open>internal/outbound/policy.go\<close>, and the lanes of
  \<open>internal/outbound/series.go\<close>.  A Go \<open>time.Duration\<close> is an integer number of
  nanoseconds; every value here stays far inside 64 bits.
\<close>

section \<open>The numbers\<close>

abbreviation (input) Second :: int where "Second \<equiv> 1000000000"
abbreviation (input) Minute :: int where "Minute \<equiv> 60 * Second"
abbreviation (input) Hour :: int where "Hour \<equiv> 60 * Minute"

text \<open>The constants of a family, \<open>Notification\<close>, \<open>Handoff\<close> and \<open>Webhook\<close> in the names.\<close>

definition NotificationLease :: int where "NotificationLease = 90 * Second"
definition NotificationAttemptDeadline :: int where "NotificationAttemptDeadline = 25 * Second"
definition NotificationPoolSize :: int where "NotificationPoolSize = 8"
definition NotificationClaimInterval :: int where "NotificationClaimInterval = Second"
definition NotificationPrepareDeadline :: int where "NotificationPrepareDeadline = 5 * Second"
definition NotificationRecordDeadline :: int where "NotificationRecordDeadline = 10 * Second"
definition NotificationShutdownDeadline :: int where
  "NotificationShutdownDeadline = NotificationPrepareDeadline + NotificationRecordDeadline
     + NotificationAttemptDeadline + NotificationRecordDeadline + 10 * Second"

definition HandoffLease :: int where "HandoffLease = 90 * Second"
definition HandoffAttemptDeadline :: int where "HandoffAttemptDeadline = 25 * Second"
definition HandoffPoolSize :: int where "HandoffPoolSize = 2"
definition HandoffClaimInterval :: int where "HandoffClaimInterval = 5 * Second"
definition HandoffPrepareDeadline :: int where
  "HandoffPrepareDeadline = NotificationPrepareDeadline"
definition HandoffRecordDeadline :: int where
  "HandoffRecordDeadline = NotificationRecordDeadline"
definition HandoffShutdownDeadline :: int where
  "HandoffShutdownDeadline = HandoffPrepareDeadline + HandoffRecordDeadline
     + HandoffAttemptDeadline + HandoffRecordDeadline + 10 * Second"

definition WebhookLease :: int where "WebhookLease = 120 * Second"
definition WebhookMaxSubscriberTimeout :: int where "WebhookMaxSubscriberTimeout = 30 * Second"
definition WebhookConfigReadBudget :: int where "WebhookConfigReadBudget = 2 * Second"
definition WebhookAttemptDeadline :: int where
  "WebhookAttemptDeadline = WebhookConfigReadBudget + WebhookMaxSubscriberTimeout + 3 * Second"
definition WebhookPoolSize :: int where "WebhookPoolSize = 8"
definition WebhookClaimInterval :: int where "WebhookClaimInterval = 2 * Second"
definition WebhookPrepareDeadline :: int where
  "WebhookPrepareDeadline = NotificationPrepareDeadline"
definition WebhookRecordDeadline :: int where
  "WebhookRecordDeadline = NotificationRecordDeadline"
definition WebhookShutdownDeadline :: int where
  "WebhookShutdownDeadline = WebhookPrepareDeadline + WebhookRecordDeadline
     + WebhookAttemptDeadline + WebhookRecordDeadline + 10 * Second"
definition WebhookExpiry :: int where "WebhookExpiry = 24 * Hour"
definition WebhookBackoffCap :: int where "WebhookBackoffCap = 30 * Minute"

definition OutboundLockTimeout :: int where "OutboundLockTimeout = 3 * Second"

lemmas constants =
  NotificationLease_def NotificationAttemptDeadline_def NotificationPoolSize_def
  NotificationClaimInterval_def NotificationPrepareDeadline_def NotificationRecordDeadline_def
  NotificationShutdownDeadline_def HandoffLease_def HandoffAttemptDeadline_def
  HandoffPoolSize_def HandoffClaimInterval_def HandoffPrepareDeadline_def
  HandoffRecordDeadline_def HandoffShutdownDeadline_def WebhookLease_def
  WebhookMaxSubscriberTimeout_def WebhookConfigReadBudget_def WebhookAttemptDeadline_def
  WebhookPoolSize_def WebhookClaimInterval_def WebhookPrepareDeadline_def
  WebhookRecordDeadline_def WebhookShutdownDeadline_def WebhookExpiry_def
  WebhookBackoffCap_def OutboundLockTimeout_def

section \<open>The policy of a family\<close>

record policy =
  plFamily :: family
  plLease :: int
  plAttemptDeadline :: int
  plPoolSize :: int
  plClaimInterval :: int
  plPrepareDeadline :: int
  plRecordDeadline :: int
  plShutdownDeadline :: int
  plConfigReadBudget :: int
  plMaxSubscriberTimeout :: int
  plExpiry :: int
  plBackoffCap :: int

text \<open>The retry curve.\<close>

definition backoffBase :: int where "backoffBase = 2 * Second"
definition backoffCap :: int where "backoffCap = 5 * Minute"
definition backoffJitter :: real where "backoffJitter = 20 / 100"
definition backoffStreakCap :: int where "backoffStreakCap = 24"

fun PolicyOf :: "family \<Rightarrow> family + policy" where
  "PolicyOf FamilyNotification = Inr
     \<lparr>plFamily = FamilyNotification, plLease = NotificationLease,
      plAttemptDeadline = NotificationAttemptDeadline, plPoolSize = NotificationPoolSize,
      plClaimInterval = NotificationClaimInterval,
      plPrepareDeadline = NotificationPrepareDeadline,
      plRecordDeadline = NotificationRecordDeadline,
      plShutdownDeadline = NotificationShutdownDeadline,
      plConfigReadBudget = 0, plMaxSubscriberTimeout = 0, plExpiry = 0,
      plBackoffCap = backoffCap\<rparr>"
| "PolicyOf FamilyHandoff = Inr
     \<lparr>plFamily = FamilyHandoff, plLease = HandoffLease,
      plAttemptDeadline = HandoffAttemptDeadline, plPoolSize = HandoffPoolSize,
      plClaimInterval = HandoffClaimInterval,
      plPrepareDeadline = HandoffPrepareDeadline,
      plRecordDeadline = HandoffRecordDeadline,
      plShutdownDeadline = HandoffShutdownDeadline,
      plConfigReadBudget = 0, plMaxSubscriberTimeout = 0, plExpiry = 0,
      plBackoffCap = backoffCap\<rparr>"
| "PolicyOf FamilyWebhook = Inr
     \<lparr>plFamily = FamilyWebhook, plLease = WebhookLease,
      plAttemptDeadline = WebhookAttemptDeadline, plPoolSize = WebhookPoolSize,
      plClaimInterval = WebhookClaimInterval,
      plPrepareDeadline = WebhookPrepareDeadline,
      plRecordDeadline = WebhookRecordDeadline,
      plShutdownDeadline = WebhookShutdownDeadline,
      plConfigReadBudget = WebhookConfigReadBudget,
      plMaxSubscriberTimeout = WebhookMaxSubscriberTimeout, plExpiry = WebhookExpiry,
      plBackoffCap = WebhookBackoffCap\<rparr>"
| "PolicyOf f = Inl f"

section \<open>The phone's own numbers\<close>

definition PhonePoolSize :: int where "PhonePoolSize = 4"
definition PhoneFirstWait :: int where "PhoneFirstWait = 90 * Second"
definition PhonePollInterval :: int where "PhonePollInterval = 30 * Second"
definition PhoneReceiptDeadline :: int where "PhoneReceiptDeadline = 10 * Minute"
definition PhonePollDeadline :: int where "PhonePollDeadline = 10 * Second"
definition PhoneRetryFloor :: int where "PhoneRetryFloor = Minute"

definition ProviderPhone :: string where "ProviderPhone = ''phone''"
definition ProviderSlack :: string where "ProviderSlack = ''slack''"
definition ProviderTelegram :: string where "ProviderTelegram = ''telegram''"
definition ProviderWebhook :: string where "ProviderWebhook = ''webhook''"

record receipt_policy =
  rpFirstWait :: int
  rpPollInterval :: int
  rpDeadline :: int
  rpPollDeadline :: int

definition ReceiptPolicyOf :: "string \<Rightarrow> receipt_policy option" where
  "ReceiptPolicyOf provider =
     (if provider \<noteq> ProviderPhone then None
      else Some \<lparr>rpFirstWait = PhoneFirstWait, rpPollInterval = PhonePollInterval,
             rpDeadline = PhoneReceiptDeadline, rpPollDeadline = PhonePollDeadline\<rparr>)"

definition RetryFloorOf :: "string \<Rightarrow> int" where
  "RetryFloorOf provider = (if provider = ProviderPhone then PhoneRetryFloor else 0)"

lemmas phone_constants =
  PhonePoolSize_def PhoneFirstWait_def PhonePollInterval_def PhoneReceiptDeadline_def
  PhonePollDeadline_def PhoneRetryFloor_def

section \<open>Lanes\<close>

definition LaneDefault :: string where "LaneDefault = ''default''"
definition LanePhone :: string where "LanePhone = ''phone''"

definition Families :: "family list" where
  "Families = [FamilyNotification, FamilyHandoff, FamilyWebhook]"

definition Lanes :: "(family \<times> string) list" where
  "Lanes = [(FamilyNotification, LaneDefault), (FamilyNotification, LanePhone),
     (FamilyHandoff, LaneDefault), (FamilyWebhook, LaneDefault)]"

text \<open>The loop over the lanes: the first that matches answers, and a miss is an error.\<close>

fun pool_among :: "(family \<times> string) list \<Rightarrow> family \<Rightarrow> string \<Rightarrow> policy
    \<Rightarrow> (string \<times> family) + int" where
  "pool_among [] family lane policy = Inl (lane, family)"
| "pool_among ((f, l) # known) family lane policy =
     (if f \<noteq> family \<or> l \<noteq> lane then pool_among known family lane policy
      else if lane = LanePhone then Inr PhonePoolSize
      else Inr (plPoolSize policy))"

definition lanePool :: "family \<Rightarrow> string \<Rightarrow> policy \<Rightarrow> (string \<times> family) + int" where
  "lanePool family lane policy = pool_among Lanes family lane policy"

section \<open>The retry curve\<close>

text \<open>
  Floating point is the code's: \<open>fl\<close> is the rounding of a binary64 operation, and
  \<open>trunc\<close> the conversion of a float to an integer, which drops the fraction.  The
  exact value before the jitter is \<open>backoff_raw\<close>; it is an integer below \<open>2 ^ 24 * 2e9\<close>
  whose significand fits in 53 bits, so the code computes it without rounding.
\<close>

definition clamp_streak :: "int \<Rightarrow> int" where
  "clamp_streak streak =
     (let s = (if streak < 1 then 1 else streak)
      in if s > backoffStreakCap then backoffStreakCap else s)"

definition backoff_raw :: "int \<Rightarrow> int \<Rightarrow> int" where
  "backoff_raw cap streak =
     (let raw = backoffBase * 2 ^ nat (clamp_streak streak - 1)
      in if raw > cap then cap else raw)"

definition trunc :: "real \<Rightarrow> int" where
  "trunc r = (if r < 0 then \<lceil>r\<rceil> else \<lfloor>r\<rfloor>)"

definition backoffWith :: "(real \<Rightarrow> real) \<Rightarrow> int \<Rightarrow> int \<Rightarrow> real \<Rightarrow> int" where
  "backoffWith fl cap streak fraction =
     (let raw = real_of_int (backoff_raw cap streak);
          spread = fl (fl (raw * fl backoffJitter) * fl (fl (2 * fraction) - 1));
          delay = trunc (fl (raw + spread))
      in if delay < 0 then trunc raw else delay)"

definition BackoffFor :: "(real \<Rightarrow> real) \<Rightarrow> family \<Rightarrow> int \<Rightarrow> real \<Rightarrow> family + int" where
  "BackoffFor fl family streak fraction =
     then_ok (PolicyOf family) (\<lambda>policy.
       Inr (backoffWith fl (plBackoffCap policy) streak fraction))"

section \<open>The curve\<close>

lemma clamp_bounds: "1 \<le> clamp_streak s" "clamp_streak s \<le> 24"
  by (auto simp: clamp_streak_def backoffStreakCap_def Let_def)

lemma clamp_mono: "s \<le> s' \<Longrightarrow> clamp_streak s \<le> clamp_streak s'"
  by (auto simp: clamp_streak_def backoffStreakCap_def Let_def)

lemma backoff_raw_eq: "backoff_raw cap s = min cap (backoffBase * 2 ^ nat (clamp_streak s - 1))"
  by (auto simp: backoff_raw_def Let_def)

lemma backoff_raw_mono: "s \<le> s' \<Longrightarrow> backoff_raw cap s \<le> backoff_raw cap s'"
proof -
  assume "s \<le> s'"
  then have "nat (clamp_streak s - 1) \<le> nat (clamp_streak s' - 1)"
    using clamp_mono [of s s'] by simp
  then have "(2::int) ^ nat (clamp_streak s - 1) \<le> 2 ^ nat (clamp_streak s' - 1)"
    by (intro power_increasing) auto
  then show ?thesis unfolding backoff_raw_eq by (intro min.mono) (simp_all add: backoffBase_def)
qed

lemma backoff_raw_bounds:
  assumes "backoffBase \<le> cap"
  shows "backoffBase \<le> backoff_raw cap s" "backoff_raw cap s \<le> cap"
  using assms by (auto simp: backoff_raw_eq backoffBase_def)

lemma policy_cap:
  assumes "PolicyOf f = Inr pl"
  shows "backoffBase \<le> plBackoffCap pl" "plBackoffCap pl \<le> WebhookBackoffCap"
  using assms by (cases f; auto simp: backoffBase_def backoffCap_def WebhookBackoffCap_def)+

text \<open>
  What the code relies on of binary64: in range, one operation is off by half a unit in
  the last place, and below the normal range by half the smallest subnormal.
\<close>

definition rounds :: "(real \<Rightarrow> real) \<Rightarrow> bool" where
  "rounds fl \<longleftrightarrow> (\<forall>x. \<bar>x\<bar> \<le> 2 ^ 1023 \<longrightarrow> \<bar>fl x - x\<bar> \<le> \<bar>x\<bar> / 2 ^ 53 + 1 / 2 ^ 1075)"

lemma rounds_close:
  assumes "rounds fl" and "\<bar>x\<bar> \<le> 10 ^ 15"
  shows "\<bar>fl x - x\<bar> \<le> (\<bar>x\<bar> + 1) / 10 ^ 15"
proof -
  have "(10::real) ^ 15 \<le> 2 ^ 1023" by simp
  with assms have "\<bar>fl x - x\<bar> \<le> \<bar>x\<bar> / 2 ^ 53 + 1 / 2 ^ 1075"
    unfolding rounds_def by (meson order_trans)
  moreover have "\<bar>x\<bar> / 2 ^ 53 \<le> \<bar>x\<bar> / 10 ^ 15"
    by (rule divide_left_mono) auto
  moreover have "1 / (2::real) ^ 1075 \<le> 1 / 10 ^ 15" by simp
  ultimately show ?thesis by (simp add: add_divide_distrib)
qed

lemma rounds_near: "rounds fl \<Longrightarrow> \<bar>x\<bar> \<le> 3 * 10 ^ 12 \<Longrightarrow> \<bar>fl x - x\<bar> \<le> 1 / 200"
  using rounds_close [of fl x] by simp

lemma trunc_close: "\<bar>real_of_int (trunc r) - r\<bar> < 1"
  unfolding trunc_def by (simp; linarith)

text \<open>The jitter moves a delay by a fifth of it, and rounding by under a nanosecond more.\<close>

lemma spread_bound:
  assumes fl: "rounds fl" and R: "0 \<le> R" "R \<le> 2 * 10 ^ 12" and f: "0 \<le> f" "f \<le> 1"
  shows "\<bar>fl (fl (R * fl backoffJitter) * fl (fl (2 * f) - 1))\<bar> \<le> R / 5 + 1 / 10"
proof -
  have j: "\<bar>fl backoffJitter - 1 / 5\<bar> \<le> 2 / 10 ^ 15"
    using rounds_close [OF fl, of backoffJitter] by (simp add: backoffJitter_def)
  have Rj: "\<bar>R * fl backoffJitter - R / 5\<bar> \<le> 1 / 200"
  proof -
    have "\<bar>R * fl backoffJitter - R / 5\<bar> = R * \<bar>fl backoffJitter - 1 / 5\<bar>"
      using R(1) abs_mult [of R "fl backoffJitter - 1 / 5"] by (simp add: right_diff_distrib)
    also have "\<dots> \<le> (2 * 10 ^ 12) * (2 / 10 ^ 15)"
      using R j by (intro mult_mono) auto
    finally show ?thesis by simp
  qed
  have a: "\<bar>fl (R * fl backoffJitter) - R / 5\<bar> \<le> 1 / 100"
  proof -
    have "\<bar>R * fl backoffJitter\<bar> \<le> 3 * 10 ^ 12"
      using Rj R unfolding abs_le_iff by simp
    from rounds_near [OF fl this] Rj show ?thesis by linarith
  qed
  have g: "\<bar>fl (2 * f) - 2 * f\<bar> \<le> 3 / 10 ^ 15"
    using rounds_close [OF fl, of "2 * f"] f by (simp add: field_simps)
  have h: "\<bar>fl (fl (2 * f) - 1)\<bar> \<le> 1 + 1 / 10 ^ 14"
  proof -
    have u: "\<bar>fl (2 * f) - 1\<bar> \<le> 1 + 3 / 10 ^ 15" 
      using g f unfolding abs_le_iff by auto
    then have "\<bar>fl (2 * f) - 1\<bar> \<le> 10 ^ 15" by simp
    from rounds_close [OF fl this] u show ?thesis unfolding abs_le_iff by auto
  qed
  have p: "\<bar>fl (R * fl backoffJitter) * fl (fl (2 * f) - 1)\<bar> \<le> R / 5 + 1 / 20"
  proof -
    have "\<bar>fl (R * fl backoffJitter) * fl (fl (2 * f) - 1)\<bar>
        \<le> (R / 5 + 1 / 100) * (1 + 1 / 10 ^ 14)"
      unfolding abs_mult
    proof (rule mult_mono [OF _ h])
      show "\<bar>fl (R * fl backoffJitter)\<bar> \<le> R / 5 + 1 / 100" using a R by linarith
    qed (use R in auto)
    also have "\<dots> \<le> R / 5 + 1 / 20" using R by (simp add: field_simps)
    finally show ?thesis .
  qed
  from p R have "\<bar>fl (R * fl backoffJitter) * fl (fl (2 * f) - 1)\<bar> \<le> 3 * 10 ^ 12" by simp
  from rounds_near [OF fl this] p show ?thesis by linarith
qed

lemma backoffWith_bounds:
  assumes fl: "rounds fl" and f: "0 \<le> f" "f \<le> 1"
    and cap: "backoffBase \<le> cap" "cap \<le> WebhookBackoffCap"
  shows "\<bar>real_of_int (backoffWith fl cap s f) - backoff_raw cap s\<bar> \<le> backoff_raw cap s / 5 + 2"
proof -
  define R where "R = real_of_int (backoff_raw cap s)"
  define sp where "sp = fl (fl (R * fl backoffJitter) * fl (fl (2 * f) - 1))"
  have R: "2000000000 \<le> R" "R \<le> 2 * 10 ^ 12"
    using backoff_raw_bounds [OF cap(1), of s] cap
    unfolding R_def by (simp_all add: backoffBase_def WebhookBackoffCap_def)
  have sp: "\<bar>sp\<bar> \<le> R / 5 + 1 / 10" unfolding sp_def using R f by (intro spread_bound [OF fl]) auto
  have d: "\<bar>fl (R + sp) - (R + sp)\<bar> \<le> 1 / 10"
  proof -
    have "\<bar>R + sp\<bar> \<le> 3 * 10 ^ 12" using sp R by linarith
    from rounds_near [OF fl this] show ?thesis by simp
  qed
  have t: "\<bar>real_of_int (trunc (fl (R + sp))) - fl (R + sp)\<bar> < 1" by (rule trunc_close)
  have pos: "\<not> trunc (fl (R + sp)) < 0"
    using t d sp R by linarith
  have "backoffWith fl cap s f = trunc (fl (R + sp))"
    using pos unfolding backoffWith_def Let_def R_def [symmetric] sp_def [symmetric] by simp
  then show ?thesis using t d sp R unfolding R_def by linarith
qed

text \<open>How many failures it takes to reach the ceiling.\<close>

definition saturates_at :: "family \<Rightarrow> int" where
  "saturates_at f = (if f = FamilyWebhook then 11 else 9)"

lemma pow_reaches:
  "backoffBase * 2 ^ nat (clamp_streak s - 1) \<ge> cap \<longleftrightarrow> k \<le> s"
  if "cap \<le> backoffBase * 2 ^ nat (k - 1)" "backoffBase * 2 ^ nat (k - 2) < cap" "2 \<le> k" "k \<le> 24"
proof
  assume "k \<le> s"
  then have "k \<le> clamp_streak s" using that(3,4) by (auto simp: clamp_streak_def backoffStreakCap_def Let_def)
  then have "(2::int) ^ nat (k - 1) \<le> 2 ^ nat (clamp_streak s - 1)"
    by (intro power_increasing) auto
  then have "backoffBase * 2 ^ nat (k - 1) \<le> backoffBase * 2 ^ nat (clamp_streak s - 1)"
    by (intro mult_left_mono) (simp_all add: backoffBase_def)
  with that(1) show "cap \<le> backoffBase * 2 ^ nat (clamp_streak s - 1)" by simp
next
  assume le: "cap \<le> backoffBase * 2 ^ nat (clamp_streak s - 1)"
  show "k \<le> s"
  proof (rule ccontr)
    assume "\<not> k \<le> s"
    then have "nat (clamp_streak s - 1) \<le> nat (k - 2)"
      using that(3,4) by (auto simp: clamp_streak_def backoffStreakCap_def Let_def)
    then have "(2::int) ^ nat (clamp_streak s - 1) \<le> 2 ^ nat (k - 2)"
      by (intro power_increasing) auto
    then have "backoffBase * 2 ^ nat (clamp_streak s - 1) \<le> backoffBase * 2 ^ nat (k - 2)"
      by (intro mult_left_mono) (simp_all add: backoffBase_def)
    then show False using le that(2) by simp
  qed
qed

lemma ceiling_from:
  assumes "PolicyOf f = Inr pl"
  shows "backoff_raw (plBackoffCap pl) s = plBackoffCap pl \<longleftrightarrow> saturates_at f \<le> s"
proof -
  have "plBackoffCap pl \<le> backoffBase * 2 ^ nat (clamp_streak s - 1) \<longleftrightarrow> saturates_at f \<le> s"
    using assms by (intro pow_reaches; cases f)
      (auto simp: saturates_at_def backoffBase_def backoffCap_def WebhookBackoffCap_def)
  then show ?thesis by (simp add: backoff_raw_eq min_def) linarith
qed

section \<open>Properties\<close>

text \<open>
  The numbers of a family fit inside one another: a worker's whole chain of calls -
  prepare, open, attempt, close - ends before the lease it runs under, a stopping worker
  waits at least that long, a contended row is refused before the call that asked for it
  gives up, and a subscriber keeps its promised timeout however slow the configuration
  read before it.
\<close>

theorem family_numbers_fit:
  assumes "PolicyOf f = Inr pl"
  shows "plFamily pl = f \<and> f \<in> set Families \<and>
     (let chain = plPrepareDeadline pl + plRecordDeadline pl + plAttemptDeadline pl
          + plRecordDeadline pl
      in chain < plLease pl \<and> chain < plShutdownDeadline pl) \<and>
     OutboundLockTimeout < plRecordDeadline pl \<and>
     plConfigReadBudget pl + plMaxSubscriberTimeout pl < plAttemptDeadline pl \<and>
     0 < plClaimInterval pl \<and> 0 < plPoolSize pl"
  using assms by (cases f) (auto simp: constants Families_def)


text \<open>
  The curve grows with the failures and stops at the family's ceiling: it is reached
  from the ninth failure in a row, from the eleventh for webhooks, and not before.
\<close>

theorem backoff_saturates:
  assumes "PolicyOf f = Inr pl" and "streak \<le> streak'"
  shows "backoff_raw (plBackoffCap pl) streak \<le> backoff_raw (plBackoffCap pl) streak' \<and>
     (backoff_raw (plBackoffCap pl) streak = plBackoffCap pl \<longleftrightarrow> saturates_at f \<le> streak)"
  using backoff_raw_mono [OF assms(2)] ceiling_from [OF assms(1)] by simp

section \<open>Witnesses\<close>

theorem family_numbers_fit_witness:
  "\<exists>pl. PolicyOf FamilyWebhook = Inr pl \<and>
     plConfigReadBudget pl + plMaxSubscriberTimeout pl < plAttemptDeadline pl"
proof -
  obtain pl where pl: "PolicyOf FamilyWebhook = Inr pl" by simp
  from family_numbers_fit [OF pl] pl show ?thesis by blast
qed

lemma exact_rounds: "rounds (\<lambda>x. x)"
  by (simp add: rounds_def)


theorem backoff_saturates_witness:
  "\<exists>pl. PolicyOf FamilyHandoff = Inr pl \<and> backoff_raw (plBackoffCap pl) 8 \<noteq> plBackoffCap pl \<and>
     backoff_raw (plBackoffCap pl) 8 \<le> backoff_raw (plBackoffCap pl) 9"
proof -
  obtain pl where pl: "PolicyOf FamilyHandoff = Inr pl" by simp
  from backoff_saturates [OF pl, of 8 9] pl show ?thesis by (simp add: saturates_at_def)
qed

end
