(* ===== verification/Kinds.thy ===== *)
theory Kinds
  imports Vocabulary
begin

text \<open>
  What a kind of claim decides about its own deliveries
  (\<open>internal/outbound/kinds.go\<close>) and the grammar facts of a kind
  (\<open>familyOf\<close>, \<open>supportedVersions\<close>, \<open>checkVersion\<close>, \<open>requestIDFor\<close> of
  \<open>internal/outbound/keys/keys.go\<close>).  An unknown kind is refused, never defaulted.
\<close>

datatype kind_error =
    NotJudged kind | NotRestartable kind | NotNamed kind
  | UnknownKind kind | NoGrammarVersion kind int
  | FirstAdmissionWithRequestID | NoRequestID | RequestIDTooLong nat | HandoffWithRequestID

section \<open>The three closed functions of kinds.go\<close>

fun AcceptanceNamesObject :: "kind \<Rightarrow> kind_error + bool" where
  "AcceptanceNamesObject KindEscalation = Inr True"
| "AcceptanceNamesObject KindEscalationReplay = Inr True"
| "AcceptanceNamesObject KindHandoff = Inr True"
| "AcceptanceNamesObject KindWebhookEvent = Inr False"
| "AcceptanceNamesObject KindWebhookReplay = Inr False"
| "AcceptanceNamesObject k = Inl (NotJudged k)"

datatype effect_door = DoorResolveAmbiguity | DoorReplay

fun newEffectDoor :: "kind \<Rightarrow> kind_error + effect_door" where
  "newEffectDoor KindEscalation = Inr DoorResolveAmbiguity"
| "newEffectDoor KindEscalationReplay = Inr DoorResolveAmbiguity"
| "newEffectDoor KindHandoff = Inr DoorResolveAmbiguity"
| "newEffectDoor KindWebhookEvent = Inr DoorReplay"
| "newEffectDoor KindWebhookReplay = Inr DoorReplay"
| "newEffectDoor k = Inl (NotRestartable k)"

fun CreateOperationOf :: "kind \<Rightarrow> kind_error + operation" where
  "CreateOperationOf KindEscalation = Inr OperationSend"
| "CreateOperationOf KindEscalationReplay = Inr OperationSend"
| "CreateOperationOf KindHandoff = Inr OperationSend"
| "CreateOperationOf KindWebhookEvent = Inr OperationDeliver"
| "CreateOperationOf KindWebhookReplay = Inr OperationDeliver"
| "CreateOperationOf k = Inl (NotNamed k)"

section \<open>The grammar facts of a kind\<close>

fun familyOf :: "kind \<Rightarrow> kind_error + family" where
  "familyOf KindEscalation = Inr FamilyNotification"
| "familyOf KindEscalationReplay = Inr FamilyNotification"
| "familyOf KindHandoff = Inr FamilyHandoff"
| "familyOf KindWebhookEvent = Inr FamilyWebhook"
| "familyOf KindWebhookReplay = Inr FamilyWebhook"
| "familyOf k = Inl (UnknownKind k)"

definition GrammarV1 :: int where "GrammarV1 = 1"

fun supportedVersions :: "kind \<Rightarrow> kind_error + int list" where
  "supportedVersions KindEscalation = Inr [GrammarV1]"
| "supportedVersions KindEscalationReplay = Inr [GrammarV1]"
| "supportedVersions KindHandoff = Inr [GrammarV1]"
| "supportedVersions KindWebhookEvent = Inr [GrammarV1]"
| "supportedVersions KindWebhookReplay = Inr [GrammarV1]"
| "supportedVersions k = Inl (UnknownKind k)"

definition checkVersion :: "kind \<Rightarrow> int \<Rightarrow> kind_error + unit" where
  "checkVersion k version =
     then_ok (supportedVersions k) (\<lambda>versions.
       if version \<in> set versions then Inr () else Inl (NoGrammarVersion k version))"

definition MaxClientRequestID :: nat where "MaxClientRequestID = 128"

definition carriesNone :: "kind_error \<Rightarrow> string \<Rightarrow> kind_error + unit" where
  "carriesNone e rid = refuse_if (rid \<noteq> []) e (Inr ())"

definition carriesOne :: "string \<Rightarrow> kind_error + unit" where
  "carriesOne rid =
     refuse_if (rid = []) NoRequestID
     (refuse_if (length rid > MaxClientRequestID) (RequestIDTooLong (length rid)) (Inr ()))"

fun requestIDFor :: "kind \<Rightarrow> string \<Rightarrow> kind_error + unit" where
  "requestIDFor KindEscalation rid = carriesNone FirstAdmissionWithRequestID rid"
| "requestIDFor KindWebhookEvent rid = carriesNone FirstAdmissionWithRequestID rid"
| "requestIDFor KindEscalationReplay rid = carriesOne rid"
| "requestIDFor KindWebhookReplay rid = carriesOne rid"
| "requestIDFor KindHandoff rid = carriesNone HandoffWithRequestID rid"
| "requestIDFor (KindOther x) rid = Inl (UnknownKind (KindOther x))"

section \<open>The functions agree on which kinds exist\<close>

definition known_kind :: "kind \<Rightarrow> bool" where
  "known_kind k = (case k of KindOther _ \<Rightarrow> False | _ \<Rightarrow> True)"

text \<open>
  A delivery that makes a nameable object is sent, is revived by an operator and
  never runs in the webhook family; one that makes none is delivered and replayed.
\<close>

lemma kind_functions_agree:
  "newEffectDoor k = Inr DoorReplay \<longleftrightarrow> familyOf k = Inr FamilyWebhook"
  "AcceptanceNamesObject k = Inr False \<longleftrightarrow> familyOf k = Inr FamilyWebhook"
  "CreateOperationOf k = Inr OperationDeliver \<longleftrightarrow> familyOf k = Inr FamilyWebhook"
  "succeeds (newEffectDoor k) \<longleftrightarrow> known_kind k"
  "succeeds (familyOf k) \<longleftrightarrow> known_kind k"
  by (cases k; simp add: known_kind_def)+

lemma door_replay_iff: "newEffectDoor k = Inr DoorReplay \<longleftrightarrow> k \<in> {KindWebhookEvent, KindWebhookReplay}"
  by (cases k) auto

lemma checkVersion_ok: "checkVersion k v = Inr () \<longleftrightarrow> known_kind k \<and> v = GrammarV1"
  by (cases k) (auto simp: checkVersion_def known_kind_def)

end
