(* ===== verification/Machine.thy ===== *)
theory Machine
  imports Kinds
begin

text \<open>
  The state machine of a commitment: \<open>internal/outbound/machine.go\<close>.

  \<open>Decide\<close> takes one \<open>input\<close> and answers with a \<open>transition\<close> (where the commitment
  goes, what has to be written with it, and the row of the specification that
  fired) or with \<open>invalid_transition\<close>, one constructor per refusal of the code.
\<close>

section \<open>What is asked and what is answered\<close>

datatype trigger =
    TriggerPreparation | TriggerFinishAttempt | TriggerRecoverStale
  | TriggerOperator | TriggerVerdict | TriggerOther string

datatype decision =
    DecisionAssumeAccepted | DecisionCancel
  | DecisionRetryCurrentGeneration | DecisionRetryNewGeneration | DecisionOther string

datatype verdict =
    VerdictHappened | VerdictNotPlaced | VerdictUnknown | VerdictStillGoing | VerdictOther string

datatype timeline_kind =
    TimelineNone | TimelineSent | TimelineProviderConfirmed | TimelineHandedOver
  | TimelineNotPlaced | TimelineNoContact | TimelineAssumedAccepted | TimelineFailed
  | TimelineExpired | TimelineCanceled | TimelineSentAlongsideAck | TimelineLeaseLost

record input =
  inIntent :: intent
  inTrigger :: trigger
  inPreparation :: preparation_outcome
  inOutcome :: attempt_outcome
  inAttemptRevision :: "int option"
  inAttemptIsFinal :: bool
  inExpired :: bool
  inVerdict :: verdict
  inDoubtInGeneration :: bool
  inDecision :: decision
  inLastAttemptKind :: attempt_kind
  inAmbiguousInGeneration :: bool
  inAcceptedDuplicateRisk :: bool
  inResourceLossConfirmed :: bool
  inNewExpiryProvided :: bool

record effects =
  OpenGeneration :: bool
  NewGeneration :: bool
  ClearLease :: bool
  ClearCurrentAttempt :: bool
  ConsumeCancellation :: bool
  ScheduleRetry :: bool
  ScheduleNow :: bool
  ResetFailureStreak :: bool
  BumpFailureStreak :: bool
  effProof :: proof_of
  ApplyRevision :: bool
  StoreReceipt :: bool
  TriggerGroup :: bool
  RecordDuplicateRisk :: bool
  RaiseFailureSignal :: bool
  AwaitReceipt :: bool
  WithdrawObligation :: bool
  Timeline :: timeline_kind

text \<open>The zero value of \<open>Effects\<close>: nothing to write.\<close>

definition NoProof :: proof_of where "NoProof = ProofOther []"

definition no_effects :: effects where
  "no_effects = \<lparr>OpenGeneration = False, NewGeneration = False, ClearLease = False,
     ClearCurrentAttempt = False, ConsumeCancellation = False, ScheduleRetry = False,
     ScheduleNow = False, ResetFailureStreak = False, BumpFailureStreak = False,
     effProof = NoProof, ApplyRevision = False, StoreReceipt = False, TriggerGroup = False,
     RecordDuplicateRisk = False, RaiseFailureSignal = False, AwaitReceipt = False,
     WithdrawObligation = False, Timeline = TimelineNone\<rparr>"

lemma no_effects_sel [simp]:
  "OpenGeneration no_effects = False" "NewGeneration no_effects = False"
  "ClearLease no_effects = False" "ClearCurrentAttempt no_effects = False"
  "ConsumeCancellation no_effects = False" "ScheduleRetry no_effects = False"
  "ScheduleNow no_effects = False" "ResetFailureStreak no_effects = False"
  "BumpFailureStreak no_effects = False" "effProof no_effects = NoProof"
  "ApplyRevision no_effects = False" "StoreReceipt no_effects = False"
  "TriggerGroup no_effects = False" "RecordDuplicateRisk no_effects = False"
  "RaiseFailureSignal no_effects = False" "AwaitReceipt no_effects = False"
  "WithdrawObligation no_effects = False" "Timeline no_effects = TimelineNone"
  by (simp_all add: no_effects_def)

lemma NoProof_neq [simp]:
  "ProofAccepted \<noteq> NoProof" "ProofProviderConfirmed \<noteq> NoProof" "ProofAssumed \<noteq> NoProof"
  "NoProof \<noteq> ProofAccepted" "NoProof \<noteq> ProofProviderConfirmed" "NoProof \<noteq> ProofAssumed"
  by (simp_all add: NoProof_def)

record transition =
  trTo :: status
  trEffects :: effects
  trRow :: string

definition goes :: "status \<Rightarrow> effects \<Rightarrow> string \<Rightarrow> 'e + transition" where
  "goes to e row = Inr \<lparr>trTo = to, trEffects = e, trRow = row\<rparr>"

lemma ensures_goes [simp]: "ensures P (goes s e r) = P \<lparr>trTo = s, trEffects = e, trRow = r\<rparr>"
  by (simp add: goes_def)

lemma succeeds_goes [simp]: "succeeds (goes s e r)"
  by (simp add: goes_def)

datatype invalid_transition =
    UnknownTrigger trigger
  | PreparationFrom status | UnknownPreparation preparation_outcome
  | FinishingFrom status | CanceledWithoutRequest | UnknownOutcome attempt_outcome
  | AssumeOnlyOneShot | UnknownPolicy ambiguity_policy
  | RecoveringFrom status
  | UnknownCompletionMode completion_mode | OnlyOneShotWaits
  | VerdictNotAwaited | VerdictFrom status | UnknownVerdict verdict
  | VerdictWhileOpen verdict | VerdictLeavesRepeat verdict
  | UnknownProof proof_of | NoRevisionApplied
  | NoDecisionFrom status | UnknownDecision decision
  | AssumeKnownFalse status | AssumeNeedsReceipt | CancelExpired
  | RetryNeedsDeadline | NewGenerationNeedsLoss | NewGenerationNeedsRisk
  | DoorRefused kind_error | OtherDoor kind effect_door

section \<open>Where a success lands\<close>

text \<open>\<open>settleApplied\<close>: the four cases S1 to S4, in the order the code checks them.\<close>

definition settledEffects :: "proof_of \<Rightarrow> timeline_kind \<Rightarrow> bool \<Rightarrow> effects" where
  "settledEffects proof line risk = no_effects\<lparr>ClearLease := True, ClearCurrentAttempt := True,
     ResetFailureStreak := True, ApplyRevision := True, StoreReceipt := True,
     TriggerGroup := True, effProof := proof, Timeline := line, RecordDuplicateRisk := risk\<rparr>"

fun proofEffects :: "proof_of \<Rightarrow> invalid_transition + effects" where
  "proofEffects ProofAccepted = Inr (settledEffects ProofAccepted TimelineSent False)"
| "proofEffects ProofProviderConfirmed =
     Inr (settledEffects ProofProviderConfirmed TimelineProviderConfirmed False)"
| "proofEffects ProofAssumed = Inr (settledEffects ProofAssumed TimelineAssumedAccepted True)"
| "proofEffects p = Inl (UnknownProof p)"

definition settleApplied :: "input \<Rightarrow> proof_of \<Rightarrow> string \<Rightarrow> invalid_transition + transition" where
  "settleApplied x proof row =
     then_ok (proofEffects proof) (\<lambda>e.
       if iForm (inIntent x) = FormOneShot then goes StatusSucceeded e (row @ ''/S1'')
       else case inAttemptRevision x of
         None \<Rightarrow> Inl NoRevisionApplied
       | Some r \<Rightarrow>
           if inAttemptIsFinal x then goes StatusSucceeded e (row @ ''/S2'')
           else if r \<ge> iDesiredRevision (inIntent x) then goes StatusIdle e (row @ ''/S3'')
           else goes StatusPending (e\<lparr>ScheduleNow := True\<rparr>) (row @ ''/S4''))"

text \<open>\<open>awaitReceipt\<close>: an acceptance that only means "queued".\<close>

definition awaitReceipt :: "input \<Rightarrow> string \<Rightarrow> invalid_transition + transition" where
  "awaitReceipt x row =
     (if iForm (inIntent x) \<noteq> FormOneShot then Inl OnlyOneShotWaits
      else goes StatusAwaitingReceipt
        (no_effects\<lparr>ClearLease := True, ClearCurrentAttempt := True,
           ResetFailureStreak := True, StoreReceipt := True, AwaitReceipt := True,
           Timeline := TimelineHandedOver\<rparr>) row)"

definition refusedCall :: "input \<Rightarrow> invalid_transition + transition" where
  "refusedCall x =
     (if inDoubtInGeneration x then
        goes StatusAwaitingReceipt
          (no_effects\<lparr>ClearLease := True, ClearCurrentAttempt := True,
             BumpFailureStreak := True, AwaitReceipt := True\<rparr>) ''T10w''
      else
        goes StatusPending
          (no_effects\<lparr>ClearLease := True, ClearCurrentAttempt := True, NewGeneration := True,
             ScheduleNow := True, BumpFailureStreak := True,
             Timeline := TimelineNotPlaced\<rparr>) ''T10r'')"

fun reduceProviderAcceptance :: "input \<Rightarrow> string \<Rightarrow> invalid_transition + transition" where
  "reduceProviderAcceptance x row =
     (case iCompletionMode (inIntent x) of
        CompletionOnAcceptance \<Rightarrow> settleApplied x ProofAccepted row
      | CompletionOnProviderReceipt \<Rightarrow> awaitReceipt x (row @ ''r'')
      | m \<Rightarrow> Inl (UnknownCompletionMode m))"

section \<open>Preparation\<close>

definition decidePreparation :: "input \<Rightarrow> invalid_transition + transition" where
  "decidePreparation x =
     (if iStatus (inIntent x) \<noteq> StatusPending then Inl (PreparationFrom (iStatus (inIntent x)))
      else case inPreparation x of
        PreparationReady \<Rightarrow>
          goes StatusSending
            (no_effects\<lparr>OpenGeneration := \<not> iGenerationBound (inIntent x)\<rparr>) ''T4''
      | PreparationPermanent \<Rightarrow>
          goes StatusPermanentFailed
            (no_effects\<lparr>ClearLease := True, BumpFailureStreak := True,
               RaiseFailureSignal := True, Timeline := TimelineFailed\<rparr>) ''T4a''
      | PreparationTransient \<Rightarrow>
          goes StatusPending
            (no_effects\<lparr>ClearLease := True, BumpFailureStreak := True,
               ScheduleRetry := True\<rparr>) ''T4b''
      | PreparationNoContact \<Rightarrow>
          goes StatusNoContact
            (no_effects\<lparr>ClearLease := True, Timeline := TimelineNoContact\<rparr>) ''T4c''
      | p \<Rightarrow> Inl (UnknownPreparation p))"

section \<open>A call that was answered under a live lease\<close>

definition decideAmbiguous :: "input \<Rightarrow> invalid_transition + transition" where
  "decideAmbiguous x =
     (case iAmbiguityPolicy (inIntent x) of
        PolicyRetry \<Rightarrow>
          goes StatusPending
            (no_effects\<lparr>ClearLease := True, ClearCurrentAttempt := True,
               BumpFailureStreak := True, ScheduleRetry := True\<rparr>) ''T11''
      | PolicyReconcileThenRetry \<Rightarrow>
          goes StatusPending
            (no_effects\<lparr>ClearLease := True, ClearCurrentAttempt := True,
               BumpFailureStreak := True, ScheduleRetry := True\<rparr>) ''T12''
      | PolicyManualReview \<Rightarrow>
          goes StatusManualReview
            (no_effects\<lparr>ClearLease := True, ClearCurrentAttempt := True,
               BumpFailureStreak := True\<rparr>) ''T13''
      | PolicyAssumeAccepted \<Rightarrow>
          (if iForm (inIntent x) \<noteq> FormOneShot then Inl AssumeOnlyOneShot
           else settleApplied x ProofAssumed ''T14'')
      | p \<Rightarrow> Inl (UnknownPolicy p))"

fun knownOutcome :: "attempt_outcome \<Rightarrow> bool" where
  "knownOutcome (OutcomeOther _) = False"
| "knownOutcome _ = True"

text \<open>The cancellation flag is read first: the branch of \<open>decideFinish\<close> under it.\<close>

definition finishWithdrawn :: "input \<Rightarrow> invalid_transition + transition" where
  "finishWithdrawn x =
     (if inOutcome x = OutcomeAccepted
         \<and> iCompletionMode (inIntent x) = CompletionOnProviderReceipt then
        then_ok (awaitReceipt x ''T16r'') (\<lambda>w.
          Inr (w\<lparr>trEffects := (trEffects w)\<lparr>ConsumeCancellation := True,
                   WithdrawObligation := True\<rparr>\<rparr>))
      else if inOutcome x = OutcomeAccepted then
        then_ok (settleApplied x ProofAccepted ''T16'') (\<lambda>s.
          Inr (s\<lparr>trEffects := (trEffects s)\<lparr>ConsumeCancellation := True,
                   Timeline := TimelineSentAlongsideAck\<rparr>\<rparr>))
      else if \<not> knownOutcome (inOutcome x) then Inl (UnknownOutcome (inOutcome x))
      else goes StatusCanceled
        (no_effects\<lparr>ClearLease := True, ClearCurrentAttempt := True,
           ConsumeCancellation := True, Timeline := TimelineCanceled\<rparr>) ''T15'')"

definition decideFinish :: "input \<Rightarrow> invalid_transition + transition" where
  "decideFinish x =
     (if iStatus (inIntent x) \<noteq> StatusSending then Inl (FinishingFrom (iStatus (inIntent x)))
      else if iCancellationRequested (inIntent x) then finishWithdrawn x
      else case inOutcome x of
        OutcomeAccepted \<Rightarrow> reduceProviderAcceptance x ''T8''
      | OutcomeRetryableRejection \<Rightarrow>
          goes StatusPending
            (no_effects\<lparr>ClearLease := True, ClearCurrentAttempt := True,
               BumpFailureStreak := True, ScheduleRetry := True\<rparr>) ''T9''
      | OutcomePermanentRejection \<Rightarrow>
          (if iCompletionMode (inIntent x) = CompletionOnProviderReceipt
              \<and> iForm (inIntent x) = FormOneShot
           then refusedCall x
           else goes StatusPermanentFailed
             (no_effects\<lparr>ClearLease := True, ClearCurrentAttempt := True,
                BumpFailureStreak := True, RaiseFailureSignal := True,
                Timeline := TimelineFailed\<rparr>) ''T10'')
      | OutcomeAmbiguous \<Rightarrow> decideAmbiguous x
      | OutcomeCanceled \<Rightarrow> Inl CanceledWithoutRequest
      | o' \<Rightarrow> Inl (UnknownOutcome o'))"

section \<open>A lease that ran out with an attempt open\<close>

definition recoverRetry :: "input \<Rightarrow> invalid_transition + transition" where
  "recoverRetry x =
     (if inExpired x then
        goes StatusExpired
          (no_effects\<lparr>ClearLease := True, ClearCurrentAttempt := True,
             BumpFailureStreak := True, Timeline := TimelineExpired\<rparr>) ''T7''
      else
        goes StatusPending
          (no_effects\<lparr>ClearLease := True, ClearCurrentAttempt := True,
             BumpFailureStreak := True, ScheduleRetry := True,
             Timeline := TimelineLeaseLost\<rparr>) ''T7'')"

definition decideRecover :: "input \<Rightarrow> invalid_transition + transition" where
  "decideRecover x =
     (if iStatus (inIntent x) \<noteq> StatusSending then Inl (RecoveringFrom (iStatus (inIntent x)))
      else if iCancellationRequested (inIntent x) then
        goes StatusCanceled
          (no_effects\<lparr>ClearLease := True, ClearCurrentAttempt := True,
             ConsumeCancellation := True, BumpFailureStreak := True,
             Timeline := TimelineCanceled\<rparr>) ''T7''
      else case iAmbiguityPolicy (inIntent x) of
        PolicyManualReview \<Rightarrow>
          goes StatusManualReview
            (no_effects\<lparr>ClearLease := True, ClearCurrentAttempt := True,
               BumpFailureStreak := True, Timeline := TimelineLeaseLost\<rparr>) ''T7''
      | PolicyAssumeAccepted \<Rightarrow>
          (if iForm (inIntent x) \<noteq> FormOneShot then Inl AssumeOnlyOneShot
           else settleApplied x ProofAssumed ''T7'')
      | PolicyRetry \<Rightarrow> recoverRetry x
      | PolicyReconcileThenRetry \<Rightarrow> recoverRetry x
      | p \<Rightarrow> Inl (UnknownPolicy p))"

section \<open>The provider's word\<close>

definition verdictWhileAwaiting :: "input \<Rightarrow> invalid_transition + transition" where
  "verdictWhileAwaiting x =
     (case inVerdict x of
        VerdictHappened \<Rightarrow> settleApplied x ProofProviderConfirmed ''T35''
      | VerdictNotPlaced \<Rightarrow>
          (if iObligationWithdrawn (inIntent x) then
             goes StatusCanceled (no_effects\<lparr>Timeline := TimelineCanceled\<rparr>) ''T36w''
           else
             goes StatusPending
               (no_effects\<lparr>NewGeneration := True, ScheduleNow := True,
                  BumpFailureStreak := True, Timeline := TimelineNotPlaced\<rparr>) ''T36'')
      | VerdictUnknown \<Rightarrow> settleApplied x ProofAssumed ''T37''
      | VerdictStillGoing \<Rightarrow>
          goes StatusAwaitingReceipt (no_effects\<lparr>AwaitReceipt := True\<rparr>) ''T38''
      | v \<Rightarrow> Inl (UnknownVerdict v))"

definition verdictWhileSending :: "input \<Rightarrow> invalid_transition + transition" where
  "verdictWhileSending x =
     (if inVerdict x \<noteq> VerdictHappened then Inl (VerdictWhileOpen (inVerdict x))
      else then_ok (settleApplied x ProofProviderConfirmed ''T35'') (\<lambda>s.
        Inr (s\<lparr>trRow := ''T35s'', trEffects := (trEffects s)
                 \<lparr>ConsumeCancellation := iCancellationRequested (inIntent x)\<rparr>\<rparr>)))"

definition verdictWhilePending :: "input \<Rightarrow> invalid_transition + transition" where
  "verdictWhilePending x =
     (case inVerdict x of
        VerdictHappened \<Rightarrow>
          then_ok (settleApplied x ProofProviderConfirmed ''T35'') (\<lambda>s.
            Inr (s\<lparr>trRow := ''T35p''\<rparr>))
      | VerdictStillGoing \<Rightarrow>
          goes StatusAwaitingReceipt
            (no_effects\<lparr>ClearLease := True, StoreReceipt := True, AwaitReceipt := True\<rparr>) ''T39''
      | VerdictNotPlaced \<Rightarrow>
          (if iObligationWithdrawn (inIntent x) then
             goes StatusCanceled
               (no_effects\<lparr>ClearLease := True, Timeline := TimelineCanceled\<rparr>) ''T36w''
           else
             goes StatusPending
               (no_effects\<lparr>ClearLease := True, NewGeneration := True, ScheduleNow := True,
                  BumpFailureStreak := True, Timeline := TimelineNotPlaced\<rparr>) ''T36p'')
      | v \<Rightarrow> Inl (VerdictLeavesRepeat v))"

definition decideVerdict :: "input \<Rightarrow> invalid_transition + transition" where
  "decideVerdict x =
     (if iCompletionMode (inIntent x) \<noteq> CompletionOnProviderReceipt
         \<or> iForm (inIntent x) \<noteq> FormOneShot then Inl VerdictNotAwaited
      else case iStatus (inIntent x) of
        StatusAwaitingReceipt \<Rightarrow> verdictWhileAwaiting x
      | StatusPending \<Rightarrow> verdictWhilePending x
      | StatusSending \<Rightarrow> verdictWhileSending x
      | s \<Rightarrow> Inl (VerdictFrom s))"

section \<open>A person deciding\<close>

definition rowFor :: "input \<Rightarrow> string \<Rightarrow> string \<Rightarrow> string" where
  "rowFor x oneShot editable = (if iForm (inIntent x) = FormOneShot then oneShot else editable)"

definition operatorAssume :: "input \<Rightarrow> invalid_transition + transition" where
  "operatorAssume x =
     (if iStatus (inIntent x) \<noteq> StatusManualReview
        then Inl (AssumeKnownFalse (iStatus (inIntent x)))
      else if iForm (inIntent x) \<noteq> FormOneShot \<and> \<not> iHasReceipt (inIntent x)
        then Inl AssumeNeedsReceipt
      else settleApplied x ProofAssumed (rowFor x ''T25'' ''T26''))"

definition operatorCancel :: "input \<Rightarrow> invalid_transition + transition" where
  "operatorCancel x =
     (if iStatus (inIntent x) = StatusExpired then Inl CancelExpired
      else goes StatusCanceled (no_effects\<lparr>Timeline := TimelineCanceled\<rparr>)
        (if iStatus (inIntent x) = StatusPermanentFailed then ''T30'' else ''T27''))"

definition throughResolveAmbiguity :: "input \<Rightarrow> invalid_transition + unit" where
  "throughResolveAmbiguity x =
     (case newEffectDoor (iKeyKind (inIntent x)) of
        Inl e \<Rightarrow> Inl (DoorRefused e)
      | Inr door \<Rightarrow> if door \<noteq> DoorResolveAmbiguity
                    then Inl (OtherDoor (iKeyKind (inIntent x)) door) else Inr ())"

text \<open>A Go map read at a missing key gives the empty string.\<close>

fun rowOfStatus :: "string \<Rightarrow> string \<Rightarrow> string \<Rightarrow> status \<Rightarrow> string" where
  "rowOfStatus review failed expired StatusManualReview = review"
| "rowOfStatus review failed expired StatusPermanentFailed = failed"
| "rowOfStatus review failed expired StatusExpired = expired"
| "rowOfStatus review failed expired _ = []"

definition operatorRetryCurrent :: "input \<Rightarrow> invalid_transition + transition" where
  "operatorRetryCurrent x =
     then_ok (throughResolveAmbiguity x) (\<lambda>_.
       if iStatus (inIntent x) = StatusExpired \<and> \<not> inNewExpiryProvided x
       then Inl RetryNeedsDeadline
       else goes StatusPending
         (no_effects\<lparr>ScheduleNow := True, ResetFailureStreak := True\<rparr>)
         (rowOfStatus ''T28'' ''T31'' ''T33'' (iStatus (inIntent x))))"

definition operatorRetryNew :: "input \<Rightarrow> invalid_transition + transition" where
  "operatorRetryNew x =
     then_ok (throughResolveAmbiguity x) (\<lambda>_.
       if inLastAttemptKind x \<noteq> AttemptCreate \<and> \<not> inResourceLossConfirmed x
         then Inl NewGenerationNeedsLoss
       else if inAmbiguousInGeneration x \<and> \<not> inAcceptedDuplicateRisk x
         then Inl NewGenerationNeedsRisk
       else if iStatus (inIntent x) = StatusExpired \<and> \<not> inNewExpiryProvided x
         then Inl RetryNeedsDeadline
       else goes StatusPending
         (no_effects\<lparr>NewGeneration := True, ScheduleNow := True, ResetFailureStreak := True,
            RecordDuplicateRisk := inAcceptedDuplicateRisk x\<rparr>)
         (rowOfStatus ''T29'' ''T32'' ''T34'' (iStatus (inIntent x))))"

definition decideOperator :: "input \<Rightarrow> invalid_transition + transition" where
  "decideOperator x =
     (if iStatus (inIntent x) \<notin> {StatusManualReview, StatusPermanentFailed, StatusExpired}
      then Inl (NoDecisionFrom (iStatus (inIntent x)))
      else case inDecision x of
        DecisionAssumeAccepted \<Rightarrow> operatorAssume x
      | DecisionCancel \<Rightarrow> operatorCancel x
      | DecisionRetryCurrentGeneration \<Rightarrow> operatorRetryCurrent x
      | DecisionRetryNewGeneration \<Rightarrow> operatorRetryNew x
      | d \<Rightarrow> Inl (UnknownDecision d))"

section \<open>The door\<close>

definition decide :: "input \<Rightarrow> invalid_transition + transition" where
  "decide x =
     (case inTrigger x of
        TriggerPreparation \<Rightarrow> decidePreparation x
      | TriggerFinishAttempt \<Rightarrow> decideFinish x
      | TriggerRecoverStale \<Rightarrow> decideRecover x
      | TriggerOperator \<Rightarrow> decideOperator x
      | TriggerVerdict \<Rightarrow> decideVerdict x
      | t \<Rightarrow> Inl (UnknownTrigger t))"

definition Decide :: "input \<Rightarrow> invalid_transition + transition" where
  "Decide x =
     then_ok (decide x) (\<lambda>t.
       if Satellite (inIntent x)
       then Inr (t\<lparr>trEffects := (trEffects t)\<lparr>Timeline := TimelineNone,
                       TriggerGroup := False\<rparr>\<rparr>)
       else Inr t)"

end
