(* ===== verification/Receipts.thy ===== *)
theory Receipts
  imports Machine "HOL-Library.Multiset"
begin

text \<open>
  The fate of the external objects a commitment's attempts made:
  \<open>internal/outbound/receipt.go\<close>, and the three readings of them in
  \<open>internal/store/outbound_receipt_store.go\<close>.
\<close>

section \<open>One object and what is said about it\<close>

datatype effect_state =
  EffectInProgress | EffectHappened | EffectNotPlaced | EffectWithdrawn | EffectOther string

definition EffectStates :: "effect_state list" where
  "EffectStates = [EffectInProgress, EffectHappened, EffectNotPlaced, EffectWithdrawn]"

text \<open>\<open>EffectState.Terminal\<close>, and \<open>EffectState.Known\<close> with its loop over the closed set.\<close>

fun EffectTerminal :: "effect_state \<Rightarrow> bool" where
  "EffectTerminal EffectHappened = True"
| "EffectTerminal EffectNotPlaced = True"
| "EffectTerminal EffectWithdrawn = True"
| "EffectTerminal _ = False"

definition EffectKnown :: "effect_state \<Rightarrow> bool" where
  "EffectKnown s = list_ex (\<lambda>known. s = known) EffectStates"

record effect =
  eAttemptID :: string
  eGeneration :: int
  eExternalRef :: string
  eState :: effect_state
  eLastSequence :: "int option"

fun equalSequence :: "int option \<Rightarrow> int option \<Rightarrow> bool" where
  "equalSequence None b = (b = None)"
| "equalSequence a None = (a = None)"
| "equalSequence (Some a) (Some b) = (a = b)"

definition FoldEffect :: "effect \<Rightarrow> effect_state \<Rightarrow> int option \<Rightarrow> effect \<times> bool" where
  "FoldEffect current next sequence =
     (if EffectTerminal (eState current) then (current, False)
      else if \<not> EffectTerminal next \<and> eLastSequence current \<noteq> None \<and> sequence \<noteq> None
              \<and> the sequence \<le> the (eLastSequence current) then (current, False)
      else
        let moved = current\<lparr>eState := next\<rparr>;
            folded =
              (if sequence \<noteq> None \<and> (eLastSequence current = None
                   \<or> the sequence > the (eLastSequence current))
               then moved\<lparr>eLastSequence := sequence\<rparr> else moved)
        in (folded, eState folded \<noteq> eState current
              \<or> \<not> equalSequence (eLastSequence folded) (eLastSequence current)))"

section \<open>The verdict over a generation\<close>

record generation_facts =
  gfEffects :: "effect list"
  gfGeneration :: int
  gfAttemptOpen :: bool
  gfUnaccounted :: int
  gfDeadlinePassed :: bool

definition Verdicts :: "verdict list" where
  "Verdicts = [VerdictHappened, VerdictNotPlaced, VerdictUnknown, VerdictStillGoing]"

text \<open>The scan: an unknown state is an error, an object that happened decides at once.\<close>

fun scan_effects :: "int \<Rightarrow> effect list \<Rightarrow> nat \<Rightarrow> effect + verdict option \<times> nat" where
  "scan_effects generation [] current = Inr (None, current)"
| "scan_effects generation (e # es) current =
     (if \<not> EffectKnown (eState e) then Inl e
      else if eState e = EffectHappened then Inr (Some VerdictHappened, current)
      else scan_effects generation es
             (if eGeneration e = generation then current + 1 else current))"

fun all_settled :: "int \<Rightarrow> effect list \<Rightarrow> bool" where
  "all_settled generation [] = True"
| "all_settled generation (e # es) =
     (if eGeneration e = generation \<and>
           \<not> (eState e = EffectNotPlaced \<or> eState e = EffectWithdrawn)
      then False else all_settled generation es)"

definition GenerationVerdict :: "generation_facts \<Rightarrow> effect + verdict" where
  "GenerationVerdict f =
     then_ok (scan_effects (gfGeneration f) (gfEffects f) 0) (\<lambda>(decided, current).
       case decided of Some v \<Rightarrow> Inr v
       | None \<Rightarrow>
           if gfAttemptOpen f then Inr VerdictStillGoing
           else if gfUnaccounted f = 0 \<and> current > 0
                   \<and> all_settled (gfGeneration f) (gfEffects f) then Inr VerdictNotPlaced
           else if gfDeadlinePassed f then Inr VerdictUnknown
           else Inr VerdictStillGoing)"

text \<open>The readings of the store: \<open>hasKnownLiveEffect\<close> and \<open>receiptEffect\<close>.\<close>

definition hasKnownLiveEffect :: "generation_facts \<Rightarrow> bool" where
  "hasKnownLiveEffect f = list_ex (\<lambda>e. eGeneration e = gfGeneration f
      \<and> eState e = EffectInProgress) (gfEffects f)"

definition receiptEffect :: "generation_facts \<Rightarrow> verdict \<Rightarrow> effect option" where
  "receiptEffect f verdict =
     (let want = (if verdict = VerdictHappened then EffectHappened else EffectInProgress)
      in find (\<lambda>e. eState e = want \<and> (want = EffectHappened \<or> eGeneration e = gfGeneration f))
           (gfEffects f))"

section \<open>Facts about the scan\<close>

lemma EffectKnown_iff: "EffectKnown s \<longleftrightarrow> (\<forall>x. s \<noteq> EffectOther x)"
  by (cases s) (auto simp: EffectKnown_def EffectStates_def)

lemma scan_effects_iff:
  "scan_effects g es n = Inr (None, m) \<longleftrightarrow>
     (\<forall>e\<in>set es. EffectKnown (eState e) \<and> eState e \<noteq> EffectHappened) \<and>
     m = n + length (filter (\<lambda>e. eGeneration e = g) es)"
  by (induction es arbitrary: n) auto

lemma scan_effects_Some: "scan_effects g es n = Inr (Some v, m) \<Longrightarrow> v = VerdictHappened"
  by (induction es arbitrary: n) (auto split: if_splits)

lemma scan_effects_happened:
  assumes "\<forall>e\<in>set es. EffectKnown (eState e)" and "\<exists>e\<in>set es. eState e = EffectHappened"
  shows "\<exists>m. scan_effects g es n = Inr (Some VerdictHappened, m)"
  using assms by (induction es arbitrary: n) auto

lemma scan_effects_found:
  "scan_effects g es n = Inr (d, m) \<Longrightarrow> d = Some VerdictHappened \<Longrightarrow>
     \<exists>e\<in>set es. eState e = EffectHappened"
  by (induction es arbitrary: n) (auto split: if_splits)

lemma scan_effects_known:
  "\<forall>e\<in>set es. EffectKnown (eState e) \<Longrightarrow> \<exists>r. scan_effects g es n = Inr r"
  by (induction es arbitrary: n) auto

lemma all_settled_iff: "all_settled g es \<longleftrightarrow>
    (\<forall>e\<in>set es. eGeneration e = g \<longrightarrow> eState e \<in> {EffectNotPlaced, EffectWithdrawn})"
  by (induction es) auto

lemma receiptEffect_happened:
  assumes "\<exists>e\<in>set (gfEffects f). eState e = EffectHappened"
  shows "\<exists>e. receiptEffect f VerdictHappened = Some e \<and> eState e = EffectHappened"
proof -
  have "receiptEffect f VerdictHappened \<noteq> None"
    using assms by (simp add: receiptEffect_def find_None_iff) blast
  moreover have "eState e = EffectHappened" if "receiptEffect f VerdictHappened = Some e" for e
    using that by (auto simp: receiptEffect_def find_Some_iff)
  ultimately show ?thesis by blast
qed

text \<open>The table the code walks, as conditions on the set of objects.\<close>

definition verdict_table :: "generation_facts \<Rightarrow> verdict" where
  "verdict_table f =
     (if \<exists>e\<in>set (gfEffects f). eState e = EffectHappened then VerdictHappened
      else if gfAttemptOpen f then VerdictStillGoing
      else if gfUnaccounted f = 0 \<and> (\<exists>e\<in>set (gfEffects f). eGeneration e = gfGeneration f)
              \<and> (\<forall>e\<in>set (gfEffects f). eGeneration e = gfGeneration f \<longrightarrow>
                   eState e \<in> {EffectNotPlaced, EffectWithdrawn}) then VerdictNotPlaced
      else if gfDeadlinePassed f then VerdictUnknown
      else VerdictStillGoing)"

lemma GenerationVerdict_table:
  assumes "\<forall>e\<in>set (gfEffects f). EffectKnown (eState e)"
  shows "GenerationVerdict f = Inr (verdict_table f)"
proof (cases "\<exists>e\<in>set (gfEffects f). eState e = EffectHappened")
  case True
  from scan_effects_happened [OF assms True] obtain m where
    "scan_effects (gfGeneration f) (gfEffects f) 0 = Inr (Some VerdictHappened, m)" by blast
  with True show ?thesis by (simp add: GenerationVerdict_def verdict_table_def)
next
  case False
  let ?n = "length (filter (\<lambda>e. eGeneration e = gfGeneration f) (gfEffects f))"
  have "scan_effects (gfGeneration f) (gfEffects f) 0 = Inr (None, ?n)"
    using assms False by (subst scan_effects_iff) auto
  moreover have "0 < ?n \<longleftrightarrow> (\<exists>e\<in>set (gfEffects f). eGeneration e = gfGeneration f)"
    by (auto simp: filter_empty_conv)
  ultimately show ?thesis
    using False by (auto simp: GenerationVerdict_def verdict_table_def all_settled_iff)
qed

section \<open>Folding events\<close>

text \<open>An object after a run of events, in the order they are applied.\<close>

fun fold_events :: "effect \<Rightarrow> (effect_state \<times> int option) list \<Rightarrow> effect" where
  "fold_events e [] = e"
| "fold_events e ((next, sequence) # rest) = fold_events (fst (FoldEffect e next sequence)) rest"

lemma FoldEffect_terminal [simp]:
  "EffectTerminal (eState e) \<Longrightarrow> FoldEffect e next sequence = (e, False)"
  by (simp add: FoldEffect_def)

lemma fold_events_terminal: "EffectTerminal (eState e) \<Longrightarrow> fold_events e evs = e"
  by (induction evs) auto

text \<open>The numbering the provider gave only goes up.\<close>

definition seq_le :: "int option \<Rightarrow> int option \<Rightarrow> bool" where
  "seq_le a b \<longleftrightarrow> (case a of None \<Rightarrow> True | Some x \<Rightarrow> (case b of None \<Rightarrow> False | Some y \<Rightarrow> x \<le> y))"

lemma seq_le_refl [simp]: "seq_le a a"
  by (simp add: seq_le_def split: option.split)

lemma seq_le_trans: "seq_le a b \<Longrightarrow> seq_le b c \<Longrightarrow> seq_le a c"
  by (auto simp: seq_le_def split: option.splits)

lemma FoldEffect_seq: "seq_le (eLastSequence e) (eLastSequence (fst (FoldEffect e n s)))"
  by (cases s; cases "eLastSequence e") (auto simp: FoldEffect_def Let_def seq_le_def)

lemma FoldEffect_terminates:
  "EffectTerminal n \<Longrightarrow> \<not> EffectTerminal (eState e) \<Longrightarrow> eState (fst (FoldEffect e n s)) = n"
  by (simp add: FoldEffect_def Let_def)

lemma fold_events_first_end:
  assumes "EffectTerminal next"
    and "\<forall>(s, q)\<in>set before. \<not> EffectTerminal s" and "\<not> EffectTerminal (eState e)"
  shows "eState (fold_events e (before @ (next, sequence) # after)) = next"
  using assms(2,3)
proof (induction before arbitrary: e)
  case Nil
  then have "eState (fst (FoldEffect e next sequence)) = next"
    using assms(1) by (simp add: FoldEffect_terminates)
  with assms(1) show ?case by (simp add: fold_events_terminal)
next
  case (Cons b before)
  obtain s q where b: "b = (s, q)" by (cases b)
  have "\<not> EffectTerminal (eState (fst (FoldEffect e s q)))"
    using Cons.prems b by (auto simp: FoldEffect_def Let_def)
  with Cons b show ?case by simp
qed

lemma fold_events_seq: "seq_le (eLastSequence e) (eLastSequence (fold_events e evs))"
  by (induction e evs rule: fold_events.induct)
    (auto intro: seq_le_trans [OF FoldEffect_seq])

lemma fold_events_open:
  assumes "\<forall>(s, q)\<in>set evs. \<not> EffectTerminal s" and "\<not> EffectTerminal (eState e)"
  shows "\<not> EffectTerminal (eState (fold_events e evs))"
  using assms
  by (induction e evs rule: fold_events.induct) (auto simp: FoldEffect_def Let_def)

section \<open>Properties\<close>

text \<open>
  The first end an object is said to have is its end: whatever was said before it
  and whatever comes after it, in whatever order and with whatever numbers, the object
  stays in the first terminal state it was put in; and until an end is heard it has none.
\<close>

theorem first_end_is_the_end:
  assumes "\<not> EffectTerminal (eState e)" and "\<forall>(s, q)\<in>set before. \<not> EffectTerminal s"
  shows "(EffectTerminal next \<longrightarrow>
       eState (fold_events e (before @ (next, sequence) # after)) = next) \<and>
     \<not> EffectTerminal (eState (fold_events e before)) \<and>
     seq_le (eLastSequence e) (eLastSequence (fold_events e before))"
  using fold_events_first_end [OF _ assms(2,1)] fold_events_open [OF assms(2,1)]
    fold_events_seq by blast

text \<open>
  C13. The verdict depends on which objects there are and not on the order they are read
  in: over known states it is the table of the documentation, it never fails, and any
  reordering of the objects gives the same answer.
\<close>

theorem verdict_is_the_table:
  assumes "\<forall>e\<in>set (gfEffects f). EffectKnown (eState e)"
    and "mset (gfEffects f') = mset (gfEffects f)"
    and "gfGeneration f' = gfGeneration f" "gfAttemptOpen f' = gfAttemptOpen f"
    and "gfUnaccounted f' = gfUnaccounted f" "gfDeadlinePassed f' = gfDeadlinePassed f"
  shows "GenerationVerdict f = Inr (verdict_table f) \<and> GenerationVerdict f' = GenerationVerdict f"
proof -
  have s: "set (gfEffects f') = set (gfEffects f)" using assms(2) by (metis set_mset_mset)
  then have "verdict_table f' = verdict_table f" using assms(3-) unfolding verdict_table_def by presburger
  with s assms(1) show ?thesis by (simp add: GenerationVerdict_table)
qed

text \<open>
  C14. A wait ends and a repeat is safe: once the deadline has passed and no request is
  open the verdict is never "still going"; and "not placed", the only verdict that calls
  again, is given only when no object of any generation happened, this generation has
  one, every one of them definitely did not take place and no attempt left a doubt.
\<close>

theorem verdict_ends_the_wait:
  assumes "GenerationVerdict f = Inr v"
  shows "(gfDeadlinePassed f \<and> \<not> gfAttemptOpen f \<longrightarrow> v \<noteq> VerdictStillGoing) \<and>
     (v = VerdictNotPlaced \<longrightarrow> gfUnaccounted f = 0 \<and> \<not> gfAttemptOpen f \<and>
        \<not> hasKnownLiveEffect f \<and>
        (\<forall>e\<in>set (gfEffects f). eState e \<noteq> EffectHappened) \<and>
        (\<exists>e\<in>set (gfEffects f). eGeneration e = gfGeneration f)) \<and>
     (v = VerdictHappened \<longrightarrow> (\<exists>e. receiptEffect f v = Some e \<and> eState e = EffectHappened))"
proof (cases "\<forall>e\<in>set (gfEffects f). EffectKnown (eState e)")
  case True
  then have v: "v = verdict_table f" using assms GenerationVerdict_table [OF True] by simp
  show ?thesis
    using receiptEffect_happened [of f]
    unfolding v verdict_table_def hasKnownLiveEffect_def list_ex_iff by auto
next
  case False
  from assms obtain d n where d: "scan_effects (gfGeneration f) (gfEffects f) 0 = Inr (d, n)"
    unfolding GenerationVerdict_def by (cases "scan_effects (gfGeneration f) (gfEffects f) 0") auto
  with False scan_effects_iff have "d \<noteq> None" by fastforce
  then obtain w where "d = Some w" by blast
  with d scan_effects_Some have w: "d = Some VerdictHappened" by blast
  then have "v = VerdictHappened" using assms d by (simp add: GenerationVerdict_def)
  moreover have "\<exists>e\<in>set (gfEffects f). eState e = EffectHappened"
    using d w by (rule scan_effects_found)
  ultimately show ?thesis
    using receiptEffect_happened [of f] by simp
qed

section \<open>Witnesses\<close>

definition ringing :: effect where
  "ringing = \<lparr>eAttemptID = ''a1'', eGeneration = 0, eExternalRef = ''CA1'',
     eState = EffectInProgress, eLastSequence = Some 1\<rparr>"

theorem first_end_is_the_end_witness:
  "eState (fold_events ringing ([(EffectInProgress, Some 0)] @
     (EffectHappened, Some 2) # [(EffectNotPlaced, Some 3)])) = EffectHappened"
  using first_end_is_the_end [of ringing "[(EffectInProgress, Some 0)]" EffectHappened "Some 2"
    "[(EffectNotPlaced, Some 3)]"] by (simp add: ringing_def)

definition two_calls :: generation_facts where
  "two_calls = \<lparr>gfEffects = [ringing, ringing\<lparr>eState := EffectNotPlaced\<rparr>], gfGeneration = 0,
     gfAttemptOpen = False, gfUnaccounted = 0, gfDeadlinePassed = True\<rparr>"

theorem verdict_is_the_table_witness:
  "GenerationVerdict (two_calls\<lparr>gfEffects := rev (gfEffects two_calls)\<rparr>)
     = GenerationVerdict two_calls \<and> GenerationVerdict two_calls = Inr VerdictUnknown"
proof -
  have k: "\<forall>e\<in>set (gfEffects two_calls). EffectKnown (eState e)"
    by (simp add: two_calls_def ringing_def EffectKnown_iff)
  have u: "verdict_table two_calls = VerdictUnknown"
    by (simp add: two_calls_def ringing_def verdict_table_def)
  from verdict_is_the_table [OF k, of "two_calls\<lparr>gfEffects := rev (gfEffects two_calls)\<rparr>"] u
  show ?thesis by simp
qed

theorem verdict_ends_the_wait_witness:
  "\<exists>v. GenerationVerdict two_calls = Inr v \<and> v \<noteq> VerdictStillGoing"
proof -
  obtain v where v: "GenerationVerdict two_calls = Inr v"
    by (simp add: GenerationVerdict_def two_calls_def ringing_def EffectKnown_iff)
  from verdict_ends_the_wait [OF v] have "v \<noteq> VerdictStillGoing" by (simp add: two_calls_def)
  with v show ?thesis by blast
qed

end
