(* ===== verification/Codec.thy ===== *)
theory Codec
  imports Prelude "HOL-Library.Multiset" "HOL-Library.List_Lexorder" "HOL-Library.Char_ord"
begin

text \<open>
  The byte encodings of the identity grammar: \<open>internal/outbound/keys/codec.go\<close>.

  Bytes are characters and a byte string is a \<open>string\<close>.  A writer of the code appends to
  a buffer; here it is the function from a value to the bytes it appends.  What makes the
  grammar an identity is that every writer is self-delimiting (locale
  \<open>self_delimiting\<close>): whatever follows, the bytes of one value are never the start of the
  bytes of another.
\<close>

section \<open>Writers\<close>

text \<open>\<open>binary.BigEndian.PutUint32\<close> and \<open>PutUint64\<close> of a value taken modulo its width.\<close>

fun be_bytes :: "nat \<Rightarrow> nat \<Rightarrow> string" where
  "be_bytes 0 n = []"
| "be_bytes (Suc width) n = be_bytes width (n div 256) @ [char_of n]"

definition put32 :: "nat \<Rightarrow> string" where
  "put32 n = be_bytes 4 (n mod 2 ^ 32)"

definition enc :: "string \<Rightarrow> string" where
  "enc value = put32 (length value) @ value"

definition encStr :: "string \<Rightarrow> string" where
  "encStr value = enc value"

definition encOpt :: "string option \<Rightarrow> string" where
  "encOpt value = (case value of None \<Rightarrow> encStr ''0'' | Some v \<Rightarrow> encStr ''1'' @ encStr v)"

definition encOptBytes :: "string option \<Rightarrow> string" where
  "encOptBytes value = (case value of None \<Rightarrow> encStr ''0'' | Some v \<Rightarrow> encStr ''1'' @ enc v)"

definition int64Bytes :: "int \<Rightarrow> string" where
  "int64Bytes v = be_bytes 8 (nat (v mod 2 ^ 64))"

definition encOptInt64 :: "int option \<Rightarrow> string" where
  "encOptInt64 value =
     (case value of None \<Rightarrow> encStr ''0'' | Some v \<Rightarrow> encStr ''1'' @ enc (int64Bytes v))"

definition encBool :: "bool \<Rightarrow> string" where
  "encBool value = (if value then encStr ''1'' else encStr ''0'')"

definition encList :: "string list \<Rightarrow> string" where
  "encList values = put32 (length values) @ concat (map enc values)"

definition tagged :: "nat \<Rightarrow> string \<Rightarrow> string" where
  "tagged tag body = put32 tag @ body"

definition sortBytewise :: "string list \<Rightarrow> string list" where
  "sortBytewise values = sort values"

section \<open>Integers of fixed width\<close>

lemma length_be_bytes [simp]: "length (be_bytes w n) = w"
  by (induction w arbitrary: n) auto

lemma char_of_nat_eq: "(char_of (m :: nat) = (char_of n :: char)) \<longleftrightarrow> m mod 256 = n mod 256"
  by (metis char_of_mod_256 of_char_of)

lemma be_bytes_inj:
  "m < 256 ^ w \<Longrightarrow> n < 256 ^ w \<Longrightarrow> be_bytes w m = be_bytes w n \<Longrightarrow> m = n"
proof (induction w arbitrary: m n)
  case (Suc w)
  from Suc.prems have d: "m div 256 < 256 ^ w" "n div 256 < 256 ^ w"
    by (simp_all add: less_mult_imp_div_less mult.commute)
  from Suc.prems(3) have "be_bytes w (m div 256) = be_bytes w (n div 256)" "m mod 256 = n mod 256"
    by (simp_all add: char_of_nat_eq)
  with Suc.IH [OF d] show ?case by (metis mult_div_mod_eq)
qed simp

lemma length_put32 [simp]: "length (put32 n) = 4"
  by (simp add: put32_def)

lemma put32_inj: "m < 2 ^ 32 \<Longrightarrow> n < 2 ^ 32 \<Longrightarrow> put32 m = put32 n \<Longrightarrow> m = n"
  using be_bytes_inj [of m 4 n] by (simp add: put32_def)

lemma length_int64Bytes [simp]: "length (int64Bytes v) = 8"
  by (simp add: int64Bytes_def)

definition int64 :: "int \<Rightarrow> bool" where
  "int64 v \<longleftrightarrow> - (2 ^ 63) \<le> v \<and> v < 2 ^ 63"

lemma nat_mod_lt: "nat ((v::int) mod 18446744073709551616) < 18446744073709551616"
  by (simp add: nat_less_iff)

lemma int64Bytes_inj:
  assumes "int64 v" "int64 u" "int64Bytes v = int64Bytes u"
  shows "v = u"
proof -
  have "nat (v mod 2 ^ 64) < 256 ^ 8" "nat (u mod 2 ^ 64) < 256 ^ 8"
    using nat_mod_lt [of v] nat_mod_lt [of u] by simp_all
  with assms(3) be_bytes_inj have "nat (v mod 2 ^ 64) = nat (u mod 2 ^ 64)"
    unfolding int64Bytes_def by blast
  then have "v mod 2 ^ 64 = u mod 2 ^ 64" by (simp add: eq_nat_nat_iff)
  then have "(v - u) mod 2 ^ 64 = 0" by (simp add: mod_eq_dvd_iff)
  then obtain k where k: "v - u = 2 ^ 64 * k" by (metis mod_0_imp_dvd dvdE)
  with assms(1,2) have "2 ^ 64 * k < 2 ^ 64" "- (2 ^ 64) < 2 ^ 64 * k"
    unfolding int64_def by simp_all
  then have "k = 0" by simp
  with k show ?thesis by simp
qed

section \<open>Self-delimiting writers\<close>

locale self_delimiting =
  fixes encode :: "'a \<Rightarrow> string" and fits :: "'a \<Rightarrow> bool"
  assumes unique: "fits a \<Longrightarrow> fits b \<Longrightarrow> encode a @ x = encode b @ y \<Longrightarrow> a = b \<and> x = y"
begin

lemma injective: "fits a \<Longrightarrow> fits b \<Longrightarrow> encode a = encode b \<Longrightarrow> a = b"
  using unique [of a b "[]" "[]"] by simp

lemma value_eq: "fits a \<Longrightarrow> fits b \<Longrightarrow> encode a @ x = encode b @ y \<Longrightarrow> a = b"
  using unique by blast

lemma rest_eq: "fits a \<Longrightarrow> fits b \<Longrightarrow> encode a @ x = encode b @ y \<Longrightarrow> x = y"
  using unique by blast

lemma append_iff [simp]:
  "fits a \<Longrightarrow> fits b \<Longrightarrow> encode a @ x = encode b @ y \<longleftrightarrow> a = b \<and> x = y"
  using unique by blast

lemma encode_eq_iff [simp]: "fits a \<Longrightarrow> fits b \<Longrightarrow> encode a = encode b \<longleftrightarrow> a = b"
  using injective by blast

lemma prefix_free: "fits a \<Longrightarrow> fits b \<Longrightarrow> encode b = encode a @ x \<Longrightarrow> x = [] \<and> b = a"
  using unique [of b a "[]" x] by simp

end

text \<open>A value of a fixed width delimits itself.\<close>

lemma fixed_width_unique:
  assumes "\<And>v. length (e v) = w" and "\<And>a b. f a \<Longrightarrow> f b \<Longrightarrow> e a = e b \<Longrightarrow> a = b"
  shows "f a \<Longrightarrow> f b \<Longrightarrow> e a @ x = e b @ y \<Longrightarrow> a = b \<and> x = y"
  using assms by (auto simp: append_eq_append_conv)

interpretation count: self_delimiting put32 "\<lambda>n. n < 2 ^ 32"
  using fixed_width_unique [of put32 4 "\<lambda>n. n < 2 ^ 32"] put32_inj
  by unfold_locales auto

interpretation number: self_delimiting int64Bytes int64
  using fixed_width_unique [of int64Bytes 8 int64] int64Bytes_inj
  by unfold_locales auto

text \<open>Length before value.\<close>

definition short :: "string \<Rightarrow> bool" where
  "short s \<longleftrightarrow> length s < 2 ^ 32"

interpretation field: self_delimiting enc short
proof
  fix a b x y :: string
  assume s: "short a" "short b" and e: "enc a @ x = enc b @ y"
  from e have "put32 (length a) @ a @ x = put32 (length b) @ b @ y"
    by (simp add: enc_def del: count.append_iff)
  with s count.unique [of "length a" "length b" "a @ x" "b @ y"]
  have "length a = length b" "a @ x = b @ y" by (simp_all only: short_def)
  then show "a = b \<and> x = y" by simp
qed

lemma encStr_enc [simp]: "encStr = enc"
  by (rule ext) (simp add: encStr_def)

lemma short_literals [simp]: "short ''0''" "short ''1''" "short []"
  by (simp_all add: short_def)

lemma short_int64 [simp]: "short (int64Bytes v)"
  by (simp add: short_def)

section \<open>Composition\<close>

text \<open>A marker that says which of two shapes follows.\<close>

locale optional_writer = self_delimiting e f for e :: "'a \<Rightarrow> string" and f
begin

definition opt :: "'a option \<Rightarrow> string" where
  "opt v = (case v of None \<Rightarrow> encStr ''0'' | Some a \<Rightarrow> encStr ''1'' @ e a)"

definition opt_fits :: "'a option \<Rightarrow> bool" where
  "opt_fits v \<longleftrightarrow> (case v of None \<Rightarrow> True | Some a \<Rightarrow> f a)"

lemma opt_unique:
  "opt_fits a \<Longrightarrow> opt_fits b \<Longrightarrow> opt a @ x = opt b @ y \<Longrightarrow> a = b \<and> x = y"
  by (cases a; cases b) (auto simp: opt_def opt_fits_def)

end

sublocale optional_writer \<subseteq> opt: self_delimiting opt opt_fits
  by unfold_locales (rule opt_unique)

section \<open>The writers of the code\<close>

interpretation optional: optional_writer enc short ..

interpretation number_field: self_delimiting "\<lambda>v. enc (int64Bytes v)" int64
  by unfold_locales (use field.unique int64Bytes_inj short_int64 in blast)

interpretation optional_number: optional_writer "\<lambda>v. enc (int64Bytes v)" int64 ..

lemma encOpt_eq: "encOpt = optional.opt" "encOptBytes = optional.opt"
  by (auto simp: fun_eq_iff encOpt_def encOptBytes_def optional.opt_def split: option.split)

lemma encOptInt64_eq: "encOptInt64 = optional_number.opt"
  by (auto simp: fun_eq_iff encOptInt64_def optional_number.opt_def split: option.split)

interpretation text_option: self_delimiting encOpt "\<lambda>v. case v of None \<Rightarrow> True | Some s \<Rightarrow> short s"
  unfolding encOpt_eq(1) using optional.opt_unique
  by unfold_locales (auto simp: optional.opt_fits_def)

interpretation int_option: self_delimiting encOptInt64
    "\<lambda>v. case v of None \<Rightarrow> True | Some n \<Rightarrow> int64 n"
  unfolding encOptInt64_eq using optional_number.opt_unique
  by unfold_locales (auto simp: optional_number.opt_fits_def)

interpretation flag: self_delimiting encBool "\<lambda>_. True"
proof
  fix a b x y assume "encBool a @ x = encBool b @ y"
  then show "a = b \<and> x = y" by (cases a; cases b) (simp_all add: encBool_def)
qed

definition short_list :: "string list \<Rightarrow> bool" where
  "short_list vs \<longleftrightarrow> length vs < 2 ^ 32 \<and> (\<forall>v\<in>set vs. short v)"

lemma members_unique:
  "length vs = length us \<Longrightarrow> \<forall>v\<in>set vs. short v \<Longrightarrow> \<forall>u\<in>set us. short u \<Longrightarrow>
     concat (map enc vs) @ x = concat (map enc us) @ y \<Longrightarrow> vs = us \<and> x = y"
proof (induction vs us rule: list_induct2)
  case (Cons v vs u us)
  from Cons.prems(3) have "enc v @ concat (map enc vs) @ x = enc u @ concat (map enc us) @ y"
    by (simp del: field.append_iff)
  with field.unique [of v u] Cons.prems(1,2)
  have "v = u" "concat (map enc vs) @ x = concat (map enc us) @ y" by (meson list.set_intros(1))+
  with Cons.IH Cons.prems(1,2) show ?case by simp
qed simp

interpretation listing: self_delimiting encList short_list
proof
  fix vs us :: "string list" and x y
  assume s: "short_list vs" "short_list us" and e: "encList vs @ x = encList us @ y"
  from e have "put32 (length vs) @ concat (map enc vs) @ x
      = put32 (length us) @ concat (map enc us) @ y"
    by (simp add: encList_def del: count.append_iff)
  with s count.unique have "length vs = length us"
    "concat (map enc vs) @ x = concat (map enc us) @ y" unfolding short_list_def by blast+
  with s show "vs = us \<and> x = y" unfolding short_list_def by (intro members_unique) auto
qed

lemma sortBytewise_mset: "sortBytewise vs = sortBytewise us \<longleftrightarrow> mset vs = mset us"
  unfolding sortBytewise_def by (metis mset_sort properties_for_sort sorted_sort)

lemma short_list_sort [simp]: "short_list (sortBytewise vs) \<longleftrightarrow> short_list vs"
  by (simp add: short_list_def sortBytewise_def)

lemma tagged_unique:
  "t < 2 ^ 32 \<Longrightarrow> u < 2 ^ 32 \<Longrightarrow> tagged t b = tagged u c \<longleftrightarrow> t = u \<and> b = c"
  using put32_inj by (auto simp: tagged_def)

end
