(* ===== verification/Identity.thy ===== *)
theory Identity
  imports Kinds Codec
begin

text \<open>
  The identities written in the grammar: the business keys and the keys a provider
  deduplicates by (\<open>internal/outbound/keys/keys.go\<close>), and the fingerprints of a
  proposal and of a conclusion (\<open>internal/outbound/keys/fingerprint.go\<close>).

  SHA-256 is an argument, \<open>sha\<close>: what is proved is that two different statements never
  have the same material, so that they can only share an identity by a collision.
\<close>

section \<open>Words of the grammar\<close>

fun kind_name :: "kind \<Rightarrow> string" where
  "kind_name KindEscalation = ''escalation''"
| "kind_name KindEscalationReplay = ''escalation_replay''"
| "kind_name KindHandoff = ''handoff''"
| "kind_name KindWebhookEvent = ''webhook_event''"
| "kind_name KindWebhookReplay = ''webhook_replay''"
| "kind_name (KindOther s) = s"

fun family_name :: "family \<Rightarrow> string" where
  "family_name FamilyNotification = ''notification''"
| "family_name FamilyHandoff = ''handoff''"
| "family_name FamilyWebhook = ''webhook''"
| "family_name (FamilyOther s) = s"

fun target_kind_name :: "target_kind \<Rightarrow> string" where
  "target_kind_name TargetChannel = ''channel''"
| "target_kind_name TargetUser = ''user''"
| "target_kind_name TargetSubscriber = ''subscriber''"
| "target_kind_name TargetThread = ''thread''"
| "target_kind_name TargetThreadReply = ''thread_reply''"
| "target_kind_name (TargetOther s) = s"

fun operation_name :: "operation \<Rightarrow> string" where
  "operation_name OperationSend = ''send''"
| "operation_name OperationUpdate = ''update''"
| "operation_name OperationResolve = ''resolve''"
| "operation_name OperationDeliver = ''deliver''"
| "operation_name (OperationOther s) = s"

fun outcome_name :: "attempt_outcome \<Rightarrow> string" where
  "outcome_name OutcomeAccepted = ''accepted''"
| "outcome_name OutcomeRetryableRejection = ''retryable_rejection''"
| "outcome_name OutcomePermanentRejection = ''permanent_rejection''"
| "outcome_name OutcomeAmbiguous = ''ambiguous''"
| "outcome_name OutcomeCanceled = ''canceled''"
| "outcome_name (OutcomeOther s) = s"

text \<open>\<open>strconv.Itoa\<close>, \<open>versionLiteral\<close>, \<open>hex.EncodeToString\<close> and \<open>digestKey\<close>.\<close>

fun nat_digits :: "nat \<Rightarrow> string" where
  "nat_digits n = (if n < 10 then [char_of (48 + n)]
     else nat_digits (n div 10) @ [char_of (48 + n mod 10)])"

declare nat_digits.simps [simp del]

definition itoa :: "int \<Rightarrow> string" where
  "itoa v = (if v < 0 then ''-'' @ nat_digits (nat (- v)) else nat_digits (nat v))"

definition versionLiteral :: "int \<Rightarrow> string" where
  "versionLiteral version = ''v'' @ itoa version"

definition hex_digit :: "nat \<Rightarrow> char" where
  "hex_digit n = (if n < 10 then char_of (48 + n) else char_of (87 + n))"

definition hexEncode :: "string \<Rightarrow> string" where
  "hexEncode bytes = concat (map (\<lambda>c. let n = of_char c :: nat
     in [hex_digit (n div 16), hex_digit (n mod 16)]) bytes)"

definition digestKey :: "(string \<Rightarrow> string) \<Rightarrow> string \<Rightarrow> string \<Rightarrow> string" where
  "digestKey sha prefix material = prefix @ '':'' @ hexEncode (sha material)"

section \<open>What the grammar refuses\<close>

datatype key_error =
    KeyKind kind_error
  | FirehoseWithIndex int | PolicyIndexNegative int | UnknownSlotKind string
  | UnknownTargetKind string | TargetWithoutRecipient target_kind
  | TargetNotAddressed target_kind "target_kind list"
  | KeyWithoutGroup | KeyWithoutProvider
  | UnknownProviderCodec int | KeyWithoutCommitment | NegativeGeneration int
  | UnknownOperation operation | NegativeRevision int
  | UnknownFingerprintVersion int | UnknownAttemptOutcome attempt_outcome
  | UnknownResultDetail string
  | UnknownAdmissionOutcome string | NoTargetsWithCommitments nat | AdmissionOfNothing
  | ContentReferenceLength nat
  | RelativeNegative int | RelativeWithInstant | RelativeWithAge
  | AbsoluteWithoutTime | AbsoluteWithOffset | AbsoluteWithAge
  | BoundedWithoutInstant | BoundedAge int | BoundedWithOffset | UnknownTimingKind string

definition of_kind :: "kind_error + 'a \<Rightarrow> key_error + 'a" where
  "of_kind r = (case r of Inl e \<Rightarrow> Inl (KeyKind e) | Inr v \<Rightarrow> Inr v)"

lemma of_kind_Inr [simp]: "of_kind r = Inr v \<longleftrightarrow> r = Inr v"
  by (cases r) (auto simp: of_kind_def)

section \<open>Slots and targets\<close>

datatype slot_kind = SlotFirehose | SlotPolicy | SlotOther string

fun slot_kind_name :: "slot_kind \<Rightarrow> string" where
  "slot_kind_name SlotFirehose = ''firehose''"
| "slot_kind_name SlotPolicy = ''policy''"
| "slot_kind_name (SlotOther s) = s"

record slot =
  slKind :: slot_kind
  slIndex :: int

definition slot_validate :: "slot \<Rightarrow> key_error + unit" where
  "slot_validate s = (case slKind s of
       SlotFirehose \<Rightarrow> (if slIndex s \<noteq> 0 then Inl (FirehoseWithIndex (slIndex s)) else Inr ())
     | SlotPolicy \<Rightarrow> (if slIndex s < 0 then Inl (PolicyIndexNegative (slIndex s)) else Inr ())
     | SlotOther k \<Rightarrow> Inl (UnknownSlotKind k))"

definition slot_bytes :: "slot \<Rightarrow> string" where
  "slot_bytes s = encStr (slot_kind_name (slKind s)) @
     (if slKind s = SlotFirehose then encStr [] else enc (int64Bytes (slIndex s)))"

definition slot_encode :: "slot \<Rightarrow> key_error + string" where
  "slot_encode s = then_ok (slot_validate s) (\<lambda>_. Inr (slot_bytes s))"

record target =
  tgKind :: target_kind
  tgRef :: string

definition target_validate :: "target \<Rightarrow> key_error + unit" where
  "target_validate t = (case tgKind t of TargetOther k \<Rightarrow> Inl (UnknownTargetKind k)
     | _ \<Rightarrow> if tgRef t = [] then Inl (TargetWithoutRecipient (tgKind t)) else Inr ())"

definition target_Satellite :: "target \<Rightarrow> bool" where
  "target_Satellite t = (tgKind t = TargetThread \<or> tgKind t = TargetThreadReply)"

definition addressedTo :: "target \<Rightarrow> target_kind list \<Rightarrow> key_error + unit" where
  "addressedTo t kinds = then_ok (target_validate t) (\<lambda>_.
     if list_ex (\<lambda>k. tgKind t = k) kinds then Inr () else Inl (TargetNotAddressed (tgKind t) kinds))"

definition TargetKinds :: "target_kind list" where
  "TargetKinds = [TargetChannel, TargetUser, TargetSubscriber, TargetThread, TargetThreadReply]"

definition escalationTargets :: "target_kind list" where
  "escalationTargets = [TargetChannel, TargetUser, TargetThread, TargetThreadReply]"

section \<open>Business keys\<close>

text \<open>\<open>opening\<close>: the partition, the grammar and its version.\<close>

definition key_opening :: "kind \<Rightarrow> int \<Rightarrow> key_error + string" where
  "key_opening k version = then_ok (of_kind (familyOf k)) (\<lambda>family.
     Inr (encStr (family_name family) @ encStr (kind_name k) @ encStr (versionLiteral version)))"

record escalation_intent =
  eiAlertGroupID :: string
  eiClientRequestID :: string
  eiSlot :: slot
  eiProvider :: string
  eiTarget :: target

text \<open>The material of \<open>escalationIntent.key\<close>, after every refusal, and the key itself.\<close>

definition escalation_material :: "escalation_intent \<Rightarrow> kind \<Rightarrow> int \<Rightarrow> key_error + string" where
  "escalation_material i k version =
     then_ok (of_kind (checkVersion k version)) (\<lambda>_.
     if eiAlertGroupID i = [] then Inl KeyWithoutGroup
     else if eiProvider i = [] then Inl KeyWithoutProvider
     else then_ok (addressedTo (eiTarget i) escalationTargets) (\<lambda>_.
     then_ok (of_kind (requestIDFor k (eiClientRequestID i))) (\<lambda>_.
     then_ok (key_opening k version) (\<lambda>op.
     then_ok (slot_encode (eiSlot i)) (\<lambda>slot.
       Inr (op @ encStr (eiAlertGroupID i) @
         (if k = KindEscalationReplay then encStr (eiClientRequestID i) else []) @ slot @
         encStr (eiProvider i) @ encStr (target_kind_name (tgKind (eiTarget i))) @
         encStr (tgRef (eiTarget i))))))))"

definition escalation_key ::
    "(string \<Rightarrow> string) \<Rightarrow> escalation_intent \<Rightarrow> kind \<Rightarrow> int \<Rightarrow> key_error + string" where
  "escalation_key sha i k version = then_ok (escalation_material i k version) (\<lambda>material.
     Inr (digestKey sha (eiAlertGroupID i) material))"

record batch_identity =
  biKind :: kind
  biAlertGroupID :: string
  biClientRequestID :: string

definition batch_material :: "batch_identity \<Rightarrow> int \<Rightarrow> key_error + string" where
  "batch_material b version =
     then_ok (of_kind (checkVersion (biKind b) version)) (\<lambda>_.
     if biAlertGroupID b = [] then Inl KeyWithoutGroup
     else then_ok (of_kind (requestIDFor (biKind b) (biClientRequestID b))) (\<lambda>_.
     then_ok (key_opening (biKind b) version) (\<lambda>op.
       Inr (op @ encStr (biAlertGroupID b) @
         (if biKind b = KindEscalationReplay then encStr (biClientRequestID b) else [])))))"

definition BatchKey :: "(string \<Rightarrow> string) \<Rightarrow> batch_identity \<Rightarrow> int \<Rightarrow> key_error + string" where
  "BatchKey sha b version = then_ok (batch_material b version) (\<lambda>material.
     Inr (digestKey sha (biAlertGroupID b) material))"

fun all_keys :: "(int \<Rightarrow> key_error + string) \<Rightarrow> int list \<Rightarrow> key_error + string list" where
  "all_keys f [] = Inr []"
| "all_keys f (v # vs) = then_ok (f v) (\<lambda>key. then_ok (all_keys f vs) (\<lambda>keys. Inr (key # keys)))"

definition CandidateBatchKeys :: "(string \<Rightarrow> string) \<Rightarrow> batch_identity \<Rightarrow> key_error + string list" where
  "CandidateBatchKeys sha b = then_ok (of_kind (supportedVersions (biKind b))) (all_keys (BatchKey sha b))"

section \<open>Keys a provider deduplicates by\<close>

definition ProviderKeyCodecV1 :: int where "ProviderKeyCodecV1 = 1"

definition checkProviderCodec :: "int \<Rightarrow> key_error + unit" where
  "checkProviderCodec version =
     (if version \<noteq> ProviderKeyCodecV1 then Inl (UnknownProviderCodec version) else Inr ())"

definition create_material :: "string \<Rightarrow> int \<Rightarrow> int \<Rightarrow> key_error + string" where
  "create_material intentID generation codecVersion =
     then_ok (checkProviderCodec codecVersion) (\<lambda>_.
     if intentID = [] then Inl KeyWithoutCommitment
     else if generation < 0 then Inl (NegativeGeneration generation)
     else Inr (encStr (''outbound_create_key/'' @ versionLiteral codecVersion) @
       encStr intentID @ enc (int64Bytes generation)))"

definition CreateKey :: "(string \<Rightarrow> string) \<Rightarrow> string \<Rightarrow> int \<Rightarrow> int \<Rightarrow> key_error + string" where
  "CreateKey sha intentID generation codecVersion =
     then_ok (create_material intentID generation codecVersion) (\<lambda>material.
       Inr (digestKey sha intentID material))"

definition operation_validate :: "operation \<Rightarrow> key_error + unit" where
  "operation_validate o' = (case o' of OperationOther s \<Rightarrow> Inl (UnknownOperation o') | _ \<Rightarrow> Inr ())"

definition mutation_material :: "string \<Rightarrow> operation \<Rightarrow> int \<Rightarrow> int \<Rightarrow> key_error + string" where
  "mutation_material intentID operation revision codecVersion =
     then_ok (checkProviderCodec codecVersion) (\<lambda>_.
     if intentID = [] then Inl KeyWithoutCommitment
     else then_ok (operation_validate operation) (\<lambda>_.
     if revision < 0 then Inl (NegativeRevision revision)
     else Inr (encStr (''outbound_mutation_key/'' @ versionLiteral codecVersion) @
       encStr intentID @ encStr (operation_name operation) @ enc (int64Bytes revision))))"

definition MutationKey ::
    "(string \<Rightarrow> string) \<Rightarrow> string \<Rightarrow> operation \<Rightarrow> int \<Rightarrow> int \<Rightarrow> key_error + string" where
  "MutationKey sha intentID operation revision codecVersion =
     then_ok (mutation_material intentID operation revision codecVersion) (\<lambda>material.
       Inr (digestKey sha intentID material))"

section \<open>Fingerprints\<close>

text \<open>A conclusion: \<open>Completion\<close>, and what its fingerprint is taken over.\<close>

definition CompletionFingerprintV1 :: int where "CompletionFingerprintV1 = 1"

definition checkCompletionFingerprintVersion :: "int \<Rightarrow> key_error + unit" where
  "checkCompletionFingerprintVersion version =
     (if version \<noteq> CompletionFingerprintV1 then Inl (UnknownFingerprintVersion version) else Inr ())"

definition providerResultDetails :: "string list" where
  "providerResultDetails =
     [''acceptance_proven'', ''delivery_proven'', ''definitely_absent'', ''inconclusive'']"

record completion =
  cOutcome :: attempt_outcome
  cErrorClass :: "string option"
  cProviderStatus :: "string option"
  cReceiptRef :: "string option"
  cAppliedRevision :: "int option"
  cProviderResultDetail :: "string option"

definition ReceiptRefOrEmpty :: "completion \<Rightarrow> string" where
  "ReceiptRefOrEmpty c = (case cReceiptRef c of None \<Rightarrow> [] | Some r \<Rightarrow> r)"

definition completion_material :: "completion \<Rightarrow> int \<Rightarrow> key_error + string" where
  "completion_material c version =
     then_ok (checkCompletionFingerprintVersion version) (\<lambda>_.
     case cOutcome c of OutcomeOther s \<Rightarrow> Inl (UnknownAttemptOutcome (cOutcome c))
     | _ \<Rightarrow>
       if (case cAppliedRevision c of None \<Rightarrow> False | Some r \<Rightarrow> r < 0)
         then Inl (NegativeRevision (the (cAppliedRevision c)))
       else if (case cProviderResultDetail c of None \<Rightarrow> False
                | Some d \<Rightarrow> d \<notin> set providerResultDetails)
         then Inl (UnknownResultDetail (the (cProviderResultDetail c)))
       else Inr (encStr ''outbound_completion_fingerprint/v1'' @
         encStr (outcome_name (cOutcome c)) @ encOpt (cErrorClass c) @
         encOpt (cProviderStatus c) @ encOpt (cReceiptRef c) @
         encOptInt64 (cAppliedRevision c) @ encOpt (cProviderResultDetail c)))"

definition Fingerprint :: "(string \<Rightarrow> string) \<Rightarrow> completion \<Rightarrow> int \<Rightarrow> key_error + string" where
  "Fingerprint sha c version = then_ok (completion_material c version) (\<lambda>material. Inr (sha material))"

text \<open>A proposal: the set of commitments offered, whatever order they were built in.\<close>

datatype admission_outcome = OutcomeAdmitted | OutcomeNoTargets | AdmissionOther string

fun admission_outcome_name :: "admission_outcome \<Rightarrow> string" where
  "admission_outcome_name OutcomeAdmitted = ''admitted''"
| "admission_outcome_name OutcomeNoTargets = ''no_targets''"
| "admission_outcome_name (AdmissionOther s) = s"

definition BatchFingerprintV1 :: int where "BatchFingerprintV1 = 1"

definition checkBatchFingerprintVersion :: "int \<Rightarrow> key_error + unit" where
  "checkBatchFingerprintVersion version =
     (if version \<noteq> BatchFingerprintV1 then Inl (UnknownFingerprintVersion version) else Inr ())"

definition batch_fingerprint_material ::
    "int \<Rightarrow> admission_outcome \<Rightarrow> string option \<Rightarrow> string list \<Rightarrow> key_error + string" where
  "batch_fingerprint_material version outcome content encoded =
     then_ok (checkBatchFingerprintVersion version) (\<lambda>_.
     case outcome of AdmissionOther s \<Rightarrow> Inl (UnknownAdmissionOutcome s)
     | _ \<Rightarrow>
       if outcome = OutcomeNoTargets \<and> encoded \<noteq> []
         then Inl (NoTargetsWithCommitments (length encoded))
       else if outcome = OutcomeAdmitted \<and> encoded = [] then Inl AdmissionOfNothing
       else if (case content of None \<Rightarrow> False | Some c \<Rightarrow> length c \<noteq> 32)
         then Inl (ContentReferenceLength (length (the content)))
       else Inr (encStr ''outbound_batch_fingerprint/v1'' @
         encStr (admission_outcome_name outcome) @ encOptBytes content @
         encList (sortBytewise encoded)))"

definition batchFingerprint ::
    "(string \<Rightarrow> string) \<Rightarrow> int \<Rightarrow> admission_outcome \<Rightarrow> string option \<Rightarrow> string list
       \<Rightarrow> key_error + string" where
  "batchFingerprint sha version outcome content encoded =
     then_ok (batch_fingerprint_material version outcome content encoded)
       (\<lambda>material. Inr (sha material))"

section \<open>Timing\<close>

text \<open>An instant is a number of nanoseconds; the zero \<open>time.Time\<close>, which is not an instant
  anything happens at, is None.\<close>

datatype timing_kind = TimingRelativeToAdmission | TimingAbsolute | TimingBounded
  | TimingOther string

fun timing_kind_name :: "timing_kind \<Rightarrow> string" where
  "timing_kind_name TimingRelativeToAdmission = ''relative_to_admission''"
| "timing_kind_name TimingAbsolute = ''absolute''"
| "timing_kind_name TimingBounded = ''bounded''"
| "timing_kind_name (TimingOther s) = s"

record timing_spec =
  tsKind :: timing_kind
  tsOffset :: int
  tsAt :: "int option"
  tsMaxAge :: int

definition timing_validate :: "timing_spec \<Rightarrow> key_error + unit" where
  "timing_validate t = (case tsKind t of
       TimingRelativeToAdmission \<Rightarrow>
         if tsOffset t < 0 then Inl (RelativeNegative (tsOffset t))
         else if tsAt t \<noteq> None then Inl RelativeWithInstant
         else if tsMaxAge t \<noteq> 0 then Inl RelativeWithAge else Inr ()
     | TimingAbsolute \<Rightarrow>
         if tsAt t = None then Inl AbsoluteWithoutTime
         else if tsOffset t \<noteq> 0 then Inl AbsoluteWithOffset
         else if tsMaxAge t \<noteq> 0 then Inl AbsoluteWithAge else Inr ()
     | TimingBounded \<Rightarrow>
         if tsAt t = None then Inl BoundedWithoutInstant
         else if tsMaxAge t \<le> 0 then Inl (BoundedAge (tsMaxAge t))
         else if tsOffset t \<noteq> 0 then Inl BoundedWithOffset else Inr ()
     | TimingOther s \<Rightarrow> Inl (UnknownTimingKind s))"

definition timing_bytes :: "timing_spec \<Rightarrow> string" where
  "timing_bytes t = encStr (timing_kind_name (tsKind t)) @
     (case tsKind t of
        TimingRelativeToAdmission \<Rightarrow> enc (int64Bytes (tsOffset t))
      | TimingBounded \<Rightarrow> enc (int64Bytes (the (tsAt t))) @ enc (int64Bytes (tsMaxAge t))
      | _ \<Rightarrow> enc (int64Bytes (the (tsAt t))))"

definition timing_encode :: "timing_spec \<Rightarrow> key_error + string" where
  "timing_encode t = then_ok (timing_validate t) (\<lambda>_. Inr (timing_bytes t))"

section \<open>Words tell their values apart\<close>

definition fits64 :: "slot \<Rightarrow> bool" where
  "fits64 s \<longleftrightarrow> int64 (slIndex s)"

lemma kind_name_inj:
  "familyOf k = Inr f \<Longrightarrow> familyOf k' = Inr f' \<Longrightarrow> kind_name k = kind_name k' \<Longrightarrow> k = k'"
  by (cases k; cases k') auto

lemma short_kind [simp]:
  "familyOf k = Inr f \<Longrightarrow> short (kind_name k)" "familyOf k = Inr f \<Longrightarrow> short (family_name f)"
  by (cases k; auto simp: short_def)+

lemma short_target [simp]: "target_validate t = Inr () \<Longrightarrow> short (target_kind_name (tgKind t))"
  by (cases "tgKind t") (auto simp: short_def target_validate_def)

lemma short_slot [simp]: "slot_validate s = Inr () \<Longrightarrow> short (slot_kind_name (slKind s))"
  by (cases "slKind s") (auto simp: short_def slot_validate_def)

lemma short_operation [simp]: "operation_validate p = Inr () \<Longrightarrow> short (operation_name p)"
  by (cases p) (auto simp: short_def operation_validate_def)

lemma target_kind_name_inj:
  "target_validate t = Inr () \<Longrightarrow> target_validate u = Inr () \<Longrightarrow>
     target_kind_name (tgKind t) = target_kind_name (tgKind u) \<Longrightarrow> tgKind t = tgKind u"
  by (cases "tgKind t"; cases "tgKind u") (auto simp: target_validate_def)

lemma operation_name_inj:
  "operation_validate p = Inr () \<Longrightarrow> operation_validate q = Inr () \<Longrightarrow>
     operation_name p = operation_name q \<Longrightarrow> p = q"
  by (cases p; cases q) (auto simp: operation_validate_def)

lemma outcome_name_inj:
  "(\<forall>s. p \<noteq> OutcomeOther s) \<Longrightarrow> (\<forall>s. q \<noteq> OutcomeOther s) \<Longrightarrow>
     outcome_name p = outcome_name q \<Longrightarrow> p = q"
  by (cases p; cases q) auto

lemma versionLiteral_1: "versionLiteral 1 = ''v1''"
  by code_simp

lemma short_versions [simp]: "short (versionLiteral 1)"
  by (simp add: short_def versionLiteral_1)

lemma checkVersion_1: "checkVersion k v = Inr u \<Longrightarrow> v = 1"
  by (cases k) (auto simp: checkVersion_def GrammarV1_def split: if_splits)

interpretation slots: self_delimiting slot_bytes "\<lambda>s. slot_validate s = Inr () \<and> int64 (slIndex s)"
proof
  fix a b :: slot and x y
  assume ok: "slot_validate a = Inr () \<and> int64 (slIndex a)"
    "slot_validate b = Inr () \<and> int64 (slIndex b)" and e: "slot_bytes a @ x = slot_bytes b @ y"
  then have "slKind a = slKind b"
    by (cases "slKind a"; cases "slKind b") (auto simp: slot_bytes_def slot_validate_def short_def)
  with ok e show "a = b \<and> x = y"
    by (cases a; cases b; cases "slKind a")
      (auto simp: slot_bytes_def slot_validate_def short_def split: if_splits)
qed

text \<open>Values within the sizes the grammar can write: a field under four gigabytes, 64 bits.\<close>

definition sized_intent :: "escalation_intent \<Rightarrow> bool" where
  "sized_intent i \<longleftrightarrow> short (eiAlertGroupID i) \<and> short (eiClientRequestID i) \<and>
     int64 (slIndex (eiSlot i)) \<and> short (eiProvider i) \<and> short (tgRef (eiTarget i))"

definition sized_completion :: "completion \<Rightarrow> bool" where
  "sized_completion c \<longleftrightarrow> list_all (\<lambda>t. case t of None \<Rightarrow> True | Some s \<Rightarrow> short s)
       [cErrorClass c, cProviderStatus c, cReceiptRef c] \<and>
     (case cAppliedRevision c of None \<Rightarrow> True | Some r \<Rightarrow> int64 r)"

definition sized_timing :: "timing_spec \<Rightarrow> bool" where
  "sized_timing t \<longleftrightarrow> int64 (tsOffset t) \<and> int64 (tsMaxAge t) \<and>
     (case tsAt t of None \<Rightarrow> True | Some n \<Rightarrow> int64 n)"

lemma escalation_material_Inr:
  assumes "escalation_material i k v = Inr m"
  obtains f where "familyOf k = Inr f" "v = 1" "requestIDFor k (eiClientRequestID i) = Inr ()"
    "target_validate (eiTarget i) = Inr ()" "slot_validate (eiSlot i) = Inr ()"
    "m = encStr (family_name f) @ encStr (kind_name k) @ encStr (versionLiteral 1) @
       encStr (eiAlertGroupID i) @
       (if k = KindEscalationReplay then encStr (eiClientRequestID i) else []) @
       slot_bytes (eiSlot i) @ encStr (eiProvider i) @
       encStr (target_kind_name (tgKind (eiTarget i))) @ encStr (tgRef (eiTarget i))"
proof -
  from assms have v: "v = 1"
    by (auto simp: escalation_material_def dest: checkVersion_1 split: if_splits)
  from assms show ?thesis using that
    unfolding escalation_material_def key_opening_def slot_encode_def addressedTo_def
    by (auto simp: v split: if_splits)
qed

lemma no_request_id: "requestIDFor KindEscalation rid = Inr () \<Longrightarrow> rid = []"
  by (simp add: carriesNone_def refuse_if_def split: if_splits)

lemma timing_kind_known:
  "timing_validate t = Inr () \<Longrightarrow>
     tsKind t \<in> {TimingRelativeToAdmission, TimingAbsolute, TimingBounded}"
  by (cases "tsKind t") (auto simp: timing_validate_def)

interpretation timings: self_delimiting timing_bytes
    "\<lambda>t. timing_validate t = Inr () \<and> sized_timing t"
proof
  fix a b :: timing_spec and x y
  assume ok: "timing_validate a = Inr () \<and> sized_timing a"
    "timing_validate b = Inr () \<and> sized_timing b" and e: "timing_bytes a @ x = timing_bytes b @ y"
  from ok timing_kind_known have k:
    "tsKind a \<in> {TimingRelativeToAdmission, TimingAbsolute, TimingBounded}"
    "tsKind b \<in> {TimingRelativeToAdmission, TimingAbsolute, TimingBounded}" by blast+
  have "timing_kind_name (tsKind a) = timing_kind_name (tsKind b)"
    using e k by (auto simp: timing_bytes_def short_def)
  with k have kk: "tsKind a = tsKind b" by auto
  have "tsOffset a = tsOffset b \<and> tsAt a = tsAt b \<and> tsMaxAge a = tsMaxAge b \<and> x = y"
    using e k ok kk
    by (auto simp: timing_bytes_def short_def timing_validate_def sized_timing_def split: if_splits)
  with kk show "a = b \<and> x = y" by (simp add: timing_spec.equality)
qed

section \<open>Properties\<close>

text \<open>
  An escalation's business key names one commitment: two commitments with the same
  material are the same kind of claim about the same alert group, the same operator's
  request, the same step, provider and recipient.
\<close>

theorem business_key_names_one_commitment:
  assumes "escalation_material i k v = Inr m" and "escalation_material i' k' v' = Inr m"
    and "k \<in> {KindEscalation, KindEscalationReplay}" "sized_intent i" "sized_intent i'"
  shows "i = i' \<and> k = k' \<and> v = v'"
proof (rule escalation_material_Inr [OF assms(1)], rule escalation_material_Inr [OF assms(2)])
  fix f f'
  assume one: "familyOf k = Inr f" "v = 1" "requestIDFor k (eiClientRequestID i) = Inr ()"
    "target_validate (eiTarget i) = Inr ()" "slot_validate (eiSlot i) = Inr ()"
    and two: "familyOf k' = Inr f'" "v' = 1" "requestIDFor k' (eiClientRequestID i') = Inr ()"
    "target_validate (eiTarget i') = Inr ()" "slot_validate (eiSlot i') = Inr ()"
    and m: "m = encStr (family_name f) @ encStr (kind_name k) @ encStr (versionLiteral 1) @
       encStr (eiAlertGroupID i) @
       (if k = KindEscalationReplay then encStr (eiClientRequestID i) else []) @
       slot_bytes (eiSlot i) @ encStr (eiProvider i) @
       encStr (target_kind_name (tgKind (eiTarget i))) @ encStr (tgRef (eiTarget i))"
      "m = encStr (family_name f') @ encStr (kind_name k') @ encStr (versionLiteral 1) @
       encStr (eiAlertGroupID i') @
       (if k' = KindEscalationReplay then encStr (eiClientRequestID i') else []) @
       slot_bytes (eiSlot i') @ encStr (eiProvider i') @
       encStr (target_kind_name (tgKind (eiTarget i'))) @ encStr (tgRef (eiTarget i'))"
  note sz = assms(4,5) [unfolded sized_intent_def]
  from m one two sz have kn: "kind_name k = kind_name k'" by simp
  have k: "k = k'" by (rule kind_name_inj [OF one(1) two(1) kn])
  have rid: "eiClientRequestID i = eiClientRequestID i'"
  proof (cases "k = KindEscalationReplay")
    case True
    with m one two sz k show ?thesis by simp
  next
    case False
    with assms(3) have "k = KindEscalation" by simp
    with k one(3) two(3) no_request_id [of "eiClientRequestID i"]
      no_request_id [of "eiClientRequestID i'"] show ?thesis by metis
  qed
  from m one two sz k rid have "eiAlertGroupID i = eiAlertGroupID i'" "eiSlot i = eiSlot i'"
    "eiProvider i = eiProvider i'"
    "target_kind_name (tgKind (eiTarget i)) = target_kind_name (tgKind (eiTarget i'))"
    "tgRef (eiTarget i) = tgRef (eiTarget i')"
    by (auto split: if_splits)
  with target_kind_name_inj [OF one(4) two(4)] k rid one(2) two(2) show ?thesis by simp
qed

text \<open>
  A provider can deduplicate by these keys: two creations share their material only
  when they are the same generation of the same commitment, two changes only when they
  apply the same revision by the same operation, and a creation never shares one with a
  change.
\<close>

theorem provider_keys_name_one_effect:
  assumes "short i" "short i'" "int64 n" "int64 n'"
  shows "(create_material i n c = Inr m \<and> create_material i' n' c' = Inr m \<longrightarrow> i = i' \<and> n = n') \<and>
     (mutation_material i p n c = Inr m \<and> mutation_material i' p' n' c' = Inr m \<longrightarrow>
        i = i' \<and> p = p' \<and> n = n') \<and>
     \<not> (create_material i n c = Inr m \<and> mutation_material i' p' n' c' = Inr m)"
proof -
  have lit: "short ''outbound_create_key/v1''" "short ''outbound_mutation_key/v1''"
    by (simp_all add: short_def)
  have v: "''outbound_create_key/'' @ versionLiteral 1 = ''outbound_create_key/v1''"
    "''outbound_mutation_key/'' @ versionLiteral 1 = ''outbound_mutation_key/v1''"
    by (simp_all add: versionLiteral_1)
  have create: "m = enc ''outbound_create_key/v1'' @ enc j @ enc (int64Bytes q)"
    if "create_material j q w = Inr m" for j q w
    using that v(1) by (auto simp: create_material_def checkProviderCodec_def
        ProviderKeyCodecV1_def split: if_splits)
  have mutation: "operation_validate o' = Inr () \<and>
      m = enc ''outbound_mutation_key/v1'' @ enc j @ enc (operation_name o') @ enc (int64Bytes q)"
    if "mutation_material j o' q w = Inr m" for j o' q w
    using that v(2) by (auto simp: mutation_material_def checkProviderCodec_def
        ProviderKeyCodecV1_def split: if_splits)
  have "i = i' \<and> n = n'" if "create_material i n c = Inr m" "create_material i' n' c' = Inr m"
    using create [OF that(1)] create [OF that(2)] assms lit by simp
  moreover have "i = i' \<and> p = p' \<and> n = n'"
    if "mutation_material i p n c = Inr m" "mutation_material i' p' n' c' = Inr m"
    using mutation [OF that(1)] mutation [OF that(2)] assms lit operation_name_inj by auto
  moreover have False if "create_material i n c = Inr m" "mutation_material i' p' n' c' = Inr m"
    using create [OF that(1)] mutation [OF that(2)] lit by simp
  ultimately show ?thesis by blast
qed

text \<open>
  C15. A repeated result is told from a contradicting one: two conclusions have the same
  fingerprint material if and only if they are the same conclusion, absent fields and
  empty ones kept apart.
\<close>

theorem fingerprint_is_the_conclusion:
  assumes "completion_material c v = Inr m" and "completion_material c' v' = Inr m'"
    and "sized_completion c" "sized_completion c'"
  shows "m = m' \<longleftrightarrow> c = c'"
proof -
  have lit: "short ''outbound_completion_fingerprint/v1''" by (simp add: short_def)
  have shape: "(\<forall>s. cOutcome d \<noteq> OutcomeOther s) \<and> short (outcome_name (cOutcome d)) \<and>
      (case cProviderResultDetail d of None \<Rightarrow> True | Some s \<Rightarrow> short s) \<and>
      n = enc ''outbound_completion_fingerprint/v1'' @ enc (outcome_name (cOutcome d)) @
        encOpt (cErrorClass d) @ encOpt (cProviderStatus d) @ encOpt (cReceiptRef d) @
        encOptInt64 (cAppliedRevision d) @ encOpt (cProviderResultDetail d)"
    if "completion_material d w = Inr n" for d w n
    using that by (cases "cOutcome d")
      (auto simp: completion_material_def short_def providerResultDetails_def
        split: if_splits option.splits)
  note a = shape [OF assms(1)] and b = shape [OF assms(2)]
  note sz = assms(3,4) [unfolded sized_completion_def, simplified]
  have "m = m' \<longleftrightarrow> outcome_name (cOutcome c) = outcome_name (cOutcome c') \<and>
      cErrorClass c = cErrorClass c' \<and> cProviderStatus c = cProviderStatus c' \<and>
      cReceiptRef c = cReceiptRef c' \<and> cAppliedRevision c = cAppliedRevision c' \<and>
      cProviderResultDetail c = cProviderResultDetail c'"
    using a b sz lit text_option.append_iff [of "cProviderResultDetail c" "cProviderResultDetail c'" "[]" "[]"]
    by simp
  with a b outcome_name_inj show ?thesis by (auto intro: completion.equality)
qed

text \<open>
  C16. A proposal is its outcome, its content and its set: two admissions whose parts fit the
  four-byte lengths have the same fingerprint material if and only if they propose the same
  outcome about the same content with the same commitments, whatever order the commitments were
  built in.
\<close>

theorem proposal_is_its_set:
  assumes "batch_fingerprint_material v o1 c1 e1 = Inr m1"
    and "batch_fingerprint_material v' o2 c2 e2 = Inr m2"
    and "short_list e1" "short_list e2"
  shows "m1 = m2 \<longleftrightarrow> o1 = o2 \<and> c1 = c2 \<and> mset e1 = mset e2"
proof -
  have lit: "short ''outbound_batch_fingerprint/v1''" by (simp add: short_def)
  have shape: "o' \<in> {OutcomeAdmitted, OutcomeNoTargets} \<and>
      (case c of None \<Rightarrow> True | Some s \<Rightarrow> short s) \<and>
      n = enc ''outbound_batch_fingerprint/v1'' @ enc (admission_outcome_name o') @
        encOpt c @ encList (sortBytewise e)"
    if "batch_fingerprint_material w o' c e = Inr n" for w o' c e n
    using that by (cases o')
      (auto simp: batch_fingerprint_material_def encOpt_eq short_def split: if_splits option.splits)
  note a = shape [OF assms(1)] and b = shape [OF assms(2)]
  have n: "short (admission_outcome_name o')" if "o' \<in> {OutcomeAdmitted, OutcomeNoTargets}" for o'
    using that by (auto simp: short_def)
  have "m1 = m2 \<longleftrightarrow> admission_outcome_name o1 = admission_outcome_name o2 \<and> c1 = c2 \<and>
      sortBytewise e1 = sortBytewise e2"
    using a b n lit assms(3,4) listing.append_iff [of "sortBytewise e1" "sortBytewise e2" "[]" "[]"]
    by simp
  moreover have "admission_outcome_name o1 = admission_outcome_name o2 \<longleftrightarrow> o1 = o2"
    using a b by auto
  ultimately show ?thesis by (simp add: sortBytewise_mset)
qed

section \<open>Witnesses\<close>

definition sample_intent :: escalation_intent where
  "sample_intent = \<lparr>eiAlertGroupID = ''g1'', eiClientRequestID = [],
     eiSlot = \<lparr>slKind = SlotPolicy, slIndex = 2\<rparr>, eiProvider = ''slack'',
     eiTarget = \<lparr>tgKind = TargetUser, tgRef = ''u1''\<rparr>\<rparr>"

theorem business_key_names_one_commitment_witness:
  "\<exists>m. escalation_material sample_intent KindEscalation 1 = Inr m \<and>
     (\<forall>i k v. sized_intent i \<and> escalation_material i k v = Inr m \<longrightarrow>
        i = sample_intent \<and> k = KindEscalation)"
proof -
  have "\<exists>m. escalation_material sample_intent KindEscalation 1 = Inr m"
    by (simp add: escalation_material_def sample_intent_def checkVersion_def GrammarV1_def
        addressedTo_def target_validate_def escalationTargets_def carriesNone_def refuse_if_def
        key_opening_def slot_encode_def slot_validate_def)
  then obtain m where m: "escalation_material sample_intent KindEscalation 1 = Inr m" by blast
  have s: "sized_intent sample_intent"
    by (simp add: sized_intent_def sample_intent_def short_def int64_def)
  from m business_key_names_one_commitment [OF m _ _ s] show ?thesis by fastforce
qed

theorem provider_keys_name_one_effect_witness:
  "\<exists>m. create_material ''i1'' 0 1 = Inr m \<and> mutation_material ''i1'' OperationUpdate 0 1 \<noteq> Inr m"
proof -
  have "\<exists>m. create_material ''i1'' 0 1 = Inr m"
    by (simp add: create_material_def checkProviderCodec_def ProviderKeyCodecV1_def)
  then obtain m where m: "create_material ''i1'' 0 1 = Inr m" by blast
  have "short ''i1''" "int64 0" by (simp_all add: short_def int64_def)
  from provider_keys_name_one_effect [OF this(1) this(1) this(2) this(2)] m show ?thesis by blast
qed

definition sample_completion :: "string option \<Rightarrow> completion" where
  "sample_completion status = \<lparr>cOutcome = OutcomeAccepted, cErrorClass = None,
     cProviderStatus = status, cReceiptRef = Some ''C1/17'', cAppliedRevision = Some 3,
     cProviderResultDetail = None\<rparr>"

theorem fingerprint_is_the_conclusion_witness:
  "\<exists>m m'. completion_material (sample_completion None) 1 = Inr m \<and>
     completion_material (sample_completion (Some [])) 1 = Inr m' \<and> m \<noteq> m'"
proof -
  have "\<exists>m. completion_material (sample_completion st) 1 = Inr m" for st
    by (simp add: completion_material_def checkCompletionFingerprintVersion_def
        CompletionFingerprintV1_def sample_completion_def)
  then obtain m m' where m: "completion_material (sample_completion None) 1 = Inr m"
    "completion_material (sample_completion (Some [])) 1 = Inr m'" by blast
  have s: "sized_completion (sample_completion None)" "sized_completion (sample_completion (Some []))"
    by (simp_all add: sized_completion_def sample_completion_def short_def int64_def)
  from fingerprint_is_the_conclusion [OF m s] m show ?thesis by (simp add: sample_completion_def)
qed

theorem proposal_is_its_set_witness:
  "\<exists>m1 m2. batch_fingerprint_material 1 OutcomeAdmitted None [''a'', ''b''] = Inr m1 \<and>
     batch_fingerprint_material 1 OutcomeAdmitted None [''b'', ''a''] = Inr m2 \<and> m1 = m2"
proof -
  have "\<exists>m. batch_fingerprint_material 1 OutcomeAdmitted None [a, b] = Inr m" for a b
    by (simp add: batch_fingerprint_material_def checkBatchFingerprintVersion_def BatchFingerprintV1_def)
  then obtain m1 m2 where m:
    "batch_fingerprint_material 1 OutcomeAdmitted None [''a'', ''b''] = Inr m1"
    "batch_fingerprint_material 1 OutcomeAdmitted None [''b'', ''a''] = Inr m2" by blast
  have s: "short_list [''a'', ''b'']" "short_list [''b'', ''a'']"
    by (simp_all add: short_list_def short_def)
  from proposal_is_its_set [OF m s] m show ?thesis by (simp add: add_mset_commute)
qed

end
