(* ===== verification/Tables.thy ===== *)
theory Tables
  imports Families Receipts Identity
begin

text \<open>
  The tables the delivery domain keeps, as the columns the code reads and writes:
  \<open>outbound_intents\<close>, \<open>outbound_attempts\<close>, \<open>outbound_effects\<close>, \<open>outbound_intent_events\<close>,
  the alert groups and their timeline (\<open>internal/store/outbound_schema.go\<close>,
  \<open>outbound_receipt_schema.go\<close>, \<open>outbound_snapshot_v2_schema.go\<close>), the row-to-domain
  mapping \<open>scanIntent\<close> of \<open>internal/store/outbound_store.go\<close>, and who signs a journal
  line, \<open>internal/outbound/actor.go\<close>.

  A table is the list of its rows; a nullable column is an option; an instant is a
  number of nanoseconds, and \<open>now()\<close>, the clock of the transaction, is an argument.  A
  statement that would break a \<open>CHECK\<close> constraint is refused, and its transaction with
  it: the constraints are \<open>intent_checks\<close> and \<open>attempt_checks\<close>.
\<close>

section \<open>Who writes\<close>

datatype actor_kind = ActorKindUser | ActorKindSystem | ActorKindLegacy | ActorKindOther string

definition ActorKinds :: "actor_kind list" where
  "ActorKinds = [ActorKindUser, ActorKindSystem, ActorKindLegacy]"

datatype component = ComponentEngine | ComponentNotifier | ComponentFanOut | ComponentWorker
  | ComponentRecovery | ComponentErasure | ComponentSystem | ComponentOther string

definition Components :: "component list" where
  "Components = [ComponentEngine, ComponentNotifier, ComponentFanOut, ComponentWorker,
     ComponentRecovery, ComponentErasure, ComponentSystem]"

text \<open>The string a component's constant stands for.\<close>

fun component_name :: "component \<Rightarrow> string" where
  "component_name ComponentEngine = ''engine''"
| "component_name ComponentNotifier = ''notifier''"
| "component_name ComponentFanOut = ''fanout''"
| "component_name ComponentWorker = ''worker''"
| "component_name ComponentRecovery = ''recovery''"
| "component_name ComponentErasure = ''erasure''"
| "component_name ComponentSystem = ''system''"
| "component_name (ComponentOther s) = s"

record actor =
  aKind :: actor_kind
  aRef :: string

datatype actor_error = UserWithoutID | UnknownComponent component

definition UserActor :: "string \<Rightarrow> actor_error + actor" where
  "UserActor uid = (if uid = [] then Inl UserWithoutID
     else Inr \<lparr>aKind = ActorKindUser, aRef = uid\<rparr>)"

definition SystemActor :: "component \<Rightarrow> actor_error + actor" where
  "SystemActor c = (if list_ex (\<lambda>known. c = known) Components
     then Inr \<lparr>aKind = ActorKindSystem, aRef = component_name c\<rparr>
     else Inl (UnknownComponent c))"

definition ActorWorker :: actor where
  "ActorWorker = \<lparr>aKind = ActorKindSystem, aRef = ''worker''\<rparr>"
definition ActorRecovery :: actor where
  "ActorRecovery = \<lparr>aKind = ActorKindSystem, aRef = ''recovery''\<rparr>"
definition ActorSystem :: actor where
  "ActorSystem = \<lparr>aKind = ActorKindSystem, aRef = ''system''\<rparr>"

text \<open>The zero value of \<open>Actor\<close> has the empty kind.\<close>

definition ActorIsZero :: "actor \<Rightarrow> bool" where
  "ActorIsZero a = (aKind a = ActorKindOther [])"

lemma system_actors:
  "SystemActor ComponentWorker = Inr ActorWorker"
  "SystemActor ComponentRecovery = Inr ActorRecovery"
  "SystemActor ComponentSystem = Inr ActorSystem"
  "\<not> ActorIsZero ActorWorker" "\<not> ActorIsZero ActorRecovery" "\<not> ActorIsZero ActorSystem"
  by (simp_all add: SystemActor_def Components_def ActorWorker_def ActorRecovery_def
      ActorSystem_def ActorIsZero_def)

section \<open>A commitment's row\<close>

record row =
  rID :: string
  rBatchID :: string
  rGroupID :: "string option"
  rFamily :: family
  rKeyKind :: kind
  rProvider :: string
  rTargetKind :: target_kind
  rTargetRef :: string
  rForm :: form
  rCompletionMode :: completion_mode
  rAmbiguityPolicy :: ambiguity_policy
  rPayloadSchemaVersion :: int
  rPayload :: string
  rCodecVersion :: int
  rPayloadDigest :: string
  rParentID :: "string option"
  rAwaits :: "string list"
  rNotBefore :: int
  rCreatedAt :: int
  rStatus :: status
  rGenerationNo :: int
  rAttemptsInGeneration :: int
  rFailureStreak :: int
  rBoundEndpoint :: "string option"
  rCreateKey :: "string option"
  rBoundContext :: "string option"
  rReceipt :: "string option"
  rReceiptRef :: "string option"
  rReceiptRecorded :: bool
  rReceiptRedactedAt :: "int option"
  rRecipientErasedAt :: "int option"
  rDesiredRevision :: int
  rAppliedRevision :: "int option"
  rFinalRevisionApplied :: bool
  rCancellationRequested :: bool
  rAcceptedDuplicateRisk :: bool
  rNextAttemptAt :: int
  rExpiresAt :: "int option"
  rReceiptTimeoutAt :: "int option"
  rReceiptDeadline :: "int option"
  rWithdrawnAt :: "int option"
  rWithdrawnReason :: "string option"
  rWithdrawnActor :: "string option"
  rCurrentAttempt :: "string option"
  rLeaseToken :: "string option"
  rLockedUntil :: "int option"
  rWorkerID :: "string option"
  rUpdatedAt :: int

text \<open>\<open>nullableJSON\<close> and \<open>nilIfEmpty\<close>: nothing is written as NULL; and SQL's \<open>COALESCE\<close>.\<close>

definition nullable :: "string \<Rightarrow> string option" where
  "nullable s = (if s = [] then None else Some s)"

definition coalesce :: "'a option \<Rightarrow> 'a option \<Rightarrow> 'a option" where
  "coalesce a b = (case a of None \<Rightarrow> b | Some x \<Rightarrow> Some x)"

definition text_or_empty :: "string option \<Rightarrow> string" where
  "text_or_empty t = (case t of None \<Rightarrow> [] | Some s \<Rightarrow> s)"

lemma nullable_simps [simp]:
  "nullable [] = None" "nullable s = None \<longleftrightarrow> s = []" "text_or_empty None = []"
  "text_or_empty (Some s) = s" "coalesce None b = b" "coalesce (Some x) b = Some x"
  "coalesce a b = None \<longleftrightarrow> a = None \<and> b = None"
  by (simp_all add: nullable_def text_or_empty_def coalesce_def split: option.split)

lemma nullable_Some: "nullable s = Some t \<longleftrightarrow> s \<noteq> [] \<and> t = s"
  by (auto simp: nullable_def)

text \<open>\<open>scanIntent\<close>: the commitment the domain reasons about, and whether its deadline passed.\<close>

definition passed :: "int \<Rightarrow> int option \<Rightarrow> bool" where
  "passed now t = (case t of None \<Rightarrow> False | Some deadline \<Rightarrow> deadline \<le> now)"

definition scanIntent :: "int \<Rightarrow> row \<Rightarrow> intent \<times> bool" where
  "scanIntent now r =
     (\<lparr>iID = rID r, iBatchID = rBatchID r, iAlertGroupID = text_or_empty (rGroupID r),
       iFamily = rFamily r, iKeyKind = rKeyKind r, iProvider = rProvider r,
       iTargetKind = rTargetKind r, iTargetRef = rTargetRef r, iForm = rForm r,
       iCompletionMode = rCompletionMode r, iAmbiguityPolicy = rAmbiguityPolicy r,
       iStatus = rStatus r, iGenerationNo = rGenerationNo r,
       iAttemptsInGeneration = rAttemptsInGeneration r, iFailureStreak = rFailureStreak r,
       iBoundEndpoint = text_or_empty (rBoundEndpoint r),
       iGenerationBound = (rCreateKey r \<noteq> None),
       iPayloadSchemaVersion = rPayloadSchemaVersion r,
       iProviderKeyCodecVersion = rCodecVersion r, iPayload = rPayload r,
       iPayloadDigest = rPayloadDigest r, iDesiredRevision = rDesiredRevision r,
       iAppliedRevision = rAppliedRevision r, iFinalRevisionApplied = rFinalRevisionApplied r,
       iHasReceipt = rReceiptRecorded r, iReceipt = text_or_empty (rReceipt r),
       iReceiptRef = text_or_empty (rReceiptRef r),
       iRecipientErased = (rRecipientErasedAt r \<noteq> None),
       iCancellationRequested = rCancellationRequested r,
       iAcceptedDuplicateRisk = rAcceptedDuplicateRisk r,
       iObligationWithdrawn = (rWithdrawnAt r \<noteq> None), iNotBefore = rNotBefore r,
       iNextAttemptAt = rNextAttemptAt r, iExpiresAt = rExpiresAt r,
       iCreatedAt = rCreatedAt r, iUpdatedAt = rUpdatedAt r,
       iParentID = text_or_empty (rParentID r), iParent = None, iAwaitsIntentIDs = rAwaits r\<rparr>,
      passed now (rExpiresAt r))"

abbreviation intent_of :: "int \<Rightarrow> row \<Rightarrow> intent" where
  "intent_of now r \<equiv> fst (scanIntent now r)"

lemma intent_of_sel [simp]:
  "iID (intent_of now r) = rID r"
  "iAlertGroupID (intent_of now r) = text_or_empty (rGroupID r)"
  "iFamily (intent_of now r) = rFamily r"
  "iKeyKind (intent_of now r) = rKeyKind r"
  "iProvider (intent_of now r) = rProvider r"
  "iTargetKind (intent_of now r) = rTargetKind r"
  "iTargetRef (intent_of now r) = rTargetRef r"
  "iForm (intent_of now r) = rForm r"
  "iCompletionMode (intent_of now r) = rCompletionMode r"
  "iAmbiguityPolicy (intent_of now r) = rAmbiguityPolicy r"
  "iStatus (intent_of now r) = rStatus r"
  "iGenerationNo (intent_of now r) = rGenerationNo r"
  "iFailureStreak (intent_of now r) = rFailureStreak r"
  "iGenerationBound (intent_of now r) \<longleftrightarrow> rCreateKey r \<noteq> None"
  "iDesiredRevision (intent_of now r) = rDesiredRevision r"
  "iHasReceipt (intent_of now r) = rReceiptRecorded r"
  "iCancellationRequested (intent_of now r) = rCancellationRequested r"
  "iObligationWithdrawn (intent_of now r) \<longleftrightarrow> rWithdrawnAt r \<noteq> None"
  "iRecipientErased (intent_of now r) \<longleftrightarrow> rRecipientErasedAt r \<noteq> None"
  "iParentID (intent_of now r) = text_or_empty (rParentID r)"
  "iProviderKeyCodecVersion (intent_of now r) = rCodecVersion r"
  by (simp_all add: scanIntent_def)

lemma Satellite_intent_of [simp]:
  "Satellite (intent_of now r) \<longleftrightarrow> rTargetKind r \<in> {TargetThread, TargetThreadReply}"
  by (auto simp: Satellite_def)

section \<open>The constraints on a row\<close>

definition sending_has_attempt :: "row \<Rightarrow> bool" where
  "sending_has_attempt r \<longleftrightarrow> (rCurrentAttempt r \<noteq> None) = (rStatus r = StatusSending)"

definition lease_pair :: "row \<Rightarrow> bool" where
  "lease_pair r \<longleftrightarrow> (rLeaseToken r = None) = (rLockedUntil r = None)"

definition cancel_flag_on_sending :: "row \<Rightarrow> bool" where
  "cancel_flag_on_sending r \<longleftrightarrow> \<not> rCancellationRequested r \<or> rStatus r = StatusSending"

definition lease_only_when_working :: "row \<Rightarrow> bool" where
  "lease_only_when_working r \<longleftrightarrow>
     rLeaseToken r = None \<or> rStatus r \<in> {StatusPending, StatusSending}"

definition sending_has_lease :: "row \<Rightarrow> bool" where
  "sending_has_lease r \<longleftrightarrow> rStatus r \<noteq> StatusSending \<or> rLeaseToken r \<noteq> None"

definition counters_nonneg :: "row \<Rightarrow> bool" where
  "counters_nonneg r \<longleftrightarrow>
     rAttemptsInGeneration r \<ge> 0 \<and> rFailureStreak r \<ge> 0 \<and> rGenerationNo r \<ge> 0"

text \<open>\<open>outbound_receipt_state\<close>: none, usable or redacted, on commitments and attempts alike.\<close>

definition receipt_state :: "bool \<Rightarrow> string option \<Rightarrow> int option \<Rightarrow> bool" where
  "receipt_state recorded receipt redacted \<longleftrightarrow>
     \<not> recorded \<and> receipt = None \<and> redacted = None
     \<or> recorded \<and> receipt \<noteq> None \<and> redacted = None
     \<or> recorded \<and> receipt = None \<and> redacted \<noteq> None"

definition receipt_is_named :: "row \<Rightarrow> bool" where
  "receipt_is_named r \<longleftrightarrow>
     rReceipt r \<noteq> None \<and> rReceiptRef r \<noteq> None \<and> rReceiptRef r \<noteq> Some []
     \<or> rReceipt r = None \<and> rReceiptRef r = None"

definition awaiting_has_wait :: "row \<Rightarrow> bool" where
  "awaiting_has_wait r \<longleftrightarrow> rStatus r \<noteq> StatusAwaitingReceipt
     \<or> rReceiptTimeoutAt r \<noteq> None \<and> rReceiptDeadline r \<noteq> None"

definition form_known :: "row \<Rightarrow> bool" where
  "form_known r \<longleftrightarrow> rForm r \<in> {FormEditable, FormOneShot}"

definition satellite_has_parent :: "row \<Rightarrow> bool" where
  "satellite_has_parent r \<longleftrightarrow>
     (rTargetKind r \<in> {TargetThread, TargetThreadReply}) = (rParentID r \<noteq> None)"

text \<open>\<open>familyOfKindSQL\<close>: the pairing as the database states it.\<close>

definition family_matches_kind :: "row \<Rightarrow> bool" where
  "family_matches_kind r \<longleftrightarrow>
     rKeyKind r \<in> {KindEscalation, KindEscalationReplay} \<and> rFamily r = FamilyNotification
     \<or> rKeyKind r = KindHandoff \<and> rFamily r = FamilyHandoff
     \<or> rKeyKind r \<in> {KindWebhookEvent, KindWebhookReplay} \<and> rFamily r = FamilyWebhook"

lemma family_matches_familyOf: "family_matches_kind r \<longleftrightarrow> familyOf (rKeyKind r) = Inr (rFamily r)"
  by (cases "rKeyKind r") (auto simp: family_matches_kind_def)

definition intent_checks :: "row \<Rightarrow> bool" where
  "intent_checks r \<longleftrightarrow> sending_has_attempt r \<and> lease_pair r \<and> cancel_flag_on_sending r
     \<and> lease_only_when_working r \<and> sending_has_lease r \<and> counters_nonneg r
     \<and> receipt_state (rReceiptRecorded r) (rReceipt r) (rReceiptRedactedAt r)
     \<and> receipt_is_named r \<and> awaiting_has_wait r \<and> form_known r \<and> satellite_has_parent r
     \<and> family_matches_kind r"

lemmas check_defs = intent_checks_def sending_has_attempt_def lease_pair_def
  cancel_flag_on_sending_def lease_only_when_working_def sending_has_lease_def
  counters_nonneg_def receipt_state_def receipt_is_named_def awaiting_has_wait_def
  form_known_def satellite_has_parent_def family_matches_kind_def

section \<open>The journal\<close>

datatype record_kind = RecordAttempt | RecordPreparation | RecordOther string

record attempt =
  tID :: string
  tIntentID :: string
  tAttemptNo :: int
  tRecordKind :: record_kind
  tGenerationNo :: int
  tAttemptKind :: attempt_kind
  tOperation :: operation
  tAppliedRevision :: "int option"
  tProvider :: string
  tBoundEndpoint :: "string option"
  tProviderKey :: "string option"
  tLeaseToken :: "string option"
  tWorkerID :: "string option"
  tStartedAt :: "int option"
  tFinishedAt :: "int option"
  tOutcome :: "attempt_outcome option"
  tErrorClass :: "string option"
  tProviderStatus :: "string option"
  tReceipt :: "string option"
  tReceiptRecorded :: bool
  tReceiptRedactedAt :: "int option"
  tSummary :: "string option"
  tFinishReason :: "string option"
  tDetail :: "string option"
  tFingerprint :: "string option"
  tFingerprintVersion :: "int option"
  tBoundContext :: "string option"

definition kind_shape :: "attempt \<Rightarrow> bool" where
  "kind_shape a \<longleftrightarrow>
     tRecordKind a = RecordAttempt \<and> tStartedAt a \<noteq> None \<and> tLeaseToken a \<noteq> None
     \<or> tRecordKind a = RecordPreparation \<and> tStartedAt a = None \<and> tLeaseToken a = None
       \<and> tFinishedAt a \<noteq> None \<and> tFinishReason a = Some ''preparation''
       \<and> tFingerprint a = None \<and> tFingerprintVersion a = None"

definition finished_shape :: "attempt \<Rightarrow> bool" where
  "finished_shape a \<longleftrightarrow>
     tFinishedAt a = None \<and> tOutcome a = None \<and> tFinishReason a = None
     \<or> tFinishedAt a \<noteq> None \<and> tOutcome a \<noteq> None \<and> tFinishReason a \<noteq> None
       \<and> (tStartedAt a = None \<or> the (tFinishedAt a) \<ge> the (tStartedAt a))"

definition fingerprint_shape :: "attempt \<Rightarrow> bool" where
  "fingerprint_shape a \<longleftrightarrow> tRecordKind a \<noteq> RecordAttempt
     \<or> tFingerprintVersion a \<noteq> None \<and> (tFinishedAt a = None) = (tFingerprint a = None)"

definition digest_len :: "attempt \<Rightarrow> bool" where
  "digest_len a \<longleftrightarrow> (case tFingerprint a of None \<Rightarrow> True | Some d \<Rightarrow> length d = 32)"

definition result_detail_known :: "attempt \<Rightarrow> bool" where
  "result_detail_known a \<longleftrightarrow> (case tDetail a of None \<Rightarrow> True | Some d \<Rightarrow>
     d \<in> {''acceptance_proven'', ''delivery_proven'', ''definitely_absent'', ''inconclusive''})"

definition attempt_checks :: "attempt \<Rightarrow> bool" where
  "attempt_checks a \<longleftrightarrow> kind_shape a \<and> finished_shape a \<and> fingerprint_shape a \<and> digest_len a
     \<and> result_detail_known a
     \<and> receipt_state (tReceiptRecorded a) (tReceipt a) (tReceiptRedactedAt a)"

lemmas attempt_check_defs = attempt_checks_def kind_shape_def finished_shape_def
  fingerprint_shape_def digest_len_def result_detail_known_def receipt_state_def

text \<open>A commitment's own history, the group and its timeline, and the frozen state.\<close>

record event =
  evIntentID :: string
  evSeq :: int
  evKind :: string
  evReason :: "string option"
  evActor :: string
  evActorKind :: actor_kind
  evDetail :: "string option"

datatype group_status = GroupNew | GroupProcessing | GroupTriggered | GroupAcknowledged
  | GroupResolved | GroupClosed | GroupOther string

record group =
  grID :: string
  grStatus :: group_status
  grRenderSourceVersion :: int

datatype timeline_type = TimelineEventNotificationSent | TimelineEventNotificationFailed
  | TimelineEventOther string

text \<open>What a line is about is its metadata; a line about nobody's delivery carries none.\<close>

record about_delivery =
  abIntentID :: string
  abProvider :: string
  abTargetKind :: target_kind
  abTargetRef :: string

record timeline_event =
  tlGroupID :: string
  tlType :: timeline_type
  tlMessage :: string
  tlActor :: string
  tlAbout :: "about_delivery option"
  tlAt :: int

record snapshot =
  snGroupID :: string
  snRaw :: string
  snRevision :: int
  snSchemaVersion :: int
  snDigest :: string
  snFinal :: bool

record batch =
  btID :: string
  btSnapshot :: "string option"
  btRevision :: "int option"
  btSchemaVersion :: "int option"
  btDigest :: "string option"

record observation =
  oAttemptID :: string
  oKind :: string
  oOutcome :: attempt_outcome
  oErrorClass :: "string option"
  oProviderStatus :: "string option"
  oReceipt :: "string option"
  oReceiptRecorded :: bool
  oReceiptRedactedAt :: "int option"
  oAppliedRevision :: "int option"
  oDetail :: "string option"
  oSummary :: "string option"
  oFingerprint :: string
  oVersion :: int

definition observation_checks :: "observation \<Rightarrow> bool" where
  "observation_checks o' \<longleftrightarrow> length (oFingerprint o') = 32
     \<and> receipt_state (oReceiptRecorded o') (oReceipt o') (oReceiptRedactedAt o')"

record effect_row =
  fIntentID :: string
  fEffect :: effect
  fProviderStatus :: string

text \<open>The inbox of what providers said, and what became of each event.\<close>

datatype apply_outcome = ApplyApplied | ApplyIgnored | ApplyUnmatched | ApplyAlreadyDone
  | ApplyOther string

record kept_event =
  kvID :: string
  kvProvider :: string
  kvAccountScope :: string
  kvEventID :: string
  kvAttemptID :: "string option"
  kvExternalRef :: "string option"
  kvSequence :: "int option"
  kvProviderStatus :: string
  kvSummary :: "string option"
  kvOccurredAt :: "int option"
  kvState :: apply_outcome

record db =
  dbIntents :: "row list"
  dbAttempts :: "attempt list"
  dbObservations :: "observation list"
  dbEffects :: "effect_row list"
  dbEvents :: "event list"
  dbTimeline :: "timeline_event list"
  dbGroups :: "group list"
  dbSnapshots :: "snapshot list"
  dbBatches :: "batch list"
  dbInbox :: "kept_event list"

section \<open>What a transaction can fail with\<close>

text \<open>
  \<open>outboundContractf\<close> and its kin: each message of the code is a constructor.  The last
  two are the database's own: a constraint, and a key that is already taken.
\<close>

datatype store_error =
    Contract string
  | Undeliverable string
  | WaitsWithoutPolicy string string
  | EventWithoutActor string string
  | MachineRefused invalid_transition
  | UnknownFamily family
  | ContractKind kind_error
  | EffectsNotUnderstood effects
  | OneShotHasMessage string
  | NoAddressToOpen string
  | ResultNamesRevision string
  | DetailMismatch string attempt_kind attempt_outcome string
  | NamesWithoutRecording string
  | CreatedWithoutSaying string
  | FinishedByOther string "string option"
  | OpenButElsewhere string
  | TwoLateResults string
  | AcceptedWithoutObject string
  | UnknownEffect effect
  | KeyRefused key_error
  | CheckViolated
  | DuplicateKey

section \<open>Statements\<close>

text \<open>\<open>SELECT ... WHERE id = $1\<close>, and an update of the rows a condition picks.\<close>

definition intent_row :: "string \<Rightarrow> db \<Rightarrow> row option" where
  "intent_row i d = find (\<lambda>r. rID r = i) (dbIntents d)"

definition attempt_row :: "string \<Rightarrow> db \<Rightarrow> attempt option" where
  "attempt_row a d = find (\<lambda>t. tID t = a) (dbAttempts d)"

definition update_intents :: "(row \<Rightarrow> bool) \<Rightarrow> (row \<Rightarrow> row) \<Rightarrow> db \<Rightarrow> store_error + db" where
  "update_intents p f d =
     (if list_all (\<lambda>r. p r \<longrightarrow> intent_checks (f r)) (dbIntents d)
      then Inr (d\<lparr>dbIntents := map (\<lambda>r. if p r then f r else r) (dbIntents d)\<rparr>)
      else Inl CheckViolated)"

definition update_attempts :: "(attempt \<Rightarrow> bool) \<Rightarrow> (attempt \<Rightarrow> attempt) \<Rightarrow> db \<Rightarrow> store_error + db" where
  "update_attempts p f d =
     (if list_all (\<lambda>t. p t \<longrightarrow> attempt_checks (f t)) (dbAttempts d)
      then Inr (d\<lparr>dbAttempts := map (\<lambda>t. if p t then f t else t) (dbAttempts d)\<rparr>)
      else Inl CheckViolated)"

definition insert_attempt :: "attempt \<Rightarrow> db \<Rightarrow> store_error + db" where
  "insert_attempt t d =
     (if \<not> attempt_checks t then Inl CheckViolated
      else if list_ex (\<lambda>u. tID u = tID t \<or>
             tIntentID u = tIntentID t \<and> tAttemptNo u = tAttemptNo t) (dbAttempts d)
      then Inl DuplicateKey
      else Inr (d\<lparr>dbAttempts := dbAttempts d @ [t]\<rparr>))"

text \<open>\<open>addTimelineWithTx\<close>, and \<open>addTimelineTx\<close> for a line that is about no delivery.\<close>

definition addTimelineWithTx ::
    "int \<Rightarrow> string \<Rightarrow> timeline_type \<Rightarrow> string \<Rightarrow> string \<Rightarrow> about_delivery option \<Rightarrow> db \<Rightarrow> db" where
  "addTimelineWithTx now g eventType message actor about d =
     d\<lparr>dbTimeline := dbTimeline d @
       [\<lparr>tlGroupID = g, tlType = eventType, tlMessage = message,
         tlActor = (if actor = [] then ''system'' else actor), tlAbout = about, tlAt = now\<rparr>]\<rparr>"

definition addTimelineTx :: "int \<Rightarrow> string \<Rightarrow> timeline_type \<Rightarrow> string \<Rightarrow> string \<Rightarrow> db \<Rightarrow> db" where
  "addTimelineTx now g eventType message actor d =
     addTimelineWithTx now g eventType message actor None d"

text \<open>
  \<open>appendIntentEventDetailTx\<close> at \<open>nextEventSeq\<close>, the next number of the commitment's
  history, and \<open>nextAttemptNoTx\<close>, the next number of its journal.
\<close>

definition next_number :: "int list \<Rightarrow> int" where
  "next_number ns = (case ns of [] \<Rightarrow> 0 | n # rest \<Rightarrow> fold max rest n) + 1"

definition appendIntentEventDetailTx ::
    "string \<Rightarrow> string \<Rightarrow> string \<Rightarrow> actor \<Rightarrow> string \<Rightarrow> db \<Rightarrow> store_error + db" where
  "appendIntentEventDetailTx i kind reason actor detail d =
     (if ActorIsZero actor then Inl (EventWithoutActor kind i)
      else Inr (d\<lparr>dbEvents := dbEvents d @
        [\<lparr>evIntentID = i,
          evSeq = next_number (map evSeq (filter (\<lambda>e. evIntentID e = i) (dbEvents d))),
          evKind = kind, evReason = nullable reason, evActor = aRef actor,
          evActorKind = aKind actor, evDetail = nullable detail\<rparr>]\<rparr>))"

definition appendIntentEventTx ::
    "string \<Rightarrow> string \<Rightarrow> string \<Rightarrow> actor \<Rightarrow> db \<Rightarrow> store_error + db" where
  "appendIntentEventTx i kind reason actor d = appendIntentEventDetailTx i kind reason actor [] d"

definition nextAttemptNoTx :: "string \<Rightarrow> db \<Rightarrow> int" where
  "nextAttemptNoTx i d =
     next_number (map tAttemptNo (filter (\<lambda>t. tIntentID t = i) (dbAttempts d)))"

section \<open>Facts about the statements\<close>

lemma fold_max_start: "(m::int) \<le> fold max ns m"
proof (induction ns arbitrary: m)
  case (Cons a ns)
  from Cons [of "max a m"] show ?case by simp
qed simp

lemma fold_max_ge: "n \<in> set ns \<Longrightarrow> (n::int) \<le> fold max ns m"
proof (induction ns arbitrary: m)
  case (Cons x ns)
  then show ?case using fold_max_start [of "max x m" ns] by (cases "n = x") auto
qed simp

lemma next_number_fresh: "n \<in> set ns \<Longrightarrow> n < next_number ns"
proof (cases ns)
  case (Cons m rest)
  moreover assume "n \<in> set ns"
  ultimately show ?thesis
    using fold_max_start [of m rest] fold_max_ge [of n rest m] by (auto simp: next_number_def)
qed simp

lemma intent_row_Some:
  assumes "intent_row i d = Some r"
  shows "r \<in> set (dbIntents d)" "rID r = i"
  using assms by (auto simp: intent_row_def find_Some_iff)

lemma find_map_key:
  assumes "\<And>r. key (f r) = key r"
  shows "find (\<lambda>r. key r = i) (map f rs) = map_option f (find (\<lambda>r. key r = i) rs)"
  using assms by (induction rs) auto

lemma intent_row_map:
  assumes "\<And>r. rID (f r) = rID r"
  shows "intent_row i (d\<lparr>dbIntents := map f (dbIntents d)\<rparr>) = map_option f (intent_row i d)"
  using find_map_key [of rID f i] assms by (simp add: intent_row_def)

lemma update_intents_Inr:
  assumes "update_intents p f d = Inr d'"
  shows "d' = d\<lparr>dbIntents := map (\<lambda>r. if p r then f r else r) (dbIntents d)\<rparr>"
    and "\<forall>r\<in>set (dbIntents d). p r \<longrightarrow> intent_checks (f r)"
  using assms by (auto simp: update_intents_def list_all_iff split: if_splits)

lemma update_intents_ok:
  assumes "\<forall>r\<in>set (dbIntents d). p r \<longrightarrow> intent_checks (f r)"
  shows "update_intents p f d = Inr (d\<lparr>dbIntents := map (\<lambda>r. if p r then f r else r) (dbIntents d)\<rparr>)"
  using assms by (simp add: update_intents_def list_all_iff)

lemma appendIntentEvent_Inr [simp]:
  "\<not> ActorIsZero actor \<Longrightarrow> \<exists>es. appendIntentEventDetailTx i k why actor detail d
     = Inr (d\<lparr>dbEvents := dbEvents d @ es\<rparr>)"
  by (auto simp: appendIntentEventDetailTx_def)

end
