(* ===== verification/MachineLaws.thy ===== *)
theory MachineLaws
  imports Machine
begin

text \<open>
  What every answer of the state machine satisfies, and the exact graph of moves
  it allows.

  The laws are stated once as predicates on an input and its transition, proved
  for each decider by the \<open>ensures\<close> rules, and offered to the writer of transitions
  (theory \<open>Row\<close>) as the contract \<open>lawful\<close>.
\<close>

section \<open>The laws of a transition\<close>

text \<open>A commitment that is due again is scheduled in exactly one way.\<close>

definition law_schedule :: "transition \<Rightarrow> bool" where
  "law_schedule t \<longleftrightarrow>
     (trTo t = StatusPending \<longleftrightarrow> ScheduleRetry (trEffects t) \<noteq> ScheduleNow (trEffects t)) \<and>
     (trTo t \<noteq> StatusPending \<longrightarrow> \<not> ScheduleRetry (trEffects t) \<and> \<not> ScheduleNow (trEffects t)) \<and>
     (ScheduleRetry (trEffects t) \<longrightarrow> BumpFailureStreak (trEffects t)) \<and>
     \<not> (ResetFailureStreak (trEffects t) \<and> BumpFailureStreak (trEffects t)) \<and>
     (NewGeneration (trEffects t) \<longrightarrow> ScheduleNow (trEffects t) \<and> \<not> StoreReceipt (trEffects t))"

text \<open>A success is known somehow, and an assumed one leaves its risk on the record.\<close>

definition law_proof :: "bool \<Rightarrow> input \<Rightarrow> transition \<Rightarrow> bool" where
  "law_proof satellite x t \<longleftrightarrow>
     (TriggerGroup (trEffects t) \<longleftrightarrow>
        effProof (trEffects t) \<noteq> NoProof \<and> \<not> satellite) \<and>
     (ApplyRevision (trEffects t) \<longleftrightarrow> effProof (trEffects t) \<noteq> NoProof) \<and>
     (trTo t \<in> {StatusSucceeded, StatusIdle} \<longrightarrow> effProof (trEffects t) \<noteq> NoProof) \<and>
     (effProof (trEffects t) = ProofAssumed \<longrightarrow> RecordDuplicateRisk (trEffects t)) \<and>
     (iCompletionMode (inIntent x) = CompletionOnProviderReceipt \<longrightarrow>
        effProof (trEffects t) \<noteq> ProofAccepted)"

text \<open>Only a one-shot commitment of a provider that queues waits for its word.\<close>

definition law_wait :: "input \<Rightarrow> transition \<Rightarrow> bool" where
  "law_wait x t \<longleftrightarrow>
     (AwaitReceipt (trEffects t) \<longleftrightarrow> trTo t = StatusAwaitingReceipt) \<and>
     (trTo t = StatusAwaitingReceipt \<longrightarrow>
        iForm (inIntent x) = FormOneShot \<and>
        iCompletionMode (inIntent x) = CompletionOnProviderReceipt)"

text \<open>An open attempt is let go of with its lease, and takes the request to stop with it.\<close>

definition law_lease :: "input \<Rightarrow> transition \<Rightarrow> bool" where
  "law_lease x t \<longleftrightarrow>
     (iStatus (inIntent x) = StatusSending \<longrightarrow>
        ClearLease (trEffects t) \<and> ClearCurrentAttempt (trEffects t) \<and>
        (ConsumeCancellation (trEffects t) \<longleftrightarrow> iCancellationRequested (inIntent x))) \<and>
     (iStatus (inIntent x) = StatusPending \<longrightarrow>
        (ClearLease (trEffects t) \<longleftrightarrow> trTo t \<noteq> StatusSending)) \<and>
     (iStatus (inIntent x) \<noteq> StatusSending \<longrightarrow> \<not> ConsumeCancellation (trEffects t)) \<and>
     (trTo t = StatusSending \<longrightarrow>
        iStatus (inIntent x) = StatusPending \<and> inTrigger x = TriggerPreparation \<and>
        trEffects t = no_effects\<lparr>OpenGeneration := \<not> iGenerationBound (inIntent x)\<rparr>)"

text \<open>
  Only a person leaves a terminal status or a manual review; and of the terminal
  ones only a refusal or an expiry can be left, through the kind's own door.
\<close>

definition law_terminal :: "input \<Rightarrow> transition \<Rightarrow> bool" where
  "law_terminal x t \<longleftrightarrow>
     (Terminal (iStatus (inIntent x)) \<or> iStatus (inIntent x) = StatusManualReview \<longrightarrow>
        inTrigger x = TriggerOperator) \<and>
     (Terminal (iStatus (inIntent x)) \<longrightarrow>
        iStatus (inIntent x) \<in> {StatusPermanentFailed, StatusExpired} \<and>
        (trTo t = StatusPending \<and>
           newEffectDoor (iKeyKind (inIntent x)) = Inr DoorResolveAmbiguity \<or>
         trTo t = StatusCanceled \<and> iStatus (inIntent x) = StatusPermanentFailed)) \<and>
     (iStatus (inIntent x) = StatusExpired \<longrightarrow> inNewExpiryProvided x)"

text \<open>What the alert's history is told; a satellite tells it nothing.\<close>

definition law_lines :: "bool \<Rightarrow> transition \<Rightarrow> bool" where
  "law_lines satellite t \<longleftrightarrow>
     (Timeline (trEffects t) = TimelineCanceled \<longleftrightarrow>
        trTo t = StatusCanceled \<and> \<not> satellite) \<and>
     (RaiseFailureSignal (trEffects t) \<longleftrightarrow> trTo t = StatusPermanentFailed) \<and>
     (satellite \<longrightarrow> Timeline (trEffects t) = TimelineNone)"

definition lawful :: "input \<Rightarrow> transition \<Rightarrow> bool" where
  "lawful x t \<longleftrightarrow> law_schedule t \<and> law_proof (Satellite (inIntent x)) x t \<and> law_wait x t \<and>
     law_lease x t \<and> law_terminal x t \<and> law_lines (Satellite (inIntent x)) t"

text \<open>The same before a satellite is silenced, which is what the deciders below satisfy.\<close>

definition obeys :: "input \<Rightarrow> transition \<Rightarrow> bool" where
  "obeys x t \<longleftrightarrow> law_schedule t \<and> law_proof False x t \<and> law_wait x t \<and>
     law_lease x t \<and> law_terminal x t \<and> law_lines False t"

lemmas law_defs = lawful_def law_schedule_def law_proof_def law_wait_def law_lease_def
  law_terminal_def law_lines_def
lemmas obeys_defs = obeys_def law_schedule_def law_proof_def law_wait_def law_lease_def
  law_terminal_def law_lines_def settledEffects_def

definition quiet :: "input \<Rightarrow> transition \<Rightarrow> transition" where
  "quiet x t = (if Satellite (inIntent x)
     then t\<lparr>trEffects := (trEffects t)\<lparr>Timeline := TimelineNone, TriggerGroup := False\<rparr>\<rparr>
     else t)"

lemma Decide_quiet: "Decide x = then_ok (decide x) (\<lambda>t. Inr (quiet x t))"
  by (cases "decide x") (simp_all add: Decide_def quiet_def)

lemma quiet_sel [simp]:
  "trTo (quiet x t) = trTo t"
  "trRow (quiet x t) = trRow t"
  "TriggerGroup (trEffects (quiet x t)) \<longleftrightarrow> TriggerGroup (trEffects t) \<and> \<not> Satellite (inIntent x)"
  "Timeline (trEffects (quiet x t)) =
     (if Satellite (inIntent x) then TimelineNone else Timeline (trEffects t))"
  "OpenGeneration (trEffects (quiet x t)) = OpenGeneration (trEffects t)"
  "NewGeneration (trEffects (quiet x t)) = NewGeneration (trEffects t)"
  "ClearLease (trEffects (quiet x t)) = ClearLease (trEffects t)"
  "ClearCurrentAttempt (trEffects (quiet x t)) = ClearCurrentAttempt (trEffects t)"
  "ConsumeCancellation (trEffects (quiet x t)) = ConsumeCancellation (trEffects t)"
  "ScheduleRetry (trEffects (quiet x t)) = ScheduleRetry (trEffects t)"
  "ScheduleNow (trEffects (quiet x t)) = ScheduleNow (trEffects t)"
  "ResetFailureStreak (trEffects (quiet x t)) = ResetFailureStreak (trEffects t)"
  "BumpFailureStreak (trEffects (quiet x t)) = BumpFailureStreak (trEffects t)"
  "effProof (trEffects (quiet x t)) = effProof (trEffects t)"
  "ApplyRevision (trEffects (quiet x t)) = ApplyRevision (trEffects t)"
  "StoreReceipt (trEffects (quiet x t)) = StoreReceipt (trEffects t)"
  "RecordDuplicateRisk (trEffects (quiet x t)) = RecordDuplicateRisk (trEffects t)"
  "RaiseFailureSignal (trEffects (quiet x t)) = RaiseFailureSignal (trEffects t)"
  "AwaitReceipt (trEffects (quiet x t)) = AwaitReceipt (trEffects t)"
  "WithdrawObligation (trEffects (quiet x t)) = WithdrawObligation (trEffects t)"
  by (simp_all add: quiet_def)

lemma quiet_opening:
  "trEffects t = no_effects\<lparr>OpenGeneration := b\<rparr> \<Longrightarrow> trEffects (quiet x t) = trEffects t"
  by (simp add: quiet_def no_effects_def)

lemma lawful_quiet:
  assumes "obeys x t"
  shows "lawful x (quiet x t)"
proof -
  have "law_schedule (quiet x t) = law_schedule t" "law_wait x (quiet x t) = law_wait x t"
    "law_terminal x (quiet x t) = law_terminal x t"
    by (simp_all add: law_schedule_def law_wait_def law_terminal_def)
  moreover have "law_proof False x t \<Longrightarrow> law_proof (Satellite (inIntent x)) x (quiet x t)"
    by (simp add: law_proof_def)
  moreover have "law_lines False t \<Longrightarrow> law_lines (Satellite (inIntent x)) (quiet x t)"
    by (simp add: law_lines_def)
  moreover have "law_lease x t \<Longrightarrow> law_lease x (quiet x t)"
    by (simp add: law_lease_def quiet_opening)
  ultimately show ?thesis
    using assms by (simp add: obeys_def lawful_def)
qed

section \<open>The laws of each decider\<close>

lemma proofEffects_ensures [simp]: "ensures P (proofEffects p) \<longleftrightarrow>
  (p = ProofAccepted \<longrightarrow> P (settledEffects ProofAccepted TimelineSent False)) \<and>
  (p = ProofProviderConfirmed \<longrightarrow>
     P (settledEffects ProofProviderConfirmed TimelineProviderConfirmed False)) \<and>
  (p = ProofAssumed \<longrightarrow> P (settledEffects ProofAssumed TimelineAssumedAccepted True))"
  by (cases p) auto

lemma settle_ensures: "ensures P (settleApplied x p row) \<longleftrightarrow>
  ensures (\<lambda>e.
    if iForm (inIntent x) = FormOneShot
    then P \<lparr>trTo = StatusSucceeded, trEffects = e, trRow = row @ ''/S1''\<rparr>
    else \<forall>r. inAttemptRevision x = Some r \<longrightarrow>
      (if inAttemptIsFinal x
       then P \<lparr>trTo = StatusSucceeded, trEffects = e, trRow = row @ ''/S2''\<rparr>
       else if r \<ge> iDesiredRevision (inIntent x)
       then P \<lparr>trTo = StatusIdle, trEffects = e, trRow = row @ ''/S3''\<rparr>
       else P \<lparr>trTo = StatusPending, trEffects = e\<lparr>ScheduleNow := True\<rparr>,
               trRow = row @ ''/S4''\<rparr>)) (proofEffects p)"
  by (cases "inAttemptRevision x"; cases p) (simp_all add: settleApplied_def)

lemma door_ensures: "ensures P (throughResolveAmbiguity x) \<longleftrightarrow>
  (newEffectDoor (iKeyKind (inIntent x)) = Inr DoorResolveAmbiguity \<longrightarrow> P ())"
  by (auto simp: throughResolveAmbiguity_def split: sum.split)

lemma obeys_preparation:
  "inTrigger x = TriggerPreparation \<Longrightarrow> ensures (obeys x) (decidePreparation x)"
  by (cases "inPreparation x") (simp_all add: decidePreparation_def obeys_defs)

lemma obeys_finishWithdrawn:
  assumes "iStatus (inIntent x) = StatusSending" "iCancellationRequested (inIntent x)"
  shows "ensures (obeys x) (finishWithdrawn x)"
  using assms
  by (simp add: finishWithdrawn_def awaitReceipt_def settle_ensures obeys_defs)

lemma obeys_finish: "ensures (obeys x) (decideFinish x)"
  by (cases "inOutcome x"; cases "iCompletionMode (inIntent x)";
      cases "iAmbiguityPolicy (inIntent x)")
    (simp_all add: decideFinish_def obeys_finishWithdrawn decideAmbiguous_def
      refusedCall_def awaitReceipt_def settle_ensures obeys_defs)

lemma obeys_recover: "ensures (obeys x) (decideRecover x)"
  by (cases "iAmbiguityPolicy (inIntent x)")
    (simp_all add: decideRecover_def recoverRetry_def settle_ensures obeys_defs)

lemma obeys_verdict: "ensures (obeys x) (decideVerdict x)"
  by (cases "inVerdict x"; cases "iStatus (inIntent x)")
    (simp_all add: decideVerdict_def verdictWhileAwaiting_def verdictWhilePending_def
      verdictWhileSending_def settle_ensures obeys_defs)

lemma obeys_operator: "inTrigger x = TriggerOperator \<Longrightarrow> ensures (obeys x) (decideOperator x)"
  by (cases "inDecision x"; cases "iStatus (inIntent x)")
    (simp_all add: decideOperator_def operatorAssume_def operatorCancel_def
      operatorRetryCurrent_def operatorRetryNew_def door_ensures settle_ensures obeys_defs)

lemma obeys_decide: "ensures (obeys x) (decide x)"
  by (cases "inTrigger x")
    (simp_all add: decide_def obeys_preparation obeys_finish obeys_recover obeys_operator
      obeys_verdict)

lemma lawful_Decide: "ensures (lawful x) (Decide x)"
  using obeys_decide [of x] by (auto simp: Decide_quiet intro: lawful_quiet elim: ensures_mono)

lemma lawfulD: "Decide x = Inr t \<Longrightarrow> lawful x t"
  by (rule ensuresD [OF lawful_Decide])

end
