(* ===== verification/MachineGraph.thy ===== *)
theory MachineGraph
  imports MachineLaws
begin

text \<open>
  The state machine against its abstract specification: the graph of moves a
  commitment can make (\<open>lifecycle\<close>), and the exact set of questions the machine
  answers (\<open>admissible\<close>).  \<open>RecoveryTargets\<close> is \<open>internal/outbound/series.go\<close>.
\<close>

section \<open>The graph of moves\<close>

definition RecoveryTargets :: "status list" where
  "RecoveryTargets = [StatusPending, StatusManualReview, StatusCanceled, StatusExpired,
     StatusSucceeded]"

inductive lifecycle :: "trigger \<Rightarrow> status \<Rightarrow> status \<Rightarrow> bool" where
  preparing: "to \<in> {StatusSending, StatusPending, StatusPermanentFailed, StatusNoContact} \<Longrightarrow>
     lifecycle TriggerPreparation StatusPending to"
| finishing: "to \<in> {StatusSucceeded, StatusIdle, StatusPending, StatusAwaitingReceipt,
       StatusPermanentFailed, StatusManualReview, StatusCanceled} \<Longrightarrow>
     lifecycle TriggerFinishAttempt StatusSending to"
| recovering: "to \<in> {StatusPending, StatusManualReview, StatusCanceled, StatusExpired,
       StatusSucceeded} \<Longrightarrow>
     lifecycle TriggerRecoverStale StatusSending to"
| hearing: "to \<in> {StatusSucceeded, StatusPending, StatusAwaitingReceipt, StatusCanceled} \<Longrightarrow>
     from \<in> {StatusAwaitingReceipt, StatusPending} \<Longrightarrow>
     lifecycle TriggerVerdict from to"
| hearing_open: "lifecycle TriggerVerdict StatusSending StatusSucceeded"
| reviewing: "to \<in> {StatusSucceeded, StatusIdle, StatusPending, StatusCanceled} \<Longrightarrow>
     lifecycle TriggerOperator StatusManualReview to"
| reviving: "to \<in> {StatusPending, StatusCanceled} \<Longrightarrow>
     lifecycle TriggerOperator StatusPermanentFailed to"
| extending: "lifecycle TriggerOperator StatusExpired StatusPending"

inductive_simps lifecycle_simps [simp]:
  "lifecycle TriggerPreparation s s'"
  "lifecycle TriggerFinishAttempt s s'"
  "lifecycle TriggerRecoverStale s s'"
  "lifecycle TriggerVerdict s s'"
  "lifecycle TriggerOperator s s'"

inductive_cases lifecycle_fromE: "lifecycle tr s s'"

text \<open>Every answer of the machine is a move of the graph.\<close>

definition along :: "input \<Rightarrow> transition \<Rightarrow> bool" where
  "along x t \<longleftrightarrow> lifecycle (inTrigger x) (iStatus (inIntent x)) (trTo t)"

lemma along_preparation:
  "inTrigger x = TriggerPreparation \<Longrightarrow> ensures (along x) (decidePreparation x)"
  by (cases "inPreparation x") (simp_all add: decidePreparation_def along_def)

lemma along_finish: "inTrigger x = TriggerFinishAttempt \<Longrightarrow> ensures (along x) (decideFinish x)"
  by (cases "inOutcome x"; cases "iCompletionMode (inIntent x)";
      cases "iAmbiguityPolicy (inIntent x)")
    (simp_all add: decideFinish_def finishWithdrawn_def decideAmbiguous_def
      refusedCall_def awaitReceipt_def settle_ensures along_def)

lemma along_recover: "inTrigger x = TriggerRecoverStale \<Longrightarrow> ensures (along x) (decideRecover x)"
  by (cases "iAmbiguityPolicy (inIntent x)")
    (simp_all add: decideRecover_def recoverRetry_def settle_ensures along_def)

lemma along_verdict: "inTrigger x = TriggerVerdict \<Longrightarrow> ensures (along x) (decideVerdict x)"
  by (cases "inVerdict x"; cases "iStatus (inIntent x)")
    (simp_all add: decideVerdict_def verdictWhileAwaiting_def verdictWhilePending_def
      verdictWhileSending_def settle_ensures along_def)

lemma along_operator: "inTrigger x = TriggerOperator \<Longrightarrow> ensures (along x) (decideOperator x)"
  by (cases "inDecision x"; cases "iStatus (inIntent x)")
    (simp_all add: decideOperator_def operatorAssume_def operatorCancel_def
      operatorRetryCurrent_def operatorRetryNew_def door_ensures settle_ensures along_def)

lemma along_decide: "ensures (along x) (decide x)"
  by (cases "inTrigger x")
    (simp_all add: decide_def along_preparation along_finish along_recover along_operator
      along_verdict)

lemma along_Decide: "ensures (along x) (Decide x)"
  using along_decide [of x] by (simp add: Decide_quiet along_def [abs_def])

text \<open>And every move of the graph is an answer: one probe per edge.\<close>

definition probe_intent :: "status \<Rightarrow> form \<Rightarrow> completion_mode \<Rightarrow> ambiguity_policy \<Rightarrow> intent" where
  "probe_intent s f m p = \<lparr>iID = ''c'', iBatchID = ''b'', iAlertGroupID = ''g'',
     iFamily = FamilyNotification, iKeyKind = KindEscalation, iProvider = ''slack'',
     iTargetKind = TargetChannel, iTargetRef = ''C1'', iForm = f, iCompletionMode = m,
     iAmbiguityPolicy = p, iStatus = s, iGenerationNo = 0, iAttemptsInGeneration = 0,
     iFailureStreak = 0, iBoundEndpoint = [], iGenerationBound = False,
     iPayloadSchemaVersion = 1, iProviderKeyCodecVersion = 1, iPayload = [],
     iPayloadDigest = [], iDesiredRevision = 1, iAppliedRevision = None,
     iFinalRevisionApplied = False, iHasReceipt = True, iReceipt = [], iReceiptRef = [],
     iRecipientErased = False, iCancellationRequested = False,
     iAcceptedDuplicateRisk = False, iObligationWithdrawn = False, iNotBefore = 0,
     iNextAttemptAt = 0, iExpiresAt = None, iCreatedAt = 0, iUpdatedAt = 0,
     iParentID = [], iParent = None, iAwaitsIntentIDs = []\<rparr>"

definition probe :: "trigger \<Rightarrow> intent \<Rightarrow> input" where
  "probe tr i = \<lparr>inIntent = i, inTrigger = tr, inPreparation = PreparationReady,
     inOutcome = OutcomeAccepted, inAttemptRevision = Some 1, inAttemptIsFinal = False,
     inExpired = False, inVerdict = VerdictHappened, inDoubtInGeneration = False,
     inDecision = DecisionRetryCurrentGeneration, inLastAttemptKind = AttemptCreate,
     inAmbiguousInGeneration = False, inAcceptedDuplicateRisk = False,
     inResourceLossConfirmed = False, inNewExpiryProvided = True\<rparr>"

lemmas machine_eval = Decide_quiet decide_def decidePreparation_def decideFinish_def
  finishWithdrawn_def decideAmbiguous_def refusedCall_def awaitReceipt_def settleApplied_def
  decideRecover_def recoverRetry_def decideVerdict_def verdictWhileAwaiting_def
  verdictWhilePending_def verdictWhileSending_def decideOperator_def operatorAssume_def
  operatorCancel_def operatorRetryCurrent_def operatorRetryNew_def
  throughResolveAmbiguity_def goes_def probe_def probe_intent_def

definition answered :: "trigger \<Rightarrow> status \<Rightarrow> status \<Rightarrow> bool" where
  "answered tr s s' \<longleftrightarrow> (\<exists>x t. inTrigger x = tr \<and> iStatus (inIntent x) = s \<and>
     Decide x = Inr t \<and> trTo t = s')"

lemma answeredI:
  assumes "inTrigger x = tr" "iStatus (inIntent x) = s"
    and "case Decide x of Inl _ \<Rightarrow> False | Inr t \<Rightarrow> trTo t = s'"
  shows "answered tr s s'"
  using assms by (auto simp: answered_def split: sum.splits)

abbreviation card :: "status \<Rightarrow> intent" where
  "card s \<equiv> probe_intent s FormEditable CompletionOnAcceptance PolicyRetry"

abbreviation call :: "status \<Rightarrow> intent" where
  "call s \<equiv> probe_intent s FormOneShot CompletionOnProviderReceipt PolicyRetry"

lemma answered_preparing:
  "answered TriggerPreparation StatusPending StatusSending"
  "answered TriggerPreparation StatusPending StatusPending"
  "answered TriggerPreparation StatusPending StatusPermanentFailed"
  "answered TriggerPreparation StatusPending StatusNoContact"
  apply (rule answeredI [of "probe TriggerPreparation (card StatusPending)"]; simp add: machine_eval; fail)
  apply (rule answeredI [of "(probe TriggerPreparation (card StatusPending))\<lparr>inPreparation := PreparationTransient\<rparr>"]; simp add: machine_eval; fail)
  apply (rule answeredI [of "(probe TriggerPreparation (card StatusPending))\<lparr>inPreparation := PreparationPermanent\<rparr>"]; simp add: machine_eval; fail)
  apply (rule answeredI [of "(probe TriggerPreparation (card StatusPending))\<lparr>inPreparation := PreparationNoContact\<rparr>"]; simp add: machine_eval; fail)
  done

lemma answered_finishing:
  "answered TriggerFinishAttempt StatusSending StatusSucceeded"
  "answered TriggerFinishAttempt StatusSending StatusIdle"
  "answered TriggerFinishAttempt StatusSending StatusPending"
  "answered TriggerFinishAttempt StatusSending StatusAwaitingReceipt"
  "answered TriggerFinishAttempt StatusSending StatusPermanentFailed"
  "answered TriggerFinishAttempt StatusSending StatusManualReview"
  "answered TriggerFinishAttempt StatusSending StatusCanceled"
  apply (rule answeredI [of "(probe TriggerFinishAttempt (card StatusSending))\<lparr>inAttemptIsFinal := True\<rparr>"]; simp add: machine_eval; fail)
  apply (rule answeredI [of "probe TriggerFinishAttempt (card StatusSending)"]; simp add: machine_eval; fail)
  apply (rule answeredI [of "(probe TriggerFinishAttempt (card StatusSending))\<lparr>inOutcome := OutcomeRetryableRejection\<rparr>"]; simp add: machine_eval; fail)
  apply (rule answeredI [of "probe TriggerFinishAttempt (call StatusSending)"]; simp add: machine_eval; fail)
  apply (rule answeredI [of "(probe TriggerFinishAttempt (card StatusSending))\<lparr>inOutcome := OutcomePermanentRejection\<rparr>"]; simp add: machine_eval; fail)
  apply (rule answeredI [of "(probe TriggerFinishAttempt (probe_intent StatusSending FormOneShot
     CompletionOnAcceptance PolicyManualReview))\<lparr>inOutcome := OutcomeAmbiguous\<rparr>"]; simp add: machine_eval; fail)
  apply (rule answeredI [of "(probe TriggerFinishAttempt ((card StatusSending)
     \<lparr>iCancellationRequested := True\<rparr>))\<lparr>inOutcome := OutcomeAmbiguous\<rparr>"]; simp add: machine_eval; fail)
  done

lemma answered_recovering:
  "answered TriggerRecoverStale StatusSending StatusPending"
  "answered TriggerRecoverStale StatusSending StatusManualReview"
  "answered TriggerRecoverStale StatusSending StatusCanceled"
  "answered TriggerRecoverStale StatusSending StatusExpired"
  "answered TriggerRecoverStale StatusSending StatusSucceeded"
  apply (rule answeredI [of "probe TriggerRecoverStale (card StatusSending)"]; simp add: machine_eval; fail)
  apply (rule answeredI [of "probe TriggerRecoverStale (probe_intent StatusSending FormOneShot
     CompletionOnAcceptance PolicyManualReview)"]; simp add: machine_eval; fail)
  apply (rule answeredI [of "probe TriggerRecoverStale ((card StatusSending)\<lparr>iCancellationRequested := True\<rparr>)"]; simp add: machine_eval; fail)
  apply (rule answeredI [of "(probe TriggerRecoverStale (card StatusSending))\<lparr>inExpired := True\<rparr>"]; simp add: machine_eval; fail)
  apply (rule answeredI [of "probe TriggerRecoverStale (probe_intent StatusSending FormOneShot
     CompletionOnAcceptance PolicyAssumeAccepted)"]; simp add: machine_eval; fail)
  done

lemma answered_hearing:
  "answered TriggerVerdict StatusAwaitingReceipt StatusSucceeded"
  "answered TriggerVerdict StatusAwaitingReceipt StatusPending"
  "answered TriggerVerdict StatusAwaitingReceipt StatusAwaitingReceipt"
  "answered TriggerVerdict StatusAwaitingReceipt StatusCanceled"
  "answered TriggerVerdict StatusPending StatusSucceeded"
  "answered TriggerVerdict StatusPending StatusPending"
  "answered TriggerVerdict StatusPending StatusAwaitingReceipt"
  "answered TriggerVerdict StatusPending StatusCanceled"
  "answered TriggerVerdict StatusSending StatusSucceeded"
  apply (rule answeredI [of "(probe TriggerVerdict (call StatusAwaitingReceipt))\<lparr>inVerdict := VerdictHappened\<rparr>"]; simp add: machine_eval; fail)
  apply (rule answeredI [of "(probe TriggerVerdict (call StatusAwaitingReceipt))\<lparr>inVerdict := VerdictNotPlaced\<rparr>"]; simp add: machine_eval; fail)
  apply (rule answeredI [of "(probe TriggerVerdict (call StatusAwaitingReceipt))\<lparr>inVerdict := VerdictStillGoing\<rparr>"]; simp add: machine_eval; fail)
  apply (rule answeredI [of "(probe TriggerVerdict ((call StatusAwaitingReceipt)\<lparr>iObligationWithdrawn := True\<rparr>))\<lparr>inVerdict := VerdictNotPlaced\<rparr>"]; simp add: machine_eval; fail)
  apply (rule answeredI [of "(probe TriggerVerdict (call StatusPending))\<lparr>inVerdict := VerdictHappened\<rparr>"]; simp add: machine_eval; fail)
  apply (rule answeredI [of "(probe TriggerVerdict (call StatusPending))\<lparr>inVerdict := VerdictNotPlaced\<rparr>"]; simp add: machine_eval; fail)
  apply (rule answeredI [of "(probe TriggerVerdict (call StatusPending))\<lparr>inVerdict := VerdictStillGoing\<rparr>"]; simp add: machine_eval; fail)
  apply (rule answeredI [of "(probe TriggerVerdict ((call StatusPending)\<lparr>iObligationWithdrawn := True\<rparr>))\<lparr>inVerdict := VerdictNotPlaced\<rparr>"]; simp add: machine_eval; fail)
  apply (rule answeredI [of "(probe TriggerVerdict (call StatusSending))\<lparr>inVerdict := VerdictHappened\<rparr>"]; simp add: machine_eval; fail)
  done

lemma answered_operator:
  "answered TriggerOperator StatusManualReview StatusSucceeded"
  "answered TriggerOperator StatusManualReview StatusIdle"
  "answered TriggerOperator StatusManualReview StatusPending"
  "answered TriggerOperator StatusManualReview StatusCanceled"
  "answered TriggerOperator StatusPermanentFailed StatusPending"
  "answered TriggerOperator StatusPermanentFailed StatusCanceled"
  "answered TriggerOperator StatusExpired StatusPending"
  apply (rule answeredI [of "(probe TriggerOperator (call StatusManualReview))\<lparr>inDecision := DecisionAssumeAccepted\<rparr>"]; simp add: machine_eval; fail)
  apply (rule answeredI [of "(probe TriggerOperator (card StatusManualReview))\<lparr>inDecision := DecisionAssumeAccepted\<rparr>"]; simp add: machine_eval; fail)
  apply (rule answeredI [of "(probe TriggerOperator (card StatusManualReview))\<lparr>inDecision := DecisionRetryNewGeneration\<rparr>"]; simp add: machine_eval; fail)
  apply (rule answeredI [of "(probe TriggerOperator (card StatusManualReview))\<lparr>inDecision := DecisionCancel\<rparr>"]; simp add: machine_eval; fail)
  apply (rule answeredI [of "(probe TriggerOperator (card StatusPermanentFailed))\<lparr>inDecision := DecisionRetryCurrentGeneration\<rparr>"]; simp add: machine_eval; fail)
  apply (rule answeredI [of "(probe TriggerOperator (card StatusPermanentFailed))\<lparr>inDecision := DecisionCancel\<rparr>"]; simp add: machine_eval; fail)
  apply (rule answeredI [of "(probe TriggerOperator (card StatusExpired))\<lparr>inDecision := DecisionRetryCurrentGeneration\<rparr>"]; simp add: machine_eval; fail)
  done

lemmas answered_edges = answered_preparing answered_finishing answered_recovering
  answered_hearing answered_operator

lemma lifecycle_answered: "lifecycle tr s s' \<Longrightarrow> answered tr s s'"
  by (erule lifecycle.cases) (auto simp: answered_edges)

lemma answered_lifecycle: "answered tr s s' \<Longrightarrow> lifecycle tr s s'"
  using ensuresD [OF along_Decide] by (auto simp: answered_def along_def)

section \<open>The questions the machine answers\<close>

text \<open>
  The guards of all deciders as one predicate, without the order the code checks
  them in.
\<close>

definition settles :: "input \<Rightarrow> bool" where
  "settles x \<longleftrightarrow> iForm (inIntent x) = FormOneShot \<or> inAttemptRevision x \<noteq> None"

definition waits :: "input \<Rightarrow> bool" where
  "waits x \<longleftrightarrow> iCompletionMode (inIntent x) = CompletionOnProviderReceipt \<and>
     iForm (inIntent x) = FormOneShot"

definition guesses :: "input \<Rightarrow> bool" where
  "guesses x \<longleftrightarrow> (case iAmbiguityPolicy (inIntent x) of
       PolicyAssumeAccepted \<Rightarrow> iForm (inIntent x) = FormOneShot
     | PolicyOther _ \<Rightarrow> False | _ \<Rightarrow> True)"

definition admits_finish :: "input \<Rightarrow> bool" where
  "admits_finish x \<longleftrightarrow>
     (case inOutcome x of
        OutcomeAccepted \<Rightarrow>
          waits x \<or> settles x \<and> (iCompletionMode (inIntent x) = CompletionOnAcceptance \<or>
            iCancellationRequested (inIntent x) \<and>
            iCompletionMode (inIntent x) \<noteq> CompletionOnProviderReceipt)
      | OutcomeRetryableRejection \<Rightarrow> True
      | OutcomePermanentRejection \<Rightarrow> True
      | OutcomeAmbiguous \<Rightarrow> iCancellationRequested (inIntent x) \<or> guesses x
      | OutcomeCanceled \<Rightarrow> iCancellationRequested (inIntent x)
      | OutcomeOther _ \<Rightarrow> False)"

definition admits_verdict :: "input \<Rightarrow> bool" where
  "admits_verdict x \<longleftrightarrow>
     (case iStatus (inIntent x) of
        StatusAwaitingReceipt \<Rightarrow> (case inVerdict x of VerdictOther _ \<Rightarrow> False | _ \<Rightarrow> True)
      | StatusPending \<Rightarrow> inVerdict x \<in> {VerdictHappened, VerdictStillGoing, VerdictNotPlaced}
      | StatusSending \<Rightarrow> inVerdict x = VerdictHappened
      | _ \<Rightarrow> False)"

definition admits_retry :: "input \<Rightarrow> bool" where
  "admits_retry x \<longleftrightarrow>
     newEffectDoor (iKeyKind (inIntent x)) = Inr DoorResolveAmbiguity \<and>
     (iStatus (inIntent x) = StatusExpired \<longrightarrow> inNewExpiryProvided x)"

definition admits_operator :: "input \<Rightarrow> bool" where
  "admits_operator x \<longleftrightarrow>
     iStatus (inIntent x) \<in> {StatusManualReview, StatusPermanentFailed, StatusExpired} \<and>
     (case inDecision x of
        DecisionAssumeAccepted \<Rightarrow>
          iStatus (inIntent x) = StatusManualReview \<and> settles x \<and>
          (iForm (inIntent x) = FormOneShot \<or> iHasReceipt (inIntent x))
      | DecisionCancel \<Rightarrow> iStatus (inIntent x) \<noteq> StatusExpired
      | DecisionRetryCurrentGeneration \<Rightarrow> admits_retry x
      | DecisionRetryNewGeneration \<Rightarrow>
          admits_retry x \<and>
          (inLastAttemptKind x = AttemptCreate \<or> inResourceLossConfirmed x) \<and>
          (inAmbiguousInGeneration x \<longrightarrow> inAcceptedDuplicateRisk x)
      | DecisionOther _ \<Rightarrow> False)"

definition admissible :: "input \<Rightarrow> bool" where
  "admissible x \<longleftrightarrow>
     (case inTrigger x of
        TriggerPreparation \<Rightarrow> iStatus (inIntent x) = StatusPending \<and>
          (case inPreparation x of PreparationOther _ \<Rightarrow> False | _ \<Rightarrow> True)
      | TriggerFinishAttempt \<Rightarrow> iStatus (inIntent x) = StatusSending \<and> admits_finish x
      | TriggerRecoverStale \<Rightarrow> iStatus (inIntent x) = StatusSending \<and>
          (iCancellationRequested (inIntent x) \<or> guesses x)
      | TriggerOperator \<Rightarrow> admits_operator x
      | TriggerVerdict \<Rightarrow> waits x \<and> admits_verdict x
      | TriggerOther _ \<Rightarrow> False)"

lemmas admissible_defs = admissible_def admits_finish_def admits_verdict_def admits_retry_def
  admits_operator_def settles_def waits_def guesses_def

lemma succeeds_settle [simp]:
  "succeeds (settleApplied x p row) \<longleftrightarrow>
     p \<in> {ProofAccepted, ProofProviderConfirmed, ProofAssumed} \<and> settles x"
  by (cases p; cases "inAttemptRevision x") (auto simp: settleApplied_def settles_def)

lemma succeeds_door: "succeeds (throughResolveAmbiguity x) \<longleftrightarrow>
  newEffectDoor (iKeyKind (inIntent x)) = Inr DoorResolveAmbiguity"
  by (auto simp: throughResolveAmbiguity_def split: sum.split)

lemma succeeds_finish:
  "succeeds (decideFinish x) \<longleftrightarrow> iStatus (inIntent x) = StatusSending \<and> admits_finish x"
  by (cases "inOutcome x"; cases "iCompletionMode (inIntent x)";
      cases "iAmbiguityPolicy (inIntent x)")
    (auto simp: decideFinish_def finishWithdrawn_def decideAmbiguous_def
      refusedCall_def awaitReceipt_def admits_finish_def waits_def guesses_def settles_def)

lemma succeeds_recover:
  "succeeds (decideRecover x) \<longleftrightarrow> iStatus (inIntent x) = StatusSending \<and>
     (iCancellationRequested (inIntent x) \<or> guesses x)"
  by (cases "iAmbiguityPolicy (inIntent x)")
    (auto simp: decideRecover_def recoverRetry_def guesses_def settles_def)

lemma succeeds_verdict: "succeeds (decideVerdict x) \<longleftrightarrow> waits x \<and> admits_verdict x"
  by (cases "inVerdict x"; cases "iStatus (inIntent x)")
    (auto simp: decideVerdict_def verdictWhileAwaiting_def verdictWhilePending_def
      verdictWhileSending_def admits_verdict_def waits_def settles_def)

lemma succeeds_operator: "succeeds (decideOperator x) \<longleftrightarrow> admits_operator x"
  by (cases "inDecision x"; cases "iStatus (inIntent x)")
    (auto simp: decideOperator_def operatorAssume_def operatorCancel_def
      operatorRetryCurrent_def operatorRetryNew_def admits_operator_def admits_retry_def succeeds_door)

lemma succeeds_preparation: "succeeds (decidePreparation x) \<longleftrightarrow>
   iStatus (inIntent x) = StatusPending \<and>
   (case inPreparation x of PreparationOther _ \<Rightarrow> False | _ \<Rightarrow> True)"
  by (cases "inPreparation x") (simp_all add: decidePreparation_def)

lemma succeeds_Decide: "succeeds (Decide x) \<longleftrightarrow> admissible x"
  by (cases "inTrigger x")
    (simp_all add: Decide_quiet decide_def admissible_def succeeds_preparation succeeds_finish
      succeeds_recover succeeds_operator succeeds_verdict)

lemma Decide_of_decide:
  "Decide x = Inr t \<Longrightarrow> \<exists>u. decide x = Inr u \<and> t = quiet x u"
  by (auto simp: Decide_quiet)

text \<open>A request to stop is read before the outcome of the call.\<close>

definition stops :: "input \<Rightarrow> transition \<Rightarrow> bool" where
  "stops x t \<longleftrightarrow> ConsumeCancellation (trEffects t) \<and>
     (trTo t = StatusCanceled \<longleftrightarrow>
        \<not> (inTrigger x = TriggerFinishAttempt \<and> inOutcome x = OutcomeAccepted))"

lemma stops_decide:
  assumes "inTrigger x \<in> {TriggerFinishAttempt, TriggerRecoverStale}"
    and "iCancellationRequested (inIntent x)"
  shows "ensures (stops x) (decide x)"
  using assms
  by (cases "inTrigger x")
    (simp_all add: decide_def decideFinish_def decideRecover_def finishWithdrawn_def
      awaitReceipt_def settle_ensures settledEffects_def stops_def)

lemma stops_Decide:
  assumes "inTrigger x \<in> {TriggerFinishAttempt, TriggerRecoverStale}"
    and "iCancellationRequested (inIntent x)"
  shows "ensures (stops x) (Decide x)"
  using stops_decide [OF assms] by (simp add: Decide_quiet stops_def [abs_def])

text \<open>An acceptance that only means "queued" starts a wait and nothing else.\<close>

definition queued :: "transition \<Rightarrow> bool" where
  "queued t \<longleftrightarrow> trTo t = StatusAwaitingReceipt \<and> effProof (trEffects t) = NoProof \<and>
     AwaitReceipt (trEffects t) \<and> StoreReceipt (trEffects t) \<and>
     \<not> ApplyRevision (trEffects t) \<and> \<not> TriggerGroup (trEffects t)"

lemma queued_Decide:
  assumes "inTrigger x = TriggerFinishAttempt" "inOutcome x = OutcomeAccepted"
    and "iCompletionMode (inIntent x) = CompletionOnProviderReceipt"
  shows "ensures queued (Decide x)"
proof -
  have "ensures queued (decide x)"
    using assms
    by (simp add: decide_def decideFinish_def finishWithdrawn_def awaitReceipt_def queued_def)
  then show ?thesis by (auto simp: Decide_quiet queued_def elim!: ensures_mono)
qed

section \<open>Properties\<close>

text \<open>
  C5. The machine refines its abstract specification exactly: a commitment in status
  \<open>s\<close> can be answered with status \<open>s'\<close> on a trigger if and only if the life cycle graph
  has that edge - no answer leaves the graph, and no edge of it is dead.
\<close>

theorem machine_graph_exact: "answered tr s s' \<longleftrightarrow> lifecycle tr s s'"
  using answered_lifecycle lifecycle_answered by blast

text \<open>
  C6. The guards are exhaustive and no stricter than stated: \<open>Decide\<close> answers an input
  if and only if it is admissible, and refuses every other one with an error.
\<close>

theorem machine_domain_exact: "succeeds (Decide x) \<longleftrightarrow> admissible x"
  by (rule succeeds_Decide)

text \<open>
  \<open>RecoveryTargets\<close>, the closed list the expired-lease metric is zero-filled from,
  is exactly the set of statuses recovery can move a commitment to.
\<close>

theorem recovery_targets_exact:
  "set RecoveryTargets = {s'. answered TriggerRecoverStale StatusSending s'}"
proof -
  have "answered TriggerRecoverStale StatusSending s' \<longleftrightarrow>
      lifecycle TriggerRecoverStale StatusSending s'" for s'
    using answered_lifecycle lifecycle_answered by blast
  then show ?thesis by (auto simp: RecoveryTargets_def)
qed


text \<open>
  A commitment that goes back into the queue is due exactly once: its next attempt
  is either now or after the backoff, never both and never neither; a backoff always
  counts a failure, and a failure is never counted and cleared together.
\<close>

theorem due_in_exactly_one_way:
  assumes "Decide x = Inr t"
  shows "(trTo t = StatusPending \<longleftrightarrow>
       ScheduleRetry (trEffects t) \<noteq> ScheduleNow (trEffects t)) \<and>
     (ScheduleRetry (trEffects t) \<longrightarrow> BumpFailureStreak (trEffects t)) \<and>
     \<not> (ResetFailureStreak (trEffects t) \<and> BumpFailureStreak (trEffects t)) \<and>
     (NewGeneration (trEffects t) \<longrightarrow> ScheduleNow (trEffects t))"
  using lawfulD [OF assms] unfolding lawful_def law_schedule_def by blast

text \<open>
  A withdrawal beats every outcome that did not produce an external effect and none
  that did: with a request to stop, an attempt that finishes or is abandoned cancels
  the commitment unless the provider accepted the call, and the request is consumed.
\<close>

theorem withdrawal_beats_what_did_not_happen:
  assumes "Decide x = Inr t"
    and "inTrigger x \<in> {TriggerFinishAttempt, TriggerRecoverStale}"
    and "iCancellationRequested (inIntent x)"
  shows "ConsumeCancellation (trEffects t) \<and>
     (trTo t = StatusCanceled \<longleftrightarrow>
        \<not> (inTrigger x = TriggerFinishAttempt \<and> inOutcome x = OutcomeAccepted))"
  using ensuresD [OF stops_Decide [OF assms(2,3)] assms(1)] by (simp add: stops_def)

text \<open>
  "Queued" is never taken for "delivered": for a provider whose acceptance only
  queues, an accepted attempt leaves the commitment waiting for the provider's word,
  with no proof of success, no revision applied and the alert's group not moved.
\<close>

theorem queued_is_not_delivered:
  assumes "Decide x = Inr t"
    and "inTrigger x = TriggerFinishAttempt" and "inOutcome x = OutcomeAccepted"
    and "iCompletionMode (inIntent x) = CompletionOnProviderReceipt"
  shows "trTo t = StatusAwaitingReceipt \<and> effProof (trEffects t) = NoProof \<and>
     AwaitReceipt (trEffects t) \<and> \<not> ApplyRevision (trEffects t) \<and>
     \<not> TriggerGroup (trEffects t)"
  using ensuresD [OF queued_Decide [OF assms(2-4)] assms(1)] by (simp add: queued_def)

section \<open>Witnesses\<close>

definition revived_by_hand :: input where
  "revived_by_hand = (probe TriggerOperator (card StatusExpired))
     \<lparr>inDecision := DecisionRetryCurrentGeneration\<rparr>"


definition retried_call :: input where
  "retried_call = (probe TriggerFinishAttempt (card StatusSending))
     \<lparr>inOutcome := OutcomeRetryableRejection\<rparr>"

theorem due_in_exactly_one_way_witness:
  "\<exists>t. Decide retried_call = Inr t \<and> trTo t = StatusPending \<and>
     ScheduleRetry (trEffects t) \<noteq> ScheduleNow (trEffects t)"
proof -
  have "\<exists>t. Decide retried_call = Inr t \<and> trTo t = StatusPending"
    by (simp add: retried_call_def machine_eval)
  then obtain t where t: "Decide retried_call = Inr t" "trTo t = StatusPending" by blast
  from due_in_exactly_one_way [OF t(1)] t show ?thesis by blast
qed

definition withdrawn_call :: input where
  "withdrawn_call = (probe TriggerFinishAttempt
     ((card StatusSending)\<lparr>iCancellationRequested := True\<rparr>))\<lparr>inOutcome := OutcomeAmbiguous\<rparr>"

theorem withdrawal_beats_what_did_not_happen_witness:
  "\<exists>t. Decide withdrawn_call = Inr t \<and> trTo t = StatusCanceled \<and>
     ConsumeCancellation (trEffects t)"
proof -
  have a: "inTrigger withdrawn_call \<in> {TriggerFinishAttempt, TriggerRecoverStale}"
    "iCancellationRequested (inIntent withdrawn_call)"
    "inOutcome withdrawn_call = OutcomeAmbiguous"
    by (simp_all add: withdrawn_call_def probe_def probe_intent_def)
  have "succeeds (Decide withdrawn_call)"
    by (simp add: withdrawn_call_def machine_eval)
  then obtain t where d: "Decide withdrawn_call = Inr t" by (auto simp: succeeds_iff)
  from withdrawal_beats_what_did_not_happen [OF d a(1,2)] a(3) d show ?thesis by auto
qed

definition placed_call :: input where
  "placed_call = probe TriggerFinishAttempt (call StatusSending)"

theorem queued_is_not_delivered_witness:
  "\<exists>t. Decide placed_call = Inr t \<and> trTo t = StatusAwaitingReceipt \<and>
     \<not> ApplyRevision (trEffects t)"
proof -
  have a: "inTrigger placed_call = TriggerFinishAttempt" "inOutcome placed_call = OutcomeAccepted"
    "iCompletionMode (inIntent placed_call) = CompletionOnProviderReceipt"
    by (simp_all add: placed_call_def probe_def probe_intent_def)
  have "succeeds (Decide placed_call)"
    by (simp add: placed_call_def machine_eval)
  then obtain t where d: "Decide placed_call = Inr t" by (auto simp: succeeds_iff)
  from queued_is_not_delivered [OF d a] d show ?thesis by blast
qed

end
