(* ===== verification/Apply.thy ===== *)
theory Apply
  imports Tables MachineGraph
begin

text \<open>
  Writing a decided transition: \<open>applyTransitionTx\<close> of \<open>internal/store/outbound_store.go\<close>
  with the events, the timeline and the group it moves, and the satellites a withdrawal
  took by mistake (\<open>reviveWithdrawnSatellitesTx\<close>, \<open>outbound_satellite_store.go\<close>).
\<close>

section \<open>One write\<close>

record transition_write =
  wIntent :: intent
  wTransition :: transition
  wBackoff :: int
  wAppliedRevision :: "int option"
  wReceiptRef :: string
  wAttemptIsFinal :: bool
  wReceipt :: string
  wNewExpires :: "int option"
  wActor :: actor
  wReason :: string

text \<open>
  The \<open>UPDATE\<close>.  Every right-hand side reads the row as it was, and the erasure marker is
  the row's own.  \<open>first_or_next\<close>, \<open>deadline\<close> and \<open>retry\<close> are the three durations the caller
  computes before it.
\<close>

definition update_row :: "int \<Rightarrow> transition_write \<Rightarrow> int \<Rightarrow> int \<Rightarrow> int \<Rightarrow> row \<Rightarrow> row" where
  "update_row now w first_or_next deadline retry r =
     (let e = trEffects (wTransition w); to = trTo (wTransition w);
          receipt = nullable (wReceipt w); writes = StoreReceipt e \<and> receipt \<noteq> None;
          erased = rRecipientErasedAt r \<noteq> None
      in r\<lparr>rStatus := to,
        rLeaseToken := (if ClearLease e then None else rLeaseToken r),
        rLockedUntil := (if ClearLease e then None else rLockedUntil r),
        rWorkerID := (if ClearLease e then None else rWorkerID r),
        rCurrentAttempt := (if ClearCurrentAttempt e then None else rCurrentAttempt r),
        rCancellationRequested :=
          (if ConsumeCancellation e then False else rCancellationRequested r),
        rGenerationNo := rGenerationNo r + (if NewGeneration e then 1 else 0),
        rAttemptsInGeneration := (if NewGeneration e then 0 else rAttemptsInGeneration r),
        rBoundEndpoint := (if NewGeneration e then None else rBoundEndpoint r),
        rCreateKey := (if NewGeneration e then None else rCreateKey r),
        rBoundContext := (if NewGeneration e then None else rBoundContext r),
        rReceipt := (if NewGeneration e then None
          else if writes \<and> \<not> erased then receipt
          else if writes then None else rReceipt r),
        rReceiptRef := (if NewGeneration e then None
          else if writes \<and> \<not> erased then nullable (wReceiptRef w)
          else if writes then None else rReceiptRef r),
        rReceiptRecorded := (if NewGeneration e then False
          else if writes then True else rReceiptRecorded r),
        rReceiptRedactedAt := (if NewGeneration e then None
          else if writes \<and> erased then Some now
          else if writes then None else rReceiptRedactedAt r),
        rFailureStreak := (if ResetFailureStreak e then 0
          else if BumpFailureStreak e then rFailureStreak r + 1 else rFailureStreak r),
        rNextAttemptAt := (if ScheduleRetry e then now + retry
          else if ScheduleNow e then now else rNextAttemptAt r),
        rAppliedRevision := (if ApplyRevision e then wAppliedRevision w else rAppliedRevision r),
        rFinalRevisionApplied :=
          (if ApplyRevision e \<and> wAttemptIsFinal w then True else rFinalRevisionApplied r),
        rAcceptedDuplicateRisk :=
          (if RecordDuplicateRisk e then True else rAcceptedDuplicateRisk r),
        rExpiresAt := coalesce (wNewExpires w) (rExpiresAt r),
        rReceiptTimeoutAt := (if AwaitReceipt e then Some (now + first_or_next)
          else if to \<noteq> StatusAwaitingReceipt then None else rReceiptTimeoutAt r),
        rReceiptDeadline := (if NewGeneration e then None
          else if AwaitReceipt e then coalesce (rReceiptDeadline r) (Some (now + deadline))
          else rReceiptDeadline r),
        rWithdrawnAt := (if WithdrawObligation e
          then coalesce (rWithdrawnAt r) (Some now) else rWithdrawnAt r),
        rWithdrawnReason := (if WithdrawObligation e \<and> rWithdrawnAt r = None
          then nullable (wReason w) else rWithdrawnReason r),
        rWithdrawnActor := (if WithdrawObligation e \<and> rWithdrawnAt r = None
          then Some (aRef (wActor w)) else rWithdrawnActor r),
        rUpdatedAt := now\<rparr>)"

section \<open>What is written beside the row\<close>

definition appendTransitionEventTx :: "transition_write \<Rightarrow> db \<Rightarrow> store_error + db" where
  "appendTransitionEventTx w d =
     (let e = trEffects (wTransition w); i = iID (wIntent w) in
      then_ok (if NewGeneration e
               then appendIntentEventTx i ''generation_started'' (wReason w) (wActor w) d
               else Inr d) (\<lambda>d.
      then_ok (if WithdrawObligation e \<and> \<not> iObligationWithdrawn (wIntent w)
               then appendIntentEventTx i ''obligation_withdrawn'' (wReason w) (wActor w) d
               else Inr d) (\<lambda>d.
      then_ok (if RecordDuplicateRisk e
               then appendIntentEventTx i ''duplicate_risk_accepted''
                 ''a message may already have been delivered'' (wActor w) d
               else Inr d) (\<lambda>d.
      if trTo (wTransition w) = StatusCanceled
      then appendIntentEventTx i ''canceled'' (wReason w) (wActor w) d
      else Inr d))))"

text \<open>\<open>timelineLine\<close>: the wording of every effect, in one place; None where there is no line.\<close>

fun timelineLine :: "timeline_kind \<Rightarrow> (string \<times> timeline_type) option" where
  "timelineLine TimelineSent = Some (''Notification sent'', TimelineEventNotificationSent)"
| "timelineLine TimelineProviderConfirmed =
     Some (''Notification confirmed by the provider'', TimelineEventNotificationSent)"
| "timelineLine TimelineHandedOver =
     Some (''Notification handed to the provider; waiting to hear what became of it'',
       TimelineEventNotificationSent)"
| "timelineLine TimelineNoContact =
     Some (''A notification had nobody to reach: no verified contact the provider can use'',
       TimelineEventNotificationFailed)"
| "timelineLine TimelineNotPlaced =
     Some (''The provider could not place the notification; trying again'',
       TimelineEventNotificationFailed)"
| "timelineLine TimelineAssumedAccepted =
     Some (''Notification assumed delivered: the provider never confirmed, and the risk was accepted'',
       TimelineEventNotificationSent)"
| "timelineLine TimelineSentAlongsideAck =
     Some (''Notification went out at the same moment the alert was acknowledged'',
       TimelineEventNotificationSent)"
| "timelineLine TimelineFailed =
     Some (''Notification failed permanently'', TimelineEventNotificationFailed)"
| "timelineLine TimelineExpired =
     Some (''A notification expired before it could be sent'', TimelineEventNotificationFailed)"
| "timelineLine TimelineCanceled =
     Some (''A notification was withdrawn'', TimelineEventNotificationFailed)"
| "timelineLine TimelineLeaseLost =
     Some (''A notification was interrupted mid-flight; whether it arrived is unknown'',
       TimelineEventNotificationFailed)"
| "timelineLine _ = None"

definition timelineFor :: "transition \<Rightarrow> (string \<times> timeline_type) option" where
  "timelineFor t = timelineLine (Timeline (trEffects t))"

text \<open>A delivery moves the group out of processing, and only out of processing.\<close>

definition trigger_group :: "string \<Rightarrow> group \<Rightarrow> group" where
  "trigger_group g gr = (if grID gr = g \<and> grStatus gr = GroupProcessing
     then gr\<lparr>grStatus := GroupTriggered,
             grRenderSourceVersion := grRenderSourceVersion gr + 1\<rparr>
     else gr)"

definition groupEffectsTx :: "int \<Rightarrow> intent \<Rightarrow> transition \<Rightarrow> db \<Rightarrow> db" where
  "groupEffectsTx now i t d =
     (let d1 = (case timelineFor t of None \<Rightarrow> d
        | Some (message, eventType) \<Rightarrow>
            addTimelineWithTx now (iAlertGroupID i) eventType message ''system''
              (Some \<lparr>abIntentID = iID i, abProvider = iProvider i, abTargetKind = iTargetKind i,
                 abTargetRef = iTargetRef i\<rparr>) d)
      in if TriggerGroup (trEffects t)
         then d1\<lparr>dbGroups := map (trigger_group (iAlertGroupID i)) (dbGroups d1)\<rparr>
         else d1)"

section \<open>Satellites a withdrawal took\<close>

definition revives :: "string \<Rightarrow> db \<Rightarrow> row \<Rightarrow> bool" where
  "revives parentID d r \<longleftrightarrow> rParentID r = Some parentID \<and> rStatus r = StatusCanceled
     \<and> \<not> list_ex (\<lambda>a. tIntentID a = rID r) (dbAttempts d)"

definition revived_row :: "int \<Rightarrow> db \<Rightarrow> row \<Rightarrow> row" where
  "revived_row now d r = r\<lparr>rStatus := StatusPending, rNextAttemptAt := now,
     rCancellationRequested := False,
     rDesiredRevision :=
       (if rForm r = FormEditable
        then (case find (\<lambda>s. rGroupID r = Some (snGroupID s)) (dbSnapshots d) of
                Some s \<Rightarrow> snRevision s | None \<Rightarrow> rDesiredRevision r)
        else rDesiredRevision r),
     rUpdatedAt := now\<rparr>"

fun append_events :: "string list \<Rightarrow> string \<Rightarrow> string \<Rightarrow> actor \<Rightarrow> db \<Rightarrow> store_error + db" where
  "append_events [] kind reason actor d = Inr d"
| "append_events (i # rest) kind reason actor d =
     then_ok (appendIntentEventTx i kind reason actor d) (append_events rest kind reason actor)"

definition reviveWithdrawnSatellitesTx :: "int \<Rightarrow> string \<Rightarrow> db \<Rightarrow> store_error + db" where
  "reviveWithdrawnSatellitesTx now parentID d =
     (let revived = map rID (filter (revives parentID d) (dbIntents d))
      in then_ok (update_intents (revives parentID d) (revived_row now d) d)
           (append_events revived ''revived'' ''the card went out alongside the withdrawal''
              ActorSystem))"

section \<open>The one door\<close>

definition retry_delay :: "transition_write \<Rightarrow> int" where
  "retry_delay w = (let floor = RetryFloorOf (iProvider (wIntent w))
     in if wBackoff w < floor then floor else wBackoff w)"

definition receipt_waits :: "transition_write \<Rightarrow> store_error + int \<times> int" where
  "receipt_waits w =
     (if \<not> AwaitReceipt (trEffects (wTransition w)) then Inr (0, 0)
      else case ReceiptPolicyOf (iProvider (wIntent w)) of
        None \<Rightarrow> Inl (WaitsWithoutPolicy (iID (wIntent w)) (iProvider (wIntent w)))
      | Some policy \<Rightarrow>
          Inr (if iStatus (wIntent w) = StatusAwaitingReceipt then rpPollInterval policy
               else rpFirstWait policy, rpDeadline policy))"

definition applyTransitionTx :: "int \<Rightarrow> transition_write \<Rightarrow> db \<Rightarrow> store_error + db" where
  "applyTransitionTx now w d =
     then_ok (receipt_waits w) (\<lambda>(first_or_next, deadline).
     then_ok (update_intents (\<lambda>r. rID r = iID (wIntent w))
        (update_row now w first_or_next deadline (retry_delay w)) d) (\<lambda>d.
     then_ok (appendTransitionEventTx w d) (\<lambda>d.
     then_ok (if ConsumeCancellation (trEffects (wTransition w))
                 \<and> trTo (wTransition w) \<noteq> StatusCanceled \<and> \<not> Satellite (wIntent w)
              then reviveWithdrawnSatellitesTx now (iID (wIntent w)) d else Inr d) (\<lambda>d.
     if \<not> GroupBound (wIntent w) then Inr d
     else Inr (groupEffectsTx now (wIntent w) (wTransition w) d)))))"

end
