(* ===== verification/Writer.thy ===== *)
theory Writer
  imports Apply
begin

text \<open>
  The writer of transitions against the machine that decides them.  The writer relies on
  the laws of a transition and on nothing else, so what it keeps is proved for any lawful
  decider (\<open>lawful_decider\<close>) and then interpreted on \<open>Decide\<close>.
\<close>

section \<open>Reading an updated row\<close>

lemma update_row_fixed [simp]:
  "rID (update_row now w a b c r) = rID r"
  "rGroupID (update_row now w a b c r) = rGroupID r"
  "rFamily (update_row now w a b c r) = rFamily r"
  "rKeyKind (update_row now w a b c r) = rKeyKind r"
  "rProvider (update_row now w a b c r) = rProvider r"
  "rTargetKind (update_row now w a b c r) = rTargetKind r"
  "rForm (update_row now w a b c r) = rForm r"
  "rCompletionMode (update_row now w a b c r) = rCompletionMode r"
  "rAmbiguityPolicy (update_row now w a b c r) = rAmbiguityPolicy r"
  "rParentID (update_row now w a b c r) = rParentID r"
  "rRecipientErasedAt (update_row now w a b c r) = rRecipientErasedAt r"
  "rDesiredRevision (update_row now w a b c r) = rDesiredRevision r"
  "rStatus (update_row now w a b c r) = trTo (wTransition w)"
  by (simp_all add: update_row_def Let_def)

lemma update_row_lease [simp]:
  "rLeaseToken (update_row now w a b c r) =
     (if ClearLease (trEffects (wTransition w)) then None else rLeaseToken r)"
  "rLockedUntil (update_row now w a b c r) =
     (if ClearLease (trEffects (wTransition w)) then None else rLockedUntil r)"
  "rCurrentAttempt (update_row now w a b c r) =
     (if ClearCurrentAttempt (trEffects (wTransition w)) then None else rCurrentAttempt r)"
  "rCancellationRequested (update_row now w a b c r) \<longleftrightarrow>
     \<not> ConsumeCancellation (trEffects (wTransition w)) \<and> rCancellationRequested r"
  by (simp_all add: update_row_def Let_def)

lemma update_row_counters [simp]:
  "rGenerationNo (update_row now w a b c r) =
     rGenerationNo r + (if NewGeneration (trEffects (wTransition w)) then 1 else 0)"
  "rAttemptsInGeneration (update_row now w a b c r) =
     (if NewGeneration (trEffects (wTransition w)) then 0 else rAttemptsInGeneration r)"
  "rFailureStreak (update_row now w a b c r) =
     (if ResetFailureStreak (trEffects (wTransition w)) then 0
      else if BumpFailureStreak (trEffects (wTransition w)) then rFailureStreak r + 1
      else rFailureStreak r)"
  "rCreateKey (update_row now w a b c r) =
     (if NewGeneration (trEffects (wTransition w)) then None else rCreateKey r)"
  "rBoundEndpoint (update_row now w a b c r) =
     (if NewGeneration (trEffects (wTransition w)) then None else rBoundEndpoint r)"
  by (simp_all add: update_row_def Let_def)

definition writes_receipt :: "transition_write \<Rightarrow> bool" where
  "writes_receipt w \<longleftrightarrow> StoreReceipt (trEffects (wTransition w)) \<and> wReceipt w \<noteq> []"

lemma update_row_receipt:
  "rReceipt (update_row now w a b c r) =
     (if NewGeneration (trEffects (wTransition w)) then None
      else if writes_receipt w
      then (if rRecipientErasedAt r = None then Some (wReceipt w) else None) else rReceipt r)"
  "rReceiptRef (update_row now w a b c r) =
     (if NewGeneration (trEffects (wTransition w)) then None
      else if writes_receipt w
      then (if rRecipientErasedAt r = None then nullable (wReceiptRef w) else None)
      else rReceiptRef r)"
  "rReceiptRecorded (update_row now w a b c r) =
     (if NewGeneration (trEffects (wTransition w)) then False
      else writes_receipt w \<or> rReceiptRecorded r)"
  "rReceiptRedactedAt (update_row now w a b c r) =
     (if NewGeneration (trEffects (wTransition w)) then None
      else if writes_receipt w
      then (if rRecipientErasedAt r = None then None else Some now) else rReceiptRedactedAt r)"
  by (auto simp: update_row_def Let_def writes_receipt_def nullable_def)

lemma update_row_times [simp]:
  "rNextAttemptAt (update_row now w a b c r) =
     (if ScheduleRetry (trEffects (wTransition w)) then now + c
      else if ScheduleNow (trEffects (wTransition w)) then now else rNextAttemptAt r)"
  "rReceiptTimeoutAt (update_row now w a b c r) =
     (if AwaitReceipt (trEffects (wTransition w)) then Some (now + a)
      else if trTo (wTransition w) \<noteq> StatusAwaitingReceipt then None else rReceiptTimeoutAt r)"
  "rReceiptDeadline (update_row now w a b c r) =
     (if NewGeneration (trEffects (wTransition w)) then None
      else if AwaitReceipt (trEffects (wTransition w))
      then coalesce (rReceiptDeadline r) (Some (now + b)) else rReceiptDeadline r)"
  by (simp_all add: update_row_def Let_def)

section \<open>The contract\<close>

text \<open>
  A write is fit for a row when its transition answers a question about that row and does
  not open an attempt - the one transition the writer is never given - and when it names
  any receipt it brings.
\<close>

definition fit :: "row \<Rightarrow> input \<Rightarrow> transition_write \<Rightarrow> bool" where
  "fit r x w \<longleftrightarrow> iStatus (inIntent x) = rStatus r \<and> iForm (inIntent x) = rForm r \<and>
     iCompletionMode (inIntent x) = rCompletionMode r \<and>
     iCancellationRequested (inIntent x) = rCancellationRequested r \<and>
     trTo (wTransition w) \<noteq> StatusSending \<and>
     (writes_receipt w \<longrightarrow> wReceiptRef w \<noteq> [])"

locale lawful_decider =
  fixes decider :: "input \<Rightarrow> 'e + transition"
  assumes answers_lawfully: "decider x = Inr t \<Longrightarrow> lawful x t"
begin

lemma releases:
  assumes "decider x = Inr (wTransition w)" and "fit r x w" and "intent_checks r"
  shows "rCurrentAttempt (update_row now w a b c r) = None"
    and "\<not> rCancellationRequested (update_row now w a b c r)"
    and "rLeaseToken (update_row now w a b c r) \<noteq> None \<Longrightarrow>
           trTo (wTransition w) = StatusPending \<and> rStatus r \<notin> {StatusPending, StatusSending}"
    and "(rLeaseToken (update_row now w a b c r) = None) =
           (rLockedUntil (update_row now w a b c r) = None)"
proof -
  have l: "law_lease x (wTransition w)"
    using answers_lawfully [OF assms(1)] by (simp add: lawful_def)
  note f = assms(2) [unfolded fit_def]
  note c = assms(3) [unfolded intent_checks_def sending_has_attempt_def lease_pair_def
      cancel_flag_on_sending_def lease_only_when_working_def]
  show "rCurrentAttempt (update_row now w a b c r) = None"
    using l f c by (auto simp: law_lease_def)
  show "\<not> rCancellationRequested (update_row now w a b c r)"
    using l f c by (auto simp: law_lease_def)
  show "rLeaseToken (update_row now w a b c r) \<noteq> None \<Longrightarrow>
      trTo (wTransition w) = StatusPending \<and> rStatus r \<notin> {StatusPending, StatusSending}"
    using l f c by (auto simp: law_lease_def split: if_splits)
  show "(rLeaseToken (update_row now w a b c r) = None) =
      (rLockedUntil (update_row now w a b c r) = None)"
    using c by simp
qed

lemma starts_waiting:
  assumes "decider x = Inr (wTransition w)" and "fit r x w"
  shows "awaiting_has_wait (update_row now w a b c r)"
proof -
  have "law_wait x (wTransition w)" "law_schedule (wTransition w)"
    using answers_lawfully [OF assms(1)] by (simp_all add: lawful_def)
  then show ?thesis
    by (auto simp: awaiting_has_wait_def law_wait_def law_schedule_def)
qed

lemma keeps_receipt:
  assumes "decider x = Inr (wTransition w)" and "fit r x w" and "intent_checks r"
  shows "receipt_state (rReceiptRecorded (update_row now w a b c r))
       (rReceipt (update_row now w a b c r)) (rReceiptRedactedAt (update_row now w a b c r))"
    and "receipt_is_named (update_row now w a b c r)"
  using assms(2,3)
  by (auto simp: update_row_receipt receipt_state_def receipt_is_named_def intent_checks_def
      fit_def nullable_Some)

lemma keeps_rest:
  assumes "decider x = Inr (wTransition w)" and "fit r x w" and "intent_checks r"
  shows "sending_has_attempt (update_row now w a b c r)" "lease_pair (update_row now w a b c r)"
    "cancel_flag_on_sending (update_row now w a b c r)"
    "lease_only_when_working (update_row now w a b c r)"
    "sending_has_lease (update_row now w a b c r)"
proof -
  have s: "rStatus (update_row now w a b c r) \<noteq> StatusSending"
    using assms(2) by (simp add: fit_def)
  note rel = releases [OF assms, of now a b c]
  show "sending_has_attempt (update_row now w a b c r)"
    using s rel(1) by (simp only: sending_has_attempt_def) simp
  show "lease_pair (update_row now w a b c r)"
    using rel(4) by (simp only: lease_pair_def)
  show "cancel_flag_on_sending (update_row now w a b c r)"
    using rel(2) by (simp only: cancel_flag_on_sending_def) simp
  show "lease_only_when_working (update_row now w a b c r)"
    using rel(3) unfolding lease_only_when_working_def update_row_fixed by blast
  show "sending_has_lease (update_row now w a b c r)"
    using s by (simp only: sending_has_lease_def) simp
qed

lemma keeps_checks:
  assumes "decider x = Inr (wTransition w)" and "fit r x w" and "intent_checks r"
  shows "intent_checks (update_row now w a b c r)"
proof -
  have "counters_nonneg (update_row now w a b c r)"
    using assms(3) by (simp add: intent_checks_def counters_nonneg_def)
  moreover have "form_known (update_row now w a b c r)"
    "satellite_has_parent (update_row now w a b c r)"
    "family_matches_kind (update_row now w a b c r)"
    using assms(3) by (simp_all add: intent_checks_def form_known_def satellite_has_parent_def
        family_matches_kind_def)
  ultimately show ?thesis
    unfolding intent_checks_def
    using keeps_rest [OF assms, of now a b c] starts_waiting [OF assms(1,2), of now a b c]
      keeps_receipt [OF assms, of now a b c] by blast
qed

end

interpretation machine: lawful_decider Decide
  by unfold_locales (rule lawfulD)

section \<open>Transactions\<close>

text \<open>What holds of the tables between transactions, as far as the database itself checks it.\<close>

definition sound :: "db \<Rightarrow> bool" where
  "sound d \<longleftrightarrow> distinct (map rID (dbIntents d)) \<and> (\<forall>r\<in>set (dbIntents d). intent_checks r) \<and>
     distinct (map tID (dbAttempts d)) \<and> (\<forall>t\<in>set (dbAttempts d). attempt_checks t)"

text \<open>Two databases that agree on everything but the history and the groups.\<close>

definition same_journal :: "db \<Rightarrow> db \<Rightarrow> bool" where
  "same_journal d d' \<longleftrightarrow> dbAttempts d' = dbAttempts d \<and> dbObservations d' = dbObservations d \<and>
     dbEffects d' = dbEffects d \<and> dbSnapshots d' = dbSnapshots d \<and> dbBatches d' = dbBatches d \<and>
     dbInbox d' = dbInbox d"

definition same_rows :: "db \<Rightarrow> db \<Rightarrow> bool" where
  "same_rows d d' \<longleftrightarrow> dbIntents d' = dbIntents d \<and> same_journal d d'"

lemma same_journal_refl [simp]: "same_journal d d"
  by (simp add: same_journal_def)

lemma same_journal_trans [trans]: "same_journal d d' \<Longrightarrow> same_journal d' d'' \<Longrightarrow> same_journal d d''"
  by (simp add: same_journal_def)

lemma same_journal_intents [simp]: "same_journal d (d\<lparr>dbIntents := rs\<rparr>)"
  "same_journal (d\<lparr>dbIntents := rs\<rparr>) d' \<longleftrightarrow> same_journal d d'"
  by (simp_all add: same_journal_def)

lemma same_rows_refl [simp]: "same_rows d d"
  by (simp add: same_rows_def)

lemma same_rows_trans: "same_rows d d' \<Longrightarrow> same_rows d' d'' \<Longrightarrow> same_rows d d''"
  by (auto simp: same_rows_def intro: same_journal_trans)

lemma same_rows_sound: "same_rows d d' \<Longrightarrow> sound d \<longleftrightarrow> sound d'"
  by (simp add: same_rows_def same_journal_def sound_def)

lemma same_rows_row: "same_rows d d' \<Longrightarrow> intent_row i d' = intent_row i d"
  by (simp add: same_rows_def intent_row_def)

definition keeps_groups :: "db \<Rightarrow> db \<Rightarrow> bool" where
  "keeps_groups d d' \<longleftrightarrow> dbGroups d' = dbGroups d \<and> dbTimeline d' = dbTimeline d"

lemma appendIntentEvent_frame:
  assumes "appendIntentEventDetailTx i k why actor detail d = Inr d'"
  shows "same_rows d d' \<and> keeps_groups d d'"
  using assms by (auto simp: appendIntentEventDetailTx_def same_rows_def same_journal_def keeps_groups_def split: if_splits)

lemma appendIntentEvent_succeeds:
  "\<not> ActorIsZero actor \<Longrightarrow> \<exists>d'. appendIntentEventDetailTx i k why actor detail d = Inr d' \<and>
     same_rows d d' \<and> keeps_groups d d'"
  by (auto simp: appendIntentEventDetailTx_def same_rows_def same_journal_def keeps_groups_def)

lemma keeps_groups_trans [trans]:
  "keeps_groups d d' \<Longrightarrow> keeps_groups d' d'' \<Longrightarrow> keeps_groups d d''"
  by (simp add: keeps_groups_def)

lemma keeps_groups_refl [simp]: "keeps_groups d d"
  by (simp add: keeps_groups_def)

text \<open>A step of a transaction that only writes history, and one that follows it.\<close>

definition writes_history :: "(db \<Rightarrow> store_error + db) \<Rightarrow> bool" where
  "writes_history f \<longleftrightarrow> (\<forall>d. \<exists>d'. f d = Inr d' \<and> same_rows d d' \<and> keeps_groups d d')"

lemma writes_history_id [simp]: "writes_history Inr"
  by (simp add: writes_history_def)

lemma writes_history_event [simp]:
  "\<not> ActorIsZero actor \<Longrightarrow> writes_history (appendIntentEventTx i k why actor)"
  using appendIntentEvent_succeeds by (simp add: writes_history_def appendIntentEventTx_def)

lemma writes_history_seq:
  assumes "writes_history f" "writes_history g"
  shows "writes_history (\<lambda>d. then_ok (f d) g)"
  unfolding writes_history_def
proof
  fix d
  from assms(1) obtain d1 where "f d = Inr d1" "same_rows d d1" "keeps_groups d d1"
    unfolding writes_history_def by blast
  moreover from assms(2) obtain d2 where "g d1 = Inr d2" "same_rows d1 d2" "keeps_groups d1 d2"
    unfolding writes_history_def by blast
  ultimately show "\<exists>d'. then_ok (f d) g = Inr d' \<and> same_rows d d' \<and> keeps_groups d d'"
    by (auto intro: same_rows_trans keeps_groups_trans)
qed

lemma writes_history_if:
  "writes_history f \<Longrightarrow> writes_history g \<Longrightarrow> writes_history (\<lambda>d. if b then f d else g d)"
  by (simp add: writes_history_def)

lemma appendTransitionEvent_history:
  "\<not> ActorIsZero (wActor w) \<Longrightarrow> writes_history (appendTransitionEventTx w)"
  unfolding appendTransitionEventTx_def [abs_def] Let_def
  by (intro writes_history_seq writes_history_if) simp_all

lemma append_events_history:
  "\<not> ActorIsZero actor \<Longrightarrow> writes_history (append_events is k why actor)"
proof (induction "is")
  case (Cons i rest)
  have "append_events (i # rest) k why actor
      = (\<lambda>d. then_ok (appendIntentEventTx i k why actor d) (append_events rest k why actor))"
    by (rule ext) simp
  with Cons show ?case by (simp add: writes_history_seq)
next
  case Nil
  have "append_events [] k why actor = Inr" by (rule ext) simp
  then show ?case by simp
qed

lemma groupEffects_frame: "same_rows d (groupEffectsTx now i t d)"
  by (simp add: groupEffectsTx_def addTimelineWithTx_def Let_def same_rows_def same_journal_def split: option.split)

text \<open>Updating the commitments a condition picks, when their rows stay legal.\<close>

lemma sound_map:
  assumes "sound d" and "\<And>r. rID (f r) = rID r"
    and "\<And>r. r \<in> set (dbIntents d) \<Longrightarrow> p r \<Longrightarrow> intent_checks (f r)"
  shows "sound (d\<lparr>dbIntents := map (\<lambda>r. if p r then f r else r) (dbIntents d)\<rparr>)"
proof -
  have m: "map rID (map (\<lambda>r. if p r then f r else r) (dbIntents d)) = map rID (dbIntents d)"
    using assms(2) by simp
  from assms show ?thesis by (auto simp: sound_def m simp del: map_map)
qed

lemma update_intents_sound:
  assumes "sound d" and "\<And>r. rID (f r) = rID r"
    and "\<And>r. r \<in> set (dbIntents d) \<Longrightarrow> p r \<Longrightarrow> intent_checks (f r)"
  shows "\<exists>d'. update_intents p f d = Inr d' \<and> sound d' \<and>
     d' = d\<lparr>dbIntents := map (\<lambda>r. if p r then f r else r) (dbIntents d)\<rparr>"
  using sound_map [of d f p] assms update_intents_ok by blast

lemma revived_row_checks:
  "intent_checks r \<Longrightarrow> rStatus r = StatusCanceled \<Longrightarrow> intent_checks (revived_row now d r)"
  by (cases "rLockedUntil r"; cases "rLeaseToken r") (simp_all add: check_defs revived_row_def)

lemma revived_row_id [simp]: "rID (revived_row now d r) = rID r"
  by (simp add: revived_row_def)

lemma reviveWithdrawn_sound:
  assumes "sound d"
  shows "\<exists>d'. reviveWithdrawnSatellitesTx now p d = Inr d' \<and> sound d' \<and> keeps_groups d d' \<and>
     dbIntents d' = map (\<lambda>r. if revives p d r then revived_row now d r else r) (dbIntents d) \<and>
     same_journal d d'"
proof -
  let ?d1 = "d\<lparr>dbIntents :=
    map (\<lambda>r. if revives p d r then revived_row now d r else r) (dbIntents d)\<rparr>"
  have "intent_checks (revived_row now d r)" if "r \<in> set (dbIntents d)" "revives p d r" for r
    using that assms by (auto simp: sound_def revives_def intro!: revived_row_checks)
  then have u: "update_intents (revives p d) (revived_row now d) d = Inr ?d1" "sound ?d1"
    using update_intents_sound [OF assms, of "revived_row now d" "revives p d"] by auto
  let ?ev = "append_events (map rID (filter (revives p d) (dbIntents d))) ''revived''
    ''the card went out alongside the withdrawal'' ActorSystem"
  have "writes_history ?ev" by (simp add: append_events_history system_actors)
  then obtain d2 where d2: "?ev ?d1 = Inr d2" "same_rows ?d1 d2" "keeps_groups ?d1 d2"
    unfolding writes_history_def by blast
  from d2 u have "reviveWithdrawnSatellitesTx now p d = Inr d2"
    by (simp add: reviveWithdrawnSatellitesTx_def)
  with d2 same_rows_sound [OF d2(2)] u(2) show ?thesis
    by (auto simp: same_rows_def keeps_groups_def)
qed

section \<open>Applying a transition\<close>

lemma sound_intent_row:
  assumes "sound d" "r \<in> set (dbIntents d)"
  shows "intent_row (rID r) d = Some r"
proof -
  have "find (\<lambda>x. rID x = rID r) rs = Some r"
    if "r \<in> set rs" "distinct (map rID rs)" for rs
    using that by (induction rs) force+
  with assms show ?thesis by (simp add: intent_row_def sound_def)
qed

text \<open>The rows after the transaction, and what it needs to succeed.\<close>

definition applied_rows :: "int \<Rightarrow> transition_write \<Rightarrow> int \<Rightarrow> int \<Rightarrow> db \<Rightarrow> row list" where
  "applied_rows now w a b d =
     map (\<lambda>r. if rID r = iID (wIntent w) then update_row now w a b (retry_delay w) r else r)
       (dbIntents d)"

lemma receipt_waits_ok:
  assumes "AwaitReceipt (trEffects (wTransition w)) \<Longrightarrow> iProvider (wIntent w) = ProviderPhone"
  shows "\<exists>a b. receipt_waits w = Inr (a, b)"
  using assms by (simp add: receipt_waits_def ReceiptPolicyOf_def)

lemma apply_ok:
  assumes d: "sound d" and w: "receipt_waits w = Inr (a, b)" "\<not> ActorIsZero (wActor w)"
    and c: "\<And>r. r \<in> set (dbIntents d) \<Longrightarrow> rID r = iID (wIntent w) \<Longrightarrow>
        intent_checks (update_row now w a b (retry_delay w) r)"
  obtains d1 d2 d' where "d1 = d\<lparr>dbIntents := applied_rows now w a b d\<rparr>" "sound d1"
    "same_rows d1 d2" "keeps_groups d d2"
    "sound d'" "same_journal d d'"
    "applyTransitionTx now w d = Inr d'"
    "dbIntents d' = (if ConsumeCancellation (trEffects (wTransition w)) \<and>
        trTo (wTransition w) \<noteq> StatusCanceled \<and> \<not> Satellite (wIntent w)
      then map (\<lambda>r. if revives (iID (wIntent w)) d2 r then revived_row now d2 r else r)
        (applied_rows now w a b d) else applied_rows now w a b d)"
    "\<not> GroupBound (wIntent w) \<Longrightarrow> keeps_groups d d'"
    "GroupBound (wIntent w) \<Longrightarrow> \<exists>d3. keeps_groups d d3 \<and>
       d' = groupEffectsTx now (wIntent w) (wTransition w) d3"
proof -
  let ?d1 = "d\<lparr>dbIntents := applied_rows now w a b d\<rparr>"
  let ?rev = "ConsumeCancellation (trEffects (wTransition w)) \<and>
    trTo (wTransition w) \<noteq> StatusCanceled \<and> \<not> Satellite (wIntent w)"
  have u: "update_intents (\<lambda>r. rID r = iID (wIntent w))
      (update_row now w a b (retry_delay w)) d = Inr ?d1" "sound ?d1"
    using update_intents_sound [OF d, of "update_row now w a b (retry_delay w)"
        "\<lambda>r. rID r = iID (wIntent w)"] c by (auto simp: applied_rows_def)
  from appendTransitionEvent_history [OF w(2)] obtain d2
    where d2: "appendTransitionEventTx w ?d1 = Inr d2" "same_rows ?d1 d2" "keeps_groups ?d1 d2"
    unfolding writes_history_def by blast
  have s2: "sound d2" using same_rows_sound [OF d2(2)] u(2) by simp
  have k2: "keeps_groups d d2" using d2(3) by (simp add: keeps_groups_def)
  obtain d3 where d3: "(if ?rev then reviveWithdrawnSatellitesTx now (iID (wIntent w)) d2
      else Inr d2) = Inr d3" "sound d3" "keeps_groups d d3" "same_journal d d3"
    "dbIntents d3 = (if ?rev
      then map (\<lambda>r. if revives (iID (wIntent w)) d2 r then revived_row now d2 r else r)
        (applied_rows now w a b d) else applied_rows now w a b d)"
  proof (cases ?rev)
    case True
    from reviveWithdrawn_sound [OF s2, of now "iID (wIntent w)"] d2(2) k2 that show ?thesis
      using True by (auto simp: same_rows_def intro: keeps_groups_trans same_journal_trans)
  next
    case False
    with s2 d2(2) k2 that show ?thesis by (auto simp: same_rows_def)
  qed
  let ?d' = "if GroupBound (wIntent w)
    then groupEffectsTx now (wIntent w) (wTransition w) d3 else d3"
  have "applyTransitionTx now w d = Inr ?d'"
    using w(1) u(1) d2(1) d3(1) unfolding applyTransitionTx_def
    by (auto split: if_splits)
  moreover have fr: "same_rows d3 ?d'" by (simp add: groupEffects_frame)
  ultimately show ?thesis
    using that [of ?d1 d2 ?d'] u(2) d2(2) k2 d3 same_rows_sound [OF fr]
    by (auto simp: same_rows_def intro: same_journal_trans)
qed

text \<open>The same read backwards: what a transaction that succeeded has done.\<close>

lemma append_events_frame:
  "append_events is k why actor d = Inr d' \<Longrightarrow> same_rows d d' \<and> keeps_groups d d'"
proof (induction "is" arbitrary: d)
  case (Cons i rest)
  then obtain d1 where d1: "appendIntentEventTx i k why actor d = Inr d1"
    "append_events rest k why actor d1 = Inr d'" by auto
  from Cons.IH [OF d1(2)] appendIntentEvent_frame d1(1) show ?case
    unfolding appendIntentEventTx_def by (blast intro: same_rows_trans keeps_groups_trans)
qed simp

lemma appendTransitionEvent_frame:
  assumes "appendTransitionEventTx w d = Inr d'"
  shows "same_rows d d' \<and> keeps_groups d d'"
proof (cases "ActorIsZero (wActor w)")
  case False
  from appendTransitionEvent_history [OF this] assms show ?thesis
    unfolding writes_history_def by (metis Inr_inject)
next
  case True
  then have "appendIntentEventTx i k why (wActor w) x \<noteq> Inr y" for i k why x y
    by (simp add: appendIntentEventTx_def appendIntentEventDetailTx_def)
  with assms have "d' = d"
    by (auto simp: appendTransitionEventTx_def Let_def split: if_splits)
  then show ?thesis by simp
qed

lemma reviveWithdrawn_frame:
  assumes "reviveWithdrawnSatellitesTx now p d = Inr d'"
  shows "keeps_groups d d' \<and> same_journal d d' \<and>
     dbIntents d' = map (\<lambda>r. if revives p d r then revived_row now d r else r) (dbIntents d)"
proof -
  from assms obtain d1 where d1: "update_intents (revives p d) (revived_row now d) d = Inr d1"
    "append_events (map rID (filter (revives p d) (dbIntents d))) ''revived''
      ''the card went out alongside the withdrawal'' ActorSystem d1 = Inr d'"
    by (auto simp: reviveWithdrawnSatellitesTx_def Let_def)
  from update_intents_Inr(1) [OF d1(1)] append_events_frame [OF d1(2)] show ?thesis
    by (simp add: same_rows_def keeps_groups_def)
qed

lemma apply_stages:
  assumes "applyTransitionTx now w d = Inr d'"
  obtains a b d1 d2 d3 where "receipt_waits w = Inr (a, b)"
    "update_intents (\<lambda>r. rID r = iID (wIntent w)) (update_row now w a b (retry_delay w)) d = Inr d1"
    "appendTransitionEventTx w d1 = Inr d2"
    "(if ConsumeCancellation (trEffects (wTransition w))
        \<and> trTo (wTransition w) \<noteq> StatusCanceled \<and> \<not> Satellite (wIntent w)
      then reviveWithdrawnSatellitesTx now (iID (wIntent w)) d2 else Inr d2) = Inr d3"
    "d' = (if GroupBound (wIntent w) then groupEffectsTx now (wIntent w) (wTransition w) d3 else d3)"
proof -
  have fin: "((if \<not> G then Inr A else Inr B) = (Inr y :: store_error + db))
      \<longleftrightarrow> y = (if G then B else A)" for G A B y by auto
  from assms that show ?thesis
    unfolding applyTransitionTx_def by (auto simp: fin split del: if_split)
qed

lemma apply_Inr:
  assumes "applyTransitionTx now w d = Inr d'"
  obtains a b d2 d3 where "receipt_waits w = Inr (a, b)"
    "dbIntents d2 = applied_rows now w a b d"
    "dbIntents d3 = dbIntents d2 \<or>
       dbIntents d3 = map (\<lambda>r. if revives (iID (wIntent w)) d2 r then revived_row now d2 r else r)
         (dbIntents d2)"
    "keeps_groups d d3" "same_journal d d3"
    "d' = (if GroupBound (wIntent w) then groupEffectsTx now (wIntent w) (wTransition w) d3 else d3)"
proof -
  obtain a b d1 d2 d3 where st: "receipt_waits w = Inr (a, b)"
    "update_intents (\<lambda>r. rID r = iID (wIntent w)) (update_row now w a b (retry_delay w)) d = Inr d1"
    "appendTransitionEventTx w d1 = Inr d2"
    "(if ConsumeCancellation (trEffects (wTransition w))
        \<and> trTo (wTransition w) \<noteq> StatusCanceled \<and> \<not> Satellite (wIntent w)
      then reviveWithdrawnSatellitesTx now (iID (wIntent w)) d2 else Inr d2) = Inr d3"
    "d' = (if GroupBound (wIntent w) then groupEffectsTx now (wIntent w) (wTransition w) d3 else d3)"
    by (rule apply_stages [OF assms])
  have d1: "dbIntents d1 = applied_rows now w a b d" "keeps_groups d d1" "same_journal d d1"
    using update_intents_Inr(1) [OF st(2)] by (simp_all add: applied_rows_def keeps_groups_def)
  have d2: "dbIntents d2 = applied_rows now w a b d" "keeps_groups d d2" "same_journal d d2"
    using appendTransitionEvent_frame [OF st(3)] d1
    by (auto simp: same_rows_def intro: keeps_groups_trans same_journal_trans)
  have "keeps_groups d d3" "same_journal d d3" "dbIntents d3 = dbIntents d2 \<or>
      dbIntents d3 = map (\<lambda>r. if revives (iID (wIntent w)) d2 r then revived_row now d2 r else r)
        (dbIntents d2)"
    using st(4) d2 reviveWithdrawn_frame [of now "iID (wIntent w)" d2 d3]
    by (auto intro: keeps_groups_trans same_journal_trans split: if_splits)
  with that [of a b d2 d3] st(1,5) d2 show ?thesis by blast
qed

lemma groupEffects_intents [simp]: "dbIntents (groupEffectsTx now i t d) = dbIntents d"
  using groupEffects_frame [of d now i t] by (simp add: same_rows_def)

lemma apply_journal: "applyTransitionTx now w d = Inr d' \<Longrightarrow> same_journal d d'"
  by (elim apply_Inr) (use groupEffects_frame in \<open>auto simp: same_rows_def intro: same_journal_trans\<close>)

lemma apply_rows:
  assumes "applyTransitionTx now w d = Inr d'" and "r' \<in> set (dbIntents d')"
  shows "\<exists>r\<in>set (dbIntents d). \<exists>a b d2. r' = r \<or> r' = update_row now w a b (retry_delay w) r \<or>
     r' = revived_row now d2 r \<or> r' = revived_row now d2 (update_row now w a b (retry_delay w) r)"
proof (rule apply_Inr [OF assms(1)])
  fix a b d2 d3
  assume st: "dbIntents d2 = applied_rows now w a b d"
    "dbIntents d3 = dbIntents d2 \<or>
       dbIntents d3 = map (\<lambda>r. if revives (iID (wIntent w)) d2 r then revived_row now d2 r else r)
         (dbIntents d2)"
    "d' = (if GroupBound (wIntent w) then groupEffectsTx now (wIntent w) (wTransition w) d3 else d3)"
  then have "r' \<in> set (dbIntents d3)" using assms(2) by (auto split: if_splits)
  then obtain q where q: "q \<in> set (dbIntents d2)" "r' = q \<or> r' = revived_row now d2 q"
    using st(2) by (auto split: if_splits)
  from q(1) st(1) obtain r where "r \<in> set (dbIntents d)"
    "q = r \<or> q = update_row now w a b (retry_delay w) r"
    by (auto simp: applied_rows_def split: if_splits)
  with q(2) show ?thesis by blast
qed

lemma revived_row_sel [simp]:
  "rReceipt (revived_row now d r) = rReceipt r" "rReceiptRef (revived_row now d r) = rReceiptRef r"
  "rRecipientErasedAt (revived_row now d r) = rRecipientErasedAt r"
  "rParentID (revived_row now d r) = rParentID r"
  "rReceiptRecorded (revived_row now d r) = rReceiptRecorded r"
  by (simp_all add: revived_row_def)

lemma trigger_group_only:
  "trigger_group g gr = gr \<or> grID gr = g \<and> grStatus gr = GroupProcessing \<and>
     grStatus (trigger_group g gr) = GroupTriggered"
  by (simp add: trigger_group_def)

lemma apply_written:
  assumes "sound d" and "intent_row i d = Some r"
    and "Decide x = Inr (wTransition w)" and "fit r x w"
    and "wIntent w = intent_of now r" and "\<not> ActorIsZero (wActor w)"
    and "rCompletionMode r = CompletionOnProviderReceipt \<longrightarrow> rProvider r = ProviderPhone"
  shows "\<exists>d' a b. applyTransitionTx now w d = Inr d' \<and> sound d' \<and>
     intent_row i d' = Some (update_row now w a b (retry_delay w) r)"
proof -
  note r = intent_row_Some [OF assms(2)]
  have "law_wait x (wTransition w)" using lawfulD [OF assms(3)] by (simp add: lawful_def)
  then obtain a b where ab: "receipt_waits w = Inr (a, b)"
    using receipt_waits_ok [of w] assms(4,5,7) by (auto simp: law_wait_def fit_def)
  have own: "q = r" if "q \<in> set (dbIntents d)" "rID q = iID (wIntent w)" for q
    using that sound_intent_row [OF assms(1), of q] assms(2,5) r(2) by simp
  have chk: "intent_checks r" using assms(1) r(1) by (simp add: sound_def)
  let ?r' = "update_row now w a b (retry_delay w) r"
  have c: "intent_checks (update_row now w a b (retry_delay w) q)"
    if "q \<in> set (dbIntents d)" "rID q = iID (wIntent w)" for q
    using own [OF that] machine.keeps_checks [OF assms(3,4) chk] by simp
  show ?thesis
  proof (rule apply_ok [OF assms(1) ab assms(6) c])
    fix d2 d'
    assume d': "sound d'" "applyTransitionTx now w d = Inr d'"
      "dbIntents d' = (if ConsumeCancellation (trEffects (wTransition w)) \<and>
          trTo (wTransition w) \<noteq> StatusCanceled \<and> \<not> Satellite (wIntent w)
        then map (\<lambda>r. if revives (iID (wIntent w)) d2 r then revived_row now d2 r else r)
          (applied_rows now w a b d) else applied_rows now w a b d)"
    have in_rows: "?r' \<in> set (applied_rows now w a b d)"
      using r assms(5) by (force simp: applied_rows_def)
    have "?r' \<in> set (dbIntents d')"
    proof (cases "Satellite (wIntent w)")
      case True
      with d'(3) in_rows show ?thesis by simp
    next
      case False
      then have "\<not> revives (iID (wIntent w)) d2 ?r'"
        using chk assms(5) by (simp add: revives_def intent_checks_def satellite_has_parent_def)
      with d'(3) in_rows show ?thesis by (force split: if_splits)
    qed
    from sound_intent_row [OF d'(1) this] r(2) have "intent_row i d' = Some ?r'" by simp
    with d'(1,2) show ?thesis by blast
  qed
qed

section \<open>Properties\<close>

text \<open>
  C11. A decided transition is always written, and written whole: on tables that satisfy
  every constraint, whatever \<open>Decide\<close> answers for a commitment can be applied - no
  constraint is in its way - the tables satisfy every constraint afterwards, and the
  commitment's row is the one the update describes.
\<close>

theorem transition_written_whole:
  assumes "sound d" and "intent_row i d = Some r"
    and "Decide x = Inr (wTransition w)" and "fit r x w"
    and "wIntent w = intent_of now r" and "\<not> ActorIsZero (wActor w)"
    and "rCompletionMode r = CompletionOnProviderReceipt \<longrightarrow> rProvider r = ProviderPhone"
  shows "\<exists>d' a b. applyTransitionTx now w d = Inr d' \<and> sound d' \<and>
     intent_row i d' = Some (update_row now w a b (retry_delay w) r)"
  using assms by (rule apply_written)

text \<open>
  An erasure is a prohibition: when no erased recipient's row carries coordinates, no
  transition of any commitment puts them back, whatever the result that was in flight.
\<close>

definition erasure_respected :: "db \<Rightarrow> bool" where
  "erasure_respected d \<longleftrightarrow> (\<forall>r\<in>set (dbIntents d). rRecipientErasedAt r \<noteq> None \<longrightarrow>
     rReceipt r = None \<and> rReceiptRef r = None)"

theorem erasure_is_a_prohibition:
  assumes "erasure_respected d" and "applyTransitionTx now w d = Inr d'"
  shows "erasure_respected d'"
  unfolding erasure_respected_def
proof (intro ballI impI)
  fix r' assume r': "r' \<in> set (dbIntents d')" "rRecipientErasedAt r' \<noteq> None"
  from apply_rows [OF assms(2) r'(1)] r'(2) assms(1)
  show "rReceipt r' = None \<and> rReceiptRef r' = None"
    by (auto simp: update_row_receipt erasure_respected_def split: if_splits)
qed

text \<open>
  C12. A delivery moves an alert group only from processing to triggered, and only with
  proof that the page succeeded; a thread or a reply under a card moves no group and
  writes nothing into the alert's history, and no transition writes more than one line.
\<close>

theorem groups_move_with_proof:
  assumes "Decide x = Inr (wTransition w)" and "inIntent x = wIntent w"
    and "applyTransitionTx now w d = Inr d'"
  shows "(dbGroups d' \<noteq> dbGroups d \<longrightarrow> effProof (trEffects (wTransition w)) \<noteq> NoProof) \<and>
     (Satellite (wIntent w) \<longrightarrow> dbGroups d' = dbGroups d \<and> dbTimeline d' = dbTimeline d) \<and>
     list_all2 (\<lambda>g g'. g' = g \<or> grID g = iAlertGroupID (wIntent w) \<and>
        grStatus g = GroupProcessing \<and> grStatus g' = GroupTriggered) (dbGroups d) (dbGroups d') \<and>
     length (dbTimeline d') \<le> length (dbTimeline d) + 1"
proof (rule apply_Inr [OF assms(3)])
  fix d3
  assume k: "keeps_groups d d3"
    "d' = (if GroupBound (wIntent w) then groupEffectsTx now (wIntent w) (wTransition w) d3 else d3)"
  have l: "law_proof (Satellite (wIntent w)) x (wTransition w)"
    "law_lines (Satellite (wIntent w)) (wTransition w)"
    using lawfulD [OF assms(1)] assms(2) by (simp_all add: lawful_def)
  have g: "dbGroups d' = dbGroups d \<or> TriggerGroup (trEffects (wTransition w)) \<and>
      dbGroups d' = map (trigger_group (iAlertGroupID (wIntent w))) (dbGroups d)"
    using k by (auto simp: keeps_groups_def groupEffectsTx_def addTimelineWithTx_def Let_def split: option.splits)
  have t: "length (dbTimeline d') \<le> length (dbTimeline d) + 1"
    "timelineFor (wTransition w) = None \<Longrightarrow> dbTimeline d' = dbTimeline d"
    using k by (auto simp: keeps_groups_def groupEffectsTx_def addTimelineWithTx_def Let_def split: option.splits)
  have "Satellite (wIntent w) \<Longrightarrow> timelineFor (wTransition w) = None"
    using l(2) by (simp add: law_lines_def timelineFor_def)
  moreover have "list_all2 (\<lambda>g g'. g' = g \<or> grID g = iAlertGroupID (wIntent w) \<and>
      grStatus g = GroupProcessing \<and> grStatus g' = GroupTriggered) (dbGroups d) (dbGroups d')"
    using g trigger_group_only
    by (auto simp: list_all2_refl list.rel_map intro!: list.rel_refl)
  ultimately show ?thesis using g t l(1) by (auto simp: law_proof_def)
qed

text \<open>
  Every wait ends and every retry keeps its distance: a commitment that waits for the
  provider is asked about again 90 seconds after it started and 30 seconds after each
  look, and its deadline is ten minutes after its generation's first wait, never moved by
  a later one; a commitment due again is due no earlier than now, and a call that has
  failed no earlier than a minute from now.
\<close>

theorem waits_end_and_retries_keep_distance:
  assumes "Decide x = Inr (wTransition w)" and "fit r x w" and "wIntent w = intent_of now r"
    and "receipt_waits w = Inr (a, b)" and "0 \<le> wBackoff w"
  shows "let r' = update_row now w a b (retry_delay w) r in
     (rStatus r' = StatusAwaitingReceipt \<longrightarrow>
        rReceiptTimeoutAt r' = Some (now +
          (if rStatus r = StatusAwaitingReceipt then 30 * Second else 90 * Second)) \<and>
        rReceiptDeadline r' = (case rReceiptDeadline r of
          None \<Rightarrow> Some (now + 10 * Minute) | Some t \<Rightarrow> Some t)) \<and>
     (rStatus r' = StatusPending \<longrightarrow> now \<le> rNextAttemptAt r' \<and>
        (ScheduleRetry (trEffects (wTransition w)) \<and> rProvider r = ProviderPhone \<longrightarrow>
           now + Minute \<le> rNextAttemptAt r'))"
proof -
  have l: "law_wait x (wTransition w)" "law_schedule (wTransition w)"
    using lawfulD [OF assms(1)] by (simp_all add: lawful_def)
  have wait: "a = (if rStatus r = StatusAwaitingReceipt then 30 * Second else 90 * Second) \<and>
      b = 10 * Minute" if "AwaitReceipt (trEffects (wTransition w))"
    using that assms(3,4)
    by (auto simp: receipt_waits_def ReceiptPolicyOf_def phone_constants split: if_splits)
  have retry: "0 \<le> retry_delay w" "rProvider r = ProviderPhone \<Longrightarrow> Minute \<le> retry_delay w"
    using assms(3,5) by (auto simp: retry_delay_def RetryFloorOf_def PhoneRetryFloor_def Let_def)
  let ?r' = "update_row now w a b (retry_delay w) r"
  have awaits: "AwaitReceipt (trEffects (wTransition w)) \<and> \<not> NewGeneration (trEffects (wTransition w))"
    if "rStatus ?r' = StatusAwaitingReceipt"
    using that l by (simp add: law_wait_def law_schedule_def) blast
  have "rReceiptTimeoutAt ?r' = Some (now +
        (if rStatus r = StatusAwaitingReceipt then 30 * Second else 90 * Second)) \<and>
      rReceiptDeadline ?r' = (case rReceiptDeadline r of
        None \<Rightarrow> Some (now + 10 * Minute) | Some t \<Rightarrow> Some t)"
    if "rStatus ?r' = StatusAwaitingReceipt"
    using awaits [OF that] wait by (simp add: coalesce_def split: option.split)
  moreover have "ScheduleRetry (trEffects (wTransition w)) \<noteq> ScheduleNow (trEffects (wTransition w))"
    if "rStatus ?r' = StatusPending"
    using that l(2) unfolding law_schedule_def update_row_fixed by blast
  ultimately show ?thesis using retry by (auto simp: Let_def)
qed

section \<open>Witnesses\<close>

definition sample_row :: row where
  "sample_row = \<lparr>rID = ''i1'', rBatchID = ''b1'', rGroupID = Some ''g1'',
     rFamily = FamilyNotification, rKeyKind = KindEscalation, rProvider = ''slack'',
     rTargetKind = TargetChannel, rTargetRef = ''C1'', rForm = FormEditable,
     rCompletionMode = CompletionOnAcceptance, rAmbiguityPolicy = PolicyRetry,
     rPayloadSchemaVersion = 2, rPayload = ''{}'', rCodecVersion = 1, rPayloadDigest = [],
     rParentID = None, rAwaits = [], rNotBefore = 0, rCreatedAt = 0,
     rStatus = StatusSending, rGenerationNo = 0, rAttemptsInGeneration = 1, rFailureStreak = 0,
     rBoundEndpoint = Some ''C1'', rCreateKey = Some ''k1'', rBoundContext = None,
     rReceipt = None, rReceiptRef = None, rReceiptRecorded = False, rReceiptRedactedAt = None,
     rRecipientErasedAt = None, rDesiredRevision = 3, rAppliedRevision = None,
     rFinalRevisionApplied = False, rCancellationRequested = False,
     rAcceptedDuplicateRisk = False, rNextAttemptAt = 0, rExpiresAt = None,
     rReceiptTimeoutAt = None, rReceiptDeadline = None, rWithdrawnAt = None,
     rWithdrawnReason = None, rWithdrawnActor = None, rCurrentAttempt = Some ''a1'',
     rLeaseToken = Some ''t1'', rLockedUntil = Some 90, rWorkerID = None, rUpdatedAt = 0\<rparr>"

definition sample_db :: db where
  "sample_db = \<lparr>dbIntents = [sample_row], dbAttempts = [], dbObservations = [], dbEffects = [], dbEvents = [],
     dbTimeline = [], dbGroups = [\<lparr>grID = ''g1'', grStatus = GroupProcessing,
       grRenderSourceVersion = 1\<rparr>], dbSnapshots = [],
     dbBatches = [], dbInbox = []\<rparr>"

definition sample_input :: input where
  "sample_input = (probe TriggerFinishAttempt (intent_of 10 sample_row))
     \<lparr>inOutcome := OutcomeAccepted, inAttemptRevision := Some 3\<rparr>"

definition sample_transition :: transition where
  "sample_transition = \<lparr>trTo = StatusIdle,
     trEffects = settledEffects ProofAccepted TimelineSent False, trRow = ''T8/S3''\<rparr>"

definition sample_write :: transition_write where
  "sample_write = \<lparr>wIntent = intent_of 10 sample_row, wTransition = sample_transition,
     wBackoff = 2 * Second, wAppliedRevision = Some 3, wReceiptRef = ''C1/17'',
     wAttemptIsFinal = False, wReceipt = ''{}'', wNewExpires = None, wActor = ActorWorker,
     wReason = []\<rparr>"

lemma sample_facts:
  "sound sample_db" "intent_row ''i1'' sample_db = Some sample_row"
  "Decide sample_input = Inr (wTransition sample_write)"
  "fit sample_row sample_input sample_write"
  "wIntent sample_write = intent_of 10 sample_row" "\<not> ActorIsZero (wActor sample_write)"
  "rCompletionMode sample_row = CompletionOnAcceptance"
proof -
  show "sound sample_db"
    by (simp add: sound_def sample_db_def sample_row_def check_defs)
  show "intent_row ''i1'' sample_db = Some sample_row"
    by (simp add: intent_row_def sample_db_def sample_row_def)
  show "Decide sample_input = Inr (wTransition sample_write)"
    by (simp add: Decide_def decide_def sample_input_def probe_def decideFinish_def
        sample_row_def scanIntent_def reduceProviderAcceptance.simps settleApplied_def goes_def
        sample_write_def sample_transition_def Satellite_def)
qed (simp_all add: fit_def sample_input_def probe_def sample_write_def sample_transition_def
    system_actors sample_row_def)

theorem transition_written_whole_witness:
  "\<exists>d' a b. applyTransitionTx 10 sample_write sample_db = Inr d' \<and> sound d' \<and>
     intent_row ''i1'' d' =
       Some (update_row 10 sample_write a b (retry_delay sample_write) sample_row)"
  using transition_written_whole [OF sample_facts(1-6)] sample_facts(7) by simp

lemma sample_applies:
  "\<exists>d'. applyTransitionTx 10 sample_write (sample_db\<lparr>dbIntents :=
     [sample_row\<lparr>rRecipientErasedAt := e\<rparr>]\<rparr>) = Inr d'"
proof -
  let ?d = "sample_db\<lparr>dbIntents := [sample_row\<lparr>rRecipientErasedAt := e\<rparr>]\<rparr>"
  have s: "sound ?d" by (simp add: sound_def sample_db_def sample_row_def check_defs)
  have w: "receipt_waits sample_write = Inr (0, 0)"
    by (simp add: receipt_waits_def sample_write_def sample_transition_def settledEffects_def)
  have "intent_checks (update_row 10 sample_write 0 0 (retry_delay sample_write) r)"
    if "r \<in> set (dbIntents ?d)" for r
    using that by (simp add: check_defs update_row_receipt writes_receipt_def sample_row_def
        sample_write_def sample_transition_def settledEffects_def nullable_def)
  with apply_ok [OF s w sample_facts(6)] show ?thesis by blast
qed

theorem erasure_is_a_prohibition_witness:
  "\<exists>d'. applyTransitionTx 10 sample_write (sample_db\<lparr>dbIntents :=
     [sample_row\<lparr>rRecipientErasedAt := Some 5\<rparr>]\<rparr>) = Inr d' \<and> erasure_respected d'"
proof -
  let ?d = "sample_db\<lparr>dbIntents := [sample_row\<lparr>rRecipientErasedAt := Some 5\<rparr>]\<rparr>"
  have e: "erasure_respected ?d" by (simp add: erasure_respected_def sample_row_def)
  with sample_applies erasure_is_a_prohibition [OF e] show ?thesis by blast
qed

theorem groups_move_with_proof_witness:
  "\<exists>d'. applyTransitionTx 10 sample_write sample_db = Inr d' \<and>
     length (dbTimeline d') \<le> 1 \<and> effProof (trEffects (wTransition sample_write)) \<noteq> NoProof"
proof -
  have i: "inIntent sample_input = wIntent sample_write"
    by (simp add: sample_input_def probe_def sample_write_def)
  have "sample_db\<lparr>dbIntents := [sample_row\<lparr>rRecipientErasedAt := None\<rparr>]\<rparr> = sample_db"
    by (simp add: sample_db_def sample_row_def)
  with sample_applies [of None] obtain d'
    where d': "applyTransitionTx 10 sample_write sample_db = Inr d'" by auto
  from groups_move_with_proof [OF sample_facts(3) i d'] d' show ?thesis
    by (auto simp: sample_db_def sample_write_def sample_transition_def settledEffects_def)
qed

text \<open>A call the provider took into its queue.\<close>

definition call_row :: row where
  "call_row = sample_row\<lparr>rProvider := ProviderPhone, rTargetKind := TargetUser,
     rForm := FormOneShot, rCompletionMode := CompletionOnProviderReceipt\<rparr>"

definition call_input :: input where
  "call_input = (probe TriggerFinishAttempt (intent_of 10 call_row))\<lparr>inOutcome := OutcomeAccepted\<rparr>"

definition call_write :: transition_write where
  "call_write = sample_write\<lparr>wIntent := intent_of 10 call_row,
     wTransition := (case Decide call_input of Inr t \<Rightarrow> t | Inl _ \<Rightarrow> sample_transition)\<rparr>"

lemma call_facts:
  "Decide call_input = Inr (wTransition call_write)"
  "trTo (wTransition call_write) = StatusAwaitingReceipt"
  "AwaitReceipt (trEffects (wTransition call_write))"
proof -
  have "\<exists>t. Decide call_input = Inr t \<and> trTo t = StatusAwaitingReceipt \<and> AwaitReceipt (trEffects t)"
    by (simp add: Decide_def decide_def call_input_def probe_def decideFinish_def
        sample_row_def call_row_def scanIntent_def reduceProviderAcceptance.simps awaitReceipt_def
        goes_def Satellite_def)
  then show "Decide call_input = Inr (wTransition call_write)"
    "trTo (wTransition call_write) = StatusAwaitingReceipt"
    "AwaitReceipt (trEffects (wTransition call_write))" by (auto simp: call_write_def)
qed

theorem waits_end_and_retries_keep_distance_witness:
  "let r' = update_row 10 call_write (90 * Second) (10 * Minute) (retry_delay call_write) call_row
   in rStatus r' = StatusAwaitingReceipt \<and> rReceiptDeadline r' = Some (10 + 10 * Minute)"
proof -
  have w: "wIntent call_write = intent_of 10 call_row"
    "receipt_waits call_write = Inr (90 * Second, 10 * Minute)" "0 \<le> wBackoff call_write"
    using call_facts(3)
    by (simp_all add: receipt_waits_def ReceiptPolicyOf_def phone_constants call_row_def
        call_write_def sample_write_def sample_row_def)
  have f: "fit call_row call_input call_write"
    using call_facts(2) by (simp add: fit_def call_input_def probe_def call_write_def sample_write_def)
  from waits_end_and_retries_keep_distance [OF call_facts(1) f w]
  show ?thesis using call_facts(2) by (simp add: Let_def call_row_def sample_row_def)
qed

end
