(* ===== verification/Content.thy ===== *)
theory Content
  imports Writer "HOL-Library.Product_Lexorder" "HOL-Library.List_Lexorder" "HOL-Library.Char_ord"
begin

text \<open>
  What an attempt is made from, read and proved before anything is recorded: \<open>executableHere\<close>,
  \<open>attemptContentTx\<close> and the snapshot readers of \<open>internal/store/outbound_store.go\<close>.

  Decoding a stored JSON document and digesting it is an argument (\<open>decoders\<close>): the model
  keeps every comparison the code makes of the result, and the two ways of refusing apart -
  a row this build cannot read (\<open>Contract\<close>, nothing is written) and a row nobody can
  (\<open>Undeliverable\<close>, the commitment is ended).
\<close>

record rendered =
  rnGroupID :: string
  rnRevision :: int
  rnDigest :: string

text \<open>\<open>BoundContext\<close>: what a generation takes from elsewhere, settled when it opens.\<close>

record bound_context =
  bcCardReceiptRef :: string
  bcTeamURL :: string
  bcIntegrationID :: string
  bcAccountScope :: string
  bcFromNumber :: string

definition no_context :: bound_context where
  "no_context = \<lparr>bcCardReceiptRef = [], bcTeamURL = [], bcIntegrationID = [], bcAccountScope = [],
     bcFromNumber = []\<rparr>"

definition context_Empty :: "bound_context \<Rightarrow> bool" where
  "context_Empty c = (c = no_context)"

text \<open>
  Decoding and encoding, the policy's view of a payload (\<open>StopOnFailure\<close> and the slot), the
  slot as SQL reads it off the payload, the address of the workspace, and the rounding and
  the random share of the backoff.
\<close>

record decoders =
  dcSha :: "string \<Rightarrow> string"
  dcKnowsPayloadSchema :: "kind \<Rightarrow> int \<Rightarrow> bool"
  dcPayloadDigest :: "kind \<Rightarrow> int \<Rightarrow> string \<Rightarrow> string option"
  dcSnapshotV2 :: "string \<Rightarrow> rendered option"
  dcSnapshotV1 :: "string \<Rightarrow> rendered option"
  dcEscalationStop :: "int \<Rightarrow> string \<Rightarrow> (slot \<times> bool) option"
  dcPayloadSlot :: "string \<Rightarrow> slot option"
  dcTeamURL :: "store_error + string"
  dcFallsBackToFirehose :: bool
  dcEncodeContext :: "bound_context \<Rightarrow> string"
  dcDecodeContext :: "string \<Rightarrow> bound_context option"
  dcJSON :: "(string \<times> string) list \<Rightarrow> string"
  dcRounding :: "real \<Rightarrow> real"
  dcFraction :: real

datatype content_form = ContentSnapshot | ContentPayload

text \<open>\<open>AttemptContent\<close>: the digest of what is sent, and for a snapshot its revision and whether
  it is the last one.\<close>

datatype attempt_content =
    SnapshotContent rendered bool
  | PayloadContent string

fun content_final :: "attempt_content \<Rightarrow> bool" where
  "content_final (SnapshotContent s final) = final"
| "content_final (PayloadContent d) = False"

fun content_revision :: "attempt_content \<Rightarrow> int option" where
  "content_revision (SnapshotContent s final) = Some (rnRevision s)"
| "content_revision (PayloadContent d) = None"

fun contentFormOf :: "kind \<Rightarrow> content_form option" where
  "contentFormOf KindEscalation = Some ContentSnapshot"
| "contentFormOf KindEscalationReplay = Some ContentSnapshot"
| "contentFormOf KindHandoff = Some ContentPayload"
| "contentFormOf KindWebhookEvent = Some ContentPayload"
| "contentFormOf KindWebhookReplay = Some ContentPayload"
| "contentFormOf (KindOther s) = None"

definition admittedPayloadDigest :: "decoders \<Rightarrow> intent \<Rightarrow> store_error + string" where
  "admittedPayloadDigest dc i =
     (if \<not> dcKnowsPayloadSchema dc (iKeyKind i) (iPayloadSchemaVersion i)
      then Inl (Contract ''payload schema'')
      else case dcPayloadDigest dc (iKeyKind i) (iPayloadSchemaVersion i) (iPayload i) of
        None \<Rightarrow> Inl (Undeliverable ''payload cannot be canonicalised'')
      | Some digest \<Rightarrow>
          if digest \<noteq> iPayloadDigest i
          then Inl (Undeliverable ''payload is not the one it was admitted with'')
          else Inr digest)"

definition executableHere :: "decoders \<Rightarrow> intent \<Rightarrow> store_error + content_form \<times> string" where
  "executableHere dc i =
     (case contentFormOf (iKeyKind i) of None \<Rightarrow> Inl (Contract ''kind of claim'')
      | Some form \<Rightarrow> then_ok (admittedPayloadDigest dc i) (\<lambda>digest. Inr (form, digest)))"

definition checkedSnapshot ::
    "decoders \<Rightarrow> string \<Rightarrow> int \<Rightarrow> int \<Rightarrow> string \<Rightarrow> string \<Rightarrow> bool \<Rightarrow> store_error + rendered" where
  "checkedSnapshot dc raw revision schemaVersion digest groupID admission =
     (let decoded = (if schemaVersion = 2 then Inr (dcSnapshotV2 dc raw)
        else if schemaVersion = 1 \<and> admission then Inr (dcSnapshotV1 dc raw)
        else Inl (Contract ''snapshot schema''))
      in then_ok decoded (\<lambda>r. case r of
           None \<Rightarrow> Inl (Undeliverable ''stored state cannot be read back'')
         | Some s \<Rightarrow>
             if rnDigest s \<noteq> digest
             then Inl (Undeliverable ''stored state no longer matches its digest'')
             else if rnGroupID s \<noteq> groupID \<or> rnRevision s \<noteq> revision
             then Inl (Undeliverable ''stored state describes another alert'')
             else Inr s))"

definition lockedSnapshotTx :: "decoders \<Rightarrow> db \<Rightarrow> string \<Rightarrow> store_error + rendered \<times> bool" where
  "lockedSnapshotTx dc d groupID =
     (case find (\<lambda>s. snGroupID s = groupID) (dbSnapshots d) of
        None \<Rightarrow> Inl (Undeliverable ''no state to render from'')
      | Some s \<Rightarrow> then_ok (checkedSnapshot dc (snRaw s) (snRevision s) (snSchemaVersion s)
            (snDigest s) groupID False) (\<lambda>r. Inr (r, snFinal s)))"

text \<open>A NULL revision, version or digest of a batch is the zero of its Go type.\<close>

definition admittedSnapshotTx :: "decoders \<Rightarrow> db \<Rightarrow> intent \<Rightarrow> store_error + rendered \<times> bool" where
  "admittedSnapshotTx dc d i =
     (case find (\<lambda>b. btID b = iBatchID i) (dbBatches d) of
        None \<Rightarrow> Inl (Undeliverable ''no admission to render from'')
      | Some b \<Rightarrow> (case btSnapshot b of
          None \<Rightarrow> Inl (Undeliverable ''the admission froze no state'')
        | Some raw \<Rightarrow>
            then_ok (checkedSnapshot dc raw (case btRevision b of None \<Rightarrow> 0 | Some v \<Rightarrow> v)
                (case btSchemaVersion b of None \<Rightarrow> 0 | Some v \<Rightarrow> v)
                (text_or_empty (btDigest b)) (iAlertGroupID i) True)
              (\<lambda>r. Inr (r, False))))"

definition attemptContentTx ::
    "decoders \<Rightarrow> db \<Rightarrow> intent \<Rightarrow> content_form \<Rightarrow> string \<Rightarrow> store_error + attempt_content" where
  "attemptContentTx dc d i form digest =
     (case form of
        ContentPayload \<Rightarrow> Inr (PayloadContent digest)
      | ContentSnapshot \<Rightarrow>
          then_ok
            (if iForm i = FormEditable then lockedSnapshotTx dc d (iAlertGroupID i)
             else if iForm i = FormOneShot \<and> iTargetKind i = TargetThreadReply
             then then_ok (lockedSnapshotTx dc d (iAlertGroupID i)) (\<lambda>(s, final).
               if \<not> final then Inl (Contract ''reply before the last revision'') else Inr (s, final))
             else if iForm i = FormOneShot then admittedSnapshotTx dc d i
             else Inl (Contract ''form''))
            (\<lambda>(s, final). Inr (SnapshotContent s final)))"

section \<open>What a message takes from a card\<close>

definition context_Encode :: "decoders \<Rightarrow> bound_context \<Rightarrow> string" where
  "context_Encode dc c = (if context_Empty c then [] else dcEncodeContext dc c)"

text \<open>A stored NULL and a blank document are the empty context.\<close>

definition blank :: "char \<Rightarrow> bool" where
  "blank c = (of_char c \<in> {9, 10, 11, 12, 13, 32 :: nat})"

definition DecodeBoundContext :: "decoders \<Rightarrow> string \<Rightarrow> bound_context option" where
  "DecodeBoundContext dc raw =
     (if list_all blank raw then Some no_context else dcDecodeContext dc raw)"

text \<open>
  \<open>dmContextTx\<close>: the card a direct message points back to.  The order of the statement is
  policy cards before the firehose, then the slot's number, then age and id; SQL puts a row
  whose payload has no slot last.
\<close>

definition card_order :: "decoders \<Rightarrow> row \<Rightarrow> nat \<times> int \<times> int \<times> string" where
  "card_order dc r = (case dcPayloadSlot dc (rPayload r) of
       None \<Rightarrow> (2, 0, rCreatedAt r, rID r)
     | Some s \<Rightarrow> (if slKind s = SlotFirehose then 1 else 0, slIndex s, rCreatedAt r, rID r))"

definition dm_cards :: "decoders \<Rightarrow> intent \<Rightarrow> row \<Rightarrow> bool" where
  "dm_cards dc i r \<longleftrightarrow>
     (if iAwaitsIntentIDs i \<noteq> [] then rID r \<in> set (iAwaitsIntentIDs i) \<and> rReceiptRecorded r
      else rBatchID r = iBatchID i \<and> rProvider r = iProvider i \<and> rTargetKind r = TargetChannel
        \<and> rReceiptRecorded r
        \<and> (map_option slKind (dcPayloadSlot dc (rPayload r)) = Some SlotPolicy
           \<or> dcFallsBackToFirehose dc))"

definition dmContextTx :: "decoders \<Rightarrow> db \<Rightarrow> intent \<Rightarrow> store_error + string" where
  "dmContextTx dc d i =
     (if iTargetKind i \<noteq> TargetUser \<or> iProvider i \<noteq> ProviderSlack then Inr []
      else case sort_key (card_order dc) (filter (dm_cards dc i) (dbIntents d)) of
        [] \<Rightarrow> Inr []
      | found # rest \<Rightarrow> then_ok (dcTeamURL dc) (\<lambda>url.
          Inr (context_Encode dc (no_context\<lparr>bcCardReceiptRef := text_or_empty (rReceiptRef found),
            bcTeamURL := url\<rparr>))))"

section \<open>What is proved of the content before a call\<close>

lemma checkedSnapshot_Inr:
  assumes "checkedSnapshot dc raw revision v digest g adm = Inr s"
  shows "rnGroupID s = g \<and> rnRevision s = revision \<and> rnDigest s = digest"
  using assms by (auto simp: checkedSnapshot_def Let_def split: if_splits option.splits)

lemma lockedSnapshot_Inr:
  assumes "lockedSnapshotTx dc d g = Inr (s, final)"
  shows "\<exists>row\<in>set (dbSnapshots d). snGroupID row = g \<and> rnGroupID s = g \<and>
     rnRevision s = snRevision row \<and> rnDigest s = snDigest row \<and> final = snFinal row"
  using assms checkedSnapshot_Inr
  by (fastforce simp: lockedSnapshotTx_def find_Some_iff split: option.splits)

lemma admittedSnapshot_Inr:
  assumes "admittedSnapshotTx dc d i = Inr (s, final)"
  shows "\<not> final \<and> rnGroupID s = iAlertGroupID i"
  using assms checkedSnapshot_Inr
  by (fastforce simp: admittedSnapshotTx_def split: option.splits)

text \<open>
  A call is only ever made from what was admitted: when the content of an attempt is
  read, the payload still digests to what the admission recorded; a card carries the state
  of its own alert group at the revision stored for it, a one-shot message the state its
  admission froze, a closing reply only the group's last revision, and a kind or a form
  this build does not know has no content at all.
\<close>

theorem content_is_what_was_admitted:
  assumes "executableHere dc i = Inr (form, digest)"
    and "attemptContentTx dc d i form digest = Inr c"
  shows "digest = iPayloadDigest i \<and> contentFormOf (iKeyKind i) = Some form \<and>
     (case c of
        PayloadContent p \<Rightarrow> form = ContentPayload \<and> p = digest
      | SnapshotContent s final \<Rightarrow>
          form = ContentSnapshot \<and> rnGroupID s = iAlertGroupID i \<and>
          (iForm i = FormEditable \<longrightarrow> (\<exists>row\<in>set (dbSnapshots d).
             snGroupID row = iAlertGroupID i \<and> rnRevision s = snRevision row \<and>
             rnDigest s = snDigest row \<and> final = snFinal row)) \<and>
          (iForm i = FormOneShot \<longrightarrow> final = (iTargetKind i = TargetThreadReply)) \<and>
          iForm i \<in> {FormEditable, FormOneShot})"
proof -
  have e: "digest = iPayloadDigest i \<and> contentFormOf (iKeyKind i) = Some form"
    using assms(1) by (auto simp: executableHere_def admittedPayloadDigest_def
        split: option.splits if_splits)
  show ?thesis
  proof (cases form)
    case ContentPayload
    then have "c = PayloadContent digest" using assms(2) by (simp add: attemptContentTx_def)
    with e ContentPayload show ?thesis by simp
  next
    case ContentSnapshot
    with assms(2) obtain s final where c: "c = SnapshotContent s final"
      and rd: "iForm i = FormEditable \<and> lockedSnapshotTx dc d (iAlertGroupID i) = Inr (s, final) \<or>
        iForm i = FormOneShot \<and> iTargetKind i = TargetThreadReply \<and> final \<and>
          lockedSnapshotTx dc d (iAlertGroupID i) = Inr (s, final) \<or>
        iForm i = FormOneShot \<and> iTargetKind i \<noteq> TargetThreadReply \<and>
          admittedSnapshotTx dc d i = Inr (s, final)"
      by (auto simp: attemptContentTx_def split: if_splits)
    from rd lockedSnapshot_Inr [of dc d "iAlertGroupID i" s final]
      admittedSnapshot_Inr [of dc d i s final] e c ContentSnapshot
    show ?thesis by auto
  qed
qed

section \<open>A witness\<close>

definition plain_decoders :: decoders where
  "plain_decoders = \<lparr>dcSha = (\<lambda>m. replicate 32 (CHR ''x'')), dcKnowsPayloadSchema = (\<lambda>k v. v = 2),
     dcPayloadDigest = (\<lambda>k v p. Some []), dcSnapshotV2 = (\<lambda>raw. Some \<lparr>rnGroupID = ''g1'',
       rnRevision = 3, rnDigest = ''d3''\<rparr>), dcSnapshotV1 = (\<lambda>raw. None),
     dcEscalationStop = (\<lambda>v p. None), dcPayloadSlot = (\<lambda>p. None),
     dcTeamURL = Inr [], dcFallsBackToFirehose = True, dcEncodeContext = (\<lambda>c. ''{}''),
     dcDecodeContext = (\<lambda>raw. Some no_context), dcJSON = (\<lambda>fields. ''{}''),
     dcRounding = (\<lambda>r. r),
     dcFraction = 1 / 2\<rparr>"

definition frozen_db :: db where
  "frozen_db = sample_db\<lparr>dbSnapshots := [\<lparr>snGroupID = ''g1'', snRaw = ''{}'', snRevision = 3,
     snSchemaVersion = 2, snDigest = ''d3'', snFinal = False\<rparr>]\<rparr>"

theorem content_is_what_was_admitted_witness:
  "\<exists>c. attemptContentTx plain_decoders frozen_db (intent_of 10 sample_row) ContentSnapshot [] = Inr c
     \<and> content_revision c = Some 3"
proof -
  let ?i = "intent_of 10 sample_row"
  have e: "executableHere plain_decoders ?i = Inr (ContentSnapshot, [])"
    by (simp add: executableHere_def admittedPayloadDigest_def plain_decoders_def sample_row_def
        scanIntent_def)
  have "\<exists>c. attemptContentTx plain_decoders frozen_db ?i ContentSnapshot [] = Inr c"
    by (simp add: attemptContentTx_def lockedSnapshotTx_def checkedSnapshot_def
        plain_decoders_def frozen_db_def sample_row_def scanIntent_def)
  then obtain c where c: "attemptContentTx plain_decoders frozen_db ?i ContentSnapshot [] = Inr c"
    by blast
  have row: "snRevision row = 3" if "row \<in> set (dbSnapshots frozen_db)" for row
    using that by (simp add: frozen_db_def)
  from content_is_what_was_admitted [OF e c] c row show ?thesis
    by (cases c) (auto simp: sample_row_def)
qed

end
