(* ===== verification/Pact.thy ===== *)
theory Pact
  imports Content
begin

text \<open>
  The agreement between the queue and the journal that every delivery transaction keeps:
  an attempt is open exactly while its commitment holds it, under the commitment's lease
  and generation; journal records are numbered once; and every call of a generation goes to
  the address, and every creation under the key, the generation was bound to.

  A transaction is described by what it does to each row (\<open>row_step\<close>, \<open>generation_step\<close>), so
  its own theory proves that and the agreement follows from the three lemmas here.
\<close>

section \<open>The agreement\<close>

definition held_open :: "db \<Rightarrow> bool" where
  "held_open d \<longleftrightarrow> (\<forall>r\<in>set (dbIntents d). \<forall>a. rCurrentAttempt r = Some a \<longrightarrow>
     (\<exists>t\<in>set (dbAttempts d). tID t = a \<and> tIntentID t = rID r \<and> tFinishedAt t = None \<and>
        tLeaseToken t = rLeaseToken r \<and> tGenerationNo t = rGenerationNo r))"

definition open_held :: "db \<Rightarrow> bool" where
  "open_held d \<longleftrightarrow> (\<forall>t\<in>set (dbAttempts d). tFinishedAt t = None \<longrightarrow>
     (\<exists>r\<in>set (dbIntents d). rID r = tIntentID t \<and> rCurrentAttempt r = Some (tID t)))"

definition numbered :: "db \<Rightarrow> bool" where
  "numbered d \<longleftrightarrow> distinct (map (\<lambda>t. (tIntentID t, tAttemptNo t)) (dbAttempts d))"

definition calls_as_bound :: "row \<Rightarrow> attempt \<Rightarrow> bool" where
  "calls_as_bound r t \<longleftrightarrow> tGenerationNo t < rGenerationNo r \<or>
     tGenerationNo t = rGenerationNo r \<and> rCreateKey r \<noteq> None \<and>
     tBoundEndpoint t = rBoundEndpoint r \<and>
     (tAttemptKind t = AttemptCreate \<longrightarrow> tProviderKey t = rCreateKey r)"

definition bound_calls :: "db \<Rightarrow> bool" where
  "bound_calls d \<longleftrightarrow> (\<forall>t\<in>set (dbAttempts d). tRecordKind t = RecordAttempt \<longrightarrow>
     (\<exists>r\<in>set (dbIntents d). rID r = tIntentID t \<and> calls_as_bound r t))"

text \<open>Two calls that ask for one external effect ask for it the same way.\<close>

definition same_effect :: "attempt \<Rightarrow> attempt \<Rightarrow> bool" where
  "same_effect t u \<longleftrightarrow> tBoundEndpoint t = tBoundEndpoint u \<and>
     (tAttemptKind t = AttemptCreate \<and> tAttemptKind u = AttemptCreate \<longrightarrow>
        tProviderKey t = tProviderKey u)"

definition one_effect :: "db \<Rightarrow> bool" where
  "one_effect d \<longleftrightarrow> (\<forall>t\<in>set (dbAttempts d). \<forall>u\<in>set (dbAttempts d).
     tRecordKind t = RecordAttempt \<and> tRecordKind u = RecordAttempt \<and>
     tIntentID t = tIntentID u \<and> tGenerationNo t = tGenerationNo u \<longrightarrow> same_effect t u)"

definition pact :: "db \<Rightarrow> bool" where
  "pact d \<longleftrightarrow> sound d \<and> held_open d \<and> open_held d \<and> numbered d \<and> bound_calls d \<and> one_effect d"

section \<open>What a transaction does to a row\<close>

text \<open>What the admission wrote: the commitment itself, as opposed to where it stands.\<close>

definition same_commitment :: "row \<Rightarrow> row \<Rightarrow> bool" where
  "same_commitment r r' \<longleftrightarrow> rID r' = rID r \<and> rBatchID r' = rBatchID r \<and> rGroupID r' = rGroupID r \<and>
     rFamily r' = rFamily r \<and> rKeyKind r' = rKeyKind r \<and> rProvider r' = rProvider r \<and>
     rTargetKind r' = rTargetKind r \<and> rTargetRef r' = rTargetRef r \<and> rForm r' = rForm r \<and>
     rCompletionMode r' = rCompletionMode r \<and> rAmbiguityPolicy r' = rAmbiguityPolicy r \<and>
     rPayloadSchemaVersion r' = rPayloadSchemaVersion r \<and> rPayload r' = rPayload r \<and>
     rCodecVersion r' = rCodecVersion r \<and> rPayloadDigest r' = rPayloadDigest r \<and>
     rParentID r' = rParentID r \<and> rAwaits r' = rAwaits r \<and> rNotBefore r' = rNotBefore r \<and>
     rCreatedAt r' = rCreatedAt r"

lemma same_commitment_refl [simp]: "same_commitment r r"
  by (simp add: same_commitment_def)

lemma same_commitment_trans: "same_commitment r r' \<Longrightarrow> same_commitment r' r'' \<Longrightarrow> same_commitment r r''"
  by (simp add: same_commitment_def)

lemma same_commitment_id: "same_commitment r r' \<Longrightarrow> rID r' = rID r"
  by (simp add: same_commitment_def)

lemma same_commitment_update [simp]:
  "same_commitment r (update_row now w a b c r)" "same_commitment r (revived_row now d r)"
  by (simp_all add: same_commitment_def update_row_def revived_row_def Let_def)

definition generation_step :: "row \<Rightarrow> row \<Rightarrow> bool" where
  "generation_step r r' \<longleftrightarrow> rID r' = rID r \<and> same_commitment r r' \<and> (rGenerationNo r < rGenerationNo r' \<or>
     rGenerationNo r' = rGenerationNo r \<and> (rCreateKey r \<noteq> None \<longrightarrow>
       rBoundEndpoint r' = rBoundEndpoint r \<and> rCreateKey r' = rCreateKey r))"

definition row_step :: "row \<Rightarrow> row \<Rightarrow> bool" where
  "row_step r r' \<longleftrightarrow> generation_step r r' \<and> rCurrentAttempt r' = rCurrentAttempt r \<and>
     (rCurrentAttempt r \<noteq> None \<longrightarrow>
        rLeaseToken r' = rLeaseToken r \<and> rGenerationNo r' = rGenerationNo r)"

definition released :: "row \<Rightarrow> row \<Rightarrow> bool" where
  "released r r' \<longleftrightarrow> generation_step r r' \<and> rCurrentAttempt r' = None"

lemma generation_step_refl [simp]: "generation_step r r"
  by (simp add: generation_step_def)

lemma generation_step_trans: "generation_step r r' \<Longrightarrow> generation_step r' r'' \<Longrightarrow> generation_step r r''"
  by (auto simp: generation_step_def intro: same_commitment_trans)

lemma row_step_refl [simp]: "row_step r r"
  by (simp add: row_step_def)

lemma row_step_trans: "row_step r r' \<Longrightarrow> row_step r' r'' \<Longrightarrow> row_step r r''"
  by (auto simp: row_step_def intro: generation_step_trans)

lemma row_step_generation: "row_step r r' \<Longrightarrow> generation_step r r'"
  by (simp add: row_step_def)

lemma released_generation: "released r r' \<Longrightarrow> generation_step r r'"
  by (simp add: released_def)

lemma released_idle: "rCurrentAttempt r = None \<Longrightarrow> released r r' \<longleftrightarrow> row_step r r'"
  by (auto simp: released_def row_step_def)

lemma calls_as_bound_step:
  "calls_as_bound r t \<Longrightarrow> generation_step r r' \<Longrightarrow> calls_as_bound r' t"
  by (auto simp: calls_as_bound_def generation_step_def)

text \<open>Rows in place, related one by one.\<close>

definition rows_step :: "(row \<Rightarrow> row \<Rightarrow> bool) \<Rightarrow> db \<Rightarrow> db \<Rightarrow> bool" where
  "rows_step R d d' \<longleftrightarrow> list_all2 R (dbIntents d) (dbIntents d')"

lemma list_all2_there:
  "list_all2 R xs ys \<Longrightarrow> x \<in> set xs \<Longrightarrow> \<exists>y\<in>set ys. R x y"
  by (induction rule: list_all2_induct) auto

lemma list_all2_back:
  "list_all2 R xs ys \<Longrightarrow> y \<in> set ys \<Longrightarrow> \<exists>x\<in>set xs. R x y"
  by (induction rule: list_all2_induct) auto

lemma rows_step_there:
  assumes "rows_step R d d'" "r \<in> set (dbIntents d)"
  shows "\<exists>r'\<in>set (dbIntents d'). R r r'"
  using assms unfolding rows_step_def by (rule list_all2_there)

lemma rows_step_back:
  assumes "rows_step R d d'" "r' \<in> set (dbIntents d')"
  shows "\<exists>r\<in>set (dbIntents d). R r r'"
  using assms unfolding rows_step_def by (rule list_all2_back)

lemma rows_step_mono:
  assumes "rows_step R d d'" and "\<And>r r'. r \<in> set (dbIntents d) \<Longrightarrow> R r r' \<Longrightarrow> S r r'"
  shows "rows_step S d d'"
  using assms unfolding rows_step_def by (auto elim: list.rel_mono_strong)

lemma rows_step_refl: "(\<And>r. R r r) \<Longrightarrow> rows_step R d d"
  by (simp add: rows_step_def list_all2_refl)

lemma rows_step_compose:
  assumes "rows_step R d d'" "rows_step S d' d''" "\<And>r r' r''. R r r' \<Longrightarrow> S r' r'' \<Longrightarrow> T r r''"
  shows "rows_step T d d''"
  using assms unfolding rows_step_def by (blast intro: list_all2_trans)

text \<open>A transaction that leaves the journal alone and touches no open attempt's row.\<close>

definition quiet_step :: "db \<Rightarrow> db \<Rightarrow> bool" where
  "quiet_step d d' \<longleftrightarrow> sound d' \<and> dbAttempts d' = dbAttempts d \<and> rows_step row_step d d'"

lemma quiet_step_refl: "sound d \<Longrightarrow> quiet_step d d"
  by (simp add: quiet_step_def rows_step_refl)

lemma quiet_step_trans [trans]: "quiet_step d d' \<Longrightarrow> quiet_step d' d'' \<Longrightarrow> quiet_step d d''"
  unfolding quiet_step_def using rows_step_compose [of row_step d d' row_step d'' row_step]
    row_step_trans by auto

lemma quiet_step_sound: "quiet_step d d' \<Longrightarrow> sound d'"
  by (simp add: quiet_step_def)

lemma quiet_same_rows: "sound d \<Longrightarrow> same_rows d d' \<Longrightarrow> quiet_step d d'"
  using same_rows_sound [of d d']
  by (simp add: quiet_step_def same_rows_def same_journal_def rows_step_def list_all2_refl)

section \<open>The journal's half of the agreement\<close>

text \<open>The fields of a record that no conclusion changes.\<close>

definition same_record :: "attempt \<Rightarrow> attempt \<Rightarrow> bool" where
  "same_record t u \<longleftrightarrow> tID u = tID t \<and> tIntentID u = tIntentID t \<and> tAttemptNo u = tAttemptNo t \<and>
     tRecordKind u = tRecordKind t \<and> tGenerationNo u = tGenerationNo t \<and>
     tAttemptKind u = tAttemptKind t \<and> tBoundEndpoint u = tBoundEndpoint t \<and>
     tProviderKey u = tProviderKey t \<and> tLeaseToken u = tLeaseToken t"

lemma same_record_refl [simp]: "same_record t t"
  by (simp add: same_record_def)

lemma numbered_map:
  assumes "\<And>t. same_record t (f t)"
  shows "numbered (d\<lparr>dbAttempts := map f (dbAttempts d)\<rparr>) = numbered d"
proof -
  have "map (\<lambda>t. (tIntentID t, tAttemptNo t)) (map f ts) = map (\<lambda>t. (tIntentID t, tAttemptNo t)) ts"
    for ts using assms by (simp add: same_record_def)
  then show ?thesis by (simp add: numbered_def del: map_map)
qed

lemma journal_kept:
  assumes "numbered d" "bound_calls d" "one_effect d"
    and "dbAttempts d' = map f (dbAttempts d)" and "\<And>t. same_record t (f t)"
    and "rows_step generation_step d d'"
  shows "numbered d' \<and> bound_calls d' \<and> one_effect d'"
proof (intro conjI)
  show "numbered d'"
    using numbered_map [of f d, OF assms(5)] assms(1,4) by (simp add: numbered_def)
  show "bound_calls d'" unfolding bound_calls_def
  proof (intro ballI impI)
    fix u assume u: "u \<in> set (dbAttempts d')" "tRecordKind u = RecordAttempt"
    then obtain t where t: "t \<in> set (dbAttempts d)" "u = f t" using assms(4) by auto
    note fr = assms(5) [of t, unfolded same_record_def]
    from assms(2) t u(2) fr obtain r where r: "r \<in> set (dbIntents d)" "rID r = tIntentID t"
      "calls_as_bound r t" unfolding bound_calls_def by auto
    from rows_step_there [OF assms(6) r(1)] obtain r' where
      r': "r' \<in> set (dbIntents d')" "generation_step r r'" by blast
    have "calls_as_bound r' u" using calls_as_bound_step [OF r(3) r'(2)] fr t(2)
      by (simp add: calls_as_bound_def)
    with r' r(2) fr t(2) show "\<exists>r\<in>set (dbIntents d'). rID r = tIntentID u \<and> calls_as_bound r u"
      by (auto simp: generation_step_def)
  qed
  show "one_effect d'" unfolding one_effect_def
  proof (intro ballI impI)
    fix t' u' assume tu: "t' \<in> set (dbAttempts d')" "u' \<in> set (dbAttempts d')"
      "tRecordKind t' = RecordAttempt \<and> tRecordKind u' = RecordAttempt \<and>
       tIntentID t' = tIntentID u' \<and> tGenerationNo t' = tGenerationNo u'"
    then obtain t u where o: "t \<in> set (dbAttempts d)" "u \<in> set (dbAttempts d)" "t' = f t" "u' = f u"
      using assms(4) by auto
    note fr = assms(5) [of t, unfolded same_record_def] assms(5) [of u, unfolded same_record_def]
    have "same_effect t u" using assms(3) o(1,2) tu(3) fr o(3,4) unfolding one_effect_def by simp
    with fr o(3,4) show "same_effect t' u'" by (simp add: same_effect_def)
  qed
qed

section \<open>The three ways a transaction keeps the agreement\<close>

lemma pact_quiet:
  assumes "pact d" and q: "quiet_step d d'"
  shows "pact d'"
proof -
  note q' = q [unfolded quiet_step_def]
  have "rows_step generation_step d d'"
    using q' by (auto intro: rows_step_mono row_step_generation)
  with journal_kept [of d d' id] assms(1) q' have "numbered d' \<and> bound_calls d' \<and> one_effect d'"
    by (simp add: pact_def)
  moreover have "held_open d'" unfolding held_open_def
  proof (intro ballI allI impI)
    fix r' a assume r': "r' \<in> set (dbIntents d')" "rCurrentAttempt r' = Some a"
    from rows_step_back [of row_step d d' r'] q' r'(1) obtain r where
      r: "r \<in> set (dbIntents d)" "row_step r r'" by blast
    with assms(1) r'(2) show "\<exists>t\<in>set (dbAttempts d'). tID t = a \<and> tIntentID t = rID r' \<and>
        tFinishedAt t = None \<and> tLeaseToken t = rLeaseToken r' \<and> tGenerationNo t = rGenerationNo r'"
      using q' unfolding pact_def held_open_def row_step_def generation_step_def by fastforce
  qed
  moreover have "open_held d'" unfolding open_held_def
  proof (intro ballI impI)
    fix t assume t: "t \<in> set (dbAttempts d')" "tFinishedAt t = None"
    with assms(1) q' obtain r where r: "r \<in> set (dbIntents d)" "rID r = tIntentID t"
      "rCurrentAttempt r = Some (tID t)" unfolding pact_def open_held_def by auto
    from rows_step_there [of row_step d d' r] q' r(1) obtain r' where
      "r' \<in> set (dbIntents d')" "row_step r r'" by blast
    with r show "\<exists>r\<in>set (dbIntents d'). rID r = tIntentID t \<and> rCurrentAttempt r = Some (tID t)"
      by (auto simp: row_step_def generation_step_def)
  qed
  ultimately show ?thesis using q' by (simp add: pact_def)
qed

text \<open>The holder of an attempt is one commitment.\<close>

lemma pact_holder:
  assumes "pact d" "r \<in> set (dbIntents d)" "rCurrentAttempt r = Some a"
    and "t \<in> set (dbAttempts d)" "tID t = a"
  shows "tIntentID t = rID r" "tFinishedAt t = None" "tLeaseToken t = rLeaseToken r"
    "tGenerationNo t = rGenerationNo r"
proof -
  from assms(1-3) obtain u where u: "u \<in> set (dbAttempts d)" "tID u = a" "tIntentID u = rID r"
    "tFinishedAt u = None" "tLeaseToken u = rLeaseToken r" "tGenerationNo u = rGenerationNo r"
    unfolding pact_def held_open_def by blast
  have "distinct (map tID (dbAttempts d))" using assms(1) by (simp add: pact_def sound_def)
  then have "inj_on tID (set (dbAttempts d))" by (simp add: distinct_map)
  then have "u = t" using u(1,2) assms(4,5) by (simp add: inj_on_def)
  with u show "tIntentID t = rID r" "tFinishedAt t = None" "tLeaseToken t = rLeaseToken r"
    "tGenerationNo t = rGenerationNo r" by simp_all
qed

lemma pact_release:
  assumes p: "pact d" and "sound d'" and at: "dbAttempts d' = map f (dbAttempts d)"
    and f: "\<And>t. same_record t (f t)" "\<And>t. tFinishedAt (f t) = None \<longleftrightarrow> tFinishedAt t = None \<and> tID t \<noteq> a"
    and st: "rows_step (\<lambda>r r'. if rCurrentAttempt r = Some a then released r r' else row_step r r') d d'"
  shows "pact d'"
proof -
  have "rows_step generation_step d d'"
    by (rule rows_step_mono [OF st]) (auto split: if_splits intro: row_step_generation released_generation)
  with journal_kept [of d d' f] p at f(1) have "numbered d' \<and> bound_calls d' \<and> one_effect d'"
    by (simp add: pact_def)
  moreover have "held_open d'" unfolding held_open_def
  proof (intro ballI allI impI)
    fix r' b assume r': "r' \<in> set (dbIntents d')" "rCurrentAttempt r' = Some b"
    from rows_step_back [OF st r'(1)] obtain r where
      r0: "r \<in> set (dbIntents d)"
        "if rCurrentAttempt r = Some a then released r r' else row_step r r'" by blast
    then have r: "r \<in> set (dbIntents d)" "row_step r r'" "rCurrentAttempt r = Some b" "b \<noteq> a"
      using r'(2) by (auto simp: released_def row_step_def split: if_splits)
    from p r(1,3) obtain t where t: "t \<in> set (dbAttempts d)" "tID t = b" "tIntentID t = rID r"
      "tFinishedAt t = None" "tLeaseToken t = rLeaseToken r" "tGenerationNo t = rGenerationNo r"
      unfolding pact_def held_open_def by blast
    have "f t \<in> set (dbAttempts d')" using t(1) at by simp
    moreover have "tFinishedAt (f t) = None" using f(2) t r(4) by simp
    ultimately show "\<exists>t\<in>set (dbAttempts d'). tID t = b \<and> tIntentID t = rID r' \<and>
        tFinishedAt t = None \<and> tLeaseToken t = rLeaseToken r' \<and> tGenerationNo t = rGenerationNo r'"
      using f(1) [of t] t r by (intro bexI [of _ "f t"])
        (auto simp: same_record_def row_step_def generation_step_def)
  qed
  moreover have "open_held d'" unfolding open_held_def
  proof (intro ballI impI)
    fix u assume u: "u \<in> set (dbAttempts d')" "tFinishedAt u = None"
    then obtain t where t: "t \<in> set (dbAttempts d)" "u = f t" using at by auto
    with u(2) f(2) have o: "tFinishedAt t = None" "tID t \<noteq> a" by auto
    with p t obtain r where r: "r \<in> set (dbIntents d)" "rID r = tIntentID t"
      "rCurrentAttempt r = Some (tID t)" unfolding pact_def open_held_def by auto
    from rows_step_there [OF st r(1)] r(3) o(2) obtain r' where
      "r' \<in> set (dbIntents d')" "row_step r r'" by auto
    with r f(1) [of t] t(2) show
      "\<exists>r\<in>set (dbIntents d'). rID r = tIntentID u \<and> rCurrentAttempt r = Some (tID u)"
      by (auto simp: row_step_def generation_step_def same_record_def)
  qed
  ultimately show ?thesis using assms(2) by (simp add: pact_def)
qed

text \<open>A record is appended: a refusal, closed as it is written, or a call its row now holds.\<close>

definition opened :: "attempt \<Rightarrow> row \<Rightarrow> row \<Rightarrow> bool" where
  "opened t r r' \<longleftrightarrow> generation_step r r' \<and> rCurrentAttempt r = None \<and>
     rCurrentAttempt r' = Some (tID t) \<and> tLeaseToken t = rLeaseToken r' \<and>
     tGenerationNo t = rGenerationNo r' \<and> calls_as_bound r' t"

lemma insert_attempt_Inr:
  assumes "insert_attempt t d = Inr d'"
  shows "d' = d\<lparr>dbAttempts := dbAttempts d @ [t]\<rparr>" "attempt_checks t"
    "\<forall>u\<in>set (dbAttempts d). tID u \<noteq> tID t \<and>
       \<not> (tIntentID u = tIntentID t \<and> tAttemptNo u = tAttemptNo t)"
  using assms by (auto simp: insert_attempt_def list_ex_iff split: if_splits)

lemma numbered_append:
  assumes "numbered d" "insert_attempt t d = Inr d'"
  shows "numbered d'"
  using assms(1) insert_attempt_Inr [OF assms(2)] by (auto simp: numbered_def)

lemma sound_append:
  assumes "sound d" "insert_attempt t d = Inr d'"
  shows "sound d'"
  using assms(1) insert_attempt_Inr [OF assms(2)] by (auto simp: sound_def)

lemma pact_closed_record:
  assumes "pact d" "insert_attempt t d = Inr d'" "tFinishedAt t \<noteq> None"
    "tRecordKind t \<noteq> RecordAttempt"
  shows "pact d'"
proof -
  note i = insert_attempt_Inr [OF assms(2)]
  have "sound d'" "numbered d'"
    using assms sound_append numbered_append by (auto simp: pact_def)
  moreover have "held_open d'" "open_held d'" "bound_calls d'" "one_effect d'"
    using assms(1,3,4) unfolding i(1) pact_def held_open_def open_held_def bound_calls_def one_effect_def
    by auto
  ultimately show ?thesis by (simp add: pact_def)
qed

lemma pact_open:
  assumes p: "pact d" and "sound d'" and ins: "insert_attempt t d = Inr d1"
    and at: "dbAttempts d' = dbAttempts d1" and t: "tFinishedAt t = None"
    and st: "rows_step (\<lambda>r r'. if rID r = tIntentID t then opened t r r' else row_step r r') d d'"
    and there: "\<exists>r\<in>set (dbIntents d). rID r = tIntentID t"
    and same: "\<forall>u\<in>set (dbAttempts d). tRecordKind u = RecordAttempt \<and> tIntentID u = tIntentID t
        \<and> tGenerationNo u = tGenerationNo t \<longrightarrow> same_effect u t"
  shows "pact d'"
proof -
  note i = insert_attempt_Inr [OF ins]
  have at': "dbAttempts d' = dbAttempts d @ [t]" using at i(1) by simp
  have gen: "rows_step generation_step d d'"
    by (rule rows_step_mono [OF st]) (auto simp: opened_def split: if_splits intro: row_step_generation)
  let ?e = "d'\<lparr>dbAttempts := dbAttempts d\<rparr>"
  have "rows_step generation_step d ?e" using gen by (simp add: rows_step_def)
  with journal_kept [of d ?e id] p have k: "bound_calls ?e" "one_effect ?e" by (simp_all add: pact_def)
  have "numbered d'" using numbered_append [OF _ ins] p at by (simp add: pact_def numbered_def)
  moreover from there obtain r where r: "r \<in> set (dbIntents d)" "rID r = tIntentID t" by blast
  from rows_step_there [OF st r(1)] r(2) obtain r' where
    r': "r' \<in> set (dbIntents d')" "opened t r r'" by auto
  have rid: "rID r' = tIntentID t" using r r'(2) by (simp add: opened_def generation_step_def)
  have "bound_calls d'"
    using k(1) r' rid by (auto simp: bound_calls_def at' opened_def)
  moreover have "one_effect d'" unfolding one_effect_def
  proof (intro ballI impI)
    fix u v assume uv: "u \<in> set (dbAttempts d')" "v \<in> set (dbAttempts d')"
      "tRecordKind u = RecordAttempt \<and> tRecordKind v = RecordAttempt \<and>
       tIntentID u = tIntentID v \<and> tGenerationNo u = tGenerationNo v"
    have in': "u \<in> set (dbAttempts d) \<or> u = t" "v \<in> set (dbAttempts d) \<or> v = t"
      using uv(1,2) at' by auto
    have comm: "same_effect x y \<Longrightarrow> same_effect y x" for x y
      by (simp add: same_effect_def)
    have old: "u \<in> set (dbAttempts d) \<Longrightarrow> v \<in> set (dbAttempts d) \<Longrightarrow> same_effect u v"
      using k(2) uv(3) unfolding one_effect_def by simp
    have u: "u \<in> set (dbAttempts d) \<Longrightarrow> v = t \<Longrightarrow> same_effect u v" using same uv(3) by simp
    have v: "v \<in> set (dbAttempts d) \<Longrightarrow> u = t \<Longrightarrow> same_effect v u" using same uv(3) by simp
    have "same_effect t t" by (simp add: same_effect_def)
    with in' old u v comm show "same_effect u v" by blast
  qed
  moreover have "held_open d'" unfolding held_open_def
  proof (intro ballI allI impI)
    fix q' a assume q': "q' \<in> set (dbIntents d')" "rCurrentAttempt q' = Some a"
    from rows_step_back [OF st q'(1)] obtain q where q: "q \<in> set (dbIntents d)"
      "if rID q = tIntentID t then opened t q q' else row_step q q'" by blast
    show "\<exists>u\<in>set (dbAttempts d'). tID u = a \<and> tIntentID u = rID q' \<and>
        tFinishedAt u = None \<and> tLeaseToken u = rLeaseToken q' \<and> tGenerationNo u = rGenerationNo q'"
    proof (cases "rID q = tIntentID t")
      case True
      with q q'(2) t at' show ?thesis by (auto simp: opened_def generation_step_def)
    next
      case False
      with q(2) have s: "row_step q q'" by simp
      have held: "held_open d" using p by (simp add: pact_def)
      have "rCurrentAttempt q = Some a" using s q'(2) by (simp add: row_step_def)
      with held q(1) obtain u where "u \<in> set (dbAttempts d)" "tID u = a" "tIntentID u = rID q"
        "tFinishedAt u = None" "tLeaseToken u = rLeaseToken q" "tGenerationNo u = rGenerationNo q"
        unfolding held_open_def by blast
      with s q'(2) at' show ?thesis
        by (intro bexI [of _ u]) (auto simp: row_step_def generation_step_def)
    qed
  qed
  moreover have "open_held d'" unfolding open_held_def
  proof (intro ballI impI)
    fix u assume u: "u \<in> set (dbAttempts d')" "tFinishedAt u = None"
    show "\<exists>r\<in>set (dbIntents d'). rID r = tIntentID u \<and> rCurrentAttempt r = Some (tID u)"
    proof (cases "u = t")
      case True
      with r' rid show ?thesis by (auto simp: opened_def)
    next
      case False
      with u at' p obtain q where q: "q \<in> set (dbIntents d)" "rID q = tIntentID u"
        "rCurrentAttempt q = Some (tID u)" unfolding pact_def open_held_def by auto
      from rows_step_there [OF st q(1)] q(3) obtain q' where
        "q' \<in> set (dbIntents d')" "row_step q q'" by (auto simp: opened_def split: if_splits)
      with q show ?thesis by (auto simp: row_step_def generation_step_def)
    qed
  qed
  ultimately show ?thesis using assms(2) by (simp add: pact_def)
qed

section \<open>Statements as steps\<close>

lemma update_intents_steps:
  assumes "sound d" and "update_intents p f d = Inr d'" and "\<And>r. rID (f r) = rID r"
  shows "sound d'" "dbAttempts d' = dbAttempts d"
    "rows_step (\<lambda>r r'. r' = (if p r then f r else r)) d d'"
proof -
  note u = update_intents_Inr [OF assms(2)]
  show "sound d'" using sound_map [of d f p] assms(1,3) u by simp
  show "dbAttempts d' = dbAttempts d" using u(1) by simp
  show "rows_step (\<lambda>r r'. r' = (if p r then f r else r)) d d'"
    by (simp add: u(1) rows_step_def list_all2_map2 list_all2_refl)
qed

lemma update_intents_quiet:
  assumes "sound d" and "update_intents p f d = Inr d'" and "\<And>r. rID (f r) = rID r"
    and "\<And>r. r \<in> set (dbIntents d) \<Longrightarrow> p r \<Longrightarrow> intent_checks (f r) \<Longrightarrow> row_step r (f r)"
  shows "quiet_step d d'"
proof -
  note u = update_intents_steps [OF assms(1-3)]
  have "rows_step row_step d d'"
    by (rule rows_step_mono [OF u(3)])
      (use assms(4) update_intents_Inr(2) [OF assms(2)] in auto)
  with u show ?thesis by (simp add: quiet_step_def)
qed

text \<open>A constraint at work: whoever is not sending holds no attempt.\<close>

lemma idle_row: "intent_checks r \<Longrightarrow> rStatus r \<noteq> StatusSending \<Longrightarrow> rCurrentAttempt r = None"
  by (auto simp: intent_checks_def sending_has_attempt_def)

lemma sound_checks: "sound d \<Longrightarrow> r \<in> set (dbIntents d) \<Longrightarrow> intent_checks r"
  by (simp add: sound_def)

text \<open>A row that keeps its binding and its generation, and holds nothing before or after.\<close>

lemma idle_step:
  assumes "intent_checks r" "intent_checks r'" "rStatus r \<noteq> StatusSending" "rStatus r' \<noteq> StatusSending"
    and "same_commitment r r'" "rGenerationNo r' = rGenerationNo r" "rCreateKey r' = rCreateKey r"
    "rBoundEndpoint r' = rBoundEndpoint r"
  shows "row_step r r'"
  using idle_row [OF assms(1,3)] idle_row [OF assms(2,4)] assms(5-8) same_commitment_id [OF assms(5)]
  by (simp add: row_step_def generation_step_def)

lemma appendIntentEvent_quiet:
  "sound d \<Longrightarrow> appendIntentEventDetailTx i k why actor detail d = Inr d' \<Longrightarrow> quiet_step d d'"
  using appendIntentEvent_frame quiet_same_rows by blast

lemma append_events_quiet:
  "sound d \<Longrightarrow> append_events is k why actor d = Inr d' \<Longrightarrow> quiet_step d d'"
  using append_events_frame quiet_same_rows by blast

lemma timeline_quiet:
  "sound d \<Longrightarrow> quiet_step d (addTimelineTx now g ty message actor d)"
  by (rule quiet_same_rows)
    (simp_all add: addTimelineTx_def addTimelineWithTx_def same_rows_def same_journal_def)

lemma revived_row_sel2 [simp]:
  "rGenerationNo (revived_row now d r) = rGenerationNo r"
  "rCreateKey (revived_row now d r) = rCreateKey r"
  "rBoundEndpoint (revived_row now d r) = rBoundEndpoint r"
  "rCurrentAttempt (revived_row now d r) = rCurrentAttempt r"
  "rStatus (revived_row now d r) = StatusPending"
  by (simp_all add: revived_row_def)

lemma reviveWithdrawn_quiet:
  assumes "sound d" and "reviveWithdrawnSatellitesTx now p d = Inr d'"
  shows "quiet_step d d'"
proof -
  from assms(2) obtain d1 where d1: "update_intents (revives p d) (revived_row now d) d = Inr d1"
    "append_events (map rID (filter (revives p d) (dbIntents d))) ''revived''
      ''the card went out alongside the withdrawal'' ActorSystem d1 = Inr d'"
    by (auto simp: reviveWithdrawnSatellitesTx_def Let_def)
  have "quiet_step d d1"
  proof (rule update_intents_quiet [OF assms(1) d1(1)])
    fix r assume "r \<in> set (dbIntents d)" "revives p d r" "intent_checks (revived_row now d r)"
    with sound_checks [OF assms(1)] show "row_step r (revived_row now d r)"
      by (intro idle_step) (auto simp: revives_def)
  qed simp
  with append_events_quiet [OF quiet_step_sound d1(2)] show ?thesis
    by (auto intro: quiet_step_trans)
qed

text \<open>A decided transition that opens nothing releases the row it is about.\<close>

lemma update_row_generation:
  "generation_step r (update_row now w a b c r)"
  by (simp add: generation_step_def)

lemma apply_steps:
  assumes "sound d" and "applyTransitionTx now w d = Inr d'"
    and "trTo (wTransition w) \<noteq> StatusSending"
  shows "sound d'" "dbAttempts d' = dbAttempts d"
    "rows_step (\<lambda>r r'. if rID r = iID (wIntent w) then released r r' else row_step r r') d d'"
proof -
  obtain a b d1 d2 d3 where st: "receipt_waits w = Inr (a, b)"
    "update_intents (\<lambda>r. rID r = iID (wIntent w)) (update_row now w a b (retry_delay w)) d = Inr d1"
    "appendTransitionEventTx w d1 = Inr d2"
    "(if ConsumeCancellation (trEffects (wTransition w))
        \<and> trTo (wTransition w) \<noteq> StatusCanceled \<and> \<not> Satellite (wIntent w)
      then reviveWithdrawnSatellitesTx now (iID (wIntent w)) d2 else Inr d2) = Inr d3"
    "d' = (if GroupBound (wIntent w) then groupEffectsTx now (wIntent w) (wTransition w) d3 else d3)"
    by (rule apply_stages [OF assms(2)])
  note u = update_intents_steps [OF assms(1) st(2)]
  have s1: "sound d1" "dbAttempts d1 = dbAttempts d" by (simp_all add: u)
  have r1: "rows_step (\<lambda>r r'. if rID r = iID (wIntent w) then released r r' else row_step r r') d d1"
  proof (rule rows_step_mono [OF u(3)])
    fix r r' assume r: "r \<in> set (dbIntents d)"
      "r' = (if rID r = iID (wIntent w) then update_row now w a b (retry_delay w) r else r)"
    show "if rID r = iID (wIntent w) then released r r' else row_step r r'"
    proof (cases "rID r = iID (wIntent w)")
      case True
      with r update_intents_Inr(2) [OF st(2)] have "intent_checks r'" by simp
      with True r assms(3) have "rCurrentAttempt r' = None" by (intro idle_row) simp_all
      with True r(2) show ?thesis by (simp add: released_def update_row_generation)
    qed (use r in simp)
  qed simp_all
  have q2: "quiet_step d1 d2"
    using appendTransitionEvent_frame [OF st(3)] s1(1) by (blast intro: quiet_same_rows)
  have q3: "quiet_step d2 d3"
    using st(4) reviveWithdrawn_quiet [OF quiet_step_sound [OF q2]]
      quiet_step_refl [OF quiet_step_sound [OF q2]] by (auto split: if_splits)
  have q4: "quiet_step d3 d'"
    using st(5) quiet_same_rows [OF quiet_step_sound [OF q3] groupEffects_frame]
      quiet_step_refl [OF quiet_step_sound [OF q3]] by simp
  have q: "quiet_step d1 d'" using q2 q3 q4 by (blast intro: quiet_step_trans)
  show "sound d'" "dbAttempts d' = dbAttempts d" using q s1 by (simp_all add: quiet_step_def)
  have "rows_step row_step d1 d'" using q by (simp add: quiet_step_def)
  then show "rows_step (\<lambda>r r'. if rID r = iID (wIntent w) then released r r' else row_step r r') d d'"
    by (rule rows_step_compose [OF r1])
      (auto simp: released_def row_step_def intro: generation_step_trans split: if_splits)
qed

lemma apply_quiet:
  assumes "sound d" and "applyTransitionTx now w d = Inr d'"
    and "trTo (wTransition w) \<noteq> StatusSending"
    and "\<And>r. r \<in> set (dbIntents d) \<Longrightarrow> rID r = iID (wIntent w) \<Longrightarrow> rCurrentAttempt r = None"
  shows "quiet_step d d'"
proof -
  note s = apply_steps [OF assms(1-3)]
  have "rows_step row_step d d'"
    by (rule rows_step_mono [OF s(3)]) (use assms(4) released_idle in \<open>auto split: if_splits\<close>)
  with s(1,2) show ?thesis by (simp add: quiet_step_def)
qed

lemma row_by_id:
  assumes "sound d" "intent_row i d = Some r" "q \<in> set (dbIntents d)" "rID q = i"
  shows "q = r"
  using sound_intent_row [OF assms(1,3)] assms(2,4) by simp

end
