(* ===== verification/Waits.thy ===== *)
theory Waits
  imports Content
begin

text \<open>
  The store's half of a channel whose acceptance only means "queued":
  \<open>internal/store/outbound_receipt_store.go\<close>.  An acceptance records the object the attempt
  made, a provider's event folds into that object, and either of them, or the wait running
  out, asks the same question of the same facts (\<open>reviewReceiptTx\<close>).
\<close>

section \<open>A question with nothing answered yet\<close>

text \<open>\<open>outbound.Input{Intent: i, Trigger: tr}\<close>: every other field is the zero of its type.\<close>

definition asks :: "trigger \<Rightarrow> intent \<Rightarrow> input" where
  "asks tr i = \<lparr>inIntent = i, inTrigger = tr, inPreparation = PreparationOther [],
     inOutcome = OutcomeOther [], inAttemptRevision = None, inAttemptIsFinal = False,
     inExpired = False, inVerdict = VerdictOther [], inDoubtInGeneration = False,
     inDecision = DecisionOther [], inLastAttemptKind = AttemptKindOther [],
     inAmbiguousInGeneration = False, inAcceptedDuplicateRisk = False,
     inResourceLossConfirmed = False, inNewExpiryProvided = False\<rparr>"

definition decides :: "input \<Rightarrow> store_error + transition" where
  "decides x = (case Decide x of Inl e \<Rightarrow> Inl (MachineRefused e) | Inr t \<Rightarrow> Inr t)"

text \<open>The write every door starts from: nothing applied, nothing stored.\<close>

definition writing :: "intent \<Rightarrow> transition \<Rightarrow> actor \<Rightarrow> transition_write" where
  "writing i t actor = \<lparr>wIntent = i, wTransition = t, wBackoff = 0, wAppliedRevision = None,
     wReceiptRef = [], wAttemptIsFinal = False, wReceipt = [], wNewExpires = None,
     wActor = actor, wReason = []\<rparr>"

section \<open>The objects\<close>

definition recordAcceptedEffectTx ::
    "intent \<Rightarrow> string \<Rightarrow> string \<Rightarrow> db \<Rightarrow> store_error + db" where
  "recordAcceptedEffectTx i attemptID externalRef d =
     (if externalRef = [] then Inl (AcceptedWithoutObject attemptID)
      else if list_ex (\<lambda>f. eAttemptID (fEffect f) = attemptID) (dbEffects d) then Inr d
      else Inr (d\<lparr>dbEffects := dbEffects d @ [\<lparr>fIntentID = iID i,
        fEffect = \<lparr>eAttemptID = attemptID, eGeneration = iGenerationNo i,
          eExternalRef = externalRef, eState = EffectInProgress, eLastSequence = None\<rparr>,
        fProviderStatus = ''accepted''\<rparr>]\<rparr>))"

text \<open>An attempt that ended in doubt, or with its lease, and named no object.\<close>

definition nobody_named :: "intent \<Rightarrow> db \<Rightarrow> attempt \<Rightarrow> bool" where
  "nobody_named i d t \<longleftrightarrow> tIntentID t = iID i \<and> tGenerationNo t = iGenerationNo i
     \<and> tRecordKind t = RecordAttempt \<and> tFinishedAt t \<noteq> None
     \<and> (tOutcome t = Some OutcomeAmbiguous \<or> tFinishReason t = Some ''lease_lost'')
     \<and> \<not> list_ex (\<lambda>f. eAttemptID (fEffect f) = tID t) (dbEffects d)"

text \<open>The caller holds the commitment's row, so its deadline is there to be read.\<close>

definition generationFactsTx :: "int \<Rightarrow> db \<Rightarrow> intent \<Rightarrow> generation_facts" where
  "generationFactsTx now d i =
     \<lparr>gfEffects = sort_key eAttemptID
        (map fEffect (filter (\<lambda>f. fIntentID f = iID i) (dbEffects d))),
      gfGeneration = iGenerationNo i, gfAttemptOpen = (iStatus i = StatusSending),
      gfUnaccounted = int (length (filter (nobody_named i d) (dbAttempts d))),
      gfDeadlinePassed = (case intent_row (iID i) d of None \<Rightarrow> False
        | Some r \<Rightarrow> passed now (rReceiptDeadline r))\<rparr>"

definition verdictOf :: "generation_facts \<Rightarrow> store_error + verdict" where
  "verdictOf facts =
     (case GenerationVerdict facts of Inl e \<Rightarrow> Inl (UnknownEffect e) | Inr v \<Rightarrow> Inr v)"

section \<open>The question\<close>

text \<open>What leaves a commitment exactly where it was.\<close>

definition leaves_alone :: "intent \<Rightarrow> generation_facts \<Rightarrow> verdict \<Rightarrow> bool \<Rightarrow> bool" where
  "leaves_alone i facts verdict polled \<longleftrightarrow>
     iStatus i = StatusPending \<and>
       (case verdict of VerdictHappened \<Rightarrow> False | VerdictNotPlaced \<Rightarrow> False
        | VerdictStillGoing \<Rightarrow> \<not> hasKnownLiveEffect facts | _ \<Rightarrow> True)
     \<or> iStatus i = StatusAwaitingReceipt \<and> verdict = VerdictStillGoing \<and> \<not> polled"

fun verdict_word :: "verdict \<Rightarrow> string" where
  "verdict_word VerdictHappened = ''happened''"
| "verdict_word VerdictNotPlaced = ''not_placed''"
| "verdict_word VerdictUnknown = ''unknown''"
| "verdict_word VerdictStillGoing = ''still_going''"
| "verdict_word (VerdictOther s) = s"

definition verdict_receipt ::
    "decoders \<Rightarrow> intent \<Rightarrow> generation_facts \<Rightarrow> verdict \<Rightarrow> transition \<Rightarrow> string \<times> string" where
  "verdict_receipt dc i facts verdict t =
     (if StoreReceipt (trEffects t) \<and> \<not> iHasReceipt i
      then (case receiptEffect facts verdict of None \<Rightarrow> ([], [])
        | Some e \<Rightarrow> (dcJSON dc [(''external_ref'', eExternalRef e)], eExternalRef e))
      else ([], []))"

definition reviewReceiptTx ::
    "decoders \<Rightarrow> int \<Rightarrow> intent \<Rightarrow> bool \<Rightarrow> db \<Rightarrow> store_error + transition option \<times> db" where
  "reviewReceiptTx dc now i polled d =
     (if iCompletionMode i \<noteq> CompletionOnProviderReceipt
         \<or> iStatus i \<notin> {StatusAwaitingReceipt, StatusPending} then Inr (None, d)
      else let facts = generationFactsTx now d i in
        then_ok (verdictOf facts) (\<lambda>verdict.
          if leaves_alone i facts verdict polled then Inr (None, d)
          else then_ok (decides ((asks TriggerVerdict i)\<lparr>inVerdict := verdict\<rparr>)) (\<lambda>t.
            let (receipt, ref) = verdict_receipt dc i facts verdict t in
            then_ok (applyTransitionTx now ((writing i t ActorWorker)\<lparr>wReceipt := receipt,
                wReceiptRef := ref,
                wReason := ''the provider's word: '' @ verdict_word verdict\<rparr>) d)
              (\<lambda>d'. Inr (Some t, d')))))"

text \<open>A call already known to have taken place ends the commitment as settled.\<close>

definition dischargedByEarlierCallTx ::
    "int \<Rightarrow> intent \<Rightarrow> db \<Rightarrow> store_error + transition option" where
  "dischargedByEarlierCallTx now i d =
     (if iCompletionMode i \<noteq> CompletionOnProviderReceipt \<or> iForm i \<noteq> FormOneShot then Inr None
      else then_ok (verdictOf (generationFactsTx now d i)) (\<lambda>verdict.
        if verdict \<noteq> VerdictHappened then Inr None
        else then_ok (decides ((asks TriggerVerdict i)\<lparr>inVerdict := VerdictHappened\<rparr>))
               (\<lambda>t. Inr (Some t))))"

section \<open>The inbox\<close>

text \<open>
  \<open>RecordProviderEvent\<close>: an event already kept answers with the stored row.  The new row's
  id is drawn by the caller; the zero time is no time.
\<close>

record provider_event =
  pvProvider :: string
  pvAccountScope :: string
  pvEventID :: string
  pvAttemptID :: string
  pvExternalRef :: string
  pvSequence :: "int option"
  pvProviderStatus :: string
  pvOccurredAt :: "int option"
  pvSummary :: string

definition RecordProviderEvent ::
    "string \<Rightarrow> provider_event \<Rightarrow> db \<Rightarrow> store_error + string \<times> db" where
  "RecordProviderEvent fresh e d =
     (if pvProvider e = [] \<or> pvEventID e = [] \<or> pvProviderStatus e = []
      then Inl (Contract ''a provider event with no provider, id or status'')
      else case find (\<lambda>k. kvProvider k = pvProvider e \<and> kvAccountScope k = pvAccountScope e
              \<and> kvEventID k = pvEventID e) (dbInbox d) of
        Some k \<Rightarrow> Inr (kvID k, d)
      | None \<Rightarrow> Inr (fresh, d\<lparr>dbInbox := dbInbox d @ [\<lparr>kvID = fresh, kvProvider = pvProvider e,
          kvAccountScope = pvAccountScope e, kvEventID = pvEventID e,
          kvAttemptID = nullable (pvAttemptID e), kvExternalRef = nullable (pvExternalRef e),
          kvSequence = pvSequence e, kvProviderStatus = pvProviderStatus e,
          kvSummary = nullable (pvSummary e), kvOccurredAt = pvOccurredAt e,
          kvState = ApplyUnmatched\<rparr>]\<rparr>))"

definition readKeptEvent :: "string \<Rightarrow> db \<Rightarrow> store_error + provider_event \<times> apply_outcome" where
  "readKeptEvent k d =
     (case find (\<lambda>e. kvID e = k) (dbInbox d) of None \<Rightarrow> Inl (Contract ''no kept event'')
      | Some e \<Rightarrow> Inr (\<lparr>pvProvider = kvProvider e, pvAccountScope = kvAccountScope e,
          pvEventID = kvEventID e, pvAttemptID = text_or_empty (kvAttemptID e),
          pvExternalRef = text_or_empty (kvExternalRef e), pvSequence = kvSequence e,
          pvProviderStatus = kvProviderStatus e, pvOccurredAt = kvOccurredAt e,
          pvSummary = text_or_empty (kvSummary e)\<rparr>, kvState e))"

text \<open>\<open>foldEventTx\<close>: the object a statement inserts or, on conflict, moves.\<close>

definition moved_effect :: "effect \<Rightarrow> string \<Rightarrow> effect_row \<Rightarrow> effect_row" where
  "moved_effect folded status f = f\<lparr>fEffect := (fEffect f)\<lparr>eState := eState folded,
     eLastSequence := eLastSequence folded\<rparr>, fProviderStatus := status\<rparr>"

definition foldEventTx ::
    "intent \<Rightarrow> provider_event \<Rightarrow> effect_state \<Rightarrow> string \<Rightarrow> db \<Rightarrow> store_error + db" where
  "foldEventTx i event next class d =
     (let status = (if class = [] then pvProviderStatus event else class) in
      case find (\<lambda>f. eAttemptID (fEffect f) = pvAttemptID event) (dbEffects d) of
        Some f \<Rightarrow>
          if eExternalRef (fEffect f) \<noteq> pvExternalRef event
          then Inl (Contract ''an event names another object than the attempt made'')
          else let (folded, changed) = FoldEffect (fEffect f) next (pvSequence event) in
            if \<not> changed then Inr d
            else Inr (d\<lparr>dbEffects := map (\<lambda>g. if eAttemptID (fEffect g) = pvAttemptID event
              then moved_effect folded status g else g) (dbEffects d)\<rparr>)
      | None \<Rightarrow>
          case attempt_row (pvAttemptID event) d of
            None \<Rightarrow> Inl (Contract ''read the generation of the attempt'')
          | Some t \<Rightarrow>
              let (folded, changed) = FoldEffect \<lparr>eAttemptID = pvAttemptID event,
                    eGeneration = tGenerationNo t, eExternalRef = pvExternalRef event,
                    eState = EffectInProgress, eLastSequence = None\<rparr> next (pvSequence event)
              in Inr (d\<lparr>dbEffects := dbEffects d @
                [\<lparr>fIntentID = iID i, fEffect = folded, fProviderStatus = status\<rparr>]\<rparr>))"

type_synonym translator = "provider_event \<Rightarrow> effect_state \<times> string \<times> bool"

record apply_result =
  apOutcome :: apply_outcome
  apIntentID :: string
  apTo :: "status option"
  apRow :: string

definition nothing_applied :: "apply_outcome \<Rightarrow> apply_result" where
  "nothing_applied o' = \<lparr>apOutcome = o', apIntentID = [], apTo = None, apRow = []\<rparr>"

definition mark_event :: "string \<Rightarrow> apply_outcome \<Rightarrow> db \<Rightarrow> db" where
  "mark_event k o' d = d\<lparr>dbInbox :=
     map (\<lambda>e. if kvID e = k then e\<lparr>kvState := o'\<rparr> else e) (dbInbox d)\<rparr>"

text \<open>What is done to the object, and to the commitment once it is done.\<close>

definition applyToObject ::
    "translator \<Rightarrow> intent \<Rightarrow> provider_event \<Rightarrow> db \<Rightarrow> store_error + apply_outcome \<times> db" where
  "applyToObject translate i event d =
     (let (next, class, known) = translate event in
      if \<not> known \<or> \<not> EffectKnown next then Inr (ApplyIgnored, d)
      else then_ok (foldEventTx i event next class d) (\<lambda>d'. Inr (ApplyApplied, d')))"

definition applyToCommitment ::
    "decoders \<Rightarrow> int \<Rightarrow> intent \<Rightarrow> apply_outcome \<Rightarrow> db \<Rightarrow> store_error + apply_result \<times> db" where
  "applyToCommitment dc now i outcome d =
     (if Terminal (iStatus i) then
        Inr ((nothing_applied ApplyIgnored)\<lparr>apIntentID := iID i\<rparr>, d)
      else if outcome = ApplyApplied then
        then_ok (reviewReceiptTx dc now i False d) (\<lambda>(moved, d').
          Inr ((nothing_applied outcome)\<lparr>apIntentID := iID i, apTo := map_option trTo moved,
                 apRow := (case moved of None \<Rightarrow> [] | Some t \<Rightarrow> trRow t)\<rparr>, d'))
      else Inr ((nothing_applied outcome)\<lparr>apIntentID := iID i\<rparr>, d))"

definition ApplyProviderEvent ::
    "decoders \<Rightarrow> int \<Rightarrow> (string \<Rightarrow> translator option) \<Rightarrow> string \<Rightarrow> db
       \<Rightarrow> store_error + apply_result \<times> db" where
  "ApplyProviderEvent dc now translators k d =
     then_ok (readKeptEvent k d) (\<lambda>(event, state).
       if state \<noteq> ApplyUnmatched then Inr (nothing_applied ApplyAlreadyDone, d)
       else if pvAttemptID event = [] \<or> pvExternalRef event = []
       then Inr (nothing_applied ApplyUnmatched, d)
       else case Option.bind (attempt_row (pvAttemptID event) d) (\<lambda>t. intent_row (tIntentID t) d) of
         None \<Rightarrow> Inr (nothing_applied ApplyUnmatched, d)
       | Some r \<Rightarrow>
           let i = intent_of now r in
           case translators (iProvider i) of
             None \<Rightarrow> Inl (Contract ''nothing here reads that provider's events'')
           | Some translate \<Rightarrow>
               then_ok (applyToObject translate i event d) (\<lambda>(outcome, d1).
               then_ok (applyToCommitment dc now i outcome d1) (\<lambda>(result, d2).
                 Inr (result, mark_event k (apOutcome result) d2))))"

definition ReviewReceiptWait ::
    "decoders \<Rightarrow> int \<Rightarrow> string \<Rightarrow> db \<Rightarrow> store_error + apply_result option \<times> db" where
  "ReviewReceiptWait dc now intentID d =
     (case intent_row intentID d of None \<Rightarrow> Inr (None, d)
      | Some r \<Rightarrow>
          if rStatus r \<noteq> StatusAwaitingReceipt then Inr (None, d)
          else then_ok (reviewReceiptTx dc now (intent_of now r) True d) (\<lambda>(moved, d').
            Inr (Some ((nothing_applied ApplyApplied)\<lparr>apIntentID := intentID,
              apTo := map_option trTo moved,
              apRow := (case moved of None \<Rightarrow> [] | Some t \<Rightarrow> trRow t)\<rparr>), d')))"

text \<open>What one attempt was bound to, for whatever has to speak to that account afterwards.\<close>

definition AttemptBinding :: "decoders \<Rightarrow> db \<Rightarrow> string \<Rightarrow> store_error + bound_context option" where
  "AttemptBinding dc d attemptID =
     (case find (\<lambda>t. tID t = attemptID \<and> tRecordKind t = RecordAttempt) (dbAttempts d) of
        None \<Rightarrow> Inr None
      | Some t \<Rightarrow> (case DecodeBoundContext dc (text_or_empty (tBoundContext t)) of
          None \<Rightarrow> Inl (Contract ''the bound context cannot be read'') | Some c \<Rightarrow> Inr (Some c)))"

end
