(* ===== verification/Stop.thy ===== *)
theory Stop
  imports Content
begin

text \<open>
  A step that failed for good and stops its escalation
  (\<open>internal/store/outbound_stop_store.go\<close>), and the satellites of a card as the begin and
  the operator find them (\<open>internal/store/outbound_satellite_store.go\<close>).
\<close>

section \<open>Which failure stops the escalation\<close>

text \<open>\<open>dcEscalationStop\<close> is the payload's own step and flag, and None when it cannot be read.\<close>

definition stopsEscalation :: "decoders \<Rightarrow> intent \<Rightarrow> slot option" where
  "stopsEscalation dc i =
     (if iKeyKind i \<noteq> KindEscalation \<and> iKeyKind i \<noteq> KindEscalationReplay then None
      else if Satellite i \<or> iAlertGroupID i = [] then None
      else case dcEscalationStop dc (iPayloadSchemaVersion i) (iPayload i) of
        None \<Rightarrow> None
      | Some (s, stop) \<Rightarrow> if \<not> stop \<or> slKind s \<noteq> SlotPolicy then None else Some s)"

section \<open>Withdrawing what comes after\<close>

text \<open>The condition the three updates share, with the withdrawal's own predicate.\<close>

definition notFollowingASentCard :: "db \<Rightarrow> row \<Rightarrow> bool" where
  "notFollowingASentCard d r \<longleftrightarrow> (case rParentID r of None \<Rightarrow> True
     | Some p \<Rightarrow> \<not> list_ex (\<lambda>c. rID c = p \<and> rReceiptRecorded c) (dbIntents d))"

definition later_step :: "decoders \<Rightarrow> string \<Rightarrow> int \<Rightarrow> row \<Rightarrow> bool" where
  "later_step dc batchID after r \<longleftrightarrow> rBatchID r = batchID \<and> \<not> rReceiptRecorded r
     \<and> (case dcPayloadSlot dc (rPayload r) of None \<Rightarrow> False
        | Some s \<Rightarrow> slKind s = SlotPolicy \<and> slIndex s > after)"

definition stop_picks :: "decoders \<Rightarrow> string \<Rightarrow> int \<Rightarrow> status \<Rightarrow> db \<Rightarrow> row \<Rightarrow> bool" where
  "stop_picks dc batchID after s d r \<longleftrightarrow>
     later_step dc batchID after r \<and> rStatus r = s \<and> notFollowingASentCard d r"

definition canceled_row :: "int \<Rightarrow> row \<Rightarrow> row" where
  "canceled_row now r = r\<lparr>rStatus := StatusCanceled, rLeaseToken := None, rLockedUntil := None,
     rWorkerID := None, rUpdatedAt := now\<rparr>"

definition asked_to_stop :: "int \<Rightarrow> row \<Rightarrow> row" where
  "asked_to_stop now r = r\<lparr>rCancellationRequested := True, rUpdatedAt := now\<rparr>"

definition review_canceled :: "int \<Rightarrow> row \<Rightarrow> row" where
  "review_canceled now r = r\<lparr>rStatus := StatusCanceled, rUpdatedAt := now\<rparr>"

text \<open>\<open>stopRowsTx\<close>: an update that returns the rows it took.\<close>

definition stopRowsTx ::
    "(row \<Rightarrow> bool) \<Rightarrow> (row \<Rightarrow> row) \<Rightarrow> db \<Rightarrow> store_error + string list \<times> db" where
  "stopRowsTx p f d = then_ok (update_intents p f d)
     (\<lambda>d'. Inr (map rID (filter p (dbIntents d)), d'))"

definition stop_line :: "int \<Rightarrow> string \<Rightarrow> int \<Rightarrow> db \<Rightarrow> db" where
  "stop_line now g step d = addTimelineTx (now + 1000) g TimelineEventNotificationFailed
     (''Escalation stopped: step '' @ itoa step @ '' failed and the policy does not continue'')
     ''worker'' d"

definition stopEscalationTx ::
    "decoders \<Rightarrow> int \<Rightarrow> intent \<Rightarrow> slot \<Rightarrow> db \<Rightarrow> store_error + int \<times> db" where
  "stopEscalationTx dc now failed step d =
     (let b = iBatchID failed; n = slIndex step;
          reason = ''step '' @ itoa n @ '' failed and the policy stops there''
      in
      then_ok (stopRowsTx (stop_picks dc b n StatusPending d) (canceled_row now) d)
        (\<lambda>(notSent, d1).
      then_ok (stopRowsTx (stop_picks dc b n StatusSending d1) (asked_to_stop now) d1)
        (\<lambda>(inFlight, d2).
      then_ok (stopRowsTx (stop_picks dc b n StatusManualReview d2) (review_canceled now) d2)
        (\<lambda>(waiting, d3).
      then_ok (append_events notSent ''canceled'' reason ActorWorker d3) (\<lambda>d4.
      then_ok (append_events inFlight ''cancellation_requested'' reason ActorWorker d4) (\<lambda>d5.
      then_ok (append_events waiting ''canceled''
        (reason @ ''; the outcome of the previous attempt stays unknown'') ActorWorker d5) (\<lambda>d6.
        let pages = filter (\<lambda>r. rID r \<in> set (notSent @ inFlight @ waiting)
              \<and> rParentID r = None) (dbIntents d6);
            withdrawn = int (length notSent + length waiting)
        in Inr (withdrawn,
             if pages = [] then d6 else stop_line now (iAlertGroupID failed) n d6))))))))"

section \<open>A card and its satellites\<close>

definition parentStateTx :: "string \<Rightarrow> db \<Rightarrow> store_error + parent_state" where
  "parentStateTx parentID d =
     (case intent_row parentID d of
        None \<Rightarrow> Inl (Contract ''a satellite follows a commitment that is not there'')
      | Some p \<Rightarrow> Inr \<lparr>pID = rID p, pStatus = rStatus p, pReceiptRecorded = rReceiptRecorded p,
          pReceiptRef = text_or_empty (rReceiptRef p)\<rparr>)"

definition refusalIsStaleTx :: "string \<Rightarrow> db \<Rightarrow> store_error + bool" where
  "refusalIsStaleTx parentID d =
     then_ok (parentStateTx parentID d) (\<lambda>p. Inr (pReceiptRecorded p \<or> \<not> Ended p))"

text \<open>\<open>statement_timestamp()\<close> is the clock of the statement, not of the transaction.\<close>

definition released_row :: "int \<Rightarrow> int \<Rightarrow> row \<Rightarrow> row" where
  "released_row now clock r = r\<lparr>rLeaseToken := None, rLockedUntil := None, rWorkerID := None,
     rNextAttemptAt := clock, rUpdatedAt := now\<rparr>"

definition releaseForRetryTx :: "int \<Rightarrow> int \<Rightarrow> string \<Rightarrow> db \<Rightarrow> store_error + db" where
  "releaseForRetryTx now clock i d =
     update_intents (\<lambda>r. rID r = i) (released_row now clock) d"

text \<open>
  \<open>reviveSatellitesTx\<close>: the satellites whose last journal record says their card had ended
  without a message.
\<close>

definition ParentEndedWithoutMessage :: string where
  "ParentEndedWithoutMessage = ''parent_ended_without_message''"

definition last_error_class :: "db \<Rightarrow> row \<Rightarrow> string option" where
  "last_error_class d r =
     (case rev (sort_key tAttemptNo (filter (\<lambda>t. tIntentID t = rID r) (dbAttempts d))) of
        [] \<Rightarrow> None | t # rest \<Rightarrow> tErrorClass t)"

definition refused_satellite :: "string \<Rightarrow> db \<Rightarrow> row \<Rightarrow> bool" where
  "refused_satellite parentID d r \<longleftrightarrow> rParentID r = Some parentID
     \<and> rStatus r = StatusPermanentFailed
     \<and> last_error_class d r = Some ParentEndedWithoutMessage"

definition requeued_row :: "int \<Rightarrow> row \<Rightarrow> row" where
  "requeued_row now r = r\<lparr>rStatus := StatusPending, rNextAttemptAt := now, rLeaseToken := None,
     rLockedUntil := None, rWorkerID := None, rUpdatedAt := now\<rparr>"

definition reviveSatellitesTx ::
    "int \<Rightarrow> string \<Rightarrow> actor \<Rightarrow> db \<Rightarrow> store_error + int \<times> db" where
  "reviveSatellitesTx now parentID by' d =
     then_ok (stopRowsTx (refused_satellite parentID d) (requeued_row now) d) (\<lambda>(revived, d1).
     then_ok (append_events revived ''revived'' ''the card was retried'' by' d1) (\<lambda>d2.
       Inr (int (length revived), d2)))"

end
