(* ===== verification/Begin.thy ===== *)
theory Begin
  imports Waits Stop
begin

text \<open>
  Opening one attempt, or recording why none was made: \<open>BeginAttempt\<close> of
  \<open>internal/store/outbound_worker_store.go\<close> and the functions it is made of.

  A transaction is a function of the tables into an error, which rolls it back, or a result
  with the tables it commits.  \<open>now\<close> is the transaction's clock, \<open>clock\<close> the statement's, and
  \<open>fresh\<close> the id drawn for the journal record.
\<close>

section \<open>What a call has to be\<close>

type_synonym planned_attempt = "attempt_kind \<times> operation"

definition creation :: "intent \<Rightarrow> store_error + planned_attempt" where
  "creation i = (case CreateOperationOf (iKeyKind i) of Inl e \<Rightarrow> Inl (ContractKind e)
     | Inr operation \<Rightarrow> Inr (AttemptCreate, operation))"

definition planAttempt :: "intent \<Rightarrow> attempt_content \<Rightarrow> store_error + planned_attempt" where
  "planAttempt i c =
     (if \<not> iHasReceipt i then creation i
      else if iForm i \<noteq> FormEditable then Inl (OneShotHasMessage (iID i))
      else Inr (AttemptMutation, if content_final c then OperationResolve else OperationUpdate))"

definition refusalShape :: "intent \<Rightarrow> store_error + planned_attempt" where
  "refusalShape i =
     (if \<not> iHasReceipt i then creation i
      else if iForm i \<noteq> FormEditable then Inl (OneShotHasMessage (iID i))
      else Inr (AttemptMutation, OperationUpdate))"

definition beginEffectsUnderstood :: "effects \<Rightarrow> store_error + unit" where
  "beginEffectsUnderstood e =
     (if e\<lparr>OpenGeneration := False\<rparr> \<noteq> no_effects
      then Inl (EffectsNotUnderstood (e\<lparr>OpenGeneration := False\<rparr>)) else Inr ())"

section \<open>The address and the key of a generation\<close>

record bound_effect =
  beEndpoint :: string
  beProviderKey :: string
  beContext :: string

definition bound_row :: "string \<Rightarrow> string \<Rightarrow> string \<Rightarrow> row \<Rightarrow> row" where
  "bound_row endpoint key context r = r\<lparr>rBoundEndpoint := Some endpoint,
     rCreateKey := Some key, rBoundContext := nullable context\<rparr>"

definition bindGenerationTx ::
    "decoders \<Rightarrow> intent \<Rightarrow> string \<Rightarrow> bool \<Rightarrow> string \<Rightarrow> db \<Rightarrow> store_error + bound_effect \<times> db" where
  "bindGenerationTx dc i proposed opens context d =
     (if opens then
        if proposed = [] then Inl (NoAddressToOpen (iID i))
        else case CreateKey (dcSha dc) (iID i) (iGenerationNo i) (iProviderKeyCodecVersion i) of
          Inl e \<Rightarrow> Inl (KeyRefused e)
        | Inr key \<Rightarrow>
            then_ok (update_intents (\<lambda>r. rID r = iID i) (bound_row proposed key context) d)
              (\<lambda>d'. Inr (\<lparr>beEndpoint = proposed, beProviderKey = key, beContext = context\<rparr>, d'))
      else case intent_row (iID i) d of
        None \<Rightarrow> Inl (Contract ''the commitment is gone'')
      | Some r \<Rightarrow> (case rCreateKey r of
          None \<Rightarrow> Inl (Undeliverable ''a bound effect with no address or no key'')
        | Some key \<Rightarrow>
            if text_or_empty (rBoundEndpoint r) = []
            then Inl (Undeliverable ''a bound effect with no address or no key'')
            else Inr (\<lparr>beEndpoint = text_or_empty (rBoundEndpoint r), beProviderKey = key,
              beContext = text_or_empty (rBoundContext r)\<rparr>, d)))"

section \<open>A call that was not made\<close>

record begin_request =
  bqIntentID :: string
  bqLeaseToken :: string
  bqWorkerID :: string
  bqPreparation :: preparation_outcome
  bqBoundEndpoint :: string
  bqBoundContext :: bound_context
  bqErrorClass :: string
  bqSummary :: string

text \<open>What a started call is told.  How long it took to start is measured, not modelled.\<close>

record started_call =
  scAttemptID :: string
  scAttemptNo :: int
  scGenerationNo :: int
  scKind :: attempt_kind
  scOperation :: operation
  scEndpoint :: string
  scProviderKey :: string
  scContext :: bound_context
  scReceipt :: string
  scReceiptRef :: string
  scContent :: attempt_content
  scPayload :: string
  scPayloadSchemaVersion :: int
  scFingerprintVersion :: int
  scIntent :: intent

datatype begin_result =
    BeginStarted started_call
  | BeginPreparedPermanent string int
  | BeginPreparedRetry string int
  | BeginLeaseLost | BeginIntentFinalized | BeginUncertain string | BeginNotFound

definition preparation_record ::
    "int \<Rightarrow> string \<Rightarrow> begin_request \<Rightarrow> intent \<Rightarrow> planned_attempt \<Rightarrow> int \<Rightarrow> attempt" where
  "preparation_record now fresh req i plan n =
     \<lparr>tID = fresh, tIntentID = bqIntentID req, tAttemptNo = n, tRecordKind = RecordPreparation,
      tGenerationNo = iGenerationNo i, tAttemptKind = fst plan, tOperation = snd plan,
      tAppliedRevision = None, tProvider = iProvider i, tBoundEndpoint = None,
      tProviderKey = None, tLeaseToken = None, tWorkerID = nullable (bqWorkerID req),
      tStartedAt = None, tFinishedAt = Some now,
      tOutcome = Some (if bqPreparation req = PreparationTransient
        then OutcomeRetryableRejection else OutcomePermanentRejection),
      tErrorClass = nullable (bqErrorClass req), tProviderStatus = None, tReceipt = None,
      tReceiptRecorded = False, tReceiptRedactedAt = None, tSummary = nullable (bqSummary req),
      tFinishReason = Some ''preparation'', tDetail = None, tFingerprint = None,
      tFingerprintVersion = None, tBoundContext = None\<rparr>"

definition counted_row :: "row \<Rightarrow> row" where
  "counted_row r = r\<lparr>rAttemptsInGeneration := rAttemptsInGeneration r + 1\<rparr>"

definition backoff_of :: "decoders \<Rightarrow> intent \<Rightarrow> store_error + int" where
  "backoff_of dc i =
     (case BackoffFor (dcRounding dc) (iFamily i) (iFailureStreak i + 1) (dcFraction dc) of
        Inl f \<Rightarrow> Inl (UnknownFamily f) | Inr b \<Rightarrow> Inr b)"

definition recordPreparation ::
    "decoders \<Rightarrow> int \<Rightarrow> string \<Rightarrow> begin_request \<Rightarrow> intent \<Rightarrow> planned_attempt \<Rightarrow> slot option
       \<Rightarrow> db \<Rightarrow> store_error + begin_result \<times> db" where
  "recordPreparation dc now fresh req i plan stop d =
     then_ok (decides ((asks TriggerPreparation i)\<lparr>inPreparation := bqPreparation req\<rparr>)) (\<lambda>t.
     let n = nextAttemptNoTx (bqIntentID req) d in
     then_ok (insert_attempt (preparation_record now fresh req i plan n) d) (\<lambda>d1.
     then_ok (update_intents (\<lambda>r. rID r = bqIntentID req) counted_row d1) (\<lambda>d2.
     then_ok (backoff_of dc i) (\<lambda>backoff.
     then_ok (applyTransitionTx now ((writing i t ActorWorker)\<lparr>wBackoff := backoff,
         wReason := bqErrorClass req\<rparr>) d2) (\<lambda>d3.
     then_ok (case stop of None \<Rightarrow> Inr (0, d3)
       | Some step \<Rightarrow> if trTo t = StatusPermanentFailed then stopEscalationTx dc now i step d3
                      else Inr (0, d3)) (\<lambda>(withdrawn, d4).
     Inr (if bqPreparation req = PreparationPermanent then BeginPreparedPermanent fresh n
          else BeginPreparedRetry fresh n, d4)))))))"

definition refuseAttempt ::
    "decoders \<Rightarrow> int \<Rightarrow> string \<Rightarrow> begin_request \<Rightarrow> intent \<Rightarrow> planned_attempt \<Rightarrow> string \<Rightarrow> string
       \<Rightarrow> db \<Rightarrow> store_error + begin_result \<times> db" where
  "refuseAttempt dc now fresh req i plan class detail d =
     recordPreparation dc now fresh (req\<lparr>bqPreparation := PreparationPermanent,
       bqErrorClass := class, bqSummary := detail\<rparr>) i plan None d"

section \<open>A call that may be made\<close>

definition attempt_record ::
    "int \<Rightarrow> string \<Rightarrow> begin_request \<Rightarrow> intent \<Rightarrow> planned_attempt \<Rightarrow> attempt_content
       \<Rightarrow> bound_effect \<Rightarrow> string \<Rightarrow> int \<Rightarrow> attempt" where
  "attempt_record now fresh req i plan c effect key n =
     \<lparr>tID = fresh, tIntentID = bqIntentID req, tAttemptNo = n, tRecordKind = RecordAttempt,
      tGenerationNo = iGenerationNo i, tAttemptKind = fst plan, tOperation = snd plan,
      tAppliedRevision = content_revision c, tProvider = iProvider i,
      tBoundEndpoint = Some (beEndpoint effect), tProviderKey = Some key,
      tLeaseToken = Some (bqLeaseToken req), tWorkerID = nullable (bqWorkerID req),
      tStartedAt = Some now, tFinishedAt = None, tOutcome = None, tErrorClass = None,
      tProviderStatus = None, tReceipt = None, tReceiptRecorded = False,
      tReceiptRedactedAt = None, tSummary = None, tFinishReason = None, tDetail = None,
      tFingerprint = None, tFingerprintVersion = Some CompletionFingerprintV1,
      tBoundContext = nullable (beContext effect)\<rparr>"

definition sending_row :: "int \<Rightarrow> string \<Rightarrow> row \<Rightarrow> row" where
  "sending_row now attemptID r = r\<lparr>rStatus := StatusSending, rCurrentAttempt := Some attemptID,
     rAttemptsInGeneration := rAttemptsInGeneration r + 1, rUpdatedAt := now\<rparr>"

definition startAttempt ::
    "decoders \<Rightarrow> int \<Rightarrow> string \<Rightarrow> begin_request \<Rightarrow> row \<Rightarrow> intent \<Rightarrow> planned_attempt \<Rightarrow> attempt_content
       \<Rightarrow> bound_effect \<Rightarrow> bound_context \<Rightarrow> string \<Rightarrow> bool \<Rightarrow> db
       \<Rightarrow> store_error + begin_result \<times> db" where
  "startAttempt dc now fresh req r i plan c effect bound key opens d =
     (let n = nextAttemptNoTx (bqIntentID req) d in
      then_ok (insert_attempt (attempt_record now fresh req i plan c effect key n) d) (\<lambda>d1.
      then_ok (update_intents (\<lambda>q. rID q = bqIntentID req) (sending_row now fresh) d1) (\<lambda>d2.
      then_ok (if opens then appendIntentEventDetailTx (bqIntentID req) ''effect_bound''
          ''the address and key of this generation are settled'' ActorWorker
          (dcJSON dc [(''worker_id'', bqWorkerID req)]) d2 else Inr d2) (\<lambda>d3.
      Inr (BeginStarted \<lparr>scAttemptID = fresh, scAttemptNo = n, scGenerationNo = iGenerationNo i,
        scKind = fst plan, scOperation = snd plan, scEndpoint = beEndpoint effect,
        scProviderKey = key, scContext = bound, scReceipt = text_or_empty (rReceipt r),
        scReceiptRef = text_or_empty (rReceiptRef r), scContent = c, scPayload = rPayload r,
        scPayloadSchemaVersion = iPayloadSchemaVersion i,
        scFingerprintVersion = CompletionFingerprintV1, scIntent = i\<rparr>, d3)))))"

text \<open>A create carries the generation's own key, a change one of its own.\<close>

definition call_key ::
    "decoders \<Rightarrow> intent \<Rightarrow> planned_attempt \<Rightarrow> attempt_content \<Rightarrow> bound_effect
       \<Rightarrow> store_error + string" where
  "call_key dc i plan c effect =
     (if fst plan \<noteq> AttemptMutation then Inr (beProviderKey effect)
      else case MutationKey (dcSha dc) (iID i) (snd plan)
          (case content_revision c of None \<Rightarrow> 0 | Some v \<Rightarrow> v) (iProviderKeyCodecVersion i) of
        Inl e \<Rightarrow> Inl (KeyRefused e) | Inr key \<Rightarrow> Inr key)"

definition opening_context ::
    "decoders \<Rightarrow> begin_request \<Rightarrow> intent \<Rightarrow> bool \<Rightarrow> db \<Rightarrow> store_error + string" where
  "opening_context dc req i opens d =
     (if \<not> opens then Inr []
      else if \<not> context_Empty (bqBoundContext req)
      then Inr (context_Encode dc (bqBoundContext req))
      else dmContextTx dc d i)"

text \<open>The effect is bound; what is left is to find it readable and to have something to change.\<close>

definition openBound ::
    "decoders \<Rightarrow> int \<Rightarrow> string \<Rightarrow> begin_request \<Rightarrow> row \<Rightarrow> intent \<Rightarrow> planned_attempt \<Rightarrow> attempt_content
       \<Rightarrow> bool \<Rightarrow> bound_effect \<Rightarrow> db \<Rightarrow> store_error + begin_result \<times> db" where
  "openBound dc now fresh req r i plan c opens effect d =
     (case DecodeBoundContext dc (beContext effect) of
        None \<Rightarrow> refuseAttempt dc now fresh req i plan ''bound_context_unreadable''
          ''the bound context cannot be read'' d
      | Some bound \<Rightarrow>
          then_ok (call_key dc i plan c effect) (\<lambda>key.
            if fst plan = AttemptMutation
               \<and> (rReceipt r = None \<or> text_or_empty (rReceiptRef r) = [])
            then refuseAttempt dc now fresh req i plan ''receipt_lost''
              ''the message this change is for has no coordinates any more'' d
            else startAttempt dc now fresh req r i plan c effect bound key opens d))"

definition openAttempt ::
    "decoders \<Rightarrow> int \<Rightarrow> string \<Rightarrow> begin_request \<Rightarrow> row \<Rightarrow> intent \<Rightarrow> attempt_content \<Rightarrow> db
       \<Rightarrow> store_error + begin_result \<times> db" where
  "openAttempt dc now fresh req r i c d =
     then_ok (planAttempt i c) (\<lambda>plan.
     then_ok (decides ((asks TriggerPreparation i)\<lparr>inPreparation := PreparationReady\<rparr>)) (\<lambda>t.
     then_ok (beginEffectsUnderstood (trEffects t)) (\<lambda>u.
     let opens = OpenGeneration (trEffects t) in
     then_ok (opening_context dc req i opens d) (\<lambda>context.
     case bindGenerationTx dc i (bqBoundEndpoint req) opens context d of
       Inl (Undeliverable detail) \<Rightarrow>
         refuseAttempt dc now fresh req i plan ''binding_lost'' detail d
     | Inl e \<Rightarrow> Inl e
     | Inr (effect, d1) \<Rightarrow> openBound dc now fresh req r i plan c opens effect d1))))"

section \<open>The transaction\<close>

text \<open>A row this build cannot read is an error; one nobody can is ended.\<close>

definition refuseUnreadable ::
    "decoders \<Rightarrow> int \<Rightarrow> string \<Rightarrow> begin_request \<Rightarrow> intent \<Rightarrow> store_error \<Rightarrow> db
       \<Rightarrow> store_error + begin_result \<times> db" where
  "refuseUnreadable dc now fresh req i e d =
     then_ok (refusalShape i) (\<lambda>shape. case e of
       Undeliverable detail \<Rightarrow> refuseAttempt dc now fresh req i shape ''state_unreadable'' detail d
     | _ \<Rightarrow> Inl e)"

definition beginHeld ::
    "decoders \<Rightarrow> int \<Rightarrow> int \<Rightarrow> string \<Rightarrow> begin_request \<Rightarrow> slot option \<Rightarrow> bool \<Rightarrow> row \<Rightarrow> db
       \<Rightarrow> store_error + begin_result \<times> db" where
  "beginHeld dc now clock fresh req stopping stale r d =
     (let i = intent_of now r in
      case executableHere dc i of
        Inl e \<Rightarrow> refuseUnreadable dc now fresh req i e d
      | Inr (form, digest) \<Rightarrow>
          if stale then then_ok (releaseForRetryTx now clock (bqIntentID req) d)
            (\<lambda>d'. Inr (BeginPreparedRetry [] 0, d'))
          else if bqPreparation req \<noteq> PreparationReady then
            then_ok (refusalShape i)
              (\<lambda>shape. recordPreparation dc now fresh req i shape stopping d)
          else case attemptContentTx dc d i form digest of
            Inl e \<Rightarrow> refuseUnreadable dc now fresh req i e d
          | Inr c \<Rightarrow> openAttempt dc now fresh req r i c d)"

definition lease_alive :: "int \<Rightarrow> row \<Rightarrow> bool" where
  "lease_alive now r = (case rLockedUntil r of None \<Rightarrow> False | Some t \<Rightarrow> now < t)"

definition begin_stopping :: "decoders \<Rightarrow> int \<Rightarrow> begin_request \<Rightarrow> db \<Rightarrow> slot option" where
  "begin_stopping dc now req d =
     (if bqPreparation req \<noteq> PreparationPermanent then None
      else case intent_row (bqIntentID req) d of None \<Rightarrow> None
      | Some r \<Rightarrow> stopsEscalation dc (intent_of now r))"

definition refusal_stale :: "begin_request \<Rightarrow> db \<Rightarrow> store_error + bool" where
  "refusal_stale req d =
     (if bqPreparation req \<noteq> PreparationPermanent
         \<or> bqErrorClass req \<noteq> ParentEndedWithoutMessage then Inr False
      else case Option.bind (intent_row (bqIntentID req) d) rParentID of None \<Rightarrow> Inr False
      | Some p \<Rightarrow> refusalIsStaleTx p d)"

definition BeginAttempt ::
    "decoders \<Rightarrow> int \<Rightarrow> int \<Rightarrow> string \<Rightarrow> begin_request \<Rightarrow> db
       \<Rightarrow> store_error + begin_result \<times> db" where
  "BeginAttempt dc now clock fresh req d =
     (let stopping = begin_stopping dc now req d in
      then_ok (refusal_stale req d) (\<lambda>stale.
      case intent_row (bqIntentID req) d of
        None \<Rightarrow> Inr (BeginNotFound, d)
      | Some r \<Rightarrow>
          if rStatus r = StatusSending \<and> text_or_empty (rLeaseToken r) = bqLeaseToken req
             \<and> rCurrentAttempt r \<noteq> None
          then Inr (BeginUncertain (text_or_empty (rCurrentAttempt r)), d)
          else if Terminal (rStatus r) \<or> rStatus r = StatusManualReview
          then Inr (BeginIntentFinalized, d)
          else if rStatus r \<noteq> StatusPending \<or> rLeaseToken r \<noteq> Some (bqLeaseToken req)
             \<or> \<not> lease_alive now r
          then Inr (BeginLeaseLost, d)
          else beginHeld dc now clock fresh req stopping stale r d))"

end
