(* ===== verification/Finish.thy ===== *)
theory Finish
  imports Begin
begin

text \<open>
  Closing one attempt: \<open>FinalizeDeliveryAttempt\<close>, with the late result it keeps
  (\<open>recordObservationTx\<close>), and the recovery of an attempt whose worker never came back
  (\<open>RecoverStaleAttempts\<close>), all of \<open>internal/store/outbound_worker_store.go\<close>.
\<close>

section \<open>What is said about the attempt\<close>

text \<open>\<open>FinalizeRequest\<close> with its conclusion taken apart; a receipt nobody brought is empty.\<close>

record finalize_request =
  fqAttemptID :: string
  fqLeaseToken :: string
  fqCompletion :: completion
  fqReceipt :: string
  fqSummary :: string

datatype finalize_result =
    FinalizeFinalized status string
  | FinalizeIdempotentRepeat | FinalizeConflict
  | FinalizeLeaseLost bool | FinalizeNotFound

definition DetailDefinitelyAbsent :: string where
  "DetailDefinitelyAbsent = ''definitely_absent''"

text \<open>What a caller has no standing to say, in the order the code asks.\<close>

definition detail_stands :: "attempt \<Rightarrow> completion \<Rightarrow> store_error + unit" where
  "detail_stands t c =
     (case cProviderResultDetail c of None \<Rightarrow> Inr ()
      | Some detail \<Rightarrow>
          if detail \<noteq> DetailDefinitelyAbsent \<or> tAttemptKind t \<noteq> AttemptMutation
             \<or> cOutcome c \<noteq> OutcomePermanentRejection
          then Inl (DetailMismatch (tID t) (tAttemptKind t) (cOutcome c) detail) else Inr ())"

definition creation_named :: "row \<Rightarrow> attempt \<Rightarrow> completion \<Rightarrow> string \<Rightarrow> store_error + unit" where
  "creation_named r t c receipt =
     (if tAttemptKind t = AttemptCreate \<and> (cReceiptRef c \<noteq> None) \<noteq> (receipt \<noteq> [])
      then Inl (NamesWithoutRecording (tID t))
      else if cOutcome c = OutcomeAccepted \<and> tAttemptKind t = AttemptCreate \<and> receipt = []
      then (case AcceptanceNamesObject (rKeyKind r) of
          Inl e \<Rightarrow> Inl (ContractKind e)
        | Inr names \<Rightarrow> if names then Inl (CreatedWithoutSaying (tID t)) else Inr ())
      else Inr ())"

definition result_stands :: "row \<Rightarrow> attempt \<Rightarrow> completion \<Rightarrow> string \<Rightarrow> store_error + unit" where
  "result_stands r t c receipt =
     (if cAppliedRevision c \<noteq> None then Inl (ResultNamesRevision (tID t))
      else then_ok (detail_stands t c) (\<lambda>u. creation_named r t c receipt))"

text \<open>The revision is the attempt's own.\<close>

definition completed :: "attempt \<Rightarrow> completion \<Rightarrow> completion" where
  "completed t c = c\<lparr>cAppliedRevision := coalesce (tAppliedRevision t) (cAppliedRevision c)\<rparr>"

definition fingerprint_of :: "decoders \<Rightarrow> completion \<Rightarrow> int \<Rightarrow> store_error + string" where
  "fingerprint_of dc c version =
     (case Fingerprint (dcSha dc) c version of Inl e \<Rightarrow> Inl (KeyRefused e) | Inr f \<Rightarrow> Inr f)"

definition version_of :: "attempt \<Rightarrow> int" where
  "version_of t = (case tFingerprintVersion t of None \<Rightarrow> 0 | Some v \<Rightarrow> v)"

section \<open>A late result\<close>

definition recordObservationTx ::
    "int \<Rightarrow> row \<Rightarrow> string \<Rightarrow> completion \<Rightarrow> string \<Rightarrow> string \<Rightarrow> string \<Rightarrow> int \<Rightarrow> db
       \<Rightarrow> store_error + bool \<times> db" where
  "recordObservationTx now r attemptID c receipt summary print version d =
     (case find (\<lambda>o'. oAttemptID o' = attemptID \<and> oKind o' = ''late_finalize'') (dbObservations d) of
        Some o' \<Rightarrow> if oFingerprint o' = print then Inr (True, d) else Inl (TwoLateResults attemptID)
      | None \<Rightarrow>
          let erased = rRecipientErasedAt r \<noteq> None;
              kept = \<lparr>oAttemptID = attemptID, oKind = ''late_finalize'', oOutcome = cOutcome c,
                oErrorClass = cErrorClass c, oProviderStatus = cProviderStatus c,
                oReceipt = (if erased then None else nullable receipt),
                oReceiptRecorded = (receipt \<noteq> []),
                oReceiptRedactedAt = (if receipt \<noteq> [] \<and> erased then Some now else None),
                oAppliedRevision = cAppliedRevision c, oDetail = cProviderResultDetail c,
                oSummary = (if erased then None else nullable summary),
                oFingerprint = print, oVersion = version\<rparr>
          in if \<not> observation_checks kept then Inl CheckViolated
             else Inr (True, d\<lparr>dbObservations := dbObservations d @ [kept]\<rparr>))"

definition alreadyFinished ::
    "int \<Rightarrow> row \<Rightarrow> attempt \<Rightarrow> completion \<Rightarrow> finalize_request \<Rightarrow> string \<Rightarrow> db
       \<Rightarrow> store_error + finalize_result \<times> db" where
  "alreadyFinished now r t c req print d =
     (if tFinishReason t = Some ''worker'' then
        Inr (if text_or_empty (tFingerprint t) = print then FinalizeIdempotentRepeat
             else FinalizeConflict, d)
      else if tFinishReason t = Some ''lease_lost'' then
        then_ok (recordObservationTx now r (tID t) c (fqReceipt req) (fqSummary req) print
            (version_of t) d)
          (\<lambda>(recorded, d'). Inr (FinalizeLeaseLost recorded, d'))
      else Inl (FinishedByOther (tID t) (tFinishReason t)))"

section \<open>A result under a live lease\<close>

text \<open>The attempt's row; the erasure marker is read from the commitment in the statement.\<close>

definition closed_by_worker ::
    "int \<Rightarrow> row \<Rightarrow> completion \<Rightarrow> string \<Rightarrow> string \<Rightarrow> string \<Rightarrow> attempt \<Rightarrow> attempt" where
  "closed_by_worker now r c receipt summary print t =
     (let erased = rRecipientErasedAt r \<noteq> None in
      t\<lparr>tFinishedAt := Some now, tOutcome := Some (cOutcome c), tErrorClass := cErrorClass c,
        tProviderStatus := cProviderStatus c,
        tReceipt := (if erased then None else nullable receipt),
        tReceiptRecorded := (receipt \<noteq> []),
        tReceiptRedactedAt := (if receipt \<noteq> [] \<and> erased then Some now else None),
        tSummary := (if erased then None else nullable summary),
        tFinishReason := Some ''worker'', tFingerprint := Some print,
        tDetail := cProviderResultDetail c\<rparr>)"

definition last_revision_applied ::
    "decoders \<Rightarrow> intent \<Rightarrow> completion \<Rightarrow> int option \<Rightarrow> db \<Rightarrow> store_error + bool" where
  "last_revision_applied dc i c applied d =
     (if iForm i = FormEditable \<and> GroupBound i \<and> cOutcome c = OutcomeAccepted
      then then_ok (lockedSnapshotTx dc d (iAlertGroupID i))
             (\<lambda>(s, final). Inr (final \<and> applied = Some (rnRevision s)))
      else Inr False)"

definition doubt_in_generation :: "int \<Rightarrow> intent \<Rightarrow> db \<Rightarrow> bool" where
  "doubt_in_generation now i d =
     (iCompletionMode i = CompletionOnProviderReceipt
      \<and> (let facts = generationFactsTx now d i
         in gfUnaccounted facts > 0 \<or> hasKnownLiveEffect facts))"

text \<open>What the request's outcome does to the commitment, unless an earlier call already has.\<close>

definition finish_transition ::
    "int \<Rightarrow> intent \<Rightarrow> completion \<Rightarrow> int option \<Rightarrow> bool \<Rightarrow> db \<Rightarrow> store_error + transition" where
  "finish_transition now i c applied final d =
     then_ok (decides ((asks TriggerFinishAttempt i)\<lparr>inOutcome := cOutcome c,
         inAttemptRevision := applied, inAttemptIsFinal := final,
         inDoubtInGeneration := doubt_in_generation now i d\<rparr>)) (\<lambda>t.
     then_ok (dischargedByEarlierCallTx now i d) (\<lambda>settled.
       Inr (case settled of None \<Rightarrow> t | Some t' \<Rightarrow> t')))"

text \<open>An event that overtook this answer may already have said how the call ended.\<close>

definition reviewAfter ::
    "decoders \<Rightarrow> int \<Rightarrow> string \<Rightarrow> transition \<Rightarrow> db \<Rightarrow> store_error + transition \<times> db" where
  "reviewAfter dc now intentID t d =
     (case intent_row intentID d of None \<Rightarrow> Inl (Contract ''the commitment is gone'')
      | Some after \<Rightarrow>
          then_ok (reviewReceiptTx dc now (intent_of now after) False d) (\<lambda>(moved, d').
            Inr (case moved of None \<Rightarrow> t | Some t' \<Rightarrow> t', d')))"

definition queuedAfter ::
    "decoders \<Rightarrow> int \<Rightarrow> intent \<Rightarrow> string \<Rightarrow> completion \<Rightarrow> string \<Rightarrow> transition \<Rightarrow> db
       \<Rightarrow> store_error + transition \<times> db" where
  "queuedAfter dc now i attemptID c ref t d =
     (if iCompletionMode i \<noteq> CompletionOnProviderReceipt then Inr (t, d)
      else then_ok (if cOutcome c = OutcomeAccepted
             then recordAcceptedEffectTx i attemptID ref d else Inr d) (\<lambda>d1.
        if trTo t = StatusAwaitingReceipt \<or> trTo t = StatusPending
        then reviewAfter dc now (iID i) t d1 else Inr (t, d1)))"

definition finish_stopping :: "decoders \<Rightarrow> intent \<Rightarrow> completion \<Rightarrow> slot option" where
  "finish_stopping dc i c =
     (if cOutcome c = OutcomePermanentRejection then stopsEscalation dc i else None)"

definition finishOpen ::
    "decoders \<Rightarrow> int \<Rightarrow> row \<Rightarrow> attempt \<Rightarrow> completion \<Rightarrow> finalize_request \<Rightarrow> string \<Rightarrow> db
       \<Rightarrow> store_error + finalize_result \<times> db" where
  "finishOpen dc now r t c req print d =
     (let i = intent_of now r; applied = tAppliedRevision t;
          receipt = (if tAttemptKind t = AttemptMutation then [] else fqReceipt req);
          ref = (if tAttemptKind t = AttemptMutation then [] else ReceiptRefOrEmpty c)
      in
      then_ok (last_revision_applied dc i c applied d) (\<lambda>final.
      then_ok (finish_transition now i c applied final d) (\<lambda>tr.
      then_ok (update_attempts (\<lambda>u. tID u = tID t \<and> tFinishedAt u = None)
          (closed_by_worker now r c (fqReceipt req) (fqSummary req) print) d) (\<lambda>d1.
      then_ok (backoff_of dc i) (\<lambda>backoff.
      then_ok (applyTransitionTx now ((writing i tr ActorWorker)\<lparr>wBackoff := backoff,
          wAppliedRevision := applied, wAttemptIsFinal := final, wReceipt := receipt,
          wReceiptRef := ref\<rparr>) d1) (\<lambda>d2.
      then_ok (case finish_stopping dc i c of None \<Rightarrow> Inr (0, d2)
        | Some step \<Rightarrow> if trTo tr = StatusPermanentFailed then stopEscalationTx dc now i step d2
                       else Inr (0, d2)) (\<lambda>(withdrawn, d3).
      then_ok (queuedAfter dc now i (tID t) c ref tr d3) (\<lambda>(tr', d4).
      Inr (FinalizeFinalized (trTo tr') (trRow tr'), d4)))))))))"

section \<open>The transaction\<close>

definition FinalizeDeliveryAttempt ::
    "decoders \<Rightarrow> int \<Rightarrow> finalize_request \<Rightarrow> db \<Rightarrow> store_error + finalize_result \<times> db" where
  "FinalizeDeliveryAttempt dc now req d =
     (case attempt_row (fqAttemptID req) d of None \<Rightarrow> Inr (FinalizeNotFound, d)
      | Some t \<Rightarrow>
      case intent_row (tIntentID t) d of None \<Rightarrow> Inr (FinalizeNotFound, d)
      | Some r \<Rightarrow>
        if tLeaseToken t \<noteq> Some (fqLeaseToken req) then Inr (FinalizeLeaseLost False, d)
        else
          then_ok (result_stands r t (fqCompletion req) (fqReceipt req)) (\<lambda>u.
          let c = completed t (fqCompletion req) in
          then_ok (fingerprint_of dc c (version_of t)) (\<lambda>print.
          if tFinishedAt t \<noteq> None then alreadyFinished now r t c req print d
          else if rCurrentAttempt r \<noteq> Some (tID t) \<or> rLeaseToken r \<noteq> tLeaseToken t
          then Inl (OpenButElsewhere (tID t))
          else finishOpen dc now r t c req print d)))"

section \<open>An attempt nobody came back for\<close>

definition lease_lost_completion :: completion where
  "lease_lost_completion = \<lparr>cOutcome = OutcomeAmbiguous, cErrorClass = Some ''lease_lost'',
     cProviderStatus = None, cReceiptRef = None, cAppliedRevision = None,
     cProviderResultDetail = None\<rparr>"

definition leaseLostFingerprint :: "decoders \<Rightarrow> int \<Rightarrow> store_error + string" where
  "leaseLostFingerprint dc version = fingerprint_of dc lease_lost_completion version"

definition closed_by_recovery :: "int \<Rightarrow> string \<Rightarrow> attempt \<Rightarrow> attempt" where
  "closed_by_recovery now print t = t\<lparr>tFinishedAt := Some now,
     tOutcome := Some OutcomeAmbiguous, tFinishReason := Some ''lease_lost'',
     tErrorClass := Some ''lease_lost'', tFingerprint := Some print\<rparr>"

definition recover_transition ::
    "int \<Rightarrow> intent \<Rightarrow> bool \<Rightarrow> int option \<Rightarrow> db \<Rightarrow> store_error + transition" where
  "recover_transition now i expired applied d =
     then_ok (decides ((asks TriggerRecoverStale i)\<lparr>inAttemptRevision := applied,
         inExpired := expired\<rparr>)) (\<lambda>t.
     then_ok (dischargedByEarlierCallTx now i d) (\<lambda>settled.
       Inr (case settled of None \<Rightarrow> t | Some t' \<Rightarrow> t')))"

definition stale :: "int \<Rightarrow> string \<Rightarrow> row \<Rightarrow> bool" where
  "stale now attemptID r \<longleftrightarrow> rStatus r = StatusSending \<and> passed now (rLockedUntil r)
     \<and> rCurrentAttempt r = Some attemptID"

definition recoverHeld ::
    "decoders \<Rightarrow> int \<Rightarrow> row \<Rightarrow> attempt \<Rightarrow> db \<Rightarrow> store_error + transition option \<times> db" where
  "recoverHeld dc now r t d =
     (let (i, expired) = scanIntent now r; applied = tAppliedRevision t in
      then_ok (leaseLostFingerprint dc (version_of t)) (\<lambda>print.
      then_ok (update_attempts (\<lambda>u. tID u = tID t \<and> tFinishedAt u = None)
          (closed_by_recovery now print) d) (\<lambda>d1.
      if tFinishedAt t \<noteq> None then Inr (None, d)
      else
        then_ok (recover_transition now i expired applied d1) (\<lambda>tr.
        then_ok (backoff_of dc i) (\<lambda>backoff.
        then_ok (applyTransitionTx now ((writing i tr ActorRecovery)\<lparr>wBackoff := backoff,
            wAppliedRevision := applied,
            wReason := ''the lease expired with an attempt in flight''\<rparr>) d1) (\<lambda>d2.
        then_ok (if iCompletionMode i = CompletionOnProviderReceipt \<and> trTo tr = StatusPending
                 then reviewAfter dc now (iID i) tr d2 else Inr (tr, d2)) (\<lambda>(tr', d3).
        Inr (Some tr', d3))))))))"

definition recoverOne ::
    "decoders \<Rightarrow> int \<Rightarrow> string \<Rightarrow> string \<Rightarrow> db \<Rightarrow> store_error + transition option \<times> db" where
  "recoverOne dc now intentID attemptID d =
     (case intent_row intentID d of None \<Rightarrow> Inr (None, d)
      | Some r \<Rightarrow>
          if \<not> stale now attemptID r then Inr (None, d)
          else case attempt_row attemptID d of
            None \<Rightarrow> Inl (Contract ''the attempt is gone'')
          | Some t \<Rightarrow> recoverHeld dc now r t d)"

text \<open>
  \<open>RecoverStaleAttempts\<close>: the candidates are read without a lock, and each is a transaction
  of its own with its own clock; the first error ends the pass and keeps what was committed.
\<close>

definition recovery_candidates :: "int \<Rightarrow> family \<Rightarrow> nat \<Rightarrow> db \<Rightarrow> (string \<times> string) list" where
  "recovery_candidates now family limit d =
     map (\<lambda>r. (rID r, text_or_empty (rCurrentAttempt r)))
       (take limit (sort_key (\<lambda>r. (case rLockedUntil r of None \<Rightarrow> 0 | Some t \<Rightarrow> t, rID r))
         (filter (\<lambda>r. rFamily r = family \<and> rStatus r = StatusSending
            \<and> passed now (rLockedUntil r)) (dbIntents d))))"

fun recoverEach ::
    "decoders \<Rightarrow> (int \<times> string \<times> string) list \<Rightarrow> db
       \<Rightarrow> (string \<times> transition) list \<times> store_error option \<times> db" where
  "recoverEach dc [] d = ([], None, d)"
| "recoverEach dc ((now, intentID, attemptID) # rest) d =
     (case recoverOne dc now intentID attemptID d of
        Inl e \<Rightarrow> ([], Some e, d)
      | Inr (result, d') \<Rightarrow>
          let (more, err, d'') = recoverEach dc rest d' in
          (case result of None \<Rightarrow> more | Some t \<Rightarrow> (intentID, t) # more, err, d''))"

definition RecoverStaleAttempts ::
    "decoders \<Rightarrow> int \<Rightarrow> int list \<Rightarrow> family \<Rightarrow> nat \<Rightarrow> db
       \<Rightarrow> (string \<times> transition) list \<times> store_error option \<times> db" where
  "RecoverStaleAttempts dc now clocks family limit d =
     recoverEach dc (zip clocks (recovery_candidates now family limit d)) d"

end
