(* ===== verification/Queue.thy ===== *)
theory Queue
  imports Finish
begin

text \<open>
  The queue: what is overdue, what can be claimed and what is claimed
  (\<open>ExpireDueIntents\<close>, \<open>DueSnapshot\<close>, \<open>ClaimDueIntents\<close> and \<open>claimStatement\<close> of
  \<open>internal/store/outbound_worker_store.go\<close>, \<open>satelliteJoins\<close> and \<open>satelliteMayGo\<close> of
  \<open>outbound_satellite_store.go\<close>, \<open>dmJoins\<close> and \<open>dmMayGo\<close> of \<open>outbound_dm_store.go\<close>,
  \<open>ClaimDueReceipts\<close> of \<open>outbound_receipt_store.go\<close>).

  \<open>FOR UPDATE SKIP LOCKED\<close> is an argument: \<open>busy\<close> says which rows another transaction
  holds.  A fresh lease token per row is an argument too.
\<close>

section \<open>What is overdue\<close>

definition expired_row :: "int \<Rightarrow> row \<Rightarrow> row" where
  "expired_row now r = r\<lparr>rStatus := StatusExpired, rLeaseToken := None, rLockedUntil := None,
     rWorkerID := None, rUpdatedAt := now\<rparr>"

definition overdue :: "int \<Rightarrow> family \<Rightarrow> row \<Rightarrow> bool" where
  "overdue now family r \<longleftrightarrow>
     rFamily r = family \<and> rStatus r = StatusPending \<and> passed now (rExpiresAt r)"

definition expiry_picks :: "(string \<Rightarrow> bool) \<Rightarrow> int \<Rightarrow> family \<Rightarrow> nat \<Rightarrow> db \<Rightarrow> string list" where
  "expiry_picks busy now family limit d = map rID (take limit
     (sort_key (\<lambda>r. (case rExpiresAt r of None \<Rightarrow> 0 | Some t \<Rightarrow> t, rID r))
       (filter (\<lambda>r. overdue now family r \<and> \<not> busy (rID r)) (dbIntents d))))"

fun expiry_lines :: "int \<Rightarrow> (string \<times> string) list \<Rightarrow> db \<Rightarrow> store_error + db" where
  "expiry_lines now [] d = Inr d"
| "expiry_lines now ((intentID, g) # rest) d =
     then_ok (appendIntentEventTx intentID ''expired''
       ''the deadline passed before anything was sent'' ActorWorker d) (\<lambda>d1.
     if g = [] then expiry_lines now rest d1
     else case timelineLine TimelineExpired of
       None \<Rightarrow> Inl (Contract ''an expiry has no wording for the alert'')
     | Some (message, eventType) \<Rightarrow>
         expiry_lines now rest (addTimelineTx now g eventType message ''system'' d1))"

definition ExpireDueIntents ::
    "(string \<Rightarrow> bool) \<Rightarrow> int \<Rightarrow> family \<Rightarrow> nat \<Rightarrow> db \<Rightarrow> store_error + (string \<times> string) list \<times> db" where
  "ExpireDueIntents busy now family limit d =
     (let picks = expiry_picks busy now family limit d;
          expired = map (\<lambda>r. (rID r, text_or_empty (rGroupID r)))
            (filter (\<lambda>r. rID r \<in> set picks) (dbIntents d))
      in then_ok (update_intents (\<lambda>r. rID r \<in> set picks) (expired_row now) d) (\<lambda>d1.
         then_ok (expiry_lines now expired d1) (\<lambda>d2. Inr (expired, d2))))"

section \<open>What may go\<close>

text \<open>The card a satellite follows, and whether the group's last revision is out.\<close>

definition satelliteMayGo :: "db \<Rightarrow> row \<Rightarrow> bool" where
  "satelliteMayGo d due \<longleftrightarrow>
     (let parent = Option.bind (rParentID due) (\<lambda>p. intent_row p d);
          closing = (if rTargetKind due = TargetThreadReply
            then find (\<lambda>s. rGroupID due = Some (snGroupID s)) (dbSnapshots d) else None);
          ended = (case parent of None \<Rightarrow> False | Some p \<Rightarrow> Terminal (rStatus p))
      in (rParentID due = None \<or> (case parent of None \<Rightarrow> False | Some p \<Rightarrow> rReceiptRecorded p) \<or> ended)
         \<and> (rTargetKind due \<noteq> TargetThreadReply
            \<or> (case closing of None \<Rightarrow> False | Some s \<Rightarrow> snFinal s) \<and> ended))"

text \<open>An array that names no card is stored as NULL; either way nothing is waited for.\<close>

definition dm_waits_for :: "row \<Rightarrow> row \<Rightarrow> bool" where
  "dm_waits_for due c \<longleftrightarrow> rCreateKey due = None \<and> rID c \<in> set (rAwaits due)
     \<and> \<not> rReceiptRecorded c \<and> rFailureStreak c = 0
     \<and> rStatus c \<in> {StatusPending, StatusSending}"

definition dmMayGo :: "db \<Rightarrow> row \<Rightarrow> bool" where
  "dmMayGo d due \<longleftrightarrow> \<not> list_ex (dm_waits_for due) (dbIntents d)"

definition may_go :: "db \<Rightarrow> row \<Rightarrow> bool" where
  "may_go d due \<longleftrightarrow> satelliteMayGo d due \<and> dmMayGo d due"

definition deadline_alive :: "int \<Rightarrow> row \<Rightarrow> bool" where
  "deadline_alive now r = (case rExpiresAt r of None \<Rightarrow> True | Some t \<Rightarrow> now < t)"

definition lease_free :: "int \<Rightarrow> row \<Rightarrow> bool" where
  "lease_free now r = (case rLockedUntil r of None \<Rightarrow> True | Some t \<Rightarrow> t \<le> now)"

section \<open>How much is due\<close>

record provider_due =
  pdProvider :: string
  pdClaimableDue :: nat
  pdClaimableFresh :: nat
  pdLateness :: int

definition due_rows :: "int \<Rightarrow> family \<Rightarrow> db \<Rightarrow> row list" where
  "due_rows now family d = filter (\<lambda>r. rFamily r = family \<and> rStatus r = StatusPending
     \<and> rNextAttemptAt r \<le> now \<and> may_go d r) (dbIntents d)"

definition claimable :: "int \<Rightarrow> row \<Rightarrow> bool" where
  "claimable now r \<longleftrightarrow> deadline_alive now r \<and> lease_free now r"

definition DueSnapshot :: "int \<Rightarrow> family \<Rightarrow> db \<Rightarrow> provider_due list" where
  "DueSnapshot now family d =
     (let rows = due_rows now family d in
      map (\<lambda>p. let mine = filter (\<lambda>r. rProvider r = p) rows in
          \<lparr>pdProvider = p, pdClaimableDue = length (filter (claimable now) mine),
           pdClaimableFresh = length (filter (\<lambda>r. claimable now r
             \<and> rAttemptsInGeneration r = 0) mine),
           pdLateness = now - Min (rNextAttemptAt ` set mine)\<rparr>)
        (remdups (map rProvider rows)))"

section \<open>Claiming\<close>

datatype claim_phase = ClaimFirstAttempts | ClaimRetriesFirst | ClaimPhaseOther string

record claim_request =
  cqFamily :: family
  cqProvider :: string
  cqPhase :: claim_phase
  cqLimit :: int
  cqLease :: int
  cqWorkerID :: string

definition claim_takes :: "(string \<Rightarrow> bool) \<Rightarrow> int \<Rightarrow> claim_request \<Rightarrow> db \<Rightarrow> row \<Rightarrow> bool" where
  "claim_takes busy now req d r \<longleftrightarrow>
     rFamily r = cqFamily req \<and> rProvider r = cqProvider req \<and> rStatus r = StatusPending
     \<and> rNextAttemptAt r \<le> now \<and> deadline_alive now r \<and> lease_free now r \<and> may_go d r
     \<and> (cqPhase req = ClaimFirstAttempts \<longrightarrow> rAttemptsInGeneration r = 0)
     \<and> \<not> busy (rID r)"

text \<open>FALSE sorts first: a commitment already attempted comes before one that was not.\<close>

definition claim_order :: "claim_phase \<Rightarrow> row \<Rightarrow> bool \<times> int \<times> string" where
  "claim_order phase r =
     (phase = ClaimRetriesFirst \<and> rAttemptsInGeneration r = 0, rNextAttemptAt r, rID r)"

definition claim_picks :: "(string \<Rightarrow> bool) \<Rightarrow> int \<Rightarrow> claim_request \<Rightarrow> db \<Rightarrow> row list" where
  "claim_picks busy now req d = take (nat (cqLimit req))
     (sort_key (claim_order (cqPhase req)) (filter (claim_takes busy now req d) (dbIntents d)))"

definition leased_row :: "int \<Rightarrow> int \<Rightarrow> (string \<Rightarrow> string) \<Rightarrow> claim_request \<Rightarrow> row \<Rightarrow> row" where
  "leased_row now clock tokens req r = r\<lparr>rLeaseToken := Some (tokens (rID r)),
     rLockedUntil := Some (clock + cqLease req), rWorkerID := nullable (cqWorkerID req),
     rUpdatedAt := now\<rparr>"

definition ClaimDueIntents ::
    "(string \<Rightarrow> bool) \<Rightarrow> int \<Rightarrow> int \<Rightarrow> (string \<Rightarrow> string) \<Rightarrow> claim_request \<Rightarrow> db
       \<Rightarrow> store_error + (intent \<times> string \<times> int) list \<times> db" where
  "ClaimDueIntents busy now clock tokens req d =
     (if cqLimit req \<le> 0 then Inr ([], d)
      else case cqPhase req of
        ClaimPhaseOther p \<Rightarrow> Inl (Contract ''claim phase is not one this build takes'')
      | _ \<Rightarrow>
        let picks = map rID (claim_picks busy now req d) in
        then_ok (update_intents (\<lambda>r. rID r \<in> set picks) (leased_row now clock tokens req) d) (\<lambda>d'.
          Inr (map (\<lambda>r. (intent_of now r, tokens (rID r), clock + cqLease req))
            (filter (\<lambda>r. rID r \<in> set picks) (dbIntents d')), d')))"

text \<open>Moving the next look forward is the claim of a wait.\<close>

definition wait_came_round :: "int \<Rightarrow> family \<Rightarrow> string list \<Rightarrow> row \<Rightarrow> bool" where
  "wait_came_round now family providers r \<longleftrightarrow> rFamily r = family
     \<and> rProvider r \<in> set providers \<and> rStatus r = StatusAwaitingReceipt
     \<and> passed now (rReceiptTimeoutAt r)"

definition poll_interval :: "string \<Rightarrow> int" where
  "poll_interval p = (case ReceiptPolicyOf p of None \<Rightarrow> 0 | Some pol \<Rightarrow> rpPollInterval pol)"

definition looked_at_row :: "int \<Rightarrow> row \<Rightarrow> row" where
  "looked_at_row clock r = r\<lparr>rReceiptTimeoutAt := Some (clock + poll_interval (rProvider r))\<rparr>"

definition receipt_picks ::
    "(string \<Rightarrow> bool) \<Rightarrow> int \<Rightarrow> family \<Rightarrow> string list \<Rightarrow> int \<Rightarrow> db \<Rightarrow> string list" where
  "receipt_picks busy now family providers limit d = map rID (take (nat limit)
     (sort_key (\<lambda>r. (case rReceiptTimeoutAt r of None \<Rightarrow> 0 | Some t \<Rightarrow> t, rID r))
       (filter (\<lambda>r. wait_came_round now family providers r \<and> \<not> busy (rID r)) (dbIntents d))))"

definition ClaimDueReceipts ::
    "(string \<Rightarrow> bool) \<Rightarrow> int \<Rightarrow> int \<Rightarrow> family \<Rightarrow> string list \<Rightarrow> int \<Rightarrow> db
       \<Rightarrow> store_error + string list \<times> db" where
  "ClaimDueReceipts busy now clock family providers limit d =
     (if limit \<le> 0 \<or> providers = [] then Inr ([], d)
      else case PolicyOf family of Inl f \<Rightarrow> Inl (UnknownFamily f)
      | Inr pl \<Rightarrow>
          if \<not> list_all (\<lambda>p. ReceiptPolicyOf p \<noteq> None) providers
          then Inl (Contract ''provider does not wait for the provider's word'')
          else let picks = receipt_picks busy now family providers limit d in
            then_ok (update_intents (\<lambda>r. rID r \<in> set picks) (looked_at_row clock) d)
              (\<lambda>d'. Inr (picks, d')))"

end
