(* ===== verification/Protocol.thy ===== *)
theory Protocol
  imports Pact Queue
begin

text \<open>
  Every delivery transaction keeps the agreement of theory \<open>Pact\<close>, and what follows for the
  workers: fencing by the lease token, no second authorisation, idempotent conclusions.
\<close>

section \<open>What a decision can open\<close>

lemma decides_Inr: "decides x = Inr t \<Longrightarrow> Decide x = Inr t"
  by (cases "Decide x") (simp_all add: decides_def)

lemma decides_opens_nothing:
  assumes "decides x = Inr t" and "inTrigger x \<noteq> TriggerPreparation"
  shows "trTo t \<noteq> StatusSending"
  using lawfulD [OF decides_Inr [OF assms(1)]] assms(2) by (auto simp: lawful_def law_lease_def)

lemma refusal_opens_nothing:
  assumes "decides x = Inr t" and "inTrigger x = TriggerPreparation"
    and "inPreparation x \<noteq> PreparationReady"
  shows "trTo t \<noteq> StatusSending"
  using decides_Inr [OF assms(1)] assms(2,3)
  by (auto simp: Decide_quiet decide_def decidePreparation_def goes_def
      split: preparation_outcome.splits if_splits)

lemma asks_sel [simp]:
  "inIntent (asks tr i) = i" "inTrigger (asks tr i) = tr"
  by (simp_all add: asks_def)

lemma writing_sel [simp]:
  "wIntent (writing i t a) = i" "wTransition (writing i t a) = t" "wActor (writing i t a) = a"
  by (simp_all add: writing_def)

section \<open>The steps of the wait\<close>

text \<open>The commitment as it was read is the one the tables hold.\<close>

definition current :: "intent \<Rightarrow> db \<Rightarrow> bool" where
  "current i d \<longleftrightarrow> (\<forall>r\<in>set (dbIntents d). rID r = iID i \<longrightarrow> rStatus r = iStatus i)"

lemma current_read: "sound d \<Longrightarrow> intent_row j d = Some r \<Longrightarrow> current (intent_of now r) d"
  using row_by_id [of d j r] intent_row_Some(2) [of j d r] by (fastforce simp: current_def)

lemma current_same: "current i d \<Longrightarrow> dbIntents d' = dbIntents d \<Longrightarrow> current i d'"
  by (simp add: current_def)

lemma current_idle:
  assumes "sound d" "current i d" "iStatus i \<noteq> StatusSending" "r \<in> set (dbIntents d)" "rID r = iID i"
  shows "rCurrentAttempt r = None"
  using assms idle_row [OF sound_checks [OF assms(1,4)]] by (auto simp: current_def)

lemma reviewReceipt_quiet:
  assumes "sound d" and "current i d" and "reviewReceiptTx dc now i polled d = Inr (moved, d')"
  shows "quiet_step d d'"
proof (cases "moved")
  case None
  have "d' = d" using assms(3) None
    by (auto simp: reviewReceiptTx_def Let_def split: if_splits prod.splits)
  with assms(1) show ?thesis by (simp add: quiet_step_refl)
next
  case (Some t)
  have st: "iStatus i \<noteq> StatusSending"
    using assms(3) Some by (auto simp: reviewReceiptTx_def split: if_splits)
  from assms(3) Some obtain verdict w where w: "applyTransitionTx now w d = Inr d'"
      "wIntent w = i" "wTransition w = t"
    and d: "decides ((asks TriggerVerdict i)\<lparr>inVerdict := verdict\<rparr>) = Inr t"
    by (auto simp: reviewReceiptTx_def Let_def case_prod_unfold split: if_splits)
  have "trTo t \<noteq> StatusSending" using decides_opens_nothing [OF d] by simp
  with apply_quiet [OF assms(1) w(1)] w(2,3) current_idle [OF assms(1,2) st] show ?thesis by simp
qed

lemma foldEvent_rows:
  assumes "foldEventTx i e next class d = Inr d'"
  shows "dbIntents d' = dbIntents d \<and> dbAttempts d' = dbAttempts d"
  using assms by (auto simp: foldEventTx_def Let_def split: option.splits if_splits prod.splits)

lemma sound_rows:
  "sound d \<Longrightarrow> dbIntents d' = dbIntents d \<Longrightarrow> dbAttempts d' = dbAttempts d \<Longrightarrow> quiet_step d d'"
  by (simp add: quiet_step_def sound_def rows_step_def list_all2_refl)

lemma applyToObject_rows:
  assumes "applyToObject f i e d = Inr (o', d')"
  shows "dbIntents d' = dbIntents d \<and> dbAttempts d' = dbAttempts d"
  using assms foldEvent_rows by (auto simp: applyToObject_def split: prod.splits if_splits)

lemma applyToCommitment_quiet:
  assumes "sound d" "current i d" "applyToCommitment dc now i o' d = Inr (res, d')"
  shows "quiet_step d d'"
proof (cases "Terminal (iStatus i) \<or> o' \<noteq> ApplyApplied")
  case True
  with assms(3) have "d' = d" by (auto simp: applyToCommitment_def split: if_splits)
  with assms(1) show ?thesis by (simp add: quiet_step_refl)
next
  case False
  with assms(3) obtain moved where "reviewReceiptTx dc now i False d = Inr (moved, d')"
    by (auto simp: applyToCommitment_def)
  with reviewReceipt_quiet [OF assms(1,2)] show ?thesis by blast
qed

lemma ApplyProviderEvent_quiet:
  assumes "sound d" and "ApplyProviderEvent dc now f k d = Inr (res, d')"
  shows "quiet_step d d'"
proof (cases "d' = d")
  case True
  with assms(1) show ?thesis by (simp add: quiet_step_refl)
next
  case False
  from assms(2) obtain event state where e: "readKeptEvent k d = Inr (event, state)"
    by (auto simp: ApplyProviderEvent_def)
  from assms(2) False e obtain t r where r: "attempt_row (pvAttemptID event) d = Some t"
    "intent_row (tIntentID t) d = Some r"
    by (auto simp: ApplyProviderEvent_def bind_eq_Some_conv split: if_splits option.splits)
  let ?i = "intent_of now r"
  from assms(2) False e r obtain g o' d1 res' d2 where
    s: "applyToObject g ?i event d = Inr (o', d1)"
      "applyToCommitment dc now ?i o' d1 = Inr (res', d2)" "d' = mark_event k (apOutcome res') d2"
    by (auto simp: ApplyProviderEvent_def Let_def split: if_splits option.splits)
  note o = applyToObject_rows [OF s(1)]
  have q1: "quiet_step d d1" using sound_rows [OF assms(1)] o by simp
  have "current ?i d1" using current_same [OF current_read [OF assms(1) r(2)]] o by simp
  with applyToCommitment_quiet [OF quiet_step_sound [OF q1] _ s(2)] have q2: "quiet_step d1 d2" .
  have "quiet_step d2 d'" using sound_rows [OF quiet_step_sound [OF q2]] s(3)
    by (simp add: mark_event_def)
  with q1 q2 show ?thesis by (blast intro: quiet_step_trans)
qed

lemma ReviewReceiptWait_quiet:
  assumes "sound d" and "ReviewReceiptWait dc now j d = Inr (res, d')"
  shows "quiet_step d d'"
proof (cases "intent_row j d")
  case None
  with assms show ?thesis by (simp add: ReviewReceiptWait_def quiet_step_refl)
next
  case (Some r)
  show ?thesis
  proof (cases "rStatus r = StatusAwaitingReceipt")
    case True
    with assms(2) Some obtain moved where
      "reviewReceiptTx dc now (intent_of now r) True d = Inr (moved, d')"
      by (auto simp: ReviewReceiptWait_def)
    with reviewReceipt_quiet [OF assms(1) current_read [OF assms(1) Some]] show ?thesis by blast
  qed (use assms Some in \<open>simp add: ReviewReceiptWait_def quiet_step_refl\<close>)
qed

section \<open>The steps of a stop\<close>

lemma stopRows_Inr:
  assumes "stopRowsTx p f d = Inr (ids, d')"
  shows "update_intents p f d = Inr d'"
  using assms by (auto simp: stopRowsTx_def)

lemma stop_rows_idle [simp]:
  "rID (canceled_row now r) = rID r" "rID (asked_to_stop now r) = rID r"
  "rID (review_canceled now r) = rID r" "rID (requeued_row now r) = rID r"
  "rID (released_row now c r) = rID r"
  by (simp_all add: canceled_row_def asked_to_stop_def review_canceled_def requeued_row_def
      released_row_def)

lemma canceled_step:
  "intent_checks r \<Longrightarrow> intent_checks (canceled_row now r) \<Longrightarrow> rStatus r = StatusPending \<Longrightarrow>
     row_step r (canceled_row now r)"
  by (rule idle_step) (simp_all add: canceled_row_def same_commitment_def)

lemma asked_step: "row_step r (asked_to_stop now r)"
  by (simp add: asked_to_stop_def row_step_def generation_step_def same_commitment_def)

lemma review_canceled_step:
  "intent_checks r \<Longrightarrow> intent_checks (review_canceled now r) \<Longrightarrow> rStatus r = StatusManualReview \<Longrightarrow>
     row_step r (review_canceled now r)"
  by (rule idle_step) (simp_all add: review_canceled_def same_commitment_def)

lemma stopRows_quiet:
  assumes "sound d" and "stopRowsTx p f d = Inr (ids, d')" and "\<And>r. rID (f r) = rID r"
    and "\<And>r. intent_checks r \<Longrightarrow> p r \<Longrightarrow> intent_checks (f r) \<Longrightarrow> row_step r (f r)"
  shows "quiet_step d d'"
  using update_intents_quiet [OF assms(1) stopRows_Inr [OF assms(2)] assms(3)] assms(4)
    sound_checks [OF assms(1)] by blast

lemma stopEscalation_quiet:
  assumes "sound d" and "stopEscalationTx dc now i step d = Inr (n, d')"
  shows "quiet_step d d'"
proof -
  let ?p = "stop_picks dc (iBatchID i) (slIndex step)"
  from assms(2) obtain ns d1 fl d2 wt d3 d4 d5 d6 why why' where s:
    "stopRowsTx (?p StatusPending d) (canceled_row now) d = Inr (ns, d1)"
    "stopRowsTx (?p StatusSending d1) (asked_to_stop now) d1 = Inr (fl, d2)"
    "stopRowsTx (?p StatusManualReview d2) (review_canceled now) d2 = Inr (wt, d3)"
    "append_events ns ''canceled'' why ActorWorker d3 = Inr d4"
    "append_events fl ''cancellation_requested'' why ActorWorker d4 = Inr d5"
    "append_events wt ''canceled'' why' ActorWorker d5 = Inr d6"
    "d' = d6 \<or> d' = stop_line now (iAlertGroupID i) (slIndex step) d6"
    by (auto simp: stopEscalationTx_def Let_def split: if_splits)
  have q1: "quiet_step d d1"
    by (rule stopRows_quiet [OF assms(1) s(1)]) (auto simp: stop_picks_def intro: canceled_step)
  have q2: "quiet_step d1 d2"
    by (rule stopRows_quiet [OF quiet_step_sound [OF q1] s(2)]) (auto intro: asked_step)
  have q3: "quiet_step d2 d3"
    by (rule stopRows_quiet [OF quiet_step_sound [OF q2] s(3)])
      (auto simp: stop_picks_def intro: review_canceled_step)
  have q4: "quiet_step d3 d4" by (rule append_events_quiet [OF quiet_step_sound [OF q3] s(4)])
  have q5: "quiet_step d4 d5" by (rule append_events_quiet [OF quiet_step_sound [OF q4] s(5)])
  have q6: "quiet_step d5 d6" by (rule append_events_quiet [OF quiet_step_sound [OF q5] s(6)])
  have q7: "quiet_step d6 d'"
    using s(7) quiet_step_refl [OF quiet_step_sound [OF q6]]
      timeline_quiet [OF quiet_step_sound [OF q6]] by (auto simp: stop_line_def)
  show ?thesis using q1 q2 q3 q4 q5 q6 q7 by (blast intro: quiet_step_trans)
qed

lemma reviveSatellites_quiet:
  assumes "sound d" and "reviveSatellitesTx now p by' d = Inr (n, d')"
  shows "quiet_step d d'"
proof -
  from assms(2) obtain ids d1 where
    s: "stopRowsTx (refused_satellite p d) (requeued_row now) d = Inr (ids, d1)"
      "append_events ids ''revived'' ''the card was retried'' by' d1 = Inr d'"
    by (auto simp: reviveSatellitesTx_def)
  have "quiet_step d d1"
    by (rule stopRows_quiet [OF assms(1) s(1)])
      (auto simp: refused_satellite_def requeued_row_def same_commitment_def intro!: idle_step)
  with append_events_quiet [OF quiet_step_sound s(2)] show ?thesis
    by (blast intro: quiet_step_trans)
qed

section \<open>The steps of the queue\<close>

lemma expiry_lines_quiet:
  "sound d \<Longrightarrow> expiry_lines now es d = Inr d' \<Longrightarrow> quiet_step d d'"
proof (induction es arbitrary: d)
  case Nil
  then show ?case by (simp add: quiet_step_refl)
next
  case (Cons e es)
  obtain i g where e: "e = (i, g)" by (cases e)
  define line where "line d1 = (if g = [] then d1 else addTimelineTx now g
    TimelineEventNotificationFailed ''A notification expired before it could be sent'' ''system'' d1)"
    for d1
  from Cons.prems(2) e obtain d1 where s:
    "appendIntentEventTx i ''expired'' ''the deadline passed before anything was sent'' ActorWorker d
       = Inr d1" "expiry_lines now es (line d1) = Inr d'"
    by (cases "g = []") (auto simp: line_def)
  have q1: "quiet_step d d1"
    using s(1) appendIntentEvent_quiet [OF Cons.prems(1)] by (simp add: appendIntentEventTx_def)
  have q2: "quiet_step d1 (line d1)"
    using timeline_quiet [OF quiet_step_sound [OF q1]]
      quiet_step_refl [OF quiet_step_sound [OF q1]] by (simp add: line_def)
  from Cons.IH [OF quiet_step_sound [OF q2] s(2)] q1 q2 show ?case by (blast intro: quiet_step_trans)
qed

lemma ExpireDueIntents_quiet:
  assumes "sound d" and "ExpireDueIntents busy now fam limit d = Inr (es, d')"
  shows "quiet_step d d'"
proof -
  let ?picks = "expiry_picks busy now fam limit d"
  from assms(2) obtain d1 where
    s: "update_intents (\<lambda>r. rID r \<in> set ?picks) (expired_row now) d = Inr d1"
      "expiry_lines now es d1 = Inr d'"
    by (auto simp: ExpireDueIntents_def Let_def)
  have "rStatus r = StatusPending" if "r \<in> set (dbIntents d)" "rID r \<in> set ?picks" for r
  proof -
    from that(2) obtain q where "q \<in> set (dbIntents d)" "rID q = rID r" "overdue now fam q"
      by (auto simp: expiry_picks_def dest!: in_set_takeD)
    moreover have "q = r"
      using calculation that(1) sound_intent_row [OF assms(1)] by (metis option.inject)
    ultimately show ?thesis by (simp add: overdue_def)
  qed
  then have "quiet_step d d1"
    using sound_checks [OF assms(1)]
    by (intro update_intents_quiet [OF assms(1) s(1)] idle_step) (auto simp: expired_row_def same_commitment_def)
  with expiry_lines_quiet [OF quiet_step_sound s(2)] show ?thesis
    by (blast intro: quiet_step_trans)
qed

lemma ClaimDueIntents_quiet:
  assumes "sound d" and "ClaimDueIntents busy now clock tokens req d = Inr (out, d')"
  shows "quiet_step d d'"
proof (cases "d' = d")
  case True
  with assms(1) show ?thesis by (simp add: quiet_step_refl)
next
  case False
  let ?picks = "map rID (claim_picks busy now req d)"
  have u: "update_intents (\<lambda>r. rID r \<in> set ?picks) (leased_row now clock tokens req) d = Inr d'"
    using assms(2) False
    by (auto simp: ClaimDueIntents_def Let_def split: if_splits claim_phase.splits)
  have "rStatus r = StatusPending" if "r \<in> set (dbIntents d)" "rID r \<in> set ?picks" for r
  proof -
    from that(2) obtain q where "q \<in> set (dbIntents d)" "rID q = rID r" "claim_takes busy now req d q"
      by (auto simp: claim_picks_def dest!: in_set_takeD)
    moreover have "q = r"
      using calculation that(1) sound_intent_row [OF assms(1)] by (metis option.inject)
    ultimately show ?thesis by (simp add: claim_takes_def)
  qed
  then show ?thesis
    using sound_checks [OF assms(1)]
    by (intro update_intents_quiet [OF assms(1) u] idle_step) (auto simp: leased_row_def same_commitment_def)
qed

lemma ClaimDueReceipts_quiet:
  assumes "sound d" and "ClaimDueReceipts busy now clock fam ps limit d = Inr (out, d')"
  shows "quiet_step d d'"
proof (cases "d' = d")
  case True
  with assms(1) show ?thesis by (simp add: quiet_step_refl)
next
  case False
  let ?picks = "receipt_picks busy now fam ps limit d"
  have u: "update_intents (\<lambda>r. rID r \<in> set ?picks) (looked_at_row clock) d = Inr d'"
    using assms(2) False by (auto simp: ClaimDueReceipts_def Let_def split: if_splits sum.splits)
  show ?thesis
    by (rule update_intents_quiet [OF assms(1) u])
      (simp_all add: looked_at_row_def row_step_def generation_step_def same_commitment_def)
qed

section \<open>Opening an attempt\<close>

lemma preparation_from_pending:
  assumes "decides x = Inr t" "inTrigger x = TriggerPreparation"
  shows "iStatus (inIntent x) = StatusPending"
  using decides_Inr [OF assms(1)] assms(2)
  by (auto simp: Decide_quiet decide_def decidePreparation_def split: if_splits)

lemma counted_step: "row_step r (counted_row r)"
  by (simp add: counted_row_def row_step_def generation_step_def same_commitment_def)

lemma counted_quiet:
  "sound d \<Longrightarrow> update_intents p counted_row d = Inr d' \<Longrightarrow> quiet_step d d'"
  using update_intents_quiet [of d p counted_row d'] counted_step by (simp add: counted_row_def)

lemma counted_current:
  "current i d \<Longrightarrow> update_intents p counted_row d = Inr d' \<Longrightarrow> current i d'"
  using update_intents_Inr(1) [of p counted_row d d'] by (auto simp: current_def counted_row_def)

lemma recordPreparation_pact:
  assumes "pact d" and c: "current i d" and n: "bqPreparation req \<noteq> PreparationReady"
    and "recordPreparation dc now fresh req i plan stop d = Inr (res, d')"
  shows "pact d'"
proof -
  define n where "n = nextAttemptNoTx (bqIntentID req) d"
  define w where "w t b = (writing i t ActorWorker)\<lparr>wBackoff := b, wReason := bqErrorClass req\<rparr>"
    for t b
  have w: "wIntent (w t b) = i" "wTransition (w t b) = t" for t b by (simp_all add: w_def)
  from assms(4) obtain t d1 d2 b d3 m where s: "applyTransitionTx now (w t b) d2 = Inr d3"
    "decides ((asks TriggerPreparation i)\<lparr>inPreparation := bqPreparation req\<rparr>) = Inr t"
    "insert_attempt (preparation_record now fresh req i plan n) d = Inr d1"
    "update_intents (\<lambda>r. rID r = bqIntentID req) counted_row d1 = Inr d2"
    "(case stop of None \<Rightarrow> Inr (0, d3)
       | Some step \<Rightarrow> if trTo t = StatusPermanentFailed then stopEscalationTx dc now i step d3
                      else Inr (0, d3)) = Inr (m, d')"
    by (auto simp: recordPreparation_def Let_def n_def w_def simp del: split_paired_Ex)
  have p1: "pact d1"
    by (rule pact_closed_record [OF assms(1) s(3)]) (simp_all add: preparation_record_def)
  have c1: "current i d1" using current_same [OF c] insert_attempt_Inr(1) [OF s(3)] by simp
  have p2: "pact d2" using pact_quiet [OF p1] counted_quiet [OF _ s(4)] p1 by (simp add: pact_def)
  have c2: "current i d2" by (rule counted_current [OF c1 s(4)])
  have pend: "iStatus i = StatusPending" using preparation_from_pending [OF s(2)] by simp
  have to: "trTo t \<noteq> StatusSending" using refusal_opens_nothing [OF s(2)] n by simp
  have sd2: "sound d2" using p2 by (simp add: pact_def)
  have q3: "quiet_step d2 d3"
    using apply_quiet [OF sd2 s(1)] to w pend current_idle [OF sd2 c2] by simp
  have q4: "quiet_step d3 d'"
    using s(5) stopEscalation_quiet [OF quiet_step_sound [OF q3]]
      quiet_step_refl [OF quiet_step_sound [OF q3]] by (auto split: option.splits if_splits)
  show ?thesis using pact_quiet [OF pact_quiet [OF p2 q3] q4] .
qed

lemma refuseAttempt_pact:
  assumes "pact d" "current i d" "refuseAttempt dc now fresh req i plan class detail d = Inr (res, d')"
  shows "pact d'"
  by (rule recordPreparation_pact [OF assms(1,2) _ assms(3) [unfolded refuseAttempt_def]]) simp

text \<open>The commitment as the worker holds it once its effect is bound.\<close>

definition bound_as :: "string \<Rightarrow> intent \<Rightarrow> bound_effect \<Rightarrow> db \<Rightarrow> bool" where
  "bound_as token i effect d \<longleftrightarrow> (\<forall>q\<in>set (dbIntents d). rID q = iID i \<longrightarrow>
     rStatus q = StatusPending \<and> rLeaseToken q = Some token \<and>
     rGenerationNo q = iGenerationNo i \<and> rCreateKey q = Some (beProviderKey effect) \<and>
     rBoundEndpoint q = Some (beEndpoint effect))"

lemma call_key_create:
  "call_key dc i plan c effect = Inr key \<Longrightarrow> fst plan = AttemptCreate \<Longrightarrow> key = beProviderKey effect"
  by (simp add: call_key_def)

lemma startAttempt_pact:
  assumes p: "pact d" and b: "bound_as (bqLeaseToken req) i effect d"
    and key: "call_key dc i plan c effect = Inr key"
    and id: "iID i = bqIntentID req" and row: "\<exists>r\<in>set (dbIntents d). rID r = bqIntentID req"
    and st: "startAttempt dc now fresh req r i plan c effect bound key opens d = Inr (res, d')"
  shows "pact d'"
proof -
  define t where
    "t = attempt_record now fresh req i plan c effect key (nextAttemptNoTx (bqIntentID req) d)"
  have tf: "tIntentID t = bqIntentID req" "tID t = fresh" "tFinishedAt t = None"
    "tLeaseToken t = Some (bqLeaseToken req)" "tGenerationNo t = iGenerationNo i"
    "tAttemptKind t = fst plan" "tProviderKey t = Some key" "tBoundEndpoint t = Some (beEndpoint effect)"
    by (simp_all add: t_def attempt_record_def)
  from st obtain d1 d2 where s: "insert_attempt t d = Inr d1"
    "update_intents (\<lambda>q. rID q = bqIntentID req) (sending_row now fresh) d1 = Inr d2"
    "(if opens then appendIntentEventDetailTx (bqIntentID req) ''effect_bound''
          ''the address and key of this generation are settled'' ActorWorker
          (dcJSON dc [(''worker_id'', bqWorkerID req)]) d2 else Inr d2) = Inr d'"
    by (auto simp: startAttempt_def Let_def t_def split: if_splits)
  have sd: "sound d" using p by (simp add: pact_def)
  have sd1: "sound d1" by (rule sound_append [OF sd s(1)])
  have rid: "rID (sending_row now fresh q) = rID q" for q by (simp add: sending_row_def)
  note u = update_intents_steps [OF sd1 s(2) rid]
  have q: "quiet_step d2 d'"
    using s(3) appendIntentEvent_quiet [OF u(1)] quiet_step_refl [OF u(1)] by (auto split: if_splits)
  have ck: "tAttemptKind t = AttemptCreate \<Longrightarrow> key = beProviderKey effect"
    using call_key_create [OF key] tf by simp
  have "pact d2"
  proof (rule pact_open [OF p u(1) s(1) u(2) tf(3)])
    have "rows_step (\<lambda>q q'. q' = (if rID q = bqIntentID req then sending_row now fresh q else q)) d d2"
      using u(3) insert_attempt_Inr(1) [OF s(1)] by (simp add: rows_step_def)
    then show "rows_step (\<lambda>r r'. if rID r = tIntentID t then opened t r r' else row_step r r') d d2"
    proof (rule rows_step_mono)
      fix q q' assume q: "q \<in> set (dbIntents d)"
        "q' = (if rID q = bqIntentID req then sending_row now fresh q else q)"
      have "opened t q q'" if "rID q = bqIntentID req"
      proof -
        have b': "rStatus q = StatusPending" "rLeaseToken q = Some (bqLeaseToken req)"
          "rGenerationNo q = iGenerationNo i" "rCreateKey q = Some (beProviderKey effect)"
          "rBoundEndpoint q = Some (beEndpoint effect)"
          using b q(1) that id by (simp_all add: bound_as_def)
        have "rCurrentAttempt q = None" using idle_row [OF sound_checks [OF sd q(1)]] b'(1) by simp
        with q(2) that b' tf ck show ?thesis
          by (auto simp: opened_def sending_row_def generation_step_def same_commitment_def calls_as_bound_def)
      qed
      then show "if rID q = tIntentID t then opened t q q' else row_step q q'"
        using q(2) tf(1) by simp
    qed
    show "\<exists>r\<in>set (dbIntents d). rID r = tIntentID t" using row tf(1) by simp
    show "\<forall>u\<in>set (dbAttempts d). tRecordKind u = RecordAttempt \<and> tIntentID u = tIntentID t
        \<and> tGenerationNo u = tGenerationNo t \<longrightarrow> same_effect u t"
    proof (intro ballI impI)
      fix u assume u: "u \<in> set (dbAttempts d)" "tRecordKind u = RecordAttempt \<and>
          tIntentID u = tIntentID t \<and> tGenerationNo u = tGenerationNo t"
      with p obtain q where q: "q \<in> set (dbIntents d)" "rID q = bqIntentID req" "calls_as_bound q u"
        using tf(1) unfolding pact_def bound_calls_def by auto
      with b id have "rGenerationNo q = iGenerationNo i" "rCreateKey q = Some (beProviderKey effect)"
        "rBoundEndpoint q = Some (beEndpoint effect)" by (simp_all add: bound_as_def)
      with q(3) u(2) tf ck show "same_effect u t"
        by (auto simp: calls_as_bound_def same_effect_def)
    qed
  qed
  from pact_quiet [OF this q] show ?thesis .
qed

text \<open>The commitment a worker holds: due, under its lease, as it was read.\<close>

definition held_by :: "string \<Rightarrow> intent \<Rightarrow> row \<Rightarrow> db \<Rightarrow> bool" where
  "held_by token i r d \<longleftrightarrow> intent_row (iID i) d = Some r \<and> rStatus r = StatusPending \<and>
     rLeaseToken r = Some token \<and> iStatus i = StatusPending \<and> iGenerationNo i = rGenerationNo r \<and>
     (iGenerationBound i \<longleftrightarrow> rCreateKey r \<noteq> None)"

lemma held_by_current: "sound d \<Longrightarrow> held_by tok i r d \<Longrightarrow> current i d"
  using row_by_id [of d "iID i" r] by (auto simp: held_by_def current_def)

lemma bindGeneration_bound:
  assumes "sound d" and h: "held_by tok i r d"
    and "bindGenerationTx dc i proposed (\<not> iGenerationBound i) ctx d = Inr (effect, d')"
  shows "quiet_step d d'" "bound_as tok i effect d'" "current i d'"
    "\<exists>q\<in>set (dbIntents d'). rID q = iID i"
proof -
  note r = intent_row_Some [of "iID i" d r]
  have own: "q = r" if "q \<in> set (dbIntents d)" "rID q = iID i" for q
    using row_by_id [OF assms(1) _ that] h by (simp add: held_by_def)
  have "quiet_step d d' \<and> bound_as tok i effect d' \<and> current i d' \<and> (\<exists>q\<in>set (dbIntents d'). rID q = iID i)"
  proof (cases "iGenerationBound i")
    case True
    with assms(3) h have "d' = d" "rCreateKey r = Some (beProviderKey effect)"
      "text_or_empty (rBoundEndpoint r) = beEndpoint effect" "beEndpoint effect \<noteq> []"
      by (auto simp: bindGenerationTx_def held_by_def split: option.splits if_splits)
    moreover from calculation(3,4) have "rBoundEndpoint r = Some (beEndpoint effect)"
      by (cases "rBoundEndpoint r") auto
    moreover have "rStatus r = StatusPending" "rLeaseToken r = Some tok" "iStatus i = StatusPending"
      "rGenerationNo r = iGenerationNo i" "r \<in> set (dbIntents d)" "rID r = iID i"
      using h r by (simp_all add: held_by_def)
    moreover have "bound_as tok i effect d \<and> current i d"
      unfolding bound_as_def current_def
    proof (intro conjI ballI impI)
      fix q assume "q \<in> set (dbIntents d)" "rID q = iID i"
      then have "q = r" by (rule own)
      with calculation show "rStatus q = StatusPending" "rLeaseToken q = Some tok"
        "rGenerationNo q = iGenerationNo i" "rCreateKey q = Some (beProviderKey effect)"
        "rBoundEndpoint q = Some (beEndpoint effect)" "rStatus q = iStatus i" by simp_all
    qed
    ultimately show ?thesis using quiet_step_refl [OF assms(1)] by blast
  next
    case False
    with assms(3) obtain key where k: "effect = \<lparr>beEndpoint = proposed, beProviderKey = key, beContext = ctx\<rparr>"
      "update_intents (\<lambda>r. rID r = iID i) (bound_row proposed key ctx) d = Inr d'"
      by (auto simp: bindGenerationTx_def split: sum.splits if_splits)
    have rid: "rID (bound_row proposed key ctx q) = rID q" for q by (simp add: bound_row_def)
    have none: "rCreateKey r = None" using h False by (simp add: held_by_def)
    have q1: "quiet_step d d'"
    proof (rule update_intents_quiet [OF assms(1) k(2) rid])
      fix q assume "q \<in> set (dbIntents d)" "rID q = iID i"
      with own none show "row_step q (bound_row proposed key ctx q)"
        by (simp add: bound_row_def row_step_def generation_step_def same_commitment_def)
    qed
    have mp: "dbIntents d' = map (\<lambda>q. if rID q = iID i then bound_row proposed key ctx q else q) (dbIntents d)"
      using update_intents_Inr(1) [OF k(2)] by simp
    have hr: "rStatus r = StatusPending" "rLeaseToken r = Some tok" "iStatus i = StatusPending"
      "rGenerationNo r = iGenerationNo i" "r \<in> set (dbIntents d)" "rID r = iID i"
      using h r by (simp_all add: held_by_def)
    have image: "q' = bound_row proposed key ctx r"
      if "q' \<in> set (dbIntents d')" "rID q' = iID i" for q'
    proof -
      from that(1) mp obtain q where "q \<in> set (dbIntents d)"
        "q' = (if rID q = iID i then bound_row proposed key ctx q else q)" by auto
      with that(2) own rid show ?thesis by (cases "rID q = iID i") simp_all
    qed
    have bound: "bound_as tok i effect d' \<and> current i d'"
      unfolding bound_as_def current_def
    proof (intro conjI ballI impI)
      fix q assume "q \<in> set (dbIntents d')" "rID q = iID i"
      then have "q = bound_row proposed key ctx r" by (rule image)
      with hr k(1) show "rStatus q = StatusPending" "rLeaseToken q = Some tok"
        "rGenerationNo q = iGenerationNo i" "rCreateKey q = Some (beProviderKey effect)"
        "rBoundEndpoint q = Some (beEndpoint effect)" "rStatus q = iStatus i"
        by (simp_all add: bound_row_def)
    qed
    have "bound_row proposed key ctx r \<in> set (dbIntents d')"
      using mp hr(5,6) by force
    then show ?thesis using q1 rid hr(6) bound by metis
  qed
  then show "quiet_step d d'" "bound_as tok i effect d'" "current i d'"
    "\<exists>q\<in>set (dbIntents d'). rID q = iID i" by simp_all
qed

lemma preparation_ready_opens:
  assumes "decides ((asks TriggerPreparation i)\<lparr>inPreparation := PreparationReady\<rparr>) = Inr t"
  shows "OpenGeneration (trEffects t) \<longleftrightarrow> \<not> iGenerationBound i"
  using decides_Inr [OF assms]
  by (auto simp: Decide_quiet decide_def decidePreparation_def goes_def split: if_splits)

lemma openBound_pact:
  assumes "pact d" and "bound_as (bqLeaseToken req) i effect d" and "current i d"
    and "iID i = bqIntentID req" and "\<exists>q\<in>set (dbIntents d). rID q = iID i"
    and "openBound dc now fresh req r i plan c opens effect d = Inr (res, d')"
  shows "pact d'"
proof (cases "DecodeBoundContext dc (beContext effect)")
  case None
  with assms(6) refuseAttempt_pact [OF assms(1,3)] show ?thesis by (auto simp: openBound_def)
next
  case (Some bound)
  with assms(6) obtain key where k: "call_key dc i plan c effect = Inr key"
    by (auto simp: openBound_def)
  with Some assms(6) refuseAttempt_pact [OF assms(1,3)] startAttempt_pact [OF assms(1,2) k assms(4)] assms(4,5)
  show ?thesis by (auto simp: openBound_def split: if_splits)
qed

lemma openAttempt_pact:
  assumes "pact d" and h: "held_by (bqLeaseToken req) i r d" and "iID i = bqIntentID req"
    and "openAttempt dc now fresh req r i c d = Inr (res, d')"
  shows "pact d'"
proof -
  have sd: "sound d" using assms(1) by (simp add: pact_def)
  from assms(4) obtain plan t ctx where s: "planAttempt i c = Inr plan"
    "decides ((asks TriggerPreparation i)\<lparr>inPreparation := PreparationReady\<rparr>) = Inr t"
    "opening_context dc req i (OpenGeneration (trEffects t)) d = Inr ctx"
    "(case bindGenerationTx dc i (bqBoundEndpoint req) (OpenGeneration (trEffects t)) ctx d of
       Inl (Undeliverable detail) \<Rightarrow>
         refuseAttempt dc now fresh req i plan ''binding_lost'' detail d
     | Inl e \<Rightarrow> Inl e
     | Inr (effect, d1) \<Rightarrow> openBound dc now fresh req r i plan c (OpenGeneration (trEffects t)) effect d1)
       = Inr (res, d')"
    by (auto simp: openAttempt_def Let_def)
  note o = preparation_ready_opens [OF s(2)]
  show ?thesis
  proof (cases "bindGenerationTx dc i (bqBoundEndpoint req) (OpenGeneration (trEffects t)) ctx d")
    case (Inl e)
    with s(4) refuseAttempt_pact [OF assms(1) held_by_current [OF sd h]] show ?thesis
      by (auto split: store_error.splits)
  next
    case (Inr ed)
    obtain effect d1 where ed: "ed = (effect, d1)" by (cases ed)
    note bg = bindGeneration_bound [OF sd h, of dc "bqBoundEndpoint req" ctx effect d1]
    have "bindGenerationTx dc i (bqBoundEndpoint req) (\<not> iGenerationBound i) ctx d = Inr (effect, d1)"
      using Inr ed o by simp
    note b = bg [OF this]
    from openBound_pact [OF pact_quiet [OF assms(1) b(1)] b(2,3) assms(3) b(4)] s(4) Inr ed
    show ?thesis by auto
  qed
qed

lemma refuseUnreadable_pact:
  assumes "pact d" "current i d" "refuseUnreadable dc now fresh req i e d = Inr (res, d')"
  shows "pact d'"
proof (cases e)
  case (Undeliverable why)
  with assms(3) obtain shape where
    "refuseAttempt dc now fresh req i shape ''state_unreadable'' why d = Inr (res, d')"
    unfolding refuseUnreadable_def by (auto elim!: then_ok_InrE simp del: then_ok_Inr)
  from refuseAttempt_pact [OF assms(1,2) this] show ?thesis .
qed (use assms(3) in \<open>simp_all add: refuseUnreadable_def\<close>)

lemma release_quiet:
  assumes "sound d" and "\<And>r. r \<in> set (dbIntents d) \<Longrightarrow> rID r = i \<Longrightarrow> rStatus r = StatusPending"
    and "releaseForRetryTx now clock i d = Inr d'"
  shows "quiet_step d d'"
proof (rule update_intents_quiet [OF assms(1) assms(3) [unfolded releaseForRetryTx_def]])
  fix r assume "r \<in> set (dbIntents d)" "rID r = i" "intent_checks (released_row now clock r)"
  with assms(2) sound_checks [OF assms(1)] show "row_step r (released_row now clock r)"
    by (intro idle_step) (auto simp: released_row_def same_commitment_def)
qed simp

lemma beginHeld_pact:
  assumes "pact d" and r: "intent_row (bqIntentID req) d = Some r"
    and st: "rStatus r = StatusPending" "rLeaseToken r = Some (bqLeaseToken req)"
    and "beginHeld dc now clock fresh req stopping outdated r d = Inr (res, d')"
  shows "pact d'"
proof -
  let ?i = "intent_of now r"
  have sd: "sound d" using assms(1) by (simp add: pact_def)
  have id: "iID ?i = bqIntentID req" using intent_row_Some(2) [OF r] by simp
  have h: "held_by (bqLeaseToken req) ?i r d" using r st id by (simp add: held_by_def)
  have c: "current ?i d" by (rule held_by_current [OF sd h])
  show ?thesis
  proof (cases "executableHere dc ?i")
    case (Inl e)
    with assms(5) refuseUnreadable_pact [OF assms(1) c] show ?thesis by (simp add: beginHeld_def)
  next
    case (Inr fd)
    obtain form digest where fd: "fd = (form, digest)" by (cases fd)
    note e = assms(5) [unfolded beginHeld_def Let_def Inr fd sum.case prod.case]
    consider (outdated) outdated | (refused) "\<not> outdated" "bqPreparation req \<noteq> PreparationReady"
      | (ready) "\<not> outdated" "bqPreparation req = PreparationReady" by blast
    then show ?thesis
    proof cases
      case outdated
      with e obtain d1 where "releaseForRetryTx now clock (bqIntentID req) d = Inr d1" "d' = d1" by auto
      with release_quiet [OF sd, of "bqIntentID req"] row_by_id [OF sd r] st(1)
      have "quiet_step d d'" by blast
      from pact_quiet [OF assms(1) this] show ?thesis .
    next
      case refused
      with e obtain shape where
        "recordPreparation dc now fresh req ?i shape stopping d = Inr (res, d')" by auto
      from recordPreparation_pact [OF assms(1) c refused(2) this] show ?thesis .
    next
      case ready
      then show ?thesis
      proof (cases "attemptContentTx dc d ?i form digest")
        case (Inl x)
        with ready e refuseUnreadable_pact [OF assms(1) c] show ?thesis by simp
      next
        case (Inr x)
        with ready e openAttempt_pact [OF assms(1) h id] show ?thesis by simp
      qed
    qed
  qed
qed

lemma BeginAttempt_pact:
  assumes "pact d" and "BeginAttempt dc now clock fresh req d = Inr (res, d')"
  shows "pact d'"
proof (cases "d' = d")
  case True
  with assms(1) show ?thesis by simp
next
  case False
  from assms(2) obtain outdated where s: "refusal_stale req d = Inr outdated"
    by (auto simp: BeginAttempt_def)
  from assms(2) False obtain r where r: "intent_row (bqIntentID req) d = Some r"
    by (auto simp: BeginAttempt_def s split: option.splits)
  from assms(2) False have "rStatus r = StatusPending" "rLeaseToken r = Some (bqLeaseToken req)"
    "beginHeld dc now clock fresh req (begin_stopping dc now req d) outdated r d = Inr (res, d')"
    by (auto simp: BeginAttempt_def Let_def s r split: if_splits)
  from beginHeld_pact [OF assms(1) r this] show ?thesis .
qed

section \<open>Closing an attempt\<close>

lemma update_attempts_Inr:
  assumes "update_attempts p f d = Inr d'"
  shows "d' = d\<lparr>dbAttempts := map (\<lambda>t. if p t then f t else t) (dbAttempts d)\<rparr>"
    "\<forall>t\<in>set (dbAttempts d). p t \<longrightarrow> attempt_checks (f t)"
  using assms by (auto simp: update_attempts_def list_all_iff split: if_splits)

lemma update_attempts_sound:
  assumes "sound d" "update_attempts p f d = Inr d'" "\<And>t. tID (f t) = tID t"
  shows "sound d'"
proof -
  have "map tID (map (\<lambda>t. if p t then f t else t) ts) = map tID ts" for ts
    using assms(3) by simp
  with assms(1) update_attempts_Inr [OF assms(2)] show ?thesis
    by (auto simp: sound_def simp del: map_map)
qed

text \<open>An open attempt is closed and its commitment lets go of it, in one transaction.\<close>

lemma pact_close:
  assumes p: "pact d" and r: "r \<in> set (dbIntents d)" "rCurrentAttempt r = Some a"
    and up: "update_attempts (\<lambda>u. tID u = a \<and> tFinishedAt u = None) f d = Inr d1"
    and f: "\<And>t. same_record t (f t)" "\<And>t. tFinishedAt (f t) \<noteq> None"
    and ap: "applyTransitionTx now w d1 = Inr d2" "trTo (wTransition w) \<noteq> StatusSending"
      "iID (wIntent w) = rID r"
  shows "pact d2"
proof -
  let ?f = "\<lambda>u. if tID u = a \<and> tFinishedAt u = None then f u else u"
  have sd: "sound d" using p by (simp add: pact_def)
  have sd1: "sound d1" by (rule update_attempts_sound [OF sd up]) (use f(1) in \<open>simp add: same_record_def\<close>)
  note st = apply_steps [OF sd1 ap(1,2)]
  note u = update_attempts_Inr [OF up]
  have held: "rCurrentAttempt q = Some a \<longleftrightarrow> rID q = rID r" if "q \<in> set (dbIntents d)" for q
  proof
    assume q: "rCurrentAttempt q = Some a"
    from p r obtain t where t: "t \<in> set (dbAttempts d)" "tID t = a"
      unfolding pact_def held_open_def by blast
    from pact_holder(1) [OF p that q t] pact_holder(1) [OF p r t] show "rID q = rID r" by simp
  next
    assume "rID q = rID r"
    then have "q = r" using sound_intent_row [OF sd] that r(1) by (metis option.inject)
    with r(2) show "rCurrentAttempt q = Some a" by simp
  qed
  show ?thesis
  proof (rule pact_release [OF p st(1), of ?f a])
    show "dbAttempts d2 = map ?f (dbAttempts d)" using st(2) u(1) by simp
    show "same_record t (?f t)" for t using f(1) by simp
    show "tFinishedAt (?f t) = None \<longleftrightarrow> tFinishedAt t = None \<and> tID t \<noteq> a" for t using f(2) by auto
    have "rows_step (\<lambda>r r'. if rID r = iID (wIntent w) then released r r' else row_step r r') d d2"
      using st(3) u(1) by (simp add: rows_step_def)
    then show "rows_step (\<lambda>r r'. if rCurrentAttempt r = Some a then released r r' else row_step r r') d d2"
      by (rule rows_step_mono) (use held ap(3) in \<open>simp split: if_splits\<close>)
  qed
qed

lemma discharged_opens_nothing:
  assumes "dischargedByEarlierCallTx now i d = Inr (Some t)"
  shows "trTo t \<noteq> StatusSending"
proof -
  from assms have "decides ((asks TriggerVerdict i)\<lparr>inVerdict := VerdictHappened\<rparr>) = Inr t"
    by (auto simp: dischargedByEarlierCallTx_def split: if_splits)
  from decides_opens_nothing [OF this] show ?thesis by simp
qed

lemma finish_transition_opens_nothing:
  assumes "finish_transition now i c applied final d = Inr t"
  shows "trTo t \<noteq> StatusSending"
proof -
  from assms obtain t' settled where s: "decides ((asks TriggerFinishAttempt i)\<lparr>inOutcome := cOutcome c,
       inAttemptRevision := applied, inAttemptIsFinal := final,
       inDoubtInGeneration := doubt_in_generation now i d\<rparr>) = Inr t'"
    "dischargedByEarlierCallTx now i d = Inr settled" "t = (case settled of None \<Rightarrow> t' | Some x \<Rightarrow> x)"
    by (auto simp: finish_transition_def)
  from decides_opens_nothing [OF s(1)] discharged_opens_nothing s(2,3) show ?thesis
    by (auto split: option.splits)
qed

lemma recover_transition_opens_nothing:
  assumes "recover_transition now i expired applied d = Inr t"
  shows "trTo t \<noteq> StatusSending"
proof -
  from assms obtain t' settled where s: "decides ((asks TriggerRecoverStale i)\<lparr>inAttemptRevision := applied,
       inExpired := expired\<rparr>) = Inr t'"
    "dischargedByEarlierCallTx now i d = Inr settled" "t = (case settled of None \<Rightarrow> t' | Some x \<Rightarrow> x)"
    by (auto simp: recover_transition_def)
  from decides_opens_nothing [OF s(1)] discharged_opens_nothing s(2,3) show ?thesis
    by (auto split: option.splits)
qed

lemma reviewAfter_quiet:
  assumes "sound d" "reviewAfter dc now j t d = Inr (t', d')"
  shows "quiet_step d d'"
proof -
  from assms(2) obtain r moved where r: "intent_row j d = Some r"
    "reviewReceiptTx dc now (intent_of now r) False d = Inr (moved, d')"
    by (auto simp: reviewAfter_def split: option.splits)
  from reviewReceipt_quiet [OF assms(1) current_read [OF assms(1) r(1)] r(2)] show ?thesis .
qed

lemma recordAcceptedEffect_quiet:
  "sound d \<Longrightarrow> recordAcceptedEffectTx i a ref d = Inr d' \<Longrightarrow> quiet_step d d'"
  by (rule sound_rows) (auto simp: recordAcceptedEffectTx_def split: if_splits)

lemma queuedAfter_quiet:
  assumes "sound d" "queuedAfter dc now i a c ref t d = Inr (t', d')"
  shows "quiet_step d d'"
proof (cases "iCompletionMode i = CompletionOnProviderReceipt")
  case False
  with assms show ?thesis by (simp add: queuedAfter_def quiet_step_refl)
next
  case True
  with assms(2) obtain d1 where s: "(if cOutcome c = OutcomeAccepted
      then recordAcceptedEffectTx i a ref d else Inr d) = Inr d1"
    "(if trTo t = StatusAwaitingReceipt \<or> trTo t = StatusPending
        then reviewAfter dc now (iID i) t d1 else Inr (t, d1)) = Inr (t', d')"
    by (auto simp: queuedAfter_def)
  have q1: "quiet_step d d1"
    using s(1) recordAcceptedEffect_quiet [OF assms(1)] quiet_step_refl [OF assms(1)]
    by (auto split: if_splits)
  have "quiet_step d1 d'"
    using s(2) reviewAfter_quiet [OF quiet_step_sound [OF q1]]
      quiet_step_refl [OF quiet_step_sound [OF q1]] by (auto split: if_splits)
  with q1 show ?thesis by (blast intro: quiet_step_trans)
qed

lemma closed_by_worker_record [simp]:
  "same_record t (closed_by_worker now r c rc su pr t)"
  "tFinishedAt (closed_by_worker now r c rc su pr t) = Some now"
  by (simp_all add: closed_by_worker_def same_record_def Let_def)

lemma closed_by_recovery_record [simp]:
  "same_record t (closed_by_recovery now pr t)" "tFinishedAt (closed_by_recovery now pr t) = Some now"
  by (simp_all add: closed_by_recovery_def same_record_def)

text \<open>What closing an open attempt is made of.\<close>

lemma finishOpen_stages:
  assumes "finishOpen dc now r t c req print d = Inr (res, d')"
  obtains w d1 d2 d3 n ref tr tr' where "applyTransitionTx now w d1 = Inr d2"
    "wIntent w = intent_of now r" "trTo (wTransition w) \<noteq> StatusSending"
    "update_attempts (\<lambda>u. tID u = tID t \<and> tFinishedAt u = None)
          (closed_by_worker now r c (fqReceipt req) (fqSummary req) print) d = Inr d1"
    "(case finish_stopping dc (intent_of now r) c of None \<Rightarrow> Inr (0, d2)
        | Some step \<Rightarrow> if trTo tr = StatusPermanentFailed
            then stopEscalationTx dc now (intent_of now r) step d2 else Inr (0, d2)) = Inr (n, d3)"
    "queuedAfter dc now (intent_of now r) (tID t) c ref tr d3 = Inr (tr', d')"
    "res = FinalizeFinalized (trTo tr') (trRow tr')"
proof -
  let ?i = "intent_of now r"
  define receipt ref where "receipt = (if tAttemptKind t = AttemptMutation then [] else fqReceipt req)"
    and "ref = (if tAttemptKind t = AttemptMutation then [] else ReceiptRefOrEmpty c)"
  define w where "w tr b final = (writing ?i tr ActorWorker)\<lparr>wBackoff := b,
      wAppliedRevision := tAppliedRevision t, wAttemptIsFinal := final, wReceipt := receipt,
      wReceiptRef := ref\<rparr>" for tr b final
  have w: "wIntent (w tr b final) = ?i" "wTransition (w tr b final) = tr" for tr b final
    by (simp_all add: w_def)
  from assms obtain final tr d1 b d2 d3 n tr' where s:
    "applyTransitionTx now (w tr b final) d1 = Inr d2"
    "finish_transition now ?i c (tAppliedRevision t) final d = Inr tr"
    "update_attempts (\<lambda>u. tID u = tID t \<and> tFinishedAt u = None)
          (closed_by_worker now r c (fqReceipt req) (fqSummary req) print) d = Inr d1"
    "(case finish_stopping dc ?i c of None \<Rightarrow> Inr (0, d2)
        | Some step \<Rightarrow> if trTo tr = StatusPermanentFailed then stopEscalationTx dc now ?i step d2
                       else Inr (0, d2)) = Inr (n, d3)"
    "queuedAfter dc now ?i (tID t) c ref tr d3 = Inr (tr', d')"
    "res = FinalizeFinalized (trTo tr') (trRow tr')"
    unfolding finishOpen_def Let_def receipt_def [symmetric] ref_def [symmetric] w_def [symmetric]
    by (auto simp del: split_paired_Ex)
  have to: "trTo (wTransition (w tr b final)) \<noteq> StatusSending"
    using finish_transition_opens_nothing [OF s(2)] w by simp
  show ?thesis
    by (rule that [OF s(1) _ to s(3,4,5,6)]) (simp add: w)
qed

lemma queuedAfter_stop_quiet:
  assumes "sound d2"
    and "(case stop of None \<Rightarrow> Inr (0, d2)
        | Some step \<Rightarrow> if b then stopEscalationTx dc now i step d2 else Inr (0, d2)) = Inr (n, d3)"
    and "queuedAfter dc now i a c ref tr d3 = Inr (tr', d')"
  shows "quiet_step d2 d'"
proof -
  have q3: "quiet_step d2 d3"
    using assms(2) stopEscalation_quiet [OF assms(1)] quiet_step_refl [OF assms(1)]
    by (auto split: option.splits if_splits)
  from queuedAfter_quiet [OF quiet_step_sound [OF q3] assms(3)] q3 show ?thesis
    by (blast intro: quiet_step_trans)
qed

lemma finishOpen_pact:
  assumes "pact d" and r: "r \<in> set (dbIntents d)" "rCurrentAttempt r = Some (tID t)"
    and fin: "finishOpen dc now r t c req print d = Inr (res, d')"
  shows "pact d'"
proof (rule finishOpen_stages [OF fin])
  fix w d1 d2 d3 n ref tr tr'
  assume s: "applyTransitionTx now w d1 = Inr d2" "wIntent w = intent_of now r"
    "trTo (wTransition w) \<noteq> StatusSending"
    "update_attempts (\<lambda>u. tID u = tID t \<and> tFinishedAt u = None)
          (closed_by_worker now r c (fqReceipt req) (fqSummary req) print) d = Inr d1"
    "(case finish_stopping dc (intent_of now r) c of None \<Rightarrow> Inr (0, d2)
        | Some step \<Rightarrow> if trTo tr = StatusPermanentFailed
            then stopEscalationTx dc now (intent_of now r) step d2 else Inr (0, d2)) = Inr (n, d3)"
    "queuedAfter dc now (intent_of now r) (tID t) c ref tr d3 = Inr (tr', d')"
  have p2: "pact d2"
    by (rule pact_close [OF assms(1) r s(4) _ _ s(1,3)]) (simp_all add: s(2))
  then have "sound d2" by (simp add: pact_def)
  from pact_quiet [OF p2 queuedAfter_stop_quiet [OF this s(5,6)]] show ?thesis .
qed

text \<open>The journal and the rows after it, and how the next call finds the attempt.\<close>

lemma finishOpen_state:
  assumes sd: "sound d" and fin: "finishOpen dc now r t c req print d = Inr (res, d')"
  shows "sound d'" "rows_step generation_step d d'" "\<exists>to row. res = FinalizeFinalized to row"
    "dbAttempts d' = map (\<lambda>u. if tID u = tID t \<and> tFinishedAt u = None
       then closed_by_worker now r c (fqReceipt req) (fqSummary req) print u else u) (dbAttempts d)"
proof -
  obtain w d1 d2 d3 n ref tr tr' where s: "applyTransitionTx now w d1 = Inr d2"
    "wIntent w = intent_of now r" "trTo (wTransition w) \<noteq> StatusSending"
    "update_attempts (\<lambda>u. tID u = tID t \<and> tFinishedAt u = None)
          (closed_by_worker now r c (fqReceipt req) (fqSummary req) print) d = Inr d1"
    "(case finish_stopping dc (intent_of now r) c of None \<Rightarrow> Inr (0, d2)
        | Some step \<Rightarrow> if trTo tr = StatusPermanentFailed
            then stopEscalationTx dc now (intent_of now r) step d2 else Inr (0, d2)) = Inr (n, d3)"
    "queuedAfter dc now (intent_of now r) (tID t) c ref tr d3 = Inr (tr', d')"
    "res = FinalizeFinalized (trTo tr') (trRow tr')"
    by (rule finishOpen_stages [OF fin])
  have "tID (closed_by_worker now r c rc su print u) = tID u" for rc su u
    by (simp add: closed_by_worker_def Let_def)
  then have sd1: "sound d1" by (intro update_attempts_sound [OF sd s(4)])
  note a = apply_steps [OF sd1 s(1,3)]
  have q: "quiet_step d2 d'" by (rule queuedAfter_stop_quiet [OF a(1) s(5,6)])
  show "sound d'" using q by (rule quiet_step_sound)
  show "\<exists>to row. res = FinalizeFinalized to row" using s(7) by blast
  show "dbAttempts d' = map (\<lambda>u. if tID u = tID t \<and> tFinishedAt u = None
       then closed_by_worker now r c (fqReceipt req) (fqSummary req) print u else u) (dbAttempts d)"
    using q a(2) update_attempts_Inr(1) [OF s(4)] by (simp add: quiet_step_def)
  have "rows_step generation_step d1 d2"
    by (rule rows_step_mono [OF a(3)]) (auto intro: row_step_generation released_generation split: if_splits)
  moreover have "rows_step generation_step d2 d'"
    using q by (auto simp: quiet_step_def intro: rows_step_mono row_step_generation)
  ultimately have "rows_step generation_step d1 d'"
    by (rule rows_step_compose) (rule generation_step_trans)
  then show "rows_step generation_step d d'"
    using update_attempts_Inr(1) [OF s(4)] by (simp add: rows_step_def)
qed

lemma recordObservation_quiet:
  assumes "sound d" "recordObservationTx now r a c rc su pr v d = Inr (b, d')"
  shows "quiet_step d d'"
  using sound_rows [OF assms(1)] quiet_step_refl [OF assms(1)] assms(2)
  by (auto simp: recordObservationTx_def Let_def split: option.splits if_splits)

lemma alreadyFinished_quiet:
  assumes "sound d" "alreadyFinished now r t c req pr d = Inr (res, d')"
  shows "quiet_step d d'"
  using assms(2) recordObservation_quiet [OF assms(1)] quiet_step_refl [OF assms(1)]
  by (auto simp: alreadyFinished_def split: if_splits)

lemma Finalize_pact:
  assumes "pact d" and "FinalizeDeliveryAttempt dc now req d = Inr (res, d')"
  shows "pact d'"
proof (cases "d' = d")
  case True
  with assms(1) show ?thesis by simp
next
  case False
  have sd: "sound d" using assms(1) by (simp add: pact_def)
  from assms(2) False obtain t r where t: "attempt_row (fqAttemptID req) d = Some t"
    and r: "intent_row (tIntentID t) d = Some r"
    by (auto simp: FinalizeDeliveryAttempt_def split: option.splits)
  have tok: "tLeaseToken t = Some (fqLeaseToken req)"
    using assms(2) False t r by (rule_tac ccontr) (simp add: FinalizeDeliveryAttempt_def)
  obtain print where f:
    "(if tFinishedAt t \<noteq> None then alreadyFinished now r t (completed t (fqCompletion req)) req print d
      else if rCurrentAttempt r \<noteq> Some (tID t) \<or> rLeaseToken r \<noteq> tLeaseToken t
      then Inl (OpenButElsewhere (tID t))
      else finishOpen dc now r t (completed t (fqCompletion req)) req print d) = Inr (res, d')"
    using assms(2) unfolding FinalizeDeliveryAttempt_def Let_def t r option.case tok
    by (auto simp del: not_None_eq split del: if_split)
  show ?thesis
  proof (cases "tFinishedAt t")
    case None
    with f have "rCurrentAttempt r = Some (tID t)"
      "finishOpen dc now r t (completed t (fqCompletion req)) req print d = Inr (res, d')"
      by (auto split: if_splits)
    from finishOpen_pact [OF assms(1) intent_row_Some(1) [OF r] this] show ?thesis .
  next
    case (Some x)
    with f alreadyFinished_quiet [OF sd] pact_quiet [OF assms(1)] show ?thesis by auto
  qed
qed

lemma recoverHeld_pact:
  assumes "pact d" and r: "r \<in> set (dbIntents d)" "rCurrentAttempt r = Some (tID t)"
    and "recoverHeld dc now r t d = Inr (res, d')"
  shows "pact d'"
proof (cases "d' = d")
  case True
  with assms(1) show ?thesis by simp
next
  case False
  obtain i expired where sc: "scanIntent now r = (i, expired)" by (cases "scanIntent now r")
  have i: "iID i = rID r" using intent_of_sel(1) [of now r] by (simp add: sc)
  define w where "w tr b = (writing i tr ActorRecovery)\<lparr>wBackoff := b,
      wAppliedRevision := tAppliedRevision t,
      wReason := ''the lease expired with an attempt in flight''\<rparr>" for tr b
  have w: "wIntent (w tr b) = i" "wTransition (w tr b) = tr" for tr b by (simp_all add: w_def)
  have nf: "tFinishedAt t = None"
  proof (rule ccontr)
    assume "tFinishedAt t \<noteq> None"
    with assms(4) have "d' = d"
      by (auto simp: recoverHeld_def sc Let_def simp del: not_None_eq split del: if_split)
    with False show False ..
  qed
  from assms(4) obtain d1 d2 b tr tr' print where s:
    "applyTransitionTx now (w tr b) d1 = Inr d2"
    "recover_transition now i expired (tAppliedRevision t) d1 = Inr tr"
    "update_attempts (\<lambda>u. tID u = tID t \<and> tFinishedAt u = None) (closed_by_recovery now print) d = Inr d1"
    "(if iCompletionMode i = CompletionOnProviderReceipt \<and> trTo tr = StatusPending
      then reviewAfter dc now (iID i) tr d2 else Inr (tr, d2)) = Inr (tr', d')"
    unfolding recoverHeld_def Let_def sc prod.case w_def [symmetric] nf
    by (auto simp del: split_paired_Ex split del: if_split)
  have to: "trTo (wTransition (w tr b)) \<noteq> StatusSending"
    using recover_transition_opens_nothing [OF s(2)] w by simp
  have p2: "pact d2"
    by (rule pact_close [OF assms(1) r s(3) _ _ s(1) to]) (simp_all add: w i)
  then have sd2: "sound d2" by (simp add: pact_def)
  have "quiet_step d2 d'"
    using s(4) reviewAfter_quiet [OF sd2] quiet_step_refl [OF sd2]
    by (auto split: if_splits)
  from pact_quiet [OF p2 this] show ?thesis .
qed

lemma recoverOne_pact:
  assumes "pact d" and "recoverOne dc now i a d = Inr (res, d')"
  shows "pact d'"
proof (cases "d' = d")
  case True
  with assms(1) show ?thesis by simp
next
  case False
  from assms(2) False obtain r t where s: "intent_row i d = Some r" "rCurrentAttempt r = Some a"
    "attempt_row a d = Some t" "recoverHeld dc now r t d = Inr (res, d')"
    by (auto simp: recoverOne_def stale_def split: option.splits if_splits)
  have "tID t = a" using s(3) by (auto simp: attempt_row_def find_Some_iff)
  with recoverHeld_pact [OF assms(1) intent_row_Some(1) [OF s(1)] _ s(4)] s(2) show ?thesis by simp
qed

lemma recoverEach_pact:
  "pact d \<Longrightarrow> recoverEach dc cs d = (out, err, d') \<Longrightarrow> pact d'"
proof (induction cs arbitrary: d out err d')
  case (Cons c cs)
  obtain now i a where c: "c = (now, i, a)" by (cases c)
  show ?case
  proof (cases "recoverOne dc now i a d")
    case (Inl e)
    with Cons.prems c show ?thesis by simp
  next
    case (Inr x)
    obtain res d1 where x: "x = (res, d1)" by (cases x)
    obtain more err' d2 where m: "recoverEach dc cs d1 = (more, err', d2)" by (cases "recoverEach dc cs d1")
    have "pact d1" using recoverOne_pact [OF Cons.prems(1)] Inr x by simp
    from Cons.IH [OF this m] Cons.prems(2) c Inr x m show ?thesis by simp
  qed
qed simp

end
