(* ===== verification/Delivery.thy ===== *)
theory Delivery
  imports Protocol
begin

text \<open>
  The delivery protocol as a whole: every transaction a worker, the recovery, the queue and
  the inbox run, in any order and any number, and what holds of every state they can reach.
\<close>

section \<open>The transactions, one step each\<close>

inductive delivery_step :: "decoders \<Rightarrow> db \<Rightarrow> db \<Rightarrow> bool" for dc where
  begins: "BeginAttempt dc now clock fresh req d = Inr (res, d') \<Longrightarrow> delivery_step dc d d'"
| finishes: "FinalizeDeliveryAttempt dc now fin d = Inr (res', d') \<Longrightarrow> delivery_step dc d d'"
| recovers: "recoverOne dc now i a d = Inr (moved, d') \<Longrightarrow> delivery_step dc d d'"
| expires: "ExpireDueIntents busy now fam limit d = Inr (es, d') \<Longrightarrow> delivery_step dc d d'"
| claims: "ClaimDueIntents busy now clock tokens cl d = Inr (leased, d') \<Longrightarrow> delivery_step dc d d'"
| looks: "ClaimDueReceipts busy now clock fam ps bound d = Inr (due, d') \<Longrightarrow> delivery_step dc d d'"
| keeps_event: "RecordProviderEvent fresh e d = Inr (k, d') \<Longrightarrow> delivery_step dc d d'"
| hears: "ApplyProviderEvent dc now f k d = Inr (ar, d') \<Longrightarrow> delivery_step dc d d'"
| reviews: "ReviewReceiptWait dc now j d = Inr (rr, d') \<Longrightarrow> delivery_step dc d d'"

inductive delivery_run :: "decoders \<Rightarrow> db \<Rightarrow> db \<Rightarrow> bool" for dc where
  stays: "delivery_run dc d d"
| goes_on: "delivery_run dc d d' \<Longrightarrow> delivery_step dc d' d'' \<Longrightarrow> delivery_run dc d d''"

inductive_cases delivery_runE: "delivery_run dc d d'"

lemma RecordProviderEvent_quiet:
  assumes "sound d" "RecordProviderEvent fresh e d = Inr (k, d')"
  shows "quiet_step d d'"
  using sound_rows [OF assms(1)] quiet_step_refl [OF assms(1)] assms(2)
  by (auto simp: RecordProviderEvent_def split: option.splits if_splits)

lemma step_pact:
  assumes "delivery_step dc d d'" "pact d"
  shows "pact d'"
proof -
  have sd: "sound d" using assms(2) by (simp add: pact_def)
  from assms(1) show ?thesis
  proof cases
    case begins then show ?thesis using BeginAttempt_pact [OF assms(2)] by blast
  next
    case finishes then show ?thesis using Finalize_pact [OF assms(2)] by blast
  next
    case recovers then show ?thesis using recoverOne_pact [OF assms(2)] by blast
  next
    case expires then show ?thesis using pact_quiet [OF assms(2)] ExpireDueIntents_quiet [OF sd] by blast
  next
    case claims then show ?thesis using pact_quiet [OF assms(2)] ClaimDueIntents_quiet [OF sd] by blast
  next
    case looks then show ?thesis using pact_quiet [OF assms(2)] ClaimDueReceipts_quiet [OF sd] by blast
  next
    case keeps_event
    then show ?thesis using pact_quiet [OF assms(2)] RecordProviderEvent_quiet [OF sd] by blast
  next
    case hears then show ?thesis using pact_quiet [OF assms(2)] ApplyProviderEvent_quiet [OF sd] by blast
  next
    case reviews then show ?thesis using pact_quiet [OF assms(2)] ReviewReceiptWait_quiet [OF sd] by blast
  qed
qed

lemma run_pact: "delivery_run dc d d' \<Longrightarrow> pact d \<Longrightarrow> pact d'"
  by (induction rule: delivery_run.induct) (auto intro: step_pact)

section \<open>Facts about one transaction\<close>

lemma attempt_row_Some:
  assumes "attempt_row a d = Some t"
  shows "t \<in> set (dbAttempts d)" "tID t = a"
  using assms by (auto simp: attempt_row_def find_Some_iff)

lemma sound_attempt_row:
  assumes "sound d" "t \<in> set (dbAttempts d)"
  shows "attempt_row (tID t) d = Some t"
proof -
  have "find (\<lambda>x. tID x = tID t) ts = Some t" if "t \<in> set ts" "distinct (map tID ts)" for ts
    using that by (induction ts) force+
  with assms show ?thesis by (simp add: attempt_row_def sound_def)
qed

text \<open>One open attempt to a commitment, and it is the one its row names.\<close>

lemma pact_one_open:
  assumes "pact d" "t \<in> set (dbAttempts d)" "u \<in> set (dbAttempts d)"
    "tFinishedAt t = None" "tFinishedAt u = None" "tIntentID t = tIntentID u"
  shows "t = u"
proof -
  have sd: "sound d" using assms(1) by (simp add: pact_def)
  from assms(1,2,4) obtain r where r: "r \<in> set (dbIntents d)" "rID r = tIntentID t"
    "rCurrentAttempt r = Some (tID t)" unfolding pact_def open_held_def by blast
  from assms(1,3,5) obtain q where q: "q \<in> set (dbIntents d)" "rID q = tIntentID u"
    "rCurrentAttempt q = Some (tID u)" unfolding pact_def open_held_def by blast
  have "Some q = Some r" using sound_intent_row [OF sd r(1)] sound_intent_row [OF sd q(1)] r(2) q(2) assms(6)
    by simp
  with r(3) q(3) have "tID t = tID u" by simp
  then have "attempt_row (tID t) d = Some u" using sound_attempt_row [OF sd assms(3)] by (simp only:)
  with sound_attempt_row [OF sd assms(2)] show ?thesis by (simp only: option.inject)
qed

lemma pact_idle_none_open:
  assumes "pact d" "intent_row i d = Some r" "rCurrentAttempt r = None" "t \<in> set (dbAttempts d)"
    "tIntentID t = i"
  shows "tFinishedAt t \<noteq> None"
proof
  assume "tFinishedAt t = None"
  with assms(1,4) obtain q where q: "q \<in> set (dbIntents d)" "rID q = tIntentID t"
    "rCurrentAttempt q = Some (tID t)" unfolding pact_def open_held_def by blast
  have "q = r" using row_by_id [of d i r q] assms(1,2,5) q(1,2) by (simp add: pact_def)
  with q(3) assms(3) show False by simp
qed

section \<open>A begin that was authorised\<close>

lemma recordPreparation_result:
  "recordPreparation dc now fresh req i plan stop d = Inr (res, d') \<Longrightarrow> res \<noteq> BeginStarted began"
  by (auto simp: recordPreparation_def Let_def split: if_splits)

lemma refuseUnreadable_result:
  "refuseUnreadable dc now fresh req i e d = Inr (res, d') \<Longrightarrow> res \<noteq> BeginStarted began"
  by (cases e) (auto simp: refuseUnreadable_def refuseAttempt_def simp del: split_paired_Ex
      dest: recordPreparation_result)

lemma openAttempt_started:
  assumes "openAttempt dc now fresh req r i c d = Inr (BeginStarted began, d')"
  obtains plan ctx effect d1 bound key where
    "bindGenerationTx dc i (bqBoundEndpoint req) (\<not> iGenerationBound i) ctx d = Inr (effect, d1)"
    "call_key dc i plan c effect = Inr key"
    "startAttempt dc now fresh req r i plan c effect bound key (\<not> iGenerationBound i) d1
       = Inr (BeginStarted began, d')"
proof -
  from assms obtain plan t ctx where s:
    "decides ((asks TriggerPreparation i)\<lparr>inPreparation := PreparationReady\<rparr>) = Inr t"
    "(case bindGenerationTx dc i (bqBoundEndpoint req) (OpenGeneration (trEffects t)) ctx d of
       Inl (Undeliverable detail) \<Rightarrow>
         refuseAttempt dc now fresh req i plan ''binding_lost'' detail d
     | Inl e \<Rightarrow> Inl e
     | Inr (effect, d1) \<Rightarrow> openBound dc now fresh req r i plan c (OpenGeneration (trEffects t)) effect d1)
       = Inr (BeginStarted began, d')"
    by (auto simp: openAttempt_def Let_def)
  note o = preparation_ready_opens [OF s(1)]
  show ?thesis
  proof (cases "bindGenerationTx dc i (bqBoundEndpoint req) (OpenGeneration (trEffects t)) ctx d")
    case (Inl e)
    with s(2) show ?thesis
      by (cases e) (auto simp: refuseAttempt_def dest: recordPreparation_result)
  next
    case (Inr ed)
    obtain effect d1 where ed: "ed = (effect, d1)" by (cases ed)
    with s(2) Inr have ob: "openBound dc now fresh req r i plan c (\<not> iGenerationBound i) effect d1
        = Inr (BeginStarted began, d')" using o by simp
    then obtain bound key where "call_key dc i plan c effect = Inr key"
      "startAttempt dc now fresh req r i plan c effect bound key (\<not> iGenerationBound i) d1
         = Inr (BeginStarted began, d')"
      by (auto simp: openBound_def refuseAttempt_def dest: recordPreparation_result
          split: option.splits if_splits)
    with that Inr ed o show ?thesis by auto
  qed
qed

lemma begin_started:
  assumes "BeginAttempt dc now clock fresh req d = Inr (BeginStarted began, d')"
  obtains r c where "intent_row (bqIntentID req) d = Some r" "rStatus r = StatusPending"
    "rLeaseToken r = Some (bqLeaseToken req)" "lease_alive now r"
    "openAttempt dc now fresh req r (intent_of now r) c d = Inr (BeginStarted began, d')"
proof -
  from assms obtain old where s: "refusal_stale req d = Inr old" by (auto simp: BeginAttempt_def)
  from assms obtain r where r: "intent_row (bqIntentID req) d = Some r"
    by (auto simp: BeginAttempt_def s split: option.splits)
  from assms have h: "rStatus r = StatusPending" "rLeaseToken r = Some (bqLeaseToken req)"
    "lease_alive now r"
    and b: "beginHeld dc now clock fresh req (begin_stopping dc now req d) old r d
       = Inr (BeginStarted began, d')"
    by (auto simp: BeginAttempt_def Let_def s r split: if_splits)
  from b obtain c where "openAttempt dc now fresh req r (intent_of now r) c d = Inr (BeginStarted began, d')"
    by (auto simp: beginHeld_def Let_def simp del: split_paired_Ex dest: refuseUnreadable_result
        recordPreparation_result split: sum.splits if_splits)
  with that r h show ?thesis by blast
qed

lemma intent_row_step:
  assumes "sound d" "sound d'" "rows_step R d d'" "\<And>r r'. R r r' \<Longrightarrow> rID r' = rID r"
    and "intent_row i d = Some r"
  shows "\<exists>r'. intent_row i d' = Some r' \<and> R r r'"
proof -
  from rows_step_there [OF assms(3) intent_row_Some(1) [OF assms(5)]] obtain r' where
    r': "r' \<in> set (dbIntents d')" "R r r'" by blast
  with sound_intent_row [OF assms(2) r'(1)] assms(4) intent_row_Some(2) [OF assms(5)] show ?thesis
    by auto
qed

lemma row_step_commitment: "row_step r r' \<Longrightarrow> same_commitment r r'"
  by (simp add: row_step_def generation_step_def)

text \<open>What an authorised begin leaves: its record, and its commitment holding it.\<close>

lemma started_state:
  assumes p: "pact d" and b: "BeginAttempt dc now clock fresh req d = Inr (BeginStarted began, d')"
  obtains t r' where "scAttemptID began = fresh" "dbAttempts d' = dbAttempts d @ [t]" "tID t = fresh"
    "tIntentID t = bqIntentID req" "tFinishedAt t = None" "tLeaseToken t = Some (bqLeaseToken req)"
    "tBoundEndpoint t = Some (scEndpoint began)" "tProviderKey t = Some (scProviderKey began)"
    "tGenerationNo t = scGenerationNo began" "tRecordKind t = RecordAttempt"
    "intent_row (bqIntentID req) d' = Some r'" "rStatus r' = StatusSending"
    "rCurrentAttempt r' = Some fresh" "rLeaseToken r' = Some (bqLeaseToken req)"
proof -
  have sd: "sound d" using p by (simp add: pact_def)
  obtain r c where r: "intent_row (bqIntentID req) d = Some r" "rStatus r = StatusPending"
    "rLeaseToken r = Some (bqLeaseToken req)"
    "openAttempt dc now fresh req r (intent_of now r) c d = Inr (BeginStarted began, d')"
    by (rule begin_started [OF b])
  let ?i = "intent_of now r"
  obtain plan ctx effect d1 bound key where s:
    "bindGenerationTx dc ?i (bqBoundEndpoint req) (\<not> iGenerationBound ?i) ctx d = Inr (effect, d1)"
    "startAttempt dc now fresh req r ?i plan c effect bound key (\<not> iGenerationBound ?i) d1
       = Inr (BeginStarted began, d')" by (rule openAttempt_started [OF r(4)])
  have id: "iID ?i = bqIntentID req" using intent_row_Some(2) [OF r(1)] by simp
  have h: "held_by (bqLeaseToken req) ?i r d" using r id by (simp add: held_by_def)
  note bg = bindGeneration_bound [OF sd h s(1)]
  define t where
    "t = attempt_record now fresh req ?i plan c effect key (nextAttemptNoTx (bqIntentID req) d1)"
  from s(2) obtain d2 d3 where u: "insert_attempt t d1 = Inr d2"
    "update_intents (\<lambda>q. rID q = bqIntentID req) (sending_row now fresh) d2 = Inr d3"
    "same_rows d3 d'"
    and cl: "scAttemptID began = fresh" "scEndpoint began = beEndpoint effect"
      "scProviderKey began = key" "scGenerationNo began = iGenerationNo ?i"
    using appendIntentEvent_frame
    by (auto simp: startAttempt_def Let_def t_def simp del: intent_of_sel split: if_splits)
  have sd1: "sound d1" using bg(1) by (rule quiet_step_sound)
  have sd2: "sound d2" by (rule sound_append [OF sd1 u(1)])
  note us = update_intents_steps [OF sd2 u(2)]
  have us3: "sound d3" "dbAttempts d3 = dbAttempts d2"
    "rows_step (\<lambda>r r'. r' = (if rID r = bqIntentID req then sending_row now fresh r else r)) d2 d3"
    using us by (simp_all add: sending_row_def)
  have at: "dbAttempts d' = dbAttempts d @ [t]"
    using u(3) us3(2) insert_attempt_Inr(1) [OF u(1)] bg(1)
    by (simp add: same_rows_def same_journal_def quiet_step_def)
  from bg(1) obtain r1 where r1: "intent_row (bqIntentID req) d1 = Some r1" "row_step r r1"
    using intent_row_step [OF sd sd1 _ _ r(1), of row_step]
    by (auto simp: quiet_step_def row_step_def generation_step_def)
  have r2: "intent_row (bqIntentID req) d2 = Some r1"
    using r1(1) insert_attempt_Inr(1) [OF u(1)] by (simp add: intent_row_def)
  have r3: "intent_row (bqIntentID req) d3 = Some (sending_row now fresh r1)"
    using intent_row_step [OF sd2 us3(1,3) _ r2] intent_row_Some(2) [OF r2]
    by (auto simp: sending_row_def)
  have tok: "rLeaseToken r1 = Some (bqLeaseToken req)"
    using bg(2) intent_row_Some [OF r1(1)] id by (simp add: bound_as_def)
  have "intent_row (bqIntentID req) d' = Some (sending_row now fresh r1)"
    using r3 same_rows_row [OF u(3)] by simp
  with that [of t "sending_row now fresh r1"] at cl tok show ?thesis
    by (simp add: t_def attempt_record_def sending_row_def)
qed

section \<open>Properties\<close>

text \<open>
  C1. Whatever the workers, the recovery, the queue and the inbox do, in any order and any
  number: a commitment never has two attempts open; two records of a commitment never share
  a number; and all the calls of one generation go to one address, its creations under one
  key - so a repeat after doubt asks the provider for the same thing at the same place.
\<close>

theorem one_effect_per_generation:
  assumes "pact d0" and "delivery_run dc d0 d"
    and "t \<in> set (dbAttempts d)" "u \<in> set (dbAttempts d)" "tIntentID t = tIntentID u"
  shows "(tFinishedAt t = None \<and> tFinishedAt u = None \<longrightarrow> t = u) \<and>
     (tAttemptNo t = tAttemptNo u \<longrightarrow> t = u) \<and>
     (tRecordKind t = RecordAttempt \<and> tRecordKind u = RecordAttempt \<and>
      tGenerationNo t = tGenerationNo u \<longrightarrow> tBoundEndpoint t = tBoundEndpoint u \<and>
        (tAttemptKind t = AttemptCreate \<and> tAttemptKind u = AttemptCreate \<longrightarrow>
           tProviderKey t = tProviderKey u))"
proof -
  have p: "pact d" by (rule run_pact [OF assms(2,1)])
  have "inj_on (\<lambda>t. (tIntentID t, tAttemptNo t)) (set (dbAttempts d))"
    using p by (simp add: pact_def numbered_def distinct_map)
  then have "tAttemptNo t = tAttemptNo u \<longrightarrow> t = u" using assms(3-5) by (simp add: inj_on_def)
  moreover have "one_effect d" using p by (simp add: pact_def)
  moreover have "tFinishedAt t = None \<and> tFinishedAt u = None \<longrightarrow> t = u"
    using pact_one_open [OF p assms(3,4)] assms(5) by blast
  ultimately show ?thesis using assms(3-5) unfolding one_effect_def same_effect_def by blast
qed

text \<open>
  C2. The network is authorised once: when a begin starts an attempt, no other attempt of
  the commitment is open, the attempt is on record before the call - open, under the
  caller's token, at the address and under the key the caller is told - and until it is
  closed every other begin is turned away, the caller's own with "uncertain", anybody
  else's as having lost the lease, and writes nothing.
\<close>

theorem network_is_authorised_once:
  assumes "pact d" and "BeginAttempt dc now clock fresh req d = Inr (BeginStarted began, d')"
    and "bqIntentID other = bqIntentID req" "bqPreparation other \<noteq> PreparationPermanent"
  shows "(\<forall>t\<in>set (dbAttempts d). tIntentID t = bqIntentID req \<longrightarrow> tFinishedAt t \<noteq> None) \<and>
     (\<exists>t. dbAttempts d' = dbAttempts d @ [t] \<and> tID t = scAttemptID began \<and>
        tIntentID t = bqIntentID req \<and> tFinishedAt t = None \<and>
        tLeaseToken t = Some (bqLeaseToken req) \<and> tBoundEndpoint t = Some (scEndpoint began) \<and>
        tProviderKey t = Some (scProviderKey began)) \<and>
     BeginAttempt dc now' clock' fresh' other d' =
       Inr (if bqLeaseToken other = bqLeaseToken req then BeginUncertain (scAttemptID began)
            else BeginLeaseLost, d')"
proof -
  obtain r where r: "intent_row (bqIntentID req) d = Some r" "rStatus r = StatusPending"
    by (rule begin_started [OF assms(2)])
  have sd: "sound d" using assms(1) by (simp add: pact_def)
  have idle: "rCurrentAttempt r = None"
    using idle_row [OF sound_checks [OF sd intent_row_Some(1) [OF r(1)]]] r(2) by simp
  obtain t r' where st: "scAttemptID began = fresh" "dbAttempts d' = dbAttempts d @ [t]" "tID t = fresh"
    "tIntentID t = bqIntentID req" "tFinishedAt t = None" "tLeaseToken t = Some (bqLeaseToken req)"
    "tBoundEndpoint t = Some (scEndpoint began)" "tProviderKey t = Some (scProviderKey began)"
    "intent_row (bqIntentID req) d' = Some r'" "rStatus r' = StatusSending"
    "rCurrentAttempt r' = Some fresh" "rLeaseToken r' = Some (bqLeaseToken req)"
    by (rule started_state [OF assms(1,2)])
  have "BeginAttempt dc now' clock' fresh' other d' =
       Inr (if bqLeaseToken other = bqLeaseToken req then BeginUncertain (scAttemptID began)
            else BeginLeaseLost, d')"
    using st assms(3,4) by (auto simp: BeginAttempt_def refusal_stale_def)
  with pact_idle_none_open [OF assms(1) r(1) idle] st show ?thesis by blast
qed

text \<open>
  C9. The lease token is the fence: a caller that cannot show the token of the attempt
  closes nothing, and one that cannot show the token of the commitment opens nothing; in
  both cases no row of any table changes.
\<close>

theorem token_is_the_fence:
  assumes "attempt_row (fqAttemptID fin) d = Some t" "tLeaseToken t \<noteq> Some (fqLeaseToken fin)"
    and "intent_row (bqIntentID req) d = Some r" "rLeaseToken r \<noteq> Some (bqLeaseToken req)"
    and "FinalizeDeliveryAttempt dc now fin d = Inr (ended, d1)"
    and "BeginAttempt dc now' clock fresh req d = Inr (begun, d2)" "bqLeaseToken req \<noteq> []"
  shows "d1 = d \<and> ended \<in> {FinalizeNotFound, FinalizeLeaseLost False} \<and>
     d2 = d \<and> begun \<in> {BeginIntentFinalized, BeginLeaseLost}"
proof -
  have "d1 = d \<and> ended \<in> {FinalizeNotFound, FinalizeLeaseLost False}"
    using assms(1,2,5) by (auto simp: FinalizeDeliveryAttempt_def split: option.splits)
  moreover have "text_or_empty (rLeaseToken r) \<noteq> bqLeaseToken req"
    using assms(4,7) by (cases "rLeaseToken r") auto
  with assms(3,4,6) have "d2 = d \<and> begun \<in> {BeginIntentFinalized, BeginLeaseLost}"
    by (auto simp: BeginAttempt_def Let_def split: if_splits)
  ultimately show ?thesis by blast
qed

section \<open>A conclusion heard again\<close>

text \<open>The commitment's row after a transaction is still the same commitment.\<close>

lemma row_after:
  assumes "sound d" "sound d'" "rows_step generation_step d d'" "intent_row i d = Some r"
  shows "\<exists>r'. intent_row i d' = Some r' \<and> same_commitment r r'"
  using intent_row_step [OF assms(1,2,3) _ assms(4)] by (auto simp: generation_step_def)

lemma find_closed:
  assumes "find (\<lambda>x. tID x = a) ts = Some t" "\<And>u. tID (f u) = tID u" "tFinishedAt t = None"
  shows "find (\<lambda>x. tID x = a) (map (\<lambda>u. if tID u = a \<and> tFinishedAt u = None then f u else u) ts)
     = Some (f t)"
  using assms by (induction ts) (auto split: if_splits)

lemma detail_stands_same:
  "tID t' = tID t \<Longrightarrow> tAttemptKind t' = tAttemptKind t \<Longrightarrow> detail_stands t' c = detail_stands t c"
  unfolding detail_stands_def by (simp only:)

lemma creation_named_same:
  "rKeyKind r' = rKeyKind r \<Longrightarrow> tID t' = tID t \<Longrightarrow> tAttemptKind t' = tAttemptKind t \<Longrightarrow>
     creation_named r' t' c rc = creation_named r t c rc"
  unfolding creation_named_def by (simp only:)

lemma result_stands_same:
  "rKeyKind r' = rKeyKind r \<Longrightarrow> tID t' = tID t \<Longrightarrow> tAttemptKind t' = tAttemptKind t \<Longrightarrow>
     result_stands r' t' c rc = result_stands r t c rc"
  unfolding result_stands_def
  by (simp only: detail_stands_same [of t' t] creation_named_same [of r' r t' t])

lemma Finalize_finished:
  assumes "attempt_row (fqAttemptID req) d = Some t" "intent_row (tIntentID t) d = Some r"
    "tLeaseToken t = Some (fqLeaseToken req)" "tFinishedAt t \<noteq> None"
    "result_stands r t (fqCompletion req) (fqReceipt req) = Inr ()"
    "fingerprint_of dc (completed t (fqCompletion req)) (version_of t) = Inr print"
  shows "FinalizeDeliveryAttempt dc now req d
     = alreadyFinished now r t (completed t (fqCompletion req)) req print d"
  using assms by (simp add: FinalizeDeliveryAttempt_def Let_def del: not_None_eq)

text \<open>A result that was taken: how the tables keep it, and where the attempt then stands.\<close>

lemma finalized_state:
  assumes sd: "sound d"
    and fin: "FinalizeDeliveryAttempt dc now req d = Inr (FinalizeFinalized to why, d')"
  obtains t r t' r' print where "attempt_row (fqAttemptID req) d = Some t"
    "tFinishedAt t = None" "tLeaseToken t = Some (fqLeaseToken req)" "sound d'"
    "attempt_row (fqAttemptID req) d' = Some t'" "same_record t t'"
    "t' = closed_by_worker now r (completed t (fqCompletion req)) (fqReceipt req) (fqSummary req) print t"
    "intent_row (tIntentID t) d = Some r" "intent_row (tIntentID t) d' = Some r'" "same_commitment r r'"
    "result_stands r t (fqCompletion req) (fqReceipt req) = Inr ()"
    "fingerprint_of dc (completed t (fqCompletion req)) (version_of t) = Inr print"
proof -
  from fin obtain t r where t: "attempt_row (fqAttemptID req) d = Some t"
    and r: "intent_row (tIntentID t) d = Some r"
    by (auto simp: FinalizeDeliveryAttempt_def split: option.splits)
  have tok: "tLeaseToken t = Some (fqLeaseToken req)"
    using fin t r by (rule_tac ccontr) (simp add: FinalizeDeliveryAttempt_def)
  obtain print where st: "result_stands r t (fqCompletion req) (fqReceipt req) = Inr ()"
    "fingerprint_of dc (completed t (fqCompletion req)) (version_of t) = Inr print"
    and f: "(if tFinishedAt t \<noteq> None then alreadyFinished now r t (completed t (fqCompletion req)) req print d
      else if rCurrentAttempt r \<noteq> Some (tID t) \<or> rLeaseToken r \<noteq> tLeaseToken t
      then Inl (OpenButElsewhere (tID t))
      else finishOpen dc now r t (completed t (fqCompletion req)) req print d)
        = Inr (FinalizeFinalized to why, d')"
    using fin unfolding FinalizeDeliveryAttempt_def Let_def t r option.case tok
    by (auto simp del: not_None_eq split del: if_split)
  have nf: "tFinishedAt t = None"
  proof (rule ccontr)
    assume "tFinishedAt t \<noteq> None"
    with f have "alreadyFinished now r t (completed t (fqCompletion req)) req print d
        = Inr (FinalizeFinalized to why, d')" by simp
    then show False by (auto simp: alreadyFinished_def split: if_splits)
  qed
  with f have "finishOpen dc now r t (completed t (fqCompletion req)) req print d
      = Inr (FinalizeFinalized to why, d')" by (simp split: if_splits)
  note a = finishOpen_state [OF sd this]
  let ?t' = "closed_by_worker now r (completed t (fqCompletion req)) (fqReceipt req) (fqSummary req) print t"
  have tid: "tID t = fqAttemptID req" using attempt_row_Some(2) [OF t] .
  have "tID (closed_by_worker now r c rc su pr u) = tID u" for c rc su pr u
    by (simp add: closed_by_worker_def Let_def)
  then have "attempt_row (fqAttemptID req) d' = Some ?t'"
    using find_closed [OF t [unfolded attempt_row_def] _ nf] a(4) tid by (simp add: attempt_row_def)
  moreover from row_after [OF sd a(1,2) r] obtain r' where "intent_row (tIntentID t) d' = Some r'"
    "same_commitment r r'" by blast
  ultimately show ?thesis using that t r tok nf a(1) st by simp
qed

text \<open>
  C4. A conclusion is taken once: repeated after a lost reply it is recognised and changes
  nothing, and once it is taken no other conclusion of that attempt changes anything - it is
  a conflict, a stranger's, or refused.
\<close>

theorem conclusion_is_taken_once:
  assumes "pact d" and "FinalizeDeliveryAttempt dc now req d = Inr (FinalizeFinalized to why, d')"
    and "fqAttemptID other = fqAttemptID req"
    and "FinalizeDeliveryAttempt dc now' other d' = Inr (res, d'')"
  shows "FinalizeDeliveryAttempt dc now' req d' = Inr (FinalizeIdempotentRepeat, d') \<and> d'' = d' \<and>
     res \<in> {FinalizeIdempotentRepeat, FinalizeConflict, FinalizeLeaseLost False}"
proof -
  have sd: "sound d" using assms(1) by (simp add: pact_def)
  obtain t r t' r' print where s: "attempt_row (fqAttemptID req) d = Some t"
    "tFinishedAt t = None" "tLeaseToken t = Some (fqLeaseToken req)" "sound d'"
    "attempt_row (fqAttemptID req) d' = Some t'" "same_record t t'"
    "t' = closed_by_worker now r (completed t (fqCompletion req)) (fqReceipt req) (fqSummary req) print t"
    "intent_row (tIntentID t) d = Some r" "intent_row (tIntentID t) d' = Some r'" "same_commitment r r'"
    "result_stands r t (fqCompletion req) (fqReceipt req) = Inr ()"
    "fingerprint_of dc (completed t (fqCompletion req)) (version_of t) = Inr print"
    by (rule finalized_state [OF sd assms(2)])
  have f: "tFinishedAt t' = Some now" "tFinishReason t' = Some ''worker''"
    "tFingerprint t' = Some print" "tAppliedRevision t' = tAppliedRevision t"
    "tFingerprintVersion t' = tFingerprintVersion t"
    by (simp_all add: s(7) closed_by_worker_def Let_def)
  have i: "tIntentID t' = tIntentID t" "tLeaseToken t' = tLeaseToken t" "tID t' = tID t"
    "tAttemptKind t' = tAttemptKind t" using s(6) by (simp_all add: same_record_def)
  have r': "intent_row (tIntentID t') d' = Some r'" using s(9) i by simp
  have "result_stands r' t' (fqCompletion req) (fqReceipt req) = Inr ()"
    using s(10,11) result_stands_same [of r' r t' t] i by (simp add: same_commitment_def)
  moreover have "fingerprint_of dc (completed t' (fqCompletion req)) (version_of t') = Inr print"
    using s(12) f by (simp add: completed_def version_of_def)
  ultimately have "FinalizeDeliveryAttempt dc now' req d' = Inr (FinalizeIdempotentRepeat, d')"
    using Finalize_finished [OF s(5) r'] s(3) i f by (simp add: alreadyFinished_def)
  moreover have "d'' = d' \<and> res \<in> {FinalizeIdempotentRepeat, FinalizeConflict, FinalizeLeaseLost False}"
    using assms(3,4) s(5) r' f
    by (auto simp: FinalizeDeliveryAttempt_def alreadyFinished_def Let_def split: if_splits)
  ultimately show ?thesis by blast
qed

text \<open>
  C8. A late result is evidence: what the owner of an attempt says after its lease was taken
  is kept as an observation, without coordinates when the recipient was erased, moves no
  commitment and reopens no attempt; said again it is recognised, and a different one is
  refused rather than kept beside it.
\<close>

theorem late_result_is_kept:
  assumes "attempt_row (fqAttemptID req) d = Some t" "intent_row (tIntentID t) d = Some r"
    and "tFinishedAt t \<noteq> None" "tFinishReason t = Some ''lease_lost''"
    and "tLeaseToken t = Some (fqLeaseToken req)"
    and "FinalizeDeliveryAttempt dc now req d = Inr (res, d')"
  shows "res = FinalizeLeaseLost True \<and> dbIntents d' = dbIntents d \<and> dbAttempts d' = dbAttempts d \<and>
     (\<exists>o'\<in>set (dbObservations d'). oAttemptID o' = fqAttemptID req \<and>
        fingerprint_of dc (completed t (fqCompletion req)) (version_of t) = Inr (oFingerprint o') \<and>
        (dbObservations d' \<noteq> dbObservations d \<and> rRecipientErasedAt r \<noteq> None \<longrightarrow> oReceipt o' = None)) \<and>
     FinalizeDeliveryAttempt dc now' req d' = Inr (FinalizeLeaseLost True, d')"
proof -
  have tid: "tID t = fqAttemptID req" using attempt_row_Some(2) [OF assms(1)] .
  obtain print where st: "result_stands r t (fqCompletion req) (fqReceipt req) = Inr ()"
    "fingerprint_of dc (completed t (fqCompletion req)) (version_of t) = Inr print"
    using assms(6) unfolding FinalizeDeliveryAttempt_def Let_def assms(1,2,5) option.case
    by (auto simp del: not_None_eq split del: if_split)
  note F = Finalize_finished [OF assms(1,2,5,3) st]
  from assms(6) F assms(4) have rec: "res = FinalizeLeaseLost True \<and> recordObservationTx now r (tID t)
      (completed t (fqCompletion req)) (fqReceipt req) (fqSummary req) print (version_of t) d = Inr (True, d')"
    by (auto simp: alreadyFinished_def recordObservationTx_def Let_def split: option.splits if_splits)
  define late where "late o' \<longleftrightarrow> oAttemptID o' = tID t \<and> oKind o' = ''late_finalize''"
    for o' :: observation
  have rows: "dbIntents d' = dbIntents d" "dbAttempts d' = dbAttempts d"
    using rec by (auto simp: recordObservationTx_def Let_def split: option.splits if_splits)
  have kept: "\<exists>o'. find late (dbObservations d') = Some o' \<and> oFingerprint o' = print \<and>
      (dbObservations d' \<noteq> dbObservations d \<and> rRecipientErasedAt r \<noteq> None \<longrightarrow> oReceipt o' = None)"
  proof (cases "find late (dbObservations d)")
    case None
    have "find late (os @ [k]) = Some k" if "find late os = None" "late k" for os k
      using that by (induction os) (auto split: if_splits)
    with None rec show ?thesis
      by (auto simp: recordObservationTx_def Let_def late_def [abs_def] split: if_splits)
  next
    case (Some o')
    with rec show ?thesis
      by (auto simp: recordObservationTx_def late_def [abs_def] split: if_splits)
  qed
  then obtain o' where o': "find late (dbObservations d') = Some o'" "oFingerprint o' = print"
    "dbObservations d' \<noteq> dbObservations d \<and> rRecipientErasedAt r \<noteq> None \<longrightarrow> oReceipt o' = None" by blast
  have in': "o' \<in> set (dbObservations d')" "oAttemptID o' = fqAttemptID req"
    using o'(1) tid by (auto simp: find_Some_iff late_def)
  have a': "attempt_row (fqAttemptID req) d' = Some t" "intent_row (tIntentID t) d' = Some r"
    using assms(1,2) rows by (simp_all add: attempt_row_def intent_row_def)
  have "FinalizeDeliveryAttempt dc now' req d' = Inr (FinalizeLeaseLost True, d')"
    using Finalize_finished [OF a' assms(5,3) st] assms(4) o'(1,2)
    by (simp add: alreadyFinished_def recordObservationTx_def late_def [abs_def])
  with rec rows in' o'(2,3) st(2) show ?thesis by blast
qed

text \<open>
  C10. A lease is one worker's: a claim hands out only commitments that are due, in their
  deadline and free to go, no more than it was asked for, each under its fresh token; and
  no claim made before that lease runs out hands out any of them again.
\<close>

theorem claims_do_not_overlap:
  assumes "sound d" and "ClaimDueIntents busy now clock tokens req d = Inr (out, d')"
    and "ClaimDueIntents busy' now' clock' tokens' req' d' = Inr (out', d'')"
    and "now' < clock + cqLease req"
  shows "int (length out) \<le> max 0 (cqLimit req) \<and>
     (\<forall>(i, token, until)\<in>set out. token = tokens (iID i) \<and> until = clock + cqLease req \<and>
        iStatus i = StatusPending \<and> (\<exists>r\<in>set (dbIntents d). rID r = iID i \<and>
          rNextAttemptAt r \<le> now \<and> deadline_alive now r \<and> lease_free now r \<and> may_go d r)) \<and>
     (\<forall>(i, x)\<in>set out. \<forall>(j, y)\<in>set out'. iID i \<noteq> iID j)"
proof (cases "cqLimit req \<le> 0")
  case True
  with assms(2) show ?thesis by (simp add: ClaimDueIntents_def)
next
  case False
  define picks where "picks = map rID (claim_picks busy now req d)"
  define picks' where "picks' = map rID (claim_picks busy' now' req' d')"
  have u: "update_intents (\<lambda>r. rID r \<in> set picks) (leased_row now clock tokens req) d = Inr d'"
    and o: "out = map (\<lambda>r. (intent_of now r, tokens (rID r), clock + cqLease req))
            (filter (\<lambda>r. rID r \<in> set picks) (dbIntents d'))"
    using assms(2) False
    by (auto simp: ClaimDueIntents_def Let_def picks_def split: if_splits claim_phase.splits)
  have o': "\<forall>(j, y)\<in>set out'. iID j \<in> set picks'"
    using assms(3) by (auto simp: ClaimDueIntents_def Let_def picks'_def split: if_splits claim_phase.splits)
  have rid: "rID (leased_row now clock tokens req r) = rID r" for r by (simp add: leased_row_def)
  have rows: "dbIntents d' = map (\<lambda>r. if rID r \<in> set picks then leased_row now clock tokens req r else r)
      (dbIntents d)" using update_intents_Inr(1) [OF u] by simp
  have dd: "distinct (map rID (dbIntents d))" using assms(1) by (simp add: sound_def)
  have taken: "\<exists>q\<in>set (dbIntents d). rID q = k \<and> claim_takes busy now req d q" if "k \<in> set picks" for k
    using that by (auto simp: picks_def claim_picks_def dest!: in_set_takeD)
  have taken': "\<exists>q\<in>set (dbIntents d'). rID q = k \<and> lease_free now' q" if "k \<in> set picks'" for k
    using that by (auto simp: picks'_def claim_picks_def claim_takes_def dest!: in_set_takeD)
  have "length (filter (\<lambda>r. rID r \<in> set picks) (dbIntents d')) \<le> length picks"
  proof -
    have "map rID (filter (\<lambda>r. rID r \<in> set picks) (dbIntents d'))
        = filter (\<lambda>k. k \<in> set picks) (map rID (dbIntents d'))" by (simp add: filter_map comp_def)
    moreover have "distinct (map rID (dbIntents d'))"
    proof -
      have "map rID (dbIntents d') = map rID (dbIntents d)" using rows rid by simp
      with dd show ?thesis by simp
    qed
    ultimately have "distinct (map rID (filter (\<lambda>r. rID r \<in> set picks) (dbIntents d')))" by simp
    then have "Finite_Set.card (set (map rID (filter (\<lambda>r. rID r \<in> set picks) (dbIntents d'))))
        = length (filter (\<lambda>r. rID r \<in> set picks) (dbIntents d'))" using distinct_card by force
    moreover have "Finite_Set.card (set (map rID (filter (\<lambda>r. rID r \<in> set picks) (dbIntents d')))) \<le> Finite_Set.card (set picks)"
      by (rule card_mono) auto
    ultimately show ?thesis using card_length [of picks] by linarith
  qed
  moreover have "length picks \<le> nat (cqLimit req)" by (simp add: picks_def claim_picks_def)
  ultimately have len: "int (length out) \<le> max 0 (cqLimit req)" using False o by simp
  have one: "token = tokens (iID i) \<and> until = clock + cqLease req \<and> iStatus i = StatusPending \<and>
      (\<exists>r\<in>set (dbIntents d). rID r = iID i \<and> rNextAttemptAt r \<le> now \<and> deadline_alive now r \<and>
        lease_free now r \<and> may_go d r)" if "(i, token, until) \<in> set out" for i token until
  proof -
    from that o obtain r' where r': "r' \<in> set (dbIntents d')" "rID r' \<in> set picks" "i = intent_of now r'"
      "token = tokens (rID r')" "until = clock + cqLease req" by auto
    from r'(1,2) rows rid obtain r where r: "r \<in> set (dbIntents d)" "r' = leased_row now clock tokens req r"
      by (auto split: if_splits)
    from taken [OF r'(2)] obtain q where q: "q \<in> set (dbIntents d)" "rID q = rID r'"
      "claim_takes busy now req d q" by blast
    have "rID q = rID r" using q(2) unfolding r(2) rid .
    then have "intent_row (rID r) d = Some q" using sound_intent_row [OF assms(1) q(1)] by metis
    then have "q = r" using sound_intent_row [OF assms(1) r(1)] by (metis option.inject)
    with q have q': "rStatus r = StatusPending" "rNextAttemptAt r \<le> now" "deadline_alive now r"
      "lease_free now r" "may_go d r" by (simp_all add: claim_takes_def)
    have "iID i = rID r" "iStatus i = rStatus r" using r(2) r'(3) by (simp_all add: leased_row_def)
    with r(1) q' r'(3,4,5) show ?thesis by auto
  qed
  have "iID i \<noteq> iID j" if "(i, x) \<in> set out" "(j, y) \<in> set out'" for i j x y
  proof
    assume e: "iID i = iID j"
    from that(1) o have i: "iID i \<in> set picks" by auto
    from that(2) o' have "iID j \<in> set picks'" by auto
    from taken' [OF this] obtain q where q: "q \<in> set (dbIntents d')" "rID q = iID j" "lease_free now' q" by blast
    from q(1,2) e i rows rid obtain r where "q = leased_row now clock tokens req r" by (auto split: if_splits)
    with q(3) assms(4) show False by (simp add: leased_row_def lease_free_def)
  qed
  with len one show ?thesis by fastforce
qed

end
