(* ===== verification/Cycle.thy ===== *)
theory Cycle
  imports Delivery
begin

text \<open>
  Recovery of an abandoned attempt succeeds, and one commitment taken through the protocol: queued, claimed,
  begun, concluded, concluded late, abandoned.  The sections after the first are the concrete
  states the theorems of \<open>Delivery\<close> are applied to.
\<close>

section \<open>A lease that ran out\<close>

lemma pact_held:
  assumes "pact d" "intent_row i d = Some r" "rCurrentAttempt r = Some a"
  obtains t where "attempt_row a d = Some t" "tID t = a" "tIntentID t = i" "tFinishedAt t = None"
proof -
  have r: "r \<in> set (dbIntents d)" "rID r = i" using intent_row_Some [OF assms(2)] by auto
  with assms(1,3) obtain t where t: "t \<in> set (dbAttempts d)" "tID t = a" "tIntentID t = rID r" "tFinishedAt t = None"
    unfolding pact_def held_open_def by blast
  have "sound d" using assms(1) by (simp add: pact_def)
  from sound_attempt_row [OF this t(1)] t r that show ?thesis by simp
qed

lemma leaseLost_print:
  assumes "version_of t = CompletionFingerprintV1"
  shows "leaseLostFingerprint dc (version_of t) = Inr (dcSha dc (case completion_material lease_lost_completion 1 of Inr m \<Rightarrow> m))"
  using assms by (simp add: leaseLostFingerprint_def fingerprint_of_def Fingerprint_def completion_material_def
     lease_lost_completion_def checkCompletionFingerprintVersion_def CompletionFingerprintV1_def)

lemma backoff_known: "intent_checks r \<Longrightarrow> \<exists>b. backoff_of dc (intent_of now r) = Inr b"
  by (cases "rKeyKind r") (auto simp: backoff_of_def BackoffFor_def check_defs)

lemma closed_checks:
  assumes "attempt_checks t" "tFinishedAt t = None" "tRecordKind t = RecordAttempt" "length f = 32" "\<And>s. tStartedAt t = Some s \<Longrightarrow> s \<le> now"
     "version_of t = CompletionFingerprintV1"
  shows "attempt_checks (closed_by_recovery now f t)"
  using assms by (auto simp: attempt_check_defs closed_by_recovery_def)
lemma leases_gone:
  assumes "Decide x = Inr t" "iStatus (inIntent x) = StatusSending"
  shows "ClearLease (trEffects t)" "ClearCurrentAttempt (trEffects t)"
  using lawfulD [OF assms(1)] assms(2) by (simp_all add: lawful_def law_lease_def)

text \<open>
  C3. An abandoned attempt is closed: take a state of the delivery protocol and a commitment
  that is complete once its call is accepted, whose lease ran out over an attempt recorded with
  the present version of fingerprints and started before now, and that was cancelled or has a
  policy which says what to make of an unknown outcome.  Then recovery succeeds, ends the attempt
  as ambiguous, lets go of the lease and leaves the commitment in one of the recovery targets;
  the same pass repeated does nothing.
\<close>

theorem abandoned_attempt_is_closed:
  assumes "pact d" "intent_row i d = Some r" "stale now a r" "attempt_row a d = Some t"
    and "rCompletionMode r = CompletionOnAcceptance"
    and "rCancellationRequested r \<or> guesses (asks TriggerRecoverStale (intent_of now r))"
    and "version_of t = CompletionFingerprintV1" "\<And>s. tStartedAt t = Some s \<Longrightarrow> s \<le> now"
    and "\<And>m. length (dcSha dc m) = 32"
  shows "\<exists>tr d'. recoverOne dc now i a d = Inr (Some tr, d') \<and> trTo tr \<in> set RecoveryTargets \<and>
     (\<exists>t'. attempt_row a d' = Some t' \<and> tFinishedAt t' = Some now \<and>
        tOutcome t' = Some OutcomeAmbiguous \<and> tFinishReason t' = Some ''lease_lost'') \<and>
     (\<exists>r'. intent_row i d' = Some r' \<and> rStatus r' = trTo tr \<and> rLeaseToken r' = None \<and>
        rCurrentAttempt r' = None) \<and>
     recoverOne dc now i a d' = Inr (None, d')"
proof -
  have sd: "sound d" using assms(1) by (simp add: pact_def)
  have st: "rStatus r = StatusSending" "rCurrentAttempt r = Some a"
    using assms(3) by (simp_all add: stale_def)
  have open': "tFinishedAt t = None" and tid: "tID t = a"
    using pact_held [OF assms(1,2) st(2)] assms(4) by auto
  have chk: "attempt_checks t" "intent_checks r"
    using sd attempt_row_Some(1) [OF assms(4)] intent_row_Some(1) [OF assms(2)] by (auto simp: sound_def)
  have rec: "tRecordKind t = RecordAttempt" using chk(1) open' by (auto simp: attempt_check_defs)
  obtain print where pr: "leaseLostFingerprint dc (version_of t) = Inr print" "length print = 32"
    using leaseLost_print [OF assms(7), of dc] assms(9) by simp
  let ?close = "closed_by_recovery now print"
  have one: "attempt_row a d = Some u" if "u \<in> set (dbAttempts d)" "tID u = a" for u
    using sound_attempt_row [OF sd that(1)] that(2) by simp
  have cl: "attempt_checks (?close u)" if "u \<in> set (dbAttempts d)" "tID u = tID t" for u
  proof -
    have "u = t" using one [OF that(1)] that(2) tid assms(4) by simp
    then show ?thesis using closed_checks [OF chk(1) open' rec pr(2) assms(8,7)] by simp
  qed
  define d1 where "d1 = d\<lparr>dbAttempts := map (\<lambda>u. if tID u = tID t \<and> tFinishedAt u = None then ?close u else u)
      (dbAttempts d)\<rparr>"
  have u: "update_attempts (\<lambda>u. tID u = tID t \<and> tFinishedAt u = None) ?close d = Inr d1"
    using cl by (simp add: update_attempts_def list_all_iff d1_def)
  have sd1: "sound d1" using update_attempts_sound [OF sd u] by (simp add: closed_by_recovery_def)
  have r1: "intent_row i d1 = Some r" using assms(2) by (simp add: d1_def intent_row_def)
  define x where "x = (asks TriggerRecoverStale (intent_of now r))
      \<lparr>inAttemptRevision := tAppliedRevision t, inExpired := snd (scanIntent now r)\<rparr>"
  have xs: "iStatus (inIntent x) = rStatus r" "iForm (inIntent x) = rForm r"
    "iCompletionMode (inIntent x) = rCompletionMode r" "inTrigger x = TriggerRecoverStale"
    "iCancellationRequested (inIntent x) = rCancellationRequested r"
    by (simp_all add: x_def asks_def)
  have "guesses x = guesses (asks TriggerRecoverStale (intent_of now r))"
    by (cases "rAmbiguityPolicy r") (simp_all add: x_def asks_def guesses_def)
  note xs = xs this
  have "admissible x" using st(1) xs assms(6) by (simp add: admissible_def)
  then obtain tr where tr: "Decide x = Inr tr" using succeeds_Decide [of x] by (cases "Decide x") auto
  have "answered TriggerRecoverStale StatusSending (trTo tr)"
    using tr xs st(1) by (auto simp: answered_def)
  from answered_lifecycle [OF this] have target: "trTo tr \<in> set RecoveryTargets"
    by (auto simp: RecoveryTargets_def)
  have rt: "recover_transition now (intent_of now r) (snd (scanIntent now r)) (tAppliedRevision t) d1 = Inr tr"
    using tr assms(5) by (simp add: recover_transition_def decides_def x_def dischargedByEarlierCallTx_def)
  obtain b where b: "backoff_of dc (intent_of now r) = Inr b" using backoff_known [OF chk(2)] by blast
  define w where "w = (writing (intent_of now r) tr ActorRecovery)\<lparr>wBackoff := b,
      wAppliedRevision := tAppliedRevision t, wReason := ''the lease expired with an attempt in flight''\<rparr>"
  have ws: "wTransition w = tr" "wIntent w = intent_of now r" "\<not> ActorIsZero (wActor w)" "\<not> writes_receipt w"
    by (simp_all add: w_def writing_def system_actors writes_receipt_def)
  have f: "fit r x w" using xs ws target by (auto simp: fit_def RecoveryTargets_def)
  from apply_written [OF sd1 r1 _ f ws(2,3)] tr ws(1) assms(5)
  obtain d' p q where ap: "applyTransitionTx now w d1 = Inr d'" "sound d'"
    "intent_row i d' = Some (update_row now w p q (retry_delay w) r)" by auto
  have "recoverHeld dc now r t d = Inr (Some tr, d')"
    using pr u open' rt b ap(1) assms(5)
    by (simp add: recoverHeld_def case_prod_unfold Let_def w_def)
  then have "recoverOne dc now i a d = Inr (Some tr, d')"
    using assms(2,3,4) by (simp add: recoverOne_def)
  moreover note target
  moreover have "attempt_row a d' = Some (?close t)"
  proof -
    have "dbAttempts d' = dbAttempts d1" using apply_journal [OF ap(1)] by (simp add: same_journal_def)
    moreover have "attempt_row a d1 = Some (?close t)"
      using find_closed [OF assms(4) [unfolded attempt_row_def] _ open'] tid
      by (simp add: attempt_row_def d1_def closed_by_recovery_def)
    ultimately show ?thesis by (simp add: attempt_row_def)
  qed
  moreover note ap(3) leases_gone [OF tr]
  moreover have "recoverOne dc now i a d' = Inr (None, d')"
    using ap(3) target ws(1) by (auto simp: recoverOne_def stale_def RecoveryTargets_def)
  ultimately show ?thesis using xs(1) st(1) ws(1)
    by (auto simp: closed_by_recovery_def)
qed
section \<open>A commitment waiting under its lease\<close>

definition waiting_row :: row where
  "waiting_row = sample_row\<lparr>rStatus := StatusPending, rAttemptsInGeneration := 0,
     rBoundEndpoint := None, rCreateKey := None, rCurrentAttempt := None\<rparr>"

definition waiting_db :: db where
  "waiting_db = frozen_db\<lparr>dbIntents := [waiting_row]\<rparr>"

definition frozen_content :: attempt_content where
  "frozen_content = SnapshotContent \<lparr>rnGroupID = ''g1'', rnRevision = 3, rnDigest = ''d3''\<rparr> False"

definition begin_waiting :: begin_request where
  "begin_waiting = \<lparr>bqIntentID = ''i1'', bqLeaseToken = ''t1'', bqWorkerID = ''w1'',
     bqPreparation = PreparationReady, bqBoundEndpoint = ''C1'', bqBoundContext = no_context,
     bqErrorClass = [], bqSummary = []\<rparr>"

definition bound_db :: "string \<Rightarrow> db" where
  "bound_db key = waiting_db\<lparr>dbIntents := [bound_row ''C1'' key [] waiting_row]\<rparr>"

definition first_effect :: "string \<Rightarrow> bound_effect" where
  "first_effect key = \<lparr>beEndpoint = ''C1'', beProviderKey = key, beContext = []\<rparr>"

abbreviation waiting_intent :: intent where
  "waiting_intent \<equiv> intent_of 10 waiting_row"

lemmas waiting_defs = waiting_db_def waiting_row_def frozen_db_def sample_db_def sample_row_def

lemma waiting_pact: "pact waiting_db"
  by (simp add: pact_def sound_def check_defs held_open_def open_held_def numbered_def
      bound_calls_def one_effect_def waiting_defs)

lemma waiting_there: "intent_row ''i1'' waiting_db = Some waiting_row"
  by (simp add: waiting_defs intent_row_def)

lemma waiting_runs: "executableHere plain_decoders waiting_intent = Inr (ContentSnapshot, [])"
  by (simp add: executableHere_def admittedPayloadDigest_def plain_decoders_def waiting_defs scanIntent_def)

lemma waiting_content:
  "attemptContentTx plain_decoders waiting_db waiting_intent ContentSnapshot [] = Inr frozen_content"
  by (simp add: attemptContentTx_def lockedSnapshotTx_def checkedSnapshot_def frozen_content_def
      plain_decoders_def waiting_defs scanIntent_def)

lemma waiting_plan: "planAttempt waiting_intent frozen_content = Inr (AttemptCreate, OperationSend)"
  by (simp add: planAttempt_def creation_def waiting_defs scanIntent_def)

lemma waiting_decides:
  "\<exists>t. decides ((asks TriggerPreparation waiting_intent)\<lparr>inPreparation := PreparationReady\<rparr>) = Inr t \<and>
     trEffects t = no_effects\<lparr>OpenGeneration := True\<rparr>"
  by (simp add: decides_def asks_def Decide_def decide_def decidePreparation_def goes_def
      Satellite_def waiting_defs scanIntent_def)

lemma waiting_key: "\<exists>key. CreateKey (dcSha plain_decoders) (iID waiting_intent)
     (iGenerationNo waiting_intent) (iProviderKeyCodecVersion waiting_intent) = Inr key"
  by (simp add: CreateKey_def create_material_def checkProviderCodec_def ProviderKeyCodecV1_def
      waiting_defs scanIntent_def)

lemma waiting_context: "opening_context plain_decoders begin_waiting waiting_intent True waiting_db = Inr []"
  by (simp add: opening_context_def begin_waiting_def context_Empty_def no_context_def
      dmContextTx_def waiting_defs scanIntent_def)

lemma waiting_binds:
  assumes "CreateKey (dcSha plain_decoders) (iID waiting_intent) (iGenerationNo waiting_intent)
     (iProviderKeyCodecVersion waiting_intent) = Inr key"
  shows "bindGenerationTx plain_decoders waiting_intent ''C1'' True [] waiting_db
     = Inr (first_effect key, bound_db key)"
  using assms by (simp add: bindGenerationTx_def first_effect_def bound_db_def update_intents_def
      bound_row_def nullable_def check_defs waiting_defs)

lemma waiting_starts:
  "\<exists>began d'. startAttempt plain_decoders 10 ''a1'' begin_waiting waiting_row waiting_intent
     (AttemptCreate, OperationSend) c (first_effect key) no_context key True (bound_db key)
     = Inr (BeginStarted began, d')"
  by (simp add: startAttempt_def Let_def insert_attempt_def attempt_record_def update_intents_def
      sending_row_def bound_db_def first_effect_def bound_row_def nullable_def check_defs
      attempt_check_defs CompletionFingerprintV1_def begin_waiting_def waiting_defs
      appendIntentEventDetailTx_def system_actors scanIntent_def plain_decoders_def)

lemma waiting_begins:
  "\<exists>began d'. BeginAttempt plain_decoders 10 10 ''a1'' begin_waiting waiting_db
     = Inr (BeginStarted began, d')"
proof -
  obtain key where k: "CreateKey (dcSha plain_decoders) (iID waiting_intent)
      (iGenerationNo waiting_intent) (iProviderKeyCodecVersion waiting_intent) = Inr key"
    using waiting_key by blast
  obtain t where t: "decides ((asks TriggerPreparation waiting_intent)\<lparr>inPreparation := PreparationReady\<rparr>)
      = Inr t" "trEffects t = no_effects\<lparr>OpenGeneration := True\<rparr>" using waiting_decides by blast
  obtain began d' where s: "startAttempt plain_decoders 10 ''a1'' begin_waiting waiting_row waiting_intent
     (AttemptCreate, OperationSend) frozen_content (first_effect key) no_context key True (bound_db key)
     = Inr (BeginStarted began, d')" using waiting_starts by blast
  then have "openBound plain_decoders 10 ''a1'' begin_waiting waiting_row waiting_intent
      (AttemptCreate, OperationSend) frozen_content True (first_effect key) (bound_db key)
      = Inr (BeginStarted began, d')"
    by (simp add: openBound_def call_key_def DecodeBoundContext_def first_effect_def)
  then have "openAttempt plain_decoders 10 ''a1'' begin_waiting waiting_row waiting_intent frozen_content
      waiting_db = Inr (BeginStarted began, d')"
    using t waiting_context waiting_binds [OF k] waiting_plan
    by (simp add: openAttempt_def beginEffectsUnderstood_def begin_waiting_def)
  then show ?thesis using waiting_runs waiting_content waiting_there
    by (simp add: BeginAttempt_def begin_waiting_def beginHeld_def refusal_stale_def
        lease_alive_def waiting_row_def sample_row_def)
qed

section \<open>A call in flight\<close>

definition open_attempt :: attempt where
  "open_attempt = \<lparr>tID = ''a1'', tIntentID = ''i1'', tAttemptNo = 1, tRecordKind = RecordAttempt,
     tGenerationNo = 0, tAttemptKind = AttemptCreate, tOperation = OperationSend,
     tAppliedRevision = Some 3, tProvider = ''slack'', tBoundEndpoint = Some ''C1'',
     tProviderKey = Some ''k1'', tLeaseToken = Some ''t1'', tWorkerID = None, tStartedAt = Some 5,
     tFinishedAt = None, tOutcome = None, tErrorClass = None, tProviderStatus = None,
     tReceipt = None, tReceiptRecorded = False, tReceiptRedactedAt = None, tSummary = None,
     tFinishReason = None, tDetail = None, tFingerprint = None, tFingerprintVersion = Some 1,
     tBoundContext = None\<rparr>"

definition lost_attempt :: attempt where
  "lost_attempt = open_attempt\<lparr>tFinishedAt := Some 8, tOutcome := Some OutcomeAmbiguous,
     tFinishReason := Some ''lease_lost'', tFingerprint := Some (replicate 32 (CHR ''x''))\<rparr>"

definition sending_db :: db where "sending_db = frozen_db\<lparr>dbAttempts := [open_attempt]\<rparr>"
definition late_db :: db where "late_db = frozen_db\<lparr>dbAttempts := [lost_attempt]\<rparr>"

definition accepted :: finalize_request where
  "accepted = \<lparr>fqAttemptID = ''a1'', fqLeaseToken = ''t1'',
     fqCompletion = \<lparr>cOutcome = OutcomeAccepted, cErrorClass = None, cProviderStatus = None,
       cReceiptRef = Some ''C1/17'', cAppliedRevision = None, cProviderResultDetail = None\<rparr>,
     fqReceipt = ''{}'', fqSummary = []\<rparr>"

lemmas sending_defs = sending_db_def late_db_def lost_attempt_def open_attempt_def frozen_db_def
  sample_db_def sample_row_def

lemma sending_pact: "pact sending_db"
  by (simp add: pact_def sound_def check_defs attempt_check_defs held_open_def open_held_def
      numbered_def bound_calls_def calls_as_bound_def one_effect_def same_effect_def sending_defs)

lemma sending_there:
  "intent_row ''i1'' sending_db = Some sample_row" "intent_row ''i1'' late_db = Some sample_row"
  "attempt_row ''a1'' sending_db = Some open_attempt" "attempt_row ''a1'' late_db = Some lost_attempt"
  by (simp_all add: intent_row_def attempt_row_def sending_defs)

lemma accepted_stands:
  assumes "t \<in> {open_attempt, lost_attempt}"
  shows "result_stands sample_row t (fqCompletion accepted) (fqReceipt accepted) = Inr ()"
    "\<exists>f. fingerprint_of plain_decoders (completed t (fqCompletion accepted)) (version_of t) = Inr f
       \<and> length f = 32"
  using assms by (auto simp: result_stands_def detail_stands_def creation_named_def accepted_def
      open_attempt_def lost_attempt_def fingerprint_of_def completed_def Fingerprint_def
      completion_material_def checkCompletionFingerprintVersion_def CompletionFingerprintV1_def
      plain_decoders_def version_of_def)

lemma late_is_kept:
  "\<exists>d'. FinalizeDeliveryAttempt plain_decoders 10 accepted late_db = Inr (FinalizeLeaseLost True, d')"
proof -
  obtain f where f: "fingerprint_of plain_decoders (completed lost_attempt (fqCompletion accepted))
      (version_of lost_attempt) = Inr f" "length f = 32" using accepted_stands(2) [of lost_attempt] by auto
  have t: "attempt_row (fqAttemptID accepted) late_db = Some lost_attempt"
    "intent_row (tIntentID lost_attempt) late_db = Some sample_row"
    "tLeaseToken lost_attempt = Some (fqLeaseToken accepted)" "tFinishedAt lost_attempt \<noteq> None"
    using sending_there by (simp_all add: accepted_def lost_attempt_def open_attempt_def)
  have "\<exists>d'. alreadyFinished 10 sample_row lost_attempt (completed lost_attempt (fqCompletion accepted))
      accepted f late_db = Inr (FinalizeLeaseLost True, d')"
    using f(2) by (simp add: alreadyFinished_def recordObservationTx_def Let_def observation_checks_def
        completed_def accepted_def nullable_def version_of_def receipt_state_def sending_defs)
  then show ?thesis by (simp add: Finalize_finished [OF t accepted_stands(1) f(1)])
qed

lemma accepted_transition:
  "finish_transition 10 (intent_of 10 sample_row) (completed open_attempt (fqCompletion accepted))
     (Some 3) False sending_db = Inr sample_transition"
  by (simp add: finish_transition_def decides_def asks_def completed_def accepted_def Decide_def
      decide_def decideFinish_def scanIntent_def reduceProviderAcceptance.simps settleApplied_def
      goes_def dischargedByEarlierCallTx_def sample_transition_def Satellite_def
      doubt_in_generation_def sending_defs)

lemma accepted_not_last:
  "last_revision_applied plain_decoders (intent_of 10 sample_row)
     (completed open_attempt (fqCompletion accepted)) (Some 3) sending_db = Inr False"
  by (simp add: last_revision_applied_def completed_def accepted_def lockedSnapshotTx_def
      checkedSnapshot_def plain_decoders_def scanIntent_def sending_defs)

lemma sending_closes:
  assumes "length f = 32"
  shows "\<exists>d'. update_attempts (\<lambda>u. tID u = tID open_attempt \<and> tFinishedAt u = None)
     (closed_by_worker 10 sample_row (completed open_attempt (fqCompletion accepted))
       (fqReceipt accepted) (fqSummary accepted) f) sending_db = Inr d'"
  using assms by (simp add: update_attempts_def closed_by_worker_def Let_def completed_def accepted_def
      attempt_check_defs nullable_def sending_defs)

lemma accepted_concludes:
  "\<exists>to why d'. FinalizeDeliveryAttempt plain_decoders 10 accepted sending_db
     = Inr (FinalizeFinalized to why, d')"
proof -
  let ?c = "completed open_attempt (fqCompletion accepted)"
  obtain f where f: "fingerprint_of plain_decoders ?c (version_of open_attempt) = Inr f" "length f = 32"
    using accepted_stands(2) [of open_attempt] by auto
  obtain d1 where d1: "update_attempts (\<lambda>u. tID u = tID open_attempt \<and> tFinishedAt u = None)
     (closed_by_worker 10 sample_row ?c (fqReceipt accepted) (fqSummary accepted) f) sending_db = Inr d1"
    using sending_closes [OF f(2)] by blast
  have sd: "sound sending_db" using sending_pact by (simp add: pact_def)
  have sd1: "sound d1" using update_attempts_sound [OF sd d1] by (simp add: closed_by_worker_def Let_def)
  have r1: "intent_row ''i1'' d1 = Some sample_row"
    using sending_there(1) update_attempts_Inr(1) [OF d1] by (simp add: intent_row_def)
  obtain b where b: "backoff_of plain_decoders (intent_of 10 sample_row) = Inr b"
    using backoff_known [of sample_row] sample_facts(1) by (auto simp: sound_def sample_db_def)
  define w where "w = (writing (intent_of 10 sample_row) sample_transition ActorWorker)\<lparr>wBackoff := b,
      wAppliedRevision := Some 3, wAttemptIsFinal := False, wReceipt := ''{}'', wReceiptRef := ''C1/17''\<rparr>"
  have ws: "wTransition w = wTransition sample_write" "wIntent w = intent_of 10 sample_row"
    "\<not> ActorIsZero (wActor w)" "wReceiptRef w \<noteq> []"
    by (simp_all add: w_def writing_def system_actors sample_write_def)
  have "fit sample_row sample_input w" using sample_facts(4) ws(1,4) by (simp add: fit_def)
  from apply_written [OF sd1 r1 _ this ws(2,3)] sample_facts(3,7) ws(1)
  obtain d2 where d2: "applyTransitionTx 10 w d1 = Inr d2" by auto
  have mode: "iCompletionMode (intent_of 10 sample_row) = CompletionOnAcceptance"
    "finish_stopping plain_decoders (intent_of 10 sample_row) ?c = None"
    "tAppliedRevision open_attempt = Some 3" "tAttemptKind open_attempt = AttemptCreate"
    "fqReceipt accepted = ''{}''" "ReceiptRefOrEmpty ?c = ''C1/17''"
    by (simp_all add: sample_row_def finish_stopping_def completed_def accepted_def open_attempt_def
        ReceiptRefOrEmpty_def)
  have "finishOpen plain_decoders 10 sample_row open_attempt ?c accepted f sending_db
      = Inr (FinalizeFinalized (trTo sample_transition) (trRow sample_transition), d2)"
    using accepted_not_last accepted_transition d1 b d2 mode
    by (simp add: finishOpen_def w_def queuedAfter_def)
  moreover have "attempt_row (fqAttemptID accepted) sending_db = Some open_attempt"
    "intent_row (tIntentID open_attempt) sending_db = Some sample_row"
    using sending_there by (simp_all add: accepted_def open_attempt_def)
  moreover have "tLeaseToken open_attempt = Some (fqLeaseToken accepted)" "tFinishedAt open_attempt = None"
    "rCurrentAttempt sample_row = Some (tID open_attempt)" "rLeaseToken sample_row = tLeaseToken open_attempt"
    by (simp_all add: open_attempt_def accepted_def sample_row_def)
  ultimately show ?thesis using accepted_stands(1) [of open_attempt] f(1)
    by (simp add: FinalizeDeliveryAttempt_def)
qed

section \<open>The theorems applied\<close>

theorem one_effect_per_generation_witness:
  "\<exists>d t. delivery_run plain_decoders waiting_db d \<and> t \<in> set (dbAttempts d) \<and>
     tFinishedAt t = None \<and> {u \<in> set (dbAttempts d). tIntentID u = ''i1''} = {t}"
proof -
  obtain began d where b: "BeginAttempt plain_decoders 10 10 ''a1'' begin_waiting waiting_db
      = Inr (BeginStarted began, d)" using waiting_begins by blast
  then have run: "delivery_run plain_decoders waiting_db d"
    by (meson delivery_run.intros delivery_step.begins)
  obtain t where t: "dbAttempts d = dbAttempts waiting_db @ [t]" "tFinishedAt t = None"
    "tIntentID t = ''i1''" by (rule started_state [OF waiting_pact b]) (metis begin_request.select_convs(1) begin_waiting_def)
  have "u = t" if "u \<in> set (dbAttempts d)" "tIntentID u = ''i1''" for u
  proof -
    have "tFinishedAt u = None" using that(1) t by (simp add: waiting_defs)
    with one_effect_per_generation [OF waiting_pact run that(1), of t] t that(2) show ?thesis by simp
  qed
  moreover have "t \<in> set (dbAttempts d)" by (simp add: t(1))
  ultimately have "{u \<in> set (dbAttempts d). tIntentID u = ''i1''} = {t}" using t(3) by blast
  moreover have "t \<in> set (dbAttempts d)" by (simp add: t(1))
  ultimately show ?thesis using run t(2) by blast
qed

theorem network_is_authorised_once_witness:
  "\<exists>began d. BeginAttempt plain_decoders 10 10 ''a1'' begin_waiting waiting_db
      = Inr (BeginStarted began, d) \<and>
     BeginAttempt plain_decoders 20 20 ''a2'' begin_waiting d = Inr (BeginUncertain ''a1'', d)"
proof -
  obtain began d where b: "BeginAttempt plain_decoders 10 10 ''a1'' begin_waiting waiting_db
      = Inr (BeginStarted began, d)" using waiting_begins by blast
  have "scAttemptID began = ''a1''" by (rule started_state [OF waiting_pact b]) assumption
  with network_is_authorised_once [OF waiting_pact b, of begin_waiting]
  show ?thesis using b by (auto simp: begin_waiting_def)
qed

theorem token_is_the_fence_witness:
  "\<exists>ended begun. FinalizeDeliveryAttempt plain_decoders 10 (accepted\<lparr>fqLeaseToken := ''t2''\<rparr>) sending_db
       = Inr (ended, sending_db) \<and>
     BeginAttempt plain_decoders 10 10 ''a2'' (begin_waiting\<lparr>bqLeaseToken := ''t2''\<rparr>) sending_db
       = Inr (begun, sending_db) \<and> ended = FinalizeLeaseLost False"
proof -
  let ?fin = "accepted\<lparr>fqLeaseToken := ''t2''\<rparr>" and ?req = "begin_waiting\<lparr>bqLeaseToken := ''t2''\<rparr>"
  have t: "attempt_row (fqAttemptID ?fin) sending_db = Some open_attempt"
    "tLeaseToken open_attempt \<noteq> Some (fqLeaseToken ?fin)"
    "intent_row (bqIntentID ?req) sending_db = Some sample_row"
    "rLeaseToken sample_row \<noteq> Some (bqLeaseToken ?req)"
    using sending_there by (simp_all add: accepted_def open_attempt_def begin_waiting_def sample_row_def)
  have f: "FinalizeDeliveryAttempt plain_decoders 10 ?fin sending_db = Inr (FinalizeLeaseLost False, sending_db)"
    using t(1,2) sending_there(1) by (simp add: FinalizeDeliveryAttempt_def open_attempt_def)
  have b: "BeginAttempt plain_decoders 10 10 ''a2'' ?req sending_db = Inr (BeginLeaseLost, sending_db)"
    using t(3) by (simp add: BeginAttempt_def refusal_stale_def begin_waiting_def sample_row_def)
  from token_is_the_fence [OF t f b] f b show ?thesis by (simp add: begin_waiting_def)
qed

theorem conclusion_is_taken_once_witness:
  "\<exists>to why d. FinalizeDeliveryAttempt plain_decoders 10 accepted sending_db
      = Inr (FinalizeFinalized to why, d) \<and>
     FinalizeDeliveryAttempt plain_decoders 20 accepted d = Inr (FinalizeIdempotentRepeat, d)"
proof -
  obtain to why d where c: "FinalizeDeliveryAttempt plain_decoders 10 accepted sending_db
      = Inr (FinalizeFinalized to why, d)" using accepted_concludes by blast
  define other where "other = accepted\<lparr>fqLeaseToken := ''t2''\<rparr>"
  have o: "fqAttemptID other = fqAttemptID accepted" "fqLeaseToken other \<noteq> fqLeaseToken accepted"
    by (simp_all add: other_def accepted_def)
  have "FinalizeDeliveryAttempt plain_decoders 20 other d = Inr (FinalizeLeaseLost False, d)"
  proof (rule finalized_state [OF _ c])
    show "sound sending_db" using sending_pact by (simp add: pact_def)
  next
    fix t r t' r' print
    assume "attempt_row (fqAttemptID accepted) d = Some t'" "tLeaseToken t = Some (fqLeaseToken accepted)"
      "same_record t t'" "intent_row (tIntentID t) d = Some r'"
    then show ?thesis using o by (simp add: FinalizeDeliveryAttempt_def same_record_def)
  qed
  from conclusion_is_taken_once [OF sending_pact c o(1) this] c show ?thesis by blast
qed

theorem late_result_is_kept_witness:
  "\<exists>d'. FinalizeDeliveryAttempt plain_decoders 10 accepted late_db = Inr (FinalizeLeaseLost True, d')
     \<and> dbIntents d' = dbIntents late_db \<and> dbAttempts d' = dbAttempts late_db
     \<and> FinalizeDeliveryAttempt plain_decoders 20 accepted d' = Inr (FinalizeLeaseLost True, d')"
proof -
  obtain d' where l: "FinalizeDeliveryAttempt plain_decoders 10 accepted late_db
      = Inr (FinalizeLeaseLost True, d')" using late_is_kept by blast
  have t: "attempt_row (fqAttemptID accepted) late_db = Some lost_attempt"
    "intent_row (tIntentID lost_attempt) late_db = Some sample_row" "tFinishedAt lost_attempt \<noteq> None"
    "tFinishReason lost_attempt = Some ''lease_lost''" "tLeaseToken lost_attempt = Some (fqLeaseToken accepted)"
    using sending_there by (simp_all add: accepted_def lost_attempt_def open_attempt_def)
  from late_result_is_kept [OF t l] l show ?thesis by blast
qed

definition due_row :: row where
  "due_row = waiting_row\<lparr>rLeaseToken := None, rLockedUntil := None\<rparr>"

definition due_db :: db where "due_db = frozen_db\<lparr>dbIntents := [due_row]\<rparr>"

definition ask_for_work :: claim_request where
  "ask_for_work = \<lparr>cqFamily = FamilyNotification, cqProvider = ''slack'', cqPhase = ClaimFirstAttempts,
     cqLimit = 5, cqLease = 60, cqWorkerID = ''w1''\<rparr>"

definition claimed_db :: db where
  "claimed_db = frozen_db\<lparr>dbIntents := [leased_row 10 10 (\<lambda>i. ''t1'') ask_for_work due_row]\<rparr>"

lemmas claim_defs = ClaimDueIntents_def Let_def ask_for_work_def claim_picks_def claim_takes_def
  due_row_def leased_row_def deadline_alive_def lease_free_def update_intents_def nullable_def

lemma due_sound: "sound due_db"
  by (simp add: sound_def due_db_def due_row_def check_defs waiting_defs)

lemma due_claimed:
  "\<exists>out. ClaimDueIntents (\<lambda>i. False) 10 10 (\<lambda>i. ''t1'') ask_for_work due_db = Inr (out, claimed_db) \<and>
     length out = 1"
  by (simp add: claim_defs due_db_def claimed_db_def waiting_defs may_go_def dm_waits_for_def
      check_defs satelliteMayGo_def dmMayGo_def)

lemma claimed_again:
  "\<exists>out d. ClaimDueIntents (\<lambda>i. False) 20 20 (\<lambda>i. ''t2'') ask_for_work claimed_db = Inr (out, d)"
  by (simp add: claim_defs claimed_db_def waiting_defs)

theorem claims_do_not_overlap_witness:
  "\<exists>out out' d. ClaimDueIntents (\<lambda>i. False) 10 10 (\<lambda>i. ''t1'') ask_for_work due_db = Inr (out, claimed_db) \<and>
     length out = 1 \<and>
     ClaimDueIntents (\<lambda>i. False) 20 20 (\<lambda>i. ''t2'') ask_for_work claimed_db = Inr (out', d) \<and>
     iID ` fst ` set out \<inter> iID ` fst ` set out' = {}"
proof -
  obtain out where c: "ClaimDueIntents (\<lambda>i. False) 10 10 (\<lambda>i. ''t1'') ask_for_work due_db = Inr (out, claimed_db)"
    "length out = 1" using due_claimed by blast
  obtain out' d where e: "ClaimDueIntents (\<lambda>i. False) 20 20 (\<lambda>i. ''t2'') ask_for_work claimed_db = Inr (out', d)"
    using claimed_again by blast
  have "20 < 10 + cqLease ask_for_work" by (simp add: ask_for_work_def)
  from claims_do_not_overlap [OF due_sound c(1) e this]
  have "iID ` fst ` set out \<inter> iID ` fst ` set out' = {}" by fastforce
  with c e show ?thesis by blast
qed

theorem abandoned_attempt_is_closed_witness:
  "\<exists>tr d'. recoverOne plain_decoders 100 ''i1'' ''a1'' sending_db = Inr (Some tr, d') \<and>
     recoverOne plain_decoders 100 ''i1'' ''a1'' d' = Inr (None, d')"
proof -
  have "stale 100 ''a1'' sample_row" "version_of open_attempt = CompletionFingerprintV1"
    "rCompletionMode sample_row = CompletionOnAcceptance"
    "guesses (asks TriggerRecoverStale (intent_of 100 sample_row))"
    "tStartedAt open_attempt = Some s \<Longrightarrow> s \<le> 100" "length (dcSha plain_decoders m) = 32" for s m
    by (simp_all add: stale_def passed_def sample_row_def version_of_def open_attempt_def
        CompletionFingerprintV1_def guesses_def asks_def plain_decoders_def)
  with abandoned_attempt_is_closed [OF sending_pact sending_there(1) _ sending_there(3)]
  show ?thesis by blast
qed

end
