(* ===== verification/Slots.thy ===== *)
theory Slots
  imports Codec
begin

text \<open>
  How the free slots of one tick are divided: \<open>shareSlots\<close> and \<open>splitPhases\<close> of
  \<open>internal/outbound/schedule.go\<close>.

  The demand is the Go map as the list of its entries, in any order and each key once; the
  shares are a map read with 0 for an absent key, as Go reads it.  The tick is the worker's
  \<open>uint64\<close> counter, which never comes near its end.  What is proved: nobody is given more
  than it asked for, no slot is left while somebody asks, the division is max-min up to the
  one slot that cannot be split, and with a single slot every provider has its turn.
\<close>

section \<open>Sharing among providers\<close>

definition taken :: "(string \<rightharpoonup> int) \<Rightarrow> string \<Rightarrow> int" where
  "taken shares p = (case shares p of None \<Rightarrow> 0 | Some n \<Rightarrow> n)"

text \<open>One round: each candidate in turn is given its part; those still asking go on.\<close>

fun share_round ::
    "int \<Rightarrow> (string \<Rightarrow> int) \<Rightarrow> string list \<Rightarrow> int \<Rightarrow> (string \<rightharpoonup> int)
       \<Rightarrow> int \<times> (string \<rightharpoonup> int) \<times> string list" where
  "share_round each demand [] remaining shares = (remaining, shares, [])"
| "share_round each demand (p # ps) remaining shares =
     (if remaining = 0 then (remaining, shares, [])
      else let given = min (min each (demand p - taken shares p)) remaining;
               mine = taken shares p + given;
               (remaining', shares', still) =
                 share_round each demand ps (remaining - given) (shares(p \<mapsto> mine))
           in (remaining', shares', if mine < demand p then p # still else still))"

lemma share_round_progress:
  assumes "share_round each demand ps remaining shares = (remaining', shares', still)"
    and "1 \<le> each"
  shows "length still \<le> length ps \<and>
     (length still = length ps \<longrightarrow> ps \<noteq> [] \<longrightarrow> 0 < remaining \<longrightarrow> 0 \<le> remaining' \<and> remaining' < remaining)"
  using assms
proof (induction ps arbitrary: remaining shares remaining' shares' still)
  case (Cons p ps)
  show ?case
  proof (cases "remaining = 0")
    case False
    define given where "given = min (min each (demand p - taken shares p)) remaining"
    obtain r s st where rec: "share_round each demand ps (remaining - given)
        (shares(p \<mapsto> taken shares p + given)) = (r, s, st)" by (metis prod_cases3)
    have out: "remaining' = r" "still = (if taken shares p + given < demand p then p # st else st)"
      using Cons.prems(1) False rec by (simp_all add: Let_def given_def)
    note IH = Cons.IH [OF rec Cons.prems(2)]
    have "0 \<le> remaining' \<and> remaining' < remaining" if l: "length still = length (p # ps)" "0 < remaining"
    proof -
      from l out IH have asks: "taken shares p + given < demand p" "length st = length ps"
        by (auto split: if_splits)
      then have g: "1 \<le> given" "given \<le> remaining" using l(2) Cons.prems(2) by (auto simp: given_def)
      show ?thesis
      proof (cases "ps = [] \<or> remaining = given")
        case True
        then show ?thesis using rec out g
          by (cases ps) (auto split: if_splits)
      next
        case False
        with IH asks(2) g out show ?thesis by auto
      qed
    qed
    with IH out show ?thesis by auto
  qed (use Cons.prems in auto)
qed simp

function fill ::
    "(string \<Rightarrow> int) \<Rightarrow> string list \<Rightarrow> int \<Rightarrow> (string \<rightharpoonup> int) \<Rightarrow> string \<rightharpoonup> int" where
  "fill demand candidates remaining shares =
     (if remaining \<le> 0 \<or> candidates = [] then shares
      else let (remaining', shares', still) =
             share_round (max 1 (remaining div int (length candidates))) demand candidates
               remaining shares
           in fill demand still remaining' shares')"
  by pat_completeness auto

termination
proof (relation "inv_image ({(a, b). a < b} <*lex*> {(a, b). a < b}) (\<lambda>(d, c, r, s). (length c, nat r))")
  show "wf (inv_image ({(a, b). a < b} <*lex*> {(a, b). a < b}) (\<lambda>(d, c, r, s). (length c, nat r)))"
    by (intro wf_inv_image wf_lex_prod wf)
next
  fix demand :: "string \<Rightarrow> int" and candidates remaining shares x r y s still
  assume a: "\<not> (remaining \<le> 0 \<or> candidates = [])"
    "x = share_round (max 1 (remaining div int (length candidates))) demand candidates remaining shares"
    "(r, y) = x" "(s, still) = y"
  show "((demand, still, r, s), demand, candidates, remaining, shares)
      \<in> inv_image ({(a, b). a < b} <*lex*> {(a, b). a < b}) (\<lambda>(d, c, r, s). (length c, nat r))"
  proof -
    have "share_round (max 1 (remaining div int (length candidates))) demand candidates remaining shares
        = (r, s, still)" using a by metis
    from share_round_progress [OF this] have "length still \<le> length candidates"
      "length still = length candidates \<longrightarrow> 0 \<le> r \<and> r < remaining" using a(1) by auto
    then show ?thesis by (auto simp: le_less)
  qed
qed

declare fill.simps [simp del]

definition rotated :: "nat \<Rightarrow> string list \<Rightarrow> string list" where
  "rotated tick cs = (let offset = tick mod length cs in drop offset cs @ take offset cs)"

definition candidates_of :: "(string \<times> int) list \<Rightarrow> string list" where
  "candidates_of demand = sort (map fst (filter (\<lambda>(p, want). 0 < want) demand))"

definition wanted :: "(string \<times> int) list \<Rightarrow> string \<Rightarrow> int" where
  "wanted demand p = (case map_of demand p of None \<Rightarrow> 0 | Some want \<Rightarrow> want)"

definition shareSlots :: "int \<Rightarrow> (string \<times> int) list \<Rightarrow> nat \<Rightarrow> string \<rightharpoonup> int" where
  "shareSlots free demand tick =
     (if free \<le> 0 \<or> demand = [] \<or> candidates_of demand = [] then Map.empty
      else fill (wanted demand) (rotated tick (candidates_of demand)) free Map.empty)"

section \<open>Dividing one provider's slots\<close>

definition splitPhases :: "int \<Rightarrow> int \<Rightarrow> int \<Rightarrow> nat \<Rightarrow> int \<times> int" where
  "splitPhases limit fresh retries tick =
     (if limit \<le> 0 then (0, 0)
      else if fresh \<le> 0 then (0, limit)
      else if retries \<le> 0 then (limit, 0)
      else if limit = 1 then (if even tick then (1, 0) else (0, 1))
      else let first = min (min (max (limit * 3 div 4) 1) fresh) (limit - 1)
           in (first, limit - first))"

section \<open>A round of equals\<close>

text \<open>
  Candidates that stand at the same level, with enough for everybody: each rises by its part
  or to its demand, and those below their demand go on, again at the same level.
\<close>

lemma round_full:
  assumes "distinct ps" "\<forall>p\<in>set ps. taken shares p = level \<and> level < demand p"
    and "1 \<le> each" "each * int (length ps) \<le> remaining"
  shows "\<exists>shares'. share_round each demand ps remaining shares =
     (remaining - (\<Sum>p\<leftarrow>ps. min each (demand p - level)), shares',
      filter (\<lambda>p. level + each < demand p) ps) \<and>
     (\<forall>p. taken shares' p = (if p \<in> set ps then min (level + each) (demand p) else taken shares p))"
  using assms
proof (induction ps arbitrary: remaining shares)
  case (Cons p ps)
  have here: "taken shares p = level" "level < demand p" using Cons.prems(2) by auto
  have enough: "each + each * int (length ps) \<le> remaining"
    using Cons.prems(4) by (simp add: algebra_simps)
  have "0 \<le> each * int (length ps)" using Cons.prems(3) by simp
  then have r: "remaining \<noteq> 0" "each \<le> remaining" using enough Cons.prems(3) by linarith+
  define given where "given = min each (demand p - level)"
  have g: "min (min each (demand p - taken shares p)) remaining = given"
    using here r by (simp add: given_def)
  let ?shares = "shares(p \<mapsto> level + given)"
  have "\<forall>q\<in>set ps. taken ?shares q = level \<and> level < demand q"
    using Cons.prems(1,2) by (auto simp: taken_def)
  moreover have "each * int (length ps) \<le> remaining - given" using enough by (simp add: given_def)
  ultimately obtain shares' where s: "share_round each demand ps (remaining - given) ?shares =
      (remaining - given - (\<Sum>p\<leftarrow>ps. min each (demand p - level)), shares',
       filter (\<lambda>p. level + each < demand p) ps)"
    "\<forall>q. taken shares' q = (if q \<in> set ps then min (level + each) (demand q) else taken ?shares q)"
    using Cons.IH [OF _ _ Cons.prems(3), of ?shares "remaining - given"] Cons.prems(1)
    by (metis distinct.simps(2))
  have more: "(level + given < demand p) = (level + each < demand p)"
    by (auto simp: given_def)
  have up: "taken ?shares q = (if q = p then min (level + each) (demand p) else taken shares q)" for q
    by (auto simp: taken_def given_def)
  have "share_round each demand (p # ps) remaining shares =
      (remaining - (\<Sum>p\<leftarrow>p # ps. min each (demand p - level)), shares',
       filter (\<lambda>p. level + each < demand p) (p # ps))"
    using r(1) s(1) more g here(1) by (simp add: Let_def given_def algebra_simps)
  moreover have "\<forall>q. taken shares' q =
      (if q \<in> set (p # ps) then min (level + each) (demand q) else taken shares q)"
    using s(2) up Cons.prems(1) by auto
  ultimately show ?case by blast
qed simp

text \<open>With less than one each, the first ones are given one and nothing is left.\<close>

lemma round_last:
  assumes "distinct ps" "\<forall>p\<in>set ps. taken shares p = level \<and> level < demand p"
    and "0 \<le> remaining" "remaining \<le> int (length ps)"
  shows "\<exists>shares' still. share_round 1 demand ps remaining shares = (0, shares', still) \<and>
     (\<forall>p. taken shares' p =
        (if p \<in> set (take (nat remaining) ps) then level + 1 else taken shares p))"
  using assms
proof (induction ps arbitrary: remaining shares)
  case (Cons p ps)
  show ?case
  proof (cases "remaining = 0")
    case False
    have here: "taken shares p = level" "level < demand p" using Cons.prems(2) by auto
    let ?shares = "shares(p \<mapsto> level + 1)"
    have "\<forall>q\<in>set ps. taken ?shares q = level \<and> level < demand q"
      using Cons.prems(1,2) by (auto simp: taken_def)
    moreover have "distinct ps" "0 \<le> remaining - 1" "remaining - 1 \<le> int (length ps)"
      using Cons.prems(1,3,4) False by auto
    ultimately obtain shares' still where
      s: "share_round 1 demand ps (remaining - 1) ?shares = (0, shares', still)"
      "\<forall>q. taken shares' q =
        (if q \<in> set (take (nat (remaining - 1)) ps) then level + 1 else taken ?shares q)"
      using Cons.IH [of ?shares "remaining - 1"] by blast
    have t: "take (nat remaining) (p # ps) = p # take (nat (remaining - 1)) ps"
      using False Cons.prems(3) by (cases "nat remaining") (auto simp: nat_diff_distrib)
    have g: "min (min 1 (demand p - taken shares p)) remaining = 1"
      using here False Cons.prems(3) by simp
    have "p \<notin> set (take (nat (remaining - 1)) ps)"
      using Cons.prems(1) by (auto dest: in_set_takeD)
    with s g here(1) False t show ?thesis
      by (auto simp: Let_def taken_def)
  qed (use Cons.prems in auto)
qed simp

section \<open>The division is max-min\<close>

definition asks_for :: "(string \<Rightarrow> int) \<Rightarrow> string list \<Rightarrow> int \<Rightarrow> int" where
  "asks_for demand ps level = (\<Sum>p\<leftarrow>ps. demand p - level)"

definition fair :: "(string \<Rightarrow> int) \<Rightarrow> (string \<rightharpoonup> int) \<Rightarrow> bool" where
  "fair demand shares \<longleftrightarrow> (\<forall>p. 0 \<le> taken shares p \<and> taken shares p \<le> max 0 (demand p)) \<and>
     (\<forall>p q. taken shares p < demand p \<longrightarrow> taken shares q \<le> taken shares p + 1)"

text \<open>Where the loop stands: the candidates at one level, everybody else served in full below it.\<close>

definition level_at ::
    "(string \<Rightarrow> int) \<Rightarrow> string list \<Rightarrow> (string \<rightharpoonup> int) \<Rightarrow> int \<Rightarrow> bool" where
  "level_at demand ps shares level \<longleftrightarrow> distinct ps \<and> 0 \<le> level \<and>
     (\<forall>p\<in>set ps. taken shares p = level \<and> level < demand p) \<and>
     (\<forall>p. p \<notin> set ps \<longrightarrow> taken shares p = max 0 (demand p) \<and> taken shares p \<le> level)"

lemma level_fair:
  assumes "level_at demand ps shares level"
  shows "fair demand shares"
  unfolding fair_def
proof (intro conjI allI impI)
  fix p q
  have m: "taken shares x \<le> level" for x
    using assms by (cases "x \<in> set ps") (auto simp: level_at_def)
  show "0 \<le> taken shares p" "taken shares p \<le> max 0 (demand p)"
    using assms by (cases "p \<in> set ps"; force simp: level_at_def)+
  assume "taken shares p < demand p"
  then have "taken shares p = level" using assms by (cases "p \<in> set ps") (auto simp: level_at_def)
  with m [of q] show "taken shares q \<le> taken shares p + 1" by simp
qed

lemma sum_taken_update:
  assumes "finite A" "set ps \<subseteq> A" "distinct ps"
    and "\<forall>p. taken s' p = (if p \<in> set ps then taken s p + f p else taken s p)"
  shows "(\<Sum>p\<in>A. taken s' p) = (\<Sum>p\<in>A. taken s p) + (\<Sum>p\<leftarrow>ps. f p)"
proof -
  have "(\<Sum>p\<in>A. taken s' p) = (\<Sum>p\<in>A. taken s p + (if p \<in> set ps then f p else 0))"
    using assms(4) by (intro sum.cong) auto
  also have "\<dots> = (\<Sum>p\<in>A. taken s p) + (\<Sum>p\<in>set ps. f p)"
    using assms(1,2) by (simp add: sum.distrib sum.inter_restrict [symmetric] Int_absorb1)
  finally show ?thesis using assms(3) by (simp add: sum_list_distinct_conv_sum_set)
qed

lemma asks_for_filter:
  "asks_for demand (filter (\<lambda>p. level + each < demand p) ps) (level + each)
     = asks_for demand ps level - (\<Sum>p\<leftarrow>ps. min each (demand p - level))"
  by (induction ps) (auto simp: asks_for_def min_def)

lemma asks_for_nonneg: "\<forall>p\<in>set ps. level < demand p \<Longrightarrow> int (length ps) \<le> asks_for demand ps level"
  by (induction ps) (auto simp: asks_for_def)

lemma fill_fair:
  assumes "level_at demand ps shares level" "0 \<le> remaining" "finite A" "set ps \<subseteq> A"
  shows "fair demand (fill demand ps remaining shares) \<and>
     (\<Sum>p\<in>A. taken (fill demand ps remaining shares) p)
       = (\<Sum>p\<in>A. taken shares p) + min remaining (asks_for demand ps level)"
  using assms
proof (induction demand ps remaining shares arbitrary: level rule: fill.induct)
  case (1 demand ps remaining shares)
  note l = 1(2) [unfolded level_at_def]
  have n: "int (length ps) \<le> asks_for demand ps level" using l asks_for_nonneg by blast
  show ?case
  proof (cases "remaining \<le> 0 \<or> ps = []")
    case True
    then have "fill demand ps remaining shares = shares" by (simp add: fill.simps)
    moreover have "min remaining (asks_for demand ps level) = 0"
      using True n 1(3) by (auto simp: asks_for_def)
    ultimately show ?thesis using level_fair [OF 1(2)] by simp
  next
    case False
    define each where "each = max 1 (remaining div int (length ps))"
    have len: "0 < int (length ps)" using False by simp
    show ?thesis
    proof (cases "int (length ps) \<le> remaining")
      case True
      then have "1 \<le> remaining div int (length ps)"
        using len zdiv_mono1 [of "int (length ps)" remaining "int (length ps)"] by simp
      moreover have "remaining div int (length ps) * int (length ps) \<le> remaining"
        using div_mult_mod_eq [of remaining "int (length ps)"] pos_mod_sign [OF len, of remaining]
        by linarith
      ultimately have e: "1 \<le> each" "each * int (length ps) \<le> remaining"
        by (simp_all add: each_def max_def)
      from round_full [of ps shares level demand each remaining] l e obtain shares' where
        s: "share_round each demand ps remaining shares =
          (remaining - (\<Sum>p\<leftarrow>ps. min each (demand p - level)), shares',
           filter (\<lambda>p. level + each < demand p) ps)"
        "\<forall>p. taken shares' p = (if p \<in> set ps then min (level + each) (demand p) else taken shares p)"
        by blast
      let ?given = "\<Sum>p\<leftarrow>ps. min each (demand p - level)" and ?still = "filter (\<lambda>p. level + each < demand p) ps"
      have f: "fill demand ps remaining shares = fill demand ?still (remaining - ?given) shares'"
        using False s(1) by (subst fill.simps) (simp add: each_def [symmetric] Let_def)
      have "?given \<le> each * int (length ps)"
        by (induction ps) (auto simp: algebra_simps min_def)
      then have left: "0 \<le> remaining - ?given" using e(2) by linarith
      have lv: "level_at demand ?still shares' (level + each)"
        unfolding level_at_def
      proof (intro conjI ballI allI impI)
        show "distinct ?still" "0 \<le> level + each" using l e(1) by auto
        show "taken shares' p = level + each" "level + each < demand p" if "p \<in> set ?still" for p
          using that s(2) by auto
        show "taken shares' p = max 0 (demand p)" "taken shares' p \<le> level + each" if "p \<notin> set ?still" for p
        proof -
          show "taken shares' p = max 0 (demand p)" using that s(2) l by (cases "p \<in> set ps") auto
          show "taken shares' p \<le> level + each" using that s(2) l e(1)
            by (cases "p \<in> set ps") (auto intro: order_trans)
        qed
      qed
      have "fair demand (fill demand (filter (\<lambda>p. level + max 1 (remaining div int (length ps)) < demand p) ps)
            (remaining - (\<Sum>p\<leftarrow>ps. min (max 1 (remaining div int (length ps))) (demand p - level))) shares') \<and>
         (\<Sum>p\<in>A. taken (fill demand (filter (\<lambda>p. level + max 1 (remaining div int (length ps)) < demand p) ps)
            (remaining - (\<Sum>p\<leftarrow>ps. min (max 1 (remaining div int (length ps))) (demand p - level))) shares') p)
           = (\<Sum>p\<in>A. taken shares' p)
             + min (remaining - (\<Sum>p\<leftarrow>ps. min (max 1 (remaining div int (length ps))) (demand p - level)))
               (asks_for demand (filter (\<lambda>p. level + max 1 (remaining div int (length ps)) < demand p) ps)
                 (level + each))"
      proof (rule 1(1) [OF False refl s(1) [unfolded each_def, symmetric] refl])
        show "level_at demand (filter (\<lambda>p. level + max 1 (remaining div int (length ps)) < demand p) ps)
            shares' (level + each)" using lv by (simp only: each_def)
        show "0 \<le> remaining - (\<Sum>p\<leftarrow>ps. min (max 1 (remaining div int (length ps))) (demand p - level))"
          using left by (simp only: each_def)
      qed (use 1(4,5) in auto)
      note IH = this [folded each_def]
      have "(\<Sum>p\<in>A. taken shares' p) = (\<Sum>p\<in>A. taken shares p) + ?given"
      proof (rule sum_taken_update [OF 1(4,5)])
        show "distinct ps" using l by blast
        show "\<forall>p. taken shares' p = (if p \<in> set ps then taken shares p + min each (demand p - level)
            else taken shares p)" using s(2) l by auto
      qed
      then have "(\<Sum>p\<in>A. taken (fill demand ps remaining shares) p) = (\<Sum>p\<in>A. taken shares p) + ?given
          + min (remaining - ?given) (asks_for demand ps level - ?given)"
        using IH unfolding f asks_for_filter by linarith
      moreover have "?given + min (remaining - ?given) (asks_for demand ps level - ?given)
          = min remaining (asks_for demand ps level)" by linarith
      moreover have "fair demand (fill demand ps remaining shares)" using IH unfolding f by blast
      ultimately show ?thesis by (simp only: add.assoc)
    next
      case less: False
      then have e: "each = 1" using len 1(3) by (simp add: each_def div_pos_pos_trivial)
      from round_last [of ps shares level demand remaining] l 1(3) less obtain shares' still where
        s: "share_round 1 demand ps remaining shares = (0, shares', still)"
        "\<forall>p. taken shares' p = (if p \<in> set (take (nat remaining) ps) then level + 1 else taken shares p)"
        by auto
      have f: "fill demand ps remaining shares = shares'"
        using False s(1) e by (subst fill.simps) (simp add: each_def [symmetric] Let_def fill.simps)
      have sub: "set (take (nat remaining) ps) \<subseteq> set ps" by (rule set_take_subset)
      have "fair demand shares'"
        unfolding fair_def
      proof (intro conjI allI impI)
        fix p q
        show "0 \<le> taken shares' p" "taken shares' p \<le> max 0 (demand p)"
          using s(2) l sub by (cases "p \<in> set ps"; force)+
        assume "taken shares' p < demand p"
        then have "level \<le> taken shares' p" using s(2) l by (cases "p \<in> set ps") auto
        moreover have "taken shares' q \<le> level + 1" using s(2) l by (cases "q \<in> set ps") auto
        ultimately show "taken shares' q \<le> taken shares' p + 1" by linarith
      qed
      moreover have "(\<Sum>p\<in>A. taken shares' p) = (\<Sum>p\<in>A. taken shares p)
          + (\<Sum>p\<leftarrow>take (nat remaining) ps. 1)"
      proof (rule sum_taken_update [OF 1(4)])
        show "set (take (nat remaining) ps) \<subseteq> A" using sub 1(5) by blast
        show "distinct (take (nat remaining) ps)" using l by simp
        show "\<forall>p. taken shares' p = (if p \<in> set (take (nat remaining) ps) then taken shares p + 1
            else taken shares p)" using s(2) l sub by auto
      qed
      moreover have "(\<Sum>p\<leftarrow>take (nat remaining) ps. 1::int) = remaining"
        using less 1(3) by (simp add: sum_list_triv)
      ultimately show ?thesis using f n less by simp
    qed
  qed
qed

section \<open>Properties\<close>

lemma wanted_eq:
  assumes "distinct (map fst demand)" "(p, w) \<in> set demand"
  shows "wanted demand p = w"
  using assms by (simp add: wanted_def)

lemma candidates_set:
  assumes "distinct (map fst demand)"
  shows "p \<in> set (candidates_of demand) \<longleftrightarrow> 0 < wanted demand p"
proof
  assume "p \<in> set (candidates_of demand)"
  then obtain w where "(p, w) \<in> set demand" "0 < w" by (auto simp: candidates_of_def)
  with wanted_eq [OF assms] show "0 < wanted demand p" by auto
next
  assume "0 < wanted demand p"
  then obtain w where "map_of demand p = Some w" "0 < w"
    by (auto simp: wanted_def split: option.splits)
  then show "p \<in> set (candidates_of demand)" by (force simp: candidates_of_def dest: map_of_SomeD)
qed

lemma candidates_distinct: "distinct (map fst demand) \<Longrightarrow> distinct (candidates_of demand)"
  by (simp add: candidates_of_def distinct_map_filter)

lemma rotated_set [simp]: "set (rotated tick cs) = set cs"
proof -
  have "set (rotated tick cs) = set (take (tick mod length cs) cs @ drop (tick mod length cs) cs)"
    by (auto simp: rotated_def Let_def simp del: append_take_drop_id)
  then show ?thesis by simp
qed

lemma rotated_distinct [simp]: "distinct cs \<Longrightarrow> distinct (rotated tick cs)"
  using set_take_disj_set_drop_if_distinct [of cs "tick mod length cs" "tick mod length cs"]
  by (auto simp: rotated_def Let_def)

lemma start_level:
  assumes "distinct (map fst demand)"
  shows "level_at (wanted demand) (rotated tick (candidates_of demand)) Map.empty 0"
  using candidates_set [OF assms] candidates_distinct [OF assms]
  by (auto simp: level_at_def taken_def)

lemma shared_max_min:
  assumes "distinct (map fst demand)"
  shows "(\<forall>p. 0 \<le> taken (shareSlots free demand tick) p \<and>
       taken (shareSlots free demand tick) p \<le> max 0 (wanted demand p)) \<and>
     (\<Sum>p\<in>set (candidates_of demand). taken (shareSlots free demand tick) p)
       = min (max 0 free) (\<Sum>p\<in>set (candidates_of demand). wanted demand p) \<and>
     (\<forall>p q. taken (shareSlots free demand tick) p < wanted demand p \<longrightarrow>
       taken (shareSlots free demand tick) q \<le> taken (shareSlots free demand tick) p + 1)"
proof (cases "free \<le> 0 \<or> candidates_of demand = []")
  case True
  have "0 \<le> (\<Sum>p\<in>set (candidates_of demand). wanted demand p)"
    using candidates_set [OF assms] by (intro sum_nonneg) (auto intro: less_imp_le)
  moreover have "shareSlots free demand tick = Map.empty" using True by (auto simp: shareSlots_def)
  ultimately show ?thesis using True by (auto simp: taken_def)
next
  case False
  let ?cs = "rotated tick (candidates_of demand)"
  have e: "shareSlots free demand tick = fill (wanted demand) ?cs free Map.empty"
    using False by (auto simp: shareSlots_def candidates_of_def)
  have "asks_for (wanted demand) ?cs 0 = (\<Sum>p\<in>set (candidates_of demand). wanted demand p)"
    using candidates_distinct [OF assms] by (simp add: asks_for_def sum_list_distinct_conv_sum_set)
  with fill_fair [OF start_level [OF assms], of free "set (candidates_of demand)" tick] False
  show ?thesis unfolding e fair_def by (simp add: taken_def)
qed

text \<open>
  C18. The free slots are divided max-min: nobody is given more than it could use, as many are
  given as there are or as are asked for, and whoever is left wanting has at most one slot
  less than anybody else.
\<close>

theorem slots_are_shared_max_min:
  assumes "distinct (map fst demand)"
  shows "(\<forall>p. 0 \<le> taken (shareSlots free demand tick) p \<and>
       taken (shareSlots free demand tick) p \<le> max 0 (wanted demand p)) \<and>
     (\<Sum>p\<in>set (candidates_of demand). taken (shareSlots free demand tick) p)
       = min (max 0 free) (\<Sum>p\<in>set (candidates_of demand). wanted demand p) \<and>
     (\<forall>p q. taken (shareSlots free demand tick) p < wanted demand p \<longrightarrow>
       taken (shareSlots free demand tick) q \<le> taken (shareSlots free demand tick) p + 1)"
  using shared_max_min [OF assms] by blast

lemma one_slot:
  assumes "distinct (map fst demand)" "candidates_of demand \<noteq> []"
  shows "taken (shareSlots 1 demand tick)
      (candidates_of demand ! (tick mod length (candidates_of demand))) = 1"
proof -
  let ?cs = "candidates_of demand" and ?d = "wanted demand"
  let ?rs = "rotated tick ?cs"
  have ne: "demand \<noteq> []" using assms(2) by (auto simp: candidates_of_def)
  have "?rs ! 0 = ?cs ! (tick mod length ?cs)"
    using assms(2) by (simp add: rotated_def Let_def nth_append)
  moreover have "?rs \<noteq> []" using assms(2) by (metis rotated_set set_empty)
  ultimately have t: "set (take (nat 1) ?rs) = {?cs ! (tick mod length ?cs)}" by (cases ?rs) auto
  have len: "1 \<le> int (length ?rs)" using \<open>?rs \<noteq> []\<close> by (cases ?rs) auto
  then have "1 div int (length ?rs) \<le> 1" using zdiv_mono2 [of 1 1 "int (length ?rs)"] by simp
  then have each: "max 1 (1 div int (length ?rs)) = 1" by simp
  from start_level [OF assms(1), of tick] round_last [of ?rs Map.empty 0 ?d 1] len obtain sh still where
    s: "share_round 1 ?d ?rs 1 Map.empty = (0, sh, still)"
    "\<forall>p. taken sh p = (if p \<in> set (take (nat 1) ?rs) then 0 + 1 else taken Map.empty p)"
    by (auto simp: level_at_def)
  have "shareSlots 1 demand tick = sh"
    using assms(2) ne s(1) \<open>?rs \<noteq> []\<close> each
    by (simp add: shareSlots_def fill.simps [of ?d ?rs] fill.simps [of ?d still 0])
  with s(2) t show ?thesis by simp
qed

text \<open>
  C19. Nobody starves: with a single free slot every provider that asks is given it within as
  many ticks as there are providers; and inside a provider the slots are divided exactly,
  both queues having some when there are at least two, and the single slot going to each of
  them in turn.
\<close>

theorem nobody_starves:
  assumes "distinct (map fst demand)" and "0 < wanted demand p"
  shows "(\<exists>k < length (candidates_of demand). taken (shareSlots 1 demand (tick + k)) p = 1) \<and>
     (case splitPhases limit fresh retries tick of (first, rest) \<Rightarrow>
        first + rest = max 0 limit \<and> 0 \<le> first \<and> 0 \<le> rest \<and>
        (0 < fresh \<and> 0 < retries \<and> 2 \<le> limit \<longrightarrow> 1 \<le> first \<and> first \<le> fresh \<and> 1 \<le> rest)) \<and>
     (0 < fresh \<and> 0 < retries \<longrightarrow>
        {splitPhases 1 fresh retries tick, splitPhases 1 fresh retries (Suc tick)} = {(1, 0), (0, 1)})"
proof -
  let ?cs = "candidates_of demand"
  have "p \<in> set ?cs" using candidates_set [OF assms(1)] assms(2) by blast
  then obtain j where j: "j < length ?cs" "?cs ! j = p" by (auto simp: in_set_conv_nth)
  then have ne: "?cs \<noteq> []" by auto
  define n where "n = length ?cs"
  define k where "k = (n + j - tick mod n) mod n"
  have n: "0 < n" "tick mod n < n" using j(1) by (auto simp: n_def intro!: mod_less_divisor)
  have "(tick + k) mod n = (tick mod n + (n + j - tick mod n)) mod n"
    by (simp add: k_def mod_add_left_eq mod_add_right_eq)
  also have "\<dots> = (n + j) mod n" using n(2) by simp
  also have "\<dots> = j" using j(1) by (simp add: n_def)
  finally have "taken (shareSlots 1 demand (tick + k)) p = 1"
    using one_slot [OF assms(1) ne, of "tick + k"] j(2) by (simp add: n_def)
  moreover have "k < n" using n(1) by (simp add: k_def)
  moreover have "case splitPhases limit fresh retries tick of (first, rest) \<Rightarrow>
        first + rest = max 0 limit \<and> 0 \<le> first \<and> 0 \<le> rest \<and>
        (0 < fresh \<and> 0 < retries \<and> 2 \<le> limit \<longrightarrow> 1 \<le> first \<and> first \<le> fresh \<and> 1 \<le> rest)"
    by (auto simp: splitPhases_def Let_def min_def max_def)
  moreover have "0 < fresh \<and> 0 < retries \<longrightarrow>
        {splitPhases 1 fresh retries tick, splitPhases 1 fresh retries (Suc tick)} = {(1, 0), (0, 1)}"
    by (auto simp: splitPhases_def)
  ultimately show ?thesis by (auto simp: n_def)
qed

section \<open>Witnesses\<close>

definition three_ask :: "(string \<times> int) list" where
  "three_ask = [(''telegram'', 1), (''phone'', 9), (''slack'', 4)]"

theorem slots_are_shared_max_min_witness:
  "(\<Sum>p\<in>set (candidates_of three_ask). taken (shareSlots 8 three_ask 5) p) = 8 \<and>
     taken (shareSlots 8 three_ask 5) ''telegram'' \<le> 1"
proof -
  have d: "distinct (map fst three_ask)" by (simp add: three_ask_def)
  have "set (candidates_of three_ask) = {''telegram'', ''phone'', ''slack''}"
    by (auto simp: candidates_of_def three_ask_def)
  moreover have "wanted three_ask ''telegram'' = 1" "wanted three_ask ''phone'' = 9"
    "wanted three_ask ''slack'' = 4" by (simp_all add: wanted_def three_ask_def)
  ultimately have "(\<Sum>p\<in>set (candidates_of three_ask). wanted three_ask p) = 14"
    "max 0 (wanted three_ask ''telegram'') = 1" by simp_all
  note sizes = this
  note shared = slots_are_shared_max_min [OF d, of 8 5]
  from shared have "taken (shareSlots 8 three_ask 5) ''telegram'' \<le> max 0 (wanted three_ask ''telegram'')"
    by blast
  moreover from shared have "(\<Sum>p\<in>set (candidates_of three_ask). taken (shareSlots 8 three_ask 5) p)
      = min (max 0 8) (\<Sum>p\<in>set (candidates_of three_ask). wanted three_ask p)" by blast
  ultimately show ?thesis unfolding sizes by simp
qed

theorem nobody_starves_witness:
  "\<exists>k < length (candidates_of three_ask). taken (shareSlots 1 three_ask (7 + k)) ''telegram'' = 1"
proof -
  have "distinct (map fst three_ask)" "0 < wanted three_ask ''telegram''"
    by (simp_all add: wanted_def three_ask_def)
  from nobody_starves [OF this, of 7] show ?thesis by blast
qed

end
