(* ===== verification/People.thy ===== *)
theory People
  imports Prelude
begin

text \<open>
  The people of the system and what belongs to them: users, teams and memberships, API
  tokens, external identities and the tokens that link them (\<open>internal/store/store.go\<close>,
  \<open>internal/store/identity_store.go\<close>).

  A table is the list of its rows, a nullable column an option, an instant a number of
  nanoseconds; \<open>now\<close> is the clock and \<open>fresh\<close> a new identifier.  A statement that would
  break a key or a unique index is refused and leaves the tables as they were.  Several
  operations commit a change and still answer an error - a wrong code counts an attempt -
  so every operation returns both its answer and the tables it leaves behind.
\<close>

section \<open>Tables\<close>

definition UserRoleAdmin :: string where "UserRoleAdmin = ''admin''"
definition UserRoleUser :: string where "UserRoleUser = ''user''"
definition TeamMemberRoleAdmin :: string where "TeamMemberRoleAdmin = ''team_admin''"
definition TeamMemberRoleMember :: string where "TeamMemberRoleMember = ''team_member''"

record user =
  uID :: string
  uEmail :: "string option"
  uName :: string
  uRole :: string
  uPasswordHash :: "string option"
  uAuthProvider :: "string option"
  uCreatedAt :: int
  uDeletedAt :: "int option"

record team_member =
  mTeam :: string
  mUser :: string
  mRole :: string

record api_token =
  kID :: string
  kUser :: string
  kName :: string
  kHash :: string
  kExpiresAt :: "int option"
  kLastUsedAt :: "int option"
  kCreatedAt :: int

record external_identity =
  xID :: string
  xUser :: string
  xProvider :: string
  xExternalID :: string
  xChatID :: "string option"
  xDisplayName :: "string option"
  xCreatedAt :: int
  xUpdatedAt :: int

record link_token =
  lID :: string
  lUser :: string
  lProvider :: string
  lHash :: string
  lExternalID :: "string option"
  lAttempts :: int
  lExpiresAt :: int
  lCreatedAt :: int

text \<open>The phone of a person and the calls they asked for (\<open>internal/store/phone_schema.go\<close>).\<close>

record contact =
  nID :: string
  nUser :: string
  nValue :: string
  nVerifiedAt :: "int option"
  nPinned :: "string option"
  nUpdatedAt :: int

record dnd_check =
  dUser :: string
  dPhone :: string
  dSender :: string
  dConfirmedAt :: int

record call_log =
  gUser :: string
  gPurpose :: string
  gTo :: "string option"
  gFrom :: string
  gIntegration :: string
  gCreatedAt :: int

record reservation =
  vID :: string
  vScope :: string
  vPurpose :: string
  vUser :: "string option"
  vFrom :: string
  vCreatedAt :: int
  vHoldUntil :: int
  vReleasedAt :: "int option"

record people =
  pUsers :: "user list"
  pTeams :: "string list"
  pMembers :: "team_member list"
  pTokens :: "api_token list"
  pIdentities :: "external_identity list"
  pLinks :: "link_token list"
  pContacts :: "contact list"
  pChecks :: "dnd_check list"
  pCalls :: "call_log list"
  pCapacity :: "(string \<times> int) list"
  pReservations :: "reservation list"

text \<open>The keys and unique indexes of the tables.\<close>

definition users_ok :: "user list \<Rightarrow> bool" where
  "users_ok us \<longleftrightarrow> distinct (map uID us) \<and> distinct (List.map_filter uEmail us)"

definition members_ok :: "team_member list \<Rightarrow> bool" where
  "members_ok ms \<longleftrightarrow> distinct (map (\<lambda>m. (mTeam m, mUser m)) ms)"

definition tokens_ok :: "api_token list \<Rightarrow> bool" where
  "tokens_ok ks \<longleftrightarrow> distinct (map kID ks) \<and> distinct (map kHash ks)"

definition identities_ok :: "external_identity list \<Rightarrow> bool" where
  "identities_ok xs \<longleftrightarrow> distinct (map xID xs) \<and> distinct (map (\<lambda>x. (xUser x, xProvider x)) xs)"

definition accounts_distinct :: "external_identity list \<Rightarrow> bool" where
  "accounts_distinct xs \<longleftrightarrow> distinct (map (\<lambda>x. (xProvider x, xExternalID x)) xs)"

definition links_ok :: "link_token list \<Rightarrow> bool" where
  "links_ok ls \<longleftrightarrow> distinct (map lID ls) \<and> distinct (map (\<lambda>l. (lUser l, lProvider l)) ls)
     \<and> distinct (map (\<lambda>l. (lProvider l, lHash l)) ls)"

section \<open>Answers\<close>

datatype people_error = ErrUserNotFound | ErrLastAdmin | ErrExternalIdentityAlreadyLinked
  | ErrLinkTokenInvalid | ErrLinkTokenExpired | TokenRequired | NothingToBind | NoRows
  | ConstraintViolated | ErrPhoneContactChanged | ErrPhoneNotVerified | NoCallCapacity
  | PhoneCallRefused string int

type_synonym 'a answer = "(people_error + 'a) \<times> people"

text \<open>A statement that writes a table: refused when the table would break its keys.\<close>

definition written :: "bool \<Rightarrow> people \<Rightarrow> people \<Rightarrow> (people \<Rightarrow> 'a answer) \<Rightarrow> 'a answer" where
  "written ok p' p k = (if ok then k p' else (Inl ConstraintViolated, p))"

definition requireOneRow :: "nat \<Rightarrow> people_error \<Rightarrow> people \<Rightarrow> unit answer" where
  "requireOneRow affected mismatch p = (if affected \<noteq> 1 then Inl mismatch else Inr (), p)"

text \<open>\<open>INSERT .. ON CONFLICT (key) DO UPDATE\<close>: the row with the key is merged, or the new one added.\<close>

definition upsert :: "('r \<Rightarrow> 'k) \<Rightarrow> 'r \<Rightarrow> ('r \<Rightarrow> 'r) \<Rightarrow> 'r list \<Rightarrow> 'r list" where
  "upsert key new merge rows =
     (if list_ex (\<lambda>r. key r = key new) rows
      then map (\<lambda>r. if key r = key new then merge r else r) rows
      else rows @ [new])"

text \<open>The rows of \<open>activeUserCTE\<close>, and \<open>lockActiveUserTx\<close>: the user, unless erased.\<close>

definition is_active :: "string \<Rightarrow> user \<Rightarrow> bool" where
  "is_active uid u \<longleftrightarrow> uID u = uid \<and> uDeletedAt u = None"

definition activeUser :: "string \<Rightarrow> people \<Rightarrow> bool" where
  "activeUser uid p \<longleftrightarrow> list_ex (is_active uid) (pUsers p)"

definition lockActiveUserTx :: "string \<Rightarrow> people \<Rightarrow> people_error + unit" where
  "lockActiveUserTx uid p = (if activeUser uid p then Inr () else Inl ErrUserNotFound)"

section \<open>Users\<close>

text \<open>The user as the program reads it: a missing column is the empty string.\<close>

record model_user =
  aID :: string
  aEmail :: string
  aName :: string
  aRole :: string
  aPasswordHash :: string
  aAuthProvider :: string
  aCreatedAt :: "int option"

definition or_empty :: "string option \<Rightarrow> string" where
  "or_empty v = (case v of None \<Rightarrow> [] | Some s \<Rightarrow> s)"

definition null_if_empty :: "string \<Rightarrow> string option" where
  "null_if_empty s = (if s = [] then None else Some s)"

definition scanUser :: "user \<Rightarrow> model_user" where
  "scanUser u = \<lparr>aID = uID u, aEmail = or_empty (uEmail u), aName = uName u, aRole = uRole u,
     aPasswordHash = or_empty (uPasswordHash u), aAuthProvider = or_empty (uAuthProvider u),
     aCreatedAt = Some (uCreatedAt u)\<rparr>"

definition CreateUser :: "int \<Rightarrow> model_user \<Rightarrow> people \<Rightarrow> unit answer" where
  "CreateUser now a p =
     (let created = (case aCreatedAt a of None \<Rightarrow> now | Some t \<Rightarrow> t);
          role = (if aRole a = [] then UserRoleUser else aRole a);
          admins = length (filter (\<lambda>u. uRole u = UserRoleAdmin) (pUsers p));
          granted = (if admins = 0 then UserRoleAdmin else role);
          row = \<lparr>uID = aID a, uEmail = Some (aEmail a), uName = aName a, uRole = granted,
                 uPasswordHash = Some (aPasswordHash a), uAuthProvider = Some (aAuthProvider a),
                 uCreatedAt = created, uDeletedAt = None\<rparr>;
          us = pUsers p @ [row]
      in written (users_ok us) (p\<lparr>pUsers := us\<rparr>) p (\<lambda>p'. (Inr (), p')))"

definition GetUserByID :: "string \<Rightarrow> people \<Rightarrow> people_error + model_user" where
  "GetUserByID uid p = (case find (\<lambda>u. uID u = uid) (pUsers p) of
     None \<Rightarrow> Inl NoRows | Some u \<Rightarrow> Inr (scanUser u))"

definition GetActiveUserByID :: "string \<Rightarrow> people \<Rightarrow> people_error + model_user" where
  "GetActiveUserByID uid p = (case find (is_active uid) (pUsers p) of
     None \<Rightarrow> Inl ErrUserNotFound | Some u \<Rightarrow> Inr (scanUser u))"

definition GetUserByEmail :: "string \<Rightarrow> people \<Rightarrow> people_error + model_user" where
  "GetUserByEmail email p = (case find (\<lambda>u. uEmail u = Some email) (pUsers p) of
     None \<Rightarrow> Inl NoRows | Some u \<Rightarrow> Inr (scanUser u))"

text \<open>\<open>UPDATE users SET .. WHERE id = .. AND deleted_at IS NULL\<close>, and the count of its rows.\<close>

definition update_active :: "string \<Rightarrow> (user \<Rightarrow> user) \<Rightarrow> people \<Rightarrow> unit answer" where
  "update_active uid f p =
     (let us = map (\<lambda>u. if is_active uid u then f u else u) (pUsers p)
      in written (users_ok us) (p\<lparr>pUsers := us\<rparr>) p
           (requireOneRow (length (filter (is_active uid) (pUsers p))) ErrUserNotFound))"

definition UpdateUser :: "model_user \<Rightarrow> people \<Rightarrow> unit answer" where
  "UpdateUser a = update_active (aID a) (\<lambda>u. u\<lparr>uEmail := Some (aEmail a), uName := aName a\<rparr>)"

definition UpdateUserPassword :: "string \<Rightarrow> string \<Rightarrow> people \<Rightarrow> unit answer" where
  "UpdateUserPassword uid hash = update_active uid (\<lambda>u. u\<lparr>uPasswordHash := Some hash\<rparr>)"

definition UpdateUserAuthProvider :: "string \<Rightarrow> string \<Rightarrow> people \<Rightarrow> unit answer" where
  "UpdateUserAuthProvider uid provider = update_active uid (\<lambda>u. u\<lparr>uAuthProvider := Some provider\<rparr>)"

definition active_admin :: "user \<Rightarrow> bool" where
  "active_admin u \<longleftrightarrow> uRole u = UserRoleAdmin \<and> uDeletedAt u = None"

definition CountAdmins :: "people \<Rightarrow> nat" where
  "CountAdmins p = length (filter active_admin (pUsers p))"

definition SetUserRole :: "string \<Rightarrow> string \<Rightarrow> people \<Rightarrow> unit answer" where
  "SetUserRole uid role p =
     (case find (is_active uid) (pUsers p) of
        None \<Rightarrow> (Inl ErrUserNotFound, p)
      | Some u \<Rightarrow>
          if uRole u = UserRoleAdmin \<and> role \<noteq> UserRoleAdmin \<and> CountAdmins p \<le> 1
          then (Inl ErrLastAdmin, p)
          else (Inr (), p\<lparr>pUsers := map (\<lambda>u. if is_active uid u then u\<lparr>uRole := role\<rparr> else u) (pUsers p)\<rparr>))"

section \<open>Teams\<close>

definition CreateTeam :: "string \<Rightarrow> people \<Rightarrow> unit answer" where
  "CreateTeam tid p = written (tid \<notin> set (pTeams p)) (p\<lparr>pTeams := pTeams p @ [tid]\<rparr>) p (\<lambda>p'. (Inr (), p'))"

definition AddTeamMember :: "string \<Rightarrow> string \<Rightarrow> string \<Rightarrow> people \<Rightarrow> unit answer" where
  "AddTeamMember tid uid role p =
     (if \<not> activeUser uid p then (Inl ErrUserNotFound, p)
      else written (tid \<in> set (pTeams p))
        (p\<lparr>pMembers := upsert (\<lambda>m. (mTeam m, mUser m)) \<lparr>mTeam = tid, mUser = uid, mRole = role\<rparr>
           (\<lambda>m. m\<lparr>mRole := role\<rparr>) (pMembers p)\<rparr>) p (\<lambda>p'. (Inr (), p')))"

definition RemoveTeamMember :: "string \<Rightarrow> string \<Rightarrow> people \<Rightarrow> unit answer" where
  "RemoveTeamMember tid uid p =
     (Inr (), p\<lparr>pMembers := filter (\<lambda>m. \<not> (mTeam m = tid \<and> mUser m = uid)) (pMembers p)\<rparr>)"

definition GetUserTeamRole :: "string \<Rightarrow> string \<Rightarrow> people \<Rightarrow> people_error + string" where
  "GetUserTeamRole uid tid p = (case find (\<lambda>m. mUser m = uid \<and> mTeam m = tid) (pMembers p) of
     None \<Rightarrow> Inl NoRows | Some m \<Rightarrow> Inr (mRole m))"

definition GetTeamMembershipsForUser :: "string \<Rightarrow> people \<Rightarrow> (string \<times> string) list" where
  "GetTeamMembershipsForUser uid p = map (\<lambda>m. (mTeam m, mRole m)) (filter (\<lambda>m. mUser m = uid) (pMembers p))"

section \<open>API tokens\<close>

text \<open>The second argument is the creation time the caller gives, \<open>None\<close> for the zero time.\<close>

definition CreateAPIToken :: "int \<Rightarrow> int option \<Rightarrow> api_token \<Rightarrow> people \<Rightarrow> unit answer" where
  "CreateAPIToken now created t p =
     (if \<not> activeUser (kUser t) p then (Inl ErrUserNotFound, p)
      else let ks = pTokens p @ [t\<lparr>kLastUsedAt := None,
             kCreatedAt := (case created of None \<Rightarrow> now | Some c \<Rightarrow> c)\<rparr>]
           in written (tokens_ok ks) (p\<lparr>pTokens := ks\<rparr>) p (\<lambda>p'. (Inr (), p')))"

definition GetAPITokenByHash :: "string \<Rightarrow> people \<Rightarrow> people_error + api_token" where
  "GetAPITokenByHash hash p = (case find (\<lambda>t. kHash t = hash \<and> activeUser (kUser t) p) (pTokens p) of
     None \<Rightarrow> Inl NoRows | Some t \<Rightarrow> Inr t)"

definition UpdateAPITokenLastUsed :: "int \<Rightarrow> string \<Rightarrow> people \<Rightarrow> unit answer" where
  "UpdateAPITokenLastUsed now tid p =
     (Inr (), p\<lparr>pTokens := map (\<lambda>t. if kID t = tid then t\<lparr>kLastUsedAt := Some now\<rparr> else t) (pTokens p)\<rparr>)"

definition DeleteAPIToken :: "string \<Rightarrow> people \<Rightarrow> unit answer" where
  "DeleteAPIToken tid p = (Inr (), p\<lparr>pTokens := filter (\<lambda>t. kID t \<noteq> tid) (pTokens p)\<rparr>)"

section \<open>External identities\<close>

text \<open>What an insert or a merge into \<open>external_identities\<close> answers.\<close>

definition identities_written :: "external_identity list \<Rightarrow> people \<Rightarrow> (people \<Rightarrow> 'a answer) \<Rightarrow> 'a answer" where
  "identities_written xs p k =
     (if \<not> accounts_distinct xs then (Inl ErrExternalIdentityAlreadyLinked, p)
      else written (identities_ok xs) (p\<lparr>pIdentities := xs\<rparr>) p k)"

definition new_identity :: "int \<Rightarrow> string \<Rightarrow> string \<Rightarrow> string \<Rightarrow> string \<Rightarrow> string option \<Rightarrow> string option \<Rightarrow> external_identity" where
  "new_identity now fresh uid provider ext chat name = \<lparr>xID = fresh, xUser = uid, xProvider = provider,
     xExternalID = ext, xChatID = chat, xDisplayName = name, xCreatedAt = now, xUpdatedAt = now\<rparr>"

definition BindExternalIdentity ::
    "int \<Rightarrow> string \<Rightarrow> string \<Rightarrow> int option \<Rightarrow> string \<Rightarrow> string \<Rightarrow> string \<Rightarrow> string \<Rightarrow> string \<Rightarrow> people \<Rightarrow> unit answer" where
  "BindExternalIdentity now fresh given created uid provider ext chat name p =
     (if \<not> activeUser uid p then (Inl ErrUserNotFound, p)
      else let new = (new_identity now (if given = [] then fresh else given) uid provider ext
                (null_if_empty chat) (null_if_empty name))
                  \<lparr>xCreatedAt := (case created of None \<Rightarrow> now | Some c \<Rightarrow> c)\<rparr>
           in identities_written
                (upsert (\<lambda>x. (xUser x, xProvider x)) new
                  (\<lambda>x. x\<lparr>xExternalID := ext, xChatID := null_if_empty chat,
                          xDisplayName := null_if_empty name, xUpdatedAt := now\<rparr>) (pIdentities p))
                p (\<lambda>p'. (Inr (), p')))"

definition BindExternalIdentityIfAbsent ::
    "int \<Rightarrow> string \<Rightarrow> string \<Rightarrow> string \<Rightarrow> string \<Rightarrow> string \<Rightarrow> people \<Rightarrow> bool answer" where
  "BindExternalIdentityIfAbsent now fresh uid provider ext name p =
     (if \<not> activeUser uid p then (Inr False, p)
      else if list_ex (\<lambda>x. xUser x = uid \<and> xProvider x = provider) (pIdentities p) then (Inr False, p)
      else identities_written
        (pIdentities p @ [new_identity now fresh uid provider ext None (null_if_empty name)]) p
        (\<lambda>p'. (Inr True, p')))"

definition GetUserByExternalID :: "string \<Rightarrow> string \<Rightarrow> people \<Rightarrow> people_error + model_user" where
  "GetUserByExternalID provider ext p =
     (case find (\<lambda>u. uDeletedAt u = None \<and>
          list_ex (\<lambda>x. xUser x = uID u \<and> xProvider x = provider \<and> xExternalID x = ext) (pIdentities p))
        (pUsers p) of
      None \<Rightarrow> Inl NoRows | Some u \<Rightarrow> Inr (scanUser u))"

definition UnbindExternalIdentity :: "string \<Rightarrow> string \<Rightarrow> people \<Rightarrow> unit answer" where
  "UnbindExternalIdentity uid provider p =
     (Inr (), p\<lparr>pIdentities := filter (\<lambda>x. \<not> (xUser x = uid \<and> xProvider x = provider)) (pIdentities p)\<rparr>)"

section \<open>Link tokens\<close>

definition drop_link :: "string \<Rightarrow> string \<Rightarrow> people \<Rightarrow> people" where
  "drop_link uid provider p =
     p\<lparr>pLinks := filter (\<lambda>l. \<not> (lUser l = uid \<and> lProvider l = provider)) (pLinks p)\<rparr>"

text \<open>The hash is SHA-256 in hexadecimal, an argument.\<close>

definition IssueLinkToken :: "(string \<Rightarrow> string) \<Rightarrow> int \<Rightarrow> string \<Rightarrow> string \<Rightarrow> string \<Rightarrow> string \<Rightarrow> string \<Rightarrow> int
    \<Rightarrow> people \<Rightarrow> unit answer" where
  "IssueLinkToken hashLinkToken now fresh uid provider ext token expires p =
     (if token = [] then (Inl TokenRequired, p)
      else if \<not> activeUser uid p then (Inl ErrUserNotFound, p)
      else let ls = upsert (\<lambda>l. (lUser l, lProvider l))
             \<lparr>lID = fresh, lUser = uid, lProvider = provider, lHash = hashLinkToken token,
              lExternalID = null_if_empty ext, lAttempts = 0, lExpiresAt = expires, lCreatedAt = now\<rparr>
             (\<lambda>l. l\<lparr>lHash := hashLinkToken token, lExternalID := null_if_empty ext, lAttempts := 0,
                    lExpiresAt := expires, lCreatedAt := now\<rparr>) (pLinks p)
           in written (links_ok ls) (p\<lparr>pLinks := ls\<rparr>) p (\<lambda>p'. (Inr (), p')))"

definition linked_elsewhere :: "string \<Rightarrow> string \<Rightarrow> string \<Rightarrow> people \<Rightarrow> bool" where
  "linked_elsewhere uid provider ext p \<longleftrightarrow>
     list_ex (\<lambda>x. xProvider x = provider \<and> xExternalID x = ext \<and> xUser x \<noteq> uid) (pIdentities p)"

definition ConfirmIdentityLink :: "(string \<Rightarrow> string) \<Rightarrow> int \<Rightarrow> string \<Rightarrow> string \<Rightarrow> string \<Rightarrow> string
    \<Rightarrow> people \<Rightarrow> external_identity answer" where
  "ConfirmIdentityLink hashLinkToken now fresh uid provider token p =
     (case lockActiveUserTx uid p of Inl e \<Rightarrow> (Inl e, p) | Inr _ \<Rightarrow>
      (case find (\<lambda>l. lUser l = uid \<and> lProvider l = provider) (pLinks p) of
         None \<Rightarrow> (Inl ErrLinkTokenInvalid, p)
       | Some l \<Rightarrow>
           if lExpiresAt l < now then (Inl ErrLinkTokenExpired, drop_link uid provider p)
           else if 3 \<le> lAttempts l then (Inl ErrLinkTokenExpired, drop_link uid provider p)
           else if hashLinkToken token \<noteq> lHash l then
             (if 3 \<le> lAttempts l + 1 then (Inl ErrLinkTokenExpired, drop_link uid provider p)
              else (Inl ErrLinkTokenInvalid, p\<lparr>pLinks := map (\<lambda>k. if lUser k = uid \<and> lProvider k = provider
                      then k\<lparr>lAttempts := lAttempts l + 1\<rparr> else k) (pLinks p)\<rparr>))
           else let ext = or_empty (lExternalID l) in
             if ext = [] then (Inl NothingToBind, p)
             else if linked_elsewhere uid provider ext p then (Inl ErrExternalIdentityAlreadyLinked, p)
             else let ei = new_identity now fresh uid provider ext None None in
               identities_written (upsert (\<lambda>x. (xUser x, xProvider x)) ei
                   (\<lambda>x. x\<lparr>xExternalID := ext, xUpdatedAt := now\<rparr>) (pIdentities p)) p
                 (\<lambda>p'. (Inr ei, drop_link uid provider p'))))"

text \<open>
  \<open>ConsumeLinkToken\<close> reads the token once to learn its owner and again under the lock; in one
  atomic step both reads see the same row, so the check that they agree never fires.
\<close>

definition ConsumeLinkToken :: "(string \<Rightarrow> string) \<Rightarrow> int \<Rightarrow> string \<Rightarrow> string \<Rightarrow> string \<Rightarrow> string \<Rightarrow> string \<Rightarrow> string
    \<Rightarrow> people \<Rightarrow> external_identity answer" where
  "ConsumeLinkToken hashLinkToken now fresh provider token ext chat name p =
     (if token = [] \<or> ext = [] then (Inl ErrLinkTokenInvalid, p)
      else case find (\<lambda>l. lProvider l = provider \<and> lHash l = hashLinkToken token) (pLinks p) of
         None \<Rightarrow> (Inl ErrLinkTokenInvalid, p)
       | Some l \<Rightarrow>
         (case lockActiveUserTx (lUser l) p of Inl e \<Rightarrow> (Inl e, p) | Inr _ \<Rightarrow>
           let uid = lUser l;
               dropped = (\<lambda>q. q\<lparr>pLinks := filter (\<lambda>k. \<not> (lProvider k = provider \<and>
                  lHash k = hashLinkToken token)) (pLinks q)\<rparr>)
           in if lExpiresAt l < now then (Inl ErrLinkTokenExpired, dropped p)
              else if linked_elsewhere uid provider ext p then (Inl ErrExternalIdentityAlreadyLinked, p)
              else let ei = new_identity now fresh uid provider ext (null_if_empty chat) (null_if_empty name) in
                identities_written (upsert (\<lambda>x. (xUser x, xProvider x)) ei
                    (\<lambda>x. x\<lparr>xExternalID := ext, xChatID := null_if_empty chat,
                            xDisplayName := null_if_empty name, xUpdatedAt := now\<rparr>) (pIdentities p)) p
                  (\<lambda>p'. (Inr ei, dropped p'))))"

end
