(* ===== verification/Zone.thy ===== *)
theory Zone
  imports Prelude
begin

text \<open>
  From a local handoff time to an instant: the resolver of \<open>internal/rotation/grid.go\<close>.

  An instant counts nanoseconds from the Unix epoch, a civil date is its day number in the same
  count (the Go \<open>civilDate\<close> is the proleptic Gregorian calendar used as such a counter), and a
  timezone is what \<open>time.Location\<close> is to this code: the offset from UTC, in seconds, at each
  Unix second.  The type \<open>zone\<close> holds the rules the grid can be built on: offsets of at most
  26 hours, and the same local time never earlier on the next day.  Rules whose changes are a
  week apart and at most a day wide are such zones (\<open>calm_zone\<close>).
\<close>

section \<open>Instants and local readings\<close>

abbreviation "second :: int \<equiv> 1000000000"
abbreviation "minute :: int \<equiv> 60 * second"
abbreviation "hour :: int \<equiv> 3600 * second"

definition wall :: "int \<Rightarrow> int \<Rightarrow> int \<Rightarrow> int" where
  "wall c hh mm = c * 86400 + hh * 3600 + mm * 60"

definition utc_date :: "int \<Rightarrow> int \<Rightarrow> int \<Rightarrow> int" where
  "utc_date c hh mm = wall c hh mm * second"

definition offset_at :: "(int \<Rightarrow> int) \<Rightarrow> int \<Rightarrow> int" where
  "offset_at z t = z (t div second)"

definition local_seconds :: "(int \<Rightarrow> int) \<Rightarrow> int \<Rightarrow> int" where
  "local_seconds z t = t div second + offset_at z t"

definition reads :: "(int \<Rightarrow> int) \<Rightarrow> int \<Rightarrow> int \<Rightarrow> int \<Rightarrow> int \<Rightarrow> bool" where
  "reads z t c hh mm =
     (let l = local_seconds z t
      in l div 86400 = c \<and> l mod 86400 div 3600 = hh \<and> l mod 3600 div 60 = mm \<and> l mod 60 = 0)"

text \<open>\<open>time.Date\<close> in a location: the offset is looked up twice.\<close>

definition local_date :: "(int \<Rightarrow> int) \<Rightarrow> int \<Rightarrow> int \<Rightarrow> int \<Rightarrow> int" where
  "local_date z c hh mm = (let unix = wall c hh mm in (unix - z (unix - z unix)) * second)"

section \<open>The resolver\<close>

definition probes :: "int list" where
  "probes = [-30 * hour, -12 * hour, 0, 12 * hour, 30 * hour]"

fun probe :: "(int \<Rightarrow> int) \<Rightarrow> int \<Rightarrow> int \<Rightarrow> int \<Rightarrow> int list \<Rightarrow> int list \<Rightarrow> int list" where
  "probe z c hh mm [] seen = []"
| "probe z c hh mm (dp # dps) seen =
     (let guess = utc_date c hh mm; off = offset_at z (guess + dp)
      in if off \<in> set seen then probe z c hh mm dps seen
         else let cand = guess - off * second; rest = probe z c hh mm dps (off # seen)
              in if reads z cand c hh mm then cand # rest else rest)"

definition localOccurrences :: "(int \<Rightarrow> int) \<Rightarrow> int \<Rightarrow> int \<Rightarrow> int \<Rightarrow> int list" where
  "localOccurrences z c hh mm =
     (case take 2 (probe z c hh mm probes []) of
        [a, b] \<Rightarrow> if b < a then [b, a] else [a, b]
      | occ \<Rightarrow> occ)"

function narrow :: "(int \<Rightarrow> int) \<Rightarrow> int \<Rightarrow> int \<Rightarrow> int \<Rightarrow> int" where
  "narrow z offLo lo hi =
     (if second < hi - lo
      then let mid = lo + (hi - lo) div 2
           in if offset_at z mid = offLo then narrow z offLo mid hi else narrow z offLo lo mid
      else hi)"
  by pat_completeness auto

termination by (relation "measure (\<lambda>(z, offLo, lo, hi). nat (hi - lo))") auto

declare narrow.simps [simp del]

definition gapSize :: "(int \<Rightarrow> int) \<Rightarrow> int \<Rightarrow> int \<Rightarrow> int \<Rightarrow> int" where
  "gapSize z c hh mm =
     (let guess = utc_date c hh mm; lo = guess - 30 * hour; hi = guess + 30 * hour;
          offLo = offset_at z lo
      in if offset_at z hi = offLo then 0
         else let d = (offset_at z (narrow z offLo lo hi) - offLo) * second
              in if 0 < d then d else 0)"

function carry_days :: "int \<Rightarrow> int \<Rightarrow> int \<times> int" where
  "carry_days c mins = (if 24 * 60 \<le> mins then carry_days (c + 1) (mins - 24 * 60) else (c, mins))"
  by pat_completeness auto

termination by (relation "measure (\<lambda>(c, mins). nat mins)") auto

declare carry_days.simps [simp del]

definition resolveLocalBoundary :: "(int \<Rightarrow> int) \<Rightarrow> int \<Rightarrow> int \<Rightarrow> int \<Rightarrow> int" where
  "resolveLocalBoundary z c hh mm =
     (case localOccurrences z c hh mm of
        t # _ \<Rightarrow> t
      | [] \<Rightarrow>
          (case carry_days c (hh * 60 + mm + gapSize z c hh mm div minute) of (c', mins) \<Rightarrow>
             (case localOccurrences z c' (mins div 60) (mins mod 60) of
                t # _ \<Rightarrow> t
              | [] \<Rightarrow> local_date z c' (mins div 60) (mins mod 60))))"

section \<open>What the probes find\<close>

lemma wall_reads:
  assumes "0 \<le> hh" "hh < 24" "0 \<le> mm" "mm < 60"
  shows "reads z t c hh mm \<longleftrightarrow> local_seconds z t = wall c hh mm"
proof -
  define l where "l = local_seconds z t"
  have m: "l mod 86400 mod 3600 = l mod 3600" "l mod 3600 mod 60 = l mod 60"
    by (simp_all add: mod_mod_cancel)
  have split: "l = l div 86400 * 86400 + l mod 86400"
    "l mod 86400 = l mod 86400 div 3600 * 3600 + l mod 3600"
    "l mod 3600 = l mod 3600 div 60 * 60 + l mod 60"
    using m div_mult_mod_eq [of l 86400] div_mult_mod_eq [of "l mod 86400" 3600]
      div_mult_mod_eq [of "l mod 3600" 60] by simp_all
  have "l = wall c hh mm" if "l div 86400 = c" "l mod 86400 div 3600 = hh" "l mod 3600 div 60 = mm"
    "l mod 60 = 0" using split unfolding that by (simp add: wall_def)
  moreover have "l div 86400 = c \<and> l mod 86400 div 3600 = hh \<and> l mod 3600 div 60 = mm \<and> l mod 60 = 0"
    if "l = wall c hh mm"
  proof -
    have r: "0 \<le> hh * 3600 + mm * 60" "hh * 3600 + mm * 60 < 86400" "0 \<le> mm * 60" "mm * 60 < 3600"
      using assms by simp_all
    have l: "l = (hh * 3600 + mm * 60) + c * 86400" using that by (simp add: wall_def)
    then have "l mod 86400 = hh * 3600 + mm * 60" "l div 86400 = c"
      using r(1,2) by (simp_all add: mod_pos_pos_trivial div_pos_pos_trivial)
    moreover from this have "l mod 3600 = mm * 60" using m(1) r(3,4)
      by (metis add.commute mod_mult_self1 mod_pos_pos_trivial)
    moreover have "(hh * 3600 + mm * 60) div 3600 = hh" using r(3,4) by simp
    ultimately show ?thesis using m(2) by simp
  qed
  ultimately show ?thesis unfolding reads_def Let_def l_def by blast
qed

lemma local_seconds_cand:
  "local_seconds z (utc_date c hh mm - off * second) = wall c hh mm - off + z (wall c hh mm - off)"
proof -
  have "utc_date c hh mm - off * second = (wall c hh mm - off) * second"
    by (simp add: utc_date_def algebra_simps)
  then show ?thesis by (simp add: local_seconds_def offset_at_def)
qed

lemma offset_near:
  "offset_at z (utc_date c hh mm + k * second) = z (wall c hh mm + k)"
proof -
  have "utc_date c hh mm + k * second = (wall c hh mm + k) * second"
    by (simp add: utc_date_def algebra_simps)
  then show ?thesis by (simp add: offset_at_def)
qed

text \<open>The candidates of a list of probes: those whose offset is the one in force there.\<close>

definition tried :: "(int \<Rightarrow> int) \<Rightarrow> int \<Rightarrow> int \<Rightarrow> int \<Rightarrow> int list \<Rightarrow> int set" where
  "tried z c hh mm dps = (\<lambda>dp. offset_at z (utc_date c hh mm + dp)) ` set dps"

lemma probe_set:
  "set (probe z c hh mm dps seen) = {utc_date c hh mm - off * second | off.
     off \<in> tried z c hh mm dps - set seen \<and> reads z (utc_date c hh mm - off * second) c hh mm}"
  by (induction dps arbitrary: seen) (auto simp: tried_def Let_def)

lemma probe_length:
  "length (probe z c hh mm dps seen) \<le> Finite_Set.card (tried z c hh mm dps - set seen)"
proof (induction dps arbitrary: seen)
  case (Cons dp dps)
  let ?off = "offset_at z (utc_date c hh mm + dp)"
  have t: "tried z c hh mm (dp # dps) = insert ?off (tried z c hh mm dps)" by (simp add: tried_def)
  have fin: "finite (tried z c hh mm dps)" by (simp add: tried_def)
  show ?case
  proof (cases "?off \<in> set seen")
    case True
    then show ?thesis using Cons.IH [of seen] by (simp add: t Let_def insert_Diff_if)
  next
    case False
    have "tried z c hh mm (dp # dps) - set seen = insert ?off (tried z c hh mm dps - set (?off # seen))"
      using False t by auto
    moreover have "?off \<notin> tried z c hh mm dps - set (?off # seen)" by simp
    ultimately have "Finite_Set.card (tried z c hh mm (dp # dps) - set seen)
        = Suc (Finite_Set.card (tried z c hh mm dps - set (?off # seen)))"
      using fin by (metis card_insert_disjoint finite_Diff)
    with Cons.IH [of "?off # seen"] False show ?thesis by (auto simp: Let_def)
  qed
qed (simp add: tried_def)

definition ordered_pair :: "int list \<Rightarrow> int list" where
  "ordered_pair xs = (case xs of [a, b] \<Rightarrow> if b < a then [b, a] else [a, b] | occ \<Rightarrow> occ)"

lemma ordered_pair_set: "set (ordered_pair xs) = set xs"
proof -
  consider "xs = []" | a where "xs = [a]" | a b where "xs = [a, b]" | a b c ys where "xs = a # b # c # ys"
    by (metis list.exhaust)
  then show ?thesis by cases (auto simp: ordered_pair_def)
qed

lemma occurrences_sub: "set (localOccurrences z c hh mm) \<subseteq> set (probe z c hh mm probes [])"
  using ordered_pair_set [of "take 2 (probe z c hh mm probes [])"]
    set_take_subset [of 2 "probe z c hh mm probes []"]
  by (simp add: localOccurrences_def ordered_pair_def)

lemma occurrences_cand:
  assumes "t \<in> set (localOccurrences z c hh mm)"
  shows "\<exists>off \<in> tried z c hh mm probes. t = utc_date c hh mm - off * second"
  using subsetD [OF occurrences_sub assms] by (auto simp: probe_set)

lemma occurrences_small:
  assumes "length (probe z c hh mm probes []) \<le> 2"
  shows "set (localOccurrences z c hh mm) = set (probe z c hh mm probes []) \<and>
     (\<forall>t ts. localOccurrences z c hh mm = t # ts \<longrightarrow> (\<forall>s\<in>set (localOccurrences z c hh mm). t \<le> s))"
proof -
  obtain xs where xs: "probe z c hh mm probes [] = xs" by blast
  with assms have "length xs \<le> 2" by simp
  then consider "xs = []" | a where "xs = [a]" | a b where "xs = [a, b]"
    by (cases xs; cases "tl xs"; cases "tl (tl xs)") auto
  then show ?thesis by cases (auto simp: localOccurrences_def xs)
qed

section \<open>Around one change of the offset\<close>

text \<open>At most one change, at \<open>T\<close> from \<open>o1\<close> to \<open>o2\<close>, between the seconds \<open>lo\<close> and \<open>hi\<close>.\<close>

definition one_change :: "(int \<Rightarrow> int) \<Rightarrow> int \<Rightarrow> int \<Rightarrow> int \<Rightarrow> int \<Rightarrow> int \<Rightarrow> bool" where
  "one_change z lo hi T o1 o2 \<longleftrightarrow> \<bar>o1\<bar> \<le> 93600 \<and> \<bar>o2\<bar> \<le> 93600 \<and>
     (\<forall>t. lo \<le> t \<and> t \<le> hi \<longrightarrow> z t = (if t < T then o1 else o2))"

definition bounded_zone :: "(int \<Rightarrow> int) \<Rightarrow> bool" where
  "bounded_zone z \<longleftrightarrow> (\<forall>t. \<bar>z t\<bar> \<le> 93600)"

lemma bounded_zoneD: "bounded_zone z \<Longrightarrow> - 93600 \<le> z t \<and> z t \<le> 93600"
  by (metis abs_le_iff bounded_zone_def minus_le_iff)

lemma one_change_at:
  "one_change z lo hi T o1 o2 \<Longrightarrow> lo \<le> t \<Longrightarrow> t \<le> hi \<Longrightarrow> z t = (if t < T then o1 else o2)"
  by (simp add: one_change_def)

lemma one_change_narrow:
  "one_change z lo hi T o1 o2 \<Longrightarrow> lo \<le> lo' \<Longrightarrow> hi' \<le> hi \<Longrightarrow> one_change z lo' hi' T o1 o2"
  by (simp add: one_change_def)

definition local_times :: "int \<Rightarrow> int \<Rightarrow> bool" where
  "local_times hh mm \<longleftrightarrow> 0 \<le> hh \<and> hh \<le> 23 \<and> 0 \<le> mm \<and> mm \<le> 59"

lemma probe_offset:
  "dp \<in> set probes \<Longrightarrow> \<exists>k. dp = k * second \<and> -108000 \<le> k \<and> k \<le> 108000"
  by (auto simp: probes_def)

lemma tried_offsets:
  assumes "one_change z (wall c hh mm - 108000) (wall c hh mm + 108000) T o1 o2"
  shows "tried z c hh mm probes \<subseteq> {o1, o2}"
proof
  fix off assume "off \<in> tried z c hh mm probes"
  then obtain dp where dp: "dp \<in> set probes" "off = offset_at z (utc_date c hh mm + dp)"
    by (auto simp: tried_def)
  then obtain k where k: "dp = k * second" "-108000 \<le> k" "k \<le> 108000" using probe_offset by blast
  then have "off = z (wall c hh mm + k)" using dp(2) offset_near by simp
  moreover have "z (wall c hh mm + k) = (if wall c hh mm + k < T then o1 else o2)"
    using one_change_at [OF assms] k by simp
  ultimately show "off \<in> {o1, o2}" by simp
qed

lemma tried_ends:
  "z (wall c hh mm - 108000) \<in> tried z c hh mm probes"
  "z (wall c hh mm + 108000) \<in> tried z c hh mm probes"
  using offset_near [of z c hh mm "- 108000"] offset_near [of z c hh mm 108000]
  by (auto simp: tried_def probes_def image_iff)

lemma occurrences_exact:
  assumes "one_change z (wall c hh mm - 108000) (wall c hh mm + 108000) T o1 o2"
    and "local_times hh mm"
  shows "set (localOccurrences z c hh mm) = {(wall c hh mm - off) * second | off.
      off \<in> tried z c hh mm probes \<and> z (wall c hh mm - off) = off}"
    and "localOccurrences z c hh mm = t # ts \<Longrightarrow> s \<in> set (localOccurrences z c hh mm) \<Longrightarrow> t \<le> s"
proof -
  have "Finite_Set.card (tried z c hh mm probes) \<le> Finite_Set.card {o1, o2}"
    by (rule card_mono) (use tried_offsets [OF assms(1)] in auto)
  also have "\<dots> \<le> 2" by (simp add: card_insert_if)
  finally have "length (probe z c hh mm probes []) \<le> 2"
    using probe_length [of z c hh mm probes "[]"] by simp
  note small = occurrences_small [OF this]
  have r: "reads z (utc_date c hh mm - off * second) c hh mm \<longleftrightarrow> z (wall c hh mm - off) = off" for off
    using wall_reads [of hh mm z _ c] assms(2) by (auto simp: local_times_def local_seconds_cand)
  have e: "utc_date c hh mm - off * second = (wall c hh mm - off) * second" for off
    by (simp add: utc_date_def algebra_simps)
  show "set (localOccurrences z c hh mm) = {(wall c hh mm - off) * second | off.
      off \<in> tried z c hh mm probes \<and> z (wall c hh mm - off) = off}"
    using small by (simp add: probe_set r) (simp add: e)
  show "localOccurrences z c hh mm = t # ts \<Longrightarrow> s \<in> set (localOccurrences z c hh mm) \<Longrightarrow> t \<le> s"
    using small by blast
qed

text \<open>The local time exists: the first of its occurrences comes first in the list.\<close>

lemma one_change_bounds:
  "one_change z lo hi T o1 o2 \<Longrightarrow> - 93600 \<le> o1 \<and> o1 \<le> 93600 \<and> - 93600 \<le> o2 \<and> o2 \<le> 93600"
  by (auto simp: one_change_def)

lemma occurrences_hd:
  assumes "one_change z (wall c hh mm - 108000) (wall c hh mm + 108000) T o1 o2"
    and "local_times hh mm"
    and "off \<in> tried z c hh mm probes" "z (wall c hh mm - off) = off"
    and "\<And>off'. off' \<in> {o1, o2} \<Longrightarrow> z (wall c hh mm - off') = off' \<Longrightarrow> off' \<le> off"
  shows "\<exists>ts. localOccurrences z c hh mm = (wall c hh mm - off) * second # ts"
proof -
  let ?L = "wall c hh mm"
  note ex = occurrences_exact [OF assms(1,2)]
  have mem: "(?L - off) * second \<in> set (localOccurrences z c hh mm)" using ex(1) assms(3,4) by blast
  then obtain t ts where ts: "localOccurrences z c hh mm = t # ts"
    by (cases "localOccurrences z c hh mm") auto
  then have "t \<in> set (localOccurrences z c hh mm)" by simp
  then obtain off' where off': "t = (?L - off') * second" "off' \<in> tried z c hh mm probes" "z (?L - off') = off'"
    unfolding ex(1) by blast
  have "off' \<le> off" using assms(5) [of off'] off'(2,3) tried_offsets [OF assms(1)] by blast
  moreover have "t \<le> (?L - off) * second" using ex(2) [OF ts mem] .
  ultimately have "t = (?L - off) * second" using off'(1) by simp
  then show ?thesis using ts by blast
qed

lemma occurrences_first:
  assumes ch: "one_change z (wall c hh mm - 108000) (wall c hh mm + 108000) T o1 o2"
    and lt: "local_times hh mm"
  defines "L \<equiv> wall c hh mm"
  shows "L - o1 < T \<Longrightarrow> \<exists>ts. localOccurrences z c hh mm = (L - o1) * second # ts"
    and "T \<le> L - o1 \<Longrightarrow> T \<le> L - o2 \<Longrightarrow> \<exists>ts. localOccurrences z c hh mm = (L - o2) * second # ts"
    and "T \<le> L - o1 \<Longrightarrow> L - o2 < T \<Longrightarrow> localOccurrences z c hh mm = []"
proof -
  note chg = one_change_at [OF ch, folded L_def]
  note b = one_change_bounds [OF ch]
  have lo: "z (L - 108000) = (if L - 108000 < T then o1 else o2)"
    and hi: "z (L + 108000) = (if L + 108000 < T then o1 else o2)"
    and z1: "z (L - o1) = (if L - o1 < T then o1 else o2)"
    and z2: "z (L - o2) = (if L - o2 < T then o1 else o2)" using chg b by simp_all
  note ends = tried_ends [of z c hh mm, folded L_def, unfolded lo hi]
  show "\<exists>ts. localOccurrences z c hh mm = (L - o1) * second # ts" if "L - o1 < T"
  proof (rule occurrences_hd [OF ch lt, folded L_def])
    show "o1 \<in> tried z c hh mm probes" using ends(1) that b by (simp split: if_splits)
    show "z (L - o1) = o1" using z1 that by simp
    show "off' \<le> o1" if "off' \<in> {o1, o2}" "z (L - off') = off'" for off'
      using that \<open>L - o1 < T\<close> z2 by (auto split: if_splits)
  qed
  show "\<exists>ts. localOccurrences z c hh mm = (L - o2) * second # ts" if "T \<le> L - o1" "T \<le> L - o2"
  proof (rule occurrences_hd [OF ch lt, folded L_def])
    show "o2 \<in> tried z c hh mm probes" using ends(2) that b by (simp split: if_splits)
    show "z (L - o2) = o2" using z2 that by simp
    show "off' \<le> o2" if "off' \<in> {o1, o2}" "z (L - off') = off'" for off'
      using that \<open>T \<le> L - o1\<close> z1 by (auto split: if_splits)
  qed
  show "localOccurrences z c hh mm = []" if "T \<le> L - o1" "L - o2 < T"
  proof -
    have zs: "z (L - o1) = o2" "z (L - o2) = o1" "o1 \<noteq> o2" using z1 z2 that by auto
    have "z (L - off) \<noteq> off" if "off \<in> tried z c hh mm probes" for off
    proof -
      from that tried_offsets [OF ch] consider "off = o1" | "off = o2" by blast
      then show ?thesis using zs by cases simp_all
    qed
    then have "set (localOccurrences z c hh mm) = {}"
      unfolding occurrences_exact(1) [OF ch lt, folded L_def] Collect_empty_eq by metis
    then show ?thesis by simp
  qed
qed

section \<open>The width of a gap\<close>

lemma narrow_finds:
  assumes "offset_at z hi \<noteq> offLo" "lo \<le> hi"
  shows "offset_at z (narrow z offLo lo hi) \<noteq> offLo \<and> lo \<le> narrow z offLo lo hi \<and> narrow z offLo lo hi \<le> hi"
  using assms
proof (induction z offLo lo hi rule: narrow.induct)
  case (1 z offLo lo hi)
  show ?case
  proof (cases "second < hi - lo")
    case True
    define mid where "mid = lo + (hi - lo) div 2"
    have m: "lo \<le> mid" "mid \<le> hi" using True by (simp_all add: mid_def)
    show ?thesis
    proof (cases "offset_at z mid = offLo")
      case same: True
      have "narrow z offLo lo hi = narrow z offLo mid hi"
        using True same by (simp add: narrow.simps [of z offLo lo hi] mid_def)
      then show ?thesis using 1(1) [OF True mid_def same 1(3) m(2)] m(1) by simp
    next
      case other: False
      have "narrow z offLo lo hi = narrow z offLo lo mid"
        using True other by (simp add: narrow.simps [of z offLo lo hi] mid_def)
      then show ?thesis using 1(2) [OF True mid_def other other m(1)] m(2) by simp
    qed
  next
    case False
    then show ?thesis using 1(3,4) by (simp add: narrow.simps [of z offLo lo hi])
  qed
qed

lemma gapSize_bounds:
  assumes "bounded_zone z"
  shows "0 \<le> gapSize z c hh mm \<and> gapSize z c hh mm \<le> 187200 * second"
proof -
  have "-93600 \<le> offset_at z t \<and> offset_at z t \<le> 93600" for t
    using bounded_zoneD [OF assms] by (simp add: offset_at_def)
  note b = this
  have "(offset_at z s - offset_at z t) * second \<le> 187200 * second" for s t
    using b [of s] b [of t] by (intro mult_right_mono) auto
  then show ?thesis by (simp add: gapSize_def Let_def)
qed

lemma carry_days_sum:
  assumes "0 \<le> mins"
  shows "case carry_days c mins of (c', m) \<Rightarrow> c' * 1440 + m = c * 1440 + mins \<and> 0 \<le> m \<and> m < 1440"
  using assms
proof (induction c mins rule: carry_days.induct)
  case (1 c mins)
  show ?case
  proof (cases "24 * 60 \<le> mins")
    case True
    then show ?thesis using 1(1) by (simp add: carry_days.simps [of c mins] split: prod.splits)
  next
    case False
    then show ?thesis using 1(2) by (simp add: carry_days.simps [of c mins])
  qed
qed

lemma wall_shift:
  assumes "carry_days c (hh * 60 + mm + g) = (c', m)" "local_times hh mm" "0 \<le> g"
  shows "wall c' (m div 60) (m mod 60) = wall c hh mm + g * 60 \<and> local_times (m div 60) (m mod 60)"
proof -
  have "0 \<le> hh * 60 + mm + g" using assms(2,3) by (simp add: local_times_def)
  from carry_days_sum [OF this, of c] assms(1)
  have s: "c' * 1440 + m = c * 1440 + (hh * 60 + mm + g)" "0 \<le> m" "m < 1440" by simp_all
  have "m div 60 * 3600 + m mod 60 * 60 = m * 60" using div_mult_mod_eq [of m 60] by linarith
  then have "wall c' (m div 60) (m mod 60) = (c' * 1440 + m) * 60" by (simp add: wall_def)
  then show ?thesis using s by (auto simp: wall_def local_times_def)
qed

lemma gapSize_exact:
  assumes ch: "one_change z (wall c hh mm - 108000) (wall c hh mm + 108000) T o1 o2"
    and "T \<le> wall c hh mm - o1" "wall c hh mm - o2 < T"
  shows "gapSize z c hh mm = (o2 - o1) * second"
proof -
  define lo where "lo = utc_date c hh mm - 30 * hour"
  define hi where "hi = utc_date c hh mm + 30 * hour"
  note b = one_change_bounds [OF ch]
  have off: "offset_at z t \<in> {o1, o2}" if "lo \<le> t" "t \<le> hi" for t
  proof -
    have "lo = (wall c hh mm - 108000) * second" "hi = (wall c hh mm + 108000) * second"
      by (simp_all add: lo_def hi_def utc_date_def algebra_simps)
    with that have "wall c hh mm - 108000 \<le> t div second" "t div second \<le> wall c hh mm + 108000"
      using zdiv_mono1 [of lo t second] zdiv_mono1 [of t hi second] by simp_all
    then show ?thesis using one_change_at [OF ch] by (simp add: offset_at_def)
  qed
  have ends: "offset_at z lo = o1" "offset_at z hi = o2"
    using offset_near [of z c hh mm "- 108000"] offset_near [of z c hh mm 108000]
      one_change_at [OF ch, of "wall c hh mm - 108000"] one_change_at [OF ch, of "wall c hh mm + 108000"]
      assms(2,3) b by (simp_all add: lo_def hi_def)
  have ne: "o2 \<noteq> o1" "o1 < o2" using assms(2,3) by auto
  have "lo \<le> hi" by (simp add: lo_def hi_def)
  from narrow_finds [OF _ this, of z o1] ends ne
  have f: "offset_at z (narrow z o1 lo hi) \<noteq> o1" "lo \<le> narrow z o1 lo hi" "narrow z o1 lo hi \<le> hi" by simp_all
  then have "offset_at z (narrow z o1 lo hi) = o2" using off [OF f(2,3)] by blast
  moreover have "gapSize z c hh mm = (if offset_at z hi = offset_at z lo then 0
      else let d = (offset_at z (narrow z (offset_at z lo) lo hi) - offset_at z lo) * second
           in if 0 < d then d else 0)"
    by (simp only: gapSize_def Let_def lo_def hi_def)
  ultimately show ?thesis unfolding ends using ne by simp
qed

section \<open>The rule of the resolver\<close>

text \<open>
  Around one change of at most a day, by whole minutes, the resolver takes the old offset up
  to the later of the two local readings of the change, and the new one from there on.
\<close>

lemma resolve_rule:
  assumes ch: "one_change z (wall c hh mm - 108000) (wall c hh mm + 194400) T o1 o2"
    and lt: "local_times hh mm" and jump: "o2 - o1 \<le> 86400" "60 dvd (o2 - o1)"
  shows "resolveLocalBoundary z c hh mm =
     (wall c hh mm - (if wall c hh mm < T + max o1 o2 then o1 else o2)) * second"
proof -
  let ?L = "wall c hh mm"
  have ch1: "one_change z (?L - 108000) (?L + 108000) T o1 o2"
    using one_change_narrow [OF ch] by simp
  note first = occurrences_first [OF ch1 lt]
  consider "?L - o1 < T" | "T \<le> ?L - o1" "T \<le> ?L - o2" | "T \<le> ?L - o1" "?L - o2 < T" by linarith
  then show ?thesis
  proof cases
    case 1
    then show ?thesis using first(1) [OF 1] by (auto simp: resolveLocalBoundary_def)
  next
    case 2
    then show ?thesis using first(2) [OF 2] by (auto simp: resolveLocalBoundary_def)
  next
    case 3
    note gap = gapSize_exact [OF ch1 3]
    have o: "o1 < o2" using 3 by simp
    define g where "g = (o2 - o1) div 60"
    have g: "gapSize z c hh mm div minute = g" "g * 60 = o2 - o1" "0 \<le> g"
      using jump(2) o by (auto simp: gap g_def dvd_def)
    obtain c' m where cm: "carry_days c (hh * 60 + mm + g) = (c', m)" by fastforce
    let ?L' = "wall c' (m div 60) (m mod 60)"
    from wall_shift [OF cm lt g(3)] g(2)
    have L': "?L' = ?L + (o2 - o1)" and lt': "local_times (m div 60) (m mod 60)" by simp_all
    have "one_change z (?L' - 108000) (?L' + 108000) T o1 o2"
      unfolding L' by (rule one_change_narrow [OF ch]) (use o jump(1) in simp_all)
    from occurrences_first(2) [OF this lt'] 3 o obtain ts where
      "localOccurrences z c' (m div 60) (m mod 60) = (?L' - o2) * second # ts" unfolding L' by auto
    then show ?thesis using first(3) [OF 3] 3 o cm g(1) L'
      by (simp add: resolveLocalBoundary_def)
  qed
qed

section \<open>How far a boundary is from its date\<close>

lemma resolve_bounds:
  assumes "bounded_zone z" "local_times hh mm"
  shows "(wall c hh mm - 93600) * second \<le> resolveLocalBoundary z c hh mm \<and>
     resolveLocalBoundary z c hh mm \<le> (wall c hh mm + 280800) * second"
proof -
  note b = bounded_zoneD [OF assms(1)]
  have occ: "(wall c hh mm - 93600) * second \<le> t \<and> t \<le> (wall c hh mm + 93600) * second"
    if "localOccurrences z c hh mm = t # ts" for c hh mm t ts
  proof -
    have "t \<in> set (localOccurrences z c hh mm)" by (simp add: that)
    from occurrences_cand [OF this] obtain off where
      o: "off \<in> tried z c hh mm probes" "t = utc_date c hh mm - off * second" by blast
    then obtain u where "off = z u" by (auto simp: tried_def offset_at_def)
    then have "-93600 \<le> off" "off \<le> 93600" using b by simp_all
    moreover have "t = (wall c hh mm - off) * second"
      using o(2) by (simp add: utc_date_def algebra_simps)
    ultimately show ?thesis by simp
  qed
  show ?thesis
  proof (cases "localOccurrences z c hh mm")
    case (Cons t ts)
    then show ?thesis using occ [OF Cons] by (simp add: resolveLocalBoundary_def)
  next
    case Nil
    define g where "g = gapSize z c hh mm div minute"
    have "0 div minute \<le> g" "g \<le> 187200 * second div minute"
      unfolding g_def using gapSize_bounds [OF assms(1), of c hh mm] by (intro zdiv_mono1; simp)+
    then have g: "0 \<le> g" "g \<le> 3120" by simp_all
    obtain c' m where cm: "carry_days c (hh * 60 + mm + g) = (c', m)" by fastforce
    let ?L' = "wall c' (m div 60) (m mod 60)"
    from wall_shift [OF cm assms(2) g(1)] have L': "?L' = wall c hh mm + g * 60" by simp
    have e: "resolveLocalBoundary z c hh mm = (case localOccurrences z c' (m div 60) (m mod 60) of
        t # _ \<Rightarrow> t | [] \<Rightarrow> local_date z c' (m div 60) (m mod 60))"
      using Nil cm by (simp add: resolveLocalBoundary_def g_def)
    show ?thesis
    proof (cases "localOccurrences z c' (m div 60) (m mod 60)")
      case (Cons t ts)
      then show ?thesis using occ [OF Cons] e g unfolding L' by simp
    next
      case Nil
      then show ?thesis using e g b [of "?L' - z ?L'"] unfolding local_date_def Let_def L' by simp
    qed
  qed
qed


section \<open>Zones\<close>

text \<open>
  What the grid needs of a timezone.  The same local time is never earlier on the next day;
  equal it may be, where a whole date is skipped (Pacific/Apia, 2011-12-30).
\<close>

definition orderly :: "(int \<Rightarrow> int) \<Rightarrow> bool" where
  "orderly z \<longleftrightarrow> (\<forall>c hh mm. local_times hh mm \<longrightarrow>
     resolveLocalBoundary z c hh mm \<le> resolveLocalBoundary z (c + 1) hh mm)"

text \<open>Changes a week apart, each by whole minutes and forward by at most a day.\<close>

definition calm :: "(int \<Rightarrow> int) \<Rightarrow> bool" where
  "calm z \<longleftrightarrow> (\<forall>L. \<exists>T o1 o2. one_change z (L - 302400) (L + 302400) T o1 o2 \<and>
     o2 - o1 \<le> 86400 \<and> 60 dvd (o2 - o1))"

lemma calmE:
  assumes "calm z"
  obtains T o1 o2 where "one_change z (L - 302400) (L + 302400) T o1 o2" "o2 - o1 \<le> 86400"
    "60 dvd (o2 - o1)"
  using assms unfolding calm_def by blast

lemma calm_orderly:
  assumes "calm z"
  shows "orderly z"
  unfolding orderly_def
proof (intro allI impI)
  fix c hh mm assume lt: "local_times hh mm"
  let ?L = "wall c hh mm"
  obtain T o1 o2 where ch: "one_change z (?L - 302400) (?L + 302400) T o1 o2"
    and j: "o2 - o1 \<le> 86400" "60 dvd (o2 - o1)" using calmE [OF assms] by blast
  have next_L: "wall (c + 1) hh mm = ?L + 86400" by (simp add: wall_def)
  have "resolveLocalBoundary z c hh mm = (?L - (if ?L < T + max o1 o2 then o1 else o2)) * second"
    by (rule resolve_rule [OF _ lt j]) (rule one_change_narrow [OF ch]; simp)
  moreover have "resolveLocalBoundary z (c + 1) hh mm
      = (?L + 86400 - (if ?L + 86400 < T + max o1 o2 then o1 else o2)) * second"
    using resolve_rule [OF _ lt j, of z "c + 1"] one_change_narrow [OF ch]
    by (simp add: next_L)
  ultimately show "resolveLocalBoundary z c hh mm \<le> resolveLocalBoundary z (c + 1) hh mm"
    using j(1) by (auto simp: max_def)
qed

lemma calm_bounded: "calm z \<Longrightarrow> bounded_zone z"
  unfolding bounded_zone_def
proof
  fix t assume "calm z"
  then obtain T o1 o2 where ch: "one_change z (t - 302400) (t + 302400) T o1 o2" using calmE by blast
  then show "\<bar>z t\<bar> \<le> 93600" using one_change_at [OF ch, of t] by (simp add: one_change_def)
qed

typedef zone = "{z. bounded_zone z \<and> orderly z}"
proof (intro exI CollectI conjI)
  have "calm (\<lambda>_. 0)" unfolding calm_def one_change_def by (intro allI exI [of _ 0]) simp
  then show "bounded_zone (\<lambda>_. 0)" "orderly (\<lambda>_. 0)" by (rule calm_bounded, rule calm_orderly)
qed

text \<open>The offsets of a zone.\<close>

abbreviation rules :: "zone \<Rightarrow> int \<Rightarrow> int" where "rules \<equiv> Rep_zone"

lemma zone_bounded: "bounded_zone (rules z)" and zone_orderly: "orderly (rules z)"
  using Rep_zone [of z] by simp_all

lemma calm_zone: "calm z \<Longrightarrow> rules (Abs_zone z) = z"
  using calm_bounded calm_orderly by (simp add: Abs_zone_inverse)

text \<open>Coordinated universal time, and a zone that springs forward once: at \<open>T\<close>, by \<open>d\<close> hours.\<close>

definition utc :: zone where "utc = Abs_zone (\<lambda>_. 0)"

lemma rules_utc: "rules utc = (\<lambda>_. 0)"
proof -
  have "calm (\<lambda>_. 0)" unfolding calm_def one_change_def by (intro allI exI [of _ 0]) simp
  then show ?thesis by (simp add: utc_def calm_zone)
qed

lemma resolve_utc:
  assumes "local_times hh mm"
  shows "resolveLocalBoundary (rules utc) c hh mm = wall c hh mm * second"
  using resolve_rule [OF _ assms, of "\<lambda>_. 0" c 0 0 0] by (simp add: one_change_def rules_utc)

definition one_change_zone :: "int \<Rightarrow> int \<Rightarrow> int \<Rightarrow> int \<Rightarrow> int" where
  "one_change_zone T o1 o2 t = (if t < T then o1 else o2)"

lemma one_change_zone_calm:
  assumes "\<bar>o1\<bar> \<le> 93600" "\<bar>o2\<bar> \<le> 93600" "o2 - o1 \<le> 86400" "60 dvd (o2 - o1)"
  shows "calm (one_change_zone T o1 o2)"
  unfolding calm_def one_change_def
  by (intro allI exI [of _ T] exI [of _ o1] exI [of _ o2]) (use assms in \<open>simp add: one_change_zone_def\<close>)

section \<open>The rule for daylight saving\<close>

text \<open>
  C22. A local handoff time becomes an instant by the product's rule, wherever the offset
  changes at most once in the days around it: if the clocks of the zone ever show that time,
  the boundary is the first instant at which they do (so the earlier of the two in a fold);
  if they never show it, the boundary is the instant at which they show the time shifted
  forward by exactly the width of the gap.
\<close>

theorem daylight_saving_rule:
  assumes "one_change z (wall c hh mm - 201600) (wall c hh mm + 201600) T o1 o2"
    and "bounded_zone z" "local_times hh mm" "o2 - o1 \<le> 86400" "60 dvd (o2 - o1)"
  shows "\<exists>u. resolveLocalBoundary z c hh mm = u * second \<and>
     (if \<exists>t. t + z t = wall c hh mm
      then u + z u = wall c hh mm \<and> (\<forall>t. t + z t = wall c hh mm \<longrightarrow> u \<le> t)
      else o1 < o2 \<and> u + z u = wall c hh mm + (o2 - o1))"
proof -
  let ?L = "wall c hh mm"
  note chg = one_change_at [OF assms(1)]
  note b = one_change_bounds [OF assms(1)] bounded_zoneD [OF assms(2)]
  define u where "u = ?L - (if ?L < T + max o1 o2 then o1 else o2)"
  have res: "resolveLocalBoundary z c hh mm = u * second" unfolding u_def
    by (rule resolve_rule [OF _ assms(3-5)]) (rule one_change_narrow [OF assms(1)]; simp)
  have zu: "z u = (if u < T then o1 else o2)" using chg [of u] b(1) by (simp add: u_def)
  have zt: "z t = (if t < T then o1 else o2)" if "t + z t = ?L" for t
    using chg [of t] b(2) [of t] that by simp
  show ?thesis
  proof (cases "?L - o1 < T \<or> T \<le> ?L - o2")
    case True
    then have shows_it: "u + z u = ?L" unfolding zu by (auto simp: u_def max_def)
    moreover have "u \<le> t" if "t + z t = ?L" for t
      using zt [OF that] that True by (auto simp: u_def max_def split: if_splits)
    ultimately show ?thesis using res by auto
  next
    case False
    have "t + z t \<noteq> ?L" for t using zt [of t] False by (auto split: if_splits)
    moreover have "o1 < o2" "u + z u = ?L + (o2 - o1)" unfolding zu using False by (auto simp: u_def max_def)
    ultimately show ?thesis using res by auto
  qed
qed

text \<open>Central European time around the last Sunday of March 2026: 02:30 does not exist on day 20541.\<close>

theorem daylight_saving_rule_witness:
  "resolveLocalBoundary (one_change_zone 1774746000 3600 7200) 20541 2 30 = 1774747800 * second \<and>
   1774747800 + one_change_zone 1774746000 3600 7200 1774747800 = wall 20541 3 30"
proof -
  let ?z = "one_change_zone 1774746000 3600 7200"
  have "one_change ?z (wall 20541 2 30 - 201600) (wall 20541 2 30 + 201600) 1774746000 3600 7200"
    by (simp add: one_change_def one_change_zone_def)
  moreover have "bounded_zone ?z" "local_times 2 30" "(7200 :: int) - 3600 \<le> 86400" "60 dvd (7200 - 3600 :: int)"
    using calm_bounded [OF one_change_zone_calm] by (simp_all add: local_times_def)
  ultimately obtain u where u: "resolveLocalBoundary ?z 20541 2 30 = u * second"
    "if \<exists>t. t + ?z t = wall 20541 2 30
      then u + ?z u = wall 20541 2 30 \<and> (\<forall>t. t + ?z t = wall 20541 2 30 \<longrightarrow> u \<le> t)
      else (3600 :: int) < 7200 \<and> u + ?z u = wall 20541 2 30 + (7200 - 3600)"
    using daylight_saving_rule [of ?z 20541 2 30] by blast
  have "t + ?z t \<noteq> wall 20541 2 30" for t by (simp add: one_change_zone_def wall_def)
  with u(2) have "u + ?z u = wall 20541 2 30 + 3600" by simp
  then have "u = 1774747800" by (simp add: one_change_zone_def wall_def split: if_splits)
  with u(1) show ?thesis by (simp add: one_change_zone_def wall_def)
qed

end
