(* ===== verification/Handoff.thy ===== *)
theory Handoff
  imports Prelude
begin

text \<open>
  The rotation policy of a layer: \<open>internal/rotation/policy.go\<close>.

  A policy says how often a layer hands off, at which local time and, for a weekly one, on
  which weekday.  The handoff time is a text; the theory shows that the parser accepts exactly
  the canonical spelling of each time of day, so comparing texts compares times.
\<close>

section \<open>Errors of the rotation core\<close>

datatype rotation_error =
    NotCanonicalTime string | TimeOutOfRange string
  | DailyWithDay int | WeeklyWithoutDay | DayOutOfRange int | UnknownCadence string
  | EmptyTimezone | InvalidTimezone string
  | NotASlotStart int | WalkOvershot int int
  | LayerInactive | NoPhasePair | StartPositionOutOfRange int | AnchorOffGrid int
  | BadGroupId string | NotASingleton string | EmptyGroupId | GroupIdIsNotItsMember string
  | EmptyGroup string | EmptyMember string | DuplicateMember string string
  | HalfPhasePair string | ActiveWithoutPhase string | InactiveWithPhase string
  | UnsupportedSchema int | TimeoutOutOfRange int | DuplicateGroup string
  | NoEffectiveAt | CurrentInvalid rotation_error | PlannedInvalid rotation_error

section \<open>The handoff time\<close>

definition byte :: "char \<Rightarrow> int" where
  "byte c = int (of_char c)"

definition ParseHandoffTime :: "string \<Rightarrow> rotation_error + int \<times> int" where
  "ParseHandoffTime s =
     (if length s \<noteq> 5 \<or> s ! 2 \<noteq> CHR '':'' then Inl (NotCanonicalTime s)
      else if list_ex (\<lambda>i. byte (s ! i) < byte CHR ''0'' \<or> byte CHR ''9'' < byte (s ! i)) [0, 1, 3, 4]
      then Inl (NotCanonicalTime s)
      else let hour = (byte (s ! 0) - byte CHR ''0'') * 10 + (byte (s ! 1) - byte CHR ''0'');
               minute = (byte (s ! 3) - byte CHR ''0'') * 10 + (byte (s ! 4) - byte CHR ''0'')
           in if 23 < hour \<or> 59 < minute then Inl (TimeOutOfRange s) else Inr (hour, minute))"

section \<open>The policy\<close>

definition RotationDaily :: string where "RotationDaily = ''daily''"
definition RotationWeekly :: string where "RotationWeekly = ''weekly''"

record rotation_policy =
  rpCadence :: string
  rpHandoffTime :: string
  rpHandoffDay :: "int option"

definition policy_validate :: "rotation_policy \<Rightarrow> rotation_error + unit" where
  "policy_validate p =
     then_ok (ParseHandoffTime (rpHandoffTime p)) (\<lambda>_.
     if rpCadence p = RotationDaily
     then (case rpHandoffDay p of Some day \<Rightarrow> Inl (DailyWithDay day) | None \<Rightarrow> Inr ())
     else if rpCadence p = RotationWeekly
     then (case rpHandoffDay p of
             None \<Rightarrow> Inl WeeklyWithoutDay
           | Some day \<Rightarrow> if day < 0 \<or> 6 < day then Inl (DayOutOfRange day) else Inr ())
     else Inl (UnknownCadence (rpCadence p)))"

definition equalPolicy :: "rotation_policy \<Rightarrow> rotation_policy \<Rightarrow> bool" where
  "equalPolicy a b =
     (if rpCadence a \<noteq> rpCadence b \<or> rpHandoffTime a \<noteq> rpHandoffTime b then False
      else case (rpHandoffDay a, rpHandoffDay b) of
             (None, None) \<Rightarrow> True
           | (Some x, Some y) \<Rightarrow> x = y
           | _ \<Rightarrow> False)"

lemma equalPolicy_is_equality [simp]: "equalPolicy a b \<longleftrightarrow> a = b"
  by (cases a; cases b) (auto simp: equalPolicy_def split: option.splits)

text \<open>A timezone is looked up by name; the database is the argument \<open>zones\<close>.\<close>

definition validateTimezone :: "(string \<Rightarrow> 'zone option) \<Rightarrow> string \<Rightarrow> rotation_error + 'zone" where
  "validateTimezone zones tz =
     (if tz = '''' then Inl EmptyTimezone
      else case zones tz of None \<Rightarrow> Inl (InvalidTimezone tz) | Some loc \<Rightarrow> Inr loc)"

section \<open>What is accepted\<close>

definition digit :: "int \<Rightarrow> char" where
  "digit n = char_of (nat (48 + n))"

definition handoff_text :: "int \<Rightarrow> int \<Rightarrow> string" where
  "handoff_text h m = [digit (h div 10), digit (h mod 10), CHR '':'', digit (m div 10), digit (m mod 10)]"

lemma byte_digit: "0 \<le> n \<Longrightarrow> n \<le> 9 \<Longrightarrow> byte (digit n) = 48 + n"
  by (simp add: byte_def digit_def nat_add_distrib)

lemma byte_0_9 [simp]: "byte CHR ''0'' = 48" "byte CHR ''9'' = 57"
  by (simp_all add: byte_def)

lemma digit_byte: "48 \<le> byte c \<Longrightarrow> byte c \<le> 57 \<Longrightarrow> c = digit (byte c - 48)"
  by (simp add: byte_def digit_def)

lemma five: "length s = 5 \<Longrightarrow> s = [s ! 0, s ! 1, s ! 2, s ! 3, s ! 4]"
  by (auto simp: numeral_eq_Suc length_Suc_conv)

lemma two_digits: "0 \<le> a \<Longrightarrow> a \<le> 9 \<Longrightarrow> 0 \<le> b \<Longrightarrow> b \<le> (9 :: int) \<Longrightarrow>
    (a * 10 + b) div 10 = a \<and> (a * 10 + b) mod 10 = b"
  by simp

text \<open>
  C25. The parser of handoff times accepts exactly the canonical five-byte spelling of a time
  of day and reads that time back: printing and parsing are inverse, every other text is an
  error, and no two texts mean the same time.
\<close>

theorem handoff_time_round_trip:
  "ParseHandoffTime s = Inr (h, m) \<longleftrightarrow>
     0 \<le> h \<and> h \<le> 23 \<and> 0 \<le> m \<and> m \<le> 59 \<and> s = handoff_text h m"
proof
  assume p: "ParseHandoffTime s = Inr (h, m)"
  define d where "d i = byte (s ! i) - 48" for i
  have l: "length s = 5" "s ! 2 = CHR '':''"
    using p by (auto simp: ParseHandoffTime_def split: if_splits)
  have r: "0 \<le> d i \<and> d i \<le> 9" if "i \<in> {0, 1, 3, 4}" for i
    using p l that by (auto simp: ParseHandoffTime_def d_def split: if_splits)
  have hm: "h = d 0 * 10 + d 1" "m = d 3 * 10 + d 4" "h \<le> 23" "m \<le> 59"
    using p l by (auto simp: ParseHandoffTime_def d_def Let_def split: if_splits)
  have c: "s ! i = digit (d i)" if "i \<in> {0, 1, 3, 4}" for i
    using digit_byte [of "s ! i"] r [OF that] by (simp add: d_def)
  note two = two_digits [of "d 0" "d 1"] two_digits [of "d 3" "d 4"]
  have "s = handoff_text h m"
    using five [OF l(1)] l(2) c r [of 0] r [of 1] r [of 3] r [of 4] two hm(1,2)
    by (simp add: handoff_text_def)
  moreover have "0 \<le> h" "0 \<le> m" using r [of 0] r [of 1] r [of 3] r [of 4] hm(1,2) by simp_all
  ultimately show "0 \<le> h \<and> h \<le> 23 \<and> 0 \<le> m \<and> m \<le> 59 \<and> s = handoff_text h m" using hm by simp
next
  assume a: "0 \<le> h \<and> h \<le> 23 \<and> 0 \<le> m \<and> m \<le> 59 \<and> s = handoff_text h m"
  obtain a b c d where n: "h div 10 = a" "h mod 10 = b" "m div 10 = c" "m mod 10 = d" by blast
  have hm: "h = a * 10 + b" "m = c * 10 + d" using n by auto
  have r: "0 \<le> a" "a \<le> 9" "0 \<le> b" "b \<le> 9" "0 \<le> c" "c \<le> 9" "0 \<le> d" "d \<le> 9" using a n by auto
  have s: "s = [digit a, digit b, CHR '':'', digit c, digit d]" using a n by (simp add: handoff_text_def)
  note bytes = byte_digit [OF r(1,2)] byte_digit [OF r(3,4)] byte_digit [OF r(5,6)] byte_digit [OF r(7,8)]
  have "ParseHandoffTime s = (if 23 < a * 10 + b \<or> 59 < c * 10 + d then Inl (TimeOutOfRange s)
      else Inr (a * 10 + b, c * 10 + d))"
    unfolding s ParseHandoffTime_def using r by (simp add: bytes Let_def)
  with a hm show "ParseHandoffTime s = Inr (h, m)" by simp
qed

lemma ParseHandoffTime_range:
  assumes "ParseHandoffTime s = Inr (h, m)"
  shows "0 \<le> h \<and> h \<le> 23 \<and> 0 \<le> m \<and> m \<le> 59"
  using assms by (auto simp: ParseHandoffTime_def Let_def split: if_splits)

end
