(* ===== verification/Grid.thy ===== *)
theory Grid
  imports Zone Handoff
begin

text \<open>
  The handoff grid of a layer: \<open>internal/rotation/grid.go\<close>.

  The struct \<open>grid\<close> is the type \<open>grid\<close> of the values \<open>NewGrid\<close> builds; the Go interface
  \<open>Grid\<close> is a record of its four methods.  A boundary is the local handoff time of a grid date
  resolved to an instant, and the walks over dates are recursive functions that end because a
  boundary is never more than a few days from its date.  The last sections show that the grid
  is its set of boundaries, and the laws the rotation relies on (locale \<open>handoff_grid\<close>).
\<close>

section \<open>The grid\<close>

record grid_fields =
  gLoc :: zone
  gHh :: int
  gMm :: int
  gStepDays :: int
  gWeekday :: int

definition grid_shape :: "grid_fields \<Rightarrow> bool" where
  "grid_shape f \<longleftrightarrow> local_times (gHh f) (gMm f) \<and> gStepDays f \<in> {1, 7} \<and> 0 \<le> gWeekday f \<and> gWeekday f \<le> 6"

typedef grid = "{f. grid_shape f}"
  by (rule exI [of _ "\<lparr>gLoc = utc, gHh = 0, gMm = 0, gStepDays = 1, gWeekday = 0\<rparr>"])
    (simp add: grid_shape_def local_times_def)

abbreviation parts :: "grid \<Rightarrow> grid_fields" where "parts \<equiv> Rep_grid"
abbreviation step :: "grid \<Rightarrow> int" where "step g \<equiv> gStepDays (parts g)"

lemma grid_ranges:
  "local_times (gHh (parts g)) (gMm (parts g))" "step g = 1 \<or> step g = 7"
  "0 \<le> gWeekday (parts g)" "gWeekday (parts g) \<le> 6"
  using Rep_grid [of g] by (auto simp: grid_shape_def)

definition resolve :: "grid \<Rightarrow> int \<Rightarrow> int" where
  "resolve g c = resolveLocalBoundary (rules (gLoc (parts g))) c (gHh (parts g)) (gMm (parts g))"

text \<open>\<open>time.Weekday\<close> of a civil date: day 0 was a Thursday, and 0 is Sunday.\<close>

definition weekday_of :: "int \<Rightarrow> int" where
  "weekday_of c = (c + 4) mod 7"

definition local_day :: "grid \<Rightarrow> int \<Rightarrow> int" where
  "local_day g t = local_seconds (rules (gLoc (parts g))) t div 86400"

definition alignDate :: "grid \<Rightarrow> int \<Rightarrow> int" where
  "alignDate g t =
     (let c = local_day g t
      in if step g = 7 then c + - ((weekday_of c - gWeekday (parts g) + 7) mod 7) else c)"

section \<open>Walking from boundary to boundary\<close>

record boundary_cursor =
  cDate :: int
  cInstant :: int

lemma resolve_near:
  "(c * 86400 - 93600) * second \<le> resolve g c" "resolve g c \<le> (c * 86400 + 367200) * second"
proof -
  have w: "c * 86400 \<le> wall c (gHh (parts g)) (gMm (parts g))"
    "wall c (gHh (parts g)) (gMm (parts g)) \<le> c * 86400 + 86400"
    using grid_ranges(1) [of g] by (simp_all add: wall_def local_times_def)
  note r = resolve_bounds [OF zone_bounded [of "gLoc (parts g)"] grid_ranges(1) [of g], of c, folded resolve_def]
  show "(c * 86400 - 93600) * second \<le> resolve g c" "resolve g c \<le> (c * 86400 + 367200) * second"
    using r w by simp_all
qed

function seek_next :: "grid \<Rightarrow> int \<Rightarrow> int \<Rightarrow> boundary_cursor" where
  "seek_next g c instant =
     (let c' = c + step g; b = resolve g c'
      in if instant < b then \<lparr>cDate = c', cInstant = b\<rparr> else seek_next g c' instant)"
  by pat_completeness auto

termination
proof (relation "measure (\<lambda>(g, c, instant). nat (instant + 93600 * second - c * 86400 * second))", simp)
  fix g c instant c' b
  assume "c' = c + step g" "b = resolve g c'" "\<not> instant < b"
  with resolve_near(1) [of c' g] grid_ranges(2) [of g]
  show "((g, c', instant), g, c, instant)
      \<in> measure (\<lambda>(g, c, instant). nat (instant + 93600 * second - c * 86400 * second))"
    by auto
qed

definition nextAfter :: "grid \<Rightarrow> boundary_cursor \<Rightarrow> boundary_cursor" where
  "nextAfter g cur = seek_next g (cDate cur) (cInstant cur)"

function seek_back :: "grid \<Rightarrow> int \<Rightarrow> int \<Rightarrow> boundary_cursor" where
  "seek_back g c t =
     (let b = resolve g c
      in if t < b then seek_back g (c + - step g) t else \<lparr>cDate = c, cInstant = b\<rparr>)"
  by pat_completeness auto

termination
proof (relation "measure (\<lambda>(g, c, t). nat ((c * 86400 + 367200) * second - t))", simp)
  fix g c t b
  assume "b = resolve g c" "t < b"
  with resolve_near(2) [of g c] grid_ranges(2) [of g]
  show "((g, c + - step g, t), g, c, t) \<in> measure (\<lambda>(g, c, t). nat ((c * 86400 + 367200) * second - t))"
    by auto
qed

declare seek_next.simps [simp del] seek_back.simps [simp del]

lemma seek_next_after: "instant < cInstant (seek_next g c instant)"
proof (induction g c instant rule: seek_next.induct)
  case (1 g c instant)
  then show ?case by (simp add: seek_next.simps [of g c] Let_def)
qed

lemma nextAfter_after: "cInstant cur < cInstant (nextAfter g cur)"
  by (simp add: nextAfter_def seek_next_after)

function walk_to :: "grid \<Rightarrow> boundary_cursor \<Rightarrow> int \<Rightarrow> boundary_cursor \<times> boundary_cursor" where
  "walk_to g cur t =
     (let nxt = nextAfter g cur in if t < cInstant nxt then (cur, nxt) else walk_to g nxt t)"
  by pat_completeness auto

termination
proof (relation "measure (\<lambda>(g, cur, t). nat (t - cInstant cur))", simp)
  fix g and cur :: boundary_cursor and t nxt assume "nxt = nextAfter g cur" "\<not> t < cInstant nxt"
  then show "((g, nxt, t), g, cur, t) \<in> measure (\<lambda>(g, cur, t). nat (t - cInstant cur))"
    using nextAfter_after [of cur g] by simp
qed

definition slotContaining :: "grid \<Rightarrow> int \<Rightarrow> boundary_cursor \<times> boundary_cursor" where
  "slotContaining g t = walk_to g (seek_back g (alignDate g t) t) t"

function count_walk :: "grid \<Rightarrow> boundary_cursor \<Rightarrow> int \<Rightarrow> int \<Rightarrow> boundary_cursor \<times> int" where
  "count_walk g cur tgt n =
     (if cInstant cur < tgt then count_walk g (nextAfter g cur) tgt (n + 1) else (cur, n))"
  by pat_completeness auto

termination
proof (relation "measure (\<lambda>(g, cur, tgt, n). nat (tgt - cInstant cur))", simp)
  fix g and cur :: boundary_cursor and tgt n assume "cInstant cur < (tgt :: int)"
  then show "((g, nextAfter g cur, tgt, n + 1 :: int), g, cur, tgt, n)
      \<in> measure (\<lambda>(g, cur, tgt, n). nat (tgt - cInstant cur))"
    using nextAfter_after [of cur g] by simp
qed

section \<open>The interface\<close>

record slot =
  slStart :: int
  slEnd :: int

definition grid_SlotContaining :: "grid \<Rightarrow> int \<Rightarrow> slot" where
  "grid_SlotContaining g t =
     (case slotContaining g t of (start, finis) \<Rightarrow> \<lparr>slStart = cInstant start, slEnd = cInstant finis\<rparr>)"

definition grid_NextBoundary :: "grid \<Rightarrow> int \<Rightarrow> int" where
  "grid_NextBoundary g t = (case slotContaining g t of (_, finis) \<Rightarrow> cInstant finis)"

definition grid_SlotsBetween :: "grid \<Rightarrow> int \<Rightarrow> int \<Rightarrow> rotation_error + int" where
  "grid_SlotsBetween g a b =
     (let fromCur = fst (slotContaining g a)
      in if cInstant fromCur \<noteq> a then Inl (NotASlotStart a)
         else let toCur = fst (slotContaining g b)
         in if cInstant toCur \<noteq> b then Inl (NotASlotStart b)
         else if a = b then Inr 0
         else let (cur, tgt, sign) =
                (if cInstant toCur < cInstant fromCur then (toCur, cInstant fromCur, -1)
                 else (fromCur, cInstant toCur, 1))
         in case count_walk g cur tgt 0 of (cur', n) \<Rightarrow>
              if cInstant cur' \<noteq> tgt then Inl (WalkOvershot tgt (cInstant cur'))
              else Inr (sign * n))"

function collect_slots :: "grid \<Rightarrow> boundary_cursor \<Rightarrow> boundary_cursor \<Rightarrow> int \<Rightarrow> slot list" where
  "collect_slots g start finis until =
     (if cInstant start < until
      then \<lparr>slStart = cInstant start, slEnd = cInstant finis\<rparr> # collect_slots g finis (nextAfter g finis) until
      else [])"
  by pat_completeness auto

termination
proof (relation "measure (\<lambda>(g, start, finis, until).
    nat (until - cInstant finis) + (if cInstant start < until then 1 else 0))", simp)
  fix g and start finis :: boundary_cursor and until assume "cInstant start < (until :: int)"
  then show "((g, finis, nextAfter g finis, until), g, start, finis, until)
      \<in> measure (\<lambda>(g, start, finis, until).
          nat (until - cInstant finis) + (if cInstant start < until then 1 else 0))"
    using nextAfter_after [of finis g] by auto
qed

declare walk_to.simps [simp del] count_walk.simps [simp del] collect_slots.simps [simp del]

definition grid_SlotsOverlapping :: "grid \<Rightarrow> int \<Rightarrow> int \<Rightarrow> slot list" where
  "grid_SlotsOverlapping g a until =
     (if \<not> a < until then []
      else case slotContaining g a of (start, finis) \<Rightarrow> collect_slots g start finis until)"

record grid_interface =
  SlotContaining :: "int \<Rightarrow> slot"
  SlotsBetween :: "int \<Rightarrow> int \<Rightarrow> rotation_error + int"
  SlotsOverlapping :: "int \<Rightarrow> int \<Rightarrow> slot list"
  NextBoundary :: "int \<Rightarrow> int"

definition methods :: "grid \<Rightarrow> grid_interface" where
  "methods g = \<lparr>SlotContaining = grid_SlotContaining g, SlotsBetween = grid_SlotsBetween g,
     SlotsOverlapping = grid_SlotsOverlapping g, NextBoundary = grid_NextBoundary g\<rparr>"

definition grid_of :: "zone \<Rightarrow> rotation_policy \<Rightarrow> grid" where
  "grid_of loc policy =
     (case (case ParseHandoffTime (rpHandoffTime policy) of Inr hm \<Rightarrow> hm | Inl _ \<Rightarrow> (0, 0)) of (hh, mm) \<Rightarrow>
        Abs_grid (if rpCadence policy = RotationWeekly
          then \<lparr>gLoc = loc, gHh = hh, gMm = mm, gStepDays = 7, gWeekday = the (rpHandoffDay policy)\<rparr>
          else \<lparr>gLoc = loc, gHh = hh, gMm = mm, gStepDays = 1, gWeekday = 0\<rparr>))"

definition NewGrid ::
    "(string \<Rightarrow> zone option) \<Rightarrow> string \<Rightarrow> rotation_policy \<Rightarrow> rotation_error + grid_interface" where
  "NewGrid zones timezone policy =
     then_ok (validateTimezone zones timezone) (\<lambda>loc.
     then_ok (policy_validate policy) (\<lambda>_. Inr (methods (grid_of loc policy))))"

section \<open>The boundaries\<close>

text \<open>The dates a grid hands off on, and the instants these resolve to.\<close>

definition on_grid :: "grid \<Rightarrow> int \<Rightarrow> bool" where
  "on_grid g c \<longleftrightarrow> (step g = 7 \<longrightarrow> weekday_of c = gWeekday (parts g))"

definition boundaries :: "grid \<Rightarrow> int set" where
  "boundaries g = resolve g ` {c. on_grid g c}"

lemma on_grid_step: "on_grid g (c + step g) = on_grid g c" "on_grid g (c + - step g) = on_grid g c"
proof -
  have "(c + 7 + 4) mod 7 = (c + 4) mod 7" "(c + - 7 + 4) mod 7 = (c + 4) mod 7" by presburger+
  then show "on_grid g (c + step g) = on_grid g c" "on_grid g (c + - step g) = on_grid g c"
    by (simp_all add: on_grid_def weekday_of_def)
qed

lemma on_grid_align: "on_grid g (alignDate g t)"
proof (cases "step g = 7")
  case True
  define c where "c = local_day g t"
  define w where "w = gWeekday (parts g)"
  have w: "0 \<le> w" "w \<le> 6" using grid_ranges(3,4) by (simp_all add: w_def)
  have "((c + 4) mod 7 - w + 7) mod 7 = (c + 4 - w) mod 7" by (simp only: mod_add_self2 mod_diff_left_eq)
  then have "(c + - (((c + 4) mod 7 - w + 7) mod 7) + 4) mod 7 = (c + 4 - (c + 4 - w) mod 7) mod 7"
    by (simp add: algebra_simps)
  also have "\<dots> = w" using w by (simp add: mod_diff_right_eq)
  finally have "(c + - (((c + 4) mod 7 - w + 7) mod 7) + 4) mod 7 = w" .
  then show ?thesis
    using True by (simp add: on_grid_def alignDate_def weekday_of_def c_def [symmetric] w_def [symmetric])
qed (simp add: on_grid_def)

lemma grid_dates_apart:
  assumes "on_grid g c" "on_grid g d" "c < d"
  shows "c + step g \<le> d"
proof (cases "step g = 7")
  case True
  with assms(1,2) have "(c + 4) mod 7 = (d + 4) mod 7" by (simp add: on_grid_def weekday_of_def)
  with assms(3) True show ?thesis by presburger
next
  case False
  then show ?thesis using grid_ranges(2) [of g] assms(3) by simp
qed

lemma resolve_mono:
  assumes "c \<le> d"
  shows "resolve g c \<le> resolve g d"
  using assms
proof (induction d rule: int_ge_induct)
  case (step d)
  have "resolve g d \<le> resolve g (d + 1)"
    using zone_orderly [of "gLoc (parts g)"] grid_ranges(1) [of g] by (auto simp: orderly_def resolve_def)
  with step.IH show ?case by simp
qed simp

text \<open>A cursor that knows its date.\<close>

definition on_boundary :: "grid \<Rightarrow> boundary_cursor \<Rightarrow> bool" where
  "on_boundary g cur \<longleftrightarrow> on_grid g (cDate cur) \<and> cInstant cur = resolve g (cDate cur)"

lemma on_boundary_in: "on_boundary g cur \<Longrightarrow> cInstant cur \<in> boundaries g"
  by (auto simp: on_boundary_def boundaries_def)

text \<open>Two cursors with no boundary strictly between them.\<close>

definition adjacent :: "grid \<Rightarrow> boundary_cursor \<Rightarrow> boundary_cursor \<Rightarrow> bool" where
  "adjacent g cur nxt \<longleftrightarrow> on_boundary g cur \<and> on_boundary g nxt \<and> cInstant cur < cInstant nxt \<and>
     (\<forall>b\<in>boundaries g. b \<le> cInstant cur \<or> cInstant nxt \<le> b)"

lemma seek_next_adjacent:
  assumes "on_grid g c" "\<forall>d\<le>c. on_grid g d \<longrightarrow> resolve g d \<le> instant"
  shows "on_boundary g (seek_next g c instant) \<and>
     (\<forall>b\<in>boundaries g. b \<le> instant \<or> cInstant (seek_next g c instant) \<le> b)"
  using assms
proof (induction g c instant rule: seek_next.induct)
  case (1 g c instant)
  let ?c = "c + step g"
  have on: "on_grid g ?c" using 1(2) on_grid_step by simp
  show ?case
  proof (cases "instant < resolve g ?c")
    case True
    have "b \<le> instant \<or> resolve g ?c \<le> b" if "b \<in> boundaries g" for b
    proof -
      from that obtain d where d: "on_grid g d" "b = resolve g d" by (auto simp: boundaries_def)
      show ?thesis
      proof (cases "d \<le> c")
        case False
        then show ?thesis using grid_dates_apart [OF 1(2) d(1)] resolve_mono [of ?c d g] d(2) by simp
      qed (use 1(3) d in blast)
    qed
    then show ?thesis using True on by (simp add: seek_next.simps [of g c] Let_def on_boundary_def)
  next
    case False
    have "\<forall>d\<le>?c. on_grid g d \<longrightarrow> resolve g d \<le> instant"
      using False resolve_mono [of _ ?c g] by (meson dual_order.trans linorder_not_less)
    with 1(1) [OF refl refl False on] False show ?thesis
      by (simp add: seek_next.simps [of g c] Let_def)
  qed
qed

lemma nextAfter_adjacent:
  assumes "on_boundary g cur"
  shows "adjacent g cur (nextAfter g cur)"
proof -
  have c: "on_grid g (cDate cur)" "cInstant cur = resolve g (cDate cur)"
    using assms by (simp_all add: on_boundary_def)
  have "\<forall>d\<le>cDate cur. on_grid g d \<longrightarrow> resolve g d \<le> cInstant cur"
    unfolding c(2) using resolve_mono by blast
  from seek_next_adjacent [OF c(1) this, folded nextAfter_def] assms nextAfter_after [of cur g]
  show ?thesis unfolding adjacent_def by blast
qed

lemma seek_back_finds:
  assumes "on_grid g c"
  shows "on_boundary g (seek_back g c t) \<and> cInstant (seek_back g c t) \<le> t"
  using assms
proof (induction g c t rule: seek_back.induct)
  case (1 g c t)
  show ?case
  proof (cases "t < resolve g c")
    case True
    then show ?thesis using 1(1) [OF refl True] 1(2) on_grid_step(2)
      by (simp add: seek_back.simps [of g c] Let_def)
  next
    case False
    then show ?thesis using 1(2) by (simp add: seek_back.simps [of g c] Let_def on_boundary_def)
  qed
qed

lemma walk_to_adjacent:
  assumes "on_boundary g cur" "cInstant cur \<le> t"
  shows "case walk_to g cur t of (start, finis) \<Rightarrow>
     adjacent g start finis \<and> cInstant start \<le> t \<and> t < cInstant finis"
  using assms
proof (induction g cur t rule: walk_to.induct)
  case (1 g cur t)
  note adj = nextAfter_adjacent [OF 1(2)]
  show ?case
  proof (cases "t < cInstant (nextAfter g cur)")
    case True
    then show ?thesis using adj 1(3) by (simp add: walk_to.simps [of g cur] Let_def)
  next
    case False
    with 1(1) [OF refl False] adj show ?thesis
      by (simp add: walk_to.simps [of g cur] Let_def adjacent_def)
  qed
qed

lemma slotContaining_adjacent:
  obtains start finis where "slotContaining g t = (start, finis)" "adjacent g start finis"
    "cInstant start \<le> t" "t < cInstant finis"
proof -
  obtain start finis where e: "slotContaining g t = (start, finis)" by fastforce
  have "on_boundary g (seek_back g (alignDate g t) t)" "cInstant (seek_back g (alignDate g t) t) \<le> t"
    using seek_back_finds [OF on_grid_align] by simp_all
  from walk_to_adjacent [OF this] e that show ?thesis by (simp add: slotContaining_def)
qed

text \<open>The boundaries next to an instant determine the slot.\<close>

lemma slot_unique:
  assumes "s \<in> boundaries g" "e \<in> boundaries g" "s \<le> t" "t < e"
    and "\<forall>b\<in>boundaries g. b \<le> s \<or> e \<le> b"
  shows "grid_SlotContaining g t = \<lparr>slStart = s, slEnd = e\<rparr>"
proof -
  obtain start finis where f: "slotContaining g t = (start, finis)" "adjacent g start finis"
    "cInstant start \<le> t" "t < cInstant finis" using slotContaining_adjacent by blast
  have m: "cInstant start \<in> boundaries g" "cInstant finis \<in> boundaries g"
    using f(2) on_boundary_in by (auto simp: adjacent_def)
  have n: "\<forall>b\<in>boundaries g. b \<le> cInstant start \<or> cInstant finis \<le> b"
    using f(2) by (simp add: adjacent_def)
  have "cInstant start = s"
    using bspec [OF assms(5) m(1)] bspec [OF n assms(1)] f(3,4) assms(3,4) by linarith
  moreover have "cInstant finis = e"
    using bspec [OF assms(5) m(2)] bspec [OF n assms(2)] f(3,4) assms(3,4) by linarith
  ultimately show ?thesis by (simp add: grid_SlotContaining_def f(1))
qed

lemma slot_facts:
  shows "slStart (grid_SlotContaining g t) \<in> boundaries g"
    and "slEnd (grid_SlotContaining g t) \<in> boundaries g"
    and "slStart (grid_SlotContaining g t) \<le> t" "t < slEnd (grid_SlotContaining g t)"
    and "b \<in> boundaries g \<Longrightarrow> b \<le> slStart (grid_SlotContaining g t) \<or> slEnd (grid_SlotContaining g t) \<le> b"
    and "cInstant (fst (slotContaining g t)) = slStart (grid_SlotContaining g t)"
    and "cInstant (snd (slotContaining g t)) = slEnd (grid_SlotContaining g t)"
    and "on_boundary g (fst (slotContaining g t))" "on_boundary g (snd (slotContaining g t))"
proof -
  obtain start finis where f: "slotContaining g t = (start, finis)" "adjacent g start finis"
    "cInstant start \<le> t" "t < cInstant finis" using slotContaining_adjacent by blast
  then have e: "grid_SlotContaining g t = \<lparr>slStart = cInstant start, slEnd = cInstant finis\<rparr>"
    by (simp add: grid_SlotContaining_def)
  show "slStart (grid_SlotContaining g t) \<in> boundaries g" "slEnd (grid_SlotContaining g t) \<in> boundaries g"
    "slStart (grid_SlotContaining g t) \<le> t" "t < slEnd (grid_SlotContaining g t)"
    "b \<in> boundaries g \<Longrightarrow> b \<le> slStart (grid_SlotContaining g t) \<or> slEnd (grid_SlotContaining g t) \<le> b"
    "cInstant (fst (slotContaining g t)) = slStart (grid_SlotContaining g t)"
    "cInstant (snd (slotContaining g t)) = slEnd (grid_SlotContaining g t)"
    "on_boundary g (fst (slotContaining g t))" "on_boundary g (snd (slotContaining g t))"
    using f on_boundary_in unfolding e by (auto simp: adjacent_def)
qed

lemma slot_start_self:
  assumes "a \<in> boundaries g"
  shows "slStart (grid_SlotContaining g a) = a"
  using slot_facts(5) [OF assms, of a] slot_facts(3) [of g a] slot_facts(4) [of a g] by simp

lemma is_start: "slStart (grid_SlotContaining g a) = a \<longleftrightarrow> a \<in> boundaries g"
  using slot_start_self slot_facts(1) by metis

section \<open>Counting boundaries\<close>

definition span :: "grid \<Rightarrow> int \<Rightarrow> int \<Rightarrow> int set" where
  "span g a b = boundaries g \<inter> {a..<b}"

lemma span_step:
  assumes "adjacent g cur nxt" "cInstant cur < u"
  shows "span g (cInstant cur) u = insert (cInstant cur) (span g (cInstant nxt) u)"
proof -
  have n: "\<forall>b\<in>boundaries g. b \<le> cInstant cur \<or> cInstant nxt \<le> b" "cInstant cur < cInstant nxt"
    "cInstant cur \<in> boundaries g" using assms(1) on_boundary_in by (simp_all add: adjacent_def)
  show ?thesis
  proof (intro set_eqI iffI)
    fix b assume "b \<in> span g (cInstant cur) u"
    then show "b \<in> insert (cInstant cur) (span g (cInstant nxt) u)"
      using bspec [OF n(1), of b] by (auto simp: span_def)
  next
    fix b assume "b \<in> insert (cInstant cur) (span g (cInstant nxt) u)"
    then show "b \<in> span g (cInstant cur) u" using n(2,3) assms(2) by (auto simp: span_def)
  qed
qed

lemma not_in_later_span: "adjacent g cur nxt \<Longrightarrow> cInstant cur \<notin> span g (cInstant nxt) u"
  by (simp add: adjacent_def span_def)

lemma count_walk_counts:
  assumes "on_boundary g cur" "tgt \<in> boundaries g" "cInstant cur \<le> tgt"
  shows "finite (span g (cInstant cur) tgt) \<and> (\<exists>cur'. cInstant cur' = tgt \<and>
     count_walk g cur tgt n = (cur', n + int (Finite_Set.card (span g (cInstant cur) tgt))))"
  using assms
proof (induction g cur tgt n rule: count_walk.induct)
  case (1 g cur tgt n)
  show ?case
  proof (cases "cInstant cur < tgt")
    case True
    note adj = nextAfter_adjacent [OF 1(2)]
    let ?nxt = "nextAfter g cur"
    have on: "on_boundary g ?nxt" using adj by (simp add: adjacent_def)
    have "\<forall>b\<in>boundaries g. b \<le> cInstant cur \<or> cInstant ?nxt \<le> b" using adj by (simp add: adjacent_def)
    from bspec [OF this 1(3)] True have le: "cInstant ?nxt \<le> tgt" by simp
    obtain cur' where c: "cInstant cur' = tgt" "finite (span g (cInstant ?nxt) tgt)"
      "count_walk g ?nxt tgt (n + 1) = (cur', n + 1 + int (Finite_Set.card (span g (cInstant ?nxt) tgt)))"
      using 1(1) [OF True on 1(3) le] by blast
    have "Finite_Set.card (span g (cInstant cur) tgt) = Suc (Finite_Set.card (span g (cInstant ?nxt) tgt))"
      using span_step [OF adj True] not_in_later_span [OF adj] c(2) by simp
    moreover have "finite (span g (cInstant cur) tgt)" using span_step [OF adj True] c(2) by simp
    moreover have "count_walk g cur tgt n = count_walk g ?nxt tgt (n + 1)"
      using True by (simp add: count_walk.simps [of g cur])
    ultimately show ?thesis using c by (intro conjI exI [of _ cur']) simp_all
  next
    case False
    then have "span g (cInstant cur) tgt = {}" by (auto simp: span_def)
    with False 1(4) show ?thesis by (auto simp: count_walk.simps [of g cur])
  qed
qed

lemma span_finite: "finite (span g a b)"
proof (cases "a \<le> b")
  case True
  let ?s = "slStart (grid_SlotContaining g a)" and ?e = "slEnd (grid_SlotContaining g b)"
  have se: "?s \<le> a" "b < ?e" using slot_facts(3) slot_facts(4) by blast+
  have "finite (span g (cInstant (fst (slotContaining g a))) ?e)"
    using count_walk_counts [OF slot_facts(8) slot_facts(2)] se True by (simp add: slot_facts(6))
  then have "finite (span g ?s ?e)" by (simp add: slot_facts(6))
  then show ?thesis by (rule finite_subset [rotated]) (use se in \<open>auto simp: span_def\<close>)
qed (simp add: span_def)

definition signed_count :: "grid \<Rightarrow> int \<Rightarrow> int \<Rightarrow> int" where
  "signed_count g a b =
     (if a \<le> b then int (Finite_Set.card (span g a b)) else - int (Finite_Set.card (span g b a)))"

lemma SlotsBetween_counts:
  "grid_SlotsBetween g a b =
     (if a \<notin> boundaries g then Inl (NotASlotStart a)
      else if b \<notin> boundaries g then Inl (NotASlotStart b)
      else Inr (signed_count g a b))"
proof -
  let ?a = "fst (slotContaining g a)" and ?b = "fst (slotContaining g b)"
  have i: "cInstant ?a = a \<longleftrightarrow> a \<in> boundaries g" "cInstant ?b = b \<longleftrightarrow> b \<in> boundaries g"
    by (simp_all add: slot_facts(6) is_start)
  show ?thesis
  proof (cases "a \<in> boundaries g \<and> b \<in> boundaries g")
    case True
    then have e: "cInstant ?a = a" "cInstant ?b = b" using i by simp_all
    consider "a = b" | "a < b" | "b < a" by linarith
    then show ?thesis
    proof cases
      case 1
      then show ?thesis using True e by (simp add: grid_SlotsBetween_def Let_def signed_count_def span_def)
    next
      case 2
      from count_walk_counts [OF slot_facts(8), of b g a 0] True e 2 obtain c where
        "cInstant c = b" "count_walk g ?a b 0 = (c, int (Finite_Set.card (span g a b)))" by auto
      with 2 True e show ?thesis by (simp add: grid_SlotsBetween_def Let_def signed_count_def)
    next
      case 3
      from count_walk_counts [OF slot_facts(8), of a g b 0] True e 3 obtain c where
        "cInstant c = a" "count_walk g ?b a 0 = (c, int (Finite_Set.card (span g b a)))" by auto
      with 3 True e show ?thesis by (simp add: grid_SlotsBetween_def Let_def signed_count_def)
    qed
  next
    case False
    then show ?thesis using i by (auto simp: grid_SlotsBetween_def Let_def)
  qed
qed

lemma collect_slots_list:
  assumes "adjacent g start finis"
  shows "collect_slots g start finis until =
     map (grid_SlotContaining g) (sorted_list_of_set (span g (cInstant start) until))"
  using assms
proof (induction g start finis until rule: collect_slots.induct)
  case (1 g start finis until)
  show ?case
  proof (cases "cInstant start < until")
    case True
    have on: "on_boundary g start" "on_boundary g finis" using 1(2) by (simp_all add: adjacent_def)
    have slot: "grid_SlotContaining g (cInstant start) = \<lparr>slStart = cInstant start, slEnd = cInstant finis\<rparr>"
      using 1(2) by (intro slot_unique on_boundary_in [OF on(1)] on_boundary_in [OF on(2)])
        (simp_all add: adjacent_def)
    have less: "cInstant start < cInstant finis" using 1(2) by (simp add: adjacent_def)
    have "\<forall>b\<in>span g (cInstant finis) until. cInstant start < b" using less by (auto simp: span_def)
    then have "sorted_list_of_set (insert (cInstant start) (span g (cInstant finis) until))
        = cInstant start # sorted_list_of_set (span g (cInstant finis) until)"
      by (intro sorted_list_of_set_unique [THEN iffD1]) (use span_finite in \<open>auto simp: less_imp_le\<close>)
    then show ?thesis
      using 1(1) [OF True nextAfter_adjacent [OF on(2)]] True slot span_step [OF 1(2) True]
      by (simp add: collect_slots.simps [of g start])
  next
    case False
    then have "span g (cInstant start) until = {}" by (auto simp: span_def)
    with False show ?thesis by (simp add: collect_slots.simps [of g start])
  qed
qed

text \<open>
  C21. The grid is its set of boundaries, the grid dates' local handoff times as instants: the
  slot containing an instant runs from the last boundary not after it to the first one after
  it, with none in between; \<open>NextBoundary\<close> is that end; \<open>SlotsBetween\<close> is the signed number of
  boundaries between two of them and refuses every other instant; and \<open>SlotsOverlapping\<close> lists,
  in order, the slots that start at the boundaries from the first one's start to the bound.
\<close>

theorem grid_is_its_boundaries:
  "slStart (grid_SlotContaining g t) \<in> boundaries g \<inter> {..t} \<and>
   slEnd (grid_SlotContaining g t) \<in> boundaries g \<inter> {t<..} \<and>
   boundaries g \<inter> {slStart (grid_SlotContaining g t)<..<slEnd (grid_SlotContaining g t)} = {} \<and>
   grid_NextBoundary g t = slEnd (grid_SlotContaining g t) \<and>
   grid_SlotsBetween g a b =
     (if a \<notin> boundaries g then Inl (NotASlotStart a)
      else if b \<notin> boundaries g then Inl (NotASlotStart b)
      else Inr (if a \<le> b then int (Finite_Set.card (boundaries g \<inter> {a..<b}))
                else - int (Finite_Set.card (boundaries g \<inter> {b..<a})))) \<and>
   grid_SlotsOverlapping g a until =
     (if until \<le> a then []
      else map (grid_SlotContaining g)
             (sorted_list_of_set (boundaries g \<inter> {slStart (grid_SlotContaining g a)..<until})))"
proof (intro conjI)
  show "slStart (grid_SlotContaining g t) \<in> boundaries g \<inter> {..t}"
    "slEnd (grid_SlotContaining g t) \<in> boundaries g \<inter> {t<..}"
    using slot_facts(1) [of g t] slot_facts(2) [of g t] slot_facts(3) [of g t] slot_facts(4) [of t g] by auto
  show "boundaries g \<inter> {slStart (grid_SlotContaining g t)<..<slEnd (grid_SlotContaining g t)} = {}"
    using slot_facts(5) [of _ g t] by force
  show "grid_NextBoundary g t = slEnd (grid_SlotContaining g t)"
    by (simp add: grid_NextBoundary_def grid_SlotContaining_def split: prod.splits)
  show "grid_SlotsBetween g a b =
     (if a \<notin> boundaries g then Inl (NotASlotStart a)
      else if b \<notin> boundaries g then Inl (NotASlotStart b)
      else Inr (if a \<le> b then int (Finite_Set.card (boundaries g \<inter> {a..<b}))
                else - int (Finite_Set.card (boundaries g \<inter> {b..<a}))))"
    by (simp add: SlotsBetween_counts signed_count_def span_def)
  obtain start finis where f: "slotContaining g a = (start, finis)" "adjacent g start finis"
    using slotContaining_adjacent by blast
  moreover have "cInstant start = slStart (grid_SlotContaining g a)"
    using f(1) by (simp add: grid_SlotContaining_def)
  ultimately show "grid_SlotsOverlapping g a until =
     (if until \<le> a then []
      else map (grid_SlotContaining g)
             (sorted_list_of_set (boundaries g \<inter> {slStart (grid_SlotContaining g a)..<until})))"
    using collect_slots_list [OF f(2), of until]
    by (simp add: grid_SlotsOverlapping_def not_less span_def)
qed

section \<open>The contract of the interface\<close>

text \<open>What the rotation relies on, stated of the four methods alone.\<close>

locale handoff_grid =
  fixes g :: grid_interface
  assumes slot_around: "slStart (SlotContaining g t) \<le> t" "t < slEnd (SlotContaining g t)"
    and slot_same: "slStart (SlotContaining g t) \<le> u \<Longrightarrow> u < slEnd (SlotContaining g t) \<Longrightarrow>
      SlotContaining g u = SlotContaining g t"
    and slot_next: "slStart (SlotContaining g (slEnd (SlotContaining g t))) = slEnd (SlotContaining g t)"
    and next_boundary: "NextBoundary g t = slEnd (SlotContaining g t)"
    and between_starts: "(\<exists>n. SlotsBetween g a b = Inr n) \<longleftrightarrow>
      slStart (SlotContaining g a) = a \<and> slStart (SlotContaining g b) = b"
    and between_self: "slStart (SlotContaining g a) = a \<Longrightarrow> SlotsBetween g a a = Inr 0"
    and between_next: "SlotsBetween g a (slStart (SlotContaining g t)) = Inr n \<Longrightarrow>
      SlotsBetween g a (slEnd (SlotContaining g t)) = Inr (n + 1)"
begin

lemma slot_start_idem: "slStart (SlotContaining g (slStart (SlotContaining g t))) = slStart (SlotContaining g t)"
  using slot_same [of t "slStart (SlotContaining g t)"] slot_around [of t] by (metis dual_order.refl le_less_trans)

lemma between_slot_starts:
  assumes "slStart (SlotContaining g a) = a"
  obtains n where "SlotsBetween g a (slStart (SlotContaining g t)) = Inr n"
  using between_starts assms slot_start_idem by metis

end

lemma signed_count_next:
  assumes "a \<in> boundaries g"
  shows "signed_count g a (slEnd (grid_SlotContaining g t))
     = signed_count g a (slStart (grid_SlotContaining g t)) + 1"
proof -
  let ?s = "slStart (grid_SlotContaining g t)" and ?e = "slEnd (grid_SlotContaining g t)"
  have se: "?s < ?e" using slot_facts(3) [of g t] slot_facts(4) [of t g] by simp
  have only: "span g ?s ?e = {?s}"
    using slot_facts(5) [of _ g t] slot_facts(1) [of g t] se by (force simp: span_def)
  consider "a \<le> ?s" | "?e \<le> a" using slot_facts(5) [OF assms, of t] by blast
  then show ?thesis
  proof cases
    case 1
    then have "span g a ?e = span g a ?s \<union> span g ?s ?e" using se by (auto simp: span_def)
    moreover have "span g a ?s \<inter> span g ?s ?e = {}" by (auto simp: span_def)
    ultimately have "Finite_Set.card (span g a ?e) = Finite_Set.card (span g a ?s) + 1"
      using card_Un_disjoint [OF span_finite span_finite] only by (metis card.empty card_insert_disjoint empty_iff finite.emptyI One_nat_def)
    then show ?thesis using 1 se by (simp add: signed_count_def)
  next
    case 2
    then have "span g ?s a = span g ?s ?e \<union> span g ?e a" using se by (auto simp: span_def)
    moreover have "span g ?s ?e \<inter> span g ?e a = {}" by (auto simp: span_def)
    ultimately have c: "Finite_Set.card (span g ?s a) = 1 + Finite_Set.card (span g ?e a)"
      using card_Un_disjoint [OF span_finite span_finite] only by (metis card.empty card_insert_disjoint empty_iff finite.emptyI One_nat_def)
    show ?thesis
    proof (cases "?e = a")
      case True
      with c se show ?thesis by (simp add: signed_count_def span_def)
    next
      case False
      with c 2 se show ?thesis by (simp add: signed_count_def)
    qed
  qed
qed

text \<open>Every grid the program can build keeps the contract.\<close>

interpretation built: handoff_grid "methods g" for g
proof unfold_locales
  fix t u a b n
  show "slStart (SlotContaining (methods g) t) \<le> t" "t < slEnd (SlotContaining (methods g) t)"
    using slot_facts(3) [of g t] slot_facts(4) [of t g] by (simp_all add: methods_def)
  show "SlotContaining (methods g) u = SlotContaining (methods g) t"
    if "slStart (SlotContaining (methods g) t) \<le> u" "u < slEnd (SlotContaining (methods g) t)"
    using slot_unique [OF slot_facts(1) [of g t] slot_facts(2) [of g t], of u] that
      slot_facts(5) [of _ g t] by (simp add: methods_def)
  show "slStart (SlotContaining (methods g) (slEnd (SlotContaining (methods g) t)))
      = slEnd (SlotContaining (methods g) t)"
    by (simp add: methods_def slot_start_self slot_facts(2))
  show "NextBoundary (methods g) t = slEnd (SlotContaining (methods g) t)"
    by (simp add: methods_def grid_NextBoundary_def grid_SlotContaining_def split: prod.splits)
  show "(\<exists>n. SlotsBetween (methods g) a b = Inr n) \<longleftrightarrow>
      slStart (SlotContaining (methods g) a) = a \<and> slStart (SlotContaining (methods g) b) = b"
    by (simp add: methods_def SlotsBetween_counts is_start)
  show "SlotsBetween (methods g) a a = Inr 0" if "slStart (SlotContaining (methods g) a) = a"
    using that by (simp add: methods_def SlotsBetween_counts is_start signed_count_def span_def)
  show "SlotsBetween (methods g) a (slEnd (SlotContaining (methods g) t)) = Inr (n + 1)"
    if "SlotsBetween (methods g) a (slStart (SlotContaining (methods g) t)) = Inr n"
    using that signed_count_next [of a g t] slot_facts(1) [of g t] slot_facts(2) [of g t]
    by (auto simp: methods_def SlotsBetween_counts split: if_splits)
qed

end
