(* ===== verification/Rotation.thy ===== *)
theory Rotation
  imports Grid "HOL-Library.List_Lexorder" "HOL-Library.Char_ord"
begin

text \<open>
  Snapshots and configurations of a schedule and the group on duty: \<open>snapshot.go\<close>,
  \<open>normalize.go\<close> and \<open>position.go\<close> of \<open>internal/rotation\<close>.

  A slice and its nil are one list (JSON tells them apart; the functions here do not), a cloned
  value is the value, and an anchor is an instant without its location.  Error messages keep
  the values they name and drop the prefix with the layer's name.  The timezone database and
  the UUID library are arguments, gathered in \<open>externals\<close>.
\<close>

section \<open>Groups, layers and snapshots\<close>

record externals =
  eZones :: "string \<Rightarrow> zone option"
  eUuid :: "string \<Rightarrow> string option"

record rotation_group =
  rgID :: string
  rgMembers :: "string list"

record layer_snapshot =
  lyEnabled :: bool
  lyPolicy :: rotation_policy
  lyGroups :: "rotation_group list"
  lyAnchor :: "int option"
  lyPosition :: "int option"

record schedule_snapshot =
  ssSchemaVersion :: int
  ssTimezone :: string
  ssSlackUsergroupID :: string
  ssL1 :: layer_snapshot
  ssL2 :: layer_snapshot
  ssL2Timeout :: int

definition SnapshotSchemaVersion :: int where "SnapshotSchemaVersion = 1"
definition EscalationTimeoutMinMins :: int where "EscalationTimeoutMinMins = 1"
definition EscalationTimeoutMaxMins :: int where "EscalationTimeoutMaxMins = 1440"

text \<open>\<open>uuid.Parse\<close> followed by \<open>String\<close> is the argument: the canonical spelling, if any.\<close>

definition isCanonicalUUID :: "externals \<Rightarrow> string \<Rightarrow> bool" where
  "isCanonicalUUID ext s = (case eUuid ext s of None \<Rightarrow> False | Some u \<Rightarrow> u = s)"

fun scan_members :: "string \<Rightarrow> string list \<Rightarrow> string list \<Rightarrow> rotation_error + unit" where
  "scan_members gid seen [] = Inr ()"
| "scan_members gid seen (m # ms) =
     (if m = '''' then Inl (EmptyMember gid)
      else if m \<in> set seen then Inl (DuplicateMember gid m)
      else scan_members gid (m # seen) ms)"

definition validateGroupMembers :: "rotation_group \<Rightarrow> rotation_error + unit" where
  "validateGroupMembers g =
     (if rgMembers g = [] then Inl (EmptyGroup (rgID g)) else scan_members (rgID g) [] (rgMembers g))"

definition validateL1Group :: "externals \<Rightarrow> rotation_group \<Rightarrow> rotation_error + unit" where
  "validateL1Group ext g =
     (if \<not> isCanonicalUUID ext (rgID g) then Inl (BadGroupId (rgID g)) else validateGroupMembers g)"

definition validateL2Group :: "rotation_group \<Rightarrow> rotation_error + unit" where
  "validateL2Group g =
     (if length (rgMembers g) \<noteq> 1 then Inl (NotASingleton (rgID g))
      else if rgID g = '''' then Inl EmptyGroupId
      else if rgID g \<noteq> rgMembers g ! 0 then Inl (GroupIdIsNotItsMember (rgID g))
      else validateGroupMembers g)"

definition validateGroup :: "externals \<Rightarrow> string \<Rightarrow> rotation_group \<Rightarrow> rotation_error + unit" where
  "validateGroup ext name g = (if name = ''l1'' then validateL1Group ext g else validateL2Group g)"

definition validateLayer ::
    "externals \<Rightarrow> string \<Rightarrow> layer_snapshot \<Rightarrow> string \<Rightarrow> rotation_error + unit" where
  "validateLayer ext name l timezone =
     then_ok (policy_validate (lyPolicy l)) (\<lambda>_.
     then_ok (check_all (validateGroup ext name) (lyGroups l)) (\<lambda>_.
     let hasAnchor = lyAnchor l \<noteq> None; hasPosition = lyPosition l \<noteq> None;
         active = lyEnabled l \<and> 0 < length (lyGroups l)
     in if hasAnchor \<noteq> hasPosition then Inl (HalfPhasePair name)
        else if active \<and> \<not> hasAnchor then Inl (ActiveWithoutPhase name)
        else if \<not> active \<and> hasAnchor then Inl (InactiveWithPhase name)
        else case (lyAnchor l, lyPosition l) of
          (Some anchor, Some position) \<Rightarrow>
            if position < 0 \<or> int (length (lyGroups l)) \<le> position
            then Inl (StartPositionOutOfRange position)
            else then_ok (NewGrid (eZones ext) timezone (lyPolicy l)) (\<lambda>g.
              if slStart (SlotContaining g anchor) \<noteq> anchor then Inl (AnchorOffGrid anchor)
              else Inr ())
        | _ \<Rightarrow> Inr ()))"

fun scan_ids :: "string list \<Rightarrow> string list \<Rightarrow> rotation_error + unit" where
  "scan_ids seen [] = Inr ()"
| "scan_ids seen (gid # ids) =
     (if gid \<in> set seen then Inl (DuplicateGroup gid) else scan_ids (gid # seen) ids)"

definition snapshot_validate :: "externals \<Rightarrow> schedule_snapshot \<Rightarrow> rotation_error + unit" where
  "snapshot_validate ext s =
     (if ssSchemaVersion s \<noteq> SnapshotSchemaVersion then Inl (UnsupportedSchema (ssSchemaVersion s))
      else then_ok (validateTimezone (eZones ext) (ssTimezone s)) (\<lambda>_.
      if ssL2Timeout s < EscalationTimeoutMinMins \<or> EscalationTimeoutMaxMins < ssL2Timeout s
      then Inl (TimeoutOutOfRange (ssL2Timeout s))
      else then_ok (validateLayer ext ''l1'' (ssL1 s) (ssTimezone s)) (\<lambda>_.
      then_ok (validateLayer ext ''l2'' (ssL2 s) (ssTimezone s)) (\<lambda>_.
      scan_ids [] (map rgID (lyGroups (ssL1 s)) @ map rgID (lyGroups (ssL2 s)))))))"

section \<open>Configurations\<close>

record layer_configuration =
  lcEnabled :: bool
  lcPolicy :: rotation_policy
  lcGroups :: "rotation_group list"

record schedule_configuration =
  scTimezone :: string
  scSlackUsergroupID :: string
  scL1 :: layer_configuration
  scL2 :: layer_configuration
  scL2Timeout :: int

definition L2GroupsFromUserIDs :: "string list \<Rightarrow> rotation_group list" where
  "L2GroupsFromUserIDs userIDs = map (\<lambda>uid. \<lparr>rgID = uid, rgMembers = [uid]\<rparr>) userIDs"

definition canonical_layer :: "layer_configuration \<Rightarrow> layer_configuration" where
  "canonical_layer l =
     (if rpCadence (lcPolicy l) = RotationDaily
      then l\<lparr>lcPolicy := (lcPolicy l)\<lparr>rpHandoffDay := None\<rparr>\<rparr> else l)"

definition sort_members :: "rotation_group \<Rightarrow> rotation_group" where
  "sort_members g = g\<lparr>rgMembers := sort (rgMembers g)\<rparr>"

definition canonicalizeConfiguration :: "schedule_configuration \<Rightarrow> schedule_configuration" where
  "canonicalizeConfiguration c =
     (let l1 = canonical_layer (scL1 c); l2 = canonical_layer (scL2 c)
      in c\<lparr>scL1 := l1\<lparr>lcGroups := map sort_members (lcGroups l1)\<rparr>, scL2 := l2\<rparr>)"

definition ValidateConfiguration :: "externals \<Rightarrow> schedule_configuration \<Rightarrow> rotation_error + unit" where
  "ValidateConfiguration ext c =
     then_ok (validateTimezone (eZones ext) (scTimezone c)) (\<lambda>_.
     if scL2Timeout c < EscalationTimeoutMinMins \<or> EscalationTimeoutMaxMins < scL2Timeout c
     then Inl (TimeoutOutOfRange (scL2Timeout c))
     else then_ok (policy_validate (lcPolicy (scL1 c))) (\<lambda>_.
     then_ok (policy_validate (lcPolicy (scL2 c))) (\<lambda>_.
     then_ok (check_all (validateL1Group ext) (lcGroups (scL1 c))) (\<lambda>_.
     then_ok (check_all validateL2Group (lcGroups (scL2 c))) (\<lambda>_.
     scan_ids [] (map rgID (lcGroups (scL1 c)) @ map rgID (lcGroups (scL2 c))))))))"

definition NormalizeConfiguration ::
    "externals \<Rightarrow> schedule_configuration \<Rightarrow> rotation_error + schedule_configuration" where
  "NormalizeConfiguration ext c =
     (let n = canonicalizeConfiguration c
      in then_ok (ValidateConfiguration ext n) (\<lambda>_. Inr n))"

definition layer_configuration_of :: "layer_snapshot \<Rightarrow> layer_configuration" where
  "layer_configuration_of l = \<lparr>lcEnabled = lyEnabled l, lcPolicy = lyPolicy l, lcGroups = lyGroups l\<rparr>"

definition ConfigurationFromSnapshot :: "schedule_snapshot \<Rightarrow> schedule_configuration" where
  "ConfigurationFromSnapshot s =
     \<lparr>scTimezone = ssTimezone s, scSlackUsergroupID = ssSlackUsergroupID s,
      scL1 = layer_configuration_of (ssL1 s), scL2 = layer_configuration_of (ssL2 s),
      scL2Timeout = ssL2Timeout s\<rparr>"

definition ConfigEqual :: "schedule_configuration \<Rightarrow> schedule_configuration \<Rightarrow> bool" where
  "ConfigEqual a b \<longleftrightarrow> canonicalizeConfiguration a = canonicalizeConfiguration b"

section \<open>The group on duty\<close>

text \<open>Go's \<open>%\<close> truncates towards zero, so a negative remainder is lifted.\<close>

definition go_mod :: "int \<Rightarrow> int \<Rightarrow> int" where
  "go_mod a n = (if a < 0 then - ((- a) mod \<bar>n\<bar>) else a mod \<bar>n\<bar>)"

definition floorMod :: "int \<Rightarrow> int \<Rightarrow> int" where
  "floorMod a n = (let r = go_mod a n in if r < 0 then r + n else r)"

definition PositionAt :: "grid_interface \<Rightarrow> layer_snapshot \<Rightarrow> int \<Rightarrow> rotation_error + int \<times> slot" where
  "PositionAt g layer t =
     (if \<not> lyEnabled layer \<or> lyGroups layer = [] then Inl LayerInactive
      else case (lyAnchor layer, lyPosition layer) of
        (Some anchor, Some position) \<Rightarrow>
          if position < 0 \<or> int (length (lyGroups layer)) \<le> position
          then Inl (StartPositionOutOfRange position)
          else let origin = SlotContaining g anchor
          in if slStart origin \<noteq> anchor then Inl (AnchorOffGrid anchor)
          else let tgt = SlotContaining g t
          in then_ok (SlotsBetween g (slStart origin) (slStart tgt)) (\<lambda>elapsed.
               Inr (floorMod (position + elapsed) (int (length (lyGroups layer))), tgt))
      | _ \<Rightarrow> Inl NoPhasePair)"

definition ActiveGroupAt ::
    "grid_interface \<Rightarrow> layer_snapshot \<Rightarrow> int \<Rightarrow> rotation_error + (rotation_group \<times> slot) option" where
  "ActiveGroupAt g layer t =
     (if \<not> lyEnabled layer \<or> lyGroups layer = [] then Inr None
      else then_ok (PositionAt g layer t) (\<lambda>(pos, slot). Inr (Some (lyGroups layer ! nat pos, slot))))"

section \<open>The rotation on a grid\<close>

lemma floorMod_is_mod:
  assumes "0 < n"
  shows "floorMod a n = a mod n"
proof -
  define r where "r = (- a) mod n"
  have r: "0 \<le> r" "r < n" using assms by (simp_all add: r_def)
  have "a mod n = (if r = 0 then 0 else n - r)"
    using zmod_zminus1_eq_if [of "- a" n] by (simp add: r_def)
  moreover have "go_mod a n = (if a < 0 then - r else a mod n)" using assms by (simp add: go_mod_def r_def)
  ultimately show ?thesis using r assms by (auto simp: floorMod_def Let_def not_less)
qed

text \<open>An active layer whose phase pair is sound on the grid.\<close>

definition in_phase :: "grid_interface \<Rightarrow> layer_snapshot \<Rightarrow> int \<Rightarrow> int \<Rightarrow> bool" where
  "in_phase g l a p \<longleftrightarrow> lyEnabled l \<and> lyGroups l \<noteq> [] \<and> lyAnchor l = Some a \<and> lyPosition l = Some p \<and>
     0 \<le> p \<and> p < int (length (lyGroups l)) \<and> slStart (SlotContaining g a) = a"

lemma PositionAt_in_phase:
  assumes "in_phase g l a p"
  shows "PositionAt g l t = then_ok (SlotsBetween g a (slStart (SlotContaining g t)))
     (\<lambda>elapsed. Inr ((p + elapsed) mod int (length (lyGroups l)), SlotContaining g t))"
  using assms by (simp add: PositionAt_def in_phase_def floorMod_is_mod Let_def)

context handoff_grid
begin

lemma position_total:
  assumes "in_phase g l a p"
  shows "\<exists>k. PositionAt g l t = Inr (k, SlotContaining g t) \<and> 0 \<le> k \<and> k < int (length (lyGroups l))"
proof -
  have "slStart (SlotContaining g a) = a" and n: "0 < int (length (lyGroups l))"
    using assms by (simp_all add: in_phase_def)
  then obtain e where "SlotsBetween g a (slStart (SlotContaining g t)) = Inr e"
    using between_slot_starts by blast
  with n show ?thesis by (simp add: PositionAt_in_phase [OF assms])
qed

lemma position_anchor:
  assumes "in_phase g l a p"
  shows "PositionAt g l a = Inr (p, SlotContaining g a)"
proof -
  have "slStart (SlotContaining g a) = a" "p mod int (length (lyGroups l)) = p"
    using assms by (simp_all add: in_phase_def)
  then show ?thesis using between_self by (simp add: PositionAt_in_phase [OF assms])
qed

lemma position_same:
  assumes "in_phase g l a p" "slStart (SlotContaining g t) \<le> u" "u < slEnd (SlotContaining g t)"
  shows "PositionAt g l u = PositionAt g l t"
  using slot_same [OF assms(2,3)] by (simp add: PositionAt_in_phase [OF assms(1)])

lemma position_next:
  assumes "in_phase g l a p" "PositionAt g l t = Inr (k, s)"
  shows "PositionAt g l (slEnd s) = Inr ((k + 1) mod int (length (lyGroups l)), SlotContaining g (slEnd s))"
proof -
  obtain e where e: "SlotsBetween g a (slStart (SlotContaining g t)) = Inr e"
    "k = (p + e) mod int (length (lyGroups l))" "s = SlotContaining g t"
    using assms(2) by (auto simp: PositionAt_in_phase [OF assms(1)])
  have "SlotsBetween g a (slEnd s) = Inr (e + 1)" using between_next [OF e(1)] e(3) by simp
  moreover have "slStart (SlotContaining g (slEnd s)) = slEnd s" using slot_next e(3) by simp
  ultimately show ?thesis
    using e(2) mod_add_left_eq [of "p + e" "int (length (lyGroups l))" 1]
    by (simp add: PositionAt_in_phase [OF assms(1)] add.assoc)
qed

end

lemma NewGrid_methods: "NewGrid zones tz policy = Inr g \<Longrightarrow> \<exists>gr. g = methods gr"
  by (auto simp: NewGrid_def)

text \<open>
  C23. The rotation goes round.  On a grid of the program, an active layer with a sound phase
  pair always has a group on duty; it is the start position at the anchor, it does not change
  inside a slot, and at every handoff, before the anchor as after it, it is the next group in
  the layer's order, the first again after the last.
\<close>

theorem rotation_goes_round:
  assumes "NewGrid zones tz policy = Inr g" and "lyEnabled l" "lyGroups l \<noteq> []"
    and "lyAnchor l = Some a" "lyPosition l = Some p" "0 \<le> p" "p < int (length (lyGroups l))"
    and "slStart (SlotContaining g a) = a"
  shows "\<exists>k. 0 \<le> k \<and> k < int (length (lyGroups l)) \<and>
     ActiveGroupAt g l t = Inr (Some (lyGroups l ! nat k, SlotContaining g t)) \<and>
     (\<forall>u. slStart (SlotContaining g t) \<le> u \<and> u < slEnd (SlotContaining g t) \<longrightarrow>
        ActiveGroupAt g l u = ActiveGroupAt g l t) \<and>
     ActiveGroupAt g l (NextBoundary g t) =
       Inr (Some (lyGroups l ! nat ((k + 1) mod int (length (lyGroups l))),
                  SlotContaining g (NextBoundary g t))) \<and>
     ActiveGroupAt g l a = Inr (Some (lyGroups l ! nat p, SlotContaining g a))"
proof -
  obtain gr where gr: "g = methods gr" using NewGrid_methods [OF assms(1)] by blast
  have ph: "in_phase (methods gr) l a p" using assms(2-8) gr by (simp add: in_phase_def)
  obtain k where k: "PositionAt (methods gr) l t = Inr (k, SlotContaining (methods gr) t)"
    "0 \<le> k" "k < int (length (lyGroups l))" using built.position_total [OF ph] by blast
  have "PositionAt (methods gr) l (NextBoundary (methods gr) t) =
      Inr ((k + 1) mod int (length (lyGroups l)), SlotContaining (methods gr) (NextBoundary (methods gr) t))"
    using built.position_next [OF ph k(1)] by (simp add: built.next_boundary)
  with k built.position_anchor [OF ph] built.position_same [OF ph, of t] assms(2,3) show ?thesis
    unfolding gr by (intro exI [of _ k]) (simp add: ActiveGroupAt_def)
qed

section \<open>A daily rotation in universal time\<close>

lemma grid_of_policy:
  assumes "policy_validate policy = Inr ()"
  shows "\<exists>hh mm wd. ParseHandoffTime (rpHandoffTime policy) = Inr (hh, mm) \<and>
     parts (grid_of loc policy) = \<lparr>gLoc = loc, gHh = hh, gMm = mm,
       gStepDays = (if rpCadence policy = RotationWeekly then 7 else 1), gWeekday = wd\<rparr>"
proof -
  obtain hh mm where hm: "ParseHandoffTime (rpHandoffTime policy) = Inr (hh, mm)"
    using assms by (auto simp: policy_validate_def)
  then have lt: "local_times hh mm" using ParseHandoffTime_range by (simp add: local_times_def)
  show ?thesis
  proof (cases "rpCadence policy = RotationWeekly")
    case True
    then obtain day where "rpHandoffDay policy = Some day" "0 \<le> day" "day \<le> 6"
      using assms by (auto simp: policy_validate_def RotationDaily_def RotationWeekly_def not_less
        split: option.splits if_splits)
    with True hm lt show ?thesis by (simp add: grid_of_def Abs_grid_inverse grid_shape_def)
  next
    case False
    with hm lt show ?thesis by (simp add: grid_of_def Abs_grid_inverse grid_shape_def)
  qed
qed

definition at_nine :: rotation_policy where
  "at_nine = \<lparr>rpCadence = ''daily'', rpHandoffTime = ''09:00'', rpHandoffDay = None\<rparr>"

lemma nine_parsed: "ParseHandoffTime ''09:00'' = Inr (9, 0)"
  by (simp add: ParseHandoffTime_def byte_def)

lemma at_nine_valid: "policy_validate at_nine = Inr ()"
  by (simp add: policy_validate_def at_nine_def nine_parsed RotationDaily_def)

lemma at_nine_grid: "parts (grid_of utc at_nine) =
    \<lparr>gLoc = utc, gHh = 9, gMm = 0, gStepDays = 1, gWeekday = 0\<rparr>"
  by (simp add: grid_of_def at_nine_def nine_parsed RotationWeekly_def Abs_grid_inverse grid_shape_def
    local_times_def)

lemma at_nine_boundary: "wall c 9 0 * second \<in> boundaries (grid_of utc at_nine)"
proof -
  have "resolve (grid_of utc at_nine) c = wall c 9 0 * second"
    by (simp add: resolve_def at_nine_grid resolve_utc local_times_def)
  moreover have "on_grid (grid_of utc at_nine) c" by (simp add: on_grid_def at_nine_grid)
  ultimately show ?thesis unfolding boundaries_def by (metis image_eqI mem_Collect_eq)
qed

definition everywhere_utc :: externals where
  "everywhere_utc = \<lparr>eZones = (\<lambda>_. Some utc), eUuid = (\<lambda>s. Some s)\<rparr>"

lemma at_nine_NewGrid: "NewGrid (eZones everywhere_utc) ''UTC'' at_nine = Inr (methods (grid_of utc at_nine))"
  by (simp add: NewGrid_def validateTimezone_def everywhere_utc_def at_nine_valid)

definition two_people :: layer_snapshot where
  "two_people = \<lparr>lyEnabled = True, lyPolicy = at_nine,
     lyGroups = [\<lparr>rgID = ''a'', rgMembers = [''ann'']\<rparr>, \<lparr>rgID = ''b'', rgMembers = [''bob'']\<rparr>],
     lyAnchor = Some (wall 20000 9 0 * second), lyPosition = Some 1\<rparr>"

theorem rotation_goes_round_witness:
  "\<exists>s s'. ActiveGroupAt (methods (grid_of utc at_nine)) two_people (wall 20000 9 0 * second)
       = Inr (Some (\<lparr>rgID = ''b'', rgMembers = [''bob'']\<rparr>, s)) \<and>
     ActiveGroupAt (methods (grid_of utc at_nine)) two_people
         (NextBoundary (methods (grid_of utc at_nine)) (wall 20000 9 0 * second))
       = Inr (Some (\<lparr>rgID = ''a'', rgMembers = [''ann'']\<rparr>, s'))"
proof -
  let ?g = "methods (grid_of utc at_nine)" and ?a = "wall 20000 9 0 * second"
  have "slStart (SlotContaining ?g ?a) = ?a"
    using at_nine_boundary is_start by (simp add: methods_def)
  from rotation_goes_round [OF at_nine_NewGrid, of two_people ?a 1 ?a, OF _ _ _ _ _ _ this]
  obtain k where k: "0 \<le> k" "k < 2"
    "ActiveGroupAt ?g two_people ?a = Inr (Some (lyGroups two_people ! nat k, SlotContaining ?g ?a))"
    "ActiveGroupAt ?g two_people (NextBoundary ?g ?a) = Inr (Some (lyGroups two_people ! nat ((k + 1) mod 2),
       SlotContaining ?g (NextBoundary ?g ?a)))"
    "ActiveGroupAt ?g two_people ?a = Inr (Some (lyGroups two_people ! nat 1, SlotContaining ?g ?a))"
    by (auto simp: two_people_def)
  have "k = 1"
  proof (rule ccontr)
    assume "k \<noteq> 1"
    with k(1,2) have "k = 0" by simp
    with k(3,5) show False by (simp add: two_people_def)
  qed
  with k(4,5) show ?thesis by (simp add: two_people_def)
qed

end
