(* ===== verification/Transition.thy ===== *)
theory Transition
  imports Rotation
begin

text \<open>
  Planning the next revision of a schedule: \<open>internal/rotation/transition.go\<close>.

  A save is classified layer by layer: the phase is cleared, carried or anchored anew, and the
  group that goes on serving is kept, succeeded or the first.  What a person notices is proved:
  a save never takes the pager from the group on duty unless that group was removed, and then
  it goes to the next of the old order that is still there.
\<close>

section \<open>Plans\<close>

datatype phase_action = PhaseActionCarry | PhaseActionReanchor | PhaseActionClear
datatype selection = SelectionPreserve | SelectionSuccessor | SelectionFirst | SelectionNone

record layer_transition =
  ltPhaseAction :: phase_action
  ltGroupSelection :: selection

record change_summary =
  csL1GroupsChanged :: bool
  csL1PolicyChanged :: bool
  csL1PhaseAction :: phase_action
  csL1GroupSelection :: selection
  csL2Changed :: bool
  csL2PhaseAction :: phase_action
  csL2GroupSelection :: selection
  csTimezoneChanged :: bool
  csSlackUsergroupChanged :: bool

datatype transition_plan =
    NoopPlan
  | Plan (planSnapshot: schedule_snapshot) (planL1: layer_transition) (planL2: layer_transition)
      (planChange: change_summary)

record transition_input =
  tiCurrent :: "schedule_snapshot option"
  tiDesired :: schedule_configuration
  tiEffectiveAt :: int

text \<open>The zero \<open>time.Time\<close>, the first instant of year 1.\<close>

definition zero_time :: int where "zero_time = - 62135596800 * second"

definition equalOrderedGroupIDs :: "rotation_group list \<Rightarrow> rotation_group list \<Rightarrow> bool" where
  "equalOrderedGroupIDs a b \<longleftrightarrow>
     length a = length b \<and> list_all2 (\<lambda>x y. rgID x = rgID y) a b"

fun group_index_from :: "int \<Rightarrow> rotation_group list \<Rightarrow> string \<Rightarrow> int" where
  "group_index_from i [] gid = -1"
| "group_index_from i (g # gs) gid = (if rgID g = gid then i else group_index_from (i + 1) gs gid)"

definition groupIndexByID :: "rotation_group list \<Rightarrow> string \<Rightarrow> int" where
  "groupIndexByID gs gid = group_index_from 0 gs gid"

text \<open>The groups after the one at \<open>oldPos\<close>, in the order they would have served.\<close>

fun first_survivor :: "rotation_group list \<Rightarrow> string list \<Rightarrow> int" where
  "first_survivor desired [] = -1"
| "first_survivor desired (candidate # rest) =
     (let idx = groupIndexByID desired candidate
      in if 0 \<le> idx then idx else first_survivor desired rest)"

definition candidates_after :: "rotation_group list \<Rightarrow> nat \<Rightarrow> string list" where
  "candidates_after groups oldPos =
     map (\<lambda>i. rgID (groups ! ((oldPos + i) mod length groups))) [1..<length groups]"

definition new_layer :: "layer_configuration \<Rightarrow> layer_snapshot" where
  "new_layer desired = \<lparr>lyEnabled = lcEnabled desired, lyPolicy = lcPolicy desired,
     lyGroups = lcGroups desired, lyAnchor = None, lyPosition = None\<rparr>"

definition reanchor ::
    "externals \<Rightarrow> layer_configuration \<Rightarrow> string \<Rightarrow> int \<Rightarrow> selection \<Rightarrow> int
       \<Rightarrow> rotation_error + layer_snapshot \<times> layer_transition" where
  "reanchor ext desired desiredTZ effectiveAt sel position =
     then_ok (NewGrid (eZones ext) desiredTZ (lcPolicy desired)) (\<lambda>ng.
     Inr ((new_layer desired)\<lparr>lyAnchor := Some (slStart (SlotContaining ng effectiveAt)),
            lyPosition := Some position\<rparr>,
          \<lparr>ltPhaseAction = PhaseActionReanchor, ltGroupSelection = sel\<rparr>))"

definition planLayer ::
    "externals \<Rightarrow> layer_snapshot option \<Rightarrow> string \<Rightarrow> layer_configuration \<Rightarrow> string \<Rightarrow> int
       \<Rightarrow> rotation_error + layer_snapshot \<times> layer_transition" where
  "planLayer ext current currentTZ desired desiredTZ effectiveAt =
     (if \<not> lcEnabled desired \<or> lcGroups desired = []
      then Inr (new_layer desired, \<lparr>ltPhaseAction = PhaseActionClear, ltGroupSelection = SelectionNone\<rparr>)
      else case current of
        None \<Rightarrow> reanchor ext desired desiredTZ effectiveAt SelectionFirst 0
      | Some cur \<Rightarrow>
          if \<not> lyEnabled cur \<or> lyGroups cur = []
          then reanchor ext desired desiredTZ effectiveAt SelectionFirst 0
          else let sameGrid = (currentTZ = desiredTZ \<and> equalPolicy (lyPolicy cur) (lcPolicy desired));
                   sameIDs = equalOrderedGroupIDs (lyGroups cur) (lcGroups desired)
          in then_ok (NewGrid (eZones ext) currentTZ (lyPolicy cur)) (\<lambda>og.
             then_ok (PositionAt og cur effectiveAt) (\<lambda>(oldPos, _).
             let oldActiveID = rgID (lyGroups cur ! nat oldPos)
             in if sameGrid \<and> sameIDs
                then Inr ((new_layer desired)\<lparr>lyAnchor := lyAnchor cur, lyPosition := lyPosition cur\<rparr>,
                       \<lparr>ltPhaseAction = PhaseActionCarry, ltGroupSelection = SelectionPreserve\<rparr>)
                else let idx = groupIndexByID (lcGroups desired) oldActiveID
                in if 0 \<le> idx then reanchor ext desired desiredTZ effectiveAt SelectionPreserve idx
                else let nxt = first_survivor (lcGroups desired) (candidates_after (lyGroups cur) (nat oldPos))
                in if 0 \<le> nxt then reanchor ext desired desiredTZ effectiveAt SelectionSuccessor nxt
                else reanchor ext desired desiredTZ effectiveAt SelectionFirst 0)))"

definition summarize ::
    "schedule_configuration option \<Rightarrow> schedule_configuration \<Rightarrow> layer_transition \<Rightarrow> layer_transition
       \<Rightarrow> change_summary" where
  "summarize current desired l1T l2T =
     (case current of
        None \<Rightarrow> \<lparr>csL1GroupsChanged = True, csL1PolicyChanged = True,
          csL1PhaseAction = ltPhaseAction l1T, csL1GroupSelection = ltGroupSelection l1T,
          csL2Changed = True, csL2PhaseAction = ltPhaseAction l2T,
          csL2GroupSelection = ltGroupSelection l2T,
          csTimezoneChanged = True, csSlackUsergroupChanged = True\<rparr>
      | Some c \<Rightarrow>
          let cur = canonicalizeConfiguration c; des = canonicalizeConfiguration desired
          in \<lparr>csL1GroupsChanged = (lcGroups (scL1 cur) \<noteq> lcGroups (scL1 des)),
              csL1PolicyChanged = (\<not> equalPolicy (lcPolicy (scL1 cur)) (lcPolicy (scL1 des))
                \<or> lcEnabled (scL1 cur) \<noteq> lcEnabled (scL1 des)),
              csL1PhaseAction = ltPhaseAction l1T, csL1GroupSelection = ltGroupSelection l1T,
              csL2Changed = (scL2 cur \<noteq> scL2 des \<or> scL2Timeout cur \<noteq> scL2Timeout des),
              csL2PhaseAction = ltPhaseAction l2T, csL2GroupSelection = ltGroupSelection l2T,
              csTimezoneChanged = (scTimezone cur \<noteq> scTimezone des),
              csSlackUsergroupChanged = (scSlackUsergroupID cur \<noteq> scSlackUsergroupID des)\<rparr>)"

definition checked_current ::
    "externals \<Rightarrow> schedule_snapshot option \<Rightarrow> rotation_error + schedule_configuration option" where
  "checked_current ext current =
     (case current of
        None \<Rightarrow> Inr None
      | Some cur \<Rightarrow> (case snapshot_validate ext cur of
          Inl e \<Rightarrow> Inl (CurrentInvalid e)
        | Inr _ \<Rightarrow> Inr (Some (ConfigurationFromSnapshot cur))))"

definition assemble ::
    "schedule_configuration \<Rightarrow> layer_snapshot \<Rightarrow> layer_snapshot \<Rightarrow> schedule_snapshot" where
  "assemble desired l1 l2 =
     \<lparr>ssSchemaVersion = SnapshotSchemaVersion, ssTimezone = scTimezone desired,
      ssSlackUsergroupID = scSlackUsergroupID desired, ssL1 = l1, ssL2 = l2,
      ssL2Timeout = scL2Timeout desired\<rparr>"

definition PlanTransition :: "externals \<Rightarrow> transition_input \<Rightarrow> rotation_error + transition_plan" where
  "PlanTransition ext inp =
     (if tiEffectiveAt inp = zero_time then Inl NoEffectiveAt
      else then_ok (NormalizeConfiguration ext (tiDesired inp)) (\<lambda>desired.
      then_ok (checked_current ext (tiCurrent inp)) (\<lambda>currentCfg.
      if (case currentCfg of None \<Rightarrow> False | Some c \<Rightarrow> ConfigEqual c desired) then Inr NoopPlan
      else let curTZ = (case tiCurrent inp of None \<Rightarrow> '''' | Some cur \<Rightarrow> ssTimezone cur)
      in then_ok (planLayer ext (map_option ssL1 (tiCurrent inp)) curTZ (scL1 desired)
           (scTimezone desired) (tiEffectiveAt inp)) (\<lambda>(l1Snap, l1T).
         then_ok (planLayer ext (map_option ssL2 (tiCurrent inp)) curTZ (scL2 desired)
           (scTimezone desired) (tiEffectiveAt inp)) (\<lambda>(l2Snap, l2T).
         let snap = assemble desired l1Snap l2Snap
         in case snapshot_validate ext snap of
              Inl e \<Rightarrow> Inl (PlannedInvalid e)
            | Inr _ \<Rightarrow> Inr (Plan snap l1T l2T (summarize currentCfg desired l1T l2T)))))))"

section \<open>What a valid layer has\<close>

lemma validateLayer_iff:
  "validateLayer ext name l tz = Inr () \<longleftrightarrow>
     policy_validate (lyPolicy l) = Inr () \<and> (\<forall>g\<in>set (lyGroups l). validateGroup ext name g = Inr ()) \<and>
     (if lyEnabled l \<and> lyGroups l \<noteq> []
      then \<exists>g a p. NewGrid (eZones ext) tz (lyPolicy l) = Inr g \<and> in_phase g l a p
      else lyAnchor l = None \<and> lyPosition l = None)"
  by (cases "lyAnchor l"; cases "lyPosition l")
    (auto simp: validateLayer_def Let_def in_phase_def not_less not_le)

lemma group_index_from_range:
  "group_index_from i gs gid = (if gid \<in> rgID ` set gs then group_index_from i gs gid else -1)"
  by (induction i gs gid rule: group_index_from.induct) auto

lemma group_index_from_found:
  "gid \<in> rgID ` set gs \<Longrightarrow>
     \<exists>j < length gs. group_index_from i gs gid = i + int j \<and> rgID (gs ! j) = gid"
proof (induction i gs gid rule: group_index_from.induct)
  case (2 i g gs gid)
  show ?case
  proof (cases "rgID g = gid")
    case False
    then have "gid \<in> rgID ` set gs" using 2(2) by auto
    from 2(1) [OF False this] obtain j where
      "j < length gs" "group_index_from (i + 1) gs gid = i + 1 + int j" "rgID (gs ! j) = gid" by blast
    with False show ?thesis by (intro exI [of _ "Suc j"]) simp
  qed auto
qed simp

lemma groupIndexByID_found:
  assumes "0 \<le> groupIndexByID gs gid"
  shows "groupIndexByID gs gid < int (length gs) \<and> rgID (gs ! nat (groupIndexByID gs gid)) = gid \<and>
     gid \<in> rgID ` set gs"
proof -
  have m: "gid \<in> rgID ` set gs"
    using assms group_index_from_range [of 0 gs gid] by (auto simp: groupIndexByID_def split: if_splits)
  from group_index_from_found [OF m, of 0] show ?thesis using m by (auto simp: groupIndexByID_def)
qed

lemma groupIndexByID_none: "\<not> 0 \<le> groupIndexByID gs gid \<Longrightarrow> gid \<notin> rgID ` set gs"
  using group_index_from_found [of gid gs 0] by (auto simp: groupIndexByID_def)

lemma first_survivor_found:
  assumes "0 \<le> first_survivor desired ids"
  shows "\<exists>gid. find (\<lambda>x. x \<in> rgID ` set desired) ids = Some gid \<and>
     first_survivor desired ids < int (length desired) \<and>
     rgID (desired ! nat (first_survivor desired ids)) = gid"
  using assms
proof (induction desired ids rule: first_survivor.induct)
  case (2 desired candidate rest)
  show ?case
  proof (cases "0 \<le> groupIndexByID desired candidate")
    case True
    then show ?thesis using groupIndexByID_found [OF True] by (simp add: Let_def)
  next
    case False
    then show ?thesis using 2(1) [OF refl False] 2(2) groupIndexByID_none [OF False] by (simp add: Let_def)
  qed
qed simp

lemma first_survivor_none:
  "\<not> 0 \<le> first_survivor desired ids \<Longrightarrow> find (\<lambda>x. x \<in> rgID ` set desired) ids = None"
proof (induction desired ids rule: first_survivor.induct)
  case (2 desired candidate rest)
  show ?case
  proof (cases "0 \<le> groupIndexByID desired candidate")
    case False
    then show ?thesis using 2(1) [OF refl False] 2(2) groupIndexByID_none [OF False] by (simp add: Let_def)
  qed (use 2(2) in \<open>simp add: Let_def\<close>)
qed simp

text \<open>
  Whom the pager goes to: the group on duty, or else the first of those after it in the old
  order, that the new configuration still has; the first new group when none of them is left.
\<close>

definition heir :: "rotation_group list \<Rightarrow> nat \<Rightarrow> rotation_group list \<Rightarrow> string" where
  "heir old pos new =
     (case find (\<lambda>gid. gid \<in> rgID ` set new) (map rgID (rotate pos old)) of
        Some gid \<Rightarrow> gid
      | None \<Rightarrow> rgID (hd new))"

lemma rotate_candidates:
  assumes "pos < length old"
  shows "map rgID (rotate pos old) = rgID (old ! pos) # candidates_after old pos"
proof (rule nth_equalityI)
  show "length (map rgID (rotate pos old)) = length (rgID (old ! pos) # candidates_after old pos)"
    using assms by (simp add: candidates_after_def)
  fix i assume i: "i < length (map rgID (rotate pos old))"
  show "map rgID (rotate pos old) ! i = (rgID (old ! pos) # candidates_after old pos) ! i"
  proof (cases i)
    case (Suc j)
    then have "[1..<length old] ! j = Suc j" using i nth_upt [of 1 j "length old"] by simp
    with Suc i assms show ?thesis by (simp add: nth_rotate candidates_after_def)
  qed (use assms i in \<open>simp add: nth_rotate\<close>)
qed

section \<open>Planning one layer\<close>

definition layer_config_ok :: "externals \<Rightarrow> string \<Rightarrow> string \<Rightarrow> layer_configuration \<Rightarrow> bool" where
  "layer_config_ok ext name tz c \<longleftrightarrow> policy_validate (lcPolicy c) = Inr () \<and>
     (\<exists>loc. validateTimezone (eZones ext) tz = Inr loc) \<and>
     (\<forall>g\<in>set (lcGroups c). validateGroup ext name g = Inr ())"

lemma NewGrid_ok:
  assumes "layer_config_ok ext name tz c"
  obtains gr where "NewGrid (eZones ext) tz (lcPolicy c) = Inr (methods gr)"
  using assms by (auto simp: layer_config_ok_def NewGrid_def)

lemma new_layer_simps [simp]:
  "lyEnabled (new_layer c) = lcEnabled c" "lyPolicy (new_layer c) = lcPolicy c"
  "lyGroups (new_layer c) = lcGroups c" "lyAnchor (new_layer c) = None" "lyPosition (new_layer c) = None"
  by (simp_all add: new_layer_def)

text \<open>What every anchored layer of a plan is: sound, serving the group at \<open>position\<close>.\<close>

lemma reanchor_in_phase:
  assumes "layer_config_ok ext name tz c" "lcEnabled c" "lcGroups c \<noteq> []"
    and "0 \<le> position" "position < int (length (lcGroups c))"
  obtains gr l a where "NewGrid (eZones ext) tz (lcPolicy c) = Inr (methods gr)"
    "reanchor ext c tz t sel position = Inr (l, \<lparr>ltPhaseAction = PhaseActionReanchor, ltGroupSelection = sel\<rparr>)"
    "layer_configuration_of l = c" "in_phase (methods gr) l a position"
    "PositionAt (methods gr) l t = Inr (position, SlotContaining (methods gr) t)"
proof -
  obtain gr where gr: "NewGrid (eZones ext) tz (lcPolicy c) = Inr (methods gr)"
    using NewGrid_ok [OF assms(1)] by blast
  let ?a = "slStart (SlotContaining (methods gr) t)"
  let ?l = "(new_layer c)\<lparr>lyAnchor := Some ?a, lyPosition := Some position\<rparr>"
  have ph: "in_phase (methods gr) ?l ?a position"
    using assms built.slot_start_idem by (simp add: in_phase_def)
  have "PositionAt (methods gr) ?l t = PositionAt (methods gr) ?l ?a"
    using built.position_same [OF ph, where t = t and u = ?a] built.slot_around [where g = gr and t = t] by simp
  also have "\<dots> = Inr (position, SlotContaining (methods gr) t)"
    using built.position_anchor [OF ph] built.slot_same [where g = gr and t = t and u = ?a] built.slot_around [where g = gr and t = t] by simp
  finally show ?thesis using gr ph that by (simp add: reanchor_def layer_configuration_of_def)
qed

lemma in_phase_valid:
  assumes "layer_config_ok ext name tz c" "layer_configuration_of l = c"
    and "NewGrid (eZones ext) tz (lcPolicy c) = Inr g" "in_phase g l a p"
  shows "validateLayer ext name l tz = Inr ()"
proof -
  have "lyEnabled l = lcEnabled c" "lyPolicy l = lcPolicy c" "lyGroups l = lcGroups c"
    using assms(2) by (auto simp: layer_configuration_of_def)
  then show ?thesis using assms(1,3,4) by (auto simp: validateLayer_iff layer_config_ok_def in_phase_def)
qed

lemma equal_ids_map: "equalOrderedGroupIDs a b \<longleftrightarrow> map rgID a = map rgID b"
  by (auto simp: equalOrderedGroupIDs_def list_all2_conv_all_nth list_eq_iff_nth_eq)

text \<open>What planning an active layer over an active one comes to.\<close>

definition carried :: "layer_snapshot \<Rightarrow> layer_configuration \<Rightarrow> layer_snapshot" where
  "carried cur c = (new_layer c)\<lparr>lyAnchor := lyAnchor cur, lyPosition := lyPosition cur\<rparr>"

lemma planLayer_active:
  assumes "lcEnabled c" "lcGroups c \<noteq> []" "lyEnabled cur" "lyGroups cur \<noteq> []"
    and "NewGrid (eZones ext) curTZ (lyPolicy cur) = Inr og"
    and "PositionAt og cur t = Inr (k, s)" "0 \<le> k" "k < int (length (lyGroups cur))"
  shows "(curTZ = tz \<and> lyPolicy cur = lcPolicy c \<and> map rgID (lyGroups cur) = map rgID (lcGroups c) \<and>
      planLayer ext (Some cur) curTZ c tz t =
        Inr (carried cur c, \<lparr>ltPhaseAction = PhaseActionCarry, ltGroupSelection = SelectionPreserve\<rparr>)) \<or>
    (\<exists>sel position. planLayer ext (Some cur) curTZ c tz t = reanchor ext c tz t sel position \<and>
      0 \<le> position \<and> position < int (length (lcGroups c)) \<and>
      rgID (lcGroups c ! nat position) = heir (lyGroups cur) (nat k) (lcGroups c))"
proof (cases "curTZ = tz \<and> lyPolicy cur = lcPolicy c \<and> map rgID (lyGroups cur) = map rgID (lcGroups c)")
  case True
  then show ?thesis using assms by (simp add: planLayer_def equal_ids_map carried_def)
next
  case False
  let ?gid = "rgID (lyGroups cur ! nat k)" and ?new = "lcGroups c"
  let ?after = "candidates_after (lyGroups cur) (nat k)"
  have order: "map rgID (rotate (nat k) (lyGroups cur)) = ?gid # ?after"
    using rotate_candidates [of "nat k" "lyGroups cur"] assms(7,8) by simp
  have plan: "planLayer ext (Some cur) curTZ c tz t =
      (if 0 \<le> groupIndexByID ?new ?gid then reanchor ext c tz t SelectionPreserve (groupIndexByID ?new ?gid)
       else if 0 \<le> first_survivor ?new ?after
       then reanchor ext c tz t SelectionSuccessor (first_survivor ?new ?after)
       else reanchor ext c tz t SelectionFirst 0)"
  proof -
    have "\<not> (curTZ = tz \<and> equalPolicy (lyPolicy cur) (lcPolicy c)
        \<and> equalOrderedGroupIDs (lyGroups cur) (lcGroups c))" using False by (simp add: equal_ids_map)
    with assms show ?thesis by (auto simp: planLayer_def Let_def simp del: equalPolicy_is_equality)
  qed
  consider (kept) "0 \<le> groupIndexByID ?new ?gid"
    | (succeeded) "\<not> 0 \<le> groupIndexByID ?new ?gid" "0 \<le> first_survivor ?new ?after"
    | (first) "\<not> 0 \<le> groupIndexByID ?new ?gid" "\<not> 0 \<le> first_survivor ?new ?after" by blast
  then show ?thesis
  proof cases
    case kept
    then show ?thesis using groupIndexByID_found [OF kept] plan
      by (intro disjI2 exI [of _ SelectionPreserve] exI [of _ "groupIndexByID ?new ?gid"])
        (simp add: heir_def order)
  next
    case succeeded
    then show ?thesis using first_survivor_found [OF succeeded(2)] groupIndexByID_none [OF succeeded(1)] plan
      by (intro disjI2 exI [of _ SelectionSuccessor] exI [of _ "first_survivor ?new ?after"])
        (auto simp: heir_def order)
  next
    case first
    then show ?thesis using first_survivor_none [OF first(2)] groupIndexByID_none [OF first(1)] plan assms(2)
      by (intro disjI2 exI [of _ SelectionFirst] exI [of _ 0]) (simp add: heir_def order hd_conv_nth)
  qed
qed

lemma carried_in_phase:
  assumes "in_phase g cur a p" "lcEnabled c" "map rgID (lyGroups cur) = map rgID (lcGroups c)"
  shows "in_phase g (carried cur c) a p" "PositionAt g (carried cur c) t = PositionAt g cur t"
proof -
  have l: "length (lyGroups cur) = length (lcGroups c)" using assms(3) by (metis length_map)
  then have "lcGroups c \<noteq> []" using assms(1) by (auto simp: in_phase_def)
  with l assms(1,2) show ph: "in_phase g (carried cur c) a p" by (simp add: in_phase_def carried_def)
  show "PositionAt g (carried cur c) t = PositionAt g cur t"
    unfolding PositionAt_in_phase [OF ph] PositionAt_in_phase [OF assms(1)] using l by (simp add: carried_def)
qed

text \<open>A valid active layer and its grid.\<close>

lemma valid_active:
  assumes "validateLayer ext name cur tz = Inr ()" "lyEnabled cur" "lyGroups cur \<noteq> []"
  obtains gr a p where "NewGrid (eZones ext) tz (lyPolicy cur) = Inr (methods gr)" "in_phase (methods gr) cur a p"
proof -
  obtain g a p where g: "NewGrid (eZones ext) tz (lyPolicy cur) = Inr g" "in_phase g cur a p"
    using assms by (auto simp: validateLayer_iff)
  moreover obtain gr where "g = methods gr" using NewGrid_methods [OF g(1)] by blast
  ultimately show ?thesis using that by blast
qed

lemma planLayer_ok:
  assumes ok: "layer_config_ok ext name tz c"
    and cur: "case current of None \<Rightarrow> True | Some cur \<Rightarrow> validateLayer ext name cur curTZ = Inr ()"
  obtains l lt where "planLayer ext current curTZ c tz t = Inr (l, lt)"
    "layer_configuration_of l = c" "validateLayer ext name l tz = Inr ()"
proof (cases "lcEnabled c \<and> lcGroups c \<noteq> []")
  case False
  then have "planLayer ext current curTZ c tz t =
      Inr (new_layer c, \<lparr>ltPhaseAction = PhaseActionClear, ltGroupSelection = SelectionNone\<rparr>)"
    by (auto simp: planLayer_def)
  moreover have "layer_configuration_of (new_layer c) = c" by (simp add: layer_configuration_of_def)
  moreover have "validateLayer ext name (new_layer c) tz = Inr ()"
    using ok False by (auto simp: validateLayer_iff layer_config_ok_def)
  ultimately show ?thesis using that by blast
next
  case True
  note goal = that
  have anchored: thesis if "planLayer ext current curTZ c tz t = reanchor ext c tz t sel position"
      "0 \<le> position" "position < int (length (lcGroups c))" for sel position
  proof -
    note pos = that
    obtain gr l a where "NewGrid (eZones ext) tz (lcPolicy c) = Inr (methods gr)"
      "reanchor ext c tz t sel position = Inr (l, \<lparr>ltPhaseAction = PhaseActionReanchor, ltGroupSelection = sel\<rparr>)"
      "layer_configuration_of l = c" "in_phase (methods gr) l a position"
      using reanchor_in_phase [OF ok _ _ pos(2,3)] True by blast
    with in_phase_valid [OF ok] pos(1) goal show thesis by metis
  qed
  show ?thesis
  proof (cases "\<exists>x. current = Some x \<and> lyEnabled x \<and> lyGroups x \<noteq> []")
    case False
    then have "planLayer ext current curTZ c tz t = reanchor ext c tz t SelectionFirst 0"
      using True by (auto simp: planLayer_def split: option.split)
    then show ?thesis using anchored True by simp
  next
    case active: True
    then obtain x where x: "current = Some x" "lyEnabled x" "lyGroups x \<noteq> []" by blast
    with cur have v: "validateLayer ext name x curTZ = Inr ()" by simp
    obtain gr a p where gr: "NewGrid (eZones ext) curTZ (lyPolicy x) = Inr (methods gr)"
      and ph: "in_phase (methods gr) x a p" using valid_active [OF v x(2,3)] by blast
    obtain k where k: "PositionAt (methods gr) x t = Inr (k, SlotContaining (methods gr) t)"
      "0 \<le> k" "k < int (length (lyGroups x))" using built.position_total [OF ph] by blast
    from planLayer_active [OF _ _ x(2,3) gr k, of c tz] True x(1)
    consider (carry) "curTZ = tz" "lyPolicy x = lcPolicy c" "map rgID (lyGroups x) = map rgID (lcGroups c)"
        "planLayer ext current curTZ c tz t =
          Inr (carried x c, \<lparr>ltPhaseAction = PhaseActionCarry, ltGroupSelection = SelectionPreserve\<rparr>)"
      | (anchor) sel position where "planLayer ext current curTZ c tz t = reanchor ext c tz t sel position"
        "0 \<le> position" "position < int (length (lcGroups c))" by blast
    then show ?thesis
    proof cases
      case carry
      have "layer_configuration_of (carried x c) = c" by (simp add: carried_def layer_configuration_of_def)
      moreover have "in_phase (methods gr) (carried x c) a p"
        using carried_in_phase(1) [OF ph _ carry(3)] True by simp
      ultimately show ?thesis using in_phase_valid [OF ok] gr carry that by metis
    qed (rule anchored)
  qed
qed

section \<open>Planning a save\<close>

lemma Normalize_ok:
  assumes "NormalizeConfiguration ext c = Inr d"
  shows "layer_config_ok ext ''l1'' (scTimezone d) (scL1 d)" "layer_config_ok ext ''l2'' (scTimezone d) (scL2 d)"
    and "scan_ids [] (map rgID (lcGroups (scL1 d)) @ map rgID (lcGroups (scL2 d))) = Inr ()"
    and "EscalationTimeoutMinMins \<le> scL2Timeout d" "scL2Timeout d \<le> EscalationTimeoutMaxMins"
    and "\<exists>loc. validateTimezone (eZones ext) (scTimezone d) = Inr loc"
proof -
  have v: "ValidateConfiguration ext d = Inr ()"
    using assms by (auto simp: NormalizeConfiguration_def Let_def)
  then obtain loc where "validateTimezone (eZones ext) (scTimezone d) = Inr loc"
    by (auto simp: ValidateConfiguration_def)
  with v show "layer_config_ok ext ''l1'' (scTimezone d) (scL1 d)"
    "layer_config_ok ext ''l2'' (scTimezone d) (scL2 d)"
    "scan_ids [] (map rgID (lcGroups (scL1 d)) @ map rgID (lcGroups (scL2 d))) = Inr ()"
    "EscalationTimeoutMinMins \<le> scL2Timeout d" "scL2Timeout d \<le> EscalationTimeoutMaxMins"
    "\<exists>loc. validateTimezone (eZones ext) (scTimezone d) = Inr loc"
    by (auto simp: ValidateConfiguration_def layer_config_ok_def validateGroup_def not_less split: if_splits)
qed

lemma snapshot_layers_valid:
  assumes "snapshot_validate ext s = Inr ()"
  shows "validateLayer ext ''l1'' (ssL1 s) (ssTimezone s) = Inr ()"
    "validateLayer ext ''l2'' (ssL2 s) (ssTimezone s) = Inr ()"
  using assms by (auto simp: snapshot_validate_def split: if_splits)

abbreviation current_tz :: "transition_input \<Rightarrow> string" where
  "current_tz inp \<equiv> (case tiCurrent inp of None \<Rightarrow> '''' | Some cur \<Rightarrow> ssTimezone cur)"

definition current_valid :: "externals \<Rightarrow> transition_input \<Rightarrow> bool" where
  "current_valid ext inp =
     (case tiCurrent inp of None \<Rightarrow> True | Some cur \<Rightarrow> snapshot_validate ext cur = Inr ())"

definition unchanged :: "transition_input \<Rightarrow> schedule_configuration \<Rightarrow> bool" where
  "unchanged inp d =
     (case tiCurrent inp of None \<Rightarrow> False | Some cur \<Rightarrow> ConfigEqual (ConfigurationFromSnapshot cur) d)"

lemma PlanTransition_cases:
  "PlanTransition ext inp =
     (if tiEffectiveAt inp = zero_time then Inl NoEffectiveAt
      else then_ok (NormalizeConfiguration ext (tiDesired inp)) (\<lambda>d.
      then_ok (checked_current ext (tiCurrent inp)) (\<lambda>currentCfg.
      if unchanged inp d then Inr NoopPlan
      else then_ok (planLayer ext (map_option ssL1 (tiCurrent inp)) (current_tz inp) (scL1 d)
           (scTimezone d) (tiEffectiveAt inp)) (\<lambda>(l1, t1).
         then_ok (planLayer ext (map_option ssL2 (tiCurrent inp)) (current_tz inp) (scL2 d)
           (scTimezone d) (tiEffectiveAt inp)) (\<lambda>(l2, t2).
         case snapshot_validate ext (assemble d l1 l2) of
              Inl e \<Rightarrow> Inl (PlannedInvalid e)
            | Inr _ \<Rightarrow> Inr (Plan (assemble d l1 l2) t1 t2 (summarize currentCfg d t1 t2)))))))"
proof (cases "tiCurrent inp")
  case None
  then show ?thesis unfolding PlanTransition_def checked_current_def unchanged_def Let_def by simp
next
  case (Some cur)
  then show ?thesis unfolding PlanTransition_def checked_current_def unchanged_def Let_def
    by (cases "snapshot_validate ext cur") simp_all
qed

lemma PlanTransition_succeeds:
  assumes "tiEffectiveAt inp \<noteq> zero_time" "NormalizeConfiguration ext (tiDesired inp) = Inr d"
    and "current_valid ext inp" "\<not> unchanged inp d"
  obtains l1 t1 l2 t2 ch where
    "planLayer ext (map_option ssL1 (tiCurrent inp)) (current_tz inp) (scL1 d) (scTimezone d)
       (tiEffectiveAt inp) = Inr (l1, t1)"
    "planLayer ext (map_option ssL2 (tiCurrent inp)) (current_tz inp) (scL2 d) (scTimezone d)
       (tiEffectiveAt inp) = Inr (l2, t2)"
    "PlanTransition ext inp = Inr (Plan (assemble d l1 l2) t1 t2 ch)"
    "snapshot_validate ext (assemble d l1 l2) = Inr ()"
    "ConfigurationFromSnapshot (assemble d l1 l2) = d"
proof -
  note n = Normalize_ok [OF assms(2)]
  have c1: "case map_option ssL1 (tiCurrent inp) of None \<Rightarrow> True
      | Some cur \<Rightarrow> validateLayer ext ''l1'' cur (current_tz inp) = Inr ()"
    and c2: "case map_option ssL2 (tiCurrent inp) of None \<Rightarrow> True
      | Some cur \<Rightarrow> validateLayer ext ''l2'' cur (current_tz inp) = Inr ()"
    using assms(3) snapshot_layers_valid by (auto simp: current_valid_def split: option.splits)
  obtain l1 t1 where l1: "planLayer ext (map_option ssL1 (tiCurrent inp)) (current_tz inp) (scL1 d)
      (scTimezone d) (tiEffectiveAt inp) = Inr (l1, t1)" "layer_configuration_of l1 = scL1 d"
    "validateLayer ext ''l1'' l1 (scTimezone d) = Inr ()" using planLayer_ok [OF n(1) c1] by blast
  obtain l2 t2 where l2: "planLayer ext (map_option ssL2 (tiCurrent inp)) (current_tz inp) (scL2 d)
      (scTimezone d) (tiEffectiveAt inp) = Inr (l2, t2)" "layer_configuration_of l2 = scL2 d"
    "validateLayer ext ''l2'' l2 (scTimezone d) = Inr ()" using planLayer_ok [OF n(2) c2] by blast
  have groups: "lyGroups l1 = lcGroups (scL1 d)" "lyGroups l2 = lcGroups (scL2 d)"
    using l1(2) l2(2) by (simp_all add: layer_configuration_of_def flip: l1(2) l2(2))
  have v: "snapshot_validate ext (assemble d l1 l2) = Inr ()"
    using n(3-6) l1(3) l2(3) by (auto simp: snapshot_validate_def assemble_def groups)
  have "checked_current ext (tiCurrent inp) = Inr (map_option ConfigurationFromSnapshot (tiCurrent inp))"
    using assms(3) by (auto simp: checked_current_def current_valid_def split: option.splits)
  then have "PlanTransition ext inp = Inr (Plan (assemble d l1 l2) t1 t2
      (summarize (map_option ConfigurationFromSnapshot (tiCurrent inp)) d t1 t2))"
    using assms l1(1) l2(1) v by (simp add: PlanTransition_cases)
  moreover have "ConfigurationFromSnapshot (assemble d l1 l2) = d"
    using l1(2) l2(2) by (simp add: ConfigurationFromSnapshot_def assemble_def)
  ultimately show ?thesis using that l1(1) l2(1) v by blast
qed

lemma PlanTransition_fails:
  assumes "tiEffectiveAt inp = zero_time \<or> \<not> succeeds (NormalizeConfiguration ext (tiDesired inp))
    \<or> \<not> current_valid ext inp"
  shows "\<not> succeeds (PlanTransition ext inp)"
proof -
  consider "tiEffectiveAt inp = zero_time" | e where "NormalizeConfiguration ext (tiDesired inp) = Inl e"
    | cur e where "tiCurrent inp = Some cur" "snapshot_validate ext cur = Inl e"
    using assms by (cases "NormalizeConfiguration ext (tiDesired inp)"; cases "tiCurrent inp";
        cases "snapshot_validate ext (the (tiCurrent inp))") (auto simp: current_valid_def)
  then show ?thesis
    by cases (auto simp: PlanTransition_cases checked_current_def succeeds_then_ok)
qed

text \<open>
  C24. Planning is total and closed.  A save is refused only for a missing time, a desired
  configuration that does not validate or a current snapshot that does not; every other save
  has a plan.  The planned snapshot validates, holds exactly the normalised desired
  configuration, and saving the same configuration again on top of it changes nothing.
\<close>

theorem planned_snapshot_is_valid:
  "succeeds (PlanTransition ext inp) =
     (tiEffectiveAt inp \<noteq> zero_time \<and> succeeds (NormalizeConfiguration ext (tiDesired inp)) \<and>
      (case tiCurrent inp of None \<Rightarrow> True | Some cur \<Rightarrow> succeeds (snapshot_validate ext cur))) \<and>
   (case PlanTransition ext inp of
      Inr (Plan snap t1 t2 ch) \<Rightarrow>
        snapshot_validate ext snap = Inr () \<and>
        NormalizeConfiguration ext (tiDesired inp) = Inr (ConfigurationFromSnapshot snap) \<and>
        PlanTransition ext (inp\<lparr>tiCurrent := Some snap\<rparr>) = Inr NoopPlan
    | _ \<Rightarrow> True)"
proof -
  have cv: "(case tiCurrent inp of None \<Rightarrow> True | Some cur \<Rightarrow> succeeds (snapshot_validate ext cur))
      = current_valid ext inp" by (auto simp: current_valid_def succeeds_iff split: option.splits)
  let ?ok = "tiEffectiveAt inp \<noteq> zero_time \<and> succeeds (NormalizeConfiguration ext (tiDesired inp)) \<and>
    current_valid ext inp"
  show ?thesis unfolding cv
  proof (cases ?ok)
    case False
    then have "\<not> succeeds (PlanTransition ext inp)" using PlanTransition_fails by blast
    with False show "succeeds (PlanTransition ext inp) = ?ok \<and> (case PlanTransition ext inp of
      Inr (Plan snap t1 t2 ch) \<Rightarrow>
        snapshot_validate ext snap = Inr () \<and>
        NormalizeConfiguration ext (tiDesired inp) = Inr (ConfigurationFromSnapshot snap) \<and>
        PlanTransition ext (inp\<lparr>tiCurrent := Some snap\<rparr>) = Inr NoopPlan
      | _ \<Rightarrow> True)" by (cases "PlanTransition ext inp") auto
  next
    case True
    then obtain d where d: "NormalizeConfiguration ext (tiDesired inp) = Inr d" by (auto simp: succeeds_iff)
    have checked: "\<exists>c. checked_current ext (tiCurrent inp) = Inr c"
      using True by (auto simp: checked_current_def current_valid_def split: option.splits)
    show "succeeds (PlanTransition ext inp) = ?ok \<and> (case PlanTransition ext inp of
      Inr (Plan snap t1 t2 ch) \<Rightarrow>
        snapshot_validate ext snap = Inr () \<and>
        NormalizeConfiguration ext (tiDesired inp) = Inr (ConfigurationFromSnapshot snap) \<and>
        PlanTransition ext (inp\<lparr>tiCurrent := Some snap\<rparr>) = Inr NoopPlan
      | _ \<Rightarrow> True)"
    proof (cases "unchanged inp d")
      case un: True
      then have "PlanTransition ext inp = Inr NoopPlan" using True d checked by (auto simp: PlanTransition_cases)
      with True show ?thesis by simp
    next
      case False
      then obtain l1 t1 l2 t2 ch where
        p: "PlanTransition ext inp = Inr (Plan (assemble d l1 l2) t1 t2 ch)"
          "snapshot_validate ext (assemble d l1 l2) = Inr ()"
          "ConfigurationFromSnapshot (assemble d l1 l2) = d"
        using PlanTransition_succeeds [OF _ d, of thesis] True by blast
      have "PlanTransition ext (inp\<lparr>tiCurrent := Some (assemble d l1 l2)\<rparr>) = Inr NoopPlan"
        using True d p(2,3) by (simp add: PlanTransition_cases checked_current_def unchanged_def ConfigEqual_def)
      with p True d show ?thesis by simp
    qed
  qed
qed

section \<open>Who is on duty after a save\<close>

definition on_duty :: "externals \<Rightarrow> string \<Rightarrow> layer_snapshot \<Rightarrow> int \<Rightarrow> rotation_group option" where
  "on_duty ext tz layer t =
     (case NewGrid (eZones ext) tz (lyPolicy layer) of
        Inl _ \<Rightarrow> None
      | Inr g \<Rightarrow> (case ActiveGroupAt g layer t of Inr (Some (grp, _)) \<Rightarrow> Some grp | _ \<Rightarrow> None))"

abbreviation serving :: "layer_snapshot \<Rightarrow> bool" where
  "serving l \<equiv> lyEnabled l \<and> lyGroups l \<noteq> []"

text \<open>How the duty of a layer passes from one revision to the next at the instant \<open>t\<close>.\<close>

definition duty_passes ::
    "externals \<Rightarrow> string \<Rightarrow> layer_snapshot \<Rightarrow> string \<Rightarrow> layer_snapshot \<Rightarrow> int \<Rightarrow> layer_transition \<Rightarrow> bool" where
  "duty_passes ext oldTZ old newTZ new t lt =
     (if \<not> serving new then on_duty ext newTZ new t = None
      else if \<not> serving old then on_duty ext newTZ new t = Some (hd (lyGroups new))
      else (\<exists>pos < length (lyGroups old). \<exists>grp \<in> set (lyGroups new).
             on_duty ext oldTZ old t = Some (lyGroups old ! pos) \<and>
             on_duty ext newTZ new t = Some grp \<and>
             rgID grp = heir (lyGroups old) pos (lyGroups new)) \<and>
           (ltPhaseAction lt = PhaseActionCarry \<longrightarrow>
             (\<forall>u. map_option rgID (on_duty ext newTZ new u) = map_option rgID (on_duty ext oldTZ old u))))"

lemma on_duty_at:
  assumes "NewGrid (eZones ext) tz (lyPolicy l) = Inr g" "PositionAt g l t = Inr (k, s)" "serving l"
  shows "on_duty ext tz l t = Some (lyGroups l ! nat k)"
  using assms by (simp add: on_duty_def ActiveGroupAt_def)

lemma on_duty_none: "\<not> serving l \<Longrightarrow> on_duty ext tz l t = None"
  by (auto simp: on_duty_def ActiveGroupAt_def split: sum.splits)

lemma planLayer_duty:
  assumes ok: "layer_config_ok ext name tz c"
    and v: "validateLayer ext name cur curTZ = Inr ()"
    and plan: "planLayer ext (Some cur) curTZ c tz t = Inr (l, lt)"
  shows "duty_passes ext curTZ cur tz l t lt"
proof -
  from v have "case Some cur of None \<Rightarrow> True | Some cur \<Rightarrow> validateLayer ext name cur curTZ = Inr ()" by simp
  from planLayer_ok [OF ok this] obtain l' lt' where
    "planLayer ext (Some cur) curTZ c tz t = Inr (l', lt')" "layer_configuration_of l' = c" by metis
  with plan have c: "lyEnabled l = lcEnabled c" "lyPolicy l = lcPolicy c" "lyGroups l = lcGroups c"
    by (auto simp: layer_configuration_of_def)
  have anchored: "ltPhaseAction lt = PhaseActionReanchor \<and> on_duty ext tz l t = Some (lcGroups c ! nat position)"
    if r: "reanchor ext c tz t sel position = Inr (l, lt)" "lcEnabled c" "lcGroups c \<noteq> []"
      "0 \<le> position" "position < int (length (lcGroups c))" for sel position
  proof -
    from reanchor_in_phase [OF ok r(2-5), of t sel] obtain gr where
      "NewGrid (eZones ext) tz (lcPolicy c) = Inr (methods gr)"
      "PositionAt (methods gr) l t = Inr (position, SlotContaining (methods gr) t)"
      "ltPhaseAction lt = PhaseActionReanchor" using r(1) by (metis Inr_inject layer_transition.select_convs(1) prod.inject)
    then show ?thesis using on_duty_at [of ext tz l "methods gr" t position] r(2,3) c by simp
  qed
  show ?thesis
  proof (cases "serving l \<and> serving cur")
    case False
    show ?thesis
    proof (cases "serving l")
      case True
      with False have "\<not> serving cur" by blast
      then have "planLayer ext (Some cur) curTZ c tz t = reanchor ext c tz t SelectionFirst 0"
        using True c by (auto simp: planLayer_def)
      with anchored [of SelectionFirst 0] plan True c \<open>\<not> serving cur\<close> show ?thesis
        by (simp add: duty_passes_def hd_conv_nth)
    qed (auto simp: duty_passes_def on_duty_none)
  next
    case True
    then have act: "lcEnabled c" "lcGroups c \<noteq> []" "lyEnabled cur" "lyGroups cur \<noteq> []" using c by simp_all
    obtain gr a p where gr: "NewGrid (eZones ext) curTZ (lyPolicy cur) = Inr (methods gr)"
      and ph: "in_phase (methods gr) cur a p" using valid_active [OF v act(3,4)] by blast
    obtain k where k: "PositionAt (methods gr) cur t = Inr (k, SlotContaining (methods gr) t)"
      "0 \<le> k" "k < int (length (lyGroups cur))" using built.position_total [OF ph] by blast
    have old: "on_duty ext curTZ cur t = Some (lyGroups cur ! nat k)" using on_duty_at [OF gr k(1)] act by simp
    from planLayer_active [OF act gr k, of tz] plan
    consider (carry) "curTZ = tz" "lyPolicy cur = lcPolicy c" "map rgID (lyGroups cur) = map rgID (lcGroups c)"
        "l = carried cur c"
      | (anchor) sel position where "reanchor ext c tz t sel position = Inr (l, lt)"
        "0 \<le> position" "position < int (length (lcGroups c))"
        "rgID (lcGroups c ! nat position) = heir (lyGroups cur) (nat k) (lcGroups c)" by auto
    then show ?thesis
    proof cases
      case carry
      have len: "length (lyGroups cur) = length (lcGroups c)" using carry(3) by (metis length_map)
      have ids: "rgID (lcGroups c ! i) = rgID (lyGroups cur ! i)" if "i < length (lcGroups c)" for i
        using carry(3) that len by (metis nth_map)
      have same: "on_duty ext tz l u = Some (lcGroups c ! nat j) \<and> on_duty ext curTZ cur u = Some (lyGroups cur ! nat j)"
        if "PositionAt (methods gr) cur u = Inr (j, s)" for u j s
        using on_duty_at [OF gr that] on_duty_at [of ext tz l "methods gr" u j s] gr carry c act that
          carried_in_phase(2) [OF ph act(1) carry(3)] by simp
      have "map_option rgID (on_duty ext tz l u) = map_option rgID (on_duty ext curTZ cur u)" for u
      proof -
        obtain j where j: "PositionAt (methods gr) cur u = Inr (j, SlotContaining (methods gr) u)"
          "0 \<le> j" "j < int (length (lyGroups cur))" using built.position_total [OF ph] by blast
        with same [OF j(1)] ids [of "nat j"] len show ?thesis by simp
      qed
      moreover have "heir (lyGroups cur) (nat k) (lcGroups c) = rgID (lyGroups cur ! nat k)"
      proof -
        have "rgID (lyGroups cur ! nat k) \<in> rgID ` set (lcGroups c)"
          using ids [of "nat k"] len k(2,3) by (metis image_eqI nat_less_iff nth_mem)
        then show ?thesis using rotate_candidates [of "nat k" "lyGroups cur"] k(2,3) by (simp add: heir_def)
      qed
      ultimately show ?thesis using same [OF k(1)] ids [of "nat k"] len k(2,3) act c
        by (auto simp: duty_passes_def intro!: exI [of _ "nat k"])
    next
      case anchor
      with anchored [OF anchor(1) act(1,2) anchor(2,3)] old act c k(2,3) show ?thesis
        by (auto simp: duty_passes_def intro!: exI [of _ "nat k"])
    qed
  qed
qed

text \<open>
  C20. A save never changes who is on call behind anybody's back.  For each layer, at the
  instant the new revision takes effect: the group on duty stays on duty if the new
  configuration still has it; if it was removed, the duty goes to the next group of the old
  order that is still there, and to the first new group only if none is; a layer that was
  not serving starts with its first group; and where the phase is carried, the same groups
  are on duty at every instant, past and future.
\<close>

theorem save_keeps_who_is_on_call:
  assumes "PlanTransition ext \<lparr>tiCurrent = Some cur, tiDesired = desired, tiEffectiveAt = t\<rparr>
     = Inr (Plan snap t1 t2 ch)"
  shows "duty_passes ext (ssTimezone cur) (ssL1 cur) (ssTimezone snap) (ssL1 snap) t t1 \<and>
     duty_passes ext (ssTimezone cur) (ssL2 cur) (ssTimezone snap) (ssL2 snap) t t2"
proof -
  let ?inp = "\<lparr>tiCurrent = Some cur, tiDesired = desired, tiEffectiveAt = t\<rparr>"
  have s: "succeeds (PlanTransition ext ?inp)" using assms by simp
  then have g: "tiEffectiveAt ?inp \<noteq> zero_time" "current_valid ext ?inp"
    "succeeds (NormalizeConfiguration ext (tiDesired ?inp))" using PlanTransition_fails by blast+
  then obtain d where d: "NormalizeConfiguration ext (tiDesired ?inp) = Inr d" by (auto simp: succeeds_iff)
  have "\<not> unchanged ?inp d"
  proof
    assume "unchanged ?inp d"
    then have "PlanTransition ext ?inp \<in> {Inl NoEffectiveAt, Inr NoopPlan} \<union> range Inl"
      using g d by (auto simp: PlanTransition_cases checked_current_def current_valid_def)
    with assms show False by auto
  qed
  then obtain l1 t1' l2 t2' ch' where
    p: "planLayer ext (map_option ssL1 (tiCurrent ?inp)) (current_tz ?inp) (scL1 d) (scTimezone d)
         (tiEffectiveAt ?inp) = Inr (l1, t1')"
      "planLayer ext (map_option ssL2 (tiCurrent ?inp)) (current_tz ?inp) (scL2 d) (scTimezone d)
         (tiEffectiveAt ?inp) = Inr (l2, t2')"
      "PlanTransition ext ?inp = Inr (Plan (assemble d l1 l2) t1' t2' ch')"
      "snapshot_validate ext (assemble d l1 l2) = Inr ()"
      "ConfigurationFromSnapshot (assemble d l1 l2) = d" by (rule PlanTransition_succeeds [OF g(1) d g(2)])
  then have l: "planLayer ext (Some (ssL1 cur)) (ssTimezone cur) (scL1 d) (scTimezone d) t = Inr (l1, t1)"
      "planLayer ext (Some (ssL2 cur)) (ssTimezone cur) (scL2 d) (scTimezone d) t = Inr (l2, t2)"
      "snap = assemble d l1 l2" using assms by simp_all
  have v: "snapshot_validate ext cur = Inr ()" using g(2) by (simp add: current_valid_def)
  show ?thesis
    using planLayer_duty [OF Normalize_ok(1) [OF d] snapshot_layers_valid(1) [OF v] l(1)]
      planLayer_duty [OF Normalize_ok(2) [OF d] snapshot_layers_valid(2) [OF v] l(2)]
    by (simp add: l(3) assemble_def)
qed

section \<open>Removing the person on duty\<close>

definition nobody :: layer_snapshot where
  "nobody = \<lparr>lyEnabled = False, lyPolicy = at_nine, lyGroups = [], lyAnchor = None, lyPosition = None\<rparr>"

definition bob_on_duty :: schedule_snapshot where
  "bob_on_duty = \<lparr>ssSchemaVersion = 1, ssTimezone = ''UTC'', ssSlackUsergroupID = '''',
     ssL1 = two_people, ssL2 = nobody, ssL2Timeout = 30\<rparr>"

definition without_bob :: schedule_configuration where
  "without_bob = \<lparr>scTimezone = ''UTC'', scSlackUsergroupID = '''',
     scL1 = \<lparr>lcEnabled = True, lcPolicy = at_nine, lcGroups = [\<lparr>rgID = ''a'', rgMembers = [''ann'']\<rparr>]\<rparr>,
     scL2 = \<lparr>lcEnabled = False, lcPolicy = at_nine, lcGroups = []\<rparr>, scL2Timeout = 30\<rparr>"

lemma bob_valid: "snapshot_validate everywhere_utc bob_on_duty = Inr ()"
proof -
  have "slStart (SlotContaining (methods (grid_of utc at_nine)) (wall 20000 9 0 * second)) = wall 20000 9 0 * second"
    using at_nine_boundary is_start by (simp add: methods_def)
  then have "in_phase (methods (grid_of utc at_nine)) two_people (wall 20000 9 0 * second) 1"
    by (simp add: in_phase_def two_people_def)
  moreover have "lyPolicy two_people = at_nine" by (simp add: two_people_def)
  ultimately have "validateLayer everywhere_utc ''l1'' two_people ''UTC'' = Inr ()"
    using at_nine_valid at_nine_NewGrid
    by (auto simp: validateLayer_iff two_people_def validateGroup_def validateL1Group_def
      isCanonicalUUID_def validateGroupMembers_def everywhere_utc_def)
  moreover have "validateLayer everywhere_utc ''l2'' nobody ''UTC'' = Inr ()"
    using at_nine_valid by (simp add: validateLayer_iff nobody_def)
  ultimately show ?thesis
    by (simp add: snapshot_validate_def bob_on_duty_def SnapshotSchemaVersion_def validateTimezone_def
      everywhere_utc_def EscalationTimeoutMinMins_def EscalationTimeoutMaxMins_def two_people_def nobody_def)
qed

lemma without_bob_normal: "NormalizeConfiguration everywhere_utc without_bob = Inr without_bob"
proof -
  have "canonicalizeConfiguration without_bob = without_bob"
    by (simp add: canonicalizeConfiguration_def without_bob_def canonical_layer_def at_nine_def
      sort_members_def RotationDaily_def)
  moreover have "ValidateConfiguration everywhere_utc without_bob = Inr ()"
    using at_nine_valid by (simp add: ValidateConfiguration_def without_bob_def validateTimezone_def everywhere_utc_def
      EscalationTimeoutMinMins_def EscalationTimeoutMaxMins_def validateL1Group_def isCanonicalUUID_def
      validateGroupMembers_def)
  ultimately show ?thesis by (simp add: NormalizeConfiguration_def Let_def)
qed

theorem save_keeps_who_is_on_call_witness:
  "\<exists>snap. on_duty everywhere_utc (ssTimezone snap) (ssL1 snap) (wall 20000 9 0 * second)
     = Some \<lparr>rgID = ''a'', rgMembers = [''ann'']\<rparr> \<and> ConfigurationFromSnapshot snap = without_bob"
proof -
  let ?t = "wall 20000 9 0 * second"
  let ?inp = "\<lparr>tiCurrent = Some bob_on_duty, tiDesired = without_bob, tiEffectiveAt = ?t\<rparr>"
  have "tiEffectiveAt ?inp \<noteq> zero_time" by (simp add: zero_time_def wall_def)
  moreover have "NormalizeConfiguration everywhere_utc (tiDesired ?inp) = Inr without_bob"
    by (simp add: without_bob_normal)
  moreover have "current_valid everywhere_utc ?inp" by (simp add: current_valid_def bob_valid)
  moreover have "\<not> unchanged ?inp without_bob"
    by (simp add: unchanged_def ConfigEqual_def canonicalizeConfiguration_def Let_def bob_on_duty_def
      ConfigurationFromSnapshot_def layer_configuration_of_def two_people_def without_bob_def
      canonical_layer_def at_nine_def RotationDaily_def)
  ultimately obtain l1 t1 l2 t2 ch where
    "planLayer everywhere_utc (map_option ssL1 (tiCurrent ?inp)) (current_tz ?inp) (scL1 without_bob)
       (scTimezone without_bob) (tiEffectiveAt ?inp) = Inr (l1, t1)"
    "planLayer everywhere_utc (map_option ssL2 (tiCurrent ?inp)) (current_tz ?inp) (scL2 without_bob)
       (scTimezone without_bob) (tiEffectiveAt ?inp) = Inr (l2, t2)"
    and plan: "PlanTransition everywhere_utc ?inp = Inr (Plan (assemble without_bob l1 l2) t1 t2 ch)"
    and "snapshot_validate everywhere_utc (assemble without_bob l1 l2) = Inr ()"
    and cfg: "ConfigurationFromSnapshot (assemble without_bob l1 l2) = without_bob"
    by (rule PlanTransition_succeeds)
  let ?snap = "assemble without_bob l1 l2"
  have "layer_configuration_of l1 = scL1 without_bob"
    using cfg by (simp add: ConfigurationFromSnapshot_def assemble_def without_bob_def)
  then have l1: "lyEnabled l1" "lyGroups l1 = [\<lparr>rgID = ''a'', rgMembers = [''ann'']\<rparr>]"
    by (simp_all add: layer_configuration_of_def without_bob_def)
  have "duty_passes everywhere_utc (ssTimezone bob_on_duty) (ssL1 bob_on_duty) (ssTimezone ?snap) (ssL1 ?snap) ?t t1"
    using save_keeps_who_is_on_call [OF plan] by blast
  moreover have "ssL1 ?snap = l1" "serving (ssL1 bob_on_duty)"
    by (simp_all add: assemble_def bob_on_duty_def two_people_def)
  ultimately have "on_duty everywhere_utc (ssTimezone ?snap) (ssL1 ?snap) ?t = Some \<lparr>rgID = ''a'', rgMembers = [''ann'']\<rparr>"
    using l1 by (auto simp: duty_passes_def)
  with cfg show ?thesis by blast
qed

end
