(* ===== verification/Revisions.thy ===== *)
theory Revisions
  imports People Transition "HOL-Library.Product_Lexorder"
begin

text \<open>
  The tables of a schedule's history and the reads and writes over them:
  \<open>internal/scheduleconfig/repository.go\<close> and \<open>validate.go\<close>,
  \<open>internal/store/schedule_revision_store.go\<close>, \<open>schedule_read_store.go\<close> and
  \<open>override_revision_store.go\<close>.

  A snapshot is stored as JSON and read back through the codec of \<open>internal/rotation\<close>; here the
  column holds the snapshot itself, beside the mark of the rows whose text the codec refuses.
  The calendar, the projection and the preview read a row as the store scans it, refusals
  included; the commands read rows that decode.  Row locks and the sorted order in which they are taken are
  not modelled: a command is one step.  A refused command leaves nothing behind, so a command
  answers an error or its result with the tables after it.
\<close>

section \<open>Tables\<close>

record schedule_root =
  rtID :: string
  rtTeam :: string
  rtVersion :: int
  rtHistoryFrom :: int
  rtDeletedAt :: "int option"

definition RevisionActive :: string where "RevisionActive = ''active''"
definition RevisionDeleted :: string where "RevisionDeleted = ''deleted''"
definition LayerL1 :: string where "LayerL1 = ''l1''"
definition LayerL2 :: string where "LayerL2 = ''l2''"

record schedule_revision =
  rvID :: string
  rvSchedule :: string
  rvVersion :: int
  rvKind :: string
  rvSnapshot :: schedule_snapshot
  rvFrom :: int
  rvTo :: "int option"
  rvRecordedAt :: int
  rvCreatedBy :: "string option"
  rvReason :: "string option"
  rvSummary :: "change_summary option"

record override_revision =
  ovRevisionID :: string
  ovOverrideID :: string
  ovSchedule :: string
  ovRevision :: int
  ovLayer :: string
  ovUser :: string
  ovFrom :: int
  ovTo :: int
  ovReason :: "string option"
  ovDeleted :: bool
  ovRecordedAt :: int
  ovRecordedBy :: "string option"

text \<open>
  The tables a command sees; of the integrations, the teams they hold in place.  A snapshot and
  the summary of a change are stored as text: \<open>fBroken\<close> says of which revisions that text is no
  longer what the strict codec (\<open>rotation/codec.go\<close>) or the JSON reader accepts.
\<close>

datatype broken_text = BrokenSnapshot | BrokenSummary

record office =
  fPeople :: people
  fRoots :: "schedule_root list"
  fRevisions :: "schedule_revision list"
  fOverrides :: "override_revision list"
  fHooks :: "string list"
  fBroken :: "string \<Rightarrow> broken_text option"

datatype schedule_error = InvalidField string | InvalidConfiguration rotation_error
  | ErrScheduleExists | ErrScheduleNotFound | ErrTeamNotFound | VersionConflict int int
  | ErrVersionConflict | ErrRevisionMismatch | ErrRevisionNotFound | ErrInvariantViolation
  | ErrRevisionOverlap | ErrScheduleDeleted | ErrOverrideNotFound
  | OverrideRevisionConflict int int | OverrideOverlap "(string \<times> string \<times> int \<times> int) list"
  | OverrideAlreadyEnded string int int | OverrideEndsInThePast string int int
  | UserNotTeamMember "string list" | MemberOnCall "(string \<times> string) list" | ErrActorNotActive
  | TeamHasScheduleHistory string | ErrTeamHasIntegrations | ErrSnapshotDecode | ErrRevisionMetadataDecode

text \<open>What a service is built over: the clock, the source of identifiers, the libraries.\<close>

record clerk =
  ckNow :: int
  ckNewID :: "nat \<Rightarrow> string"
  ckExt :: externals
  ckUuid :: string

section \<open>Time\<close>

text \<open>\<open>Truncate\<close> rounds down from the zero time, which is a whole number of microseconds.\<close>

definition TimestampResolution :: int where "TimestampResolution = 1000"

definition NormalizeTimestamp :: "int \<Rightarrow> int" where
  "NormalizeTimestamp t = t - t mod TimestampResolution"

definition NextEffectiveAt :: "int option \<Rightarrow> int \<Rightarrow> int" where
  "NextEffectiveAt tailEffectiveFrom now =
     (let candidate = NormalizeTimestamp now
      in case tailEffectiveFrom of
           None \<Rightarrow> candidate
         | Some from \<Rightarrow>
             let bottom = NormalizeTimestamp from + TimestampResolution
             in if candidate < bottom then bottom else candidate)"

definition normalizeRecordedAt :: "clerk \<Rightarrow> int \<Rightarrow> int" where
  "normalizeRecordedAt ck t = NormalizeTimestamp (if t = zero_time then ckNow ck else t)"

section \<open>Preparing a row\<close>

definition CanonicalizeSnapshot :: "externals \<Rightarrow> schedule_snapshot \<Rightarrow> rotation_error + schedule_snapshot" where
  "CanonicalizeSnapshot ext s = then_ok (snapshot_validate ext s) (\<lambda>_. Inr s)"

definition PrepareRevision :: "clerk \<Rightarrow> schedule_revision \<Rightarrow> schedule_error + schedule_revision" where
  "PrepareRevision ck r =
     (if rvID r = [] \<or> rvSchedule r = [] then Inl ErrInvariantViolation
      else if rvVersion r < 1 then Inl ErrInvariantViolation
      else let kind = (if rvKind r = [] then RevisionActive else rvKind r)
      in if kind \<noteq> RevisionActive \<and> kind \<noteq> RevisionDeleted then Inl ErrInvariantViolation
         else case CanonicalizeSnapshot (ckExt ck) (rvSnapshot r) of Inl _ \<Rightarrow> Inl ErrInvariantViolation
         | Inr canonical \<Rightarrow>
           let from = NormalizeTimestamp (rvFrom r)
           in if from = zero_time then Inl ErrInvariantViolation
              else let until' = map_option NormalizeTimestamp (rvTo r)
              in if (case until' of None \<Rightarrow> False | Some t \<Rightarrow> \<not> from < t) then Inl ErrInvariantViolation
                 else Inr (r\<lparr>rvKind := kind, rvSnapshot := canonical, rvFrom := from, rvTo := until',
                             rvRecordedAt := normalizeRecordedAt ck (rvRecordedAt r)\<rparr>))"

definition PrepareInitialSchedule ::
    "clerk \<Rightarrow> schedule_root \<Rightarrow> schedule_revision \<Rightarrow> schedule_error + (schedule_root \<times> schedule_revision)" where
  "PrepareInitialSchedule ck root r =
     (if rtID root = [] \<or> rtTeam root = [] then Inl ErrInvariantViolation
      else then_ok (PrepareRevision ck r) (\<lambda>r.
      if rvSchedule r \<noteq> rtID root then Inl ErrInvariantViolation
      else if rvVersion r \<noteq> 1 then Inl ErrInvariantViolation
      else if rvTo r \<noteq> None then Inl ErrInvariantViolation
      else if rvKind r \<noteq> RevisionActive then Inl ErrInvariantViolation
      else Inr (root\<lparr>rtVersion := 1, rtHistoryFrom := rvFrom r, rtDeletedAt := None\<rparr>, r)))"

definition PrepareOverrideRevision :: "clerk \<Rightarrow> override_revision \<Rightarrow> schedule_error + override_revision" where
  "PrepareOverrideRevision ck r =
     (if ovOverrideID r = [] \<or> ovSchedule r = [] \<or> ovUser r = [] then Inl ErrInvariantViolation
      else if ovRevision r < 1 then Inl ErrInvariantViolation
      else let layer = (if ovLayer r = [] then LayerL1 else ovLayer r)
      in if layer \<noteq> LayerL1 \<and> layer \<noteq> LayerL2 then Inl ErrInvariantViolation
         else let from = NormalizeTimestamp (ovFrom r); until' = NormalizeTimestamp (ovTo r)
         in if from = zero_time then Inl ErrInvariantViolation
            else if \<not> from < until' then Inl ErrInvariantViolation
            else Inr (r\<lparr>ovRevisionID := (if ovRevisionID r = [] then ckUuid ck else ovRevisionID r),
                        ovLayer := layer, ovFrom := from, ovTo := until',
                        ovRecordedAt := normalizeRecordedAt ck (ovRecordedAt r)\<rparr>))"

section \<open>Reading\<close>

definition GetScheduleRoot :: "string \<Rightarrow> office \<Rightarrow> schedule_error + schedule_root" where
  "GetScheduleRoot sid f = (case find (\<lambda>r. rtID r = sid) (fRoots f) of
     None \<Rightarrow> Inl ErrScheduleNotFound | Some r \<Rightarrow> Inr r)"

definition GetScheduleRootByTeam :: "string \<Rightarrow> office \<Rightarrow> schedule_error + schedule_root" where
  "GetScheduleRootByTeam tid f = (case find (\<lambda>r. rtTeam r = tid) (fRoots f) of
     None \<Rightarrow> Inl ErrScheduleNotFound | Some r \<Rightarrow> Inr r)"

definition GetTailRevision :: "string \<Rightarrow> office \<Rightarrow> schedule_error + schedule_revision" where
  "GetTailRevision sid f = (case find (\<lambda>r. rvSchedule r = sid \<and> rvTo r = None) (fRevisions f) of
     None \<Rightarrow> Inl ErrRevisionNotFound | Some r \<Rightarrow> Inr r)"

text \<open>A half-open interval, open-ended without an upper end.\<close>

definition in_force :: "int \<Rightarrow> schedule_revision \<Rightarrow> bool" where
  "in_force t r \<longleftrightarrow> rvFrom r \<le> t \<and> (case rvTo r of None \<Rightarrow> True | Some e \<Rightarrow> t < e)"

definition GetEffectiveRevision :: "string \<Rightarrow> int \<Rightarrow> office \<Rightarrow> schedule_error + schedule_revision" where
  "GetEffectiveRevision sid at' f =
     (case filter (\<lambda>r. rvSchedule r = sid \<and> in_force (NormalizeTimestamp at') r) (fRevisions f) of
        [] \<Rightarrow> Inl ErrRevisionNotFound
      | [r] \<Rightarrow> Inr r
      | _ \<Rightarrow> Inl ErrRevisionOverlap)"

definition GetRevisionsInRange :: "string \<Rightarrow> int \<Rightarrow> int \<Rightarrow> office \<Rightarrow> schedule_revision list" where
  "GetRevisionsInRange sid from until' f =
     sort_key rvFrom (filter (\<lambda>r. rvSchedule r = sid \<and> rvFrom r < NormalizeTimestamp until' \<and>
       (case rvTo r of None \<Rightarrow> True | Some e \<Rightarrow> NormalizeTimestamp from < e)) (fRevisions f))"

text \<open>
  What reading a row adds: the snapshot is decoded and validated again, then the summary is
  decoded.  Of two rows in force the second is read before they are found to overlap.
\<close>

definition scanScheduleRevision :: "externals \<Rightarrow> office \<Rightarrow> schedule_revision \<Rightarrow> schedule_error + schedule_revision" where
  "scanScheduleRevision ext f r =
     (if fBroken f (rvID r) = Some BrokenSnapshot then Inl ErrSnapshotDecode
      else case snapshot_validate ext (rvSnapshot r) of
             Inl _ \<Rightarrow> Inl ErrSnapshotDecode
           | Inr _ \<Rightarrow> if fBroken f (rvID r) = Some BrokenSummary then Inl ErrRevisionMetadataDecode else Inr r)"

fun scanEffective :: "externals \<Rightarrow> office \<Rightarrow> schedule_revision list \<Rightarrow> schedule_error + schedule_revision" where
  "scanEffective ext f [] = Inl ErrRevisionNotFound"
| "scanEffective ext f [r] = scanScheduleRevision ext f r"
| "scanEffective ext f (r # r' # rs) =
     then_ok (scanScheduleRevision ext f r) (\<lambda>_. then_ok (scanScheduleRevision ext f r') (\<lambda>_. Inl ErrRevisionOverlap))"

definition ReadEffectiveRevision :: "externals \<Rightarrow> string \<Rightarrow> int \<Rightarrow> office \<Rightarrow> schedule_error + schedule_revision" where
  "ReadEffectiveRevision ext sid at' f =
     scanEffective ext f (filter (\<lambda>r. rvSchedule r = sid \<and> in_force (NormalizeTimestamp at') r) (fRevisions f))"

fun scanRevisions :: "externals \<Rightarrow> office \<Rightarrow> schedule_revision list \<Rightarrow> schedule_error + schedule_revision list" where
  "scanRevisions ext f [] = Inr []"
| "scanRevisions ext f (r # rs) =
     then_ok (scanScheduleRevision ext f r) (\<lambda>x. then_ok (scanRevisions ext f rs) (\<lambda>xs. Inr (x # xs)))"

definition ReadRevisionsInRange :: "externals \<Rightarrow> string \<Rightarrow> int \<Rightarrow> int \<Rightarrow> office \<Rightarrow> schedule_error + schedule_revision list" where
  "ReadRevisionsInRange ext sid from until' f = scanRevisions ext f (GetRevisionsInRange sid from until' f)"

text \<open>A revision the store can still read back.\<close>

definition legible :: "externals \<Rightarrow> office \<Rightarrow> schedule_revision \<Rightarrow> bool" where
  "legible ext f r \<longleftrightarrow> scanScheduleRevision ext f r = Inr r"

lemma legible_iff: "legible ext f r \<longleftrightarrow> fBroken f (rvID r) = None \<and> snapshot_validate ext (rvSnapshot r) = Inr ()"
  by (cases "fBroken f (rvID r)" rule: option.exhaust; cases "the (fBroken f (rvID r))")
    (auto simp: legible_def scanScheduleRevision_def split: sum.split)

lemma scanEffective_legible:
  "\<forall>r \<in> set rs. legible ext f r \<Longrightarrow> scanEffective ext f rs =
     (case rs of [] \<Rightarrow> Inl ErrRevisionNotFound | [r] \<Rightarrow> Inr r | _ \<Rightarrow> Inl ErrRevisionOverlap)"
  by (cases rs; cases "tl rs") (auto simp: legible_def)

lemma ReadEffectiveRevision_legible:
  assumes "\<forall>r \<in> set (fRevisions f). rvSchedule r = sid \<longrightarrow> legible ext f r"
  shows "ReadEffectiveRevision ext sid t f = GetEffectiveRevision sid t f"
  unfolding ReadEffectiveRevision_def GetEffectiveRevision_def
  by (rule scanEffective_legible) (use assms in simp)

lemma scanRevisions_legible: "\<forall>r \<in> set rs. legible ext f r \<Longrightarrow> scanRevisions ext f rs = Inr rs"
  by (induction rs) (simp_all add: legible_def)

lemma ReadRevisionsInRange_legible:
  assumes "\<forall>r \<in> set (fRevisions f). rvSchedule r = sid \<longrightarrow> legible ext f r"
  shows "ReadRevisionsInRange ext sid from until' f = Inr (GetRevisionsInRange sid from until' f)"
  unfolding ReadRevisionsInRange_def
  by (rule scanRevisions_legible) (use assms in \<open>simp add: GetRevisionsInRange_def\<close>)

lemma scan_blames: "scanScheduleRevision ext f r = Inl e \<Longrightarrow> e = ErrSnapshotDecode \<or> e = ErrRevisionMetadataDecode"
  by (auto simp: scanScheduleRevision_def split: sum.splits if_splits)

lemma ReadEffectiveRevision_blames:
  assumes "ReadEffectiveRevision ext sid t f = Inl e"
  shows "e \<in> {ErrRevisionNotFound, ErrRevisionOverlap, ErrSnapshotDecode, ErrRevisionMetadataDecode}"
proof -
  have "scanEffective ext f rs = Inl e \<Longrightarrow> ?thesis" for rs
    by (cases rs; cases "tl rs"; cases "scanScheduleRevision ext f (hd rs)"; cases "scanScheduleRevision ext f (hd (tl rs))")
      (auto dest: scan_blames)
  with assms show ?thesis by (simp add: ReadEffectiveRevision_def)
qed

definition GetTeamMemberIDs :: "string \<Rightarrow> people \<Rightarrow> string list" where
  "GetTeamMemberIDs tid p =
     sort (map mUser (filter (\<lambda>m. mTeam m = tid \<and> activeUser (mUser m) p) (pMembers p)))"

text \<open>The newest revision of each override of a schedule.\<close>

definition is_head :: "string \<Rightarrow> override_revision list \<Rightarrow> override_revision \<Rightarrow> bool" where
  "is_head sid rows r \<longleftrightarrow> ovSchedule r = sid \<and>
     list_all (\<lambda>r'. ovSchedule r' = sid \<and> ovOverrideID r' = ovOverrideID r \<longrightarrow> ovRevision r' \<le> ovRevision r) rows"

definition GetOverrideHead :: "string \<Rightarrow> string \<Rightarrow> office \<Rightarrow> schedule_error + override_revision" where
  "GetOverrideHead sid oid f =
     (case find (\<lambda>r. is_head sid (fOverrides f) r \<and> ovOverrideID r = oid) (fOverrides f) of
        None \<Rightarrow> Inl ErrOverrideNotFound | Some r \<Rightarrow> Inr r)"

definition by_start :: "override_revision list \<Rightarrow> override_revision list" where
  "by_start = sort_key (\<lambda>r. (ovFrom r, ovOverrideID r))"

definition ListOverrideHeads :: "string \<Rightarrow> bool \<Rightarrow> office \<Rightarrow> override_revision list" where
  "ListOverrideHeads sid includeDeleted f =
     by_start (filter (\<lambda>r. is_head sid (fOverrides f) r \<and> (includeDeleted \<or> \<not> ovDeleted r)) (fOverrides f))"

definition GetOverrideProjectionInRange ::
    "string \<Rightarrow> int option \<Rightarrow> int option \<Rightarrow> office \<Rightarrow> override_revision list" where
  "GetOverrideProjectionInRange sid from until' f =
     by_start (filter (\<lambda>r. is_head sid (fOverrides f) r \<and> \<not> ovDeleted r \<and>
       (case from of None \<Rightarrow> True | Some a \<Rightarrow> NormalizeTimestamp a < ovTo r) \<and>
       (case until' of None \<Rightarrow> True | Some b \<Rightarrow> ovFrom r < NormalizeTimestamp b)) (fOverrides f))"

section \<open>Writing\<close>

definition one_row :: "nat \<Rightarrow> schedule_error \<Rightarrow> office \<Rightarrow> schedule_error + office" where
  "one_row affected mismatch f = (if affected \<noteq> 1 then Inl mismatch else Inr f)"

definition CloseRevision :: "string \<Rightarrow> string \<Rightarrow> int \<Rightarrow> office \<Rightarrow> schedule_error + office" where
  "CloseRevision sid expected at' f =
     (if expected = [] then Inl ErrInvariantViolation
      else let hit = (\<lambda>r. rvID r = expected \<and> rvSchedule r = sid \<and> rvTo r = None);
               close = (\<lambda>r. if hit r then r\<lparr>rvTo := Some (NormalizeTimestamp at')\<rparr> else r)
      in if list_ex (\<lambda>r. hit r \<and> \<not> rvFrom r < NormalizeTimestamp at') (fRevisions f)
         then Inl ErrInvariantViolation
         else one_row (length (filter hit (fRevisions f))) ErrRevisionMismatch
                (f\<lparr>fRevisions := map close (fRevisions f)\<rparr>))"

definition InsertRevision :: "clerk \<Rightarrow> schedule_revision \<Rightarrow> office \<Rightarrow> schedule_error + office" where
  "InsertRevision ck revision f =
     then_ok (PrepareRevision ck revision) (\<lambda>r.
     let rs = fRevisions f
     in if list_ex (\<lambda>x. rvID x = rvID r) rs
         \<or> list_ex (\<lambda>x. rvSchedule x = rvSchedule r \<and> rvVersion x = rvVersion r) rs
         \<or> (rvTo r = None \<and> list_ex (\<lambda>x. rvSchedule x = rvSchedule r \<and> rvTo x = None) rs)
         \<or> \<not> list_ex (\<lambda>x. rtID x = rvSchedule r) (fRoots f)
        then Inl ErrInvariantViolation
        else Inr (f\<lparr>fRevisions := rs @ [r]\<rparr>))"

definition CreateInitialSchedule ::
    "clerk \<Rightarrow> schedule_root \<Rightarrow> schedule_revision \<Rightarrow> office \<Rightarrow> schedule_error + office" where
  "CreateInitialSchedule ck root revision f =
     then_ok (PrepareInitialSchedule ck root revision) (\<lambda>(root, r).
     if list_ex (\<lambda>x. rtID x = rtID root) (fRoots f) then Inl ErrInvariantViolation
     else if list_ex (\<lambda>x. rtTeam x = rtTeam root) (fRoots f) then Inl ErrScheduleExists
     else if rtTeam root \<notin> set (pTeams (fPeople f)) then Inl ErrTeamNotFound
     else InsertRevision ck r (f\<lparr>fRoots := fRoots f @ [root]\<rparr>))"

definition AdvanceVersion :: "string \<Rightarrow> int \<Rightarrow> office \<Rightarrow> schedule_error + office" where
  "AdvanceVersion sid expected f =
     (let hit = (\<lambda>r. rtID r = sid \<and> rtVersion r = expected)
      in one_row (length (filter hit (fRoots f))) ErrVersionConflict
           (f\<lparr>fRoots := map (\<lambda>r. if hit r then r\<lparr>rtVersion := rtVersion r + 1\<rparr> else r) (fRoots f)\<rparr>))"

definition SetScheduleDeleted :: "string \<Rightarrow> int option \<Rightarrow> office \<Rightarrow> schedule_error + office" where
  "SetScheduleDeleted sid deletedAt f =
     one_row (length (filter (\<lambda>r. rtID r = sid) (fRoots f))) ErrScheduleNotFound
       (f\<lparr>fRoots := map (\<lambda>r. if rtID r = sid
          then r\<lparr>rtDeletedAt := map_option NormalizeTimestamp deletedAt\<rparr> else r) (fRoots f)\<rparr>)"

definition InsertOverrideRevision :: "clerk \<Rightarrow> override_revision \<Rightarrow> office \<Rightarrow> schedule_error + office" where
  "InsertOverrideRevision ck revision f =
     then_ok (PrepareOverrideRevision ck revision) (\<lambda>r.
     let rs = fOverrides f
     in if list_ex (\<lambda>x. ovRevisionID x = ovRevisionID r) rs
         \<or> list_ex (\<lambda>x. ovOverrideID x = ovOverrideID r \<and> ovRevision x = ovRevision r) rs
         \<or> \<not> list_ex (\<lambda>x. rtID x = ovSchedule r) (fRoots f)
        then Inl ErrInvariantViolation
        else Inr (f\<lparr>fOverrides := rs @ [r]\<rparr>))"

text \<open>The user rows are locked first; the locks are not modelled, the check under them is.\<close>

definition requireActiveActor :: "string \<Rightarrow> office \<Rightarrow> schedule_error + unit" where
  "requireActiveActor actor f =
     (if actor = [] then Inr ()
      else if activeUser actor (fPeople f) then Inr () else Inl ErrActorNotActive)"

definition ValidateMembership :: "string \<Rightarrow> string list \<Rightarrow> office \<Rightarrow> schedule_error + unit" where
  "ValidateMembership tid wanted f =
     (let offenders = filter (\<lambda>u. u \<notin> set (GetTeamMemberIDs tid (fPeople f))) wanted
      in if offenders = [] then Inr () else Inl (UserNotTeamMember (sort offenders)))"

definition LockTeam :: "string \<Rightarrow> office \<Rightarrow> schedule_error + unit" where
  "LockTeam tid f = (if tid \<in> set (pTeams (fPeople f)) then Inr () else Inl ErrTeamNotFound)"

definition DeleteTeamMembership :: "string \<Rightarrow> string \<Rightarrow> office \<Rightarrow> office" where
  "DeleteTeamMembership tid uid f = f\<lparr>fPeople := (fPeople f)\<lparr>pMembers :=
     filter (\<lambda>m. \<not> (mTeam m = tid \<and> mUser m = uid)) (pMembers (fPeople f))\<rparr>\<rparr>"

definition DeleteTeamRow :: "string \<Rightarrow> office \<Rightarrow> schedule_error + office" where
  "DeleteTeamRow tid f =
     (if tid \<in> set (fHooks f) then Inl ErrTeamHasIntegrations
      else Inr (f\<lparr>fPeople := (fPeople f)\<lparr>pMembers := filter (\<lambda>m. mTeam m \<noteq> tid) (pMembers (fPeople f)),
                   pTeams := filter (\<lambda>t. t \<noteq> tid) (pTeams (fPeople f))\<rparr>\<rparr>))"

end
