(* ===== verification/ScheduleConfig.thy ===== *)
theory ScheduleConfig
  imports Revisions
begin

text \<open>
  The commands on a schedule: saving and deleting its configuration, its overrides, and the
  team operations a schedule can refuse (\<open>internal/scheduleconfig/service.go\<close>,
  \<open>override.go\<close>).  The log line of a committed change is not modelled.
\<close>

definition optionalString :: "string \<Rightarrow> string option" where
  "optionalString s = (if s = [] then None else Some s)"

text \<open>Every user a configuration names, first seen first.\<close>

definition ConfigurationUserIDs :: "schedule_configuration \<Rightarrow> string list" where
  "ConfigurationUserIDs c = rev (remdups (rev (concat (map rgMembers (lcGroups (scL1 c)) @
     map rgMembers (lcGroups (scL2 c))))))"

definition snapshotNames :: "schedule_snapshot \<Rightarrow> string \<Rightarrow> bool" where
  "snapshotNames s uid \<longleftrightarrow>
     list_ex (\<lambda>l. list_ex (\<lambda>g. list_ex (\<lambda>m. m = uid) (rgMembers g)) (lyGroups l)) [ssL1 s, ssL2 s]"

section \<open>Saving a configuration\<close>

record save_command =
  svExpectedVersion :: int
  svDesired :: schedule_configuration
  svActor :: string
  svReason :: "string option"

record save_result =
  srRevision :: schedule_revision
  srVersion :: int
  srEffectiveAt :: int
  srNoop :: bool
  srRecreated :: bool
  srCreated :: bool

record write_target =
  wtRoot :: schedule_root
  wtTail :: schedule_revision
  wtEffectiveAt :: int

definition checkDeletionConsistency :: "schedule_root \<Rightarrow> schedule_revision \<Rightarrow> schedule_error + unit" where
  "checkDeletionConsistency root tail =
     (if (rvKind tail = RevisionDeleted) \<noteq> (rtDeletedAt root \<noteq> None) then Inl ErrInvariantViolation
      else Inr ())"

definition lockForWrite :: "clerk \<Rightarrow> schedule_root \<Rightarrow> int \<Rightarrow> office \<Rightarrow> schedule_error + write_target" where
  "lockForWrite ck root expected f =
     then_ok (GetScheduleRoot (rtID root) f) (\<lambda>locked.
     if rtVersion locked \<noteq> expected then Inl (VersionConflict expected (rtVersion locked))
     else then_ok (GetTailRevision (rtID locked) f) (\<lambda>tail.
     then_ok (checkDeletionConsistency locked tail) (\<lambda>_.
     Inr \<lparr>wtRoot = locked, wtTail = tail, wtEffectiveAt = NextEffectiveAt (Some (rvFrom tail)) (ckNow ck)\<rparr>)))"

definition appendRevision ::
    "clerk \<Rightarrow> write_target \<Rightarrow> schedule_revision \<Rightarrow> bool \<Rightarrow> office \<Rightarrow> schedule_error + office" where
  "appendRevision ck w revision clearDeleted f =
     then_ok (CloseRevision (rtID (wtRoot w)) (rvID (wtTail w)) (wtEffectiveAt w) f) (\<lambda>f1.
     then_ok (InsertRevision ck revision f1) (\<lambda>f2.
     then_ok (if clearDeleted then SetScheduleDeleted (rtID (wtRoot w)) None f2 else Inr f2) (\<lambda>f3.
     AdvanceVersion (rtID (wtRoot w)) (rtVersion (wtRoot w)) f3)))"

definition rewrite_schedule :: "clerk \<Rightarrow> write_target \<Rightarrow> string \<Rightarrow> schedule_configuration \<Rightarrow> save_command
    \<Rightarrow> office \<Rightarrow> schedule_error + save_result \<times> office" where
  "rewrite_schedule ck w tid desired cmd f =
     (let recreate = (rtDeletedAt (wtRoot w) \<noteq> None);
          current = (if recreate then None else Some (rvSnapshot (wtTail w)))
      in then_ok (ValidateMembership tid (ConfigurationUserIDs desired) f) (\<lambda>_.
         case PlanTransition (ckExt ck) \<lparr>tiCurrent = current, tiDesired = desired,
                tiEffectiveAt = wtEffectiveAt w\<rparr> of
           Inl _ \<Rightarrow> Inl ErrInvariantViolation
         | Inr NoopPlan \<Rightarrow> Inr (\<lparr>srRevision = wtTail w, srVersion = rtVersion (wtRoot w),
               srEffectiveAt = wtEffectiveAt w, srNoop = True, srRecreated = False, srCreated = False\<rparr>, f)
         | Inr (Plan snap t1 t2 change) \<Rightarrow>
             let revision = \<lparr>rvID = ckNewID ck 0, rvSchedule = rtID (wtRoot w),
                   rvVersion = rtVersion (wtRoot w) + 1, rvKind = RevisionActive, rvSnapshot = snap,
                   rvFrom = wtEffectiveAt w, rvTo = None, rvRecordedAt = wtEffectiveAt w,
                   rvCreatedBy = optionalString (svActor cmd), rvReason = svReason cmd,
                   rvSummary = Some change\<rparr>
             in then_ok (appendRevision ck w revision recreate f) (\<lambda>f'.
                Inr (\<lparr>srRevision = revision, srVersion = rvVersion revision,
                      srEffectiveAt = wtEffectiveAt w, srNoop = False, srRecreated = recreate,
                      srCreated = False\<rparr>, f'))))"

definition initialize :: "clerk \<Rightarrow> string \<Rightarrow> schedule_configuration \<Rightarrow> string \<Rightarrow> string option
    \<Rightarrow> office \<Rightarrow> schedule_error + save_result \<times> office" where
  "initialize ck tid desired actor reason f =
     then_ok (LockTeam tid f) (\<lambda>_.
     let effectiveAt = NormalizeTimestamp (ckNow ck)
     in then_ok (ValidateMembership tid (ConfigurationUserIDs desired) f) (\<lambda>_.
        case PlanTransition (ckExt ck) \<lparr>tiCurrent = None, tiDesired = desired, tiEffectiveAt = effectiveAt\<rparr> of
          Inl _ \<Rightarrow> Inl ErrInvariantViolation
        | Inr NoopPlan \<Rightarrow> Inl ErrInvariantViolation
        | Inr (Plan snap t1 t2 change) \<Rightarrow>
            let root = \<lparr>rtID = ckNewID ck 0, rtTeam = tid, rtVersion = 0, rtHistoryFrom = zero_time,
                  rtDeletedAt = None\<rparr>;
                revision = \<lparr>rvID = ckNewID ck 1, rvSchedule = ckNewID ck 0, rvVersion = 1,
                  rvKind = RevisionActive, rvSnapshot = snap, rvFrom = effectiveAt, rvTo = None,
                  rvRecordedAt = effectiveAt, rvCreatedBy = optionalString actor, rvReason = reason,
                  rvSummary = Some change\<rparr>
            in then_ok (CreateInitialSchedule ck root revision f) (\<lambda>f'.
               Inr (\<lparr>srRevision = revision, srVersion = 1, srEffectiveAt = effectiveAt, srNoop = False,
                     srRecreated = False, srCreated = True\<rparr>, f'))))"

definition save_schedule :: "clerk \<Rightarrow> string \<Rightarrow> schedule_configuration \<Rightarrow> save_command
    \<Rightarrow> office \<Rightarrow> schedule_error + save_result \<times> office" where
  "save_schedule ck tid desired cmd f =
     then_ok (requireActiveActor (svActor cmd) f) (\<lambda>_.
     case GetScheduleRootByTeam tid f of
       Inl _ \<Rightarrow> if svExpectedVersion cmd \<noteq> 0 then Inl (VersionConflict (svExpectedVersion cmd) 0)
               else initialize ck tid desired (svActor cmd) (svReason cmd) f
     | Inr root \<Rightarrow> then_ok (lockForWrite ck root (svExpectedVersion cmd) f) (\<lambda>w.
               rewrite_schedule ck w tid desired cmd f))"

definition Save :: "clerk \<Rightarrow> string \<Rightarrow> save_command \<Rightarrow> office \<Rightarrow> schedule_error + save_result \<times> office" where
  "Save ck tid cmd f =
     (if tid = [] then Inl (InvalidField ''team_id'')
      else case NormalizeConfiguration (ckExt ck) (svDesired cmd) of
        Inl e \<Rightarrow> Inl (InvalidConfiguration e)
      | Inr desired \<Rightarrow> save_schedule ck tid desired cmd f)"

section \<open>Deleting a schedule\<close>

record delete_command =
  dcExpectedVersion :: int
  dcActor :: string
  dcReason :: "string option"

text \<open>The successor of a head that ends it at an instant: a tombstone, a shortened window, or nothing.\<close>

definition ended_revision :: "string \<Rightarrow> int \<Rightarrow> string \<Rightarrow> string option \<Rightarrow> override_revision
    \<Rightarrow> override_revision option" where
  "ended_revision fresh recordedAt actor reason head =
     (let next = head\<lparr>ovRevisionID := fresh, ovRevision := ovRevision head + 1,
            ovRecordedAt := recordedAt, ovRecordedBy := optionalString actor, ovReason := reason\<rparr>
      in if \<not> ovFrom head < recordedAt then Some (next\<lparr>ovDeleted := True\<rparr>)
         else if recordedAt < ovTo head then Some (next\<lparr>ovTo := recordedAt\<rparr>)
         else None)"

fun end_heads :: "clerk \<Rightarrow> nat \<Rightarrow> int \<Rightarrow> string \<Rightarrow> string option \<Rightarrow> override_revision list
    \<Rightarrow> office \<Rightarrow> schedule_error + office" where
  "end_heads ck k recordedAt actor reason [] f = Inr f"
| "end_heads ck k recordedAt actor reason (head # heads) f =
     (case ended_revision (ckNewID ck k) recordedAt actor reason head of
        None \<Rightarrow> end_heads ck (Suc k) recordedAt actor reason heads f
      | Some next \<Rightarrow> then_ok (InsertOverrideRevision ck next f) (\<lambda>f'.
          end_heads ck (Suc k) recordedAt actor reason heads f'))"

definition endLiveOverrides :: "clerk \<Rightarrow> string \<Rightarrow> int \<Rightarrow> string \<Rightarrow> string option \<Rightarrow> office
    \<Rightarrow> schedule_error + office" where
  "endLiveOverrides ck sid at' actor reason f =
     end_heads ck 1 (NormalizeTimestamp at') actor reason (ListOverrideHeads sid False f) f"

definition DeleteSchedule :: "clerk \<Rightarrow> string \<Rightarrow> delete_command \<Rightarrow> office \<Rightarrow> schedule_error + office" where
  "DeleteSchedule ck tid cmd f =
     (if tid = [] then Inl (InvalidField ''team_id'')
      else then_ok (requireActiveActor (dcActor cmd) f) (\<lambda>_.
      then_ok (GetScheduleRootByTeam tid f) (\<lambda>root.
      then_ok (lockForWrite ck root (dcExpectedVersion cmd) f) (\<lambda>w.
      if rtDeletedAt (wtRoot w) \<noteq> None then Inl ErrScheduleDeleted
      else let sid = rtID (wtRoot w);
               deleted = \<lparr>rvID = ckNewID ck 0, rvSchedule = sid, rvVersion = rtVersion (wtRoot w) + 1,
                 rvKind = RevisionDeleted, rvSnapshot = rvSnapshot (wtTail w), rvFrom = wtEffectiveAt w,
                 rvTo = None, rvRecordedAt = wtEffectiveAt w, rvCreatedBy = optionalString (dcActor cmd),
                 rvReason = dcReason cmd, rvSummary = None\<rparr>
      in then_ok (CloseRevision sid (rvID (wtTail w)) (wtEffectiveAt w) f) (\<lambda>f1.
         then_ok (InsertRevision ck deleted f1) (\<lambda>f2.
         then_ok (endLiveOverrides ck sid (wtEffectiveAt w) (dcActor cmd) (dcReason cmd) f2) (\<lambda>f3.
         then_ok (SetScheduleDeleted sid (Some (wtEffectiveAt w)) f3) (\<lambda>f4.
         AdvanceVersion sid (rtVersion (wtRoot w)) f4))))))))"

section \<open>Teams\<close>

definition holdsAssignment :: "clerk \<Rightarrow> string \<Rightarrow> string \<Rightarrow> office \<Rightarrow> schedule_error + bool" where
  "holdsAssignment ck sid uid f =
     then_ok (GetTailRevision sid f) (\<lambda>tail.
     if rvKind tail = RevisionActive \<and> snapshotNames (rvSnapshot tail) uid then Inr True
     else let at' = NormalizeTimestamp (ckNow ck)
     in Inr (list_ex (\<lambda>h. ovUser h = uid \<and> at' < ovTo h) (ListOverrideHeads sid False f)))"

definition RemoveMember :: "clerk \<Rightarrow> string \<Rightarrow> string \<Rightarrow> office \<Rightarrow> schedule_error + office" where
  "RemoveMember ck tid uid f =
     (if tid = [] \<or> uid = [] then Inl (InvalidField ''team_id'')
      else then_ok (LockTeam tid f) (\<lambda>_.
      case GetScheduleRootByTeam tid f of
        Inl _ \<Rightarrow> Inr (DeleteTeamMembership tid uid f)
      | Inr root \<Rightarrow> then_ok (GetScheduleRoot (rtID root) f) (\<lambda>locked.
          then_ok (if rtDeletedAt locked = None then holdsAssignment ck (rtID locked) uid f else Inr False)
            (\<lambda>blocked. if blocked then Inl (MemberOnCall [(rtID locked, tid)])
               else Inr (DeleteTeamMembership tid uid f)))))"

definition DeleteTeam :: "string \<Rightarrow> office \<Rightarrow> schedule_error + office" where
  "DeleteTeam tid f =
     (if tid = [] then Inl (InvalidField ''team_id'')
      else then_ok (LockTeam tid f) (\<lambda>_.
      case GetScheduleRootByTeam tid f of
        Inr root \<Rightarrow> Inl (TeamHasScheduleHistory (rtID root))
      | Inl _ \<Rightarrow> DeleteTeamRow tid f))"

section \<open>Overrides\<close>

record override_command =
  ocUser :: string
  ocFrom :: int
  ocTo :: int
  ocReason :: "string option"
  ocActor :: string

definition lockForOverride :: "clerk \<Rightarrow> string \<Rightarrow> office \<Rightarrow> schedule_error + schedule_root \<times> int" where
  "lockForOverride ck sid f =
     then_ok (GetScheduleRoot sid f) (\<lambda>locked.
     if rtDeletedAt locked \<noteq> None then Inl ErrScheduleDeleted
     else Inr (locked, NormalizeTimestamp (ckNow ck)))"

definition liveOverrideHead :: "string \<Rightarrow> string \<Rightarrow> int \<Rightarrow> office \<Rightarrow> schedule_error + override_revision" where
  "liveOverrideHead sid oid expected f =
     then_ok (GetOverrideHead sid oid f) (\<lambda>head.
     if ovDeleted head then Inl ErrOverrideNotFound
     else if ovRevision head \<noteq> expected then Inl (OverrideRevisionConflict expected (ovRevision head))
     else Inr head)"

definition validateOverrideTarget :: "string \<Rightarrow> override_command \<Rightarrow> office \<Rightarrow> schedule_error + unit" where
  "validateOverrideTarget tid cmd f =
     (let from = NormalizeTimestamp (ocFrom cmd); until' = NormalizeTimestamp (ocTo cmd)
      in if from = zero_time then Inl (InvalidField ''valid_from'')
         else if \<not> from < until' then Inl (InvalidField ''valid_to'')
         else ValidateMembership tid [ocUser cmd] f)"

definition checkOverrideOverlap :: "override_revision \<Rightarrow> string \<Rightarrow> office \<Rightarrow> schedule_error + unit" where
  "checkOverrideOverlap r excluded f =
     (let others = filter (\<lambda>x. \<not> (ovLayer x \<noteq> ovLayer r \<or> ovOverrideID x = excluded))
            (GetOverrideProjectionInRange (ovSchedule r) (Some (ovFrom r)) (Some (ovTo r)) f)
      in if others \<noteq> []
         then Inl (OverrideOverlap (map (\<lambda>x. (ovOverrideID x, ovUser x, ovFrom x, ovTo x)) others))
         else Inr ())"

definition CreateOverride :: "clerk \<Rightarrow> string \<Rightarrow> override_command \<Rightarrow> office
    \<Rightarrow> schedule_error + override_revision \<times> office" where
  "CreateOverride ck tid cmd f =
     (if ocUser cmd = [] then Inl (InvalidField ''user_id'')
      else then_ok (requireActiveActor (ocActor cmd) f) (\<lambda>_.
      then_ok (GetScheduleRootByTeam tid f) (\<lambda>root.
      then_ok (lockForOverride ck (rtID root) f) (\<lambda>(locked, recordedAt).
      then_ok (validateOverrideTarget (rtTeam locked) cmd f) (\<lambda>_.
      let r = \<lparr>ovRevisionID = ckNewID ck 0, ovOverrideID = ckNewID ck 1, ovSchedule = rtID locked,
               ovRevision = 1, ovLayer = LayerL1, ovUser = ocUser cmd,
               ovFrom = NormalizeTimestamp (ocFrom cmd), ovTo = NormalizeTimestamp (ocTo cmd),
               ovReason = ocReason cmd, ovDeleted = False, ovRecordedAt = recordedAt,
               ovRecordedBy = optionalString (ocActor cmd)\<rparr>
      in then_ok (checkOverrideOverlap r [] f) (\<lambda>_.
         then_ok (InsertOverrideRevision ck r f) (\<lambda>f'. Inr (r, f'))))))))"

definition nextOverrideRevision :: "string \<Rightarrow> override_revision \<Rightarrow> override_command \<Rightarrow> int \<Rightarrow> override_revision" where
  "nextOverrideRevision fresh head cmd recordedAt =
     \<lparr>ovRevisionID = fresh, ovOverrideID = ovOverrideID head, ovSchedule = ovSchedule head,
      ovRevision = ovRevision head + 1, ovLayer = ovLayer head, ovUser = ocUser cmd,
      ovFrom = NormalizeTimestamp (ocFrom cmd), ovTo = NormalizeTimestamp (ocTo cmd),
      ovReason = ocReason cmd, ovDeleted = False, ovRecordedAt = recordedAt,
      ovRecordedBy = optionalString (ocActor cmd)\<rparr>"

definition truncated_revision :: "string \<Rightarrow> override_revision \<Rightarrow> override_command \<Rightarrow> int \<Rightarrow> override_revision" where
  "truncated_revision fresh head cmd recordedAt =
     head\<lparr>ovRevisionID := fresh, ovRevision := ovRevision head + 1, ovTo := recordedAt,
          ovReason := ocReason cmd, ovRecordedAt := recordedAt,
          ovRecordedBy := optionalString (ocActor cmd)\<rparr>"

definition split_override :: "clerk \<Rightarrow> string \<Rightarrow> override_revision \<Rightarrow> override_command \<Rightarrow> int \<Rightarrow> office
    \<Rightarrow> schedule_error + override_revision \<times> office" where
  "split_override ck sid head cmd recordedAt f =
     (let validTo = NormalizeTimestamp (ocTo cmd)
      in if \<not> recordedAt < validTo then Inl (OverrideEndsInThePast (ovOverrideID head) validTo recordedAt)
         else then_ok (InsertOverrideRevision ck (truncated_revision (ckNewID ck 0) head cmd recordedAt) f) (\<lambda>f1.
         let r = \<lparr>ovRevisionID = ckNewID ck 1, ovOverrideID = ckNewID ck 2, ovSchedule = sid, ovRevision = 1,
                  ovLayer = ovLayer head, ovUser = ocUser cmd, ovFrom = recordedAt, ovTo = validTo,
                  ovReason = ocReason cmd, ovDeleted = False, ovRecordedAt = recordedAt,
                  ovRecordedBy = optionalString (ocActor cmd)\<rparr>
         in then_ok (checkOverrideOverlap r [] f1) (\<lambda>_.
            then_ok (InsertOverrideRevision ck r f1) (\<lambda>f2. Inr (r, f2)))))"

definition UpdateOverride :: "clerk \<Rightarrow> string \<Rightarrow> string \<Rightarrow> int \<Rightarrow> override_command \<Rightarrow> office
    \<Rightarrow> schedule_error + override_revision \<times> office" where
  "UpdateOverride ck sid oid expected cmd f =
     (if ocUser cmd = [] then Inl (InvalidField ''user_id'')
      else then_ok (requireActiveActor (ocActor cmd) f) (\<lambda>_.
      then_ok (lockForOverride ck sid f) (\<lambda>(locked, recordedAt).
      then_ok (liveOverrideHead sid oid expected f) (\<lambda>head.
      then_ok (validateOverrideTarget (rtTeam locked) cmd f) (\<lambda>_.
      if \<not> recordedAt < ovTo head then Inl (OverrideAlreadyEnded oid (ovFrom head) (ovTo head))
      else if \<not> ovFrom head < recordedAt
      then let r = nextOverrideRevision (ckNewID ck 0) head cmd recordedAt
           in then_ok (checkOverrideOverlap r oid f) (\<lambda>_.
              then_ok (InsertOverrideRevision ck r f) (\<lambda>f'. Inr (r, f')))
      else split_override ck sid head cmd recordedAt f)))))"

definition CancelOverride :: "clerk \<Rightarrow> string \<Rightarrow> string \<Rightarrow> int \<Rightarrow> string \<Rightarrow> string option \<Rightarrow> office
    \<Rightarrow> schedule_error + office" where
  "CancelOverride ck sid oid expected actor reason f =
     then_ok (requireActiveActor actor f) (\<lambda>_.
     then_ok (lockForOverride ck sid f) (\<lambda>(_, recordedAt).
     then_ok (liveOverrideHead sid oid expected f) (\<lambda>head.
     if \<not> recordedAt < ovTo head then Inl (OverrideAlreadyEnded oid (ovFrom head) (ovTo head))
     else case ended_revision (ckNewID ck 0) recordedAt actor reason head of
       None \<Rightarrow> Inl (OverrideAlreadyEnded oid (ovFrom head) (ovTo head))
     | Some next \<Rightarrow> InsertOverrideRevision ck next f)))"

end
