(* ===== verification/Chain.thy ===== *)
theory Chain
  imports ScheduleConfig
begin

text \<open>
  The history of a schedule is a chain of revisions: numbered without gaps, each ending where
  the next begins, the last open.  Every command keeps it, and no command changes what was in
  force before it.
\<close>

section \<open>Chains\<close>

fun linked :: "schedule_revision list \<Rightarrow> bool" where
  "linked [] \<longleftrightarrow> False"
| "linked [r] \<longleftrightarrow> rvTo r = None"
| "linked (r # s # rs) \<longleftrightarrow> rvTo r = Some (rvFrom s) \<and> rvFrom r < rvFrom s \<and> linked (s # rs)"

definition closed_at :: "int \<Rightarrow> schedule_revision \<Rightarrow> schedule_revision" where
  "closed_at t r = (if rvTo r = None then r\<lparr>rvTo := Some t\<rparr> else r)"

lemma linked_not_Nil: "linked rs \<Longrightarrow> rs \<noteq> []"
  by auto

lemma linked_last: "linked rs \<Longrightarrow> rvTo (last rs) = None"
  by (induction rs rule: linked.induct) auto

lemma linked_open: "linked rs \<Longrightarrow> r \<in> set rs \<Longrightarrow> rvTo r = None \<Longrightarrow> r = last rs"
  by (induction rs rule: linked.induct) auto

lemma linked_starts_all: "linked rs \<Longrightarrow> \<forall>r \<in> set rs. rvFrom (hd rs) \<le> rvFrom r \<and> rvFrom r \<le> rvFrom (last rs)"
proof (induction rs rule: linked.induct)
  case (3 r s rs)
  then have "\<forall>x \<in> set (s # rs). rvFrom s \<le> rvFrom x \<and> rvFrom x \<le> rvFrom (last (s # rs))" by simp
  moreover from this have "rvFrom s \<le> rvFrom (last (s # rs))" by simp
  moreover have "rvFrom r < rvFrom s" using 3(2) by simp
  ultimately show ?case by (auto simp del: last.simps simp add: last_ConsR)
qed auto

lemma linked_starts: "linked rs \<Longrightarrow> r \<in> set rs \<Longrightarrow> rvFrom (hd rs) \<le> rvFrom r \<and> rvFrom r \<le> rvFrom (last rs)"
  using linked_starts_all by blast

lemma linked_append:
  assumes "linked rs" "rvFrom (last rs) < rvFrom r" "rvTo r = None"
  shows "linked (map (closed_at (rvFrom r)) rs @ [r])"
  using assms by (induction rs rule: linked.induct) (auto simp: closed_at_def)

lemma linked_in_force:
  assumes "linked rs" "rvFrom (hd rs) \<le> t"
  shows "\<exists>r. filter (in_force t) rs = [r]"
  using assms
proof (induction rs rule: linked.induct)
  case (3 r s rs)
  show ?case
  proof (cases "rvFrom s \<le> t")
    case True
    with 3 show ?thesis by (auto simp: in_force_def)
  next
    case False
    have "\<not> in_force t x" if "x \<in> set (s # rs)" for x
      using linked_starts [of "s # rs" x] that 3(2) False by (auto simp: in_force_def)
    then have "filter (in_force t) (s # rs) = []" by (simp add: filter_empty_conv)
    moreover have "in_force t r" using 3(2,3) False by (simp add: in_force_def)
    ultimately show ?thesis by simp
  qed
qed (auto simp: in_force_def)

lemma linked_before:
  assumes "linked rs" "t < rvFrom (hd rs)"
  shows "filter (in_force t) rs = []"
  using assms linked_starts [OF assms(1)] by (force simp: filter_empty_conv in_force_def)

text \<open>Appending changes nothing before the new revision starts.\<close>

lemma in_force_closed: "t < u \<Longrightarrow> in_force t (closed_at u r) = in_force t r"
  by (auto simp: in_force_def closed_at_def split: option.split)

section \<open>Instants\<close>

definition aligned :: "int \<Rightarrow> bool" where "aligned t \<longleftrightarrow> NormalizeTimestamp t = t"

lemma Normalize_aligned [simp]: "aligned (NormalizeTimestamp t)"
  by (simp add: aligned_def NormalizeTimestamp_def TimestampResolution_def)

lemma aligned_Normalize [simp]: "aligned t \<Longrightarrow> NormalizeTimestamp t = t"
  by (simp add: aligned_def)

lemma Normalize_le: "NormalizeTimestamp t \<le> t" "t < NormalizeTimestamp t + TimestampResolution"
  by (simp_all add: NormalizeTimestamp_def TimestampResolution_def)

lemma Normalize_mono: "s \<le> t \<Longrightarrow> NormalizeTimestamp s \<le> NormalizeTimestamp t"
proof -
  assume "s \<le> t"
  then have "1000 * (s div 1000) \<le> 1000 * (t div 1000)" by (simp add: zdiv_mono1)
  then show ?thesis by (simp add: NormalizeTimestamp_def TimestampResolution_def minus_mod_eq_mult_div)
qed

lemma aligned_less_Normalize: "aligned e \<Longrightarrow> t < e \<Longrightarrow> NormalizeTimestamp t < e"
  using Normalize_le(1) [of t] by simp

lemma NextEffectiveAt_after:
  "aligned (NextEffectiveAt (Some from) now)" "from < NextEffectiveAt (Some from) now"
  "NormalizeTimestamp now \<le> NextEffectiveAt (Some from) now"
proof -
  have "aligned (NormalizeTimestamp from + TimestampResolution)"
    by (simp add: aligned_def NormalizeTimestamp_def TimestampResolution_def mod_add_self2)
  then show "aligned (NextEffectiveAt (Some from) now)" by (simp add: NextEffectiveAt_def Let_def)
  show "from < NextEffectiveAt (Some from) now" "NormalizeTimestamp now \<le> NextEffectiveAt (Some from) now"
    using Normalize_le(2) [of "from"] by (simp_all add: NextEffectiveAt_def Let_def)
qed

section \<open>The history of a schedule\<close>

definition revs :: "string \<Rightarrow> office \<Rightarrow> schedule_revision list" where
  "revs sid f = filter (\<lambda>r. rvSchedule r = sid) (fRevisions f)"

definition chain :: "office \<Rightarrow> schedule_root \<Rightarrow> bool" where
  "chain f root \<longleftrightarrow> (let rs = revs (rtID root) f in
     linked rs \<and> map rvVersion rs = [1..rtVersion root] \<and> rvFrom (hd rs) = rtHistoryFrom root \<and>
     (rvKind (last rs) = RevisionDeleted \<longleftrightarrow> rtDeletedAt root \<noteq> None) \<and>
     (\<forall>r \<in> set rs. aligned (rvFrom r) \<and> (rvKind r = RevisionActive \<or> rvKind r = RevisionDeleted)))"

definition chronicle :: "office \<Rightarrow> bool" where
  "chronicle f \<longleftrightarrow> distinct (map rtID (fRoots f)) \<and> distinct (map rtTeam (fRoots f)) \<and>
     distinct (map rvID (fRevisions f)) \<and>
     (\<forall>r \<in> set (fRevisions f). rvID r \<noteq> [] \<and> rvSchedule r \<in> rtID ` set (fRoots f)) \<and>
     (\<forall>root \<in> set (fRoots f). chain f root)"

lemma chronicle_cong:
  "fRoots f' = fRoots f \<Longrightarrow> fRevisions f' = fRevisions f \<Longrightarrow> chronicle f' = chronicle f"
  by (simp add: chronicle_def chain_def revs_def)

lemma find_key:
  assumes "distinct (map k xs)" "x \<in> set xs"
  shows "find (\<lambda>y. k y = k x) xs = Some x"
  using assms by (induction xs) (auto simp: image_iff)

lemma GetScheduleRoot_found:
  assumes "chronicle f" "root \<in> set (fRoots f)"
  shows "GetScheduleRoot (rtID root) f = Inr root" "GetScheduleRootByTeam (rtTeam root) f = Inr root"
  using find_key [of rtID "fRoots f" root] find_key [of rtTeam "fRoots f" root] assms
  by (simp_all add: GetScheduleRoot_def GetScheduleRootByTeam_def chronicle_def)

lemma GetScheduleRootByTeam_Inr:
  "GetScheduleRootByTeam tid f = Inr root \<Longrightarrow> root \<in> set (fRoots f) \<and> rtTeam root = tid"
  by (auto simp: GetScheduleRootByTeam_def find_Some_iff split: option.splits)

lemma GetScheduleRoot_Inr:
  "GetScheduleRoot sid f = Inr root \<Longrightarrow> root \<in> set (fRoots f) \<and> rtID root = sid"
  by (auto simp: GetScheduleRoot_def find_Some_iff split: option.splits)

lemma GetTailRevision_last:
  assumes "chronicle f" "root \<in> set (fRoots f)"
  shows "GetTailRevision (rtID root) f = Inr (last (revs (rtID root) f))"
proof -
  let ?rs = "revs (rtID root) f"
  have l: "linked ?rs" using assms by (simp add: chronicle_def chain_def Let_def)
  have "last ?rs \<in> set ?rs" using linked_not_Nil [OF l] by simp
  then have "rvSchedule (last ?rs) = rtID root \<and> last ?rs \<in> set (fRevisions f)" by (simp add: revs_def)
  then obtain r where r: "find (\<lambda>r. rvSchedule r = rtID root \<and> rvTo r = None) (fRevisions f) = Some r"
    using linked_last [OF l]
    by (cases "find (\<lambda>r. rvSchedule r = rtID root \<and> rvTo r = None) (fRevisions f)") (auto simp: find_None_iff)
  then have "r \<in> set ?rs" "rvTo r = None" by (auto simp: find_Some_iff revs_def)
  with linked_open [OF l] r show ?thesis by (simp add: GetTailRevision_def)
qed

section \<open>What a command writes\<close>

text \<open>The first revision of a schedule, and the successor of its tail.\<close>

definition founds :: "office \<Rightarrow> schedule_root \<Rightarrow> schedule_revision \<Rightarrow> office" where
  "founds f root r = f\<lparr>fRoots := fRoots f @ [root], fRevisions := fRevisions f @ [r]\<rparr>"

definition founds_ok :: "office \<Rightarrow> schedule_root \<Rightarrow> schedule_revision \<Rightarrow> bool" where
  "founds_ok f root r \<longleftrightarrow> rtID root \<notin> rtID ` set (fRoots f) \<and> rtTeam root \<notin> rtTeam ` set (fRoots f) \<and>
     rvID r \<notin> rvID ` set (fRevisions f) \<and> rvID r \<noteq> [] \<and> rvSchedule r = rtID root \<and>
     rtVersion root = 1 \<and> rtHistoryFrom root = rvFrom r \<and> rtDeletedAt root = None \<and>
     rvVersion r = 1 \<and> rvTo r = None \<and> rvKind r = RevisionActive \<and> aligned (rvFrom r)"

definition extends :: "office \<Rightarrow> schedule_root \<Rightarrow> schedule_revision \<Rightarrow> int option \<Rightarrow> office" where
  "extends f root r d = f\<lparr>
     fRoots := map (\<lambda>x. if rtID x = rtID root then x\<lparr>rtVersion := rtVersion root + 1, rtDeletedAt := d\<rparr> else x) (fRoots f),
     fRevisions := map (\<lambda>x. if rvSchedule x = rtID root then closed_at (rvFrom r) x else x) (fRevisions f) @ [r]\<rparr>"

definition extends_ok :: "office \<Rightarrow> schedule_root \<Rightarrow> schedule_revision \<Rightarrow> int option \<Rightarrow> bool" where
  "extends_ok f root r d \<longleftrightarrow> root \<in> set (fRoots f) \<and> rvSchedule r = rtID root \<and>
     rvID r \<notin> rvID ` set (fRevisions f) \<and> rvID r \<noteq> [] \<and> rvVersion r = rtVersion root + 1 \<and>
     rvFrom (last (revs (rtID root) f)) < rvFrom r \<and> rvTo r = None \<and> aligned (rvFrom r) \<and>
     (rvKind r = RevisionActive \<or> rvKind r = RevisionDeleted) \<and> (rvKind r = RevisionDeleted \<longleftrightarrow> d \<noteq> None)"

lemma closed_at_sel [simp]:
  "rvID (closed_at t r) = rvID r" "rvSchedule (closed_at t r) = rvSchedule r" "rvVersion (closed_at t r) = rvVersion r"
  "rvKind (closed_at t r) = rvKind r" "rvSnapshot (closed_at t r) = rvSnapshot r" "rvFrom (closed_at t r) = rvFrom r"
  by (simp_all add: closed_at_def)

lemma kinds_differ [simp]: "RevisionActive \<noteq> RevisionDeleted" "RevisionDeleted \<noteq> RevisionActive"
  by (simp_all add: RevisionActive_def RevisionDeleted_def)

lemma revs_founds:
  assumes "founds_ok f root r" "chronicle f"
  shows "revs (rtID root) (founds f root r) = [r]"
    "sid \<noteq> rtID root \<Longrightarrow> revs sid (founds f root r) = revs sid f"
proof -
  have "rvSchedule x \<noteq> rtID root" if "x \<in> set (fRevisions f)" for x
    using assms that by (metis founds_ok_def chronicle_def)
  then have "revs (rtID root) f = []" by (simp add: revs_def filter_empty_conv)
  with assms show "revs (rtID root) (founds f root r) = [r]"
    "sid \<noteq> rtID root \<Longrightarrow> revs sid (founds f root r) = revs sid f"
    by (auto simp: revs_def founds_def founds_ok_def)
qed

lemma founds_chronicle:
  assumes "chronicle f" "founds_ok f root r"
  shows "chronicle (founds f root r)"
proof -
  have "chain (founds f root r) root"
    using assms revs_founds(1) [OF assms(2,1)] by (simp add: chain_def founds_ok_def Let_def)
  moreover have "chain (founds f root r) x" if "x \<in> set (fRoots f)" for x
  proof -
    have "rtID x \<noteq> rtID root" using that assms(2) by (metis founds_ok_def image_eqI)
    then show ?thesis using that assms revs_founds(2) [OF assms(2,1)] by (simp add: chain_def chronicle_def)
  qed
  ultimately show ?thesis using assms by (auto simp: chronicle_def founds_def founds_ok_def)
qed

lemma revs_extends:
  assumes "extends_ok f root r d"
  shows "revs (rtID root) (extends f root r d) = map (closed_at (rvFrom r)) (revs (rtID root) f) @ [r]"
    "sid \<noteq> rtID root \<Longrightarrow> revs sid (extends f root r d) = revs sid f"
proof -
  have "filter (\<lambda>x. rvSchedule x = sid) (map (\<lambda>x. if rvSchedule x = sid then closed_at t x else x) xs) =
      map (closed_at t) (filter (\<lambda>x. rvSchedule x = sid) xs)" for t xs sid
    by (induction xs) auto
  then show "revs (rtID root) (extends f root r d) = map (closed_at (rvFrom r)) (revs (rtID root) f) @ [r]"
    using assms by (simp add: revs_def extends_def extends_ok_def)
  have "filter (\<lambda>x. rvSchedule x = sid) (map (\<lambda>x. if rvSchedule x = s then closed_at t x else x) xs) =
      filter (\<lambda>x. rvSchedule x = sid) xs" if "sid \<noteq> s" for t xs s
    using that by (induction xs) auto
  then show "sid \<noteq> rtID root \<Longrightarrow> revs sid (extends f root r d) = revs sid f"
    using assms by (simp add: revs_def extends_def extends_ok_def)
qed

lemma extends_chronicle:
  assumes "chronicle f" "extends_ok f root r d"
  shows "chronicle (extends f root r d)"
proof -
  let ?f = "extends f root r d" and ?rs = "revs (rtID root) f"
  let ?root = "root\<lparr>rtVersion := rtVersion root + 1, rtDeletedAt := d\<rparr>"
  have ok: "root \<in> set (fRoots f)" using assms(2) by (simp add: extends_ok_def)
  have ch: "linked ?rs" "map rvVersion ?rs = [1..rtVersion root]" "rvFrom (hd ?rs) = rtHistoryFrom root"
    "\<forall>r \<in> set ?rs. aligned (rvFrom r) \<and> (rvKind r = RevisionActive \<or> rvKind r = RevisionDeleted)"
    using assms(1) ok by (simp_all add: chronicle_def chain_def Let_def)
  have ne: "?rs \<noteq> []" using linked_not_Nil [OF ch(1)] .
  then have "[1..rtVersion root] \<noteq> []" using ch(2) by (metis Nil_is_map_conv)
  then have "1 \<le> rtVersion root" by (simp split: if_splits)
  then have up: "[1..rtVersion root] @ [rtVersion root + 1] = [1..rtVersion root + 1]"
    by (subst upto_rec2 [of 1 "rtVersion root + 1"]) simp_all
  have "map rvVersion (map (closed_at (rvFrom r)) ?rs @ [r]) = [1..rtVersion root + 1]"
    using ch(2) up assms(2) by (simp add: extends_ok_def o_def)
  moreover have "linked (map (closed_at (rvFrom r)) ?rs @ [r])"
    using linked_append [OF ch(1)] assms(2) by (simp add: extends_ok_def)
  moreover have "rvFrom (hd (map (closed_at (rvFrom r)) ?rs @ [r])) = rtHistoryFrom root"
    using ne ch(3) by (cases ?rs) simp_all
  ultimately have new: "chain ?f ?root"
    using revs_extends(1) [OF assms(2)] ch(4) assms(2) by (auto simp: chain_def Let_def extends_ok_def)
  have roots: "x' = ?root \<or> (x' \<in> set (fRoots f) \<and> rtID x' \<noteq> rtID root)" if "x' \<in> set (fRoots ?f)" for x'
  proof -
    obtain x where x: "x \<in> set (fRoots f)"
      "x' = (if rtID x = rtID root then x\<lparr>rtVersion := rtVersion root + 1, rtDeletedAt := d\<rparr> else x)"
      using \<open>x' \<in> set (fRoots ?f)\<close> by (auto simp: extends_def)
    have "rtID x = rtID root \<Longrightarrow> x = root"
      using assms(1) ok x(1) by (auto simp: chronicle_def distinct_map dest: inj_onD)
    with x show ?thesis by auto
  qed
  have "chain ?f x'" if "x' \<in> set (fRoots ?f)" for x'
    using roots [OF that] new revs_extends(2) [OF assms(2)] assms(1) by (auto simp: chain_def chronicle_def)
  moreover have "map rtID (fRoots ?f) = map rtID (fRoots f)" "map rtTeam (fRoots ?f) = map rtTeam (fRoots f)"
    by (simp_all add: extends_def)
  moreover have "map rvID (fRevisions ?f) = map rvID (fRevisions f) @ [rvID r]" by (simp add: extends_def)
  moreover have "rvID x \<noteq> [] \<and> rvSchedule x \<in> rtID ` set (fRoots f)" if "x \<in> set (fRevisions ?f)" for x
    using that assms by (auto simp: extends_def extends_ok_def chronicle_def)
  moreover have "rtID ` set (fRoots ?f) = rtID ` set (fRoots f)"
    using \<open>map rtID (fRoots ?f) = map rtID (fRoots f)\<close> by (metis set_map)
  ultimately show ?thesis using assms unfolding chronicle_def by (simp add: extends_ok_def)
qed

section \<open>The commands\<close>

lemma image_map_if': "(\<And>x. k (g x) = k x) \<Longrightarrow> k ` set (map (\<lambda>x. if c x then g x else x) xs) = k ` set xs"
  by (induction xs) auto


lemma PrepareRevision_Inr:
  assumes "PrepareRevision ck r = Inr r'" "aligned (rvFrom r)" "rvKind r \<noteq> []" "rvTo r = None"
  shows "rvID r' = rvID r \<and> rvID r \<noteq> [] \<and> rvSchedule r' = rvSchedule r \<and> rvVersion r' = rvVersion r \<and>
     rvKind r' = rvKind r \<and> rvSnapshot r' = rvSnapshot r \<and> rvFrom r' = rvFrom r \<and> rvTo r' = None \<and>
     rvCreatedBy r' = rvCreatedBy r \<and> rvReason r' = rvReason r \<and>
     (rvKind r = RevisionActive \<or> rvKind r = RevisionDeleted)"
  using assms by (auto simp: PrepareRevision_def CanonicalizeSnapshot_def Let_def split: if_splits sum.splits)

lemma InsertRevision_Inr:
  assumes "InsertRevision ck r f = Inr f'" "aligned (rvFrom r)" "rvKind r \<noteq> []" "rvTo r = None"
  obtains r' where "f' = f\<lparr>fRevisions := fRevisions f @ [r']\<rparr>" "rvID r' = rvID r" "rvID r \<noteq> []"
    "rvID r \<notin> rvID ` set (fRevisions f)" "rvSchedule r' = rvSchedule r" "rvVersion r' = rvVersion r"
    "rvKind r' = rvKind r" "rvSnapshot r' = rvSnapshot r" "rvFrom r' = rvFrom r" "rvTo r' = None"
    "rvKind r = RevisionActive \<or> rvKind r = RevisionDeleted"
    "rvSchedule r \<in> rtID ` set (fRoots f)"
proof -
  obtain r' where r': "PrepareRevision ck r = Inr r'"
    and "\<not> list_ex (\<lambda>x. rvID x = rvID r') (fRevisions f)" "list_ex (\<lambda>x. rtID x = rvSchedule r') (fRoots f)"
    and f': "f' = f\<lparr>fRevisions := fRevisions f @ [r']\<rparr>"
    using assms(1) by (auto simp: InsertRevision_def Let_def split: if_splits)
  note sel = PrepareRevision_Inr [OF r' assms(2-4)]
  have "rvID r \<notin> rvID ` set (fRevisions f)"
    using sel \<open>\<not> list_ex (\<lambda>x. rvID x = rvID r') (fRevisions f)\<close> by (auto simp: list_ex_iff)
  moreover have "rvSchedule r \<in> rtID ` set (fRoots f)"
    using sel \<open>list_ex (\<lambda>x. rtID x = rvSchedule r') (fRoots f)\<close> unfolding list_ex_iff by (metis imageI)
  ultimately show thesis using sel by (intro that [OF f']) blast+
qed

lemma lockForWrite_Inr:
  assumes "chronicle f" "root \<in> set (fRoots f)" "lockForWrite ck root expected f = Inr w"
  shows "wtRoot w = root \<and> wtTail w = last (revs (rtID root) f) \<and> rtVersion root = expected \<and>
    aligned (wtEffectiveAt w) \<and> rvFrom (last (revs (rtID root) f)) < wtEffectiveAt w \<and>
    NormalizeTimestamp (ckNow ck) \<le> wtEffectiveAt w"
  using assms(3) NextEffectiveAt_after
  by (auto simp: lockForWrite_def GetScheduleRoot_found [OF assms(1,2)] GetTailRevision_last [OF assms(1,2)]
    split: if_splits)

lemma root_unique:
  "chronicle f \<Longrightarrow> root \<in> set (fRoots f) \<Longrightarrow> x \<in> set (fRoots f) \<Longrightarrow> rtID x = rtID root \<Longrightarrow> x = root"
  by (auto simp: chronicle_def distinct_map dest: inj_onD)

text \<open>Closing the tail and advancing the version, as the maps of \<open>extends\<close>.\<close>

lemma close_tail:
  assumes "chronicle f" "root \<in> set (fRoots f)"
    and "CloseRevision (rtID root) (rvID (last (revs (rtID root) f))) t f = Inr f'" "aligned t"
  shows "f' = f\<lparr>fRevisions := map (\<lambda>x. if rvSchedule x = rtID root then closed_at t x else x) (fRevisions f)\<rparr>"
proof -
  let ?rs = "revs (rtID root) f"
  have l: "linked ?rs" using assms(1,2) by (simp add: chronicle_def chain_def Let_def)
  have same: "(rvID x = rvID (last ?rs) \<and> rvSchedule x = rtID root \<and> rvTo x = None) \<longleftrightarrow>
      rvSchedule x = rtID root \<and> rvTo x = None" if "x \<in> set (fRevisions f)" for x
    using linked_open [OF l] that by (auto simp: revs_def)
  have "map (\<lambda>x. if rvID x = rvID (last ?rs) \<and> rvSchedule x = rtID root \<and> rvTo x = None
        then x\<lparr>rvTo := Some (NormalizeTimestamp t)\<rparr> else x) (fRevisions f) =
      map (\<lambda>x. if rvSchedule x = rtID root then closed_at t x else x) (fRevisions f)"
  proof (rule map_cong [OF refl])
    fix x assume "x \<in> set (fRevisions f)"
    from same [OF this] show "(if rvID x = rvID (last ?rs) \<and> rvSchedule x = rtID root \<and> rvTo x = None
        then x\<lparr>rvTo := Some (NormalizeTimestamp t)\<rparr> else x) =
      (if rvSchedule x = rtID root then closed_at t x else x)"
      using assms(4) by (auto simp: closed_at_def)
  qed
  moreover have "f' = f\<lparr>fRevisions := map (\<lambda>x. if rvID x = rvID (last ?rs) \<and> rvSchedule x = rtID root \<and> rvTo x = None
        then x\<lparr>rvTo := Some (NormalizeTimestamp t)\<rparr> else x) (fRevisions f)\<rparr>"
    using assms(3) by (simp add: CloseRevision_def Let_def one_row_def split: if_splits)
  ultimately show ?thesis by (simp only:)
qed

lemma version_map:
  assumes "chronicle f" "root \<in> set (fRoots f)"
  shows "map (\<lambda>x. if rtID x = rtID root \<and> rtVersion x = rtVersion root then x\<lparr>rtVersion := rtVersion x + 1\<rparr> else x)
      (map (\<lambda>x. if rtID x = rtID root then x\<lparr>rtDeletedAt := d\<rparr> else x) (fRoots f)) =
    map (\<lambda>x. if rtID x = rtID root then x\<lparr>rtVersion := rtVersion root + 1, rtDeletedAt := d\<rparr> else x) (fRoots f)"
  using root_unique [OF assms] by auto

lemma AdvanceVersion_Inr:
  "AdvanceVersion sid v f = Inr f' \<Longrightarrow> f' = f\<lparr>fRoots := map (\<lambda>x. if rtID x = sid \<and> rtVersion x = v
     then x\<lparr>rtVersion := rtVersion x + 1\<rparr> else x) (fRoots f)\<rparr>"
  by (simp add: AdvanceVersion_def Let_def one_row_def split: if_splits)

lemma SetScheduleDeleted_Inr:
  "SetScheduleDeleted sid d f = Inr f' \<Longrightarrow> f' = f\<lparr>fRoots := map (\<lambda>x. if rtID x = sid
     then x\<lparr>rtDeletedAt := map_option NormalizeTimestamp d\<rparr> else x) (fRoots f)\<rparr>"
  by (simp add: SetScheduleDeleted_def one_row_def split: if_splits)

lemma same_deleted:
  assumes "chronicle f" "root \<in> set (fRoots f)"
  shows "map (\<lambda>x. if rtID x = rtID root then x\<lparr>rtDeletedAt := rtDeletedAt root\<rparr> else x) (fRoots f) = fRoots f"
proof (rule map_idI)
  fix x assume "x \<in> set (fRoots f)"
  then have "rtID x = rtID root \<Longrightarrow> x = root" by (rule root_unique [OF assms])
  then show "(if rtID x = rtID root then x\<lparr>rtDeletedAt := rtDeletedAt root\<rparr> else x) = x" by auto
qed

lemma appendRevision_Inr:
  assumes "chronicle f" "root \<in> set (fRoots f)"
    and w: "wtRoot w = root" "wtTail w = last (revs (rtID root) f)"
      "aligned (wtEffectiveAt w)" "rvFrom (last (revs (rtID root) f)) < wtEffectiveAt w"
    and r: "rvSchedule r = rtID root" "rvVersion r = rtVersion root + 1" "rvKind r = RevisionActive"
      "rvFrom r = wtEffectiveAt w" "rvTo r = None"
    and "appendRevision ck w r cl f = Inr f'" "cl = (rtDeletedAt root \<noteq> None)"
  obtains r' where "extends_ok f root r' None" "f' = extends f root r' None" "rvSnapshot r' = rvSnapshot r"
    "rvFrom r' = rvFrom r" "rvID r' = rvID r" "rvKind r' = RevisionActive"
proof -
  let ?closed = "map (\<lambda>x. if rvSchedule x = rtID root then closed_at (wtEffectiveAt w) x else x) (fRevisions f)"
  obtain f1 f2 f3 where f1: "CloseRevision (rtID root) (rvID (last (revs (rtID root) f))) (wtEffectiveAt w) f = Inr f1"
    and f2: "InsertRevision ck r f1 = Inr f2"
    and f3: "(if cl then SetScheduleDeleted (rtID root) None f2 else Inr f2) = Inr f3"
    and f': "AdvanceVersion (rtID root) (rtVersion root) f3 = Inr f'"
    using assms(12) unfolding appendRevision_def w by (elim then_ok_InrE) (rule that)
  have e1: "f1 = f\<lparr>fRevisions := ?closed\<rparr>" by (rule close_tail [OF assms(1,2) f1 w(3)])
  have kind: "rvKind r \<noteq> []" using r(3) by (simp add: RevisionActive_def)
  obtain r' where e2: "f2 = f1\<lparr>fRevisions := fRevisions f1 @ [r']\<rparr>" and id: "rvID r' = rvID r" "rvID r \<noteq> []"
    "rvID r \<notin> rvID ` set (fRevisions f1)"
    and sel: "rvSchedule r' = rvSchedule r" "rvVersion r' = rvVersion r"
    "rvKind r' = rvKind r" "rvSnapshot r' = rvSnapshot r" "rvFrom r' = rvFrom r" "rvTo r' = None"
    by (rule InsertRevision_Inr [OF f2 _ kind r(5)]) (simp add: r w)
  have e3: "f3 = f2\<lparr>fRoots := map (\<lambda>x. if rtID x = rtID root then x\<lparr>rtDeletedAt := None\<rparr> else x) (fRoots f)\<rparr>"
  proof (cases cl)
    case True
    with f3 e1 e2 show ?thesis by (auto simp: SetScheduleDeleted_def one_row_def split: if_splits)
  next
    case False
    then have d: "rtDeletedAt root = None" using assms(13) by simp
    have "f3 = f2" using f3 False by simp
    then show ?thesis unfolding same_deleted [OF assms(1,2), unfolded d] by (simp add: e1 e2)
  qed
  have "fRoots f3 = map (\<lambda>x. if rtID x = rtID root then x\<lparr>rtDeletedAt := None\<rparr> else x) (fRoots f)"
    by (simp add: e3)
  from AdvanceVersion_Inr [OF f', unfolded this version_map [OF assms(1,2)]]
  have e4: "f' = f3\<lparr>fRoots := map (\<lambda>x. if rtID x = rtID root then x\<lparr>rtVersion := rtVersion root + 1,
      rtDeletedAt := None\<rparr> else x) (fRoots f)\<rparr>" .
  have eq: "f' = extends f root r' None" by (simp add: e1 e2 e3 e4 extends_def sel r)
  have "rvID ` set ?closed = rvID ` set (fRevisions f)"
    by (rule image_map_if') simp
  then have ok: "extends_ok f root r' None"
    using assms(2) id sel r w e1 by (simp add: extends_ok_def)
  show thesis by (rule that [OF ok eq]) (simp_all add: sel id r(3))
qed

text \<open>Every successful save: nothing, a first revision, or a successor of the tail.\<close>

lemma plan_kind: "RevisionActive \<noteq> []" "RevisionDeleted \<noteq> []"
  by (simp_all add: RevisionActive_def RevisionDeleted_def)

definition planned_for :: "clerk \<Rightarrow> schedule_snapshot option \<Rightarrow> schedule_configuration \<Rightarrow> int
    \<Rightarrow> schedule_snapshot \<Rightarrow> bool" where
  "planned_for ck current desired t snap \<longleftrightarrow> (\<exists>t1 t2 ch. PlanTransition (ckExt ck)
     \<lparr>tiCurrent = current, tiDesired = desired, tiEffectiveAt = t\<rparr> = Inr (Plan snap t1 t2 ch))"

definition noop_for :: "clerk \<Rightarrow> schedule_snapshot option \<Rightarrow> schedule_configuration \<Rightarrow> int \<Rightarrow> bool" where
  "noop_for ck current desired t \<longleftrightarrow> PlanTransition (ckExt ck)
     \<lparr>tiCurrent = current, tiDesired = desired, tiEffectiveAt = t\<rparr> = Inr NoopPlan"

lemma initialize_Inr:
  assumes "initialize ck tid desired actor reason f = Inr (res, f')"
  obtains root r where "founds_ok f root r" "f' = founds f root r" "rtTeam root = tid" "tid \<in> set (pTeams (fPeople f))"
    "rvFrom r = NormalizeTimestamp (ckNow ck)" "planned_for ck None desired (rvFrom r) (rvSnapshot r)"
    "ValidateMembership tid (ConfigurationUserIDs desired) f = Inr ()"
    "srNoop res = False" "srVersion res = 1" "rvSnapshot (srRevision res) = rvSnapshot r"
proof -
  let ?at = "NormalizeTimestamp (ckNow ck)"
  obtain snap t1 t2 change where lock: "LockTeam tid f = Inr ()"
    and member: "ValidateMembership tid (ConfigurationUserIDs desired) f = Inr ()"
    and plan: "PlanTransition (ckExt ck) \<lparr>tiCurrent = None, tiDesired = desired, tiEffectiveAt = ?at\<rparr>
      = Inr (Plan snap t1 t2 change)"
    and rest: "then_ok (CreateInitialSchedule ck \<lparr>rtID = ckNewID ck 0, rtTeam = tid, rtVersion = 0,
        rtHistoryFrom = zero_time, rtDeletedAt = None\<rparr>
      \<lparr>rvID = ckNewID ck 1, rvSchedule = ckNewID ck 0, rvVersion = 1, rvKind = RevisionActive, rvSnapshot = snap,
       rvFrom = ?at, rvTo = None, rvRecordedAt = ?at, rvCreatedBy = optionalString actor, rvReason = reason,
       rvSummary = Some change\<rparr> f) (\<lambda>f'. Inr (\<lparr>srRevision = \<lparr>rvID = ckNewID ck 1, rvSchedule = ckNewID ck 0,
       rvVersion = 1, rvKind = RevisionActive, rvSnapshot = snap,
       rvFrom = ?at, rvTo = None, rvRecordedAt = ?at, rvCreatedBy = optionalString actor, rvReason = reason,
       rvSummary = Some change\<rparr>, srVersion = 1, srEffectiveAt = ?at, srNoop = False, srRecreated = False,
       srCreated = True\<rparr>, f')) = Inr (res, f')"
    using assms unfolding initialize_def Let_def
    by (elim then_ok_InrE) (auto split: sum.splits transition_plan.splits)
  define root where "root = \<lparr>rtID = ckNewID ck 0, rtTeam = tid, rtVersion = 0, rtHistoryFrom = zero_time, rtDeletedAt = None\<rparr>"
  define r where "r = \<lparr>rvID = ckNewID ck 1, rvSchedule = ckNewID ck 0, rvVersion = 1, rvKind = RevisionActive,
      rvSnapshot = snap, rvFrom = ?at, rvTo = None, rvRecordedAt = ?at, rvCreatedBy = optionalString actor,
      rvReason = reason, rvSummary = Some change\<rparr>"
  have rsel: "rvID r = ckNewID ck 1" "rvSchedule r = ckNewID ck 0" "rvVersion r = 1" "rvKind r = RevisionActive"
    "rvSnapshot r = snap" "rvFrom r = ?at" "rvTo r = None" by (simp_all add: r_def)
  have rest: "CreateInitialSchedule ck root r f = Inr f'" and res: "srNoop res = False" "srVersion res = 1"
    "srRevision res = r" using rest unfolding root_def [symmetric] r_def [symmetric] by auto
  obtain root1 r1 where prep: "PrepareInitialSchedule ck root r = Inr (root1, r1)"
    and new: "\<not> list_ex (\<lambda>x. rtID x = rtID root1) (fRoots f)" "\<not> list_ex (\<lambda>x. rtTeam x = rtTeam root1) (fRoots f)"
      "rtTeam root1 \<in> set (pTeams (fPeople f))"
    and ins: "InsertRevision ck r1 (f\<lparr>fRoots := fRoots f @ [root1]\<rparr>) = Inr f'"
    using rest by (auto simp: CreateInitialSchedule_def split: if_splits)
  have k: "aligned (rvFrom r)" "rvKind r \<noteq> []" "rvTo r = None" by (simp_all add: rsel plan_kind)
  obtain r0 where "PrepareRevision ck r = Inr r0" "r1 = r0" "root1 = root\<lparr>rtVersion := 1, rtHistoryFrom := rvFrom r0, rtDeletedAt := None\<rparr>"
    using prep by (auto simp: PrepareInitialSchedule_def split: if_splits)
  with PrepareRevision_Inr [OF this(1) k] have
    r1: "rvID r1 = rvID r" "rvSchedule r1 = rvSchedule r" "rvVersion r1 = rvVersion r" "rvKind r1 = rvKind r"
      "rvSnapshot r1 = rvSnapshot r" "rvFrom r1 = rvFrom r" "rvTo r1 = None"
    and root1: "root1 = root\<lparr>rtVersion := 1, rtHistoryFrom := ?at, rtDeletedAt := None\<rparr>" by (simp_all add: rsel)
  have k1: "aligned (rvFrom r1)" "rvKind r1 \<noteq> []" by (simp_all add: r1 rsel plan_kind)
  obtain r2 where f': "f' = f\<lparr>fRoots := fRoots f @ [root1], fRevisions := fRevisions f @ [r2]\<rparr>"
    and r2: "rvID r2 = rvID r1" "rvID r1 \<noteq> []" "rvID r1 \<notin> rvID ` set (fRevisions f)" "rvSchedule r2 = rvSchedule r1"
      "rvVersion r2 = rvVersion r1" "rvKind r2 = rvKind r1" "rvSnapshot r2 = rvSnapshot r1" "rvFrom r2 = rvFrom r1" "rvTo r2 = None"
    by (rule InsertRevision_Inr [OF ins k1 r1(7)]) simp
  show thesis
  proof (rule that)
    show "f' = founds f root1 r2" using f' by (simp add: founds_def)
    have "rtID root1 \<notin> rtID ` set (fRoots f)" "rtTeam root1 \<notin> rtTeam ` set (fRoots f)"
      using new(1,2) by (auto simp: list_ex_iff)
    then show "founds_ok f root1 r2" using r2 by (simp add: founds_ok_def root1 root_def r1 rsel)
    show "rtTeam root1 = tid" "tid \<in> set (pTeams (fPeople f))" using new(3) by (simp_all add: root1 root_def)
    show "rvFrom r2 = ?at" by (simp add: r2 r1 rsel)
    show "planned_for ck None desired (rvFrom r2) (rvSnapshot r2)"
      using plan by (auto simp: planned_for_def r2 r1 rsel)
  qed (use member res r2 r1 in simp_all)
qed

lemma rewrite_Inr:
  assumes "chronicle f" "root \<in> set (fRoots f)" "lockForWrite ck root expected f = Inr w"
    and "rewrite_schedule ck w tid desired cmd f = Inr (res, f')"
  obtains (noop) "f' = f" "srNoop res" "srRevision res = last (revs (rtID root) f)" "srVersion res = rtVersion root"
    "noop_for ck (if rtDeletedAt root = None then Some (rvSnapshot (last (revs (rtID root) f))) else None)
       desired (srEffectiveAt res)"
    "ValidateMembership tid (ConfigurationUserIDs desired) f = Inr ()"
    "rvFrom (last (revs (rtID root) f)) < srEffectiveAt res"
  | (extended) r where "extends_ok f root r None" "f' = extends f root r None"
    "NormalizeTimestamp (ckNow ck) \<le> rvFrom r" "rvKind r = RevisionActive"
    "planned_for ck (if rtDeletedAt root = None then Some (rvSnapshot (last (revs (rtID root) f))) else None)
       desired (rvFrom r) (rvSnapshot r)"
    "ValidateMembership tid (ConfigurationUserIDs desired) f = Inr ()"
    "\<not> srNoop res" "srVersion res = rtVersion root + 1" "rvSnapshot (srRevision res) = rvSnapshot r"
    "rvFrom r = srEffectiveAt res"
proof -
  note w = lockForWrite_Inr [OF assms(1-3)]
  let ?cur = "if rtDeletedAt root = None then Some (rvSnapshot (last (revs (rtID root) f))) else None"
  have cur: "(if rtDeletedAt (wtRoot w) \<noteq> None then None else Some (rvSnapshot (wtTail w))) = ?cur"
    using w by simp
  have member: "ValidateMembership tid (ConfigurationUserIDs desired) f = Inr ()"
    using assms(4) by (auto simp: rewrite_schedule_def Let_def)
  let ?plan = "PlanTransition (ckExt ck) \<lparr>tiCurrent = ?cur, tiDesired = desired, tiEffectiveAt = wtEffectiveAt w\<rparr>"
  show thesis
  proof (cases ?plan)
    case (Inl e)
    with assms(4) member cur show thesis by (simp add: rewrite_schedule_def Let_def)
  next
    case (Inr plan)
    show thesis
    proof (cases plan)
      case NoopPlan
      with assms(4) member cur Inr w show thesis by (intro noop) (auto simp: rewrite_schedule_def Let_def noop_for_def)
    next
      case (Plan snap t1 t2 change)
      define r where "r = \<lparr>rvID = ckNewID ck 0, rvSchedule = rtID (wtRoot w),
                   rvVersion = rtVersion (wtRoot w) + 1, rvKind = RevisionActive, rvSnapshot = snap,
                   rvFrom = wtEffectiveAt w, rvTo = None, rvRecordedAt = wtEffectiveAt w,
                   rvCreatedBy = optionalString (svActor cmd), rvReason = svReason cmd,
                   rvSummary = Some change\<rparr>"
      have sel: "rvSchedule r = rtID root" "rvVersion r = rtVersion root + 1" "rvKind r = RevisionActive"
        "rvFrom r = wtEffectiveAt w" "rvTo r = None" "rvSnapshot r = snap" using w by (simp_all add: r_def)
      have app: "appendRevision ck w r (rtDeletedAt root \<noteq> None) f = Inr f'"
        and res: "\<not> srNoop res" "srVersion res = rvVersion r" "srRevision res = r" "srEffectiveAt res = wtEffectiveAt w"
        using assms(4) member cur Inr Plan w by (auto simp: rewrite_schedule_def Let_def r_def)
      obtain r' where "extends_ok f root r' None" "f' = extends f root r' None" "rvSnapshot r' = rvSnapshot r"
        "rvFrom r' = rvFrom r" "rvID r' = rvID r" "rvKind r' = RevisionActive"
        by (rule appendRevision_Inr [OF assms(1,2) _ _ _ _ sel(1-5) app refl]) (use w in simp_all)
      moreover have "planned_for ck ?cur desired (wtEffectiveAt w) snap"
        using Inr Plan by (auto simp: planned_for_def)
      ultimately show thesis using member res sel w by (intro extended [of r']) simp_all
    qed
  qed
qed

lemma Save_Inr:
  assumes "chronicle f" "Save ck tid cmd f = Inr (res, f')"
  obtains (noop) root where "f' = f" "srNoop res" "root \<in> set (fRoots f)" "rtTeam root = tid"
      "srRevision res = last (revs (rtID root) f)" "srVersion res = rtVersion root"
      "\<exists>desired. NormalizeConfiguration (ckExt ck) (svDesired cmd) = Inr desired \<and>
         noop_for ck (if rtDeletedAt root = None then Some (rvSnapshot (last (revs (rtID root) f))) else None)
           desired (srEffectiveAt res) \<and> ValidateMembership tid (ConfigurationUserIDs desired) f = Inr ()"
      "rvFrom (last (revs (rtID root) f)) < srEffectiveAt res"
  | (founded) root r desired where "NormalizeConfiguration (ckExt ck) (svDesired cmd) = Inr desired"
      "founds_ok f root r" "f' = founds f root r" "rtTeam root = tid" "tid \<in> set (pTeams (fPeople f))"
      "rvFrom r = NormalizeTimestamp (ckNow ck)" "planned_for ck None desired (rvFrom r) (rvSnapshot r)"
      "ValidateMembership tid (ConfigurationUserIDs desired) f = Inr ()"
      "\<not> srNoop res" "srVersion res = 1" "rvSnapshot (srRevision res) = rvSnapshot r"
      "GetScheduleRootByTeam tid f = Inl ErrScheduleNotFound"
  | (extended) root r desired where "NormalizeConfiguration (ckExt ck) (svDesired cmd) = Inr desired"
      "root \<in> set (fRoots f)" "rtTeam root = tid" "rtVersion root = svExpectedVersion cmd"
      "extends_ok f root r None" "f' = extends f root r None"
      "NormalizeTimestamp (ckNow ck) \<le> rvFrom r" "rvKind r = RevisionActive"
      "planned_for ck (if rtDeletedAt root = None then Some (rvSnapshot (last (revs (rtID root) f))) else None)
         desired (rvFrom r) (rvSnapshot r)"
      "ValidateMembership tid (ConfigurationUserIDs desired) f = Inr ()"
      "\<not> srNoop res" "srVersion res = rtVersion root + 1" "rvSnapshot (srRevision res) = rvSnapshot r"
      "rvFrom r = srEffectiveAt res"
proof -
  obtain desired where d: "NormalizeConfiguration (ckExt ck) (svDesired cmd) = Inr desired"
    and s: "save_schedule ck tid desired cmd f = Inr (res, f')"
    using assms(2) by (auto simp: Save_def split: if_splits sum.splits)
  show thesis
  proof (cases "GetScheduleRootByTeam tid f")
    case (Inl e)
    then have "initialize ck tid desired (svActor cmd) (svReason cmd) f = Inr (res, f')"
      using s by (auto simp: save_schedule_def split: if_splits)
    moreover have "GetScheduleRootByTeam tid f = Inl ErrScheduleNotFound"
      using Inl by (auto simp: GetScheduleRootByTeam_def split: option.splits)
    ultimately show thesis by (elim initialize_Inr) (rule founded [OF d], simp_all)
  next
    case (Inr root)
    note root = GetScheduleRootByTeam_Inr [OF Inr]
    obtain w where w: "lockForWrite ck root (svExpectedVersion cmd) f = Inr w"
      and rw: "rewrite_schedule ck w tid desired cmd f = Inr (res, f')"
      using s Inr by (auto simp: save_schedule_def)
    show thesis
    proof (rule rewrite_Inr [OF assms(1) conjunct1 [OF root] w rw])
      assume "f' = f" "srNoop res" "srRevision res = last (revs (rtID root) f)" "srVersion res = rtVersion root"
        "noop_for ck (if rtDeletedAt root = None then Some (rvSnapshot (last (revs (rtID root) f))) else None)
           desired (srEffectiveAt res)"
        "ValidateMembership tid (ConfigurationUserIDs desired) f = Inr ()"
        "rvFrom (last (revs (rtID root) f)) < srEffectiveAt res"
      then show thesis using root d by (intro noop [of root]) simp_all
    next
      fix r
      assume "extends_ok f root r None" "f' = extends f root r None"
        "NormalizeTimestamp (ckNow ck) \<le> rvFrom r" "rvKind r = RevisionActive"
        "planned_for ck (if rtDeletedAt root = None then Some (rvSnapshot (last (revs (rtID root) f))) else None)
           desired (rvFrom r) (rvSnapshot r)"
        "ValidateMembership tid (ConfigurationUserIDs desired) f = Inr ()"
        "\<not> srNoop res" "srVersion res = rtVersion root + 1" "rvSnapshot (srRevision res) = rvSnapshot r"
        "rvFrom r = srEffectiveAt res"
      then show thesis using root lockForWrite_Inr [OF assms(1) conjunct1 [OF root] w]
        by (intro extended [OF d, of root r]) simp_all
    qed
  qed
qed

text \<open>Overrides are written beside the history.\<close>

lemma InsertOverrideRevision_Inr:
  "InsertOverrideRevision ck r f = Inr f' \<Longrightarrow> \<exists>r'. PrepareOverrideRevision ck r = Inr r' \<and>
     f' = f\<lparr>fOverrides := fOverrides f @ [r']\<rparr> \<and>
     (\<forall>x \<in> set (fOverrides f). \<not> (ovOverrideID x = ovOverrideID r' \<and> ovRevision x = ovRevision r')) \<and>
     (\<forall>x \<in> set (fOverrides f). ovRevisionID x \<noteq> ovRevisionID r') \<and> ovSchedule r' \<in> rtID ` set (fRoots f)"
  by (auto simp: InsertOverrideRevision_def Let_def list_ex_iff image_iff split: if_splits intro: sym)

lemma end_heads_frame:
  "end_heads ck k at' actor reason heads f = Inr f' \<Longrightarrow> f' = f\<lparr>fOverrides := fOverrides f'\<rparr>"
proof (induction ck k at' actor reason heads f rule: end_heads.induct)
  case (2 ck k at' actor reason head heads f)
  show ?case
  proof (cases "ended_revision (ckNewID ck k) at' actor reason head")
    case None
    with 2 show ?thesis by simp
  next
    case (Some nxt)
    with 2(3) obtain g where g: "InsertOverrideRevision ck nxt f = Inr g"
      "end_heads ck (Suc k) at' actor reason heads g = Inr f'" by auto
    from 2(2) [OF Some g(2)] have "f' = g\<lparr>fOverrides := fOverrides f'\<rparr>" .
    moreover obtain os where "g = f\<lparr>fOverrides := os\<rparr>" using InsertOverrideRevision_Inr [OF g(1)] by blast
    ultimately show ?thesis by (metis office.update_convs(4) office.surjective)
  qed
qed simp

lemma DeleteSchedule_Inr:
  assumes "chronicle f" "DeleteSchedule ck tid cmd f = Inr f'"
  obtains root r f0 where "root \<in> set (fRoots f)" "rtTeam root = tid" "rtVersion root = dcExpectedVersion cmd"
    "rtDeletedAt root = None" "extends_ok f root r (Some (rvFrom r))"
    "NormalizeTimestamp (ckNow ck) \<le> rvFrom r" "rvKind r = RevisionDeleted"
    "rvSnapshot r = rvSnapshot (last (revs (rtID root) f))"
    "f' = (extends f root r (Some (rvFrom r)))\<lparr>fOverrides := fOverrides f'\<rparr>"
    "fRoots f0 = fRoots f" "fOverrides f0 = fOverrides f"
    "endLiveOverrides ck (rtID root) (rvFrom r) (dcActor cmd) (dcReason cmd) f0
       = Inr (f0\<lparr>fOverrides := fOverrides f'\<rparr>)"
proof -
  obtain root w where rt: "GetScheduleRootByTeam tid f = Inr root"
    and lw: "lockForWrite ck root (dcExpectedVersion cmd) f = Inr w" and live: "rtDeletedAt (wtRoot w) = None"
    using assms(2) by (auto simp: DeleteSchedule_def Let_def split: if_splits)
  note root = conjunct1 [OF GetScheduleRootByTeam_Inr [OF rt]]
  note w = lockForWrite_Inr [OF assms(1) root lw]
  define r where "r = \<lparr>rvID = ckNewID ck 0, rvSchedule = rtID root, rvVersion = rtVersion root + 1,
     rvKind = RevisionDeleted, rvSnapshot = rvSnapshot (wtTail w), rvFrom = wtEffectiveAt w,
     rvTo = None, rvRecordedAt = wtEffectiveAt w, rvCreatedBy = optionalString (dcActor cmd),
     rvReason = dcReason cmd, rvSummary = None\<rparr>"
  have r: "rvSchedule r = rtID root" "rvVersion r = rtVersion root + 1" "rvKind r = RevisionDeleted"
    "rvFrom r = wtEffectiveAt w" "rvTo r = None" "rvSnapshot r = rvSnapshot (wtTail w)" by (simp_all add: r_def)
  have "then_ok (CloseRevision (rtID root) (rvID (wtTail w)) (wtEffectiveAt w) f) (\<lambda>f1.
         then_ok (InsertRevision ck r f1) (\<lambda>f2.
         then_ok (endLiveOverrides ck (rtID root) (wtEffectiveAt w) (dcActor cmd) (dcReason cmd) f2) (\<lambda>f3.
         then_ok (SetScheduleDeleted (rtID root) (Some (wtEffectiveAt w)) f3) (\<lambda>f4.
         AdvanceVersion (rtID root) (rtVersion root) f4)))) = Inr f'"
    using assms(2) rt lw live w by (auto simp: DeleteSchedule_def Let_def r_def split: if_splits)
  then obtain f1 f2 f3 f4 where
      f1: "CloseRevision (rtID root) (rvID (last (revs (rtID root) f))) (wtEffectiveAt w) f = Inr f1"
    and f2: "InsertRevision ck r f1 = Inr f2"
    and f3: "endLiveOverrides ck (rtID root) (wtEffectiveAt w) (dcActor cmd) (dcReason cmd) f2 = Inr f3"
    and f4: "SetScheduleDeleted (rtID root) (Some (wtEffectiveAt w)) f3 = Inr f4"
    and f': "AdvanceVersion (rtID root) (rtVersion root) f4 = Inr f'"
    unfolding w [THEN conjunct2, THEN conjunct1] by (elim then_ok_InrE) (rule that)
  have al: "aligned (wtEffectiveAt w)" using w by simp
  let ?closed = "map (\<lambda>x. if rvSchedule x = rtID root then closed_at (wtEffectiveAt w) x else x) (fRevisions f)"
  have e1: "f1 = f\<lparr>fRevisions := ?closed\<rparr>" by (rule close_tail [OF assms(1) root f1 al])
  have k: "aligned (rvFrom r)" "rvKind r \<noteq> []" using al by (simp_all add: r plan_kind)
  obtain r' where e2: "f2 = f1\<lparr>fRevisions := fRevisions f1 @ [r']\<rparr>" and id: "rvID r' = rvID r" "rvID r \<noteq> []"
    "rvID r \<notin> rvID ` set (fRevisions f1)"
    and sel: "rvSchedule r' = rvSchedule r" "rvVersion r' = rvVersion r"
    "rvKind r' = rvKind r" "rvSnapshot r' = rvSnapshot r" "rvFrom r' = rvFrom r" "rvTo r' = None"
    by (rule InsertRevision_Inr [OF f2 k r(5)])
  have e3: "f3 = f2\<lparr>fOverrides := fOverrides f3\<rparr>"
    using f3 unfolding endLiveOverrides_def by (rule end_heads_frame)
  have e4: "f4 = f3\<lparr>fRoots := map (\<lambda>x. if rtID x = rtID root then x\<lparr>rtDeletedAt := Some (wtEffectiveAt w)\<rparr>
      else x) (fRoots f3)\<rparr>"
    using SetScheduleDeleted_Inr [OF f4] unfolding option.map aligned_Normalize [OF al] .
  have "fRoots f3 = fRoots f2" by (subst e3) simp
  then have r3: "fRoots f3 = fRoots f" by (simp add: e1 e2)
  then have "fRoots f4 = map (\<lambda>x. if rtID x = rtID root then x\<lparr>rtDeletedAt := Some (wtEffectiveAt w)\<rparr> else x) (fRoots f)"
    by (simp add: e4)
  from AdvanceVersion_Inr [OF f', unfolded this version_map [OF assms(1) root]]
  have e5: "f' = f4\<lparr>fRoots := map (\<lambda>x. if rtID x = rtID root then x\<lparr>rtVersion := rtVersion root + 1,
      rtDeletedAt := Some (wtEffectiveAt w)\<rparr> else x) (fRoots f)\<rparr>" .
  have ov: "fOverrides f' = fOverrides f3" by (simp add: e5 e4)
  have "f' = (f2\<lparr>fOverrides := fOverrides f3\<rparr>)\<lparr>fRoots := map (\<lambda>x. if rtID x = rtID root then x\<lparr>rtVersion := rtVersion root + 1,
      rtDeletedAt := Some (wtEffectiveAt w)\<rparr> else x) (fRoots f)\<rparr>"
    unfolding e5 e4 by (subst e3) simp
  then have eq: "f' = (extends f root r' (Some (rvFrom r')))\<lparr>fOverrides := fOverrides f'\<rparr>"
    unfolding ov by (simp add: e1 e2 extends_def sel r)
  have "rvID ` set ?closed = rvID ` set (fRevisions f)" by (rule image_map_if') simp
  then have ok: "extends_ok f root r' (Some (rvFrom r'))"
    using root id sel r w e1 by (simp add: extends_ok_def)
  show thesis
  proof (rule that [OF root _ _ _ ok _ _ _ eq])
    show "endLiveOverrides ck (rtID root) (rvFrom r') (dcActor cmd) (dcReason cmd) f2 = Inr (f2\<lparr>fOverrides := fOverrides f'\<rparr>)"
      using f3 e3 unfolding ov by (simp add: sel r)
  qed (use w live GetScheduleRootByTeam_Inr [OF rt] in \<open>simp_all add: sel r e1 e2\<close>)
qed

section \<open>Running a command\<close>

datatype schedule_command =
    DoSave string save_command | DoDelete string delete_command
  | DoCreateOverride string override_command | DoUpdateOverride string string int override_command
  | DoCancelOverride string string int string "string option"
  | DoRemoveMember string string | DoDeleteTeam string

text \<open>The tables after a command: those it returns, or the old ones when it is refused.\<close>

definition kept_or :: "office \<Rightarrow> ('a \<Rightarrow> office) \<Rightarrow> schedule_error + 'a \<Rightarrow> office" where
  "kept_or f g r = (case r of Inl _ \<Rightarrow> f | Inr x \<Rightarrow> g x)"

fun run_schedule :: "clerk \<Rightarrow> schedule_command \<Rightarrow> office \<Rightarrow> office" where
  "run_schedule ck (DoSave tid cmd) f = kept_or f snd (Save ck tid cmd f)"
| "run_schedule ck (DoDelete tid cmd) f = kept_or f id (DeleteSchedule ck tid cmd f)"
| "run_schedule ck (DoCreateOverride tid cmd) f = kept_or f snd (CreateOverride ck tid cmd f)"
| "run_schedule ck (DoUpdateOverride sid oid expected cmd) f = kept_or f snd (UpdateOverride ck sid oid expected cmd f)"
| "run_schedule ck (DoCancelOverride sid oid expected actor reason) f =
     kept_or f id (CancelOverride ck sid oid expected actor reason f)"
| "run_schedule ck (DoRemoveMember tid uid) f = kept_or f id (RemoveMember ck tid uid f)"
| "run_schedule ck (DoDeleteTeam tid) f = kept_or f id (DeleteTeam tid f)"

lemma kept_or_simps [simp]: "kept_or f g (Inl e) = f" "kept_or f g (Inr x) = g x"
  by (simp_all add: kept_or_def)

lemma kept_or_cases:
  assumes "P f" "\<And>x. r = Inr x \<Longrightarrow> P (g x)"
  shows "P (kept_or f g r)"
  using assms by (cases r) simp_all

text \<open>Which tables a command leaves alone.\<close>

definition same_history :: "office \<Rightarrow> office \<Rightarrow> bool" where
  "same_history f f' \<longleftrightarrow> fRoots f' = fRoots f \<and> fRevisions f' = fRevisions f"

lemma insert_override_history: "InsertOverrideRevision ck r f = Inr f' \<Longrightarrow> same_history f f'"
  using InsertOverrideRevision_Inr by (force simp: same_history_def)

lemma same_history_trans: "same_history f g \<Longrightarrow> same_history g h \<Longrightarrow> same_history f h"
  by (simp add: same_history_def)

text \<open>A result of a transaction, followed through its steps.\<close>

lemma ensures_walk:
  "ensures P (Inl e)"
  "P x \<Longrightarrow> ensures P (Inr x)"
  "(\<And>y. r = Inr y \<Longrightarrow> ensures P (k y)) \<Longrightarrow> ensures P (then_ok r k)"
  "(b \<Longrightarrow> ensures P s) \<Longrightarrow> (\<not> b \<Longrightarrow> ensures P s') \<Longrightarrow> ensures P (if b then s else s')"
  "(\<And>x y. p = (x, y) \<Longrightarrow> ensures P (k' x y)) \<Longrightarrow> ensures P (case p of (x, y) \<Rightarrow> k' x y)"
  "(v = None \<Longrightarrow> ensures P s) \<Longrightarrow> (\<And>x. v = Some x \<Longrightarrow> ensures P (k'' x)) \<Longrightarrow>
     ensures P (case v of None \<Rightarrow> s | Some x \<Rightarrow> k'' x)"
proof -
  show "(\<And>y. r = Inr y \<Longrightarrow> ensures P (k y)) \<Longrightarrow> ensures P (then_ok r k)" by (cases r) simp_all
  show "(\<And>x y. p = (x, y) \<Longrightarrow> ensures P (k' x y)) \<Longrightarrow> ensures P (case p of (x, y) \<Rightarrow> k' x y)" by (cases p) simp
  show "(v = None \<Longrightarrow> ensures P s) \<Longrightarrow> (\<And>x. v = Some x \<Longrightarrow> ensures P (k'' x)) \<Longrightarrow>
     ensures P (case v of None \<Rightarrow> s | Some x \<Rightarrow> k'' x)" by (cases v) simp_all
qed simp_all

lemma ensures_insert: "ensures (same_history f) (InsertOverrideRevision ck r f)"
  unfolding ensures_def using insert_override_history by (simp split: sum.split)

lemma split_history: "ensures (\<lambda>x. same_history f (snd x)) (split_override ck sid head cmd at' f)"
  unfolding split_override_def Let_def
  by (intro ensures_walk) (simp, rule same_history_trans, (erule insert_override_history)+)

lemma CreateOverride_history: "ensures (\<lambda>x. same_history f (snd x)) (CreateOverride ck tid cmd f)"
  unfolding CreateOverride_def Let_def
  by (intro ensures_walk, simp, erule insert_override_history)

lemma UpdateOverride_history: "ensures (\<lambda>x. same_history f (snd x)) (UpdateOverride ck sid oid expected cmd f)"
  unfolding UpdateOverride_def Let_def
  by (intro ensures_walk split_history, simp, erule insert_override_history)

lemma CancelOverride_history: "ensures (same_history f) (CancelOverride ck sid oid expected actor reason f)"
  unfolding CancelOverride_def Let_def by (intro ensures_walk ensures_insert)

lemma override_history:
  "CreateOverride ck tid cmd f = Inr x \<Longrightarrow> same_history f (snd x)"
  "UpdateOverride ck sid oid expected cmd f = Inr x \<Longrightarrow> same_history f (snd x)"
  "CancelOverride ck sid oid expected actor reason f = Inr f' \<Longrightarrow> same_history f f'"
  by (rule ensuresD [OF CreateOverride_history] ensuresD [OF UpdateOverride_history]
    ensuresD [OF CancelOverride_history], assumption)+

lemma team_history:
  "RemoveMember ck tid uid f = Inr f' \<Longrightarrow> same_history f f'"
  "DeleteTeam tid f = Inr f' \<Longrightarrow> same_history f f'"
  by (auto simp: RemoveMember_def DeleteTeam_def DeleteTeamMembership_def DeleteTeamRow_def same_history_def
    split: if_splits sum.splits)

text \<open>A command that is neither a save nor a deletion leaves the history alone.\<close>

lemma run_schedule_history:
  assumes "\<nexists>tid cmd. c = DoSave tid cmd" "\<nexists>tid cmd. c = DoDelete tid cmd"
  shows "same_history f (run_schedule ck c f)"
proof -
  have refl: "same_history f f" by (simp add: same_history_def)
  show ?thesis
  proof (cases c)
    case (DoCreateOverride tid cmd)
    show ?thesis unfolding DoCreateOverride run_schedule.simps
      by (rule kept_or_cases, rule refl, erule override_history(1))
  next
    case (DoUpdateOverride sid oid expected cmd)
    show ?thesis unfolding DoUpdateOverride run_schedule.simps
      by (rule kept_or_cases, rule refl, erule override_history(2))
  next
    case (DoCancelOverride sid oid expected actor reason)
    show ?thesis unfolding DoCancelOverride run_schedule.simps id_def
      by (rule kept_or_cases, rule refl, erule override_history(3))
  next
    case (DoRemoveMember tid uid)
    show ?thesis unfolding DoRemoveMember run_schedule.simps id_def
      by (rule kept_or_cases, rule refl, erule team_history(1))
  next
    case (DoDeleteTeam tid)
    show ?thesis unfolding DoDeleteTeam run_schedule.simps id_def
      by (rule kept_or_cases, rule refl, erule team_history(2))
  qed (use assms in blast)+
qed

lemma command_cases:
  obtains (save) tid cmd where "c = DoSave tid cmd" | (delete) tid cmd where "c = DoDelete tid cmd"
  | (other) "same_history f (run_schedule ck c f)"
  using run_schedule_history [of c f ck] by metis

lemma Save_chronicle:
  assumes "chronicle f" "Save ck tid cmd f = Inr x"
  shows "chronicle (snd x)"
proof -
  obtain res f' where "x = (res, f')" by force
  with assms(2) have "Save ck tid cmd f = Inr (res, f')" by simp
  then have "chronicle f'"
    by (rule Save_Inr [OF assms(1)])
      (use assms(1) founds_chronicle [OF assms(1)] extends_chronicle [OF assms(1)] in simp_all)
  then show ?thesis using \<open>x = (res, f')\<close> by simp
qed

lemma Delete_chronicle:
  assumes "chronicle f" "DeleteSchedule ck tid cmd f = Inr g"
  shows "chronicle g"
proof (rule DeleteSchedule_Inr [OF assms])
  fix root r assume r: "extends_ok f root r (Some (rvFrom r))"
    and g: "g = (extends f root r (Some (rvFrom r)))\<lparr>fOverrides := fOverrides g\<rparr>"
  have "chronicle ((extends f root r (Some (rvFrom r)))\<lparr>fOverrides := fOverrides g\<rparr>)"
    using extends_chronicle [OF assms(1) r] by (subst chronicle_cong [of _ "extends f root r (Some (rvFrom r))"]) simp_all
  then show "chronicle g" by (subst g)
qed

lemma run_schedule_chronicle:
  assumes "chronicle f"
  shows "chronicle (run_schedule ck c f)"
proof (cases rule: command_cases [where c = c and f = f and ck = ck])
  case (save tid cmd)
  show ?thesis unfolding save run_schedule.simps by (rule kept_or_cases, rule assms, erule Save_chronicle [OF assms])
next
  case (delete tid cmd)
  show ?thesis unfolding delete run_schedule.simps id_def
    by (rule kept_or_cases, rule assms, erule Delete_chronicle [OF assms])
next
  case other
  then show ?thesis using chronicle_cong assms unfolding same_history_def by blast
qed

text \<open>What is in force at an instant, as its reader sees it.\<close>

definition in_force_at :: "string \<Rightarrow> int \<Rightarrow> office \<Rightarrow> schedule_error + string \<times> string \<times> schedule_snapshot" where
  "in_force_at sid t f = map_sum id (\<lambda>r. (rvID r, rvKind r, rvSnapshot r)) (GetEffectiveRevision sid t f)"

lemma GetEffectiveRevision_revs:
  "GetEffectiveRevision sid t f = (case filter (in_force (NormalizeTimestamp t)) (revs sid f) of
     [] \<Rightarrow> Inl ErrRevisionNotFound | [r] \<Rightarrow> Inr r | _ \<Rightarrow> Inl ErrRevisionOverlap)"
  by (simp add: GetEffectiveRevision_def revs_def conj_commute)

lemma chronicle_in_force:
  assumes "chronicle f" "root \<in> set (fRoots f)"
  shows "if NormalizeTimestamp t < rtHistoryFrom root then GetEffectiveRevision (rtID root) t f = Inl ErrRevisionNotFound
     else \<exists>r \<in> set (revs (rtID root) f). GetEffectiveRevision (rtID root) t f = Inr r"
proof -
  let ?rs = "revs (rtID root) f"
  have ch: "linked ?rs" "rvFrom (hd ?rs) = rtHistoryFrom root"
    using assms by (simp_all add: chronicle_def chain_def Let_def)
  show ?thesis
  proof (cases "NormalizeTimestamp t < rtHistoryFrom root")
    case True
    with linked_before [OF ch(1)] ch(2) show ?thesis by (simp add: GetEffectiveRevision_revs)
  next
    case False
    then obtain r where r: "filter (in_force (NormalizeTimestamp t)) ?rs = [r]"
      using linked_in_force [OF ch(1), of "NormalizeTimestamp t"] ch(2) by auto
    then have "r \<in> set ?rs" using filter_eq_ConsD by fastforce
    with r False show ?thesis by (simp add: GetEffectiveRevision_revs)
  qed
qed

lemma filter_closed:
  assumes "t < u"
  shows "filter (in_force t) (map (closed_at u) rs) = map (closed_at u) (filter (in_force t) rs)"
  using assms by (induction rs) (simp_all add: in_force_closed)

lemma extends_past:
  assumes "extends_ok f root r d" "NormalizeTimestamp t < rvFrom r"
  shows "in_force_at sid t (extends f root r d) = in_force_at sid t f"
proof (cases "sid = rtID root")
  case True
  let ?xs = "filter (in_force (NormalizeTimestamp t)) (revs sid f)"
  have "\<not> in_force (NormalizeTimestamp t) r" using assms(2) by (simp add: in_force_def)
  then have "filter (in_force (NormalizeTimestamp t)) (revs sid (extends f root r d)) = map (closed_at (rvFrom r)) ?xs"
    using revs_extends(1) [OF assms(1)] True filter_closed [OF assms(2)] by simp
  then show ?thesis unfolding in_force_at_def GetEffectiveRevision_revs
    by (cases ?xs rule: linked.cases) simp_all
next
  case False
  then show ?thesis using revs_extends(2) [OF assms(1) False] by (simp add: in_force_at_def GetEffectiveRevision_revs)
qed

lemma founds_past:
  assumes "chronicle f" "founds_ok f root r" "NormalizeTimestamp t < rvFrom r"
  shows "in_force_at sid t (founds f root r) = in_force_at sid t f"
proof (cases "sid = rtID root")
  case True
  have "rvSchedule x \<noteq> rtID root" if "x \<in> set (fRevisions f)" for x
    using assms that by (metis founds_ok_def chronicle_def)
  then have "revs sid f = []" by (simp add: True revs_def filter_empty_conv)
  moreover have "\<not> in_force (NormalizeTimestamp t) r" using assms(3) by (simp add: in_force_def)
  ultimately show ?thesis using revs_founds(1) [OF assms(2,1)] True
    by (simp add: in_force_at_def GetEffectiveRevision_revs)
next
  case False
  then show ?thesis using revs_founds(2) [OF assms(2,1) False] by (simp add: in_force_at_def GetEffectiveRevision_revs)
qed

lemma same_history_past: "same_history f f' \<Longrightarrow> in_force_at sid t f' = in_force_at sid t f"
  by (simp add: same_history_def in_force_at_def GetEffectiveRevision_revs revs_def)

lemma run_schedule_past:
  assumes "chronicle f" "NormalizeTimestamp t < NormalizeTimestamp (ckNow ck)"
  shows "in_force_at sid t (run_schedule ck c f) = in_force_at sid t f"
proof (cases rule: command_cases [where c = c and f = f and ck = ck])
  case (save tid cmd)
  have past: "in_force_at sid t (snd x) = in_force_at sid t f" if "Save ck tid cmd f = Inr x" for x
  proof -
    obtain res f' where x: "x = (res, f')" by force
    with that have "Save ck tid cmd f = Inr (res, f')" by simp
    then have "in_force_at sid t f' = in_force_at sid t f"
      by (rule Save_Inr [OF assms(1)])
        (use assms founds_past [OF assms(1)] extends_past in simp_all)
    with x show ?thesis by simp
  qed
  show ?thesis unfolding save run_schedule.simps by (rule kept_or_cases, rule refl, erule past)
next
  case (delete tid cmd)
  have past: "in_force_at sid t g = in_force_at sid t f" if "DeleteSchedule ck tid cmd f = Inr g" for g
  proof (rule DeleteSchedule_Inr [OF assms(1) that])
    fix root r assume r: "extends_ok f root r (Some (rvFrom r))" "NormalizeTimestamp (ckNow ck) \<le> rvFrom r"
      and g: "g = (extends f root r (Some (rvFrom r)))\<lparr>fOverrides := fOverrides g\<rparr>"
    have "in_force_at sid t g = in_force_at sid t (extends f root r (Some (rvFrom r)))"
      by (subst g) (rule same_history_past, simp add: same_history_def)
    then show "in_force_at sid t g = in_force_at sid t f" using extends_past [OF r(1)] r(2) assms(2) by simp
  qed
  show ?thesis unfolding delete run_schedule.simps id_def by (rule kept_or_cases, rule refl, erule past)
next
  case other
  then show ?thesis by (rule same_history_past)
qed

end
