(* ===== verification/Phone.thy ===== *)
theory Phone
  imports People
begin

text \<open>
  A person's phone: the number, the code that proves it, the checks of Do Not Disturb, and
  the limiter in front of a provider account (\<open>internal/store/phone_store.go\<close>).
\<close>

section \<open>The number\<close>

definition linkProviderPhone :: string where "linkProviderPhone = ''phone''"
definition PhoneRefusedQuota :: string where "PhoneRefusedQuota = ''quota''"
definition PhoneRefusedInFlight :: string where "PhoneRefusedInFlight = ''in_flight''"
definition PhoneRefusedBusy :: string where "PhoneRefusedBusy = ''busy''"
definition phoneVerifyCallsPerHour :: nat where "phoneVerifyCallsPerHour = 3"
definition phoneCallsPerDay :: nat where "phoneCallsPerDay = 10"
definition phoneCodeAttempts :: int where "phoneCodeAttempts = 3"

definition Second :: int where "Second = 1000000000"
definition Hour :: int where "Hour = 3600 * Second"

definition GetPhoneContact :: "string \<Rightarrow> people \<Rightarrow> contact option" where
  "GetPhoneContact uid p = find (\<lambda>c. nUser c = uid) (pContacts p)"

definition Verified :: "contact option \<Rightarrow> bool" where
  "Verified c = (case c of None \<Rightarrow> False | Some k \<Rightarrow> nVerifiedAt k \<noteq> None)"

definition contacts_ok :: "contact list \<Rightarrow> bool" where
  "contacts_ok cs \<longleftrightarrow> distinct (map nID cs) \<and> distinct (map nUser cs)"

definition new_contact :: "int \<Rightarrow> string \<Rightarrow> string \<Rightarrow> string \<Rightarrow> contact" where
  "new_contact now fresh uid v = \<lparr>nID = fresh, nUser = uid, nValue = v, nVerifiedAt = None,
     nPinned = None, nUpdatedAt = now\<rparr>"

definition renumbered :: "int \<Rightarrow> string \<Rightarrow> contact \<Rightarrow> contact" where
  "renumbered now v c = c\<lparr>nValue := v,
     nVerifiedAt := (if nValue c = v then nVerifiedAt c else None),
     nPinned := (if nValue c = v then nPinned c else None),
     nUpdatedAt := (if nValue c = v then nUpdatedAt c else now)\<rparr>"

definition SetPhoneContact :: "int \<Rightarrow> string \<Rightarrow> string \<Rightarrow> string \<Rightarrow> people \<Rightarrow> contact option answer" where
  "SetPhoneContact now fresh uid v p =
     (case lockActiveUserTx uid p of Inl e \<Rightarrow> (Inl e, p) | Inr _ \<Rightarrow>
      let cs = upsert nUser (new_contact now fresh uid v) (renumbered now v) (pContacts p)
      in written (contacts_ok cs) (p\<lparr>pContacts := cs\<rparr>) p (\<lambda>p'. (Inr (GetPhoneContact uid p'), p')))"

definition DeletePhoneContact :: "string \<Rightarrow> people \<Rightarrow> unit answer" where
  "DeletePhoneContact uid p =
     (case lockActiveUserTx uid p of Inl e \<Rightarrow> (Inl e, p) | Inr _ \<Rightarrow>
      (Inr (), drop_link uid linkProviderPhone
         (p\<lparr>pContacts := filter (\<lambda>c. nUser c \<noteq> uid) (pContacts p),
            pChecks := filter (\<lambda>d. dUser d \<noteq> uid) (pChecks p)\<rparr>)))"

definition PinPhoneIntegration :: "int \<Rightarrow> string \<Rightarrow> string \<Rightarrow> string \<Rightarrow> people \<Rightarrow> unit answer" where
  "PinPhoneIntegration now uid number integration p =
     (let hit = (\<lambda>c. nUser c = uid \<and> nValue c = number \<and> activeUser uid p)
      in requireOneRow (length (filter hit (pContacts p))) ErrPhoneContactChanged
           (p\<lparr>pContacts := map (\<lambda>c. if hit c then c\<lparr>nPinned := null_if_empty integration,
              nUpdatedAt := now\<rparr> else c) (pContacts p)\<rparr>))"

section \<open>The limiter\<close>

record call_request =
  qUser :: string
  qPurpose :: string
  qTo :: string
  qFrom :: string
  qIntegration :: string
  qScope :: string
  qCPS :: int
  qMaxConcurrent :: int
  qHold :: int
  qRequireVerified :: bool

definition asked_calls :: "string \<Rightarrow> string \<Rightarrow> int \<Rightarrow> people \<Rightarrow> call_log list" where
  "asked_calls uid purpose since p =
     filter (\<lambda>g. gUser g = uid \<and> since < gCreatedAt g \<and> (purpose = [] \<or> gPurpose g = purpose)) (pCalls p)"

definition own_in_flight :: "call_request \<Rightarrow> int \<Rightarrow> people \<Rightarrow> reservation list" where
  "own_in_flight req now p = filter (\<lambda>v. vUser v = Some (qUser req) \<and> vPurpose v = qPurpose req
     \<and> vReleasedAt v = None \<and> now < vHoldUntil v
     \<and> (qPurpose req \<noteq> ''dnd_check'' \<or> vFrom v = qFrom req)) (pReservations p)"

definition latest :: "int list \<Rightarrow> int" where "latest ts = fold max (tl ts) (hd ts)"
definition earliest :: "int list \<Rightarrow> int" where "earliest ts = fold min (tl ts) (hd ts)"

definition over_quota :: "call_request \<Rightarrow> int \<Rightarrow> people \<Rightarrow> string \<Rightarrow> int \<Rightarrow> nat \<Rightarrow> people_error option" where
  "over_quota req now p purpose span limit =
     (let asked = asked_calls (qUser req) purpose (now - span) p
      in if limit \<le> length asked
         then Some (PhoneCallRefused PhoneRefusedQuota (earliest (map gCreatedAt asked) + span - now))
         else None)"

definition phoneAllowanceTx :: "call_request \<Rightarrow> int \<Rightarrow> people \<Rightarrow> people_error option" where
  "phoneAllowanceTx req now p =
     (let flying = own_in_flight req now p
      in if flying \<noteq> [] then Some (PhoneCallRefused PhoneRefusedInFlight (latest (map vHoldUntil flying) - now))
         else case (if qPurpose req = ''verify''
             then over_quota req now p ''verify'' Hour phoneVerifyCallsPerHour else None) of
           Some e \<Rightarrow> Some e
         | None \<Rightarrow> over_quota req now p [] (24 * Hour) phoneCallsPerDay)"

definition live_calls :: "string \<Rightarrow> int \<Rightarrow> people \<Rightarrow> reservation list" where
  "live_calls scope now p = filter (\<lambda>v. vScope v = scope \<and> vReleasedAt v = None \<and> now < vHoldUntil v) (pReservations p)"

definition accountCapacityTx :: "call_request \<Rightarrow> int \<Rightarrow> int \<Rightarrow> people \<Rightarrow> people_error option" where
  "accountCapacityTx req now nextFree p =
     (let live = live_calls (qScope req) now p
      in if qMaxConcurrent req \<le> int (length live)
         then Some (PhoneCallRefused PhoneRefusedBusy (earliest (map vHoldUntil live) - now))
         else if now < nextFree then Some (PhoneCallRefused PhoneRefusedBusy (nextFree - now))
         else None)"

text \<open>
  \<open>started\<close> is \<open>now()\<close>, the start of the transaction, which a new capacity row takes;
  \<open>now\<close> is \<open>clock_timestamp()\<close>, read once both locks are held.
\<close>

definition next_free :: "string \<Rightarrow> people \<Rightarrow> int option" where
  "next_free scope p = map_of (pCapacity p) scope"

definition ReservePhoneCall :: "int \<Rightarrow> int \<Rightarrow> string \<Rightarrow> call_request \<Rightarrow> people \<Rightarrow> (string \<times> int) answer" where
  "ReservePhoneCall started now fresh req p =
     (if qCPS req < 1 \<or> qMaxConcurrent req < 1 then (Inl NoCallCapacity, p)
      else if \<not> activeUser (qUser req) p then (Inl ErrUserNotFound, p)
      else
       let free = (case next_free (qScope req) p of None \<Rightarrow> started | Some t \<Rightarrow> t);
           mine = GetPhoneContact (qUser req) p
       in if (case mine of None \<Rightarrow> True | Some c \<Rightarrow> nValue c \<noteq> qTo req) then (Inl ErrPhoneContactChanged, p)
          else if qRequireVerified req \<and> \<not> Verified mine then (Inl ErrPhoneNotVerified, p)
          else case phoneAllowanceTx req now p of Some e \<Rightarrow> (Inl e, p) | None \<Rightarrow>
           (case accountCapacityTx req now free p of Some e \<Rightarrow> (Inl e, p) | None \<Rightarrow>
             let rs = pReservations p @ [\<lparr>vID = fresh, vScope = qScope req, vPurpose = qPurpose req,
                   vUser = Some (qUser req), vFrom = qFrom req, vCreatedAt = now,
                   vHoldUntil = now + qHold req, vReleasedAt = None\<rparr>]
             in written (distinct (map vID rs))
                 (p\<lparr>pReservations := rs,
                    pCapacity := upsert fst (qScope req, now + Second div qCPS req)
                      (\<lambda>_. (qScope req, now + Second div qCPS req)) (pCapacity p),
                    pCalls := pCalls p @ [\<lparr>gUser = qUser req, gPurpose = qPurpose req, gTo = Some (qTo req),
                      gFrom = qFrom req, gIntegration = qIntegration req, gCreatedAt = now\<rparr>]\<rparr>)
                 p (\<lambda>p'. (Inr (fresh, now + qHold req), p'))))"

definition ReleasePhoneReservation :: "int \<Rightarrow> string \<Rightarrow> people \<Rightarrow> unit answer" where
  "ReleasePhoneReservation now rid p =
     (Inr (), p\<lparr>pReservations := map (\<lambda>v. if vID v = rid \<and> vReleasedAt v = None
        then v\<lparr>vReleasedAt := Some now\<rparr> else v) (pReservations p)\<rparr>)"

section \<open>Proving the number\<close>

definition IssuePhoneCode :: "(string \<Rightarrow> string) \<Rightarrow> int \<Rightarrow> string \<Rightarrow> string \<Rightarrow> string \<Rightarrow> string \<Rightarrow> int
    \<Rightarrow> people \<Rightarrow> unit answer" where
  "IssuePhoneCode hashLinkToken now fresh uid number code ttl p =
     (if \<not> activeUser uid p then (Inl ErrUserNotFound, p)
      else let ls = upsert (\<lambda>l. (lUser l, lProvider l))
             \<lparr>lID = fresh, lUser = uid, lProvider = linkProviderPhone, lHash = hashLinkToken code,
              lExternalID = Some number, lAttempts = 0, lExpiresAt = now + ttl, lCreatedAt = now\<rparr>
             (\<lambda>l. l\<lparr>lHash := hashLinkToken code, lExternalID := Some number, lAttempts := 0,
                    lExpiresAt := now + ttl, lCreatedAt := now\<rparr>) (pLinks p)
           in written (links_ok ls) (p\<lparr>pLinks := ls\<rparr>) p (\<lambda>p'. (Inr (), p')))"

definition ConfirmPhoneCode :: "(string \<Rightarrow> string) \<Rightarrow> int \<Rightarrow> string \<Rightarrow> string \<Rightarrow> people \<Rightarrow> unit answer" where
  "ConfirmPhoneCode hashLinkToken now uid code p =
     (case lockActiveUserTx uid p of Inl e \<Rightarrow> (Inl e, p) | Inr _ \<Rightarrow>
      (case find (\<lambda>l. lUser l = uid \<and> lProvider l = linkProviderPhone) (pLinks p) of
         None \<Rightarrow> (Inl ErrLinkTokenInvalid, p)
       | Some l \<Rightarrow>
           if lExpiresAt l \<le> now \<or> phoneCodeAttempts \<le> lAttempts l
           then (Inl ErrLinkTokenExpired, drop_link uid linkProviderPhone p)
           else if hashLinkToken code \<noteq> lHash l then
             (if phoneCodeAttempts \<le> lAttempts l + 1
              then (Inl ErrLinkTokenExpired, drop_link uid linkProviderPhone p)
              else (Inl ErrLinkTokenInvalid, p\<lparr>pLinks := map (\<lambda>k. if lUser k = uid \<and>
                lProvider k = linkProviderPhone then k\<lparr>lAttempts := lAttempts k + 1\<rparr> else k) (pLinks p)\<rparr>))
           else let hit = (\<lambda>c. nUser c = uid \<and> nValue c = or_empty (lExternalID l)) in
             if filter hit (pContacts p) = [] then (Inl ErrLinkTokenInvalid, drop_link uid linkProviderPhone p)
             else (Inr (), drop_link uid linkProviderPhone
                (p\<lparr>pContacts := map (\<lambda>c. if hit c then c\<lparr>nVerifiedAt := Some now, nUpdatedAt := now\<rparr> else c)
                   (pContacts p)\<rparr>))))"

definition ConfirmDNDCheck :: "int \<Rightarrow> string \<Rightarrow> string \<Rightarrow> people \<Rightarrow> unit answer" where
  "ConfirmDNDCheck now uid sender p =
     (case lockActiveUserTx uid p of Inl e \<Rightarrow> (Inl e, p) | Inr _ \<Rightarrow>
      (let mine = GetPhoneContact uid p in
       if \<not> Verified mine then (Inl ErrPhoneNotVerified, p)
       else case mine of None \<Rightarrow> (Inl ErrPhoneNotVerified, p) | Some c \<Rightarrow>
         (Inr (), p\<lparr>pChecks := upsert (\<lambda>d. (dUser d, dPhone d, dSender d))
            \<lparr>dUser = uid, dPhone = nValue c, dSender = sender, dConfirmedAt = now\<rparr>
            (\<lambda>d. d\<lparr>dConfirmedAt := now\<rparr>) (pChecks p)\<rparr>)))"

definition PhoneDNDChecks :: "string \<Rightarrow> people \<Rightarrow> (string \<times> int) list" where
  "PhoneDNDChecks uid p = map (\<lambda>d. (dSender d, dConfirmedAt d)) (filter (\<lambda>d. dUser d = uid \<and>
     list_ex (\<lambda>c. nUser c = uid \<and> nValue c = dPhone d) (pContacts p)) (pChecks p))"

end
