(* ===== verification/Erasure.thy ===== *)
theory Erasure
  imports Cycle
begin

text \<open>
  What erasing a person does to the deliveries: \<open>CancelLiveOutboundIntentsForUser\<close> and
  \<open>ScrubOutboundEndpointsForUser\<close> of \<open>internal/store/erasure_store.go\<close>.

  The commitments aimed at the person are marked for good, what has not gone out is withdrawn,
  and the addresses leave the commitments, their attempts and the observations.  The theory
  shows that no constraint can stop it, that no address is left, and that the agreement
  between commitments and attempts survives it although it rewrites both.
\<close>

section \<open>Withdrawing\<close>

definition ActorErasure :: actor where
  "ActorErasure = \<lparr>aKind = ActorKindSystem, aRef = ''erasure''\<rparr>"

lemma ActorErasure_known: "SystemActor ComponentErasure = Inr ActorErasure" "\<not> ActorIsZero ActorErasure"
  by (simp_all add: SystemActor_def Components_def ActorErasure_def ActorIsZero_def)

definition for_person :: "string \<Rightarrow> row \<Rightarrow> bool" where
  "for_person uid r \<longleftrightarrow> rTargetKind r = TargetUser \<and> rTargetRef r = uid"

definition marked_row :: "int \<Rightarrow> row \<Rightarrow> row" where
  "marked_row now r = r\<lparr>rRecipientErasedAt := Some now, rUpdatedAt := now\<rparr>"

definition withdrawn_row :: "int \<Rightarrow> row \<Rightarrow> row" where
  "withdrawn_row now r = r\<lparr>rStatus := StatusCanceled, rLeaseToken := None, rLockedUntil := None,
     rWorkerID := None, rUpdatedAt := now\<rparr>"

definition flagged_row :: "int \<Rightarrow> row \<Rightarrow> row" where
  "flagged_row now r = r\<lparr>rCancellationRequested := True, rUpdatedAt := now\<rparr>"

definition withdrawOutbound ::
    "(row \<Rightarrow> bool) \<Rightarrow> (row \<Rightarrow> row) \<Rightarrow> string \<Rightarrow> string \<Rightarrow> db \<Rightarrow> store_error + (string \<times> family) list \<times> db" where
  "withdrawOutbound p f kind reason d =
     then_ok (update_intents p f d) (\<lambda>d1.
     let withdrawn = map (\<lambda>r. (rID r, rFamily r)) (filter p (dbIntents d))
     in then_ok (append_events (map fst withdrawn) kind reason ActorErasure d1) (\<lambda>d2.
        Inr (withdrawn, d2)))"

definition not_sent :: "string \<Rightarrow> row \<Rightarrow> bool" where
  "not_sent uid r \<longleftrightarrow> for_person uid r \<and> \<not> rReceiptRecorded r \<and> rStatus r \<in> {StatusPending, StatusManualReview}"

definition in_flight :: "string \<Rightarrow> row \<Rightarrow> bool" where
  "in_flight uid r \<longleftrightarrow> for_person uid r \<and> \<not> rReceiptRecorded r \<and> rStatus r = StatusSending"

definition CancelLiveOutboundIntentsForUser ::
    "int \<Rightarrow> string \<Rightarrow> db \<Rightarrow> store_error + (string \<times> family) list \<times> db" where
  "CancelLiveOutboundIntentsForUser now uid d =
     then_ok (update_intents (\<lambda>r. for_person uid r \<and> rRecipientErasedAt r = None) (marked_row now) d) (\<lambda>d1.
     then_ok (withdrawOutbound (not_sent uid) (withdrawn_row now) ''canceled''
       ''the recipient was erased'' d1) (\<lambda>(withdrawn, d2).
     then_ok (withdrawOutbound (in_flight uid) (flagged_row now) ''cancellation_requested''
       ''the recipient was erased; this send was already in flight'' d2) (\<lambda>(_, d3).
       Inr (withdrawn, d3))))"

section \<open>Scrubbing\<close>

definition redacted :: "int \<Rightarrow> bool \<Rightarrow> int option \<Rightarrow> int option" where
  "redacted now recorded old =
     (if recorded then (case old of None \<Rightarrow> Some now | Some t \<Rightarrow> Some t) else None)"

definition scrubbed_row :: "int \<Rightarrow> row \<Rightarrow> row" where
  "scrubbed_row now r = r\<lparr>rBoundEndpoint := None, rReceipt := None, rReceiptRef := None,
     rReceiptRedactedAt := redacted now (rReceiptRecorded r) (rReceiptRedactedAt r), rUpdatedAt := now\<rparr>"

definition scrubbed_attempt :: "int \<Rightarrow> attempt \<Rightarrow> attempt" where
  "scrubbed_attempt now t = t\<lparr>tBoundEndpoint := None, tReceipt := None,
     tReceiptRedactedAt := redacted now (tReceiptRecorded t) (tReceiptRedactedAt t), tSummary := None\<rparr>"

definition scrubbed_observation :: "int \<Rightarrow> observation \<Rightarrow> observation" where
  "scrubbed_observation now o' = o'\<lparr>oReceipt := None,
     oReceiptRedactedAt := redacted now (oReceiptRecorded o') (oReceiptRedactedAt o'), oSummary := None\<rparr>"

text \<open>The joins: the attempts of the person's commitments, and what was observed about those.\<close>

definition attempt_for :: "string \<Rightarrow> db \<Rightarrow> attempt \<Rightarrow> bool" where
  "attempt_for uid d t \<longleftrightarrow> list_ex (\<lambda>r. rID r = tIntentID t \<and> for_person uid r) (dbIntents d)"

definition observed_for :: "string \<Rightarrow> db \<Rightarrow> observation \<Rightarrow> bool" where
  "observed_for uid d o' \<longleftrightarrow> list_ex (\<lambda>t. tID t = oAttemptID o' \<and> attempt_for uid d t) (dbAttempts d)"

definition update_observations ::
    "(observation \<Rightarrow> bool) \<Rightarrow> (observation \<Rightarrow> observation) \<Rightarrow> db \<Rightarrow> store_error + db" where
  "update_observations p f d =
     (if list_all (\<lambda>x. p x \<longrightarrow> observation_checks (f x)) (dbObservations d)
      then Inr (d\<lparr>dbObservations := map (\<lambda>x. if p x then f x else x) (dbObservations d)\<rparr>)
      else Inl CheckViolated)"

definition ScrubOutboundEndpointsForUser :: "int \<Rightarrow> string \<Rightarrow> db \<Rightarrow> store_error + db" where
  "ScrubOutboundEndpointsForUser now uid d =
     then_ok (update_intents (\<lambda>r. for_person uid r \<and>
       (rBoundEndpoint r \<noteq> None \<or> rReceipt r \<noteq> None \<or> rReceiptRef r \<noteq> None)) (scrubbed_row now) d) (\<lambda>d1.
     then_ok (update_attempts (\<lambda>t. attempt_for uid d1 t \<and>
       (tBoundEndpoint t \<noteq> None \<or> tReceipt t \<noteq> None \<or> tSummary t \<noteq> None)) (scrubbed_attempt now) d1) (\<lambda>d2.
     update_observations (\<lambda>x. observed_for uid d2 x \<and> (oReceipt x \<noteq> None \<or> oSummary x \<noteq> None))
       (scrubbed_observation now) d2))"

section \<open>Withdrawing cannot fail\<close>

lemma row_sel [simp]:
  "rID (marked_row now r) = rID r" "rID (withdrawn_row now r) = rID r" "rID (flagged_row now r) = rID r"
  "rID (scrubbed_row now r) = rID r"
  "for_person uid (marked_row now r) = for_person uid r"
  "for_person uid (withdrawn_row now r) = for_person uid r"
  "for_person uid (flagged_row now r) = for_person uid r"
  "for_person uid (scrubbed_row now r) = for_person uid r"
  by (simp_all add: marked_row_def withdrawn_row_def flagged_row_def scrubbed_row_def for_person_def)

lemma checks_kept:
  "intent_checks (marked_row now r) = intent_checks r"
  "rStatus r = StatusSending \<Longrightarrow> intent_checks (flagged_row now r) = intent_checks r"
  unfolding check_defs marked_row_def flagged_row_def by simp_all

lemma marked_ok: "intent_checks r \<Longrightarrow> intent_checks (marked_row now r) \<and> row_step r (marked_row now r)"
  unfolding checks_kept by (simp add: marked_row_def row_step_def generation_step_def same_commitment_def)

lemma withdrawn_checks:
  assumes "intent_checks r" "not_sent uid r"
  shows "intent_checks (withdrawn_row now r)"
proof -
  note c = assms(1) [unfolded intent_checks_def]
  have s: "rStatus r = StatusPending \<or> rStatus r = StatusManualReview" using assms(2) by (auto simp: not_sent_def)
  have "rCurrentAttempt r = None" "\<not> rCancellationRequested r"
    using c s by (auto simp: sending_has_attempt_def cancel_flag_on_sending_def)
  moreover have "receipt_is_named (withdrawn_row now r) = receipt_is_named r"
    "counters_nonneg (withdrawn_row now r) = counters_nonneg r" "form_known (withdrawn_row now r) = form_known r"
    "satellite_has_parent (withdrawn_row now r) = satellite_has_parent r"
    "family_matches_kind (withdrawn_row now r) = family_matches_kind r"
    unfolding receipt_is_named_def counters_nonneg_def form_known_def satellite_has_parent_def
      family_matches_kind_def withdrawn_row_def by simp_all
  moreover have "sending_has_attempt (withdrawn_row now r) = (rCurrentAttempt r = None)"
    "lease_pair (withdrawn_row now r)" "cancel_flag_on_sending (withdrawn_row now r) = (\<not> rCancellationRequested r)"
    "lease_only_when_working (withdrawn_row now r)" "sending_has_lease (withdrawn_row now r)"
    "awaiting_has_wait (withdrawn_row now r)"
    unfolding sending_has_attempt_def lease_pair_def cancel_flag_on_sending_def lease_only_when_working_def
      sending_has_lease_def awaiting_has_wait_def withdrawn_row_def by simp_all
  moreover have "rReceiptRecorded (withdrawn_row now r) = rReceiptRecorded r"
    "rReceipt (withdrawn_row now r) = rReceipt r" "rReceiptRedactedAt (withdrawn_row now r) = rReceiptRedactedAt r"
    by (simp_all add: withdrawn_row_def)
  ultimately show ?thesis unfolding intent_checks_def using c by simp
qed

lemma withdrawn_ok:
  assumes "intent_checks r" "not_sent uid r"
  shows "intent_checks (withdrawn_row now r) \<and> row_step r (withdrawn_row now r)"
proof (intro conjI withdrawn_checks [OF assms] idle_step [OF assms(1)])
  show "rStatus r \<noteq> StatusSending" using assms(2) by (auto simp: not_sent_def)
  show "rStatus (withdrawn_row now r) \<noteq> StatusSending" by (simp add: withdrawn_row_def)
  show "same_commitment r (withdrawn_row now r)" by (simp add: withdrawn_row_def same_commitment_def)
qed (simp_all add: withdrawn_row_def)

lemma flagged_ok:
  assumes "intent_checks r" "in_flight uid r"
  shows "intent_checks (flagged_row now r) \<and> row_step r (flagged_row now r)"
proof -
  have "rStatus r = StatusSending" using assms(2) by (simp add: in_flight_def)
  then show ?thesis unfolding checks_kept(2) [OF \<open>rStatus r = StatusSending\<close>] using assms(1)
    by (simp add: flagged_row_def row_step_def generation_step_def same_commitment_def)
qed

lemma append_events_ok:
  assumes "\<not> ActorIsZero actor"
  shows "\<exists>d'. append_events is k why actor d = Inr d' \<and> same_rows d d'"
  using append_events_history [OF assms] unfolding writes_history_def by blast

text \<open>An update of commitments that keeps the constraints and the agreement of each.\<close>

lemma update_ok:
  assumes "sound d" "\<And>r. rID (f r) = rID r"
    and "\<And>r. r \<in> set (dbIntents d) \<Longrightarrow> p r \<Longrightarrow> intent_checks (f r) \<and> row_step r (f r)"
  shows "\<exists>d'. update_intents p f d = Inr d' \<and> quiet_step d d' \<and>
     dbIntents d' = map (\<lambda>r. if p r then f r else r) (dbIntents d) \<and> same_journal d d'"
proof -
  have "update_intents p f d = Inr (d\<lparr>dbIntents := map (\<lambda>r. if p r then f r else r) (dbIntents d)\<rparr>)"
    by (rule update_intents_ok) (use assms(3) in blast)
  moreover from update_intents_quiet [OF assms(1) this assms(2)] assms(3)
  have "quiet_step d (d\<lparr>dbIntents := map (\<lambda>r. if p r then f r else r) (dbIntents d)\<rparr>)" by blast
  ultimately show ?thesis by (auto simp: same_journal_def)
qed

lemma withdrawOutbound_ok:
  assumes "sound d" "\<And>r. rID (f r) = rID r"
    and "\<And>r. r \<in> set (dbIntents d) \<Longrightarrow> p r \<Longrightarrow> intent_checks (f r) \<and> row_step r (f r)"
  shows "\<exists>w d'. withdrawOutbound p f k why d = Inr (w, d') \<and> quiet_step d d' \<and>
     dbIntents d' = map (\<lambda>r. if p r then f r else r) (dbIntents d) \<and> same_journal d d'"
proof -
  obtain d1 where d1: "update_intents p f d = Inr d1" "quiet_step d d1"
    "dbIntents d1 = map (\<lambda>r. if p r then f r else r) (dbIntents d)" "same_journal d d1"
    using update_ok [OF assms] by blast
  obtain d2 where d2: "append_events (map rID (filter p (dbIntents d))) k why ActorErasure d1 = Inr d2"
    "same_rows d1 d2" using append_events_ok [OF ActorErasure_known(2)] by blast
  have "quiet_step d1 d2" using d2(2) d1(2) quiet_step_sound quiet_same_rows by blast
  note q = quiet_step_trans [OF d1(2) this]
  have "map fst (map (\<lambda>r. (rID r, rFamily r)) xs) = map rID xs" for xs :: "row list"
    by (induction xs) simp_all
  then have "withdrawOutbound p f k why d = Inr (map (\<lambda>r. (rID r, rFamily r)) (filter p (dbIntents d)), d2)"
    using d1(1) d2(1) by (simp add: withdrawOutbound_def Let_def del: map_map)
  moreover have "dbIntents d2 = dbIntents d1" "same_journal d d2"
    using d1(4) d2(2) by (simp_all add: same_rows_def same_journal_def)
  ultimately show ?thesis using q d1(3) by auto
qed


section \<open>Scrubbing cannot fail either\<close>

lemma redacted_state: "receipt_state recorded receipt old \<Longrightarrow> receipt_state recorded None (redacted now recorded old)"
  by (auto simp: receipt_state_def redacted_def split: option.split)

lemma scrubbed_row_checks:
  assumes "intent_checks r"
  shows "intent_checks (scrubbed_row now r)"
proof -
  note c = assms [unfolded intent_checks_def]
  have "sending_has_attempt (scrubbed_row now r) = sending_has_attempt r"
    "lease_pair (scrubbed_row now r) = lease_pair r"
    "cancel_flag_on_sending (scrubbed_row now r) = cancel_flag_on_sending r"
    "lease_only_when_working (scrubbed_row now r) = lease_only_when_working r"
    "sending_has_lease (scrubbed_row now r) = sending_has_lease r"
    "counters_nonneg (scrubbed_row now r) = counters_nonneg r"
    "awaiting_has_wait (scrubbed_row now r) = awaiting_has_wait r"
    "form_known (scrubbed_row now r) = form_known r"
    "satellite_has_parent (scrubbed_row now r) = satellite_has_parent r"
    "family_matches_kind (scrubbed_row now r) = family_matches_kind r"
    "receipt_is_named (scrubbed_row now r)"
    unfolding check_defs scrubbed_row_def by simp_all
  moreover have "rReceiptRecorded (scrubbed_row now r) = rReceiptRecorded r" "rReceipt (scrubbed_row now r) = None"
    "rReceiptRedactedAt (scrubbed_row now r) = redacted now (rReceiptRecorded r) (rReceiptRedactedAt r)"
    by (simp_all add: scrubbed_row_def)
  ultimately show ?thesis unfolding intent_checks_def
    using c redacted_state [of "rReceiptRecorded r" "rReceipt r" "rReceiptRedactedAt r" now] by simp
qed

lemma scrubbed_attempt_checks:
  assumes "attempt_checks t"
  shows "attempt_checks (scrubbed_attempt now t)"
proof -
  note c = assms [unfolded attempt_checks_def]
  have "kind_shape (scrubbed_attempt now t) = kind_shape t" "finished_shape (scrubbed_attempt now t) = finished_shape t"
    "fingerprint_shape (scrubbed_attempt now t) = fingerprint_shape t"
    "digest_len (scrubbed_attempt now t) = digest_len t"
    "result_detail_known (scrubbed_attempt now t) = result_detail_known t"
    unfolding attempt_check_defs scrubbed_attempt_def by simp_all
  moreover have "tReceiptRecorded (scrubbed_attempt now t) = tReceiptRecorded t"
    "tReceipt (scrubbed_attempt now t) = None"
    "tReceiptRedactedAt (scrubbed_attempt now t) = redacted now (tReceiptRecorded t) (tReceiptRedactedAt t)"
    by (simp_all add: scrubbed_attempt_def)
  ultimately show ?thesis unfolding attempt_checks_def
    using c redacted_state [of "tReceiptRecorded t" "tReceipt t" "tReceiptRedactedAt t" now] by simp
qed

lemma scrubbed_observation_checks:
  "observation_checks x \<Longrightarrow> observation_checks (scrubbed_observation now x)"
  using redacted_state [of "oReceiptRecorded x" "oReceipt x" "oReceiptRedactedAt x" now]
  by (simp add: observation_checks_def scrubbed_observation_def)

section \<open>The agreement survives\<close>

text \<open>The addresses of some commitments are removed, from them and from every attempt under them.\<close>

definition row_forgets :: "bool \<Rightarrow> row \<Rightarrow> row \<Rightarrow> bool" where
  "row_forgets b r r' \<longleftrightarrow> rID r' = rID r \<and> rGenerationNo r' = rGenerationNo r \<and> rCreateKey r' = rCreateKey r \<and>
     rCurrentAttempt r' = rCurrentAttempt r \<and> rLeaseToken r' = rLeaseToken r \<and>
     rBoundEndpoint r' = (if b then None else rBoundEndpoint r)"

definition attempt_forgets :: "bool \<Rightarrow> attempt \<Rightarrow> attempt \<Rightarrow> bool" where
  "attempt_forgets b t u \<longleftrightarrow> tID u = tID t \<and> tIntentID u = tIntentID t \<and> tAttemptNo u = tAttemptNo t \<and>
     tRecordKind u = tRecordKind t \<and> tGenerationNo u = tGenerationNo t \<and> tAttemptKind u = tAttemptKind t \<and>
     tProviderKey u = tProviderKey t \<and> tLeaseToken u = tLeaseToken t \<and> tFinishedAt u = tFinishedAt t \<and>
     tBoundEndpoint u = (if b then None else tBoundEndpoint t)"

lemma calls_forget:
  "calls_as_bound r t \<Longrightarrow> rID r = tIntentID t \<Longrightarrow> row_forgets b r r' \<Longrightarrow> attempt_forgets b t u \<Longrightarrow>
     calls_as_bound r' u"
  by (auto simp: calls_as_bound_def row_forgets_def attempt_forgets_def)

lemma pact_forgets:
  assumes p: "pact d" and "sound d'"
    and rows: "list_all2 (\<lambda>r. row_forgets (P (rID r)) r) (dbIntents d) (dbIntents d')"
    and atts: "list_all2 (\<lambda>t. attempt_forgets (P (tIntentID t)) t) (dbAttempts d) (dbAttempts d')"
  shows "pact d'"
proof -
  have keys: "map (\<lambda>t. (tIntentID t, tAttemptNo t)) (dbAttempts d') = map (\<lambda>t. (tIntentID t, tAttemptNo t)) (dbAttempts d)"
    using atts by (induction rule: list_all2_induct) (simp_all add: attempt_forgets_def)
  have "numbered d'" using p unfolding pact_def numbered_def keys by simp
  moreover have "held_open d'" unfolding held_open_def
  proof (intro ballI allI impI)
    fix r' a assume r': "r' \<in> set (dbIntents d')" "rCurrentAttempt r' = Some a"
    obtain r where r: "r \<in> set (dbIntents d)" "row_forgets (P (rID r)) r r'"
      using list_all2_back [OF rows r'(1)] by blast
    then have "rCurrentAttempt r = Some a" using r'(2) by (simp add: row_forgets_def)
    with p r(1) obtain t where t: "t \<in> set (dbAttempts d)" "tID t = a" "tIntentID t = rID r"
      "tFinishedAt t = None" "tLeaseToken t = rLeaseToken r" "tGenerationNo t = rGenerationNo r"
      unfolding pact_def held_open_def by blast
    obtain u where "u \<in> set (dbAttempts d')" "attempt_forgets (P (tIntentID t)) t u"
      using list_all2_there [OF atts t(1)] by blast
    with t r(2) show "\<exists>t\<in>set (dbAttempts d'). tID t = a \<and> tIntentID t = rID r' \<and> tFinishedAt t = None \<and>
        tLeaseToken t = rLeaseToken r' \<and> tGenerationNo t = rGenerationNo r'"
      by (intro bexI [of _ u]) (simp_all add: row_forgets_def attempt_forgets_def)
  qed
  moreover have "open_held d'" unfolding open_held_def
  proof (intro ballI impI)
    fix u assume u: "u \<in> set (dbAttempts d')" "tFinishedAt u = None"
    obtain t where t: "t \<in> set (dbAttempts d)" "attempt_forgets (P (tIntentID t)) t u"
      using list_all2_back [OF atts u(1)] by blast
    then have "tFinishedAt t = None" using u(2) by (simp add: attempt_forgets_def)
    with p t(1) obtain r where r: "r \<in> set (dbIntents d)" "rID r = tIntentID t" "rCurrentAttempt r = Some (tID t)"
      unfolding pact_def open_held_def by blast
    obtain r' where "r' \<in> set (dbIntents d')" "row_forgets (P (rID r)) r r'"
      using list_all2_there [OF rows r(1)] by blast
    with r t(2) show "\<exists>r\<in>set (dbIntents d'). rID r = tIntentID u \<and> rCurrentAttempt r = Some (tID u)"
      by (intro bexI [of _ r']) (simp_all add: row_forgets_def attempt_forgets_def)
  qed
  moreover have "bound_calls d'" unfolding bound_calls_def
  proof (intro ballI impI)
    fix u assume u: "u \<in> set (dbAttempts d')" "tRecordKind u = RecordAttempt"
    obtain t where t: "t \<in> set (dbAttempts d)" "attempt_forgets (P (tIntentID t)) t u"
      using list_all2_back [OF atts u(1)] by blast
    then have "tRecordKind t = RecordAttempt" using u(2) by (simp add: attempt_forgets_def)
    with p t(1) obtain r where r: "r \<in> set (dbIntents d)" "rID r = tIntentID t" "calls_as_bound r t"
      unfolding pact_def bound_calls_def by blast
    obtain r' where r': "r' \<in> set (dbIntents d')" "row_forgets (P (rID r)) r r'"
      using list_all2_there [OF rows r(1)] by blast
    then have "calls_as_bound r' u" using calls_forget [OF r(3,2)] t(2) r(2) by simp
    with r' r(2) t(2) show "\<exists>r\<in>set (dbIntents d'). rID r = tIntentID u \<and> calls_as_bound r u"
      by (intro bexI [of _ r']) (simp_all add: row_forgets_def attempt_forgets_def)
  qed
  moreover have "one_effect d'" unfolding one_effect_def
  proof (intro ballI impI)
    fix t' u' assume tu: "t' \<in> set (dbAttempts d')" "u' \<in> set (dbAttempts d')"
      "tRecordKind t' = RecordAttempt \<and> tRecordKind u' = RecordAttempt \<and>
       tIntentID t' = tIntentID u' \<and> tGenerationNo t' = tGenerationNo u'"
    obtain t u where o: "t \<in> set (dbAttempts d)" "attempt_forgets (P (tIntentID t)) t t'"
      "u \<in> set (dbAttempts d)" "attempt_forgets (P (tIntentID u)) u u'"
      using list_all2_back [OF atts tu(1)] list_all2_back [OF atts tu(2)] by blast
    note fr = o(2) [unfolded attempt_forgets_def] o(4) [unfolded attempt_forgets_def]
    have "tRecordKind t = RecordAttempt \<and> tRecordKind u = RecordAttempt \<and>
       tIntentID t = tIntentID u \<and> tGenerationNo t = tGenerationNo u" using tu(3) fr by simp
    moreover from this have "same_effect t u" using p o(1,3) unfolding pact_def one_effect_def by blast
    ultimately show "same_effect t' u'" using fr by (simp add: same_effect_def)
  qed
  ultimately show ?thesis using assms(2) by (simp add: pact_def)
qed

section \<open>Erasing a person from the deliveries\<close>

definition erase_deliveries :: "int \<Rightarrow> string \<Rightarrow> db \<Rightarrow> store_error + (string \<times> family) list \<times> db" where
  "erase_deliveries now uid d =
     then_ok (CancelLiveOutboundIntentsForUser now uid d) (\<lambda>(withdrawn, d1).
     then_ok (ScrubOutboundEndpointsForUser now uid d1) (\<lambda>d2. Inr (withdrawn, d2)))"

text \<open>What the three statements of the withdrawal do to one row.\<close>

definition marks :: "int \<Rightarrow> string \<Rightarrow> row \<Rightarrow> row" where
  "marks now uid r = (if for_person uid r \<and> rRecipientErasedAt r = None then marked_row now r else r)"

definition withdraws :: "int \<Rightarrow> string \<Rightarrow> row \<Rightarrow> row" where
  "withdraws now uid r = (if not_sent uid r then withdrawn_row now r else r)"

definition flags :: "int \<Rightarrow> string \<Rightarrow> row \<Rightarrow> row" where
  "flags now uid r = (if in_flight uid r then flagged_row now r else r)"

definition withdrawal :: "int \<Rightarrow> string \<Rightarrow> row \<Rightarrow> row" where
  "withdrawal now uid r = flags now uid (withdraws now uid (marks now uid r))"

text \<open>
  A commitment of an erased person: marked, and - unless a receipt is on record - neither queued
  nor under review, and flagged when it is in flight.  It may be awaiting a receipt.
\<close>

definition not_queued :: "row \<Rightarrow> bool" where
  "not_queued r \<longleftrightarrow> rRecipientErasedAt r \<noteq> None \<and> (rReceiptRecorded r \<or>
     rStatus r \<notin> {StatusPending, StatusManualReview} \<and> (rStatus r = StatusSending \<longrightarrow> rCancellationRequested r))"

lemma withdrawal_row:
  "rID (withdrawal now uid r) = rID r" "for_person u (withdrawal now uid r) = for_person u r"
  "\<not> for_person uid r \<Longrightarrow> withdrawal now uid r = r"
  "for_person uid r \<Longrightarrow> not_queued (withdrawal now uid r)"
proof -
  show "rID (withdrawal now uid r) = rID r" "for_person u (withdrawal now uid r) = for_person u r"
    by (simp_all add: withdrawal_def marks_def withdraws_def flags_def)
  show "withdrawal now uid r = r" if "\<not> for_person uid r"
    using that by (simp add: withdrawal_def marks_def withdraws_def flags_def not_sent_def in_flight_def)
  have m: "rRecipientErasedAt (marks now uid r) \<noteq> None \<and> for_person uid (marks now uid r)" if "for_person uid r"
    using that by (simp add: marks_def) (simp add: marked_row_def)
  have w: "rRecipientErasedAt (withdraws now uid s) = rRecipientErasedAt s \<and>
      (rReceiptRecorded (withdraws now uid s) \<or> rStatus (withdraws now uid s) \<notin> {StatusPending, StatusManualReview})
      \<and> for_person uid (withdraws now uid s)" if "for_person uid s" for s
    using that by (cases "not_sent uid s") (auto simp: withdraws_def withdrawn_row_def not_sent_def for_person_def)
  have f: "rRecipientErasedAt (flags now uid s) = rRecipientErasedAt s \<and> rStatus (flags now uid s) = rStatus s \<and>
      rReceiptRecorded (flags now uid s) = rReceiptRecorded s \<and>
      (rReceiptRecorded s \<or> rStatus s = StatusSending \<longrightarrow> rReceiptRecorded s \<or> rCancellationRequested (flags now uid s))"
    if "for_person uid s" for s
    using that by (cases "in_flight uid s") (auto simp: flags_def flagged_row_def in_flight_def)
  show "not_queued (withdrawal now uid r)" if p: "for_person uid r"
  proof -
    note m' = m [OF p]
    note w' = w [OF conjunct2 [OF m']]
    note f' = f [OF conjunct2 [OF conjunct2 [OF w']]]
    show ?thesis unfolding not_queued_def withdrawal_def using m' w' f' by metis
  qed
qed

lemma CancelLive_ok:
  assumes "sound d"
  shows "\<exists>w d'. CancelLiveOutboundIntentsForUser now uid d = Inr (w, d') \<and> quiet_step d d' \<and>
     dbIntents d' = map (withdrawal now uid) (dbIntents d) \<and> same_journal d d'"
proof -
  have "\<exists>d1. update_intents (\<lambda>r. for_person uid r \<and> rRecipientErasedAt r = None) (marked_row now) d = Inr d1 \<and>
      quiet_step d d1 \<and> dbIntents d1 = map (\<lambda>r. if for_person uid r \<and> rRecipientErasedAt r = None
        then marked_row now r else r) (dbIntents d) \<and> same_journal d d1"
    by (rule update_ok [OF assms]) (use marked_ok sound_checks [OF assms] in simp_all)
  then obtain d1 where d1: "update_intents (\<lambda>r. for_person uid r \<and> rRecipientErasedAt r = None) (marked_row now) d = Inr d1"
    "quiet_step d d1" "dbIntents d1 = map (marks now uid) (dbIntents d)" "same_journal d d1"
    by (auto simp: marks_def [abs_def])
  have s1: "sound d1" using d1(2) by (rule quiet_step_sound)
  have "\<exists>w d2. withdrawOutbound (not_sent uid) (withdrawn_row now) ''canceled'' ''the recipient was erased'' d1 = Inr (w, d2) \<and>
      quiet_step d1 d2 \<and> dbIntents d2 = map (\<lambda>r. if not_sent uid r then withdrawn_row now r else r) (dbIntents d1) \<and>
      same_journal d1 d2"
    by (rule withdrawOutbound_ok [OF s1]) (use withdrawn_ok sound_checks [OF s1] in simp_all)
  then obtain w d2 where d2: "withdrawOutbound (not_sent uid) (withdrawn_row now) ''canceled''
      ''the recipient was erased'' d1 = Inr (w, d2)"
    "quiet_step d1 d2" "dbIntents d2 = map (withdraws now uid) (dbIntents d1)" "same_journal d1 d2"
    by (auto simp: withdraws_def [abs_def])
  have s2: "sound d2" using d2(2) by (rule quiet_step_sound)
  have "\<exists>x d3. withdrawOutbound (in_flight uid) (flagged_row now) ''cancellation_requested''
      ''the recipient was erased; this send was already in flight'' d2 = Inr (x, d3) \<and>
      quiet_step d2 d3 \<and> dbIntents d3 = map (\<lambda>r. if in_flight uid r then flagged_row now r else r) (dbIntents d2) \<and>
      same_journal d2 d3"
    by (rule withdrawOutbound_ok [OF s2]) (use flagged_ok sound_checks [OF s2] in simp_all)
  then obtain x d3 where d3: "withdrawOutbound (in_flight uid) (flagged_row now) ''cancellation_requested''
      ''the recipient was erased; this send was already in flight'' d2 = Inr (x, d3)"
    "quiet_step d2 d3" "dbIntents d3 = map (flags now uid) (dbIntents d2)" "same_journal d2 d3"
    by (auto simp: flags_def [abs_def])
  have "CancelLiveOutboundIntentsForUser now uid d = Inr (w, d3)"
    unfolding CancelLiveOutboundIntentsForUser_def using d1(1) d2(1) d3(1) by simp
  moreover have "dbIntents d3 = map (withdrawal now uid) (dbIntents d)"
    using d1(3) d2(3) d3(3) by (simp add: withdrawal_def)
  moreover have "quiet_step d d3" using quiet_step_trans [OF quiet_step_trans [OF d1(2) d2(2)] d3(2)] .
  moreover have "same_journal d d3"
    using same_journal_trans [OF same_journal_trans [OF d1(4) d2(4)] d3(4)] .
  ultimately show ?thesis by blast
qed

text \<open>Nothing in these records says where the person can be reached.\<close>

definition row_clean :: "row \<Rightarrow> bool" where
  "row_clean r \<longleftrightarrow> rBoundEndpoint r = None \<and> rReceipt r = None \<and> rReceiptRef r = None"

definition attempt_clean :: "attempt \<Rightarrow> bool" where
  "attempt_clean t \<longleftrightarrow> tBoundEndpoint t = None \<and> tReceipt t = None \<and> tSummary t = None"

definition observation_clean :: "observation \<Rightarrow> bool" where
  "observation_clean x \<longleftrightarrow> oReceipt x = None \<and> oSummary x = None"

definition scrubs_row :: "int \<Rightarrow> string \<Rightarrow> row \<Rightarrow> row" where
  "scrubs_row now uid r = (if for_person uid r \<and>
     (rBoundEndpoint r \<noteq> None \<or> rReceipt r \<noteq> None \<or> rReceiptRef r \<noteq> None) then scrubbed_row now r else r)"

definition scrubs_attempt :: "int \<Rightarrow> string \<Rightarrow> db \<Rightarrow> attempt \<Rightarrow> attempt" where
  "scrubs_attempt now uid d t = (if attempt_for uid d t \<and>
     (tBoundEndpoint t \<noteq> None \<or> tReceipt t \<noteq> None \<or> tSummary t \<noteq> None) then scrubbed_attempt now t else t)"

definition scrubs_observation :: "int \<Rightarrow> string \<Rightarrow> db \<Rightarrow> observation \<Rightarrow> observation" where
  "scrubs_observation now uid d x = (if observed_for uid d x \<and> (oReceipt x \<noteq> None \<or> oSummary x \<noteq> None)
     then scrubbed_observation now x else x)"

lemma Scrub_ok:
  assumes "sound d" "\<forall>x\<in>set (dbObservations d). observation_checks x"
  shows "\<exists>d1 d2 d'. ScrubOutboundEndpointsForUser now uid d = Inr d' \<and> sound d' \<and>
     dbIntents d' = map (scrubs_row now uid) (dbIntents d) \<and>
     dbIntents d1 = dbIntents d' \<and> dbAttempts d' = map (scrubs_attempt now uid d1) (dbAttempts d) \<and>
     dbIntents d2 = dbIntents d' \<and> dbAttempts d2 = dbAttempts d' \<and>
     dbObservations d' = map (scrubs_observation now uid d2) (dbObservations d)"
proof -
  let ?p = "\<lambda>r. for_person uid r \<and> (rBoundEndpoint r \<noteq> None \<or> rReceipt r \<noteq> None \<or> rReceiptRef r \<noteq> None)"
  let ?d1 = "d\<lparr>dbIntents := map (scrubs_row now uid) (dbIntents d)\<rparr>"
  have u1: "update_intents ?p (scrubbed_row now) d = Inr ?d1"
    using update_intents_ok [of d ?p "scrubbed_row now"] scrubbed_row_checks sound_checks [OF assms(1)]
    by (simp add: scrubs_row_def [abs_def])
  have s1: "sound ?d1"
    using sound_map [OF assms(1), of "scrubbed_row now" ?p] scrubbed_row_checks sound_checks [OF assms(1)]
    by (simp add: scrubs_row_def [abs_def])
  let ?q = "\<lambda>t. attempt_for uid ?d1 t \<and> (tBoundEndpoint t \<noteq> None \<or> tReceipt t \<noteq> None \<or> tSummary t \<noteq> None)"
  let ?d2 = "?d1\<lparr>dbAttempts := map (scrubs_attempt now uid ?d1) (dbAttempts d)\<rparr>"
  have "list_all (\<lambda>t. ?q t \<longrightarrow> attempt_checks (scrubbed_attempt now t)) (dbAttempts ?d1)"
    using assms(1) scrubbed_attempt_checks by (simp add: list_all_iff sound_def)
  then have u2: "update_attempts ?q (scrubbed_attempt now) ?d1 = Inr ?d2"
    by (simp add: update_attempts_def scrubs_attempt_def [abs_def])
  have "sound ?d2" by (rule update_attempts_sound [OF s1 u2]) (simp add: scrubbed_attempt_def)
  let ?o = "\<lambda>x. observed_for uid ?d2 x \<and> (oReceipt x \<noteq> None \<or> oSummary x \<noteq> None)"
  let ?d3 = "?d2\<lparr>dbObservations := map (scrubs_observation now uid ?d2) (dbObservations d)\<rparr>"
  have "list_all (\<lambda>x. ?o x \<longrightarrow> observation_checks (scrubbed_observation now x)) (dbObservations ?d2)"
    using assms(2) scrubbed_observation_checks by (simp add: list_all_iff)
  then have u3: "update_observations ?o (scrubbed_observation now) ?d2 = Inr ?d3"
    by (simp add: update_observations_def scrubs_observation_def [abs_def])
  have "ScrubOutboundEndpointsForUser now uid d = Inr ?d3"
    unfolding ScrubOutboundEndpointsForUser_def u1 then_ok_simps u2 u3 ..
  moreover have "sound ?d3" using \<open>sound ?d2\<close> by (simp add: sound_def)
  ultimately show ?thesis by (intro exI [of _ ?d1] exI [of _ ?d2] exI [of _ ?d3]) simp
qed

lemma list_all2_map_same: "(\<And>x. x \<in> set xs \<Longrightarrow> R x (f x)) \<Longrightarrow> list_all2 R xs (map f xs)"
  by (induction xs) simp_all

lemma one_row_per_id: "sound d \<Longrightarrow> r \<in> set (dbIntents d) \<Longrightarrow> s \<in> set (dbIntents d) \<Longrightarrow> rID r = rID s \<Longrightarrow> r = s"
  by (simp add: sound_def distinct_map inj_on_def)

lemma scrubs_row_sel:
  "rID (scrubs_row now uid r) = rID r" "for_person u (scrubs_row now uid r) = for_person u r"
  by (simp_all add: scrubs_row_def)

lemma attempt_for_scrubbed:
  "dbIntents d' = map (scrubs_row now uid) (dbIntents d) \<Longrightarrow> attempt_for u d' t = attempt_for u d t"
  by (simp add: attempt_for_def list_ex_iff scrubs_row_sel)

lemma scrub_pact:
  assumes "pact d" "sound d'"
    and "dbIntents d' = map (scrubs_row now uid) (dbIntents d)"
    and "dbAttempts d' = map (scrubs_attempt now uid d1) (dbAttempts d)" "dbIntents d1 = dbIntents d'"
  shows "pact d'"
proof (rule pact_forgets [where P = "\<lambda>i. list_ex (\<lambda>r. rID r = i \<and> for_person uid r) (dbIntents d)", OF assms(1,2)])
  have sd: "sound d" using assms(1) by (simp add: pact_def)
  have same: "list_ex (\<lambda>s. rID s = rID r \<and> for_person uid s) (dbIntents d) = for_person uid r"
    if "r \<in> set (dbIntents d)" for r
    unfolding list_ex_iff using that one_row_per_id [OF sd _ that] by metis
  show "list_all2 (\<lambda>r. row_forgets (list_ex (\<lambda>s. rID s = rID r \<and> for_person uid s) (dbIntents d)) r)
      (dbIntents d) (dbIntents d')"
    unfolding assms(3)
  proof (rule list_all2_map_same)
    fix r assume "r \<in> set (dbIntents d)"
    then show "row_forgets (list_ex (\<lambda>s. rID s = rID r \<and> for_person uid s) (dbIntents d)) r (scrubs_row now uid r)"
      unfolding same [OF \<open>r \<in> set (dbIntents d)\<close>] by (simp add: row_forgets_def scrubs_row_def scrubbed_row_def)
  qed
  show "list_all2 (\<lambda>t. attempt_forgets (list_ex (\<lambda>r. rID r = tIntentID t \<and> for_person uid r) (dbIntents d)) t)
      (dbAttempts d) (dbAttempts d')"
    unfolding assms(4)
  proof (rule list_all2_map_same)
    fix t
    have "attempt_for uid d1 t = list_ex (\<lambda>r. rID r = tIntentID t \<and> for_person uid r) (dbIntents d)"
      using assms(3,5) by (simp add: attempt_for_def list_ex_iff scrubs_row_sel)
    then show "attempt_forgets (list_ex (\<lambda>r. rID r = tIntentID t \<and> for_person uid r) (dbIntents d)) t
        (scrubs_attempt now uid d1 t)"
      by (simp add: attempt_forgets_def scrubs_attempt_def scrubbed_attempt_def)
  qed
qed

lemma scrubs_row_clean:
  "for_person uid r \<Longrightarrow> row_clean (scrubs_row now uid r)"
  "not_queued r \<Longrightarrow> not_queued (scrubs_row now uid r)"
  "\<not> for_person uid r \<Longrightarrow> scrubs_row now uid r = r"
  by (simp_all add: scrubs_row_def row_clean_def scrubbed_row_def not_queued_def)

lemma scrubs_attempt_clean:
  "attempt_for uid d t \<Longrightarrow> attempt_clean (scrubs_attempt now uid d t)"
  "\<not> attempt_for uid d t \<Longrightarrow> scrubs_attempt now uid d t = t"
  "attempt_for uid d' (scrubs_attempt now uid d t) = attempt_for uid d' t"
  "tID (scrubs_attempt now uid d t) = tID t"
  by (simp_all add: scrubs_attempt_def attempt_clean_def scrubbed_attempt_def attempt_for_def)

lemma scrubs_observation_clean:
  "observed_for uid d x \<Longrightarrow> observation_clean (scrubs_observation now uid d x)"
  "oAttemptID (scrubs_observation now uid d x) = oAttemptID x"
  by (simp_all add: scrubs_observation_def observation_clean_def scrubbed_observation_def)

lemma filter_untouched: "(\<And>x. p (f x) = p x) \<Longrightarrow> (\<And>x. p x \<Longrightarrow> f x = x) \<Longrightarrow> filter p (map f xs) = filter p xs"
  by (induction xs) simp_all

text \<open>
  C26. Erasing a person from the deliveries succeeds in every state of the delivery protocol.
  Afterwards every commitment aimed at them carries the durable mark and no coordinates; unless
  the receipt of a call of it is on record, it is neither queued nor under review, and if it is in
  flight it is flagged to stop; its attempts and their late results hold no address either; everybody else's commitments are
  untouched; and commitments and attempts still agree, so the delivery protocol goes on from
  there.  A commitment awaiting the provider's receipt is left awaiting it: should the provider
  say that the call did not take place, the state machine queues it again, without an address.
\<close>

theorem erasure_leaves_no_address:
  assumes "pact d" "\<forall>x\<in>set (dbObservations d). observation_checks x"
  shows "\<exists>w d'. erase_deliveries now uid d = Inr (w, d') \<and> pact d' \<and>
     list_all (\<lambda>r. for_person uid r \<longrightarrow> row_clean r \<and> not_queued r) (dbIntents d') \<and>
     list_all (\<lambda>t. attempt_for uid d' t \<longrightarrow> attempt_clean t) (dbAttempts d') \<and>
     list_all (\<lambda>x. observed_for uid d' x \<longrightarrow> observation_clean x) (dbObservations d') \<and>
     filter (\<lambda>r. \<not> for_person uid r) (dbIntents d') = filter (\<lambda>r. \<not> for_person uid r) (dbIntents d) \<and>
     map rID (dbIntents d') = map rID (dbIntents d)"
proof -
  have sd: "sound d" using assms(1) by (simp add: pact_def)
  obtain w d1 where c: "CancelLiveOutboundIntentsForUser now uid d = Inr (w, d1)" "quiet_step d d1"
    "dbIntents d1 = map (withdrawal now uid) (dbIntents d)" "same_journal d d1"
    using CancelLive_ok [OF sd] by blast
  have p1: "pact d1" using pact_quiet [OF assms(1) c(2)] .
  have o1: "\<forall>x\<in>set (dbObservations d1). observation_checks x" using assms(2) c(4) by (simp add: same_journal_def)
  obtain e1 e2 d' where s: "ScrubOutboundEndpointsForUser now uid d1 = Inr d'" "sound d'"
    "dbIntents d' = map (scrubs_row now uid) (dbIntents d1)" "dbIntents e1 = dbIntents d'"
    "dbAttempts d' = map (scrubs_attempt now uid e1) (dbAttempts d1)" "dbIntents e2 = dbIntents d'"
    "dbAttempts e2 = dbAttempts d'" "dbObservations d' = map (scrubs_observation now uid e2) (dbObservations d1)"
    using Scrub_ok [OF quiet_step_sound [OF c(2)] o1] by blast
  have rows: "dbIntents d' = map (\<lambda>r. scrubs_row now uid (withdrawal now uid r)) (dbIntents d)"
    using s(3) c(3) by simp
  have "erase_deliveries now uid d = Inr (w, d')" using c(1) s(1) by (simp add: erase_deliveries_def)
  moreover have "pact d'" by (rule scrub_pact [OF p1 s(2,3,5,4)])
  moreover have "list_all (\<lambda>r. for_person uid r \<longrightarrow> row_clean r \<and> not_queued r) (dbIntents d')"
    unfolding rows by (simp add: list_all_iff scrubs_row_sel withdrawal_row scrubs_row_clean)
  moreover have "list_all (\<lambda>t. attempt_for uid d' t \<longrightarrow> attempt_clean t) (dbAttempts d')"
    unfolding s(5) using s(4) by (simp add: list_all_iff scrubs_attempt_clean) (simp add: attempt_for_def scrubs_attempt_clean)
  moreover have "list_all (\<lambda>x. observed_for uid d' x \<longrightarrow> observation_clean x) (dbObservations d')"
  proof -
    have e: "observed_for uid d' (scrubs_observation now uid e2 x) = observed_for uid e2 x" for x
      using s(6,7) by (simp add: observed_for_def attempt_for_def scrubs_observation_clean)
    have "observed_for uid d' (scrubs_observation now uid e2 x) \<longrightarrow> observation_clean (scrubs_observation now uid e2 x)" for x
      unfolding e using scrubs_observation_clean(1) by blast
    then show ?thesis unfolding s(8) list_all_iff set_map by blast
  qed
  moreover have "filter (\<lambda>r. \<not> for_person uid r) (dbIntents d') = filter (\<lambda>r. \<not> for_person uid r) (dbIntents d)"
    unfolding rows by (rule filter_untouched) (simp_all add: scrubs_row_sel withdrawal_row scrubs_row_clean)
  moreover have "map rID (dbIntents d') = map rID (dbIntents d)"
    unfolding rows by (simp add: scrubs_row_sel withdrawal_row)
  ultimately show ?thesis by blast
qed

section \<open>A message in flight to somebody who is erased\<close>

definition message_to_ann :: db where
  "message_to_ann = sending_db\<lparr>dbIntents := [sample_row\<lparr>rTargetKind := TargetUser, rTargetRef := ''ann''\<rparr>]\<rparr>"

lemma message_to_ann_pact: "pact message_to_ann" "dbObservations message_to_ann = []"
  by (simp_all add: message_to_ann_def pact_def sound_def check_defs attempt_check_defs held_open_def open_held_def
      numbered_def bound_calls_def calls_as_bound_def one_effect_def same_effect_def sending_defs
      sample_db_def sample_row_def)

theorem erasure_leaves_no_address_witness:
  "\<exists>w d' r. erase_deliveries 50 ''ann'' message_to_ann = Inr (w, d') \<and> dbIntents d' = [r] \<and>
     rBoundEndpoint r = None \<and> rRecipientErasedAt r \<noteq> None"
proof -
  have o: "\<forall>x\<in>set (dbObservations message_to_ann). observation_checks x" by (simp add: message_to_ann_pact(2))
  obtain w d' where e: "erase_deliveries 50 ''ann'' message_to_ann = Inr (w, d')"
    "list_all (\<lambda>r. for_person ''ann'' r \<longrightarrow> row_clean r \<and> not_queued r) (dbIntents d')"
    "filter (\<lambda>r. \<not> for_person ''ann'' r) (dbIntents d') = filter (\<lambda>r. \<not> for_person ''ann'' r) (dbIntents message_to_ann)"
    "map rID (dbIntents d') = map rID (dbIntents message_to_ann)"
    using erasure_leaves_no_address [OF message_to_ann_pact(1) o, of 50 "''ann''"] by blast
  from e(4) obtain r where r: "dbIntents d' = [r]" by (auto simp: message_to_ann_def)
  have "for_person ''ann'' r"
    using e(3) r by (auto simp: message_to_ann_def for_person_def split: if_splits)
  with e(2) r have "row_clean r \<and> not_queued r" by simp
  with e(1) r show ?thesis by (auto simp: row_clean_def not_queued_def)
qed

end
