(* ===== verification/Erase.thy ===== *)
theory Erase
  imports Phone ScheduleConfig Erasure
begin

text \<open>
  Erasing a person: the service of \<open>internal/erasure/service.go\<close> over the tables of the
  people, of the schedules and of the deliveries (\<open>internal/store/erasure_store.go\<close>).
  One transaction: either every table is wiped or none is touched.
\<close>

record world =
  wOffice :: office
  wDeliveries :: db

datatype erase_error = EraseUserNotFound | UserOnCall "(string \<times> string) list" | EraseLastAdmin
  | DeliveryFailed store_error

definition AnonymizedUserName :: string where "AnonymizedUserName = ''Deleted user''"

section \<open>The guards\<close>

text \<open>The in-force revision of every live schedule: the schedule, its team, the snapshot.\<close>

definition ListScheduleTailsLocked :: "office \<Rightarrow> (string \<times> string \<times> schedule_snapshot) list" where
  "ListScheduleTailsLocked f =
     concat (map (\<lambda>s. map (\<lambda>r. (rtID s, rtTeam s, rvSnapshot r))
         (filter (\<lambda>r. rvSchedule r = rtID s \<and> rvTo r = None \<and> rvKind r = RevisionActive) (fRevisions f)))
       (sort_key rtID (filter (\<lambda>s. rtDeletedAt s = None) (fRoots f))))"

definition is_last :: "override_revision list \<Rightarrow> override_revision \<Rightarrow> bool" where
  "is_last rows r \<longleftrightarrow>
     list_all (\<lambda>r'. ovOverrideID r' = ovOverrideID r \<longrightarrow> ovRevision r' \<le> ovRevision r) rows"

definition ListLiveOverrideHeadsForUser :: "string \<Rightarrow> int \<Rightarrow> office \<Rightarrow> (string \<times> string) list" where
  "ListLiveOverrideHeadsForUser uid at' f =
     concat (map (\<lambda>o'. map (\<lambda>s. (rtID s, rtTeam s))
         (filter (\<lambda>s. rtID s = ovSchedule o' \<and> rtDeletedAt s = None) (fRoots f)))
       (sort_key (\<lambda>o'. (ovSchedule o', ovOverrideID o'))
         (filter (\<lambda>o'. is_last (fOverrides f) o' \<and> ovUser o' = uid \<and> \<not> ovDeleted o'
            \<and> NormalizeTimestamp at' < ovTo o') (fOverrides f))))"

definition blockedByRotation :: "(string \<times> string \<times> schedule_snapshot) list \<Rightarrow> string \<Rightarrow> (string \<times> string) list" where
  "blockedByRotation tails uid =
     map (\<lambda>(sid, tid, _). (sid, tid)) (filter (\<lambda>(_, _, snap). snapshotNames snap uid) tails)"

text \<open>The map of blocking schedules, read out in the order of their ids; a later entry replaces.\<close>

definition guardAssignments :: "string \<Rightarrow> int \<Rightarrow> office \<Rightarrow> erase_error + unit" where
  "guardAssignments uid at' f =
     (let blocking = blockedByRotation (ListScheduleTailsLocked f) uid @ ListLiveOverrideHeadsForUser uid at' f
      in if blocking = [] then Inr ()
         else Inl (UserOnCall (map (\<lambda>sid. (sid, the (map_of (rev blocking) sid)))
                (sort (remdups (map fst blocking))))))"

definition guardLastAdmin :: "user \<Rightarrow> people \<Rightarrow> erase_error + unit" where
  "guardLastAdmin u p =
     (if uRole u \<noteq> UserRoleAdmin then Inr ()
      else if CountAdmins p \<le> 1 then Inl EraseLastAdmin else Inr ())"

section \<open>The primitives\<close>

definition SetUserDeletedAt :: "string \<Rightarrow> int \<Rightarrow> people \<Rightarrow> people" where
  "SetUserDeletedAt uid at' p = p\<lparr>pUsers := map (\<lambda>u. if uID u = uid
     then u\<lparr>uDeletedAt := Some (NormalizeTimestamp at')\<rparr> else u) (pUsers p)\<rparr>"

definition AnonymizeUser :: "string \<Rightarrow> people \<Rightarrow> people" where
  "AnonymizeUser uid p = p\<lparr>pUsers := map (\<lambda>u. if uID u = uid
     then u\<lparr>uName := AnonymizedUserName, uEmail := None, uPasswordHash := None, uAuthProvider := None\<rparr>
     else u) (pUsers p)\<rparr>"

definition DeleteUserAPITokens :: "string \<Rightarrow> people \<Rightarrow> people" where
  "DeleteUserAPITokens uid p = p\<lparr>pTokens := filter (\<lambda>t. kUser t \<noteq> uid) (pTokens p)\<rparr>"

definition DeleteUserExternalIdentities :: "string \<Rightarrow> people \<Rightarrow> people" where
  "DeleteUserExternalIdentities uid p = p\<lparr>pIdentities := filter (\<lambda>x. xUser x \<noteq> uid) (pIdentities p)\<rparr>"

definition DeleteUserLinkTokens :: "string \<Rightarrow> people \<Rightarrow> people" where
  "DeleteUserLinkTokens uid p = p\<lparr>pLinks := filter (\<lambda>l. lUser l \<noteq> uid) (pLinks p)\<rparr>"

definition DeleteUserPhoneData :: "string \<Rightarrow> people \<Rightarrow> people" where
  "DeleteUserPhoneData uid p = p\<lparr>
     pContacts := filter (\<lambda>c. nUser c \<noteq> uid) (pContacts p),
     pChecks := filter (\<lambda>d. dUser d \<noteq> uid) (pChecks p),
     pCalls := map (\<lambda>g. if gUser g = uid then g\<lparr>gTo := None\<rparr> else g) (pCalls p),
     pReservations := map (\<lambda>v. if vUser v = Some uid then v\<lparr>vUser := None\<rparr> else v) (pReservations p)\<rparr>"

definition DeleteUserTeamMemberships :: "string \<Rightarrow> people \<Rightarrow> people" where
  "DeleteUserTeamMemberships uid p = p\<lparr>pMembers := filter (\<lambda>m. mUser m \<noteq> uid) (pMembers p)\<rparr>"

definition NullifyOverrideRevisionReasons :: "string \<Rightarrow> office \<Rightarrow> office" where
  "NullifyOverrideRevisionReasons uid f = f\<lparr>fOverrides := map (\<lambda>o'.
     if ovReason o' \<noteq> None \<and> (ovUser o' = uid \<or> ovRecordedBy o' = Some uid)
     then o'\<lparr>ovReason := None\<rparr> else o') (fOverrides f)\<rparr>"

definition NullifyScheduleRevisionChangeReasons :: "string \<Rightarrow> office \<Rightarrow> office" where
  "NullifyScheduleRevisionChangeReasons uid f = f\<lparr>fRevisions := map (\<lambda>r.
     if rvReason r \<noteq> None \<and> rvCreatedBy r = Some uid then r\<lparr>rvReason := None\<rparr> else r) (fRevisions f)\<rparr>"

definition wipe_people :: "string \<Rightarrow> int \<Rightarrow> people \<Rightarrow> people" where
  "wipe_people uid at' p =
     DeleteUserTeamMemberships uid (DeleteUserPhoneData uid (DeleteUserLinkTokens uid
       (DeleteUserExternalIdentities uid (DeleteUserAPITokens uid
         (AnonymizeUser uid (SetUserDeletedAt uid at' p))))))"

definition wipe_office :: "string \<Rightarrow> int \<Rightarrow> office \<Rightarrow> office" where
  "wipe_office uid at' f =
     NullifyScheduleRevisionChangeReasons uid (NullifyOverrideRevisionReasons uid
       (f\<lparr>fPeople := wipe_people uid at' (fPeople f)\<rparr>))"

section \<open>The command\<close>

definition Erase :: "int \<Rightarrow> int \<Rightarrow> string \<Rightarrow> world \<Rightarrow> erase_error + world" where
  "Erase now dbnow uid w =
     (if uid = [] then Inl EraseUserNotFound
      else let f = wOffice w; p = fPeople f
      in case find (\<lambda>u. uID u = uid) (pUsers p) of
           None \<Rightarrow> Inl EraseUserNotFound
         | Some u \<Rightarrow>
             if uDeletedAt u \<noteq> None then Inr w
             else then_ok (guardAssignments uid now f) (\<lambda>_.
                  then_ok (guardLastAdmin u p) (\<lambda>_.
                  case erase_deliveries dbnow uid (wDeliveries w) of
                    Inl e \<Rightarrow> Inl (DeliveryFailed e)
                  | Inr (_, d) \<Rightarrow> Inr \<lparr>wOffice = wipe_office uid now f, wDeliveries = d\<rparr>)))"

end
