(* ===== verification/Directory.thy ===== *)
theory Directory
  imports Erase
begin

text \<open>
  The people of the system over time.  Every operation on the directory is one command of
  \<open>people_command\<close>; \<open>gentle\<close> is the contract all of them keep: they erase nobody, change
  nobody erased, give nothing to anybody erased and leave an administrator where there was one.
  Erasing is the one operation outside the contract, and the theory shows what it leaves.
\<close>

section \<open>The commands\<close>

datatype people_command =
    DoCreateUser model_user | DoUpdateUser model_user | DoPassword string string
  | DoProvider string string | DoRole string string | DoCreateTeam string
  | DoAddMember string string string | DoCreateToken "int option" api_token | DoTokenUsed string
  | DoDeleteToken string | DoBind string "int option" string string string string string
  | DoBindIfAbsent string string string string | DoUnbind string string
  | DoIssueLink string string string string int | DoConfirmLink string string string
  | DoConsumeLink string string string string string
  | DoSetPhone string string | DoDeletePhone string | DoPin string string string
  | DoReserve int call_request | DoRelease string | DoIssueCode string string string int
  | DoConfirmCode string string | DoConfirmDND string string

fun run_people :: "(string \<Rightarrow> string) \<Rightarrow> int \<Rightarrow> string \<Rightarrow> people_command \<Rightarrow> people \<Rightarrow> people" where
  "run_people h now fresh (DoCreateUser a) p = snd (CreateUser now a p)"
| "run_people h now fresh (DoUpdateUser a) p = snd (UpdateUser a p)"
| "run_people h now fresh (DoPassword uid hash) p = snd (UpdateUserPassword uid hash p)"
| "run_people h now fresh (DoProvider uid provider) p = snd (UpdateUserAuthProvider uid provider p)"
| "run_people h now fresh (DoRole uid role) p = snd (SetUserRole uid role p)"
| "run_people h now fresh (DoCreateTeam tid) p = snd (CreateTeam tid p)"
| "run_people h now fresh (DoAddMember tid uid role) p = snd (AddTeamMember tid uid role p)"
| "run_people h now fresh (DoCreateToken created t) p = snd (CreateAPIToken now created t p)"
| "run_people h now fresh (DoTokenUsed tid) p = snd (UpdateAPITokenLastUsed now tid p)"
| "run_people h now fresh (DoDeleteToken tid) p = snd (DeleteAPIToken tid p)"
| "run_people h now fresh (DoBind given created uid provider ext chat name) p =
     snd (BindExternalIdentity now fresh given created uid provider ext chat name p)"
| "run_people h now fresh (DoBindIfAbsent uid provider ext name) p =
     snd (BindExternalIdentityIfAbsent now fresh uid provider ext name p)"
| "run_people h now fresh (DoUnbind uid provider) p = snd (UnbindExternalIdentity uid provider p)"
| "run_people h now fresh (DoIssueLink uid provider ext token expires) p =
     snd (IssueLinkToken h now fresh uid provider ext token expires p)"
| "run_people h now fresh (DoConfirmLink uid provider token) p =
     snd (ConfirmIdentityLink h now fresh uid provider token p)"
| "run_people h now fresh (DoConsumeLink provider token ext chat name) p =
     snd (ConsumeLinkToken h now fresh provider token ext chat name p)"
| "run_people h now fresh (DoSetPhone uid v) p = snd (SetPhoneContact now fresh uid v p)"
| "run_people h now fresh (DoDeletePhone uid) p = snd (DeletePhoneContact uid p)"
| "run_people h now fresh (DoPin uid number integration) p = snd (PinPhoneIntegration now uid number integration p)"
| "run_people h now fresh (DoReserve started req) p = snd (ReservePhoneCall started now fresh req p)"
| "run_people h now fresh (DoRelease rid) p = snd (ReleasePhoneReservation now rid p)"
| "run_people h now fresh (DoIssueCode uid number code ttl) p = snd (IssuePhoneCode h now fresh uid number code ttl p)"
| "run_people h now fresh (DoConfirmCode uid code) p = snd (ConfirmPhoneCode h now uid code p)"
| "run_people h now fresh (DoConfirmDND uid sender) p = snd (ConfirmDNDCheck now uid sender p)"

section \<open>The contract\<close>

text \<open>Whoever owns something that an erased person must not keep.\<close>

definition owners :: "people \<Rightarrow> string set" where
  "owners p = mUser ` set (pMembers p) \<union> kUser ` set (pTokens p) \<union> xUser ` set (pIdentities p)
     \<union> lUser ` set (pLinks p) \<union> nUser ` set (pContacts p) \<union> dUser ` set (pChecks p)"

definition has_admin :: "people \<Rightarrow> bool" where
  "has_admin p \<longleftrightarrow> list_ex active_admin (pUsers p)"

definition one_row_each :: "people \<Rightarrow> bool" where
  "one_row_each p \<longleftrightarrow> distinct (map uID (pUsers p))"

definition users_gentle :: "people \<Rightarrow> people \<Rightarrow> bool" where
  "users_gentle p p' \<longleftrightarrow> (one_row_each p \<longrightarrow>
     one_row_each p' \<and>
     (\<forall>u. uDeletedAt u \<noteq> None \<longrightarrow> u \<in> set (pUsers p) \<longleftrightarrow> u \<in> set (pUsers p')) \<and>
     (\<forall>uid. activeUser uid p \<longrightarrow> activeUser uid p') \<and>
     (has_admin p \<or> pUsers p = [] \<longrightarrow> has_admin p' \<or> pUsers p' = []))"

definition members_gentle :: "people \<Rightarrow> people \<Rightarrow> bool" where
  "members_gentle p p' \<longleftrightarrow> set (pTeams p) \<subseteq> set (pTeams p') \<and>
     (\<lambda>m. (mTeam m, mUser m)) ` set (pMembers p) \<subseteq> (\<lambda>m. (mTeam m, mUser m)) ` set (pMembers p')"

definition gentle :: "people \<Rightarrow> people \<Rightarrow> bool" where
  "gentle p p' \<longleftrightarrow> users_gentle p p' \<and> members_gentle p p' \<and>
     owners p' \<subseteq> owners p \<union> {uid. activeUser uid p}"

lemma users_gentle_same [simp]: "pUsers p' = pUsers p \<Longrightarrow> users_gentle p p'"
  by (simp add: users_gentle_def one_row_each_def activeUser_def has_admin_def)

lemma users_gentle_cong: "pUsers q' = pUsers q \<Longrightarrow> users_gentle p q' = users_gentle p q"
  by (simp add: users_gentle_def one_row_each_def activeUser_def has_admin_def)

lemma members_gentle_same [simp]: "pTeams p' = pTeams p \<Longrightarrow> pMembers p' = pMembers p \<Longrightarrow> members_gentle p p'"
  by (simp add: members_gentle_def)

lemma gentle_refl [simp]: "gentle p p"
  by (simp add: gentle_def)

lemma set_upsert: "set (upsert key new merge rows) \<subseteq> insert new (set rows \<union> merge ` set rows)"
  by (auto simp: upsert_def)

lemma image_upsert:
  assumes "\<And>r. own (merge r) = own r"
  shows "own ` set (upsert key new merge rows) \<subseteq> insert (own new) (own ` set rows)"
  using set_upsert [of key new merge rows] assms by fastforce

lemma image_map_if: "(\<And>r. own (f r) = own r) \<Longrightarrow> own ` set (map (\<lambda>r. if c r then f r else r) rows) = own ` set rows"
  by (induction rows) auto

text \<open>A table of owned rows replaced by one whose owners were there before or are active.\<close>

lemma gentle_tables:
  "kUser ` set ks \<subseteq> kUser ` set (pTokens p) \<union> {u. activeUser u p} \<Longrightarrow> gentle p (p\<lparr>pTokens := ks\<rparr>)"
  "xUser ` set xs \<subseteq> xUser ` set (pIdentities p) \<union> {u. activeUser u p} \<Longrightarrow> gentle p (p\<lparr>pIdentities := xs\<rparr>)"
  "lUser ` set ls \<subseteq> lUser ` set (pLinks p) \<union> {u. activeUser u p} \<Longrightarrow> gentle p (p\<lparr>pLinks := ls\<rparr>)"
  "nUser ` set cs \<subseteq> nUser ` set (pContacts p) \<union> {u. activeUser u p} \<Longrightarrow> gentle p (p\<lparr>pContacts := cs\<rparr>)"
  "dUser ` set ds \<subseteq> dUser ` set (pChecks p) \<union> {u. activeUser u p} \<Longrightarrow> gentle p (p\<lparr>pChecks := ds\<rparr>)"
  by (auto simp: gentle_def owners_def)

lemma gentle_fewer:
  assumes "gentle p q" "pUsers q' = pUsers q" "pTeams q' = pTeams q" "pMembers q' = pMembers q"
    and "owners q' \<subseteq> owners q"
  shows "gentle p q'"
  using assms users_gentle_cong [OF assms(2)] by (auto simp: gentle_def members_gentle_def)

lemma owners_fewer_links: "owners (q\<lparr>pLinks := filter c (pLinks q)\<rparr>) \<subseteq> owners q"
  by (auto simp: owners_def)

lemma gentle_fewer_links: "gentle p q \<Longrightarrow> gentle p (q\<lparr>pLinks := filter c (pLinks q)\<rparr>)"
  by (erule gentle_fewer) (simp_all add: owners_fewer_links)

lemma gentle_drop_link: "gentle p q \<Longrightarrow> gentle p (drop_link uid provider q)"
  unfolding drop_link_def by (rule gentle_fewer_links)

lemma gentle_written:
  assumes "gentle p p'" "\<And>x. snd (k x) = x"
  shows "gentle p (snd (written ok p' p k))"
  using assms by (simp add: written_def)

lemma gentle_identities:
  assumes "xUser ` set xs \<subseteq> xUser ` set (pIdentities p) \<union> {u. activeUser u p}"
    and "\<And>q. gentle p q \<Longrightarrow> gentle p (snd (k q))"
  shows "gentle p (snd (identities_written xs p k))"
  using gentle_tables(2) [OF assms(1)] assms(2) by (simp add: identities_written_def written_def)

section \<open>Every command keeps it\<close>

lemma is_active_unique:
  assumes "one_row_each p" "u \<in> set (pUsers p)" "is_active uid u"
  shows "u' \<in> set (pUsers p) \<Longrightarrow> uID u' = uid \<Longrightarrow> u' = u"
  using assms by (auto simp: one_row_each_def is_active_def distinct_map dest: inj_onD)

lemma users_gentle_update:
  assumes f: "\<And>u. is_active uid u \<Longrightarrow> uID (f u) = uID u \<and> uDeletedAt (f u) = None"
    and admin: "one_row_each p \<Longrightarrow> has_admin p \<Longrightarrow>
       list_ex (\<lambda>u. active_admin (if is_active uid u then f u else u)) (pUsers p)"
  shows "users_gentle p (p\<lparr>pUsers := map (\<lambda>u. if is_active uid u then f u else u) (pUsers p)\<rparr>)"
proof -
  define g where "g = (\<lambda>u. if is_active uid u then f u else u)"
  have same: "uID (g u) = uID u" "uDeletedAt (g u) = uDeletedAt u" for u
    using f [of u] by (auto simp: is_active_def g_def)
  have ids: "map uID (map g (pUsers p)) = map uID (pUsers p)" using same by simp
  have erased: "u \<in> set (map g (pUsers p)) \<longleftrightarrow> u \<in> set (pUsers p)" if "uDeletedAt u \<noteq> None" for u
  proof -
    have "g v = u \<longleftrightarrow> v = u" for v
      using that same(2) [of v] f [of v] by (auto simp: is_active_def g_def split: if_splits)
    then have "u \<in> g ` set (pUsers p) \<longleftrightarrow> u \<in> set (pUsers p)" by (metis (no_types, lifting) image_iff)
    then show ?thesis by simp
  qed
  have active: "list_ex (is_active u) (map g (pUsers p)) = list_ex (is_active u) (pUsers p)" for u
    using same by (auto simp: is_active_def list_ex_iff)
  have adm: "list_ex active_admin (map g (pUsers p)) = list_ex (\<lambda>u. active_admin (g u)) (pUsers p)"
    by (auto simp: list_ex_iff)
  have sel: "pUsers (p\<lparr>pUsers := map g (pUsers p)\<rparr>) = map g (pUsers p)" by simp
  have "users_gentle p (p\<lparr>pUsers := map g (pUsers p)\<rparr>)"
    unfolding users_gentle_def one_row_each_def has_admin_def activeUser_def sel
  proof (intro impI conjI)
    assume one: "distinct (map uID (pUsers p))"
    show "distinct (map uID (map g (pUsers p)))" unfolding ids by (rule one)
    show "\<forall>u. uDeletedAt u \<noteq> None \<longrightarrow> u \<in> set (pUsers p) \<longleftrightarrow> u \<in> set (map g (pUsers p))"
      using erased by blast
    show "\<forall>u. list_ex (is_active u) (pUsers p) \<longrightarrow> list_ex (is_active u) (map g (pUsers p))"
      unfolding active by blast
    have admin': "list_ex (\<lambda>u. active_admin (g u)) (pUsers p)" if "list_ex active_admin (pUsers p)"
      unfolding g_def by (rule admin [unfolded one_row_each_def has_admin_def, OF one that])
    show "list_ex active_admin (map g (pUsers p)) \<or> map g (pUsers p) = []"
      if "list_ex active_admin (pUsers p) \<or> pUsers p = []"
      using that admin' unfolding adm by auto
  qed
  then show ?thesis by (simp only: g_def)
qed

lemma update_active_gentle:
  assumes "\<And>u. uID (f u) = uID u \<and> uDeletedAt (f u) = uDeletedAt u \<and> uRole (f u) = uRole u"
  shows "gentle p (snd (update_active uid f p))"
proof -
  have "active_admin (if is_active uid u then f u else u) = active_admin u" for u
    using assms [of u] by (simp add: active_admin_def)
  then have "users_gentle p (p\<lparr>pUsers := map (\<lambda>u. if is_active uid u then f u else u) (pUsers p)\<rparr>)"
    using assms by (intro users_gentle_update) (auto simp: is_active_def has_admin_def)
  then have "gentle p (p\<lparr>pUsers := map (\<lambda>u. if is_active uid u then f u else u) (pUsers p)\<rparr>)"
    by (simp add: gentle_def owners_def members_gentle_def)
  then show ?thesis by (simp add: update_active_def Let_def gentle_written requireOneRow_def)
qed

lemma CreateUser_gentle: "gentle p (snd (CreateUser now a p))"
proof -
  define granted where "granted = (if length (filter (\<lambda>u. uRole u = UserRoleAdmin) (pUsers p)) = 0
      then UserRoleAdmin else if aRole a = [] then UserRoleUser else aRole a)"
  define row where "row = \<lparr>uID = aID a, uEmail = Some (aEmail a), uName = aName a, uRole = granted,
     uPasswordHash = Some (aPasswordHash a), uAuthProvider = Some (aAuthProvider a),
     uCreatedAt = (case aCreatedAt a of None \<Rightarrow> now | Some t \<Rightarrow> t), uDeletedAt = None\<rparr>"
  have eq: "CreateUser now a p = written (users_ok (pUsers p @ [row])) (p\<lparr>pUsers := pUsers p @ [row]\<rparr>) p
      (\<lambda>p'. (Inr (), p'))"
    by (simp add: CreateUser_def Let_def row_def granted_def)
  have row: "uDeletedAt row = None" "pUsers p = [] \<Longrightarrow> active_admin row"
    by (auto simp: row_def granted_def active_admin_def)
  have "gentle p (p\<lparr>pUsers := pUsers p @ [row]\<rparr>)" if "users_ok (pUsers p @ [row])"
    using that row by (auto simp: gentle_def users_gentle_def one_row_each_def users_ok_def activeUser_def
      has_admin_def members_gentle_def owners_def)
  then show ?thesis by (simp add: eq written_def)
qed

lemma two_hits:
  assumes "distinct (map k xs)" "1 < length (filter c xs)"
  shows "\<exists>v \<in> set xs. c v \<and> k v \<noteq> i"
proof (rule ccontr)
  assume "\<not> ?thesis"
  then have "k ` set (filter c xs) \<subseteq> {i}" by auto
  moreover have "distinct (map k (filter c xs))" using assms(1) by (simp add: distinct_map_filter)
  then have "Finite_Set.card (k ` set (filter c xs)) = length (filter c xs)"
    by (metis distinct_card length_map set_map)
  ultimately show False using assms(2) card_mono [of "{i}" "k ` set (filter c xs)"] by simp
qed

lemma SetUserRole_gentle: "gentle p (snd (SetUserRole uid role p))"
proof (cases "find (is_active uid) (pUsers p)")
  case None
  then show ?thesis by (simp add: SetUserRole_def)
next
  case (Some u)
  show ?thesis
  proof (cases "uRole u = UserRoleAdmin \<and> role \<noteq> UserRoleAdmin \<and> CountAdmins p \<le> 1")
    case True
    with Some show ?thesis by (simp add: SetUserRole_def)
  next
    case ok: False
    have u: "u \<in> set (pUsers p)" "is_active uid u" using Some by (auto simp: find_Some_iff)
    let ?g = "\<lambda>u. if is_active uid u then u\<lparr>uRole := role\<rparr> else u"
    have "list_ex (\<lambda>u. active_admin (?g u)) (pUsers p)" if "one_row_each p" "has_admin p"
    proof (cases "role = UserRoleAdmin")
      case True
      then have "active_admin (?g u)" using u by (simp add: active_admin_def is_active_def)
      with u show ?thesis by (auto simp: list_ex_iff)
    next
      case False
      have "\<exists>v \<in> set (pUsers p). active_admin v \<and> uID v \<noteq> uid"
      proof (cases "uRole u = UserRoleAdmin")
        case True
        with ok False have "1 < length (filter active_admin (pUsers p))" by (simp add: CountAdmins_def)
        from two_hits [OF that(1) [unfolded one_row_each_def] this] show ?thesis .
      next
        case other: False
        obtain v where "v \<in> set (pUsers p)" "active_admin v" using \<open>has_admin p\<close> by (auto simp: has_admin_def list_ex_iff)
        with other is_active_unique [OF \<open>one_row_each p\<close> u this(1)] show ?thesis by (auto simp: active_admin_def)
      qed
      then show ?thesis by (auto simp: list_ex_iff is_active_def)
    qed
    then have "users_gentle p (p\<lparr>pUsers := map ?g (pUsers p)\<rparr>)"
      by (intro users_gentle_update) (simp_all add: is_active_def)
    then have "gentle p (p\<lparr>pUsers := map ?g (pUsers p)\<rparr>)"
      by (simp add: gentle_def owners_def members_gentle_def)
    with Some ok show ?thesis by (auto simp: SetUserRole_def)
  qed
qed

text \<open>Inserting or merging a row of an active person.\<close>

lemma upsert_owned:
  assumes "activeUser uid p" "own new = uid" "\<And>r. own (merge r) = own r"
  shows "own ` set (upsert key new merge rows) \<subseteq> own ` set rows \<union> {u. activeUser u p}"
  using image_upsert [of own merge key new rows] assms by auto

lemma insert_owned:
  assumes "activeUser uid p" "own new = uid"
  shows "own ` set (rows @ [new]) \<subseteq> own ` set rows \<union> {u. activeUser u p}"
  using assms by auto

lemma CreateTeam_gentle: "gentle p (snd (CreateTeam tid p))"
  by (auto simp: CreateTeam_def written_def gentle_def members_gentle_def owners_def)

lemma upsert_keys: "(\<And>r. key (merge r) = key r) \<Longrightarrow> key ` set (upsert key new merge rows) = insert (key new) (key ` set rows)"
proof (cases "list_ex (\<lambda>r. key r = key new) rows")
  case True
  assume "\<And>r. key (merge r) = key r"
  then have "key ` set (upsert key new merge rows) = key ` set rows"
    using True image_map_if [of key merge "\<lambda>r. key r = key new" rows] by (simp add: upsert_def)
  moreover have "key new \<in> key ` set rows" using True unfolding list_ex_iff by (metis imageI)
  ultimately show ?thesis by blast
qed (simp add: upsert_def)

lemma AddTeamMember_gentle: "gentle p (snd (AddTeamMember tid uid role p))"
proof (cases "activeUser uid p")
  case True
  let ?ms = "upsert (\<lambda>m. (mTeam m, mUser m)) \<lparr>mTeam = tid, mUser = uid, mRole = role\<rparr>
     (\<lambda>m. m\<lparr>mRole := role\<rparr>) (pMembers p)"
  have "members_gentle p (p\<lparr>pMembers := ?ms\<rparr>)"
    unfolding members_gentle_def by (simp, subst upsert_keys) auto
  moreover have "mUser ` set ?ms \<subseteq> mUser ` set (pMembers p) \<union> {u. activeUser u p}"
    by (rule upsert_owned [OF True]) simp_all
  ultimately have "gentle p (p\<lparr>pMembers := ?ms\<rparr>)" by (auto simp: gentle_def owners_def)
  then show ?thesis using True by (simp add: AddTeamMember_def written_def)
qed (simp add: AddTeamMember_def)

lemma CreateAPIToken_gentle: "gentle p (snd (CreateAPIToken now created t p))"
proof (cases "activeUser (kUser t) p")
  case True
  show ?thesis unfolding CreateAPIToken_def Let_def using True
    by (simp add: gentle_written gentle_tables(1) insert_owned)
qed (simp add: CreateAPIToken_def)

lemma UpdateAPITokenLastUsed_gentle: "gentle p (snd (UpdateAPITokenLastUsed now tid p))"
  unfolding UpdateAPITokenLastUsed_def snd_conv
  by (rule gentle_tables(1)) auto

lemma DeleteAPIToken_gentle: "gentle p (snd (DeleteAPIToken tid p))"
  unfolding DeleteAPIToken_def snd_conv by (rule gentle_tables(1)) auto

lemma new_identity_user [simp]: "xUser (new_identity now fresh uid provider ext chat name) = uid"
  by (simp add: new_identity_def)

lemma BindExternalIdentity_gentle:
  "gentle p (snd (BindExternalIdentity now fresh given created uid provider ext chat name p))"
proof (cases "activeUser uid p")
  case True
  show ?thesis unfolding BindExternalIdentity_def Let_def if_not_P [OF notI, of "\<not> activeUser uid p"] using True
    by (simp add: gentle_identities upsert_owned)
qed (simp add: BindExternalIdentity_def)

lemma BindExternalIdentityIfAbsent_gentle:
  "gentle p (snd (BindExternalIdentityIfAbsent now fresh uid provider ext name p))"
  by (cases "activeUser uid p")
    (simp_all add: BindExternalIdentityIfAbsent_def gentle_identities insert_owned)

lemma UnbindExternalIdentity_gentle: "gentle p (snd (UnbindExternalIdentity uid provider p))"
  unfolding UnbindExternalIdentity_def snd_conv by (rule gentle_tables(2)) auto

lemma IssueLinkToken_gentle: "gentle p (snd (IssueLinkToken h now fresh uid provider ext token expires p))"
  by (cases "activeUser uid p")
    (simp_all add: IssueLinkToken_def Let_def gentle_written gentle_tables(3) upsert_owned)

lemma count_attempt_gentle: "gentle p (p\<lparr>pLinks := map (\<lambda>k. if c k then k\<lparr>lAttempts := n k\<rparr> else k) (pLinks p)\<rparr>)"
  by (rule gentle_tables(3)) auto

lemma ConfirmIdentityLink_gentle: "gentle p (snd (ConfirmIdentityLink h now fresh uid provider token p))"
proof (cases "activeUser uid p")
  case True
  have bind: "gentle p (snd (identities_written (upsert (\<lambda>x. (xUser x, xProvider x))
       (new_identity now fresh uid provider ext None None) (\<lambda>x. x\<lparr>xExternalID := ext, xUpdatedAt := now\<rparr>)
       (pIdentities p)) p (\<lambda>p'. (Inr ei, drop_link uid provider p'))))" for ext ei
    by (rule gentle_identities, rule upsert_owned [OF True]) (simp_all add: gentle_drop_link)
  show ?thesis
    by (auto simp: ConfirmIdentityLink_def lockActiveUserTx_def True Let_def bind gentle_drop_link
      count_attempt_gentle split: option.split)
qed (simp add: ConfirmIdentityLink_def lockActiveUserTx_def)

lemma ConsumeLinkToken_gentle: "gentle p (snd (ConsumeLinkToken h now fresh provider token ext chat name p))"
proof (cases "find (\<lambda>l. lProvider l = provider \<and> lHash l = h token) (pLinks p)")
  case (Some l)
  show ?thesis
  proof (cases "activeUser (lUser l) p")
    case True
    have bind: "gentle p (snd (identities_written (upsert (\<lambda>x. (xUser x, xProvider x))
         (new_identity now fresh (lUser l) provider ext c n)
         (\<lambda>x. x\<lparr>xExternalID := ext, xChatID := c, xDisplayName := n, xUpdatedAt := now\<rparr>)
         (pIdentities p)) p (\<lambda>p'. (Inr ei, p'\<lparr>pLinks := filter f (pLinks p')\<rparr>))))" for c n ei f
      by (rule gentle_identities, rule upsert_owned [OF True]) (simp_all add: gentle_fewer_links)
    show ?thesis
      by (simp add: ConsumeLinkToken_def Some lockActiveUserTx_def True Let_def bind gentle_fewer_links)
  qed (simp add: ConsumeLinkToken_def Some lockActiveUserTx_def)
qed (simp add: ConsumeLinkToken_def)

section \<open>The phone\<close>

lemma SetPhoneContact_gentle: "gentle p (snd (SetPhoneContact now fresh uid v p))"
proof (cases "activeUser uid p")
  case True
  have "nUser ` set (upsert nUser (new_contact now fresh uid v) (renumbered now v) (pContacts p))
      \<subseteq> nUser ` set (pContacts p) \<union> {u. activeUser u p}"
    by (rule upsert_owned [OF True]) (simp_all add: new_contact_def renumbered_def)
  then show ?thesis
    by (simp add: SetPhoneContact_def lockActiveUserTx_def True Let_def written_def gentle_tables(4))
qed (simp add: SetPhoneContact_def lockActiveUserTx_def)

lemma DeletePhoneContact_gentle: "gentle p (snd (DeletePhoneContact uid p))"
proof (cases "activeUser uid p")
  case True
  have "gentle p (p\<lparr>pContacts := filter c (pContacts p), pChecks := filter d (pChecks p)\<rparr>)" for c d
    by (rule gentle_fewer [OF gentle_refl]) (auto simp: owners_def)
  then show ?thesis by (simp add: DeletePhoneContact_def lockActiveUserTx_def True gentle_drop_link)
qed (simp add: DeletePhoneContact_def lockActiveUserTx_def)

lemma PinPhoneIntegration_gentle: "gentle p (snd (PinPhoneIntegration now uid number integration p))"
  unfolding PinPhoneIntegration_def Let_def requireOneRow_def snd_conv
  by (rule gentle_tables(4)) auto

lemma ReservePhoneCall_gentle: "gentle p (snd (ReservePhoneCall started now fresh req p))"
proof -
  have "gentle p (p\<lparr>pReservations := rs, pCapacity := c, pCalls := g\<rparr>)" for rs c g
    by (rule gentle_fewer [OF gentle_refl]) (auto simp: owners_def)
  then show ?thesis
    by (auto simp: ReservePhoneCall_def Let_def written_def split: option.split)
qed

lemma ReleasePhoneReservation_gentle: "gentle p (snd (ReleasePhoneReservation now rid p))"
  unfolding ReleasePhoneReservation_def snd_conv
  by (rule gentle_fewer [OF gentle_refl]) (auto simp: owners_def)

lemma IssuePhoneCode_gentle: "gentle p (snd (IssuePhoneCode h now fresh uid number code ttl p))"
  by (cases "activeUser uid p")
    (simp_all add: IssuePhoneCode_def Let_def gentle_written gentle_tables(3) upsert_owned)

lemma ConfirmPhoneCode_gentle: "gentle p (snd (ConfirmPhoneCode h now uid code p))"
proof -
  have "gentle p (p\<lparr>pContacts := map (\<lambda>c. if hit c then c\<lparr>nVerifiedAt := v, nUpdatedAt := u\<rparr> else c) (pContacts p)\<rparr>)"
    for hit v u
    by (rule gentle_tables(4)) auto
  then show ?thesis
    by (auto simp: ConfirmPhoneCode_def Let_def gentle_drop_link count_attempt_gentle
      split: sum.split option.split)
qed

lemma ConfirmDNDCheck_gentle: "gentle p (snd (ConfirmDNDCheck now uid sender p))"
proof (cases "activeUser uid p")
  case True
  have "gentle p (p\<lparr>pChecks := upsert key \<lparr>dUser = uid, dPhone = ph, dSender = sender, dConfirmedAt = now\<rparr>
     (\<lambda>d. d\<lparr>dConfirmedAt := now\<rparr>) (pChecks p)\<rparr>)" for key :: "dnd_check \<Rightarrow> string \<times> string \<times> string" and ph
    by (rule gentle_tables(5), rule upsert_owned [OF True]) simp_all
  then show ?thesis
    by (auto simp: ConfirmDNDCheck_def lockActiveUserTx_def True Let_def split: option.split)
qed (simp add: ConfirmDNDCheck_def lockActiveUserTx_def)

lemmas commands_gentle = CreateUser_gentle SetUserRole_gentle CreateTeam_gentle AddTeamMember_gentle
  CreateAPIToken_gentle UpdateAPITokenLastUsed_gentle DeleteAPIToken_gentle BindExternalIdentity_gentle
  BindExternalIdentityIfAbsent_gentle UnbindExternalIdentity_gentle IssueLinkToken_gentle
  ConfirmIdentityLink_gentle ConsumeLinkToken_gentle SetPhoneContact_gentle DeletePhoneContact_gentle
  PinPhoneIntegration_gentle ReservePhoneCall_gentle ReleasePhoneReservation_gentle IssuePhoneCode_gentle
  ConfirmPhoneCode_gentle ConfirmDNDCheck_gentle

lemma run_people_gentle: "gentle p (run_people h now fresh c p)"
  by (cases c) (simp_all add: commands_gentle UpdateUser_def UpdateUserPassword_def
    UpdateUserAuthProvider_def update_active_gentle)

end
