(* ===== verification/Covers.thy ===== *)
theory Covers
  imports Chain Directory
begin

text \<open>
  Overrides: of every override the newest revision counts, a deleted one covers nothing, and two
  of one layer never cover the same instant.  Every command keeps this, and whoever covered an
  instant of the past is still the one who covered it after any command.
\<close>

section \<open>Heads\<close>

definition head_in :: "office \<Rightarrow> override_revision \<Rightarrow> bool" where
  "head_in f r \<longleftrightarrow> r \<in> set (fOverrides f) \<and> is_head (ovSchedule r) (fOverrides f) r"

definition live :: "office \<Rightarrow> override_revision \<Rightarrow> bool" where
  "live f r \<longleftrightarrow> head_in f r \<and> \<not> ovDeleted r"

definition covered_by :: "string \<Rightarrow> string \<Rightarrow> int \<Rightarrow> string \<Rightarrow> office \<Rightarrow> bool" where
  "covered_by sid layer t uid f \<longleftrightarrow> list_ex (\<lambda>r. is_head sid (fOverrides f) r \<and> \<not> ovDeleted r \<and>
     ovLayer r = layer \<and> ovFrom r \<le> t \<and> t < ovTo r \<and> ovUser r = uid) (fOverrides f)"

lemma is_head_schedule: "is_head sid rows r \<Longrightarrow> ovSchedule r = sid"
  by (simp add: is_head_def)

lemma live_head: "live f r \<longleftrightarrow> r \<in> set (fOverrides f) \<and> is_head (ovSchedule r) (fOverrides f) r \<and> \<not> ovDeleted r"
  by (simp add: live_def head_in_def)

lemma covered_byE:
  assumes "covered_by sid layer t uid f"
  obtains r where "live f r" "ovSchedule r = sid" "ovLayer r = layer" "ovFrom r \<le> t" "t < ovTo r" "ovUser r = uid"
proof -
  from assms obtain r where r: "r \<in> set (fOverrides f)" "is_head sid (fOverrides f) r" "\<not> ovDeleted r"
    "ovLayer r = layer" "ovFrom r \<le> t" "t < ovTo r" "ovUser r = uid"
    unfolding covered_by_def list_ex_iff by blast
  have s: "ovSchedule r = sid" using r(2) by (rule is_head_schedule)
  then have "live f r" unfolding live_head using r(1-3) by simp
  with s r show thesis using that by blast
qed

lemma covered_byI:
  assumes "live f r" "ovFrom r \<le> t" "t < ovTo r"
  shows "covered_by (ovSchedule r) (ovLayer r) t (ovUser r) f"
  using assms unfolding covered_by_def list_ex_iff live_head by blast

definition tidy_row :: "office \<Rightarrow> override_revision \<Rightarrow> bool" where
  "tidy_row f r \<longleftrightarrow> aligned (ovFrom r) \<and> aligned (ovTo r) \<and> ovFrom r < ovTo r \<and>
     (ovLayer r = LayerL1 \<or> ovLayer r = LayerL2) \<and> 1 \<le> ovRevision r \<and> ovOverrideID r \<noteq> [] \<and>
     ovSchedule r \<in> rtID ` set (fRoots f)"

definition tidy :: "office \<Rightarrow> bool" where
  "tidy f \<longleftrightarrow> distinct (fOverrides f) \<and> (\<forall>r \<in> set (fOverrides f). tidy_row f r) \<and>
     (\<forall>r \<in> set (fOverrides f). \<forall>r' \<in> set (fOverrides f). ovOverrideID r = ovOverrideID r' \<longrightarrow>
        ovSchedule r = ovSchedule r' \<and> ovLayer r = ovLayer r' \<and> (ovRevision r = ovRevision r' \<longrightarrow> r = r')) \<and>
     (\<forall>r \<in> set (fOverrides f). \<exists>r' \<in> set (fOverrides f). ovOverrideID r' = ovOverrideID r \<and> ovRevision r' = 1)"

definition apart :: "override_revision \<Rightarrow> override_revision \<Rightarrow> bool" where
  "apart r r' \<longleftrightarrow> ovTo r \<le> ovFrom r' \<or> ovTo r' \<le> ovFrom r"

definition disjoint_heads :: "office \<Rightarrow> bool" where
  "disjoint_heads f \<longleftrightarrow> (\<forall>r r'. live f r \<longrightarrow> live f r' \<longrightarrow> ovSchedule r = ovSchedule r' \<longrightarrow>
     ovLayer r = ovLayer r' \<longrightarrow> r \<noteq> r' \<longrightarrow> apart r r')"

definition roster :: "office \<Rightarrow> bool" where
  "roster f \<longleftrightarrow> tidy f \<and> disjoint_heads f"

lemma tidyD:
  assumes "tidy f" "r \<in> set (fOverrides f)"
  shows "tidy_row f r"
    "r' \<in> set (fOverrides f) \<Longrightarrow> ovOverrideID r = ovOverrideID r' \<Longrightarrow> ovSchedule r = ovSchedule r'"
    "r' \<in> set (fOverrides f) \<Longrightarrow> ovOverrideID r = ovOverrideID r' \<Longrightarrow> ovLayer r = ovLayer r'"
    "r' \<in> set (fOverrides f) \<Longrightarrow> ovOverrideID r = ovOverrideID r' \<Longrightarrow> ovRevision r = ovRevision r' \<Longrightarrow> r = r'"
    "\<exists>r' \<in> set (fOverrides f). ovOverrideID r' = ovOverrideID r \<and> ovRevision r' = 1"
  using assms unfolding tidy_def by blast+

lemma head_inD: "head_in f h \<Longrightarrow> h \<in> set (fOverrides f)"
  by (simp add: head_in_def)

lemma head_le:
  assumes "head_in f h" "x \<in> set (fOverrides f)" "ovOverrideID x = ovOverrideID h" "ovSchedule x = ovSchedule h"
  shows "ovRevision x \<le> ovRevision h"
  using assms unfolding head_in_def is_head_def list_all_iff by blast

lemma head_inI:
  assumes "h \<in> set (fOverrides f)"
    and "\<And>x. x \<in> set (fOverrides f) \<Longrightarrow> ovOverrideID x = ovOverrideID h \<Longrightarrow> ovSchedule x = ovSchedule h \<Longrightarrow>
      ovRevision x \<le> ovRevision h"
  shows "head_in f h"
  using assms unfolding head_in_def is_head_def list_all_iff by blast

lemma head_le_tidy:
  assumes "tidy f" "head_in f h" "x \<in> set (fOverrides f)" "ovOverrideID x = ovOverrideID h"
  shows "ovRevision x \<le> ovRevision h"
  using head_le [OF assms(2-4)] tidyD(2) [OF assms(1,3) head_inD [OF assms(2)] assms(4)] .

lemma heads_equal:
  assumes "tidy f" "head_in f r" "head_in f r'" "ovOverrideID r = ovOverrideID r'"
  shows "r = r'"
proof -
  have m: "r \<in> set (fOverrides f)" "r' \<in> set (fOverrides f)" using assms(2,3) by (simp_all add: head_inD)
  have "ovRevision r \<le> ovRevision r'" using head_le_tidy [OF assms(1,3) m(1) assms(4)] .
  moreover have "ovRevision r' \<le> ovRevision r" using head_le_tidy [OF assms(1,2) m(2) assms(4) [symmetric]] .
  ultimately have "ovRevision r = ovRevision r'" by simp
  then show ?thesis using tidyD(4) [OF assms(1) m assms(4)] by blast
qed

lemma disjoint_headsD:
  assumes "disjoint_heads f" "live f r" "live f r'" "ovSchedule r = ovSchedule r'" "ovLayer r = ovLayer r'" "r \<noteq> r'"
  shows "apart r r'"
  using assms unfolding disjoint_heads_def by blast

lemma covered_once:
  assumes "roster f" "covered_by sid layer t uid f" "covered_by sid layer t uid' f"
  shows "uid = uid'"
proof -
  obtain r where r: "live f r" "ovSchedule r = sid" "ovLayer r = layer" "ovFrom r \<le> t" "t < ovTo r" "ovUser r = uid"
    using assms(2) by (rule covered_byE)
  obtain r' where r': "live f r'" "ovSchedule r' = sid" "ovLayer r' = layer" "ovFrom r' \<le> t" "t < ovTo r'" "ovUser r' = uid'"
    using assms(3) by (rule covered_byE)
  have "\<not> apart r r'" using r(4,5) r'(4,5) by (simp add: apart_def)
  then have "r = r'" using disjoint_headsD [of f r r'] assms(1) r(1-3) r'(1-3) unfolding roster_def by auto
  with r(6) r'(6) show ?thesis by simp
qed

section \<open>Appending a revision\<close>

definition appended :: "office \<Rightarrow> override_revision \<Rightarrow> office" where
  "appended f r = f\<lparr>fOverrides := fOverrides f @ [r]\<rparr>"

text \<open>The first revision of a new override, and the successor of a head.\<close>

definition brand_new :: "office \<Rightarrow> override_revision \<Rightarrow> bool" where
  "brand_new f r \<longleftrightarrow> tidy_row f r \<and> ovRevision r = 1 \<and> (\<forall>x \<in> set (fOverrides f). ovOverrideID x \<noteq> ovOverrideID r)"

definition succeeds_head :: "office \<Rightarrow> override_revision \<Rightarrow> override_revision \<Rightarrow> bool" where
  "succeeds_head f h r \<longleftrightarrow> tidy_row f r \<and> head_in f h \<and> ovOverrideID r = ovOverrideID h \<and>
     ovSchedule r = ovSchedule h \<and> ovLayer r = ovLayer h \<and> ovRevision r = ovRevision h + 1"

lemma appended_sel [simp]:
  "fOverrides (appended f r) = fOverrides f @ [r]" "fRoots (appended f r) = fRoots f"
  "tidy_row (appended f r) x = tidy_row f x"
  by (simp_all add: appended_def tidy_row_def)

lemma brand_newD:
  assumes "brand_new f r"
  shows "tidy_row f r" "ovRevision r = 1" "x \<in> set (fOverrides f) \<Longrightarrow> ovOverrideID x \<noteq> ovOverrideID r"
  using assms unfolding brand_new_def by blast+

lemma new_head:
  assumes "brand_new f r"
  shows "head_in (appended f r) x \<longleftrightarrow> head_in f x \<or> x = r"
proof (cases "x = r")
  case True
  have "head_in (appended f r) r" by (rule head_inI) (use brand_newD(3) [OF assms] in auto)
  with True show ?thesis by simp
next
  case False
  show ?thesis
  proof
    assume h: "head_in (appended f r) x"
    then have "x \<in> set (fOverrides f)" using head_inD [OF h] False by simp
    then have "head_in f x" by (rule head_inI) (rule head_le [OF h], simp_all)
    then show "head_in f x \<or> x = r" ..
  next
    assume "head_in f x \<or> x = r"
    with False have h: "head_in f x" by simp
    have ne: "ovOverrideID r \<noteq> ovOverrideID x" using brand_newD(3) [OF assms head_inD [OF h]] by simp
    show "head_in (appended f r) x"
    proof (rule head_inI)
      fix y assume "y \<in> set (fOverrides (appended f r))" "ovOverrideID y = ovOverrideID x" "ovSchedule y = ovSchedule x"
      then show "ovRevision y \<le> ovRevision x" using ne head_le [OF h, of y] by auto
    qed (simp add: head_inD [OF h])
  qed
qed

lemma new_live:
  assumes "brand_new f r"
  shows "live (appended f r) x \<longleftrightarrow> live f x \<or> (x = r \<and> \<not> ovDeleted r)"
  unfolding live_def new_head [OF assms] by blast

lemma succeeds_headD:
  assumes "succeeds_head f h r"
  shows "tidy_row f r" "head_in f h" "ovOverrideID r = ovOverrideID h" "ovSchedule r = ovSchedule h"
    "ovLayer r = ovLayer h" "ovRevision r = ovRevision h + 1"
  using assms unfolding succeeds_head_def by blast+

lemma next_head:
  assumes "tidy f" "succeeds_head f h r"
  shows "head_in (appended f r) x \<longleftrightarrow> (head_in f x \<and> x \<noteq> h) \<or> x = r"
proof -
  note r = succeeds_headD [OF assms(2)]
  show ?thesis
  proof (cases "x = r")
    case True
    have "head_in (appended f r) r"
    proof (rule head_inI)
      fix y assume "y \<in> set (fOverrides (appended f r))" "ovOverrideID y = ovOverrideID r"
      then have "y = r \<or> ovRevision y \<le> ovRevision h" using head_le_tidy [OF assms(1) r(2), of y] r(3) by auto
      then show "ovRevision y \<le> ovRevision r" using r(6) by auto
    qed simp
    with True show ?thesis by simp
  next
    case False
    show ?thesis
    proof
      assume h: "head_in (appended f r) x"
      have m: "x \<in> set (fOverrides f)" using head_inD [OF h] False by simp
      have "head_in f x" by (rule head_inI [OF m], rule head_le [OF h]) simp_all
      moreover have "x \<noteq> h"
      proof
        assume "x = h"
        then have "ovRevision r \<le> ovRevision h" using head_le [OF h, of r] r(3,4) by simp
        with r(6) show False by simp
      qed
      ultimately show "(head_in f x \<and> x \<noteq> h) \<or> x = r" by blast
    next
      assume "(head_in f x \<and> x \<noteq> h) \<or> x = r"
      with False have h: "head_in f x" "x \<noteq> h" by simp_all
      have ne: "ovOverrideID r \<noteq> ovOverrideID x" using heads_equal [OF assms(1) h(1) r(2)] h(2) r(3) by auto
      show "head_in (appended f r) x"
      proof (rule head_inI)
        fix y assume "y \<in> set (fOverrides (appended f r))" "ovOverrideID y = ovOverrideID x" "ovSchedule y = ovSchedule x"
        then show "ovRevision y \<le> ovRevision x" using ne head_le [OF h(1), of y] by auto
      qed (simp add: head_inD [OF h(1)])
    qed
  qed
qed

lemma next_live:
  assumes "tidy f" "succeeds_head f h r"
  shows "live (appended f r) x \<longleftrightarrow> (live f x \<and> x \<noteq> h) \<or> (x = r \<and> \<not> ovDeleted r)"
  unfolding live_def next_head [OF assms] by blast

lemma appended_tidy:
  assumes "tidy f" "tidy_row f r"
    and "\<And>x. x \<in> set (fOverrides f) \<Longrightarrow> ovOverrideID x = ovOverrideID r \<Longrightarrow>
      ovSchedule x = ovSchedule r \<and> ovLayer x = ovLayer r \<and> ovRevision x \<noteq> ovRevision r"
    and "ovRevision r = 1 \<or> (\<exists>x \<in> set (fOverrides f). ovOverrideID x = ovOverrideID r)"
  shows "tidy (appended f r)"
proof -
  have one: "\<exists>x \<in> set (fOverrides (appended f r)). ovOverrideID x = ovOverrideID r \<and> ovRevision x = 1"
    using assms(4) tidyD(5) [OF assms(1)] by (metis UnCI appended_sel(1) list.set_intros(1) set_append)
  have old: "\<exists>y \<in> set (fOverrides (appended f r)). ovOverrideID y = ovOverrideID x \<and> ovRevision y = 1"
    if "x \<in> set (fOverrides f)" for x
    using tidyD(5) [OF assms(1) that] by auto
  have pair: "ovSchedule x = ovSchedule y \<and> ovLayer x = ovLayer y \<and> (ovRevision x = ovRevision y \<longrightarrow> x = y)"
    if "x \<in> set (fOverrides f) \<or> x = r" "y \<in> set (fOverrides f) \<or> y = r" "ovOverrideID x = ovOverrideID y" for x y
  proof (cases "x = r"; cases "y = r")
    assume "x = r" "y \<noteq> r"
    then show ?thesis using assms(3) [of y] that by auto
  next
    assume "x \<noteq> r" "y = r"
    then show ?thesis using assms(3) [of x] that by auto
  next
    assume "x \<noteq> r" "y \<noteq> r"
    then show ?thesis using tidyD(2-4) [OF assms(1), of x y] that by blast
  qed simp
  show ?thesis unfolding tidy_def
  proof (intro conjI ballI impI)
    have "r \<notin> set (fOverrides f)" using assms(3) [of r] by blast
    moreover have "distinct (fOverrides f)" using assms(1) unfolding tidy_def by blast
    ultimately show "distinct (fOverrides (appended f r))" by simp
  next
    fix x assume "x \<in> set (fOverrides (appended f r))"
    then show "tidy_row (appended f r) x" using tidyD(1) [OF assms(1), of x] assms(2) by auto
  next
    fix x assume "x \<in> set (fOverrides (appended f r))"
    then show "\<exists>y \<in> set (fOverrides (appended f r)). ovOverrideID y = ovOverrideID x \<and> ovRevision y = 1"
      using one old [of x] by auto
  qed (use pair in auto)
qed

lemma new_tidy:
  assumes "tidy f" "brand_new f r"
  shows "tidy (appended f r)"
  using appended_tidy [OF assms(1) brand_newD(1) [OF assms(2)]] brand_newD(2,3) [OF assms(2)] by blast

lemma next_tidy:
  assumes "tidy f" "succeeds_head f h r"
  shows "tidy (appended f r)"
proof -
  note r = succeeds_headD [OF assms(2)]
  show ?thesis
  proof (rule appended_tidy [OF assms(1) r(1)])
    fix x assume x: "x \<in> set (fOverrides f)" "ovOverrideID x = ovOverrideID r"
    then have "ovOverrideID x = ovOverrideID h" using r(3) by simp
    then have "ovSchedule x = ovSchedule h" "ovLayer x = ovLayer h" "ovRevision x \<le> ovRevision h"
      using tidyD(2,3) [OF assms(1) x(1) head_inD [OF r(2)]] head_le_tidy [OF assms(1) r(2) x(1)] by blast+
    then show "ovSchedule x = ovSchedule r \<and> ovLayer x = ovLayer r \<and> ovRevision x \<noteq> ovRevision r"
      using r(4-6) by simp
  qed (use r(3) head_inD [OF r(2)] in metis)
qed

text \<open>Where the appended revision is apart from the other heads, the heads stay apart.\<close>

lemma apart_sym: "apart r r' = apart r' r"
  by (auto simp: apart_def)

lemma new_disjoint:
  assumes "disjoint_heads f" "brand_new f r"
    and "\<And>x. live f x \<Longrightarrow> ovSchedule x = ovSchedule r \<Longrightarrow> ovLayer x = ovLayer r \<Longrightarrow> apart x r"
  shows "disjoint_heads (appended f r)"
  using assms(1,3) apart_sym unfolding disjoint_heads_def new_live [OF assms(2)] by metis

lemma next_disjoint:
  assumes "disjoint_heads f" "tidy f" "succeeds_head f h r"
    and "\<And>x. \<not> ovDeleted r \<Longrightarrow> live f x \<Longrightarrow> x \<noteq> h \<Longrightarrow> ovSchedule x = ovSchedule r \<Longrightarrow> ovLayer x = ovLayer r \<Longrightarrow> apart x r"
  shows "disjoint_heads (appended f r)"
  using assms(1,4) apart_sym unfolding disjoint_heads_def next_live [OF assms(2,3)] by metis

end
