(* ===== verification/Duties.thy ===== *)
theory Duties
  imports Covers
begin

text \<open>
  What the override commands do, as three kinds of step: an override is assigned, ended, or
  replaced before it starts.  Every command is a sequence of such steps (the split of an
  override in force is two), so what the steps keep the commands keep.
\<close>

section \<open>Steps\<close>

definition may_cover :: "office \<Rightarrow> string \<Rightarrow> string \<Rightarrow> bool" where
  "may_cover f sid uid \<longleftrightarrow> (\<exists>root \<in> set (fRoots f). rtID root = sid \<and> rtDeletedAt root = None \<and>
     uid \<in> set (GetTeamMemberIDs (rtTeam root) (fPeople f)))"

definition clear_of :: "office \<Rightarrow> override_revision \<Rightarrow> (override_revision \<Rightarrow> bool) \<Rightarrow> bool" where
  "clear_of f r excluded \<longleftrightarrow> (\<forall>x. live f x \<longrightarrow> ovSchedule x = ovSchedule r \<longrightarrow> ovLayer x = ovLayer r \<longrightarrow>
     \<not> excluded x \<longrightarrow> apart x r)"

inductive override_step :: "int \<Rightarrow> office \<Rightarrow> office \<Rightarrow> bool" for t where
  assign: "brand_new f r \<Longrightarrow> \<not> ovDeleted r \<Longrightarrow> clear_of f r (\<lambda>_. False) \<Longrightarrow> may_cover f (ovSchedule r) (ovUser r) \<Longrightarrow>
     override_step t f (appended f r)"
| call_off: "succeeds_head f h r \<Longrightarrow> live f h \<Longrightarrow> ovDeleted r \<Longrightarrow> t \<le> ovFrom h \<Longrightarrow>
     override_step t f (appended f r)"
| shorten: "succeeds_head f h r \<Longrightarrow> live f h \<Longrightarrow> \<not> ovDeleted r \<Longrightarrow> ovFrom h < t \<Longrightarrow> t < ovTo h \<Longrightarrow>
     ovUser r = ovUser h \<Longrightarrow> ovFrom r = ovFrom h \<Longrightarrow> ovTo r = t \<Longrightarrow>
     override_step t f (appended f r)"
| exchange: "succeeds_head f h r \<Longrightarrow> live f h \<Longrightarrow> \<not> ovDeleted r \<Longrightarrow> t \<le> ovFrom h \<Longrightarrow>
     clear_of f r (\<lambda>x. x = h) \<Longrightarrow> may_cover f (ovSchedule r) (ovUser r) \<Longrightarrow>
     override_step t f (appended f r)"

definition override_steps :: "int \<Rightarrow> office \<Rightarrow> office \<Rightarrow> bool" where
  "override_steps t = (override_step t)\<^sup>*\<^sup>*"

lemma override_steps_refl: "override_steps t f f"
  by (simp add: override_steps_def)

lemma override_step_steps: "override_step t f g \<Longrightarrow> override_steps t f g"
  unfolding override_steps_def by (rule r_into_rtranclp)

lemma override_steps_trans: "override_steps t f g \<Longrightarrow> override_steps t g h \<Longrightarrow> override_steps t f h"
  unfolding override_steps_def by (rule rtranclp_trans)

text \<open>A property every step keeps is kept by the sequence.\<close>

lemma override_steps_invariant:
  assumes "override_steps t f g" "P f" "\<And>x y. override_step t x y \<Longrightarrow> P x \<Longrightarrow> P y"
  shows "P g"
  using assms(1,2) unfolding override_steps_def
  by (induction rule: rtranclp_induct) (use assms(3) in blast)+

lemma step_frame: "override_step t f g \<Longrightarrow> \<exists>os. g = f\<lparr>fOverrides := os\<rparr>"
  by (cases rule: override_step.cases) (auto simp: appended_def)

lemma steps_frame: "override_steps t f g \<Longrightarrow> \<exists>os. g = f\<lparr>fOverrides := os\<rparr>"
proof (rule override_steps_invariant [where P = "\<lambda>g. \<exists>os. g = f\<lparr>fOverrides := os\<rparr>"])
  have "f = f\<lparr>fOverrides := fOverrides f\<rparr>" by simp
  then show "\<exists>os. f = f\<lparr>fOverrides := os\<rparr>" ..
next
  fix x y assume s: "override_step t x y" and "\<exists>os. x = f\<lparr>fOverrides := os\<rparr>"
  then obtain os where x: "x = f\<lparr>fOverrides := os\<rparr>" by blast
  obtain os' where "y = x\<lparr>fOverrides := os'\<rparr>" using step_frame [OF s] by blast
  with x show "\<exists>os. y = f\<lparr>fOverrides := os\<rparr>" by auto
qed

section \<open>What the steps keep\<close>

lemma clear_ofD: "clear_of f r e \<Longrightarrow> live f x \<Longrightarrow> ovSchedule x = ovSchedule r \<Longrightarrow> ovLayer x = ovLayer r \<Longrightarrow> \<not> e x \<Longrightarrow> apart x r"
  unfolding clear_of_def by blast

lemma step_roster:
  assumes "override_step t f g" "roster f"
  shows "roster g"
proof -
  have f: "tidy f" "disjoint_heads f" using assms(2) by (simp_all add: roster_def)
  from assms(1) show ?thesis
  proof cases
    case (assign r)
    have "disjoint_heads (appended f r)"
      by (rule new_disjoint [OF f(2) assign(2)]) (rule clear_ofD [OF assign(4)], auto)
    with new_tidy [OF f(1) assign(2)] show ?thesis unfolding assign(1) roster_def ..
  next
    case (call_off h r)
    have "disjoint_heads (appended f r)" by (rule next_disjoint [OF f(2,1) call_off(2)]) (use call_off(4) in simp)
    with next_tidy [OF f(1) call_off(2)] show ?thesis unfolding call_off(1) roster_def ..
  next
    case (shorten h r)
    note r = succeeds_headD [OF shorten(2)]
    have "disjoint_heads (appended f r)"
    proof (rule next_disjoint [OF f(2,1) shorten(2)])
      fix x assume x: "live f x" "x \<noteq> h" "ovSchedule x = ovSchedule r" "ovLayer x = ovLayer r"
      have "apart x h" using disjoint_headsD [OF f(2) x(1) shorten(3)] x(2-4) r(4,5) by simp
      then show "apart x r" using shorten(6,8,9) by (auto simp: apart_def)
    qed
    with next_tidy [OF f(1) shorten(2)] show ?thesis unfolding shorten(1) roster_def ..
  next
    case (exchange h r)
    have "disjoint_heads (appended f r)"
      by (rule next_disjoint [OF f(2,1) exchange(2)]) (rule clear_ofD [OF exchange(6)], auto)
    with next_tidy [OF f(1) exchange(2)] show ?thesis unfolding exchange(1) roster_def ..
  qed
qed

text \<open>Who covered an instant before the step still does after it.\<close>

lemma step_past:
  assumes "override_step t f g" "roster f" "s < t" "covered_by sid layer s uid f"
  shows "covered_by sid layer s uid g"
proof -
  have f: "tidy f" using assms(2) by (simp add: roster_def)
  obtain x where x: "live f x" "ovSchedule x = sid" "ovLayer x = layer" "ovFrom x \<le> s" "s < ovTo x" "ovUser x = uid"
    using assms(4) by (rule covered_byE)
  from assms(1) show ?thesis
  proof cases
    case (assign r)
    have "live (appended f r) x" using new_live [OF assign(2)] x(1) by simp
    from covered_byI [OF this x(4,5)] show ?thesis unfolding x(2,3,6) assign(1) .
  next
    case (call_off h r)
    then have "x \<noteq> h" using x(4) assms(3) by auto
    then have "live (appended f r) x" using next_live [OF f call_off(2)] x(1) by simp
    from covered_byI [OF this x(4,5)] show ?thesis unfolding x(2,3,6) call_off(1) .
  next
    case (shorten h r)
    show ?thesis
    proof (cases "x = h")
      case True
      note r = succeeds_headD [OF shorten(2)]
      have "live (appended f r) r" using next_live [OF f shorten(2)] shorten(4) by simp
      from covered_byI [OF this, of s] have "covered_by (ovSchedule r) (ovLayer r) s (ovUser r) (appended f r)"
        using shorten(8,9) x(4) assms(3) True by simp
      moreover have "ovSchedule r = sid" "ovLayer r = layer" "ovUser r = uid"
        using r(4,5) shorten(7) x(2,3,6) True by simp_all
      ultimately show ?thesis unfolding shorten(1) by simp
    next
      case False
      then have "live (appended f r) x" using next_live [OF f shorten(2)] x(1) by simp
      from covered_byI [OF this x(4,5)] show ?thesis unfolding x(2,3,6) shorten(1) .
    qed
  next
    case (exchange h r)
    then have "x \<noteq> h" using x(4) assms(3) by auto
    then have "live (appended f r) x" using next_live [OF f exchange(2)] x(1) by simp
    from covered_byI [OF this x(4,5)] show ?thesis unfolding x(2,3,6) exchange(1) .
  qed
qed

text \<open>Whoever covers a future instant was covering it before, or may.\<close>

lemma step_future:
  assumes "override_step t f g" "roster f" "covered_by sid layer s uid g" "t \<le> s"
  shows "covered_by sid layer s uid f \<or> may_cover f sid uid"
proof -
  have f: "tidy f" using assms(2) by (simp add: roster_def)
  obtain x where x: "live g x" "ovSchedule x = sid" "ovLayer x = layer" "ovFrom x \<le> s" "s < ovTo x" "ovUser x = uid"
    using assms(3) by (rule covered_byE)
  have old: "live f x \<Longrightarrow> covered_by sid layer s uid f"
    using covered_byI [of f x s] x(2-6) by simp
  from assms(1) show ?thesis
  proof cases
    case (assign r)
    then show ?thesis using new_live [OF assign(2), of x] x(1,2,6) old by auto
  next
    case (call_off h r)
    then show ?thesis using next_live [OF f call_off(2), of x] x(1) old by auto
  next
    case (shorten h r)
    then show ?thesis using next_live [OF f shorten(2), of x] x(1,5) old assms(4) by auto
  next
    case (exchange h r)
    then show ?thesis using next_live [OF f exchange(2), of x] x(1,2,6) old by auto
  qed
qed

lemma may_cover_frame: "may_cover (f\<lparr>fOverrides := os\<rparr>) sid uid = may_cover f sid uid"
  by (simp add: may_cover_def)

lemma steps_roster: "override_steps t f g \<Longrightarrow> roster f \<Longrightarrow> roster g"
  by (erule override_steps_invariant) (use step_roster in blast)+

lemma steps_past:
  assumes "override_steps t f g" "roster f" "s < t" "covered_by sid layer s uid f"
  shows "covered_by sid layer s uid g"
proof -
  have "roster g \<and> covered_by sid layer s uid g"
    using assms(1) by (rule override_steps_invariant) (use assms step_roster step_past in blast)+
  then show ?thesis ..
qed

lemma steps_future:
  assumes "override_steps t f g" "roster f" "covered_by sid layer s uid g" "t \<le> s"
  shows "covered_by sid layer s uid f \<or> may_cover f sid uid"
proof -
  have "roster g \<and> (\<exists>os. g = f\<lparr>fOverrides := os\<rparr>) \<and>
      (covered_by sid layer s uid g \<longrightarrow> covered_by sid layer s uid f \<or> may_cover f sid uid)"
    using assms(1)
  proof (rule override_steps_invariant)
    have "f = f\<lparr>fOverrides := fOverrides f\<rparr>" by simp
    then show "roster f \<and> (\<exists>os. f = f\<lparr>fOverrides := os\<rparr>) \<and>
      (covered_by sid layer s uid f \<longrightarrow> covered_by sid layer s uid f \<or> may_cover f sid uid)"
      using assms(2) by blast
  next
    fix x y assume s: "override_step t x y" and h: "roster x \<and> (\<exists>os. x = f\<lparr>fOverrides := os\<rparr>) \<and>
      (covered_by sid layer s uid x \<longrightarrow> covered_by sid layer s uid f \<or> may_cover f sid uid)"
    then obtain os where x: "x = f\<lparr>fOverrides := os\<rparr>" by blast
    obtain os' where y: "y = x\<lparr>fOverrides := os'\<rparr>" using step_frame [OF s] by blast
    have "y = f\<lparr>fOverrides := os'\<rparr>" using x y by simp
    moreover have "covered_by sid layer s uid y \<Longrightarrow> covered_by sid layer s uid x \<or> may_cover f sid uid"
      using step_future [OF s conjunct1 [OF h] _ assms(4)] may_cover_frame [where f = f and os = os] x by blast
    ultimately show "roster y \<and> (\<exists>os. y = f\<lparr>fOverrides := os\<rparr>) \<and>
      (covered_by sid layer s uid y \<longrightarrow> covered_by sid layer s uid f \<or> may_cover f sid uid)"
      using h step_roster [OF s] by blast
  qed
  with assms(3) show ?thesis by blast
qed

section \<open>What a command writes\<close>

lemma PrepareOverrideRevision_Inr:
  assumes "PrepareOverrideRevision ck r = Inr r'" "ovLayer r \<noteq> []"
  shows "r' = r\<lparr>ovRevisionID := (if ovRevisionID r = [] then ckUuid ck else ovRevisionID r),
       ovFrom := NormalizeTimestamp (ovFrom r), ovTo := NormalizeTimestamp (ovTo r),
       ovRecordedAt := normalizeRecordedAt ck (ovRecordedAt r)\<rparr>"
    "ovOverrideID r \<noteq> []" "1 \<le> ovRevision r" "NormalizeTimestamp (ovFrom r) < NormalizeTimestamp (ovTo r)"
proof -
  have "\<not> (ovOverrideID r = [] \<or> ovSchedule r = [] \<or> ovUser r = [])" "\<not> ovRevision r < 1"
    "NormalizeTimestamp (ovFrom r) < NormalizeTimestamp (ovTo r)" and
    e: "r' = r\<lparr>ovRevisionID := (if ovRevisionID r = [] then ckUuid ck else ovRevisionID r),
       ovLayer := ovLayer r, ovFrom := NormalizeTimestamp (ovFrom r), ovTo := NormalizeTimestamp (ovTo r),
       ovRecordedAt := normalizeRecordedAt ck (ovRecordedAt r)\<rparr>"
    using assms unfolding PrepareOverrideRevision_def Let_def by (simp_all split: if_split_asm)
  then show "ovOverrideID r \<noteq> []" "1 \<le> ovRevision r" "NormalizeTimestamp (ovFrom r) < NormalizeTimestamp (ovTo r)"
    by simp_all
  show "r' = r\<lparr>ovRevisionID := (if ovRevisionID r = [] then ckUuid ck else ovRevisionID r),
       ovFrom := NormalizeTimestamp (ovFrom r), ovTo := NormalizeTimestamp (ovTo r),
       ovRecordedAt := normalizeRecordedAt ck (ovRecordedAt r)\<rparr>" using e by simp
qed

text \<open>An accepted revision is stored as given, but for its own id and the time it was recorded.\<close>

lemma insert_core:
  assumes "InsertOverrideRevision ck r f = Inr g" "aligned (ovFrom r)" "aligned (ovTo r)"
    "ovLayer r = LayerL1 \<or> ovLayer r = LayerL2"
  obtains r' where "g = appended f r'" "ovOverrideID r' = ovOverrideID r" "ovSchedule r' = ovSchedule r"
    "ovRevision r' = ovRevision r" "ovLayer r' = ovLayer r" "ovUser r' = ovUser r" "ovFrom r' = ovFrom r"
    "ovTo r' = ovTo r" "ovDeleted r' = ovDeleted r" "tidy_row f r'"
    "\<And>x. x \<in> set (fOverrides f) \<Longrightarrow> ovOverrideID x = ovOverrideID r' \<Longrightarrow> ovRevision x \<noteq> ovRevision r'"
proof -
  obtain r' where p: "PrepareOverrideRevision ck r = Inr r'" and g: "g = f\<lparr>fOverrides := fOverrides f @ [r']\<rparr>"
    and new: "\<forall>x \<in> set (fOverrides f). \<not> (ovOverrideID x = ovOverrideID r' \<and> ovRevision x = ovRevision r')"
    and s: "ovSchedule r' \<in> rtID ` set (fRoots f)"
    using InsertOverrideRevision_Inr [OF assms(1)] by blast
  have l: "ovLayer r \<noteq> []" using assms(4) by (auto simp: LayerL1_def LayerL2_def)
  note pr = PrepareOverrideRevision_Inr [OF p this]
  have sel: "ovOverrideID r' = ovOverrideID r" "ovSchedule r' = ovSchedule r" "ovRevision r' = ovRevision r"
    "ovLayer r' = ovLayer r" "ovUser r' = ovUser r" "ovFrom r' = ovFrom r" "ovTo r' = ovTo r" "ovDeleted r' = ovDeleted r"
    using assms(2,3) by (simp_all add: pr(1))
  have ok: "ovFrom r < ovTo r" using pr(4) assms(2,3) by simp
  have "tidy_row f r'" unfolding tidy_row_def sel using assms(2-4) pr(2,3) ok s sel(2) by simp
  then show thesis using that [of r'] g sel new by (simp add: appended_def)
qed

lemma brand_newI:
  assumes "tidy f" "tidy_row f r" "ovRevision r = 1"
    "\<And>x. x \<in> set (fOverrides f) \<Longrightarrow> ovOverrideID x = ovOverrideID r \<Longrightarrow> ovRevision x \<noteq> ovRevision r"
  shows "brand_new f r"
  unfolding brand_new_def
proof (intro conjI ballI assms(2,3) notI)
  fix x assume x: "x \<in> set (fOverrides f)" "ovOverrideID x = ovOverrideID r"
  then obtain y where "y \<in> set (fOverrides f)" "ovOverrideID y = ovOverrideID r" "ovRevision y = 1"
    using tidyD(5) [OF assms(1) x(1)] by auto
  with assms(3,4) show False by simp
qed

lemma overlap_clear:
  assumes "checkOverrideOverlap r excluded f = Inr ()" "aligned (ovFrom r)" "aligned (ovTo r)"
    "live f x" "ovSchedule x = ovSchedule r" "ovLayer x = ovLayer r" "ovOverrideID x \<noteq> excluded"
  shows "apart x r"
proof -
  have "x \<notin> set (filter (\<lambda>x. \<not> (ovLayer x \<noteq> ovLayer r \<or> ovOverrideID x = excluded))
      (GetOverrideProjectionInRange (ovSchedule r) (Some (ovFrom r)) (Some (ovTo r)) f))"
    using assms(1) unfolding checkOverrideOverlap_def Let_def by (metis Inl_Inr_False empty_iff set_empty2)
  then have "x \<notin> set (GetOverrideProjectionInRange (ovSchedule r) (Some (ovFrom r)) (Some (ovTo r)) f)"
    using assms(6,7) unfolding set_filter by blast
  moreover have "x \<in> set (fOverrides f)" "is_head (ovSchedule r) (fOverrides f) x" "\<not> ovDeleted x"
    using assms(4,5) unfolding live_head by simp_all
  ultimately show ?thesis using assms(2,3)
    by (simp add: GetOverrideProjectionInRange_def by_start_def apart_def not_less)
qed

lemma live_set: "live f x \<Longrightarrow> x \<in> set (fOverrides f)"
  by (simp add: live_head)


lemma lockForOverride_Inr:
  "lockForOverride ck sid f = Inr (locked, at') \<Longrightarrow> locked \<in> set (fRoots f) \<and> rtID locked = sid \<and>
     rtDeletedAt locked = None \<and> at' = NormalizeTimestamp (ckNow ck)"
  using GetScheduleRoot_Inr by (force simp: lockForOverride_def split: if_splits)

lemma liveOverrideHead_Inr:
  assumes "liveOverrideHead sid oid expected f = Inr h"
  shows "live f h" "ovSchedule h = sid" "ovOverrideID h = oid" "ovRevision h = expected"
proof -
  from assms have g: "GetOverrideHead sid oid f = Inr h" and d: "\<not> ovDeleted h" "ovRevision h = expected"
    by (auto simp: liveOverrideHead_def split: if_splits)
  from g have "find (\<lambda>r. is_head sid (fOverrides f) r \<and> ovOverrideID r = oid) (fOverrides f) = Some h"
    by (simp add: GetOverrideHead_def split: option.splits)
  then obtain i where i: "i < length (fOverrides f)" "fOverrides f ! i = h" "is_head sid (fOverrides f) h" "ovOverrideID h = oid"
    unfolding find_Some_iff by blast
  then have m: "h \<in> set (fOverrides f)" using nth_mem by blast
  show s: "ovSchedule h = sid" using i(3) by (rule is_head_schedule)
  show "live f h" unfolding live_head s using m i(3) d(1) by blast
  show "ovOverrideID h = oid" "ovRevision h = expected" using i(4) d(2) by simp_all
qed

lemma validateOverrideTarget_Inr:
  assumes "validateOverrideTarget tid cmd f = Inr ()"
  shows "NormalizeTimestamp (ocFrom cmd) < NormalizeTimestamp (ocTo cmd)" "ocUser cmd \<in> set (GetTeamMemberIDs tid (fPeople f))"
  using assms by (auto simp: validateOverrideTarget_def ValidateMembership_def Let_def split: if_splits)

lemma live_heads_differ:
  assumes "tidy f" "live f x" "live f h" "x \<noteq> h"
  shows "ovOverrideID x \<noteq> ovOverrideID h"
  using heads_equal [OF assms(1), of x h] assms(2-4) unfolding live_def by blast

lemma live_id: "tidy f \<Longrightarrow> live f x \<Longrightarrow> ovOverrideID x \<noteq> []"
  using tidyD(1) [of f x] live_set [of f x] unfolding tidy_row_def by blast

lemma clear_of_core:
  assumes "clear_of f r e" "ovSchedule r' = ovSchedule r" "ovLayer r' = ovLayer r" "ovFrom r' = ovFrom r" "ovTo r' = ovTo r"
  shows "clear_of f r' e"
  using assms unfolding clear_of_def apart_def by simp

text \<open>The insertion of a checked new override is a step; so is a successor of a live head.\<close>

lemma insert_assign:
  assumes "tidy f" "InsertOverrideRevision ck r f = Inr g" "checkOverrideOverlap r [] f = Inr ()"
    "aligned (ovFrom r)" "aligned (ovTo r)" "ovLayer r = LayerL1 \<or> ovLayer r = LayerL2" "ovRevision r = 1" "\<not> ovDeleted r"
    "may_cover f (ovSchedule r) (ovUser r)"
  shows "override_step t f g"
proof (rule insert_core [OF assms(2,4-6)])
  fix r' assume g: "g = appended f r'" and s: "ovOverrideID r' = ovOverrideID r" "ovSchedule r' = ovSchedule r"
    "ovRevision r' = ovRevision r" "ovLayer r' = ovLayer r" "ovUser r' = ovUser r" "ovFrom r' = ovFrom r"
    "ovTo r' = ovTo r" "ovDeleted r' = ovDeleted r" and row: "tidy_row f r'" and new:
    "\<And>x. x \<in> set (fOverrides f) \<Longrightarrow> ovOverrideID x = ovOverrideID r' \<Longrightarrow> ovRevision x \<noteq> ovRevision r'"
  have "clear_of f r (\<lambda>_. False)" unfolding clear_of_def
    using overlap_clear [OF assms(3-5)] live_id [OF assms(1)] by blast
  then have c: "clear_of f r' (\<lambda>_. False)" by (rule clear_of_core) (simp_all add: s)
  have "brand_new f r'" by (rule brand_newI [OF assms(1) row _ new]) (simp_all add: s assms(7))
  then show "override_step t f g" unfolding g
    by (rule override_step.assign [OF _ _ c]) (use assms(8,9) s in simp_all)
qed

lemma insert_succeeds:
  assumes "tidy f" "InsertOverrideRevision ck r f = Inr g" "live f h"
    "aligned (ovFrom r)" "aligned (ovTo r)"
    "ovOverrideID r = ovOverrideID h" "ovSchedule r = ovSchedule h" "ovLayer r = ovLayer h" "ovRevision r = ovRevision h + 1"
  obtains r' where "g = appended f r'" "succeeds_head f h r'" "ovUser r' = ovUser r" "ovFrom r' = ovFrom r"
    "ovTo r' = ovTo r" "ovDeleted r' = ovDeleted r" "ovSchedule r' = ovSchedule r" "ovLayer r' = ovLayer r"
proof -
  have l: "ovLayer r = LayerL1 \<or> ovLayer r = LayerL2"
    using tidyD(1) [OF assms(1) live_set [OF assms(3)]] assms(8) unfolding tidy_row_def by simp
  show thesis
  proof (rule insert_core [OF assms(2,4,5) l])
    fix r' assume g: "g = appended f r'" and s: "ovOverrideID r' = ovOverrideID r" "ovSchedule r' = ovSchedule r"
      "ovRevision r' = ovRevision r" "ovLayer r' = ovLayer r" "ovUser r' = ovUser r" "ovFrom r' = ovFrom r"
      "ovTo r' = ovTo r" "ovDeleted r' = ovDeleted r" and row: "tidy_row f r'"
    have "succeeds_head f h r'" unfolding succeeds_head_def
      using row assms(3,6-9) by (simp add: s live_def)
    with g s show thesis using that by blast
  qed
qed

lemma head_times:
  assumes "tidy f" "live f h"
  shows "aligned (ovFrom h)" "aligned (ovTo h)" "ovFrom h < ovTo h"
  using tidyD(1) [OF assms(1) live_set [OF assms(2)]] unfolding tidy_row_def by blast+

lemma ended_revision_Some:
  assumes "ended_revision fresh t actor reason h = Some r"
  shows "ovOverrideID r = ovOverrideID h" "ovSchedule r = ovSchedule h" "ovLayer r = ovLayer h" "ovRevision r = ovRevision h + 1"
    "ovUser r = ovUser h" "ovFrom r = ovFrom h"
    "(t \<le> ovFrom h \<and> ovDeleted r \<and> ovTo r = ovTo h) \<or> (ovFrom h < t \<and> t < ovTo h \<and> ovTo r = t \<and> ovDeleted r = ovDeleted h)"
  using assms by (auto simp: ended_revision_def Let_def split: if_splits)

lemma insert_ended:
  assumes "tidy f" "live f h" "aligned t" "ended_revision fresh t actor reason h = Some r"
    "InsertOverrideRevision ck r f = Inr g"
  shows "override_step t f g" "tidy g" "live g x \<Longrightarrow> (live f x \<and> x \<noteq> h) \<or> (ovTo x \<le> t \<and> ovSchedule x = ovSchedule h)" "live f x \<Longrightarrow> x \<noteq> h \<Longrightarrow> live g x"
proof -
  note e = ended_revision_Some [OF assms(4)] and h = head_times [OF assms(1,2)]
  have a: "aligned (ovFrom r)" "aligned (ovTo r)" using e(6,7) h(1,2) assms(3) by auto
  obtain r' where g: "g = appended f r'" and s: "succeeds_head f h r'" "ovUser r' = ovUser r" "ovFrom r' = ovFrom r"
      "ovTo r' = ovTo r" "ovDeleted r' = ovDeleted r"
    by (rule insert_succeeds [OF assms(1,5,2) a e(1-4)])
  note lv = next_live [OF assms(1) s(1)]
  show "tidy g" unfolding g by (rule next_tidy [OF assms(1) s(1)])
  show "live f x \<Longrightarrow> x \<noteq> h \<Longrightarrow> live g x" unfolding g lv by blast
  show "override_step t f g" "live g x \<Longrightarrow> (live f x \<and> x \<noteq> h) \<or> (ovTo x \<le> t \<and> ovSchedule x = ovSchedule h)"
  proof (atomize (full), cases "t \<le> ovFrom h")
    case True
    then have d: "ovDeleted r'" using e(7) s(5) by auto
    with override_step.call_off [OF s(1) assms(2) d True]
    show "override_step t f g \<and> (live g x \<longrightarrow> (live f x \<and> x \<noteq> h) \<or> (ovTo x \<le> t \<and> ovSchedule x = ovSchedule h))" unfolding g lv by blast
  next
    case False
    then have c: "ovTo r = t" "ovDeleted r = ovDeleted h" "ovFrom h < t" "t < ovTo h" using e(7) by auto
    have d: "\<not> ovDeleted r'" "ovTo r' = t" "ovUser r' = ovUser h" "ovFrom r' = ovFrom h"
      using s(2-5) e(5,6) c assms(2) by (simp_all add: live_def)
    from override_step.shorten [OF s(1) assms(2) d(1) c(3,4) d(3,4,2)]
    show "override_step t f g \<and> (live g x \<longrightarrow> (live f x \<and> x \<noteq> h) \<or> (ovTo x \<le> t \<and> ovSchedule x = ovSchedule h))" unfolding g lv using d(2) succeeds_headD(4) [OF s(1)] by auto
  qed
qed

section \<open>Every override command is a sequence of steps\<close>

lemma refused_InrE:
  assumes "(if b then Inl e else r) = Inr y"
  obtains "\<not> b" "r = Inr y"
  using assms by (auto split: if_splits)

lemma pair_InrE:
  assumes "(case p of (x, y) \<Rightarrow> k x y) = z"
  obtains x y where "p = (x, y)" "k x y = z"
  using assms by (cases p) auto

lemma CreateOverride_steps:
  assumes "tidy f" "CreateOverride ck tid cmd f = Inr (r, g)"
  shows "override_steps (NormalizeTimestamp (ckNow ck)) f g"
proof -
  obtain root locked at' u u' where root: "GetScheduleRootByTeam tid f = Inr root"
    and l: "lockForOverride ck (rtID root) f = Inr (locked, at')"
    and v': "validateOverrideTarget (rtTeam locked) cmd f = Inr u"
    and c': "checkOverrideOverlap r [] f = Inr u'" and i: "InsertOverrideRevision ck r f = Inr g"
    and r: "r = \<lparr>ovRevisionID = ckNewID ck 0, ovOverrideID = ckNewID ck 1, ovSchedule = rtID locked,
               ovRevision = 1, ovLayer = LayerL1, ovUser = ocUser cmd,
               ovFrom = NormalizeTimestamp (ocFrom cmd), ovTo = NormalizeTimestamp (ocTo cmd),
               ovReason = ocReason cmd, ovDeleted = False, ovRecordedAt = at',
               ovRecordedBy = optionalString (ocActor cmd)\<rparr>"
    using assms(2) unfolding CreateOverride_def Let_def
    by (elim then_ok_InrE refused_InrE pair_InrE) blast
  have v: "validateOverrideTarget (rtTeam locked) cmd f = Inr ()" and c: "checkOverrideOverlap r [] f = Inr ()"
    using v' c' by simp_all
  note lk = lockForOverride_Inr [OF l] and t = validateOverrideTarget_Inr [OF v]
  have "may_cover f (ovSchedule r) (ovUser r)" unfolding may_cover_def using lk t(2) by (auto simp: r)
  then show ?thesis
    by (intro override_step_steps insert_assign [OF assms(1) i c]) (simp_all add: r)
qed

lemma CancelOverride_steps:
  assumes "tidy f" "CancelOverride ck sid oid expected actor reason f = Inr g"
  shows "override_steps (NormalizeTimestamp (ckNow ck)) f g"
proof -
  obtain locked at' h nxt where l: "lockForOverride ck sid f = Inr (locked, at')"
    and h: "liveOverrideHead sid oid expected f = Inr h"
    and e: "ended_revision (ckNewID ck 0) at' actor reason h = Some nxt"
    and i: "InsertOverrideRevision ck nxt f = Inr g"
    using assms(2) unfolding CancelOverride_def by (auto split: if_splits option.splits elim!: then_ok_InrE)
  have "at' = NormalizeTimestamp (ckNow ck)" using lockForOverride_Inr [OF l] by blast
  then show ?thesis
    using override_step_steps [OF insert_ended(1) [OF assms(1) liveOverrideHead_Inr(1) [OF h] _ e i]] by simp
qed


lemma split_override_steps:
  assumes "tidy f" "live f h" "ovSchedule h = sid" "aligned t" "ovFrom h < t" "t < ovTo h"
    "may_cover f sid (ocUser cmd)" "split_override ck sid h cmd t f = Inr (r, g)"
  shows "override_steps t f g"
proof -
  obtain f1 u' where i1: "InsertOverrideRevision ck (truncated_revision (ckNewID ck 0) h cmd t) f = Inr f1"
    and c': "checkOverrideOverlap r [] f1 = Inr u'" and i2: "InsertOverrideRevision ck r f1 = Inr g"
    and r: "r = \<lparr>ovRevisionID = ckNewID ck 1, ovOverrideID = ckNewID ck 2, ovSchedule = sid, ovRevision = 1,
                  ovLayer = ovLayer h, ovUser = ocUser cmd, ovFrom = t, ovTo = NormalizeTimestamp (ocTo cmd),
                  ovReason = ocReason cmd, ovDeleted = False, ovRecordedAt = t,
                  ovRecordedBy = optionalString (ocActor cmd)\<rparr>"
    using assms(8) unfolding split_override_def Let_def
    by (elim then_ok_InrE refused_InrE) blast
  have c: "checkOverrideOverlap r [] f1 = Inr ()" using c' by simp
  let ?x = "truncated_revision (ckNewID ck 0) h cmd t"
  note h = head_times [OF assms(1,2)]
  have sx: "ovOverrideID ?x = ovOverrideID h" "ovSchedule ?x = ovSchedule h" "ovLayer ?x = ovLayer h"
    "ovRevision ?x = ovRevision h + 1" "ovUser ?x = ovUser h" "ovFrom ?x = ovFrom h" "ovTo ?x = t" "ovDeleted ?x = ovDeleted h"
    by (simp_all add: truncated_revision_def)
  have a: "aligned (ovFrom ?x)" "aligned (ovTo ?x)" using h(1) assms(4) sx(6,7) by simp_all
  have s1: "override_step t f f1" "tidy f1"
  proof -
    obtain x' where x: "f1 = appended f x'" "succeeds_head f h x'" "ovUser x' = ovUser ?x" "ovFrom x' = ovFrom ?x"
      "ovTo x' = ovTo ?x" "ovDeleted x' = ovDeleted ?x"
      by (rule insert_succeeds [OF assms(1) i1 assms(2) a sx(1-4)])
    have "\<not> ovDeleted x'" "ovUser x' = ovUser h" "ovFrom x' = ovFrom h" "ovTo x' = t"
      using x(3-6) sx(5-8) assms(2) by (simp_all add: live_def)
    then show "override_step t f f1" unfolding x(1)
      using override_step.shorten [OF x(2) assms(2) _ assms(5,6)] by blast
    show "tidy f1" unfolding x(1) by (rule next_tidy [OF assms(1) x(2)])
  qed
  obtain os where f1: "f1 = f\<lparr>fOverrides := os\<rparr>" using step_frame [OF s1(1)] by blast
  have "may_cover f1 (ovSchedule r) (ovUser r)" using assms(7) by (simp add: f1 may_cover_frame r)
  moreover have "ovLayer r = LayerL1 \<or> ovLayer r = LayerL2"
    using tidyD(1) [OF assms(1) live_set [OF assms(2)]] unfolding tidy_row_def by (simp add: r)
  ultimately have "override_step t f1 g"
    by (intro insert_assign [OF s1(2) i2 c]) (use assms(4) in \<open>simp_all add: r\<close>)
  then show ?thesis using override_steps_trans override_step_steps s1(1) by blast
qed

lemma UpdateOverride_steps:
  assumes "tidy f" "UpdateOverride ck sid oid expected cmd f = Inr (r, g)"
  shows "override_steps (NormalizeTimestamp (ckNow ck)) f g"
proof -
  obtain locked at' h u where l: "lockForOverride ck sid f = Inr (locked, at')"
    and hd: "liveOverrideHead sid oid expected f = Inr h"
    and v': "validateOverrideTarget (rtTeam locked) cmd f = Inr u" and lt: "at' < ovTo h"
    and k: "(if \<not> ovFrom h < at'
      then let r = nextOverrideRevision (ckNewID ck 0) h cmd at'
           in then_ok (checkOverrideOverlap r oid f) (\<lambda>_.
              then_ok (InsertOverrideRevision ck r f) (\<lambda>f'. Inr (r, f')))
      else split_override ck sid h cmd at' f) = Inr (r, g)"
    using assms(2) unfolding UpdateOverride_def
    by (elim then_ok_InrE refused_InrE pair_InrE) (hypsubst, unfold not_not, rule that, assumption+)
  have v: "validateOverrideTarget (rtTeam locked) cmd f = Inr ()" using v' by simp
  note lk = lockForOverride_Inr [OF l] and t = validateOverrideTarget_Inr [OF v] and h = liveOverrideHead_Inr [OF hd]
  have may: "may_cover f sid (ocUser cmd)" unfolding may_cover_def using lk t(2) by blast
  have al: "aligned at'" "at' = NormalizeTimestamp (ckNow ck)" using lk by simp_all
  show ?thesis
  proof (cases "ovFrom h < at'")
    case True
    with k have "split_override ck sid h cmd at' f = Inr (r, g)" by simp
    from split_override_steps [OF assms(1) h(1,2) al(1) True lt may this] show ?thesis unfolding al(2) .
  next
    case False
    let ?x = "nextOverrideRevision (ckNewID ck 0) h cmd at'"
    have c: "checkOverrideOverlap ?x oid f = Inr ()" and i: "InsertOverrideRevision ck ?x f = Inr g"
      using k False by (auto simp: Let_def elim!: then_ok_InrE)
    have sx: "ovOverrideID ?x = ovOverrideID h" "ovSchedule ?x = ovSchedule h" "ovLayer ?x = ovLayer h"
      "ovRevision ?x = ovRevision h + 1" "ovUser ?x = ocUser cmd" "\<not> ovDeleted ?x"
      and a: "aligned (ovFrom ?x)" "aligned (ovTo ?x)" by (simp_all add: nextOverrideRevision_def)
    obtain x where x: "g = appended f x" "succeeds_head f h x" "ovUser x = ovUser ?x" "ovFrom x = ovFrom ?x"
      "ovTo x = ovTo ?x" "ovDeleted x = ovDeleted ?x" "ovSchedule x = ovSchedule ?x" "ovLayer x = ovLayer ?x"
      by (rule insert_succeeds [OF assms(1) i h(1) a sx(1-4)])
    have "clear_of f ?x (\<lambda>y. y = h)" unfolding clear_of_def
    proof (intro allI impI)
      fix y assume y: "live f y" "ovSchedule y = ovSchedule ?x" "ovLayer y = ovLayer ?x" "y \<noteq> h"
      then have "ovOverrideID y \<noteq> oid" using live_heads_differ [OF assms(1) y(1) h(1) y(4)] h(3) by simp
      then show "apart y ?x" by (rule overlap_clear [OF c a y(1-3)])
    qed
    then have cl: "clear_of f x (\<lambda>y. y = h)" by (rule clear_of_core) (simp_all add: x)
    have "override_step at' f g" unfolding x(1)
      by (rule override_step.exchange [OF x(2) h(1) _ _ cl]) (use False may x(3,6,7) sx(2,5,6) h(2) in simp_all)
    then show ?thesis unfolding al(2) by (rule override_step_steps)
  qed
qed

section \<open>Deleting a schedule ends its overrides\<close>

lemma end_heads_steps:
  assumes "tidy f" "aligned t" "distinct heads" "\<forall>h \<in> set heads. live f h"
    "end_heads ck k t actor reason heads f = Inr g"
  shows "override_steps t f g \<and> (\<forall>x. live g x \<longrightarrow> (live f x \<and> x \<notin> set heads) \<or> (ovTo x \<le> t \<and> ovSchedule x \<in> ovSchedule ` set heads))"
  using assms
proof (induction ck k t actor reason heads f rule: end_heads.induct)
  case (1 ck k t actor reason f)
  then show ?case using override_steps_refl by simp
next
  case (2 ck k t actor reason h heads f)
  show ?case
  proof (cases "ended_revision (ckNewID ck k) t actor reason h")
    case None
    then have le: "ovTo h \<le> t" by (auto simp: ended_revision_def Let_def split: if_splits)
    have "override_steps t f g \<and> (\<forall>x. live g x \<longrightarrow> (live f x \<and> x \<notin> set heads) \<or> (ovTo x \<le> t \<and> ovSchedule x \<in> ovSchedule ` set heads))"
      by (rule 2(1) [OF None]) (use 2(3-7) None in auto)
    with le show ?thesis by auto
  next
    case (Some nxt)
    with 2(7) obtain f1 where f1: "InsertOverrideRevision ck nxt f = Inr f1"
      and rest: "end_heads ck (Suc k) t actor reason heads f1 = Inr g" by auto
    have h: "live f h" using 2(6) by simp
    note s = insert_ended [OF 2(3) h 2(4) Some f1]
    have "\<forall>x \<in> set heads. live f1 x" using s(4) 2(5,6) by auto
    then have ih: "override_steps t f1 g" "\<And>x. live g x \<Longrightarrow> (live f1 x \<and> x \<notin> set heads) \<or> (ovTo x \<le> t \<and> ovSchedule x \<in> ovSchedule ` set heads)"
      using 2(2) [OF Some s(2) 2(4) _ _ rest] 2(5) by auto
    have "(live f x \<and> x \<notin> set (h # heads)) \<or> (ovTo x \<le> t \<and> ovSchedule x \<in> ovSchedule ` set (h # heads))" if "live g x" for x
      using ih(2) [OF that] s(3) [of x] by auto
    moreover have "override_steps t f g" using override_steps_trans [OF override_step_steps [OF s(1)] ih(1)] .
    ultimately show ?thesis by blast
  qed
qed

lemma endLiveOverrides_steps:
  assumes "tidy f" "aligned t" "endLiveOverrides ck sid t actor reason f = Inr g"
  shows "override_steps t f g" "live g x \<Longrightarrow> ovSchedule x = sid \<Longrightarrow> ovTo x \<le> t"
    "live g x \<Longrightarrow> ovSchedule x \<noteq> sid \<Longrightarrow> live f x"
proof -
  let ?heads = "ListOverrideHeads sid False f"
  have m: "x \<in> set ?heads \<longleftrightarrow> live f x \<and> ovSchedule x = sid" for x
    unfolding live_head ListOverrideHeads_def by_start_def using is_head_schedule by auto
  have "distinct (fOverrides f)" using assms(1) unfolding tidy_def by blast
  then have "distinct ?heads" by (simp add: ListOverrideHeads_def by_start_def)
  then have s: "override_steps t f g \<and> (\<forall>x. live g x \<longrightarrow> (live f x \<and> x \<notin> set ?heads) \<or> (ovTo x \<le> t \<and> ovSchedule x \<in> ovSchedule ` set ?heads))"
    using end_heads_steps [OF assms(1,2), of ?heads ck 1 actor reason g] assms(2,3) m
    by (simp add: endLiveOverrides_def)
  then show "override_steps t f g" "live g x \<Longrightarrow> ovSchedule x = sid \<Longrightarrow> ovTo x \<le> t"
    "live g x \<Longrightarrow> ovSchedule x \<noteq> sid \<Longrightarrow> live f x" using m by auto
qed

end
