(* ===== verification/Staffed.thy ===== *)
theory Staffed
  imports Duties
begin

text \<open>
  Nobody on call has left: everyone the revision in force names, and everyone who covers a
  future instant, is an active member of the schedule's team.  The invariant of the tables
  behind that sentence, and its preservation by every command.
\<close>

section \<open>Who a snapshot names\<close>

definition member :: "office \<Rightarrow> schedule_root \<Rightarrow> string \<Rightarrow> bool" where
  "member f sr uid \<longleftrightarrow> uid \<in> set (GetTeamMemberIDs (rtTeam sr) (fPeople f))"

lemma member_iff: "member f sr uid \<longleftrightarrow>
    (rtTeam sr, uid) \<in> (\<lambda>m. (mTeam m, mUser m)) ` set (pMembers (fPeople f)) \<and> activeUser uid (fPeople f)"
  by (force simp: member_def GetTeamMemberIDs_def)

lemma names_of_configuration:
  "snapshotNames s uid \<longleftrightarrow> uid \<in> set (ConfigurationUserIDs (ConfigurationFromSnapshot s))"
  by (auto simp: snapshotNames_def list_ex_iff ConfigurationUserIDs_def ConfigurationFromSnapshot_def
    layer_configuration_of_def)

lemma names_canonical: "set (ConfigurationUserIDs (canonicalizeConfiguration c)) \<subseteq> set (ConfigurationUserIDs c)"
  by (auto simp: ConfigurationUserIDs_def canonicalizeConfiguration_def Let_def canonical_layer_def sort_members_def)

lemma PlanTransition_normal:
  assumes "PlanTransition ext inp = Inr (Plan snap t1 t2 ch)"
  shows "NormalizeConfiguration ext (tiDesired inp) = Inr (ConfigurationFromSnapshot snap)"
proof -
  have z: "tiEffectiveAt inp \<noteq> zero_time" using assms by (auto simp: PlanTransition_cases)
  obtain d where d: "NormalizeConfiguration ext (tiDesired inp) = Inr d"
    using assms z by (cases "NormalizeConfiguration ext (tiDesired inp)") (simp_all add: PlanTransition_cases)
  obtain cc where cc: "checked_current ext (tiCurrent inp) = Inr cc"
    using assms z d by (cases "checked_current ext (tiCurrent inp)") (simp_all add: PlanTransition_cases)
  have u: "\<not> unchanged inp d" using assms z d cc by (auto simp: PlanTransition_cases)
  have "current_valid ext inp"
    using cc by (auto simp: checked_current_def current_valid_def split: option.splits sum.splits)
  then show ?thesis
    using PlanTransition_succeeds [OF z d _ u] d assms by (metis sum.inject(2) transition_plan.inject)
qed

lemma planned_names:
  assumes "planned_for ck before desired t snap" "snapshotNames snap uid"
  shows "uid \<in> set (ConfigurationUserIDs desired)"
proof -
  obtain t1 t2 ch where "PlanTransition (ckExt ck) \<lparr>tiCurrent = before, tiDesired = desired, tiEffectiveAt = t\<rparr>
      = Inr (Plan snap t1 t2 ch)" using assms(1) unfolding planned_for_def by blast
  from PlanTransition_normal [OF this] have "ConfigurationFromSnapshot snap = canonicalizeConfiguration desired"
    by (auto simp: NormalizeConfiguration_def Let_def)
  with assms(2) names_canonical show ?thesis unfolding names_of_configuration by auto
qed

lemma ValidateMembership_Inr:
  assumes "ValidateMembership tid wanted f = Inr ()" "uid \<in> set wanted"
  shows "uid \<in> set (GetTeamMemberIDs tid (fPeople f))"
  using assms by (auto simp: ValidateMembership_def Let_def filter_empty_conv split: if_splits)

section \<open>The invariant\<close>

definition tail_of :: "office \<Rightarrow> schedule_root \<Rightarrow> schedule_revision" where
  "tail_of f sr = last (revs (rtID sr) f)"

definition staffed_root :: "int \<Rightarrow> office \<Rightarrow> schedule_root \<Rightarrow> bool" where
  "staffed_root now f sr \<longleftrightarrow>
     (if rtDeletedAt sr = None
      then (\<forall>uid. snapshotNames (rvSnapshot (tail_of f sr)) uid \<longrightarrow> member f sr uid) \<and>
           (\<forall>x. live f x \<longrightarrow> ovSchedule x = rtID sr \<longrightarrow> NormalizeTimestamp now < ovTo x \<longrightarrow>
              rvFrom (tail_of f sr) < ovTo x \<longrightarrow> member f sr (ovUser x))
      else \<forall>x. live f x \<longrightarrow> ovSchedule x = rtID sr \<longrightarrow> ovTo x \<le> rvFrom (tail_of f sr))"

definition staffed :: "int \<Rightarrow> office \<Rightarrow> bool" where
  "staffed now f \<longleftrightarrow> (\<forall>sr \<in> set (fRoots f). staffed_root now f sr)"

lemma staffed_rootD:
  assumes "staffed_root now f sr" "rtDeletedAt sr = None"
  shows "snapshotNames (rvSnapshot (tail_of f sr)) uid \<Longrightarrow> member f sr uid"
    "live f x \<Longrightarrow> ovSchedule x = rtID sr \<Longrightarrow> NormalizeTimestamp now < ovTo x \<Longrightarrow>
       rvFrom (tail_of f sr) < ovTo x \<Longrightarrow> member f sr (ovUser x)"
  using assms by (simp_all add: staffed_root_def)

lemma staffed_root_deleted:
  assumes "staffed_root now f sr" "rtDeletedAt sr \<noteq> None" "live f x" "ovSchedule x = rtID sr"
  shows "ovTo x \<le> rvFrom (tail_of f sr)"
  using assms by (simp add: staffed_root_def)

lemma staffed_rootI:
  assumes "\<And>uid. rtDeletedAt sr = None \<Longrightarrow> snapshotNames (rvSnapshot (tail_of f sr)) uid \<Longrightarrow> member f sr uid"
    and "\<And>x. rtDeletedAt sr = None \<Longrightarrow> live f x \<Longrightarrow> ovSchedule x = rtID sr \<Longrightarrow> NormalizeTimestamp now < ovTo x \<Longrightarrow>
       rvFrom (tail_of f sr) < ovTo x \<Longrightarrow> member f sr (ovUser x)"
    and "\<And>x. rtDeletedAt sr \<noteq> None \<Longrightarrow> live f x \<Longrightarrow> ovSchedule x = rtID sr \<Longrightarrow> ovTo x \<le> rvFrom (tail_of f sr)"
  shows "staffed_root now f sr"
  using assms by (auto simp: staffed_root_def)

text \<open>The clock only releases.\<close>

lemma staffed_later: "staffed now f \<Longrightarrow> now \<le> now' \<Longrightarrow> staffed now' f"
  using Normalize_mono [of now now'] by (fastforce simp: staffed_def staffed_root_def split: if_splits)

lemma live_cong: "fOverrides f' = fOverrides f \<Longrightarrow> live f' x = live f x"
  by (simp add: live_head)

lemma covered_by_cong: "fOverrides f' = fOverrides f \<Longrightarrow> covered_by sid layer t uid f' = covered_by sid layer t uid f"
  by (simp add: covered_by_def)

lemma roster_cong:
  assumes "roster f" "fOverrides f' = fOverrides f" "rtID ` set (fRoots f) \<subseteq> rtID ` set (fRoots f')"
  shows "roster f'"
proof -
  have "tidy_row f r \<Longrightarrow> tidy_row f' r" for r using assms(3) by (auto simp: tidy_row_def)
  with assms(1) have "tidy f'" unfolding roster_def tidy_def assms(2) by blast
  moreover have "disjoint_heads f'" using assms(1) unfolding roster_def disjoint_heads_def live_cong [OF assms(2)] by blast
  ultimately show ?thesis by (simp add: roster_def)
qed

text \<open>Where schedules and overrides are untouched, keeping the members is enough.\<close>

lemma staffed_members:
  assumes "staffed now f" "fRoots f' = fRoots f" "fRevisions f' = fRevisions f" "fOverrides f' = fOverrides f"
    and "\<And>sr uid. sr \<in> set (fRoots f) \<Longrightarrow> rtDeletedAt sr = None \<Longrightarrow> member f sr uid \<Longrightarrow>
      snapshotNames (rvSnapshot (tail_of f sr)) uid \<or>
      (\<exists>x. live f x \<and> ovSchedule x = rtID sr \<and> NormalizeTimestamp now < ovTo x \<and> ovUser x = uid) \<Longrightarrow> member f' sr uid"
  shows "staffed now f'"
  unfolding staffed_def assms(2)
proof
  fix sr assume sr: "sr \<in> set (fRoots f)"
  have s: "staffed_root now f sr" using assms(1) sr by (simp add: staffed_def)
  have t: "tail_of f' sr = tail_of f sr" using assms(3) by (simp add: tail_of_def revs_def)
  show "staffed_root now f' sr"
  proof (rule staffed_rootI; unfold t live_cong [OF assms(4)])
    fix uid assume a: "rtDeletedAt sr = None" "snapshotNames (rvSnapshot (tail_of f sr)) uid"
    show "member f' sr uid" by (rule assms(5) [OF sr a(1) staffed_rootD(1) [OF s a]]) (use a in blast)
  next
    fix x assume x: "rtDeletedAt sr = None" "live f x" "ovSchedule x = rtID sr" "NormalizeTimestamp now < ovTo x"
      "rvFrom (tail_of f sr) < ovTo x"
    show "member f' sr (ovUser x)" by (rule assms(5) [OF sr x(1) staffed_rootD(2) [OF s x]]) (use x in blast)
  qed (rule staffed_root_deleted [OF s])
qed

text \<open>A gentle change of the people keeps every member.\<close>

lemma gentle_member:
  assumes "one_row_each (fPeople f)" "gentle (fPeople f) p'" "member f sr uid"
  shows "member (f\<lparr>fPeople := p'\<rparr>) sr uid"
  using assms unfolding member_iff gentle_def members_gentle_def users_gentle_def by auto

lemma people_staffed:
  assumes "staffed now f" "one_row_each (fPeople f)" "gentle (fPeople f) p'"
  shows "staffed now (f\<lparr>fPeople := p'\<rparr>)"
  by (rule staffed_members [OF assms(1)]) (use gentle_member [OF assms(2,3)] in simp_all)

section \<open>Overrides\<close>

lemma member_frame [simp]: "member (f\<lparr>fOverrides := os\<rparr>) sr uid = member f sr uid"
  by (simp add: member_def)

lemma tail_frame [simp]: "tail_of (f\<lparr>fOverrides := os\<rparr>) sr = tail_of f sr"
  by (simp add: tail_of_def revs_def)

lemma may_cover_member:
  assumes "chronicle f" "may_cover f (rtID sr) uid" "sr \<in> set (fRoots f)"
  shows "rtDeletedAt sr = None" "member f sr uid"
proof -
  obtain sr' where r: "sr' \<in> set (fRoots f)" "rtID sr' = rtID sr" "rtDeletedAt sr' = None"
    "uid \<in> set (GetTeamMemberIDs (rtTeam sr') (fPeople f))"
    using assms(2) unfolding may_cover_def by blast
  have "sr' = sr" using assms(1,3) r(1,2) unfolding chronicle_def distinct_map by (blast dest: inj_onD)
  with r show "rtDeletedAt sr = None" "member f sr uid" by (simp_all add: member_def)
qed

lemma step_live:
  assumes "override_step t f g" "roster f" "live g x"
  shows "live f x \<or> may_cover f (ovSchedule x) (ovUser x) \<or> (\<exists>h. live f h \<and> ovSchedule h = ovSchedule x \<and> ovTo x = t \<and> t < ovTo h)"
proof -
  have f: "tidy f" using assms(2) by (simp add: roster_def)
  from assms(1) show ?thesis
  proof cases
    case (assign r)
    then show ?thesis using new_live [OF assign(2), of x] assms(3) by auto
  next
    case (call_off h r)
    then show ?thesis using next_live [OF f call_off(2), of x] assms(3) by auto
  next
    case (shorten h r)
    then show ?thesis using next_live [OF f shorten(2), of x] succeeds_headD(4) [OF shorten(2)] assms(3) by auto
  next
    case (exchange h r)
    then show ?thesis using next_live [OF f exchange(2), of x] assms(3) by auto
  qed
qed

lemma step_staffed:
  assumes "override_step (NormalizeTimestamp now) f g" "roster f" "chronicle f" "staffed now f"
  shows "staffed now g"
proof -
  obtain os where g: "g = f\<lparr>fOverrides := os\<rparr>" using step_frame [OF assms(1)] by blast
  have srs: "fRoots g = fRoots f" by (simp add: g)
  have tail: "tail_of g sr = tail_of f sr" "member g sr uid = member f sr uid" for sr uid by (simp_all add: g)
  show ?thesis unfolding staffed_def srs
  proof
    fix sr assume sr: "sr \<in> set (fRoots f)"
    have s: "staffed_root now f sr" using assms(4) sr by (simp add: staffed_def)
    show "staffed_root now g sr"
    proof (rule staffed_rootI; unfold tail)
      fix uid assume "rtDeletedAt sr = None" "snapshotNames (rvSnapshot (tail_of f sr)) uid"
      then show "member f sr uid" by (rule staffed_rootD(1) [OF s])
    next
      fix x assume x: "rtDeletedAt sr = None" "live g x" "ovSchedule x = rtID sr" "NormalizeTimestamp now < ovTo x"
        "rvFrom (tail_of f sr) < ovTo x"
      from step_live [OF assms(1,2) x(2)] consider "live f x" | "may_cover f (rtID sr) (ovUser x)"
        using x(3,4) by auto
      then show "member f sr (ovUser x)"
        using staffed_rootD(2) [OF s x(1) _ x(3-5)] may_cover_member(2) [OF assms(3) _ sr] by cases
    next
      fix x assume x: "rtDeletedAt sr \<noteq> None" "live g x" "ovSchedule x = rtID sr"
      from step_live [OF assms(1,2) x(2)] consider "live f x" | "may_cover f (rtID sr) (ovUser x)"
        | h where "live f h" "ovSchedule h = rtID sr" "ovTo x < ovTo h" using x(3) by auto
      then show "ovTo x \<le> rvFrom (tail_of f sr)"
      proof cases
        case 1
        then show ?thesis by (rule staffed_root_deleted [OF s x(1) _ x(3)])
      next
        case 2
        from may_cover_member(1) [OF assms(3) 2 sr] x(1) show ?thesis by simp
      next
        case (3 h)
        then show ?thesis using staffed_root_deleted [OF s x(1) 3(1,2)] by simp
      qed
    qed
  qed
qed

lemma steps_staffed:
  assumes "override_steps (NormalizeTimestamp now) f g" "roster f" "chronicle f" "staffed now f"
  shows "staffed now g"
proof -
  have "roster g \<and> chronicle g \<and> staffed now g"
    using assms(1)
  proof (rule override_steps_invariant)
    fix x y assume s: "override_step (NormalizeTimestamp now) x y" and h: "roster x \<and> chronicle x \<and> staffed now x"
    obtain os where y: "y = x\<lparr>fOverrides := os\<rparr>" using step_frame [OF s] by blast
    have "chronicle y = chronicle x" by (rule chronicle_cong) (simp_all add: y)
    then show "roster y \<and> chronicle y \<and> staffed now y" using s h step_roster step_staffed by blast
  qed (use assms in blast)
  then show ?thesis by blast
qed


section \<open>Saving and deleting a schedule\<close>

lemma founds_sel [simp]:
  "fOverrides (founds f s r) = fOverrides f" "fPeople (founds f s r) = fPeople f" "fRoots (founds f s r) = fRoots f @ [s]"
  by (simp_all add: founds_def)

lemma extends_sel [simp]:
  "fOverrides (extends f s r d) = fOverrides f" "fPeople (extends f s r d) = fPeople f"
  "fRoots (extends f s r d) = map (\<lambda>x. if rtID x = rtID s then x\<lparr>rtVersion := rtVersion s + 1, rtDeletedAt := d\<rparr> else x) (fRoots f)"
  by (simp_all add: extends_def)

lemma extends_roots: "rtID ` set (fRoots (extends f s r d)) = rtID ` set (fRoots f)"
  unfolding extends_sel by (rule image_map_if') simp

lemma founds_roster: "roster f \<Longrightarrow> roster (founds f s r)"
  by (erule roster_cong) auto

lemma extends_roster: "roster f \<Longrightarrow> roster (extends f s r d)"
  by (erule roster_cong) (use extends_roots in auto)

lemma tail_extends: "extends_ok f s r d \<Longrightarrow> rtID x = rtID s \<Longrightarrow> tail_of (extends f s r d) x = r"
  using revs_extends(1) [of f s r d] by (simp add: tail_of_def)

lemma tail_extends_other: "extends_ok f s r d \<Longrightarrow> rtID x \<noteq> rtID s \<Longrightarrow> tail_of (extends f s r d) x = tail_of f x"
  using revs_extends(2) [of f s r d "rtID x"] by (simp add: tail_of_def)

lemma tail_founds: "founds_ok f s r \<Longrightarrow> chronicle f \<Longrightarrow> tail_of (founds f s r) s = r"
  using revs_founds(1) [of f s r] by (simp add: tail_of_def)

lemma tail_founds_other: "founds_ok f s r \<Longrightarrow> chronicle f \<Longrightarrow> rtID x \<noteq> rtID s \<Longrightarrow> tail_of (founds f s r) x = tail_of f x"
  using revs_founds(2) [of f s r "rtID x"] by (simp add: tail_of_def)

lemma staffed_root_cong:
  assumes "staffed_root now f sr" "tail_of f' sr = tail_of f sr" "fPeople f' = fPeople f"
    "\<And>x. ovSchedule x = rtID sr \<Longrightarrow> live f' x \<Longrightarrow> live f x"
  shows "staffed_root now f' sr"
proof -
  have m: "member f' sr uid = member f sr uid" for uid using assms(3) by (simp add: member_def)
  show ?thesis
  proof (rule staffed_rootI; unfold assms(2) m)
    show "\<And>uid. rtDeletedAt sr = None \<Longrightarrow> snapshotNames (rvSnapshot (tail_of f sr)) uid \<Longrightarrow> member f sr uid"
      by (rule staffed_rootD(1) [OF assms(1)])
    show "\<And>x. rtDeletedAt sr = None \<Longrightarrow> live f' x \<Longrightarrow> ovSchedule x = rtID sr \<Longrightarrow> NormalizeTimestamp now < ovTo x \<Longrightarrow>
       rvFrom (tail_of f sr) < ovTo x \<Longrightarrow> member f sr (ovUser x)"
      using staffed_rootD(2) [OF assms(1)] assms(4) by blast
    show "\<And>x. rtDeletedAt sr \<noteq> None \<Longrightarrow> live f' x \<Longrightarrow> ovSchedule x = rtID sr \<Longrightarrow> ovTo x \<le> rvFrom (tail_of f sr)"
      using staffed_root_deleted [OF assms(1)] assms(4) by blast
  qed
qed

lemma founds_staffed:
  assumes "staffed now f" "roster f" "chronicle f" "founds_ok f s r"
    "\<And>uid. snapshotNames (rvSnapshot r) uid \<Longrightarrow> uid \<in> set (GetTeamMemberIDs (rtTeam s) (fPeople f))"
  shows "staffed now (founds f s r)"
  unfolding staffed_def founds_sel
proof
  fix x assume "x \<in> set (fRoots f @ [s])"
  then consider "x = s" | "x \<in> set (fRoots f)" by auto
  then show "staffed_root now (founds f s r) x"
  proof cases
    case 1
    have "rtID s \<notin> rtID ` set (fRoots f)" using assms(4) unfolding founds_ok_def by blast
    then have no: "\<not> (live (founds f s r) y \<and> ovSchedule y = rtID s)" for y
    proof (intro notI, elim conjE)
      assume n: "rtID s \<notin> rtID ` set (fRoots f)" and y: "live (founds f s r) y" "ovSchedule y = rtID s"
      have "live f y" using y(1) live_cong [of "founds f s r" f y] by simp
      then have "y \<in> set (fOverrides f)" by (rule live_set)
      then have "tidy_row f y" using tidyD(1) assms(2) unfolding roster_def by blast
      then have "ovSchedule y \<in> rtID ` set (fRoots f)" unfolding tidy_row_def by blast
      with n y(2) show False by simp
    qed
    have tl: "tail_of (founds f s r) s = r" by (rule tail_founds [OF assms(4,3)])
    show ?thesis unfolding 1
    proof (rule staffed_rootI)
      fix uid assume "snapshotNames (rvSnapshot (tail_of (founds f s r) s)) uid"
      then show "member (founds f s r) s uid" unfolding tl member_def founds_sel by (rule assms(5))
    next
      fix x assume x: "live (founds f s r) x" "ovSchedule x = rtID s"
      show "member (founds f s r) s (ovUser x)" using no [of x] x by simp
    next
      fix x assume x: "live (founds f s r) x" "ovSchedule x = rtID s"
      show "ovTo x \<le> rvFrom (tail_of (founds f s r) s)" using no [of x] x by simp
    qed
  next
    case 2
    have "rtID s \<notin> rtID ` set (fRoots f)" using assms(4) by (simp add: founds_ok_def)
    then have ne: "rtID x \<noteq> rtID s" using imageI [OF 2, of rtID] by metis
    show ?thesis
    proof (rule staffed_root_cong)
      show "staffed_root now f x" using 2 assms(1) unfolding staffed_def by blast
      show "live f y" if "live (founds f s r) y" for y using that live_cong [of "founds f s r" f y] by simp
    qed (use tail_founds_other [OF assms(4,3) ne] in simp_all)
  qed
qed

lemma extends_root_cases:
  assumes "chronicle f" "s \<in> set (fRoots f)" "x \<in> set (fRoots (extends f s r d))"
  obtains "x = s\<lparr>rtVersion := rtVersion s + 1, rtDeletedAt := d\<rparr>" | "x \<in> set (fRoots f)" "rtID x \<noteq> rtID s"
proof -
  obtain y where y: "y \<in> set (fRoots f)"
    "x = (if rtID y = rtID s then y\<lparr>rtVersion := rtVersion s + 1, rtDeletedAt := d\<rparr> else y)"
    using assms(3) by auto
  have "rtID y = rtID s \<Longrightarrow> y = s"
    using assms(1,2) y(1) unfolding chronicle_def distinct_map by (blast dest: inj_onD)
  with y that show thesis by (cases "rtID y = rtID s") auto
qed

lemma extends_staffed:
  assumes "staffed now f" "chronicle f" "extends_ok f s r None"
    "\<And>uid. snapshotNames (rvSnapshot r) uid \<Longrightarrow> uid \<in> set (GetTeamMemberIDs (rtTeam s) (fPeople f))"
  shows "staffed now (extends f s r None)"
  unfolding staffed_def
proof
  let ?f = "extends f s r None"
  have s: "s \<in> set (fRoots f)" "rvFrom (tail_of f s) < rvFrom r"
    using assms(3) unfolding extends_ok_def tail_of_def by blast+
  have old: "staffed_root now f s" using assms(1) s(1) by (simp add: staffed_def)
  have lv: "live ?f y = live f y" for y by (rule live_cong) simp
  fix x assume "x \<in> set (fRoots ?f)"
  then show "staffed_root now ?f x"
  proof (rule extends_root_cases [OF assms(2) s(1)])
    assume x: "x = s\<lparr>rtVersion := rtVersion s + 1, rtDeletedAt := None\<rparr>"
    have m: "member ?f x uid = member f s uid" for uid by (simp add: member_def x)
    have t: "tail_of ?f x = r" by (rule tail_extends [OF assms(3)]) (simp add: x)
    show ?thesis
    proof (rule staffed_rootI; unfold m t lv)
      fix y assume y: "live f y" "ovSchedule y = rtID x" "NormalizeTimestamp now < ovTo y" "rvFrom r < ovTo y"
      then have y': "ovSchedule y = rtID s" "rvFrom (tail_of f s) < ovTo y" using s(2) by (simp_all add: x)
      have "rtDeletedAt s = None"
      proof (rule ccontr)
        assume "rtDeletedAt s \<noteq> None"
        from staffed_root_deleted [OF old this y(1) y'(1)] y'(2) show False by simp
      qed
      then show "member f s (ovUser y)" by (rule staffed_rootD(2) [OF old _ y(1) y'(1) y(3) y'(2)])
    qed (use assms(4) x in \<open>simp_all add: member_def\<close>)
  next
    assume x: "x \<in> set (fRoots f)" "rtID x \<noteq> rtID s"
    show ?thesis
    proof (rule staffed_root_cong)
      show "staffed_root now f x" using x(1) assms(1) unfolding staffed_def by blast
      show "tail_of ?f x = tail_of f x" by (rule tail_extends_other [OF assms(3) x(2)])
      show "live f y" if "live ?f y" for y using that lv by blast
    qed simp
  qed
qed

lemma Save_staffed:
  assumes "staffed now f" "roster f" "chronicle f" "Save ck tid cmd f = Inr (res, g)"
  shows "staffed now g \<and> roster g"
  using assms(4)
proof (rule Save_Inr [OF assms(3)])
  assume "g = f"
  then show ?thesis using assms(1,2) by simp
next
  fix s r desired
  assume ok: "founds_ok f s r" "rtTeam s = tid" and g: "g = founds f s r"
    and p: "planned_for ck None desired (rvFrom r) (rvSnapshot r)" and v: "ValidateMembership tid (ConfigurationUserIDs desired) f = Inr ()"
  have "staffed now (founds f s r)" by (rule founds_staffed [OF assms(1-3) ok(1)])
    (use planned_names [OF p] ValidateMembership_Inr [OF v] ok(2) in blast)
  then show ?thesis unfolding g using founds_roster [OF assms(2)] by simp
next
  fix s r desired
  assume ok: "extends_ok f s r None" "rtTeam s = tid" and g: "g = extends f s r None"
    and p: "planned_for ck (if rtDeletedAt s = None then Some (rvSnapshot (last (revs (rtID s) f))) else None)
         desired (rvFrom r) (rvSnapshot r)"
    and v: "ValidateMembership tid (ConfigurationUserIDs desired) f = Inr ()"
  have "staffed now (extends f s r None)" by (rule extends_staffed [OF assms(1,3) ok(1)])
    (use planned_names [OF p] ValidateMembership_Inr [OF v] ok(2) in blast)
  then show ?thesis unfolding g using extends_roster [OF assms(2)] by simp
qed

lemma Delete_staffed:
  assumes "staffed now f" "roster f" "chronicle f" "DeleteSchedule ck tid cmd f = Inr g"
  shows "staffed now g \<and> roster g \<and> (\<exists>e f0 g0. NormalizeTimestamp (ckNow ck) \<le> e \<and> fOverrides f0 = fOverrides f \<and>
      roster f0 \<and> override_steps e f0 g0 \<and> fOverrides g0 = fOverrides g)"
proof (rule DeleteSchedule_Inr [OF assms(3,4)])
  fix s r f0
  assume s: "s \<in> set (fRoots f)" and ok: "extends_ok f s r (Some (rvFrom r))" and late: "NormalizeTimestamp (ckNow ck) \<le> rvFrom r"
    and g: "g = (extends f s r (Some (rvFrom r)))\<lparr>fOverrides := fOverrides g\<rparr>"
    and f0: "fRoots f0 = fRoots f" "fOverrides f0 = fOverrides f"
    and e: "endLiveOverrides ck (rtID s) (rvFrom r) (dcActor cmd) (dcReason cmd) f0 = Inr (f0\<lparr>fOverrides := fOverrides g\<rparr>)"
  let ?x = "extends f s r (Some (rvFrom r))" and ?g0 = "f0\<lparr>fOverrides := fOverrides g\<rparr>"
  have r0: "roster f0" by (rule roster_cong [OF assms(2) f0(2)]) (simp add: f0(1))
  have al: "aligned (rvFrom r)" using ok unfolding extends_ok_def by blast
  have ti: "tidy f0" using r0 by (simp add: roster_def)
  note st = endLiveOverrides_steps [OF ti al e]
  have rg: "roster ?g0" by (rule steps_roster [OF st(1) r0])
  have roots: "rtID ` set (fRoots g) = rtID ` set (fRoots f)" by (subst g) (simp add: extends_roots del: extends_sel(3))
  have ro: "roster g" by (rule roster_cong [OF rg]) (simp_all add: f0(1) roots)
  have lv: "live g x \<Longrightarrow> ovSchedule x = rtID s \<Longrightarrow> ovTo x \<le> rvFrom r" "live g x \<Longrightarrow> ovSchedule x \<noteq> rtID s \<Longrightarrow> live f x" for x
    using st(2,3) [of x] live_cong [of g ?g0 x] live_cong [OF f0(2), of x] by simp_all
  have ppl: "fPeople g = fPeople f" by (subst g) simp
  have rt: "fRoots g = fRoots ?x" by (subst g) simp
  have tl: "tail_of g x = tail_of ?x x" for x by (subst g) simp
  have "staffed now g" unfolding staffed_def rt
  proof
    fix x assume "x \<in> set (fRoots ?x)"
    then show "staffed_root now g x"
    proof (rule extends_root_cases [OF assms(3) s])
      assume x: "x = s\<lparr>rtVersion := rtVersion s + 1, rtDeletedAt := Some (rvFrom r)\<rparr>"
      have "tail_of g x = r" unfolding tl by (rule tail_extends [OF ok]) (simp add: x)
      then show ?thesis using lv(1) by (simp add: staffed_root_def x)
    next
      assume x: "x \<in> set (fRoots f)" "rtID x \<noteq> rtID s"
      show ?thesis
      proof (rule staffed_root_cong)
        show "staffed_root now f x" using x(1) assms(1) unfolding staffed_def by blast
        show "tail_of g x = tail_of f x" unfolding tl by (rule tail_extends_other [OF ok x(2)])
        show "live f y" if "ovSchedule y = rtID x" "live g y" for y using that lv(2) [of y] x(2) by simp
      qed (rule ppl)
    qed
  qed
  moreover have "fOverrides ?g0 = fOverrides g" by simp
  ultimately show ?thesis using ro late f0(2) r0 st(1) by blast
qed

end
