(* ===== verification/Leaving.thy ===== *)
theory Leaving
  imports Staffed
begin

text \<open>
  The two ways to leave: removal from a team, and erasure.  Neither takes anyone who is on
  call, and erasure rewrites no fact of the history, only the free text and the person.
\<close>

section \<open>Removal from a team\<close>

lemma names_head:
  assumes "live f x" "ovSchedule x = sid"
  shows "x \<in> set (ListOverrideHeads sid False f)"
  using assms unfolding live_head ListOverrideHeads_def by_start_def by auto

lemma RemoveMember_Inr:
  assumes "chronicle f" "RemoveMember ck tid uid f = Inr g"
  shows "g = DeleteTeamMembership tid uid f"
    "s \<in> set (fRoots f) \<Longrightarrow> rtTeam s = tid \<Longrightarrow> rtDeletedAt s = None \<Longrightarrow>
       \<not> snapshotNames (rvSnapshot (tail_of f s)) uid"
    "s \<in> set (fRoots f) \<Longrightarrow> rtTeam s = tid \<Longrightarrow> rtDeletedAt s = None \<Longrightarrow> live f x \<Longrightarrow> ovSchedule x = rtID s \<Longrightarrow>
       NormalizeTimestamp (ckNow ck) < ovTo x \<Longrightarrow> ovUser x \<noteq> uid"
proof -
  show "g = DeleteTeamMembership tid uid f"
    using assms(2) by (auto simp: RemoveMember_def split: if_splits sum.splits)
next
  assume s: "s \<in> set (fRoots f)" "rtTeam s = tid" "rtDeletedAt s = None"
  have find: "GetScheduleRootByTeam tid f = Inr s" "GetScheduleRoot (rtID s) f = Inr s"
    using GetScheduleRoot_found [OF assms(1) s(1)] s(2) by simp_all
  have tail: "GetTailRevision (rtID s) f = Inr (tail_of f s)"
    unfolding tail_of_def by (rule GetTailRevision_last [OF assms(1) s(1)])
  have ch: "chain f s" using assms(1) s(1) by (simp add: chronicle_def)
  then have "last (revs (rtID s) f) \<in> set (revs (rtID s) f)"
    using linked_not_Nil by (auto simp: chain_def Let_def)
  with ch have k: "rvKind (tail_of f s) = RevisionActive"
    unfolding chain_def Let_def tail_of_def s(3) by auto
  have "holdsAssignment ck (rtID s) uid f = Inr False"
    using assms(2) find s(3) by (auto simp: RemoveMember_def split: if_splits elim!: then_ok_InrE)
  then have b: "\<not> snapshotNames (rvSnapshot (tail_of f s)) uid"
    "\<not> list_ex (\<lambda>h. ovUser h = uid \<and> NormalizeTimestamp (ckNow ck) < ovTo h) (ListOverrideHeads (rtID s) False f)"
    by (simp_all add: holdsAssignment_def tail k Let_def split: if_split_asm)
  show "\<not> snapshotNames (rvSnapshot (tail_of f s)) uid" by (rule b(1))
  show "ovUser x \<noteq> uid" if "live f x" "ovSchedule x = rtID s" "NormalizeTimestamp (ckNow ck) < ovTo x"
    using b(2) names_head [OF that(1,2)] that(3) unfolding list_ex_iff by blast
qed

lemma member_leaves:
  assumes "member f s u" "rtTeam s \<noteq> tid \<or> u \<noteq> uid"
  shows "member (DeleteTeamMembership tid uid f) s u"
  using assms unfolding member_iff DeleteTeamMembership_def
  by (auto simp: activeUser_def)

lemma RemoveMember_staffed:
  assumes "staffed (ckNow ck) f" "chronicle f" "RemoveMember ck tid uid f = Inr g"
  shows "staffed (ckNow ck) g"
proof -
  note r = RemoveMember_Inr [OF assms(2,3)]
  show ?thesis unfolding r(1)
  proof (rule staffed_members [OF assms(1)])
    fix s u assume s: "s \<in> set (fRoots f)" "rtDeletedAt s = None" "member f s u"
      and w: "snapshotNames (rvSnapshot (tail_of f s)) u \<or> (\<exists>x. live f x \<and> ovSchedule x = rtID s \<and>
        NormalizeTimestamp (ckNow ck) < ovTo x \<and> ovUser x = u)"
    show "member (DeleteTeamMembership tid uid f) s u"
    proof (rule member_leaves [OF s(3)], rule ccontr)
      assume "\<not> (rtTeam s \<noteq> tid \<or> u \<noteq> uid)"
      then have e: "rtTeam s = tid" "u = uid" by simp_all
      from w show False
      proof
        assume "snapshotNames (rvSnapshot (tail_of f s)) u"
        then show False using r(2) [OF s(1) e(1) s(2)] e(2) by simp
      next
        assume "\<exists>x. live f x \<and> ovSchedule x = rtID s \<and> NormalizeTimestamp (ckNow ck) < ovTo x \<and> ovUser x = u"
        then obtain x where "live f x" "ovSchedule x = rtID s" "NormalizeTimestamp (ckNow ck) < ovTo x" "ovUser x = u" by blast
        then show False using r(3) [OF s(1) e(1) s(2), of x] e(2) by simp
      qed
    qed
  qed (simp_all add: DeleteTeamMembership_def)
qed

lemma DeleteTeam_Inr:
  assumes "chronicle f" "DeleteTeam tid f = Inr g"
  shows "DeleteTeamRow tid f = Inr g" "s \<in> set (fRoots f) \<Longrightarrow> rtTeam s \<noteq> tid"
proof -
  have "\<And>x. GetScheduleRootByTeam tid f \<noteq> Inr x" and "DeleteTeamRow tid f = Inr g"
    using assms(2) by (auto simp: DeleteTeam_def split: if_splits sum.splits)
  then show "DeleteTeamRow tid f = Inr g" "s \<in> set (fRoots f) \<Longrightarrow> rtTeam s \<noteq> tid"
    using GetScheduleRoot_found(2) [OF assms(1), of s] by auto
qed

lemma DeleteTeam_staffed:
  assumes "staffed now f" "chronicle f" "DeleteTeam tid f = Inr g"
  shows "staffed now g"
proof -
  note d = DeleteTeam_Inr [OF assms(2,3)]
  have g: "g = f\<lparr>fPeople := (fPeople f)\<lparr>pMembers := filter (\<lambda>m. mTeam m \<noteq> tid) (pMembers (fPeople f)),
                   pTeams := filter (\<lambda>t. t \<noteq> tid) (pTeams (fPeople f))\<rparr>\<rparr>"
    using d(1) by (simp add: DeleteTeamRow_def split: if_splits)
  show ?thesis
  proof (rule staffed_members [OF assms(1)])
    fix s u assume s: "s \<in> set (fRoots f)" "member f s u"
    show "member g s u" using s(2) d(2) [OF s(1)] unfolding member_iff g by (auto simp: activeUser_def)
  qed (simp_all add: g)
qed

section \<open>Erasure\<close>

lemma guardAssignments_Inr:
  assumes "guardAssignments uid now f = Inr ()" "s \<in> set (fRoots f)" "rtDeletedAt s = None"
  shows "r \<in> set (fRevisions f) \<Longrightarrow> rvSchedule r = rtID s \<Longrightarrow> rvTo r = None \<Longrightarrow> rvKind r = RevisionActive \<Longrightarrow>
      \<not> snapshotNames (rvSnapshot r) uid"
    "x \<in> set (fOverrides f) \<Longrightarrow> is_last (fOverrides f) x \<Longrightarrow> \<not> ovDeleted x \<Longrightarrow> NormalizeTimestamp now < ovTo x \<Longrightarrow>
      ovSchedule x = rtID s \<Longrightarrow> ovUser x \<noteq> uid"
proof -
  have e: "blockedByRotation (ListScheduleTailsLocked f) uid = []" "ListLiveOverrideHeadsForUser uid now f = []"
    using assms(1) by (auto simp: guardAssignments_def Let_def split: if_splits)
  show "\<not> snapshotNames (rvSnapshot r) uid"
    if r: "r \<in> set (fRevisions f)" "rvSchedule r = rtID s" "rvTo r = None" "rvKind r = RevisionActive"
  proof -
    have "(rtID s, rtTeam s, rvSnapshot r) \<in> set (ListScheduleTailsLocked f)"
      using assms(2,3) r unfolding ListScheduleTailsLocked_def by force
    then show ?thesis using e(1) unfolding blockedByRotation_def by (auto simp: filter_empty_conv)
  qed
  show "ovUser x \<noteq> uid" if x: "x \<in> set (fOverrides f)" "is_last (fOverrides f) x" "\<not> ovDeleted x"
    "NormalizeTimestamp now < ovTo x" "ovSchedule x = rtID s"
  proof
    assume "ovUser x = uid"
    then have "(rtID s, rtTeam s) \<in> set (ListLiveOverrideHeadsForUser uid now f)"
      using assms(2,3) x unfolding ListLiveOverrideHeadsForUser_def by force
    with e(2) show False by simp
  qed
qed

lemma live_is_last:
  assumes "tidy f" "live f x"
  shows "is_last (fOverrides f) x"
  unfolding is_last_def list_all_iff
  using head_le_tidy [OF assms(1), of x] assms(2) unfolding live_def by blast

text \<open>Blanking text changes no key, no instant and no snapshot.\<close>

definition same_override :: "(override_revision \<Rightarrow> override_revision) \<Rightarrow> bool" where
  "same_override g \<longleftrightarrow> (\<forall>r. ovOverrideID (g r) = ovOverrideID r \<and> ovSchedule (g r) = ovSchedule r \<and>
     ovRevision (g r) = ovRevision r \<and> ovLayer (g r) = ovLayer r \<and> ovUser (g r) = ovUser r \<and>
     ovFrom (g r) = ovFrom r \<and> ovTo (g r) = ovTo r \<and> ovDeleted (g r) = ovDeleted r)"

lemma same_overrideD:
  assumes "same_override g"
  shows "ovOverrideID (g r) = ovOverrideID r" "ovSchedule (g r) = ovSchedule r" "ovRevision (g r) = ovRevision r"
    "ovLayer (g r) = ovLayer r" "ovUser (g r) = ovUser r" "ovFrom (g r) = ovFrom r" "ovTo (g r) = ovTo r"
    "ovDeleted (g r) = ovDeleted r"
  using assms unfolding same_override_def by blast+

lemma is_head_map: "same_override g \<Longrightarrow> is_head sid (map g rows) (g r) = is_head sid rows r"
  by (simp add: is_head_def list.pred_map same_overrideD o_def)

lemma live_map:
  assumes "same_override g" "fOverrides f' = map g (fOverrides f)"
  shows "live f' y \<longleftrightarrow> (\<exists>x. live f x \<and> y = g x)"
proof -
  have "live f' y \<longleftrightarrow> (\<exists>x \<in> set (fOverrides f). y = g x \<and> is_head (ovSchedule x) (fOverrides f) x \<and> \<not> ovDeleted x)"
    unfolding live_head assms(2) by (auto simp: is_head_map [OF assms(1)] same_overrideD [OF assms(1)])
  then show ?thesis unfolding live_head by blast
qed

lemma roster_map:
  assumes "roster f" "same_override g" "fOverrides f' = map g (fOverrides f)" "fRoots f' = fRoots f"
  shows "roster f'"
proof -
  have t: "tidy f" and d: "disjoint_heads f" using assms(1) by (simp_all add: roster_def)
  have inj: "inj_on g (set (fOverrides f))"
  proof (rule inj_onI)
    fix x y assume m: "x \<in> set (fOverrides f)" "y \<in> set (fOverrides f)" and e: "g x = g y"
    have "ovOverrideID x = ovOverrideID y" "ovRevision x = ovRevision y"
      using same_overrideD(1,3) [OF assms(2)] e by metis+
    then show "x = y" by (rule tidyD(4) [OF t m])
  qed
  have "tidy f'" unfolding tidy_def assms(3)
  proof (intro conjI)
    have "distinct (fOverrides f)" using t unfolding tidy_def by blast
    then show "distinct (map g (fOverrides f))" using inj by (simp add: distinct_map)
    show "\<forall>r\<in>set (map g (fOverrides f)). tidy_row f' r"
      using tidyD(1) [OF t] by (auto simp: tidy_row_def same_overrideD [OF assms(2)] assms(4))
    show "\<forall>r\<in>set (map g (fOverrides f)). \<forall>r'\<in>set (map g (fOverrides f)). ovOverrideID r = ovOverrideID r' \<longrightarrow>
        ovSchedule r = ovSchedule r' \<and> ovLayer r = ovLayer r' \<and> (ovRevision r = ovRevision r' \<longrightarrow> r = r')"
    proof (unfold set_map, intro ballI impI, elim imageE)
      fix r r' x y assume m: "x \<in> set (fOverrides f)" "y \<in> set (fOverrides f)" "r = g x" "r' = g y"
        and "ovOverrideID r = ovOverrideID r'"
      then have e: "ovOverrideID x = ovOverrideID y" using same_overrideD(1) [OF assms(2)] by metis
      have "ovSchedule x = ovSchedule y" "ovLayer x = ovLayer y" "ovRevision x = ovRevision y \<Longrightarrow> x = y"
        using tidyD(2,3,4) [OF t m(1,2) e] by blast+
      then show "ovSchedule r = ovSchedule r' \<and> ovLayer r = ovLayer r' \<and> (ovRevision r = ovRevision r' \<longrightarrow> r = r')"
        using m(3,4) same_overrideD(2,3,4) [OF assms(2)] by metis
    qed
    show "\<forall>r\<in>set (map g (fOverrides f)). \<exists>r'\<in>set (map g (fOverrides f)). ovOverrideID r' = ovOverrideID r \<and> ovRevision r' = 1"
      using tidyD(5) [OF t] by (simp add: same_overrideD [OF assms(2)])
  qed
  moreover have "disjoint_heads f'" unfolding disjoint_heads_def live_map [OF assms(2,3)]
  proof (intro allI impI, elim exE conjE)
    fix r r' x y assume l: "live f x" "r = g x" "live f y" "r' = g y" and s: "ovSchedule r = ovSchedule r'" "ovLayer r = ovLayer r'" "r \<noteq> r'"
    have "x \<noteq> y" using s(3) l(2,4) by blast
    moreover have "ovSchedule x = ovSchedule y" "ovLayer x = ovLayer y" using s(1,2) by (simp_all add: l(2,4) same_overrideD [OF assms(2)])
    ultimately have "apart x y" using disjoint_headsD [OF d l(1,3)] by blast
    then show "apart r r'" by (simp add: apart_def l(2,4) same_overrideD [OF assms(2)])
  qed
  ultimately show ?thesis by (simp add: roster_def)
qed

lemma covered_by_map:
  assumes "same_override g" "fOverrides f' = map g (fOverrides f)"
  shows "covered_by sid layer t uid f' = covered_by sid layer t uid f"
  unfolding covered_by_def assms(2) by (simp add: list_ex_iff is_head_map [OF assms(1)] same_overrideD [OF assms(1)])

definition same_revision :: "(schedule_revision \<Rightarrow> schedule_revision) \<Rightarrow> bool" where
  "same_revision g \<longleftrightarrow> (\<forall>r. rvID (g r) = rvID r \<and> rvSchedule (g r) = rvSchedule r \<and> rvVersion (g r) = rvVersion r \<and>
     rvKind (g r) = rvKind r \<and> rvSnapshot (g r) = rvSnapshot r \<and> rvFrom (g r) = rvFrom r \<and> rvTo (g r) = rvTo r)"

lemma same_revisionD:
  assumes "same_revision g"
  shows "rvID (g r) = rvID r" "rvSchedule (g r) = rvSchedule r" "rvVersion (g r) = rvVersion r" "rvKind (g r) = rvKind r"
    "rvSnapshot (g r) = rvSnapshot r" "rvFrom (g r) = rvFrom r" "rvTo (g r) = rvTo r"
  using assms unfolding same_revision_def by blast+

lemma linked_map: "same_revision g \<Longrightarrow> linked (map g rs) = linked rs"
  by (induction rs rule: linked.induct) (simp_all add: same_revisionD)

lemma revs_map: "same_revision g \<Longrightarrow> fRevisions f' = map g (fRevisions f) \<Longrightarrow> revs sid f' = map g (revs sid f)"
  by (simp add: revs_def filter_map o_def same_revisionD)

lemma chain_ne: "chain f s \<Longrightarrow> revs (rtID s) f \<noteq> []"
  using linked_not_Nil by (auto simp: chain_def Let_def)

lemma tail_map:
  assumes "same_revision g" "fRevisions f' = map g (fRevisions f)" "chain f s"
  shows "tail_of f' s = g (tail_of f s)"
  unfolding tail_of_def revs_map [OF assms(1,2)] using chain_ne [OF assms(3)] by (rule last_map)

lemma chain_map:
  assumes "same_revision g" "fRevisions f' = map g (fRevisions f)" "chain f s"
  shows "chain f' s"
proof -
  have ne: "revs (rtID s) f \<noteq> []" by (rule chain_ne [OF assms(3)])
  have "map rvVersion (map g (revs (rtID s) f)) = map rvVersion (revs (rtID s) f)"
    by (simp add: same_revisionD [OF assms(1)])
  moreover have "rvFrom (hd (map g (revs (rtID s) f))) = rvFrom (hd (revs (rtID s) f))"
    using ne by (simp add: hd_map same_revisionD [OF assms(1)])
  moreover have "rvKind (last (map g (revs (rtID s) f))) = rvKind (last (revs (rtID s) f))"
    using ne by (simp add: last_map same_revisionD [OF assms(1)])
  ultimately show ?thesis using assms(3) unfolding chain_def Let_def revs_map [OF assms(1,2)] linked_map [OF assms(1)]
    by (simp add: same_revisionD [OF assms(1)])
qed

lemma chronicle_map:
  assumes "chronicle f" "same_revision g" "fRevisions f' = map g (fRevisions f)" "fRoots f' = fRoots f"
  shows "chronicle f'"
proof -
  have "rvID \<circ> g = rvID" by (simp add: fun_eq_iff same_revisionD [OF assms(2)])
  then show ?thesis using assms(1) chain_map [OF assms(2,3)]
    unfolding chronicle_def assms(3,4) by (simp add: same_revisionD [OF assms(2)])
qed

lemma in_force_at_map:
  assumes "same_revision g" "fRevisions f' = map g (fRevisions f)"
  shows "in_force_at sid t f' = in_force_at sid t f"
proof -
  have "in_force u (g r) = in_force u r" for u r by (simp add: in_force_def same_revisionD [OF assms(1)])
  then have "filter (in_force u) (revs sid f') = map g (filter (in_force u) (revs sid f))" for u
    unfolding revs_map [OF assms] filter_map o_def by simp
  then show ?thesis unfolding in_force_at_def GetEffectiveRevision_revs
    by (cases "filter (in_force (NormalizeTimestamp t)) (revs sid f)" rule: linked.cases) (simp_all add: same_revisionD [OF assms(1)])
qed

text \<open>The wiping, as a change of the people followed by a blanking of text.\<close>

lemma wipe_office_sel:
  "fPeople (wipe_office uid now f) = wipe_people uid now (fPeople f)" "fRoots (wipe_office uid now f) = fRoots f"
  "fRevisions (wipe_office uid now f) = map (\<lambda>r. if rvReason r \<noteq> None \<and> rvCreatedBy r = Some uid then r\<lparr>rvReason := None\<rparr> else r) (fRevisions f)"
  "fOverrides (wipe_office uid now f) = map (\<lambda>r. if ovReason r \<noteq> None \<and> (ovUser r = uid \<or> ovRecordedBy r = Some uid)
     then r\<lparr>ovReason := None\<rparr> else r) (fOverrides f)"
  by (simp_all add: wipe_office_def NullifyScheduleRevisionChangeReasons_def NullifyOverrideRevisionReasons_def)

lemma blank_same:
  "same_override (\<lambda>r. if ovReason r \<noteq> None \<and> (ovUser r = uid \<or> ovRecordedBy r = Some uid) then r\<lparr>ovReason := None\<rparr> else r)"
  "same_revision (\<lambda>r. if rvReason r \<noteq> None \<and> rvCreatedBy r = Some uid then r\<lparr>rvReason := None\<rparr> else r)"
  by (simp_all add: same_override_def same_revision_def)

lemma wipe_keeps:
  "roster f \<Longrightarrow> roster (wipe_office uid now f)"
  "chronicle f \<Longrightarrow> chronicle (wipe_office uid now f)"
  "in_force_at sid t (wipe_office uid now f) = in_force_at sid t f"
  "covered_by sid layer t u (wipe_office uid now f) = covered_by sid layer t u f"
  by (rule roster_map [OF _ blank_same(1) wipe_office_sel(4,2)] chronicle_map [OF _ blank_same(2) wipe_office_sel(3,2)]
    in_force_at_map [OF blank_same(2) wipe_office_sel(3)] covered_by_map [OF blank_same(1) wipe_office_sel(4)], assumption?)+

lemma wipe_people_sel:
  "pMembers (wipe_people uid now p) = filter (\<lambda>m. mUser m \<noteq> uid) (pMembers p)"
  "pTeams (wipe_people uid now p) = pTeams p"
  "pUsers (wipe_people uid now p) = map (\<lambda>u. if uID u = uid then u\<lparr>uDeletedAt := Some (NormalizeTimestamp now),
     uName := AnonymizedUserName, uEmail := None, uPasswordHash := None, uAuthProvider := None\<rparr> else u) (pUsers p)"
  "pTokens (wipe_people uid now p) = filter (\<lambda>t. kUser t \<noteq> uid) (pTokens p)"
  "pIdentities (wipe_people uid now p) = filter (\<lambda>x. xUser x \<noteq> uid) (pIdentities p)"
  "pLinks (wipe_people uid now p) = filter (\<lambda>l. lUser l \<noteq> uid) (pLinks p)"
  "pContacts (wipe_people uid now p) = filter (\<lambda>c. nUser c \<noteq> uid) (pContacts p)"
  "pChecks (wipe_people uid now p) = filter (\<lambda>d. dUser d \<noteq> uid) (pChecks p)"
  by (simp_all add: wipe_people_def DeleteUserTeamMemberships_def DeleteUserPhoneData_def DeleteUserLinkTokens_def
    DeleteUserExternalIdentities_def DeleteUserAPITokens_def AnonymizeUser_def SetUserDeletedAt_def)

lemma active_wiped: "activeUser u (wipe_people uid now p) \<longleftrightarrow> u \<noteq> uid \<and> activeUser u p"
  by (auto simp: activeUser_def list_ex_iff wipe_people_sel(3) is_active_def)

lemma wipe_staffed:
  assumes "staffed now f" "roster f" "chronicle f" "guardAssignments uid now f = Inr ()"
  shows "staffed now (wipe_office uid now f)"
proof -
  let ?p = "f\<lparr>fPeople := wipe_people uid now (fPeople f)\<rparr>" and ?w = "wipe_office uid now f"
  have ti: "tidy f" using assms(2) by (simp add: roster_def)
  have p: "staffed now ?p"
  proof (rule staffed_members [OF assms(1)])
    fix s u assume s: "s \<in> set (fRoots f)" "rtDeletedAt s = None" "member f s u"
      and w: "snapshotNames (rvSnapshot (tail_of f s)) u \<or> (\<exists>x. live f x \<and> ovSchedule x = rtID s \<and>
        NormalizeTimestamp now < ovTo x \<and> ovUser x = u)"
    note g = guardAssignments_Inr [OF assms(4) s(1,2)]
    have ch: "chain f s" using assms(3) s(1) by (simp add: chronicle_def)
    have lst: "tail_of f s \<in> set (revs (rtID s) f)" unfolding tail_of_def using chain_ne [OF ch] by simp
    have t: "tail_of f s \<in> set (fRevisions f)" "rvSchedule (tail_of f s) = rtID s" "rvTo (tail_of f s) = None"
      "rvKind (tail_of f s) = RevisionActive"
      using lst linked_last [of "revs (rtID s) f"] ch s(2) unfolding tail_of_def revs_def by (auto simp: chain_def Let_def revs_def)
    have "u \<noteq> uid"
    proof
      assume u: "u = uid"
      from w show False
      proof
        assume "snapshotNames (rvSnapshot (tail_of f s)) u"
        then show False using g(1) [OF t] u by simp
      next
        assume "\<exists>x. live f x \<and> ovSchedule x = rtID s \<and> NormalizeTimestamp now < ovTo x \<and> ovUser x = u"
        then obtain x where x: "live f x" "ovSchedule x = rtID s" "NormalizeTimestamp now < ovTo x" "ovUser x = u" by blast
        have "\<not> ovDeleted x" using x(1) by (simp add: live_def)
        from g(2) [OF live_set [OF x(1)] live_is_last [OF ti x(1)] this x(3,2)] x(4) u show False by simp
      qed
    qed
    with s(3) show "member ?p s u" unfolding member_iff by (auto simp: active_wiped wipe_people_sel)
  qed simp_all
  show ?thesis unfolding staffed_def wipe_office_sel(2)
  proof
    fix s assume s: "s \<in> set (fRoots f)"
    have ch: "chain f s" using assms(3) s by (simp add: chronicle_def)
    have old: "staffed_root now ?p s" using p s by (simp add: staffed_def)
    have t: "rvSnapshot (tail_of ?w s) = rvSnapshot (tail_of ?p s)" "rvFrom (tail_of ?w s) = rvFrom (tail_of ?p s)"
      using tail_map [OF blank_same(2) wipe_office_sel(3) ch] by (simp_all add: tail_of_def revs_def)
    have m: "member ?w s u = member ?p s u" for u by (simp add: member_def wipe_office_sel(1))
    have l: "\<exists>x. live ?p x \<and> ovSchedule x = ovSchedule y \<and> ovTo x = ovTo y \<and> ovUser x = ovUser y" if "live ?w y" for y
    proof -
      obtain x where "live f x" "y = (if ovReason x \<noteq> None \<and> (ovUser x = uid \<or> ovRecordedBy x = Some uid) then x\<lparr>ovReason := None\<rparr> else x)"
        using \<open>live ?w y\<close> unfolding live_map [OF blank_same(1) wipe_office_sel(4)] by blast
      moreover have "live ?p x = live f x" by (rule live_cong) simp
      ultimately show ?thesis by (intro exI [of _ x]) simp
    qed
    show "staffed_root now ?w s"
    proof (rule staffed_rootI; unfold t m)
      fix u assume "rtDeletedAt s = None" "snapshotNames (rvSnapshot (tail_of ?p s)) u"
      then show "member ?p s u" by (rule staffed_rootD(1) [OF old])
    next
      fix y assume y: "rtDeletedAt s = None" "live ?w y" "ovSchedule y = rtID s" "NormalizeTimestamp now < ovTo y" "rvFrom (tail_of ?p s) < ovTo y"
      obtain x where x: "live ?p x" "ovSchedule x = ovSchedule y" "ovTo x = ovTo y" "ovUser x = ovUser y" using l [OF y(2)] by blast
      have "member ?p s (ovUser x)" by (rule staffed_rootD(2) [OF old y(1) x(1)]) (use x(2,3) y(3-5) in simp_all)
      with x(4) show "member ?p s (ovUser y)" by simp
    next
      fix y assume y: "rtDeletedAt s \<noteq> None" "live ?w y" "ovSchedule y = rtID s"
      obtain x where x: "live ?p x" "ovSchedule x = ovSchedule y" "ovTo x = ovTo y" using l [OF y(2)] by blast
      have "ovTo x \<le> rvFrom (tail_of ?p s)" by (rule staffed_root_deleted [OF old y(1) x(1)]) (use x(2) y(3) in simp)
      with x(3) show "ovTo y \<le> rvFrom (tail_of ?p s)" by simp
    qed
  qed
qed

end
