(* ===== verification/Company.thy ===== *)
theory Company
  imports Leaving
begin

text \<open>
  The whole: people, schedules and deliveries side by side, moved by any command at any time.
  The invariants of the tables hold in every state that can be reached from an empty database,
  and what they say together: the system keeps an administrator, nobody on call has left, an
  erased person stays erased, and the past is not rewritten.
\<close>

section \<open>A contract for commands on people\<close>

locale tactful =
  fixes run :: "people \<Rightarrow> people"
  assumes run_gentle: "gentle p (run p)"
begin

lemma one_row: "one_row_each p \<Longrightarrow> one_row_each (run p)"
  using run_gentle [of p] unfolding gentle_def users_gentle_def by blast

lemma keeps_active: "one_row_each p \<Longrightarrow> activeUser uid p \<Longrightarrow> activeUser uid (run p)"
  using run_gentle [of p] unfolding gentle_def users_gentle_def by blast

lemma keeps_erased: "one_row_each p \<Longrightarrow> uDeletedAt u \<noteq> None \<Longrightarrow> u \<in> set (pUsers (run p)) \<longleftrightarrow> u \<in> set (pUsers p)"
  using run_gentle [of p] unfolding gentle_def users_gentle_def by blast

lemma keeps_admin: "one_row_each p \<Longrightarrow> has_admin p \<or> pUsers p = [] \<Longrightarrow> has_admin (run p) \<or> pUsers (run p) = []"
  using run_gentle [of p] unfolding gentle_def users_gentle_def by blast

lemma owners_active:
  assumes "one_row_each p" "\<forall>o' \<in> owners p. activeUser o' p" "o' \<in> owners (run p)"
  shows "activeUser o' (run p)"
  using run_gentle [of p] assms keeps_active unfolding gentle_def by blast

lemma keeps_member:
  assumes "one_row_each (fPeople f)" "member f s uid"
  shows "member (f\<lparr>fPeople := run (fPeople f)\<rparr>) s uid"
  by (rule gentle_member [OF assms(1) run_gentle assms(2)])

lemma keeps_staffed:
  assumes "one_row_each (fPeople f)" "staffed now f"
  shows "staffed now (f\<lparr>fPeople := run (fPeople f)\<rparr>)"
  by (rule people_staffed [OF assms(2,1) run_gentle])

end

interpretation directory: tactful "run_people h now fresh c"
  by unfold_locales (rule run_people_gentle)

section \<open>Moves\<close>

definition empty_office :: "office \<Rightarrow> bool" where
  "empty_office f \<longleftrightarrow> pUsers (fPeople f) = [] \<and> owners (fPeople f) = {} \<and> fRoots f = [] \<and> fRevisions f = [] \<and> fOverrides f = []"

inductive moves :: "int \<times> world \<Rightarrow> int \<times> world \<Rightarrow> bool" where
  tick: "now \<le> now' \<Longrightarrow> moves (now, w) (now', w)"
| person: "moves (now, w) (now, w\<lparr>wOffice := (wOffice w)\<lparr>fPeople := run_people h t fresh c (fPeople (wOffice w))\<rparr>\<rparr>)"
| schedule: "ckNow ck = now \<Longrightarrow> moves (now, w) (now, w\<lparr>wOffice := run_schedule ck c (wOffice w)\<rparr>)"
| erasure: "Erase now dbnow uid w = Inr w' \<Longrightarrow> moves (now, w) (now, w')"
| delivery: "moves (now, w) (now, w\<lparr>wDeliveries := d\<rparr>)"
| integration: "moves (now, w) (now, w\<lparr>wOffice := (wOffice w)\<lparr>fHooks := hooks\<rparr>\<rparr>)"

definition leads_to :: "int \<times> world \<Rightarrow> int \<times> world \<Rightarrow> bool" where
  "leads_to = moves\<^sup>*\<^sup>*"

definition reached :: "int \<times> world \<Rightarrow> bool" where
  "reached s \<longleftrightarrow> (\<exists>s0. empty_office (wOffice (snd s0)) \<and> leads_to s0 s)"

section \<open>The invariant\<close>

definition anonymous :: "user \<Rightarrow> bool" where
  "anonymous u \<longleftrightarrow> uName u = AnonymizedUserName \<and> uEmail u = None \<and> uPasswordHash u = None \<and> uAuthProvider u = None"

definition people_in_order :: "people \<Rightarrow> bool" where
  "people_in_order p \<longleftrightarrow> one_row_each p \<and> (has_admin p \<or> pUsers p = []) \<and> (\<forall>o' \<in> owners p. activeUser o' p) \<and>
     (\<forall>u \<in> set (pUsers p). uDeletedAt u \<noteq> None \<longrightarrow> anonymous u)"

definition in_order :: "int \<Rightarrow> office \<Rightarrow> bool" where
  "in_order now f \<longleftrightarrow> people_in_order (fPeople f) \<and> chronicle f \<and> roster f \<and> staffed now f"

lemma empty_in_order:
  assumes "empty_office f"
  shows "in_order now f"
proof -
  have "people_in_order (fPeople f)" "staffed now f" "chronicle f"
    using assms by (simp_all add: empty_office_def people_in_order_def one_row_each_def staffed_def chronicle_def)
  moreover have "roster f" using assms by (simp add: empty_office_def roster_def tidy_def disjoint_heads_def live_head)
  ultimately show ?thesis by (simp add: in_order_def)
qed

lemma office_cong_people:
  "chronicle (f\<lparr>fPeople := p\<rparr>) = chronicle f" "roster (f\<lparr>fPeople := p\<rparr>) = roster f"
  "chronicle (f\<lparr>fHooks := hs\<rparr>) = chronicle f" "roster (f\<lparr>fHooks := hs\<rparr>) = roster f"
proof -
  show "chronicle (f\<lparr>fPeople := p\<rparr>) = chronicle f" "chronicle (f\<lparr>fHooks := hs\<rparr>) = chronicle f"
    by (rule chronicle_cong, simp_all)+
  have "roster (f\<lparr>fPeople := p\<rparr>)" if "roster f" for f p by (rule roster_cong [OF that]) simp_all
  from this [of f p] this [of "f\<lparr>fPeople := p\<rparr>" "fPeople f"] show "roster (f\<lparr>fPeople := p\<rparr>) = roster f" by auto
  have "roster (f\<lparr>fHooks := hs\<rparr>)" if "roster f" for f hs by (rule roster_cong [OF that]) simp_all
  from this [of f hs] this [of "f\<lparr>fHooks := hs\<rparr>" "fHooks f"] show "roster (f\<lparr>fHooks := hs\<rparr>) = roster f" by auto
qed

lemma person_in_order:
  assumes "in_order now f"
  shows "in_order now (f\<lparr>fPeople := run_people h t fresh c (fPeople f)\<rparr>)"
proof -
  let ?q = "run_people h t fresh c (fPeople f)"
  have p: "one_row_each (fPeople f)" "has_admin (fPeople f) \<or> pUsers (fPeople f) = []"
    "\<forall>o' \<in> owners (fPeople f). activeUser o' (fPeople f)" "\<forall>u \<in> set (pUsers (fPeople f)). uDeletedAt u \<noteq> None \<longrightarrow> anonymous u"
    using assms by (simp_all add: in_order_def people_in_order_def)
  have "people_in_order ?q" unfolding people_in_order_def
  proof (intro conjI ballI impI)
    show "one_row_each ?q" by (rule directory.one_row [OF p(1)])
    show "has_admin ?q \<or> pUsers ?q = []" by (rule directory.keeps_admin [OF p(1,2)])
    show "activeUser o' ?q" if "o' \<in> owners ?q" for o' by (rule directory.owners_active [OF p(1,3) that])
    show "anonymous u" if "u \<in> set (pUsers ?q)" "uDeletedAt u \<noteq> None" for u
      using directory.keeps_erased [OF p(1) that(2)] that p(4) by blast
  qed
  then show ?thesis using assms directory.keeps_staffed [OF p(1)] by (simp add: in_order_def office_cong_people)
qed

text \<open>Schedule commands change no user, and of what people own only memberships.\<close>

definition same_people :: "people \<Rightarrow> people \<Rightarrow> bool" where
  "same_people p p' \<longleftrightarrow> pUsers p' = pUsers p \<and> owners p' \<subseteq> owners p"

lemma same_people_refl [simp]: "same_people p p"
  by (simp add: same_people_def)

lemma same_people_in_order: "same_people p p' \<Longrightarrow> people_in_order p \<Longrightarrow> people_in_order p'"
  by (auto simp: same_people_def people_in_order_def one_row_each_def has_admin_def activeUser_def)

lemma steps_people: "override_steps t f g \<Longrightarrow> fPeople g = fPeople f"
  using steps_frame by fastforce

lemma run_schedule_facts:
  assumes "in_order (ckNow ck) f"
  shows "staffed (ckNow ck) (run_schedule ck c f) \<and> roster (run_schedule ck c f) \<and>
    same_people (fPeople f) (fPeople (run_schedule ck c f)) \<and>
    (\<forall>s t layer uid. t < NormalizeTimestamp (ckNow ck) \<longrightarrow> covered_by s layer t uid f \<longrightarrow>
       covered_by s layer t uid (run_schedule ck c f))" (is "?P (run_schedule ck c f)")
proof -
  have f: "staffed (ckNow ck) f" "roster f" "chronicle f" "tidy f" using assms by (simp_all add: in_order_def roster_def)
  have refl: "?P f" using f by simp
  have steps: "?P g" if "override_steps (NormalizeTimestamp (ckNow ck)) f g" for g
    using steps_staffed [OF that f(2,3,1)] steps_roster [OF that f(2)] steps_past [OF that f(2)] steps_people [OF that] by simp
  show ?thesis
  proof (cases c)
    case (DoSave tid cmd)
    have "?P (snd x)" if "Save ck tid cmd f = Inr x" for x
    proof -
      obtain res g where x: "x = (res, g)" by force
      have s: "Save ck tid cmd f = Inr (res, g)" using that x by simp
      have "fOverrides g = fOverrides f \<and> fPeople g = fPeople f"
        using s by (rule Save_Inr [OF f(3)]) simp_all
      then show ?thesis using Save_staffed [OF f(1-3) s] covered_by_cong [of g f] x by simp
    qed
    then show ?thesis unfolding DoSave run_schedule.simps using refl by (rule kept_or_cases [rotated])
  next
    case (DoDelete tid cmd)
    have "?P g" if d: "DeleteSchedule ck tid cmd f = Inr g" for g
    proof -
      obtain e f0 g0 where e: "NormalizeTimestamp (ckNow ck) \<le> e" "fOverrides f0 = fOverrides f" "roster f0"
        "override_steps e f0 g0" "fOverrides g0 = fOverrides g" and sg: "staffed (ckNow ck) g" "roster g"
        using Delete_staffed [OF f(1-3) d] by blast
      have cov: "covered_by s layer t uid g" if "t < NormalizeTimestamp (ckNow ck)" "covered_by s layer t uid f" for s layer t uid
        using steps_past [OF e(4,3), of t s layer uid] that e(1) covered_by_cong [OF e(2)] covered_by_cong [OF e(5)] by simp
      have "fPeople g = fPeople f"
      proof (rule DeleteSchedule_Inr [OF f(3) d])
        fix s r assume g: "g = (extends f s r (Some (rvFrom r)))\<lparr>fOverrides := fOverrides g\<rparr>"
        show "fPeople g = fPeople f" by (subst g) simp
      qed
      with sg cov show ?thesis by simp
    qed
    then show ?thesis unfolding DoDelete run_schedule.simps id_def using refl by (rule kept_or_cases [rotated])
  next
    case (DoCreateOverride tid cmd)
    have "?P (snd x)" if "CreateOverride ck tid cmd f = Inr x" for x
      using steps CreateOverride_steps [OF f(4), of ck tid cmd "fst x" "snd x"] that by simp
    then show ?thesis unfolding DoCreateOverride run_schedule.simps using refl by (rule kept_or_cases [rotated])
  next
    case (DoUpdateOverride sid oid expected cmd)
    have "?P (snd x)" if "UpdateOverride ck sid oid expected cmd f = Inr x" for x
      using steps UpdateOverride_steps [OF f(4), of ck sid oid expected cmd "fst x" "snd x"] that by simp
    then show ?thesis unfolding DoUpdateOverride run_schedule.simps using refl by (rule kept_or_cases [rotated])
  next
    case (DoCancelOverride sid oid expected actor reason)
    have "?P g" if "CancelOverride ck sid oid expected actor reason f = Inr g" for g
      using steps CancelOverride_steps [OF f(4) that] by blast
    then show ?thesis unfolding DoCancelOverride run_schedule.simps id_def using refl by (rule kept_or_cases [rotated])
  next
    case (DoRemoveMember tid uid)
    have "?P g" if r: "RemoveMember ck tid uid f = Inr g" for g
    proof -
      have g: "g = DeleteTeamMembership tid uid f" by (rule RemoveMember_Inr(1) [OF f(3) r])
      have "same_people (fPeople f) (fPeople g)" by (auto simp: g DeleteTeamMembership_def same_people_def owners_def)
      moreover have "roster g" by (rule roster_cong [OF f(2)]) (simp_all add: g DeleteTeamMembership_def)
      moreover have "fOverrides g = fOverrides f" by (simp add: g DeleteTeamMembership_def)
      ultimately show ?thesis using RemoveMember_staffed [OF f(1,3) r] covered_by_cong [of g f] by simp
    qed
    then show ?thesis unfolding DoRemoveMember run_schedule.simps id_def using refl by (rule kept_or_cases [rotated])
  next
    case (DoDeleteTeam tid)
    have "?P g" if d: "DeleteTeam tid f = Inr g" for g
    proof -
      have g: "g = f\<lparr>fPeople := (fPeople f)\<lparr>pMembers := filter (\<lambda>m. mTeam m \<noteq> tid) (pMembers (fPeople f)),
                   pTeams := filter (\<lambda>t. t \<noteq> tid) (pTeams (fPeople f))\<rparr>\<rparr>"
        using DeleteTeam_Inr(1) [OF f(3) d] by (simp add: DeleteTeamRow_def split: if_splits)
      have "same_people (fPeople f) (fPeople g)" by (auto simp: g same_people_def owners_def)
      moreover have "roster g" by (rule roster_cong [OF f(2)]) (simp_all add: g)
      moreover have "fOverrides g = fOverrides f" by (simp add: g)
      ultimately show ?thesis using DeleteTeam_staffed [OF f(1,3) d] covered_by_cong [of g f] by simp
    qed
    then show ?thesis unfolding DoDeleteTeam run_schedule.simps id_def using refl by (rule kept_or_cases [rotated])
  qed
qed

lemma schedule_in_order:
  assumes "in_order (ckNow ck) f"
  shows "in_order (ckNow ck) (run_schedule ck c f)"
  using run_schedule_facts [OF assms, of c] run_schedule_chronicle [of f ck c] same_people_in_order assms
  unfolding in_order_def by blast

text \<open>Erasure never takes the last administrator.\<close>

lemma Erase_Inr:
  assumes "Erase now dbnow uid w = Inr w'"
  obtains "w' = w" | u d where "u \<in> set (pUsers (fPeople (wOffice w)))" "uID u = uid" "uDeletedAt u = None"
    "guardAssignments uid now (wOffice w) = Inr ()" "guardLastAdmin u (fPeople (wOffice w)) = Inr ()"
    "w' = \<lparr>wOffice = wipe_office uid now (wOffice w), wDeliveries = d\<rparr>"
proof (cases "find (\<lambda>u. uID u = uid) (pUsers (fPeople (wOffice w)))")
  case None
  with assms show thesis by (simp add: Erase_def Let_def split: if_splits)
next
  case (Some u)
  then have u: "u \<in> set (pUsers (fPeople (wOffice w)))" "uID u = uid"
    unfolding find_Some_iff using nth_mem by blast+
  show thesis
  proof (cases "uDeletedAt u = None")
    case False
    with assms Some that(1) show thesis by (simp add: Erase_def Let_def split: if_splits)
  next
    case True
    with assms Some obtain v v' where g: "guardAssignments uid now (wOffice w) = Inr v"
      "guardLastAdmin u (fPeople (wOffice w)) = Inr v'"
      and d: "(case erase_deliveries dbnow uid (wDeliveries w) of Inl e \<Rightarrow> Inl (DeliveryFailed e)
        | Inr (_, d) \<Rightarrow> Inr \<lparr>wOffice = wipe_office uid now (wOffice w), wDeliveries = d\<rparr>) = Inr w'"
      by (auto simp: Erase_def Let_def split: if_splits elim!: then_ok_InrE)
    from d obtain d' where "w' = \<lparr>wOffice = wipe_office uid now (wOffice w), wDeliveries = d'\<rparr>"
      by (cases "erase_deliveries dbnow uid (wDeliveries w)") auto
    with u True g that(2) show thesis by simp
  qed
qed

lemma two_admins:
  assumes "one_row_each p" "1 < CountAdmins p"
  shows "\<exists>u \<in> set (pUsers p). active_admin u \<and> uID u \<noteq> uid"
proof (rule ccontr)
  assume no: "\<not> ?thesis"
  let ?as = "filter active_admin (pUsers p)"
  have "distinct (map uID ?as)" using assms(1) by (simp add: one_row_each_def distinct_map_filter)
  then have "length ?as = Finite_Set.card (uID ` set ?as)" by (metis distinct_card length_map set_map)
  also have "\<dots> \<le> Finite_Set.card {uid}" using no by (intro card_mono) auto
  finally show False using assms(2) by (simp add: CountAdmins_def)
qed

lemma wipe_admin:
  assumes "one_row_each p" "has_admin p" "u \<in> set (pUsers p)" "uID u = uid" "guardLastAdmin u p = Inr ()"
  shows "has_admin (wipe_people uid now p)"
proof -
  have "\<exists>a \<in> set (pUsers p). active_admin a \<and> uID a \<noteq> uid"
  proof (cases "uRole u = UserRoleAdmin")
    case True
    then have "1 < CountAdmins p" using assms(5) by (auto simp: guardLastAdmin_def split: if_splits)
    then show ?thesis by (rule two_admins [OF assms(1)])
  next
    case False
    obtain a where a: "a \<in> set (pUsers p)" "active_admin a" using assms(2) by (auto simp: has_admin_def list_ex_iff)
    have "uID a \<noteq> uid"
    proof
      assume "uID a = uid"
      then have "a = u" using assms(1,3,4) a(1) unfolding one_row_each_def distinct_map by (metis inj_onD)
      with a(2) False show False by (simp add: active_admin_def)
    qed
    with a show ?thesis by blast
  qed
  then show ?thesis by (force simp: has_admin_def list_ex_iff wipe_people_sel(3))
qed

lemma wipe_in_order:
  assumes "in_order now f" "u \<in> set (pUsers (fPeople f))" "uID u = uid"
    "guardAssignments uid now f = Inr ()" "guardLastAdmin u (fPeople f) = Inr ()"
  shows "in_order now (wipe_office uid now f)"
proof -
  let ?p = "fPeople f" and ?q = "wipe_people uid now (fPeople f)"
  have p: "one_row_each ?p" "has_admin ?p \<or> pUsers ?p = []" "\<forall>o' \<in> owners ?p. activeUser o' ?p"
    "\<forall>u \<in> set (pUsers ?p). uDeletedAt u \<noteq> None \<longrightarrow> anonymous u"
    and f: "staffed now f" "roster f" "chronicle f"
    using assms(1) by (simp_all add: in_order_def people_in_order_def)
  have "has_admin ?p" using p(2) assms(2) by (metis empty_iff empty_set)
  have "people_in_order ?q" unfolding people_in_order_def
  proof (intro conjI ballI impI)
    have "map uID (pUsers ?q) = map uID (pUsers ?p)" by (simp add: wipe_people_sel(3))
    then show "one_row_each ?q" using p(1) unfolding one_row_each_def by simp
    show "has_admin ?q \<or> pUsers ?q = []" using wipe_admin [OF p(1) \<open>has_admin ?p\<close> assms(2,3,5)] by blast
    show "activeUser o' ?q" if "o' \<in> owners ?q" for o'
    proof -
      have "o' \<in> owners ?p" "o' \<noteq> uid" using that by (auto simp: owners_def wipe_people_sel)
      then show ?thesis using p(3) by (simp add: active_wiped)
    qed
    show "anonymous v" if "v \<in> set (pUsers ?q)" "uDeletedAt v \<noteq> None" for v
      using that p(4) by (auto simp: wipe_people_sel(3) anonymous_def)
  qed
  then show ?thesis unfolding in_order_def wipe_office_sel(1)
    using wipe_keeps(1) [OF f(2)] wipe_keeps(2) [OF f(3)] wipe_staffed [OF f assms(4)] by blast
qed

lemma moves_in_order:
  assumes "moves s s'" "in_order (fst s) (wOffice (snd s))"
  shows "in_order (fst s') (wOffice (snd s'))"
  using assms
proof cases
  case (tick now now' w)
  then show ?thesis using assms(2) staffed_later [of now "wOffice w" now'] by (simp add: in_order_def)
next
  case (person now w h t fresh c)
  then show ?thesis using person_in_order assms(2) by simp
next
  case (schedule ck now w c)
  then show ?thesis using schedule_in_order [of ck "wOffice w" c] assms(2) by simp
next
  case (erasure now dbnow uid w w')
  from erasure(3) show ?thesis
  proof (rule Erase_Inr)
    fix u d assume "u \<in> set (pUsers (fPeople (wOffice w)))" "uID u = uid"
      "guardAssignments uid now (wOffice w) = Inr ()" "guardLastAdmin u (fPeople (wOffice w)) = Inr ()"
      "w' = \<lparr>wOffice = wipe_office uid now (wOffice w), wDeliveries = d\<rparr>"
    then show ?thesis using wipe_in_order [of now "wOffice w" u uid] assms(2) erasure(1,2) by simp
  qed (use assms(2) erasure in simp)
next
  case (delivery now w d)
  then show ?thesis using assms(2) by simp
next
  case (integration now w hooks)
  have "staffed now ((wOffice w)\<lparr>fHooks := hooks\<rparr>)" if "staffed now (wOffice w)"
    by (rule staffed_members [OF that]) (simp_all add: member_def)
  then show ?thesis using assms(2) integration by (simp add: in_order_def office_cong_people)
qed

lemma leads_to_in_order: "leads_to s s' \<Longrightarrow> in_order (fst s) (wOffice (snd s)) \<Longrightarrow> in_order (fst s') (wOffice (snd s'))"
  unfolding leads_to_def by (induction rule: rtranclp_induct) (use moves_in_order in blast)+

lemma reached_in_order: "reached s \<Longrightarrow> in_order (fst s) (wOffice (snd s))"
  unfolding reached_def using leads_to_in_order empty_in_order by blast

end
