(* ===== verification/Charter.thy ===== *)
theory Charter
  imports Company
begin

text \<open>
  What the invariant of the company says to its users: who is on call has not left, the past
  stays, the erased stay erased and an administrator remains.
\<close>

section \<open>Who is on call\<close>

text \<open>Everyone a reader may find on duty at an instant: the groups of the revision in force, and the stand-ins.\<close>

definition on_call_at :: "string \<Rightarrow> int \<Rightarrow> string \<Rightarrow> office \<Rightarrow> bool" where
  "on_call_at sid t uid f \<longleftrightarrow>
     (case GetEffectiveRevision sid t f of Inl _ \<Rightarrow> False
      | Inr r \<Rightarrow> rvKind r = RevisionActive \<and> snapshotNames (rvSnapshot r) uid) \<or>
     covered_by sid LayerL1 t uid f \<or> covered_by sid LayerL2 t uid f"

lemma chain_tail:
  assumes "chronicle f" "s \<in> set (fRoots f)"
  shows "tail_of f s \<in> set (revs (rtID s) f)" "rvTo (tail_of f s) = None" "aligned (rvFrom (tail_of f s))"
proof -
  have ch: "chain f s" using assms by (simp add: chronicle_def)
  show m: "tail_of f s \<in> set (revs (rtID s) f)" unfolding tail_of_def using chain_ne [OF ch] by simp
  show "rvTo (tail_of f s) = None" "aligned (rvFrom (tail_of f s))"
    using ch m linked_last by (auto simp: chain_def Let_def tail_of_def)
qed

lemma GetEffectiveRevision_tail:
  assumes "chronicle f" "s \<in> set (fRoots f)" "rvFrom (tail_of f s) \<le> t"
  shows "GetEffectiveRevision (rtID s) t f = Inr (tail_of f s)"
proof -
  let ?u = "NormalizeTimestamp t"
  have ch: "linked (revs (rtID s) f)" "rvFrom (hd (revs (rtID s) f)) = rtHistoryFrom s"
    using assms(1,2) by (simp_all add: chronicle_def chain_def Let_def)
  note tail = chain_tail [OF assms(1,2)]
  have le: "rvFrom (tail_of f s) \<le> ?u" using Normalize_mono [OF assms(3)] tail(3) by simp
  have "rvFrom (hd (revs (rtID s) f)) \<le> ?u" using linked_starts [OF ch(1) tail(1)] le by simp
  then obtain r where r: "filter (in_force ?u) (revs (rtID s) f) = [r]" using linked_in_force [OF ch(1)] by blast
  have "tail_of f s \<in> set (filter (in_force ?u) (revs (rtID s) f))" using tail(1,2) le by (simp add: in_force_def)
  then have "r = tail_of f s" unfolding r by simp
  with r show ?thesis by (simp add: GetEffectiveRevision_revs)
qed

lemma staffed_covered:
  assumes "staffed now f" "s \<in> set (fRoots f)" "rtDeletedAt s = None" "now \<le> t" "rvFrom (tail_of f s) \<le> t"
    "covered_by (rtID s) layer t uid f"
  shows "member f s uid"
proof -
  obtain x where x: "live f x" "ovSchedule x = rtID s" "t < ovTo x" "ovUser x = uid"
    using assms(6) by (rule covered_byE)
  have "staffed_root now f s" using assms(1,2) by (simp add: staffed_def)
  moreover have "NormalizeTimestamp now < ovTo x" using assms(4) x(3) Normalize_le(1) [of now] by simp
  moreover have "rvFrom (tail_of f s) < ovTo x" using assms(5) x(3) by simp
  ultimately show ?thesis using staffed_rootD(2) [OF _ assms(3) x(1,2)] x(4) by blast
qed

lemma member_role: "member f s uid \<Longrightarrow> activeUser uid (fPeople f) \<and> (\<exists>role. GetUserTeamRole uid (rtTeam s) (fPeople f) = Inr role)"
  unfolding member_iff GetUserTeamRole_def
  by (cases "find (\<lambda>m. mUser m = uid \<and> mTeam m = rtTeam s) (pMembers (fPeople f))") (auto simp: find_None_iff)

text \<open>
  C27. Nobody on call has left: in every state commands can reach, whoever the newest
  configuration of a schedule that is not deleted, or an override, puts on call at the present or
  a later instant, from the start of that configuration on, is an active user and a member of its
  team.  (A configuration begins after the present only when it follows another within the same
  microsecond or by a clock that stepped back; until it begins the older one is still in force and
  may name somebody who has left since.)
\<close>

theorem nobody_on_call_has_left:
  assumes "reached (now, w)" "s \<in> set (fRoots (wOffice w))" "rtDeletedAt s = None"
    "GetTailRevision (rtID s) (wOffice w) = Inr r" "now \<le> t" "rvFrom r \<le> t"
    "on_call_at (rtID s) t uid (wOffice w)"
  shows "activeUser uid (fPeople (wOffice w)) \<and>
    (\<exists>role. GetUserTeamRole uid (rtTeam s) (fPeople (wOffice w)) = Inr role)"
proof -
  let ?f = "wOffice w"
  have f: "staffed now ?f" "chronicle ?f" using reached_in_order [OF assms(1)] by (simp_all add: in_order_def)
  have r: "r = tail_of ?f s" using GetTailRevision_last [OF f(2) assms(2)] assms(4) by (simp add: tail_of_def)
  have e: "GetEffectiveRevision (rtID s) t ?f = Inr r"
    unfolding r by (rule GetEffectiveRevision_tail [OF f(2) assms(2)]) (use assms(6) r in simp)
  have root: "staffed_root now ?f s" using f(1) assms(2) by (simp add: staffed_def)
  from assms(7) have "member ?f s uid" unfolding on_call_at_def e sum.case
  proof (elim disjE)
    assume "rvKind r = RevisionActive \<and> snapshotNames (rvSnapshot r) uid"
    then show ?thesis using staffed_rootD(1) [OF root assms(3)] r by blast
  qed (rule staffed_covered [OF f(1) assms(2,3,5)], use assms(6) r in simp_all)+
  then show ?thesis by (rule member_role)
qed

section \<open>The past\<close>

lemma moves_past:
  assumes "moves s s'" "in_order (fst s) (wOffice (snd s))" "t < NormalizeTimestamp (fst s)"
  shows "in_force_at sid t (wOffice (snd s')) = in_force_at sid t (wOffice (snd s)) \<and>
    (covered_by sid layer t uid (wOffice (snd s)) \<longrightarrow> covered_by sid layer t uid (wOffice (snd s')))"
  using assms(1)
proof cases
  case (person now w h u fresh c)
  then show ?thesis by (simp add: in_force_at_def GetEffectiveRevision_def covered_by_def)
next
  case (schedule ck now w c)
  then have o: "in_order (ckNow ck) (wOffice w)" "t < NormalizeTimestamp (ckNow ck)" using assms(2,3) by simp_all
  have "NormalizeTimestamp t < NormalizeTimestamp (ckNow ck)" using o(2) Normalize_le(1) [of t] by simp
  then have "in_force_at sid t (run_schedule ck c (wOffice w)) = in_force_at sid t (wOffice w)"
    using run_schedule_past o(1) by (simp add: in_order_def)
  moreover have "covered_by sid layer t uid (wOffice w) \<longrightarrow> covered_by sid layer t uid (run_schedule ck c (wOffice w))"
    using run_schedule_facts [OF o(1), of c] o(2) by blast
  ultimately show ?thesis using schedule by simp
next
  case (erasure now dbnow uid' w w')
  from erasure(3) show ?thesis by (rule Erase_Inr) (use erasure wipe_keeps(3,4) in simp_all)
next
  case (integration now w hooks)
  then show ?thesis by (simp add: in_force_at_def GetEffectiveRevision_def covered_by_def)
qed simp_all

lemma leads_to_past:
  assumes "leads_to s s'" "in_order (fst s) (wOffice (snd s))" "t < NormalizeTimestamp (fst s)"
  shows "fst s \<le> fst s' \<and> in_force_at sid t (wOffice (snd s')) = in_force_at sid t (wOffice (snd s)) \<and>
    (covered_by sid layer t uid (wOffice (snd s)) \<longrightarrow> covered_by sid layer t uid (wOffice (snd s')))"
  using assms(1) unfolding leads_to_def
proof (induction rule: rtranclp_induct)
  case base
  show ?case by simp
next
  case (step y z)
  have "in_order (fst y) (wOffice (snd y))"
    using leads_to_in_order [OF _ assms(2)] step(1) by (simp add: leads_to_def)
  moreover have "t < NormalizeTimestamp (fst y)"
    using Normalize_mono [of "fst s" "fst y"] step(3) assms(3) by linarith
  moreover have "fst y \<le> fst z" using step(2) by cases simp_all
  ultimately show ?case using moves_past [OF step(2), of t sid layer uid] step(3) by auto
qed

text \<open>
  C28. The past is not rewritten: whatever happens from a moment on, the revision, its kind and
  its snapshot in force at an earlier instant stay what they were, and whoever covered the
  instant for an override still does.  What may still happen to an earlier instant is that an
  override is entered over it where there was none.
\<close>

theorem past_is_not_rewritten:
  assumes "reached s" "leads_to s s'" "t < NormalizeTimestamp (fst s)"
  shows "in_force_at sid t (wOffice (snd s')) = in_force_at sid t (wOffice (snd s)) \<and>
    (covered_by sid layer t uid (wOffice (snd s)) \<longrightarrow> covered_by sid layer t uid (wOffice (snd s')))"
  using leads_to_past [OF assms(2) reached_in_order [OF assms(1)] assms(3)] by blast

section \<open>The directory\<close>

lemma reached_people: "reached s \<Longrightarrow> people_in_order (fPeople (wOffice (snd s)))"
  using reached_in_order [of s] by (simp add: in_order_def)

text \<open>C31. A system with users has an administrator who is not erased.\<close>

theorem an_administrator_remains:
  assumes "reached (now, w)" "pUsers (fPeople (wOffice w)) \<noteq> []"
  shows "0 < CountAdmins (fPeople (wOffice w))"
  using reached_people [OF assms(1)] assms(2)
  by (auto simp: people_in_order_def CountAdmins_def has_admin_def list_ex_iff filter_empty_conv)

lemma moves_erased:
  assumes "moves s s'" "people_in_order (fPeople (wOffice (snd s)))" "u \<in> set (pUsers (fPeople (wOffice (snd s))))"
    "uDeletedAt u \<noteq> None" "in_order (fst s) (wOffice (snd s))"
  shows "u \<in> set (pUsers (fPeople (wOffice (snd s'))))"
  using assms(1)
proof cases
  case (person now w h t fresh c)
  have "one_row_each (fPeople (wOffice w))" using assms(2) person by (simp add: people_in_order_def)
  from directory.keeps_erased [OF this assms(4)] assms(3) person show ?thesis by simp
next
  case (schedule ck now w c)
  then have "same_people (fPeople (wOffice w)) (fPeople (run_schedule ck c (wOffice w)))"
    using run_schedule_facts [of ck "wOffice w" c] assms(5) by simp
  then show ?thesis using assms(3) schedule by (simp add: same_people_def)
next
  case (erasure now dbnow uid w w')
  from erasure(3) show ?thesis
  proof (rule Erase_Inr)
    fix v d assume v: "v \<in> set (pUsers (fPeople (wOffice w)))" "uID v = uid" "uDeletedAt v = None"
      and w': "w' = \<lparr>wOffice = wipe_office uid now (wOffice w), wDeliveries = d\<rparr>"
    have "one_row_each (fPeople (wOffice w))" using assms(2) erasure by (simp add: people_in_order_def)
    moreover have u: "u \<in> set (pUsers (fPeople (wOffice w)))" using assms(3) erasure by simp
    moreover have "u \<noteq> v" using v(3) assms(4) by blast
    ultimately have "uID u \<noteq> uid" using v(1,2) unfolding one_row_each_def distinct_map by (metis inj_onD)
    then show ?thesis using u by (force simp: erasure w' wipe_office_sel(1) wipe_people_sel(3))
  qed (use assms(3) erasure in simp)
qed (use assms(3) in simp_all)

lemma leads_to_erased:
  assumes "leads_to s s'" "in_order (fst s) (wOffice (snd s))" "u \<in> set (pUsers (fPeople (wOffice (snd s))))" "uDeletedAt u \<noteq> None"
  shows "u \<in> set (pUsers (fPeople (wOffice (snd s'))))"
  using assms(1) unfolding leads_to_def
proof (induction rule: rtranclp_induct)
  case (step y z)
  have "in_order (fst y) (wOffice (snd y))" using leads_to_in_order [OF _ assms(2)] step(1) by (simp add: leads_to_def)
  then show ?case using moves_erased [OF step(2) _ step(3) assms(4)] by (simp add: in_order_def)
qed (rule assms(3))

lemma erased_not_active:
  assumes "one_row_each p" "u \<in> set (pUsers p)" "uDeletedAt u \<noteq> None"
  shows "\<not> activeUser (uID u) p"
proof
  assume "activeUser (uID u) p"
  then obtain v where "v \<in> set (pUsers p)" "uID v = uID u" "uDeletedAt v = None"
    by (auto simp: activeUser_def list_ex_iff is_active_def)
  moreover from this have "v = u" using assms(1,2) unfolding one_row_each_def distinct_map by (metis inj_onD)
  ultimately show False using assms(3) by simp
qed

definition unreachable :: "string \<Rightarrow> people \<Rightarrow> bool" where
  "unreachable uid p \<longleftrightarrow> GetActiveUserByID uid p = Inl ErrUserNotFound \<and>
     (\<forall>hash t. GetAPITokenByHash hash p = Inr t \<longrightarrow> kUser t \<noteq> uid) \<and>
     (\<forall>provider ext a. GetUserByExternalID provider ext p = Inr a \<longrightarrow> aID a \<noteq> uid) \<and>
     (\<forall>email a. GetUserByEmail email p = Inr a \<longrightarrow> aID a \<noteq> uid) \<and>
     GetTeamMembershipsForUser uid p = [] \<and> GetPhoneContact uid p = None"

lemma find_SomeD: "find c xs = Some v \<Longrightarrow> v \<in> set xs \<and> c v"
  unfolding find_Some_iff by auto

lemma erased_unreachable:
  assumes "people_in_order p" "u \<in> set (pUsers p)" "uDeletedAt u \<noteq> None"
  shows "unreachable (uID u) p"
proof -
  have one: "one_row_each p" and own: "\<forall>o' \<in> owners p. activeUser o' p"
    and anon: "\<forall>u \<in> set (pUsers p). uDeletedAt u \<noteq> None \<longrightarrow> anonymous u"
    using assms(1) by (simp_all add: people_in_order_def)
  have na: "\<not> activeUser (uID u) p" by (rule erased_not_active [OF one assms(2,3)])
  then have no: "uID u \<notin> owners p" using own by blast
  have "find (is_active (uID u)) (pUsers p) = None"
    using na by (simp add: find_None_iff activeUser_def list_ex_iff)
  then have 1: "GetActiveUserByID (uID u) p = Inl ErrUserNotFound" by (simp add: GetActiveUserByID_def)
  have 2: "kUser t \<noteq> uID u" if "GetAPITokenByHash hash p = Inr t" for hash t
    using that na by (auto simp: GetAPITokenByHash_def find_Some_iff split: option.splits)
  have 3: "aID a \<noteq> uID u" if "GetUserByExternalID provider ext p = Inr a" for provider ext a
  proof -
    obtain v where v: "v \<in> set (pUsers p)" "uDeletedAt v = None" "a = scanUser v"
    proof -
      obtain v where f: "find (\<lambda>u. uDeletedAt u = None \<and> list_ex (\<lambda>x. xUser x = uID u \<and> xProvider x = provider \<and>
          xExternalID x = ext) (pIdentities p)) (pUsers p) = Some v" "a = scanUser v"
        using \<open>GetUserByExternalID provider ext p = Inr a\<close> unfolding GetUserByExternalID_def by (auto split: option.splits)
      from find_SomeD [OF f(1)] f(2) that show thesis by blast
    qed
    show ?thesis
    proof
      assume "aID a = uID u"
      then have "v = u" using v(1,3) one assms(2) unfolding one_row_each_def distinct_map scanUser_def
        by (metis inj_onD model_user.select_convs(1))
      with v(2) assms(3) show False by simp
    qed
  qed
  have 4: "aID a \<noteq> uID u" if "GetUserByEmail email p = Inr a" for email a
  proof -
    obtain v where v: "v \<in> set (pUsers p)" "uEmail v = Some email" "a = scanUser v"
    proof -
      obtain v where f: "find (\<lambda>u. uEmail u = Some email) (pUsers p) = Some v" "a = scanUser v"
        using \<open>GetUserByEmail email p = Inr a\<close> unfolding GetUserByEmail_def by (auto split: option.splits)
      from find_SomeD [OF f(1)] f(2) that show thesis by blast
    qed
    show ?thesis
    proof
      assume "aID a = uID u"
      then have "v = u" using v(1,3) one assms(2) unfolding one_row_each_def distinct_map scanUser_def
        by (metis inj_onD model_user.select_convs(1))
      then show False using anon assms(2,3) v(2) by (simp add: anonymous_def)
    qed
  qed
  have 5: "GetTeamMembershipsForUser (uID u) p = []"
  proof -
    have "uID u \<notin> mUser ` set (pMembers p)" using no by (simp add: owners_def)
    then have "\<forall>m \<in> set (pMembers p). mUser m \<noteq> uID u" by (metis imageI)
    then show ?thesis by (simp add: GetTeamMembershipsForUser_def filter_empty_conv)
  qed
  have 6: "GetPhoneContact (uID u) p = None"
  proof -
    have "uID u \<notin> nUser ` set (pContacts p)" using no by (simp add: owners_def)
    then have "\<forall>c \<in> set (pContacts p). nUser c \<noteq> uID u" by (metis imageI)
    then show ?thesis by (simp add: GetPhoneContact_def find_None_iff)
  qed
  show ?thesis unfolding unreachable_def using 1 2 3 4 5 6 by blast
qed

text \<open>
  C30. An erased person stays erased: whatever happens later, the row of a deleted user stays
  as it is, without name, address or credential (its role it keeps), and nothing finds it - no
  session, no token, no linked account, no address, no team and no phone.
\<close>

theorem erased_stay_erased:
  assumes "reached s" "leads_to s s'" "u \<in> set (pUsers (fPeople (wOffice (snd s))))" "uDeletedAt u \<noteq> None"
  shows "u \<in> set (pUsers (fPeople (wOffice (snd s')))) \<and> anonymous u \<and> unreachable (uID u) (fPeople (wOffice (snd s')))"
proof -
  have o: "in_order (fst s) (wOffice (snd s))" by (rule reached_in_order [OF assms(1)])
  have u: "u \<in> set (pUsers (fPeople (wOffice (snd s'))))" by (rule leads_to_erased [OF assms(2) o assms(3,4)])
  have p: "people_in_order (fPeople (wOffice (snd s')))" using leads_to_in_order [OF assms(2) o] by (simp add: in_order_def)
  then have "anonymous u" using u assms(4) unfolding people_in_order_def by blast
  with u erased_unreachable [OF p u assms(4)] show ?thesis by blast
qed


section \<open>A small company\<close>

text \<open>Ann is the administrator and the only member of a team, whose schedule names her.\<close>

definition ann_people :: people where
  "ann_people = \<lparr>pUsers = [\<lparr>uID = ''ann'', uEmail = Some ''a'', uName = ''Ann'', uRole = UserRoleAdmin,
       uPasswordHash = Some [], uAuthProvider = Some [], uCreatedAt = 0, uDeletedAt = None\<rparr>],
     pTeams = [''t''], pMembers = [\<lparr>mTeam = ''t'', mUser = ''ann'', mRole = TeamMemberRoleMember\<rparr>],
     pTokens = [], pIdentities = [], pLinks = [], pContacts = [], pChecks = [], pCalls = [], pCapacity = [], pReservations = []\<rparr>"

definition nobody_yet :: people where
  "nobody_yet = \<lparr>pUsers = [], pTeams = [], pMembers = [], pTokens = [], pIdentities = [], pLinks = [], pContacts = [],
     pChecks = [], pCalls = [], pCapacity = [], pReservations = []\<rparr>"

definition new_ann :: model_user where
  "new_ann = \<lparr>aID = ''ann'', aEmail = ''a'', aName = ''Ann'', aRole = UserRoleUser, aPasswordHash = [], aAuthProvider = [],
     aCreatedAt = None\<rparr>"

lemma ann_joins:
  "run_people id 0 [] (DoAddMember ''t'' ''ann'' TeamMemberRoleMember) (run_people id 0 [] (DoCreateTeam ''t'')
     (run_people id 0 [] (DoCreateUser new_ann) nobody_yet)) = ann_people"
proof -
  have "run_people id 0 [] (DoCreateUser new_ann) nobody_yet = ann_people\<lparr>pTeams := [], pMembers := []\<rparr>"
    by (simp add: CreateUser_def new_ann_def nobody_yet_def ann_people_def written_def users_ok_def map_filter_simps UserRoleUser_def)
  moreover have "run_people id 0 [] (DoCreateTeam ''t'') (ann_people\<lparr>pTeams := [], pMembers := []\<rparr>) = ann_people\<lparr>pMembers := []\<rparr>"
    by (simp add: CreateTeam_def ann_people_def written_def)
  moreover have "run_people id 0 [] (DoAddMember ''t'' ''ann'' TeamMemberRoleMember) (ann_people\<lparr>pMembers := []\<rparr>) = ann_people"
    by (simp add: AddTeamMember_def ann_people_def written_def activeUser_def is_active_def upsert_def)
  ultimately show ?thesis by simp
qed

definition ann_office :: "people \<Rightarrow> office" where
  "ann_office p = \<lparr>fPeople = p, fRoots = [], fRevisions = [], fOverrides = [], fHooks = [], fBroken = (\<lambda>_. None)\<rparr>"

definition ann_world :: "people \<Rightarrow> world" where
  "ann_world p = \<lparr>wOffice = ann_office p, wDeliveries = message_to_ann\<rparr>"

lemma ann_office_sel [simp]:
  "fPeople (ann_office p) = p" "fRoots (ann_office p) = []" "fRevisions (ann_office p) = []" "fOverrides (ann_office p) = []"
  by (simp_all add: ann_office_def)

lemma reached_move: "reached s \<Longrightarrow> moves s s' \<Longrightarrow> reached s'"
  unfolding reached_def leads_to_def by (meson rtranclp.rtrancl_into_rtrancl)

lemma ann_reached: "reached (now, ann_world ann_people)"
proof -
  have p: "moves (now, ann_world p) (now, ann_world (run_people id 0 [] c p))" for p c
    using moves.person [of now "ann_world p" id 0 "[]" c] by (simp add: ann_world_def ann_office_def)
  have "empty_office (wOffice (ann_world nobody_yet))"
    by (simp add: ann_world_def ann_office_def empty_office_def nobody_yet_def owners_def)
  then have "reached (now, ann_world nobody_yet)" unfolding reached_def leads_to_def by (metis snd_conv rtranclp.rtrancl_refl)
  then show ?thesis using reached_move p ann_joins by metis
qed

definition ann_clerk :: clerk where
  "ann_clerk = \<lparr>ckNow = 5000, ckNewID = (\<lambda>n. if n = 0 then ''s'' else ''r''), ckExt = everywhere_utc, ckUuid = ''u''\<rparr>"

definition ann_save :: save_command where
  "ann_save = \<lparr>svExpectedVersion = 0, svDesired = without_bob, svActor = [], svReason = None\<rparr>"

lemma ann_saves:
  "\<exists>r. wOffice (snd (5000, (ann_world ann_people)\<lparr>wOffice := run_schedule ann_clerk (DoSave ''t'' ann_save) (ann_office ann_people)\<rparr>))
     = (ann_office ann_people)\<lparr>fRoots := [\<lparr>rtID = ''s'', rtTeam = ''t'', rtVersion = 1, rtHistoryFrom = 5000, rtDeletedAt = None\<rparr>],
         fRevisions := [r]\<rparr> \<and>
     rvSchedule r = ''s'' \<and> rvFrom r = 5000 \<and> rvTo r = None \<and> rvKind r = RevisionActive \<and>
     ConfigurationFromSnapshot (rvSnapshot r) = without_bob \<and> snapshot_validate everywhere_utc (rvSnapshot r) = Inr ()"
proof -
  let ?inp = "\<lparr>tiCurrent = None, tiDesired = without_bob, tiEffectiveAt = 5000\<rparr>"
  have z: "tiEffectiveAt ?inp \<noteq> zero_time" "(5000::int) \<noteq> zero_time" by (simp_all add: zero_time_def)
  have n: "NormalizeConfiguration everywhere_utc (tiDesired ?inp) = Inr without_bob" by (simp add: without_bob_normal)
  have cu: "current_valid everywhere_utc ?inp" "\<not> unchanged ?inp without_bob" by (simp_all add: current_valid_def unchanged_def)
  obtain l1 t1 l2 t2 ch where plan: "PlanTransition everywhere_utc ?inp = Inr (Plan (assemble without_bob l1 l2) t1 t2 ch)"
    and valid: "snapshot_validate everywhere_utc (assemble without_bob l1 l2) = Inr ()"
    and cfg: "ConfigurationFromSnapshot (assemble without_bob l1 l2) = without_bob"
    by (rule PlanTransition_succeeds [OF z(1) n cu])
  have ids: "ConfigurationUserIDs without_bob = [''ann'']" by (simp add: ConfigurationUserIDs_def without_bob_def)
  have m: "ValidateMembership ''t'' [''ann''] (ann_office ann_people) = Inr ()"
    by (simp add: ValidateMembership_def GetTeamMemberIDs_def ann_office_def ann_people_def activeUser_def is_active_def)
  have nt: "NormalizeTimestamp 5000 = 5000" by (simp add: NormalizeTimestamp_def TimestampResolution_def)
  have save: "Save ann_clerk ''t'' ann_save (ann_office ann_people) = initialize ann_clerk ''t'' without_bob [] None (ann_office ann_people)"
    using n by (simp add: Save_def save_schedule_def requireActiveActor_def GetScheduleRootByTeam_def ann_save_def ann_clerk_def ann_office_def)
  have lock: "LockTeam ''t'' (ann_office ann_people) = Inr ()" "''t'' \<in> set (pTeams (fPeople (ann_office ann_people)))"
    by (simp_all add: LockTeam_def ann_office_def ann_people_def)
  let ?old = "\<lparr>rtID = ''s'', rtTeam = ''t'', rtVersion = 0, rtHistoryFrom = zero_time, rtDeletedAt = None\<rparr>"
  let ?r = "\<lparr>rvID = ''r'', rvSchedule = ''s'', rvVersion = 1, rvKind = RevisionActive, rvSnapshot = assemble without_bob l1 l2,
     rvFrom = 5000, rvTo = None, rvRecordedAt = 5000, rvCreatedBy = None, rvReason = None, rvSummary = Some ch\<rparr>"
  let ?s = "\<lparr>rtID = ''s'', rtTeam = ''t'', rtVersion = 1, rtHistoryFrom = 5000, rtDeletedAt = None\<rparr>"
  have prep: "PrepareRevision ann_clerk ?r = Inr ?r"
    by (simp add: PrepareRevision_def plan_kind CanonicalizeSnapshot_def valid nt z normalizeRecordedAt_def Let_def
      ann_clerk_def)
  have create: "CreateInitialSchedule ann_clerk ?old ?r (ann_office ann_people)
      = Inr ((ann_office ann_people)\<lparr>fRoots := [?s], fRevisions := [?r]\<rparr>)"
    using lock(2) by (simp add: CreateInitialSchedule_def PrepareInitialSchedule_def prep InsertRevision_def)
  have init: "initialize ann_clerk ''t'' without_bob [] None (ann_office ann_people) =
      Inr (\<lparr>srRevision = ?r, srVersion = 1, srEffectiveAt = 5000, srNoop = False, srRecreated = False, srCreated = True\<rparr>,
        (ann_office ann_people)\<lparr>fRoots := [?s], fRevisions := [?r]\<rparr>)"
    unfolding initialize_def lock(1) ids m Let_def using plan create
    by (simp add: ann_clerk_def nt optionalString_def)
  show ?thesis unfolding run_schedule.simps save init
    by (intro exI [of _ ?r]) (simp add: ann_world_def cfg valid)
qed


definition ann_scheduled :: world where
  "ann_scheduled = (ann_world ann_people)\<lparr>wOffice := run_schedule ann_clerk (DoSave ''t'' ann_save) (ann_office ann_people)\<rparr>"

lemma ann_scheduled_reached: "reached (5000, ann_scheduled)"
proof -
  have "ckNow ann_clerk = 5000" "wOffice (ann_world ann_people) = ann_office ann_people"
    by (simp_all add: ann_clerk_def ann_world_def)
  with reached_move [OF ann_reached moves.schedule [of ann_clerk 5000 "ann_world ann_people" "DoSave ''t'' ann_save"]]
  show ?thesis unfolding ann_scheduled_def by metis
qed

lemma ann_scheduled_office:
  obtains r where "wOffice ann_scheduled = (ann_office ann_people)\<lparr>fRoots := [\<lparr>rtID = ''s'', rtTeam = ''t'', rtVersion = 1,
      rtHistoryFrom = 5000, rtDeletedAt = None\<rparr>], fRevisions := [r]\<rparr>"
    "rvSchedule r = ''s''" "rvFrom r = 5000" "rvTo r = None" "rvKind r = RevisionActive"
    "snapshotNames (rvSnapshot r) ''ann''" "snapshot_validate everywhere_utc (rvSnapshot r) = Inr ()"
  using ann_saves that
  by (force simp: ann_scheduled_def names_of_configuration ConfigurationUserIDs_def without_bob_def)

lemma aligned_instants: "NormalizeTimestamp 5000 = 5000" "NormalizeTimestamp 5500 = 5000" "NormalizeTimestamp 7000 = 7000"
  by (simp_all add: NormalizeTimestamp_def TimestampResolution_def)

lemma ann_in_force:
  assumes "wOffice ann_scheduled = (ann_office ann_people)\<lparr>fRoots := rs, fRevisions := [r]\<rparr>"
    "rvSchedule r = ''s''" "rvFrom r = 5000" "rvTo r = None" "5000 \<le> NormalizeTimestamp t"
  shows "GetEffectiveRevision ''s'' t (wOffice ann_scheduled) = Inr r"
  using assms by (simp add: GetEffectiveRevision_def in_force_def)

theorem nobody_on_call_has_left_witness:
  "activeUser ''ann'' (fPeople (wOffice ann_scheduled)) \<and>
     (\<exists>role. GetUserTeamRole ''ann'' ''t'' (fPeople (wOffice ann_scheduled)) = Inr role)"
proof (rule ann_scheduled_office)
  fix r assume w: "wOffice ann_scheduled = (ann_office ann_people)\<lparr>fRoots := [\<lparr>rtID = ''s'', rtTeam = ''t'', rtVersion = 1,
      rtHistoryFrom = 5000, rtDeletedAt = None\<rparr>], fRevisions := [r]\<rparr>"
    and r: "rvSchedule r = ''s''" "rvFrom r = 5000" "rvTo r = None" "rvKind r = RevisionActive" "snapshotNames (rvSnapshot r) ''ann''"
  let ?s = "\<lparr>rtID = ''s'', rtTeam = ''t'', rtVersion = 1, rtHistoryFrom = 5000, rtDeletedAt = None\<rparr>"
  have "?s \<in> set (fRoots (wOffice ann_scheduled))" by (simp add: w)
  moreover have "GetTailRevision (rtID ?s) (wOffice ann_scheduled) = Inr r" using r by (simp add: w GetTailRevision_def)
  moreover have "on_call_at (rtID ?s) 5000 ''ann'' (wOffice ann_scheduled)"
    using ann_in_force [OF w r(1-3)] r(4,5) aligned_instants by (simp add: on_call_at_def)
  ultimately show ?thesis
    using nobody_on_call_has_left [OF ann_scheduled_reached, of ?s r 5000 "''ann''"] r(2) by simp
qed

definition late_clerk :: clerk where
  "late_clerk = ann_clerk\<lparr>ckNow := 7000\<rparr>"

theorem past_is_not_rewritten_witness:
  "\<exists>x. in_force_at ''s'' 5500 (run_schedule late_clerk (DoDelete ''t'' \<lparr>dcExpectedVersion = 1, dcActor = [], dcReason = None\<rparr>)
     (wOffice ann_scheduled)) = Inr x"
proof (rule ann_scheduled_office)
  fix r assume w: "wOffice ann_scheduled = (ann_office ann_people)\<lparr>fRoots := [\<lparr>rtID = ''s'', rtTeam = ''t'', rtVersion = 1,
      rtHistoryFrom = 5000, rtDeletedAt = None\<rparr>], fRevisions := [r]\<rparr>"
    and r: "rvSchedule r = ''s''" "rvFrom r = 5000" "rvTo r = None"
  let ?c = "DoDelete ''t'' \<lparr>dcExpectedVersion = 1, dcActor = [], dcReason = None\<rparr>"
  let ?z = "(7000, ann_scheduled\<lparr>wOffice := run_schedule late_clerk ?c (wOffice ann_scheduled)\<rparr>)"
  have reached: "reached (7000, ann_scheduled)" by (rule reached_move [OF ann_scheduled_reached moves.tick]) simp
  have "moves (7000, ann_scheduled) ?z" by (rule moves.schedule) (simp add: late_clerk_def)
  then have "leads_to (7000, ann_scheduled) ?z" unfolding leads_to_def by (rule r_into_rtranclp)
  from past_is_not_rewritten [OF reached this, of 5500 "''s''"]
  have "in_force_at ''s'' 5500 (run_schedule late_clerk ?c (wOffice ann_scheduled)) = in_force_at ''s'' 5500 (wOffice ann_scheduled)"
    by (simp add: aligned_instants)
  then show ?thesis using ann_in_force [OF w r, of 5500] by (simp add: aligned_instants in_force_at_def)
qed

theorem an_administrator_remains_witness: "0 < CountAdmins (fPeople (wOffice (ann_world ann_people)))"
proof -
  have "pUsers (fPeople (wOffice (ann_world ann_people))) \<noteq> []" by (simp add: ann_world_def ann_people_def)
  then show ?thesis by (rule an_administrator_remains [OF ann_reached [of 0]])
qed

text \<open>Bob joins and is erased.\<close>

definition erased_bob :: user where
  "erased_bob = \<lparr>uID = ''bob'', uEmail = None, uName = AnonymizedUserName, uRole = UserRoleUser, uPasswordHash = None,
     uAuthProvider = None, uCreatedAt = 0, uDeletedAt = Some 5000\<rparr>"

lemma erase_deliveries_ok: "\<exists>x d. erase_deliveries now uid message_to_ann = Inr (x, d)"
proof -
  have sd: "sound message_to_ann" using message_to_ann_pact(1) by (simp add: pact_def)
  obtain x d1 where c: "CancelLiveOutboundIntentsForUser now uid message_to_ann = Inr (x, d1)" "quiet_step message_to_ann d1"
    "same_journal message_to_ann d1"
    using CancelLive_ok [OF sd] by blast
  have "\<forall>y\<in>set (dbObservations d1). observation_checks y"
    using c(3) by (simp add: same_journal_def message_to_ann_pact(2))
  then obtain d' where "ScrubOutboundEndpointsForUser now uid d1 = Inr d'"
    using Scrub_ok [OF quiet_step_sound [OF c(2)]] by blast
  with c(1) show ?thesis by (simp add: erase_deliveries_def)
qed

lemma bob_erased:
  obtains w where "reached (5000, w)" "erased_bob \<in> set (pUsers (fPeople (wOffice w)))"
proof -
  let ?bob = "\<lparr>aID = ''bob'', aEmail = ''b'', aName = ''Bob'', aRole = UserRoleUser, aPasswordHash = [], aAuthProvider = [],
     aCreatedAt = None\<rparr>"
  let ?row = "\<lparr>uID = ''bob'', uEmail = Some ''b'', uName = ''Bob'', uRole = UserRoleUser, uPasswordHash = Some [],
     uAuthProvider = Some [], uCreatedAt = 0, uDeletedAt = None\<rparr>"
  let ?q = "run_people id 0 [] (DoCreateUser ?bob) ann_people"
  have q: "?q = ann_people\<lparr>pUsers := pUsers ann_people @ [?row]\<rparr>"
    by (simp add: CreateUser_def ann_people_def written_def users_ok_def map_filter_simps UserRoleUser_def UserRoleAdmin_def)
  let ?w = "ann_world ?q"
  have "moves (5000, ann_world ann_people) (5000, ?w)"
    using moves.person [of 5000 "ann_world ann_people" id 0 "[]" "DoCreateUser ?bob"] by (simp add: ann_world_def ann_office_def)
  then have reached: "reached (5000, ?w)" by (rule reached_move [OF ann_reached])
  obtain x d where "erase_deliveries 0 ''bob'' message_to_ann = Inr (x, d)" using erase_deliveries_ok by blast
  moreover have "guardAssignments ''bob'' 5000 (ann_office p) = Inr ()" for p
    by (simp add: guardAssignments_def blockedByRotation_def ListScheduleTailsLocked_def ListLiveOverrideHeadsForUser_def)
  moreover have "find (\<lambda>u. uID u = ''bob'') (pUsers ?q) = Some ?row" unfolding q by (simp add: ann_people_def)
  moreover have "guardLastAdmin ?row ?q = Inr ()" by (simp add: guardLastAdmin_def UserRoleUser_def UserRoleAdmin_def)
  ultimately have "Erase 5000 0 ''bob'' ?w = Inr \<lparr>wOffice = wipe_office ''bob'' 5000 (ann_office ?q), wDeliveries = d\<rparr>"
    unfolding Erase_def Let_def ann_world_def by simp
  then have "reached (5000, \<lparr>wOffice = wipe_office ''bob'' 5000 (ann_office ?q), wDeliveries = d\<rparr>)"
    by (rule reached_move [OF reached moves.erasure])
  moreover have "erased_bob \<in> set (pUsers (wipe_people ''bob'' 5000 ?q))"
    unfolding q by (simp add: wipe_people_sel(3) erased_bob_def aligned_instants)
  ultimately show thesis using that [OF _ ] by (metis (no_types, lifting) ann_office_sel(1) wipe_office_sel(1) world.select_convs(1))
qed

theorem erased_stay_erased_witness:
  "\<exists>w. reached (5000, w) \<and> erased_bob \<in> set (pUsers (fPeople (wOffice w))) \<and>
     unreachable ''bob'' (run_people id 0 [] (DoAddMember ''t'' ''bob'' TeamMemberRoleMember) (fPeople (wOffice w)))"
proof (rule bob_erased)
  fix w assume w: "reached (5000, w)" "erased_bob \<in> set (pUsers (fPeople (wOffice w)))"
  let ?z = "(5000, w\<lparr>wOffice := (wOffice w)\<lparr>fPeople := run_people id 0 [] (DoAddMember ''t'' ''bob'' TeamMemberRoleMember)
     (fPeople (wOffice w))\<rparr>\<rparr>)"
  have "leads_to (5000, w) ?z" unfolding leads_to_def by (rule r_into_rtranclp) (rule moves.person)
  from erased_stay_erased [OF w(1) this, of erased_bob] w(2)
  have "unreachable (uID erased_bob) (run_people id 0 [] (DoAddMember ''t'' ''bob'' TeamMemberRoleMember) (fPeople (wOffice w)))"
    by (simp add: erased_bob_def)
  with w show ?thesis by (intro exI [of _ w]) (simp add: erased_bob_def)
qed

end
