(* ===== verification/Access.thy ===== *)
theory Access
  imports Charter
begin

text \<open>
  Who may do what: the permission check of \<open>internal/rbac/rbac.go\<close>, the session check of
  \<open>internal/api/auth.go\<close> and the scope of a request of \<open>internal/api/rbac_middleware.go\<close>.

  The tables of alert groups, policies and integrations, which some scopes are looked up in,
  are arguments, as are SHA-256 and the reading of a signed session.  That a token was used is
  written in the background and is the command \<open>DoTokenUsed\<close>.
\<close>

section \<open>Actions\<close>

datatype action =
    ActionAlertView | ActionAlertNoteAdd | ActionAlertCreate | ActionTeamList | ActionTeamView
  | ActionScheduleView | ActionUserList | ActionUserView
  | ActionAlertAck | ActionAlertResolve | ActionOverrideCreate | ActionOverrideUpdate | ActionOverrideDelete
  | ActionTeamUpdate | ActionTeamMemberAdd | ActionTeamMemberRemove | ActionScheduleEdit
  | ActionTeamCreate | ActionTeamDelete | ActionUserCreate | ActionUserUpdate | ActionUserDelete
  | ActionUserRoleAssign | ActionUserPasswordUpdate
  | ActionIntegrationList | ActionIntegrationView | ActionIntegrationCreate | ActionIntegrationUpdate
  | ActionIntegrationDelete | ActionDeliveryView | ActionDeliveryResolve
  | ActionTokenList | ActionTokenCreate | ActionTokenDelete
  | ActionPolicyList | ActionPolicyView | ActionPolicyCreate | ActionPolicyUpdate | ActionPolicyDelete

definition publicInternalActions :: "action list" where
  "publicInternalActions = [ActionAlertView, ActionAlertNoteAdd, ActionAlertCreate, ActionTeamList, ActionTeamView,
     ActionScheduleView, ActionUserList, ActionUserView, ActionPolicyList]"

definition teamMemberActions :: "action list" where
  "teamMemberActions = [ActionAlertAck, ActionAlertResolve, ActionOverrideCreate, ActionOverrideUpdate,
     ActionOverrideDelete, ActionPolicyView]"

definition teamAdminActions :: "action list" where
  "teamAdminActions = [ActionTeamUpdate, ActionTeamMemberAdd, ActionTeamMemberRemove, ActionScheduleEdit,
     ActionPolicyCreate, ActionPolicyUpdate, ActionPolicyDelete, ActionIntegrationList, ActionIntegrationView,
     ActionIntegrationCreate, ActionIntegrationUpdate, ActionIntegrationDelete]"

definition globalAdminActions :: "action list" where
  "globalAdminActions = [ActionTeamCreate, ActionTeamDelete, ActionUserCreate, ActionUserUpdate, ActionUserDelete,
     ActionUserRoleAssign, ActionDeliveryView, ActionDeliveryResolve]"

record scope =
  scType :: string
  scTeamID :: string
  scUserID :: string

definition GlobalScope :: scope where "GlobalScope = \<lparr>scType = ''global'', scTeamID = [], scUserID = []\<rparr>"
definition TeamScope :: "string \<Rightarrow> scope" where "TeamScope tid = \<lparr>scType = ''team'', scTeamID = tid, scUserID = []\<rparr>"
definition UserScope :: "string \<Rightarrow> scope" where "UserScope uid = \<lparr>scType = ''user'', scTeamID = [], scUserID = uid\<rparr>"

section \<open>The check\<close>

text \<open>The rules 5 and 6, which follow the team's.\<close>

definition beyond_teams :: "string \<Rightarrow> action \<Rightarrow> scope \<Rightarrow> bool" where
  "beyond_teams uid action sc =
     (if scType sc = ''user'' \<and> scUserID sc \<noteq> [] then scUserID sc = uid
      else action = ActionPolicyView \<and> scType sc = ''global'')"

definition HasPermission :: "(string \<Rightarrow> people_error + model_user) \<Rightarrow> (string \<Rightarrow> string \<Rightarrow> people_error + string)
    \<Rightarrow> string \<Rightarrow> action \<Rightarrow> scope \<Rightarrow> people_error + bool" where
  "HasPermission find_active team_role uid action sc =
     then_ok (find_active uid) (\<lambda>user.
     if aRole user = UserRoleAdmin then Inr True
     else if action \<in> set publicInternalActions then Inr True
     else if action \<in> set globalAdminActions then Inr False
     else if scType sc = ''team'' \<and> scTeamID sc \<noteq> [] then
       (case team_role uid (scTeamID sc) of
          Inl e \<Rightarrow> if e = NoRows then Inr False else Inl e
        | Inr role \<Rightarrow>
            if action \<in> set teamAdminActions then Inr (role = TeamMemberRoleAdmin)
            else if action \<in> set teamMemberActions
            then Inr (role = TeamMemberRoleAdmin \<or> role = TeamMemberRoleMember)
            else Inr (beyond_teams uid action sc))
     else Inr (beyond_teams uid action sc))"

definition IsAdmin :: "(string \<Rightarrow> people_error + model_user) \<Rightarrow> string \<Rightarrow> people_error + bool" where
  "IsAdmin find_active uid = then_ok (find_active uid) (\<lambda>user. Inr (aRole user = UserRoleAdmin))"

definition IsTeamMember :: "(string \<Rightarrow> string \<Rightarrow> people_error + string) \<Rightarrow> string \<Rightarrow> string \<Rightarrow> people_error + bool" where
  "IsTeamMember team_role uid tid = (case team_role uid tid of
     Inl e \<Rightarrow> if e = NoRows then Inr False else Inl e | Inr _ \<Rightarrow> Inr True)"

definition IsTeamAdmin :: "(string \<Rightarrow> string \<Rightarrow> people_error + string) \<Rightarrow> string \<Rightarrow> string \<Rightarrow> people_error + bool" where
  "IsTeamAdmin team_role uid tid = (case team_role uid tid of
     Inl e \<Rightarrow> if e = NoRows then Inr False else Inl e | Inr role \<Rightarrow> Inr (role = TeamMemberRoleAdmin))"

section \<open>The session\<close>

datatype session = Session string bool | Unauthorized | SessionFailed

definition GetAPITokenByID :: "string \<Rightarrow> people \<Rightarrow> people_error + api_token" where
  "GetAPITokenByID tid p = (case find (\<lambda>t. kID t = tid) (pTokens p) of None \<Rightarrow> Inl NoRows | Some t \<Rightarrow> Inr t)"

text \<open>The token of a Bearer header; \<open>Inr None\<close> is an expired one.\<close>

definition validateAPIToken :: "(string \<Rightarrow> string) \<Rightarrow> int \<Rightarrow> string \<Rightarrow> people \<Rightarrow> people_error + api_token option" where
  "validateAPIToken sha now token p =
     then_ok (GetAPITokenByHash (sha token) p) (\<lambda>t.
     Inr (case kExpiresAt t of None \<Rightarrow> Some t | Some e \<Rightarrow> if e < now then None else Some t))"

definition bearer :: string where "bearer = ''Bearer ''"

definition AuthMiddleware :: "(string \<Rightarrow> string) \<Rightarrow> (string \<Rightarrow> string option) \<Rightarrow> int \<Rightarrow> string \<Rightarrow> string option
    \<Rightarrow> people \<Rightarrow> session" where
  "AuthMiddleware sha ValidateToken now header cookie p =
     (if take 7 header = bearer then
        (case validateAPIToken sha now (drop 7 header) p of
           Inr (Some t) \<Rightarrow> Session (kUser t) True
         | Inr None \<Rightarrow> Unauthorized
         | Inl e \<Rightarrow> if e = NoRows then Unauthorized else SessionFailed)
      else case cookie of
        None \<Rightarrow> Unauthorized
      | Some c \<Rightarrow>
          (case ValidateToken c of
             None \<Rightarrow> Unauthorized
           | Some uid \<Rightarrow>
               (case GetActiveUserByID uid p of
                  Inl e \<Rightarrow> if e = ErrUserNotFound \<or> e = NoRows then Unauthorized else SessionFailed
                | Inr _ \<Rightarrow> Session uid False)))"

definition sessionOnly :: "session \<Rightarrow> bool" where
  "sessionOnly s = (case s of Session _ token \<Rightarrow> \<not> token | _ \<Rightarrow> True)"

section \<open>The scope of a request\<close>

text \<open>A resolver answers a scope or the status it refuses with.\<close>

type_synonym resolved = "nat + scope"

definition ScopeUserSelfOrAdmin :: "string \<Rightarrow> resolved" where
  "ScopeUserSelfOrAdmin target = (if target = [] then Inl 400 else Inr (UserScope target))"

definition ScopeCurrentUser :: "string option \<Rightarrow> resolved" where
  "ScopeCurrentUser uid = (case uid of None \<Rightarrow> Inl 401 | Some u \<Rightarrow> Inr (UserScope u))"

datatype resource = TeamResource | AlertGroupResource | TokenResource | PolicyResource

text \<open>\<open>group_team\<close> and \<open>policy_team\<close> look up the team of an alert group and of a policy.\<close>

definition ScopeFromResource :: "(string \<Rightarrow> string option) \<Rightarrow> (string \<Rightarrow> string option option) \<Rightarrow> resource \<Rightarrow> string
    \<Rightarrow> people \<Rightarrow> resolved" where
  "ScopeFromResource group_team policy_team kind rid p =
     (if rid = [] then Inl 400
      else case kind of
        TeamResource \<Rightarrow> if rid \<in> set (pTeams p) then Inr (TeamScope rid) else Inl 404
      | AlertGroupResource \<Rightarrow> (case group_team rid of None \<Rightarrow> Inl 404 | Some tid \<Rightarrow> Inr (TeamScope tid))
      | TokenResource \<Rightarrow> (case GetAPITokenByID rid p of Inl _ \<Rightarrow> Inl 404 | Inr t \<Rightarrow> Inr (UserScope (kUser t)))
      | PolicyResource \<Rightarrow> (case policy_team rid of None \<Rightarrow> Inl 404
          | Some None \<Rightarrow> Inr GlobalScope | Some (Some tid) \<Rightarrow> Inr (TeamScope tid)))"

definition ScopeScheduleOverride :: "string \<Rightarrow> string \<Rightarrow> office \<Rightarrow> resolved" where
  "ScopeScheduleOverride sid oid f =
     (if sid = [] \<or> oid = [] then Inl 400
      else case GetScheduleRoot sid f of
        Inl _ \<Rightarrow> Inl 404
      | Inr sched \<Rightarrow> (case GetOverrideHead sid oid f of Inl _ \<Rightarrow> Inl 404 | Inr _ \<Rightarrow> Inr (TeamScope (rtTeam sched))))"

definition WebhookScopeTeam :: string where "WebhookScopeTeam = ''team''"

definition integrationScope :: "string \<Rightarrow> string option \<Rightarrow> string option \<Rightarrow> people \<Rightarrow> resolved" where
  "integrationScope uid wscope team p =
     (case IsAdmin (\<lambda>u. GetActiveUserByID u p) uid of
        Inl _ \<Rightarrow> Inl 500
      | Inr True \<Rightarrow> Inr GlobalScope
      | Inr False \<Rightarrow>
          (case team of None \<Rightarrow> Inl 404
           | Some tid \<Rightarrow>
               if wscope \<noteq> Some WebhookScopeTeam then Inl 404
               else case IsTeamAdmin (\<lambda>u t. GetUserTeamRole u t p) uid tid of
                 Inl _ \<Rightarrow> Inl 500
               | Inr b \<Rightarrow> if b then Inr (TeamScope tid) else Inl 404))"

definition ScopeIntegrationCreate :: "string \<Rightarrow> string option \<Rightarrow> people \<Rightarrow> resolved" where
  "ScopeIntegrationCreate uid team_id p =
     (case IsAdmin (\<lambda>u. GetActiveUserByID u p) uid of
        Inl _ \<Rightarrow> Inl 500
      | Inr True \<Rightarrow> Inr GlobalScope
      | Inr False \<Rightarrow> (case team_id of
          None \<Rightarrow> Inl 403 | Some tid \<Rightarrow> if tid = [] then Inl 403 else Inr (TeamScope tid)))"

definition ScopeFromBody :: "string option \<Rightarrow> resolved" where
  "ScopeFromBody field = (case field of None \<Rightarrow> Inr GlobalScope
     | Some v \<Rightarrow> if v = [] then Inr GlobalScope else Inr (TeamScope v))"

text \<open>\<open>None\<close> lets the request through.\<close>

definition Require :: "action \<Rightarrow> resolved \<Rightarrow> string \<Rightarrow> people \<Rightarrow> nat option" where
  "Require action resolved uid p =
     (case resolved of
        Inl status \<Rightarrow> Some status
      | Inr sc \<Rightarrow>
          (case HasPermission (\<lambda>u. GetActiveUserByID u p) (\<lambda>u t. GetUserTeamRole u t p) uid action sc of
             Inl _ \<Rightarrow> Some 500
           | Inr allowed \<Rightarrow> if allowed then None else Some 403))"

section \<open>The directory as the check needs it\<close>

locale directory_reads =
  fixes find_active :: "string \<Rightarrow> people_error + model_user"
    and team_role :: "string \<Rightarrow> string \<Rightarrow> people_error + string"
    and alive :: "string \<Rightarrow> bool"
  assumes find_alive: "succeeds (find_active uid) = alive uid"
begin

lemma permission_needs_life: "HasPermission find_active team_role uid action sc = Inr b \<Longrightarrow> alive uid"
  using find_alive [of uid] by (auto simp: HasPermission_def succeeds_iff elim!: then_ok_InrE)

text \<open>The six rules at once; the lists of actions do not meet.\<close>

lemma permission_cases:
  "HasPermission find_active team_role uid action sc = Inr True \<longleftrightarrow> (\<exists>u. find_active uid = Inr u \<and>
     (aRole u = UserRoleAdmin \<or>
      action \<in> set publicInternalActions \<or>
      (scType sc = ''team'' \<and> scTeamID sc \<noteq> [] \<and>
        (team_role uid (scTeamID sc) = Inr TeamMemberRoleAdmin \<and> action \<in> set (teamAdminActions @ teamMemberActions) \<or>
         team_role uid (scTeamID sc) = Inr TeamMemberRoleMember \<and> action \<in> set teamMemberActions)) \<or>
      (scType sc = ''user'' \<and> scUserID sc \<noteq> [] \<and> scUserID sc = uid \<and> action \<notin> set globalAdminActions) \<or>
      (scType sc = ''global'' \<and> action = ActionPolicyView)))"
proof -
  note lists = globalAdminActions_def publicInternalActions_def teamAdminActions_def teamMemberActions_def
  have apart: "action \<in> set globalAdminActions \<Longrightarrow> action \<notin> set (teamAdminActions @ teamMemberActions)"
    "action \<in> set teamAdminActions \<Longrightarrow> action \<notin> set teamMemberActions"
    "ActionPolicyView \<notin> set globalAdminActions" "ActionPolicyView \<notin> set publicInternalActions"
    by (auto simp: lists)
  have roles: "TeamMemberRoleAdmin \<noteq> TeamMemberRoleMember" by (simp add: TeamMemberRoleAdmin_def TeamMemberRoleMember_def)
  show ?thesis
  proof (cases "scType sc = ''team'' \<and> scTeamID sc \<noteq> []")
    case True
    then show ?thesis using apart roles
      by (cases "find_active uid"; cases "team_role uid (scTeamID sc)") (auto simp: HasPermission_def beyond_teams_def)
  next
    case False
    then show ?thesis using apart(3,4)
      by (cases "find_active uid") (auto simp: HasPermission_def beyond_teams_def)
  qed
qed

end

lemma succeeds_active: "succeeds (GetActiveUserByID uid p) = activeUser uid p"
proof (cases "find (is_active uid) (pUsers p)")
  case None
  then have "\<not> activeUser uid p" by (simp add: activeUser_def list_ex_iff find_None_iff)
  then show ?thesis using None by (simp add: GetActiveUserByID_def succeeds_iff)
next
  case (Some u)
  from find_SomeD [OF this] Some show ?thesis
    by (auto simp: GetActiveUserByID_def activeUser_def list_ex_iff succeeds_iff)
qed

interpretation reads: directory_reads "\<lambda>u. GetActiveUserByID u p" "\<lambda>u t. GetUserTeamRole u t p" "\<lambda>u. activeUser u p"
  by unfold_locales (rule succeeds_active)

section \<open>What a request may change\<close>

lemma Require_passes: "Require action resolved uid p = None \<longleftrightarrow>
    (\<exists>sc. resolved = Inr sc \<and> HasPermission (\<lambda>u. GetActiveUserByID u p) (\<lambda>u t. GetUserTeamRole u t p) uid action sc = Inr True)"
  by (auto simp: Require_def split: sum.splits if_splits)

lemma session_is_active:
  assumes "AuthMiddleware sha ValidateToken now header cookie p = Session uid b"
  shows "activeUser uid p"
  using assms succeeds_active [of uid p]
  by (auto simp: AuthMiddleware_def validateAPIToken_def GetAPITokenByHash_def find_Some_iff succeeds_iff
    split: if_splits sum.splits option.splits elim!: then_ok_InrE)


text \<open>
  C33. Permissions are exact, for every action in every scope: a request passes if and only if the
  person is active and is an administrator of the whole system; or the action is one of those
  everybody may do; or the scope is a team and the role held in that very team has the action
  (the actions of members are those of its administrators too); or the scope is the person
  themselves and the action is not kept for administrators; or it is reading a policy of no team.
\<close>

theorem permissions_are_exact:
  "Require a (Inr sc) uid p = None \<longleftrightarrow> activeUser uid p \<and>
     (IsAdmin (\<lambda>u. GetActiveUserByID u p) uid = Inr True \<or>
      a \<in> set publicInternalActions \<or>
      (scType sc = ''team'' \<and> scTeamID sc \<noteq> [] \<and>
        (GetUserTeamRole uid (scTeamID sc) p = Inr TeamMemberRoleAdmin \<and> a \<in> set (teamAdminActions @ teamMemberActions) \<or>
         GetUserTeamRole uid (scTeamID sc) p = Inr TeamMemberRoleMember \<and> a \<in> set teamMemberActions)) \<or>
      (scType sc = ''user'' \<and> scUserID sc \<noteq> [] \<and> scUserID sc = uid \<and> a \<notin> set globalAdminActions) \<or>
      (scType sc = ''global'' \<and> a = ActionPolicyView))"
proof -
  have adm: "IsAdmin (\<lambda>u. GetActiveUserByID u p) uid = Inr True \<longleftrightarrow>
      (\<exists>a. GetActiveUserByID uid p = Inr a \<and> aRole a = UserRoleAdmin)"
    by (cases "GetActiveUserByID uid p") (auto simp: IsAdmin_def)
  have act: "activeUser uid p \<longleftrightarrow> (\<exists>a. GetActiveUserByID uid p = Inr a)"
    unfolding succeeds_active [symmetric] succeeds_iff ..
  show ?thesis unfolding Require_passes reads.permission_cases adm act by auto
qed

definition ann_asks :: "action \<Rightarrow> scope \<Rightarrow> nat option" where
  "ann_asks action sc = Require action (Inr sc) ''ann'' ann_people"

theorem permissions_are_exact_witness:
  "ann_asks ActionUserDelete GlobalScope = None \<and> ann_asks ActionScheduleEdit (TeamScope ''x'') = None"
proof -
  have "activeUser ''ann'' ann_people" "IsAdmin (\<lambda>u. GetActiveUserByID u ann_people) ''ann'' = Inr True"
    by (simp_all add: ann_people_def activeUser_def is_active_def IsAdmin_def GetActiveUserByID_def scanUser_def)
  then show ?thesis unfolding ann_asks_def
    by (intro conjI permissions_are_exact [THEN iffD2]) simp_all
qed

text \<open>
  C32. Nobody acts as an erased person: after the erasure no request - with a token, a session
  cookie or any other credential - is taken to be theirs, and nothing is permitted to them.
\<close>

theorem nobody_acts_as_the_erased:
  assumes "reached s" "leads_to s s'" "u \<in> set (pUsers (fPeople (wOffice (snd s))))" "uDeletedAt u \<noteq> None"
  shows "AuthMiddleware sha ValidateToken t header cookie (fPeople (wOffice (snd s'))) \<noteq> Session (uID u) b \<and>
    Require action resolved (uID u) (fPeople (wOffice (snd s'))) \<noteq> None"
proof -
  let ?p = "fPeople (wOffice (snd s'))"
  have o: "in_order (fst s) (wOffice (snd s))" by (rule reached_in_order [OF assms(1)])
  have u: "u \<in> set (pUsers ?p)" by (rule leads_to_erased [OF assms(2) o assms(3,4)])
  have "one_row_each ?p" using leads_to_in_order [OF assms(2) o] by (simp add: in_order_def people_in_order_def)
  then have "\<not> activeUser (uID u) ?p" by (rule erased_not_active [OF _ u assms(4)])
  then show ?thesis using session_is_active reads.permission_needs_life unfolding Require_passes by blast
qed

theorem nobody_acts_as_the_erased_witness:
  "\<exists>w. reached (5000, w) \<and> erased_bob \<in> set (pUsers (fPeople (wOffice w))) \<and>
     AuthMiddleware id Some 0 [] (Some ''bob'') (fPeople (wOffice w)) \<noteq> Session ''bob'' False"
proof (rule bob_erased)
  fix w assume w: "reached (5000, w)" "erased_bob \<in> set (pUsers (fPeople (wOffice w)))"
  have "leads_to (5000, w) (5000, w)" by (simp add: leads_to_def)
  from nobody_acts_as_the_erased [OF w(1) this, of erased_bob id Some 0 "[]" "Some ''bob''" False] w(2)
  have "AuthMiddleware id Some 0 [] (Some ''bob'') (fPeople (wOffice w)) \<noteq> Session ''bob'' False"
    by (simp add: erased_bob_def)
  with w show ?thesis by blast
qed

end
