(* ===== verification/CallLimits.thy ===== *)
theory CallLimits
  imports Directory
begin

text \<open>
  What the limiter in front of the phone accounts guarantees (\<open>internal/store/phone_store.go\<close>,
  \<open>ReservePhoneCall\<close>).  The guarantees hold at every instant for which one asks and need no
  assumption on the clock: a reservation counts everything later than its window opens.
\<close>

section \<open>Sliding windows\<close>

definition in_window :: "int \<Rightarrow> int \<Rightarrow> int list \<Rightarrow> nat" where
  "in_window width t ts = length (filter (\<lambda>x. t - width < x \<and> x \<le> t) ts)"

definition rationed :: "int \<Rightarrow> nat \<Rightarrow> int list \<Rightarrow> bool" where
  "rationed width limit ts \<longleftrightarrow> (\<forall>t. in_window width t ts \<le> limit)"

lemma length_filter_mono: "(\<And>x. x \<in> set xs \<Longrightarrow> P x \<Longrightarrow> Q x) \<Longrightarrow> length (filter P xs) \<le> length (filter Q xs)"
  by (induction xs) auto

lemma rationed_Nil [simp]: "rationed width limit []"
  by (simp add: rationed_def in_window_def)

lemma rationed_append:
  assumes "rationed width limit ts" "length (filter (\<lambda>x. now - width < x) ts) < limit"
  shows "rationed width limit (ts @ [now])"
  unfolding rationed_def
proof
  fix t
  have "in_window width t ts \<le> length (filter (\<lambda>x. now - width < x) ts)" if "now \<le> t"
    unfolding in_window_def by (rule length_filter_mono) (use that in simp)
  then show "in_window width t (ts @ [now]) \<le> limit"
    using assms unfolding rationed_def by (force simp: in_window_def)
qed

section \<open>What is counted\<close>

definition asked_at :: "string \<Rightarrow> string \<Rightarrow> people \<Rightarrow> int list" where
  "asked_at uid purpose p =
     map gCreatedAt (filter (\<lambda>g. gUser g = uid \<and> (purpose = [] \<or> gPurpose g = purpose)) (pCalls p))"

definition busy :: "(reservation \<Rightarrow> bool) \<Rightarrow> int \<Rightarrow> people \<Rightarrow> nat" where
  "busy own t p = length (filter (\<lambda>v. own v \<and> vReleasedAt v = None \<and> vCreatedAt v \<le> t \<and> t < vHoldUntil v) (pReservations p))"

definition code_call :: "string \<Rightarrow> reservation \<Rightarrow> bool" where
  "code_call uid v \<longleftrightarrow> vUser v = Some uid \<and> vPurpose v = ''verify''"

definition on_account :: "string \<Rightarrow> reservation \<Rightarrow> bool" where
  "on_account scope v \<longleftrightarrow> vScope v = scope"

definition account_calls :: "string \<Rightarrow> people \<Rightarrow> int list" where
  "account_calls scope p = map vCreatedAt (filter (on_account scope) (pReservations p))"

definition spaced :: "int \<Rightarrow> int list \<Rightarrow> bool" where
  "spaced gap = sorted_wrt (\<lambda>a b. a + gap \<le> b)"

text \<open>The capacity row is behind no call of its account.\<close>

definition paced :: "string \<Rightarrow> int \<Rightarrow> people \<Rightarrow> bool" where
  "paced scope gap p \<longleftrightarrow> spaced gap (account_calls scope p) \<and>
     (\<forall>x \<in> set (account_calls scope p). \<exists>free. next_free scope p = Some free \<and> x + gap \<le> free)"

definition limited :: "string \<Rightarrow> int \<Rightarrow> int \<Rightarrow> people \<Rightarrow> bool" where
  "limited scope cps most p \<longleftrightarrow>
     (\<forall>uid. rationed (24 * Phone.Hour) phoneCallsPerDay (asked_at uid [] p)) \<and>
     (\<forall>uid. rationed Phone.Hour phoneVerifyCallsPerHour (asked_at uid ''verify'' p)) \<and>
     (\<forall>uid t. busy (code_call uid) t p \<le> 1) \<and>
     (\<forall>t. int (busy (on_account scope) t p) \<le> most) \<and>
     paced scope (Phone.Second div cps) p"

section \<open>Who touches the limiter\<close>

definition untouched :: "people \<Rightarrow> people \<Rightarrow> bool" where
  "untouched p p' \<longleftrightarrow> pCalls p' = pCalls p \<and> pCapacity p' = pCapacity p \<and> pReservations p' = pReservations p"

lemma untouched_refl [simp]: "untouched p p"
  by (simp add: untouched_def)

lemma untouched_tables [simp]:
  "untouched p (q\<lparr>pUsers := us\<rparr>) = untouched p q" "untouched p (q\<lparr>pTeams := tms\<rparr>) = untouched p q"
  "untouched p (q\<lparr>pMembers := ms\<rparr>) = untouched p q" "untouched p (q\<lparr>pTokens := ks\<rparr>) = untouched p q"
  "untouched p (q\<lparr>pIdentities := xs\<rparr>) = untouched p q" "untouched p (q\<lparr>pLinks := ls\<rparr>) = untouched p q"
  "untouched p (q\<lparr>pContacts := cs\<rparr>) = untouched p q" "untouched p (q\<lparr>pChecks := ds\<rparr>) = untouched p q"
  by (simp_all add: untouched_def)

lemma untouched_drop_link [simp]: "untouched p (drop_link uid provider q) = untouched p q"
  by (simp add: drop_link_def)

lemma untouched_written:
  "untouched p p' \<Longrightarrow> (\<And>q. untouched p q \<Longrightarrow> untouched p (snd (k q))) \<Longrightarrow> untouched p (snd (written ok p' p k))"
  by (simp add: written_def)

lemma untouched_identities:
  "(\<And>q. untouched p q \<Longrightarrow> untouched p (snd (k q))) \<Longrightarrow> untouched p (snd (identities_written xs p k))"
  by (simp add: identities_written_def untouched_written)

lemma untouched_update_active [simp]: "untouched p (snd (update_active uid f p))"
  by (simp add: update_active_def Let_def untouched_written requireOneRow_def)

fun limiter_command :: "people_command \<Rightarrow> bool" where
  "limiter_command (DoReserve started req) = True"
| "limiter_command (DoRelease rid) = True"
| "limiter_command c = False"

lemma others_untouched:
  assumes "\<not> limiter_command c"
  shows "untouched p (run_people h now fresh c p)"
proof (cases c)
  case (DoConfirmLink uid provider token)
  have "untouched p (snd (ConfirmIdentityLink h now fresh uid provider token p))"
    by (auto simp: ConfirmIdentityLink_def Let_def untouched_identities split: sum.split option.split)
  then show ?thesis using DoConfirmLink by simp
next
  case (DoConsumeLink provider token ext chat name)
  have "untouched p (snd (ConsumeLinkToken h now fresh provider token ext chat name p))"
    by (auto simp: ConsumeLinkToken_def Let_def untouched_identities split: sum.split option.split)
  then show ?thesis using DoConsumeLink by simp
next
  case (DoConfirmCode uid code)
  have "untouched p (snd (ConfirmPhoneCode h now uid code p))"
    by (auto simp: ConfirmPhoneCode_def Let_def split: sum.split option.split)
  then show ?thesis using DoConfirmCode by simp
next
  case (DoConfirmDND uid sender)
  have "untouched p (snd (ConfirmDNDCheck now uid sender p))"
    by (auto simp: ConfirmDNDCheck_def Let_def split: sum.split option.split)
  then show ?thesis using DoConfirmDND by simp
qed (use assms in \<open>simp_all add: CreateUser_def UpdateUser_def UpdateUserPassword_def UpdateUserAuthProvider_def
  SetUserRole_def CreateTeam_def AddTeamMember_def CreateAPIToken_def UpdateAPITokenLastUsed_def DeleteAPIToken_def
  BindExternalIdentity_def BindExternalIdentityIfAbsent_def UnbindExternalIdentity_def IssueLinkToken_def
  SetPhoneContact_def DeletePhoneContact_def PinPhoneIntegration_def IssuePhoneCode_def Let_def
  untouched_written untouched_identities requireOneRow_def split: sum.split option.split\<close>)

lemma limited_cong: "untouched p p' \<Longrightarrow> limited scope cps most p' = limited scope cps most p"
  by (simp add: untouched_def limited_def asked_at_def busy_def paced_def account_calls_def next_free_def)


section \<open>A reservation\<close>

definition logged :: "int \<Rightarrow> call_request \<Rightarrow> call_log" where
  "logged now req = \<lparr>gUser = qUser req, gPurpose = qPurpose req, gTo = Some (qTo req), gFrom = qFrom req,
     gIntegration = qIntegration req, gCreatedAt = now\<rparr>"

definition reserved :: "int \<Rightarrow> string \<Rightarrow> call_request \<Rightarrow> reservation" where
  "reserved now fresh req = \<lparr>vID = fresh, vScope = qScope req, vPurpose = qPurpose req, vUser = Some (qUser req),
     vFrom = qFrom req, vCreatedAt = now, vHoldUntil = now + qHold req, vReleasedAt = None\<rparr>"

definition granted :: "int \<Rightarrow> string \<Rightarrow> call_request \<Rightarrow> people \<Rightarrow> people" where
  "granted now fresh req p = p\<lparr>pReservations := pReservations p @ [reserved now fresh req],
     pCapacity := upsert fst (qScope req, now + Phone.Second div qCPS req) (\<lambda>_. (qScope req, now + Phone.Second div qCPS req)) (pCapacity p),
     pCalls := pCalls p @ [logged now req]\<rparr>"

lemma over_quota_None:
  "over_quota req now p purpose width limit = None \<longleftrightarrow>
     length (filter (\<lambda>x. now - width < x) (asked_at (qUser req) purpose p)) < limit"
proof -
  have "length (asked_calls (qUser req) purpose (now - width) p) =
      length (filter (\<lambda>x. now - width < x) (asked_at (qUser req) purpose p))"
    unfolding asked_calls_def asked_at_def filter_map length_map filter_filter
    by (rule arg_cong [where f = length]) (rule filter_cong, auto)
  then show ?thesis by (simp add: over_quota_def Let_def not_le)
qed

lemma ReservePhoneCall_cases:
  obtains "snd (ReservePhoneCall started now fresh req p) = p"
  | free where "snd (ReservePhoneCall started now fresh req p) = granted now fresh req p"
      "1 \<le> qCPS req" "phoneAllowanceTx req now p = None" "accountCapacityTx req now free p = None"
      "free = (case next_free (qScope req) p of None \<Rightarrow> started | Some t \<Rightarrow> t)"
proof -
  let ?free = "case next_free (qScope req) p of None \<Rightarrow> started | Some t \<Rightarrow> t"
  have "snd (ReservePhoneCall started now fresh req p) = p \<or>
     (snd (ReservePhoneCall started now fresh req p) = granted now fresh req p \<and>
      1 \<le> qCPS req \<and> phoneAllowanceTx req now p = None \<and> accountCapacityTx req now ?free p = None)"
    unfolding ReservePhoneCall_def Let_def granted_def reserved_def logged_def written_def
    by (cases "phoneAllowanceTx req now p"; cases "accountCapacityTx req now ?free p")
      (simp_all del: distinct_map map_append)
  then show thesis using that by blast
qed

lemma allowance_None:
  assumes "phoneAllowanceTx req now p = None"
  shows "own_in_flight req now p = []"
    and "length (filter (\<lambda>x. now - 24 * Phone.Hour < x) (asked_at (qUser req) [] p)) < phoneCallsPerDay"
    and "qPurpose req = ''verify'' \<Longrightarrow>
      length (filter (\<lambda>x. now - Phone.Hour < x) (asked_at (qUser req) ''verify'' p)) < phoneVerifyCallsPerHour"
  using assms unfolding phoneAllowanceTx_def Let_def
  by (auto simp: over_quota_None [symmetric] split: if_splits option.splits)

lemma capacity_None:
  assumes "accountCapacityTx req now free p = None"
  shows "int (length (live_calls (qScope req) now p)) < qMaxConcurrent req" "free \<le> now"
  using assms unfolding accountCapacityTx_def Let_def by (auto split: if_splits)

lemma asked_at_granted:
  "asked_at uid purpose (granted now fresh req p) =
     asked_at uid purpose p @ (if qUser req = uid \<and> (purpose = [] \<or> qPurpose req = purpose) then [now] else [])"
  by (simp add: asked_at_def granted_def logged_def)

lemma granted_rationed:
  assumes "phoneAllowanceTx req now p = None"
  shows "rationed (24 * Phone.Hour) phoneCallsPerDay (asked_at uid [] p) \<Longrightarrow>
      rationed (24 * Phone.Hour) phoneCallsPerDay (asked_at uid [] (granted now fresh req p))"
    and "rationed Phone.Hour phoneVerifyCallsPerHour (asked_at uid ''verify'' p) \<Longrightarrow>
      rationed Phone.Hour phoneVerifyCallsPerHour (asked_at uid ''verify'' (granted now fresh req p))"
  using allowance_None [OF assms] by (auto simp: asked_at_granted intro!: rationed_append)

text \<open>What is alive at a later instant is alive now.\<close>

lemma busy_later:
  assumes "now \<le> t"
  shows "busy own t p \<le> length (filter (\<lambda>v. own v \<and> vReleasedAt v = None \<and> now < vHoldUntil v) (pReservations p))"
  unfolding busy_def by (rule length_filter_mono) (use assms in simp)

lemma busy_granted:
  "busy own t (granted now fresh req p) = busy own t p +
     (if own (reserved now fresh req) \<and> now \<le> t \<and> t < now + qHold req then 1 else 0)"
  by (simp add: busy_def granted_def reserved_def)

lemma granted_busy:
  assumes "busy own t p \<le> n"
    and "own (reserved now fresh req) \<Longrightarrow>
      length (filter (\<lambda>v. own v \<and> vReleasedAt v = None \<and> now < vHoldUntil v) (pReservations p)) < n"
  shows "busy own t (granted now fresh req p) \<le> n"
  using assms busy_later [of now t own p] by (force simp: busy_granted)

lemma map_of_upsert: "map_of (upsert fst (k, x) (\<lambda>_. (k, x)) cs) = (map_of cs)(k \<mapsto> x)"
proof -
  have "map_of (map (\<lambda>r. if fst r = k then (k, x) else r) cs) = (map_of cs)(k \<mapsto> x)" if "k \<in> fst ` set cs"
  proof -
    have "map_of (map (\<lambda>r. if fst r = k then (k, x) else r) cs) j = (if j = k then Some x else map_of cs j)" for j
      using that
    proof (induction cs)
      case (Cons c cs)
      show ?case
      proof (cases "k \<in> fst ` set cs")
        case True
        with Cons.IH show ?thesis by (cases c) auto
      next
        case False
        then have "map (\<lambda>r. if fst r = k then (k, x) else r) cs = cs" by (intro map_idI) force
        with Cons.prems False show ?thesis by (cases c) auto
      qed
    qed simp
    then show ?thesis by auto
  qed
  moreover have "map_of (cs @ [(k, x)]) = (map_of cs)(k \<mapsto> x)" if "k \<notin> fst ` set cs"
    using that map_of_eq_None_iff [of cs k] by (auto simp: fun_eq_iff map_add_def split: option.split)
  ultimately show ?thesis by (auto simp: upsert_def list_ex_iff)
qed

lemma next_free_granted:
  "next_free scope (granted now fresh req p) =
     (if scope = qScope req then Some (now + Phone.Second div qCPS req) else next_free scope p)"
  by (simp add: next_free_def granted_def map_of_upsert)

lemma account_calls_granted:
  "account_calls scope (granted now fresh req p) =
     account_calls scope p @ (if scope = qScope req then [now] else [])"
  by (auto simp: account_calls_def granted_def reserved_def on_account_def)

lemma granted_paced:
  assumes "paced scope gap p" "scope = qScope req \<Longrightarrow> gap \<le> Phone.Second div qCPS req"
    and "free = (case next_free (qScope req) p of None \<Rightarrow> started | Some t \<Rightarrow> t)" "free \<le> now" "0 \<le> gap"
  shows "paced scope gap (granted now fresh req p)"
proof (cases "scope = qScope req")
  case True
  have "x + gap \<le> now" if "x \<in> set (account_calls scope p)" for x
    using assms(1,3,4) that True by (force simp: paced_def)
  then have "spaced gap (account_calls scope p @ [now])"
    using assms(1) by (simp add: paced_def spaced_def sorted_wrt_append)
  moreover have "x + gap \<le> now + Phone.Second div qCPS req" if "x \<in> set (account_calls scope p) \<or> x = now" for x
    using that assms(2) [OF True] assms(5) \<open>\<And>x. x \<in> set (account_calls scope p) \<Longrightarrow> x + gap \<le> now\<close> by force
  ultimately show ?thesis using True assms(2) by (auto simp: paced_def account_calls_granted next_free_granted)
next
  case False
  then show ?thesis using assms(1) by (simp add: paced_def account_calls_granted next_free_granted)
qed


section \<open>What fades\<close>

text \<open>A reservation given back or of an erased person counts for no more than before.\<close>

definition fades :: "(reservation \<Rightarrow> reservation) \<Rightarrow> bool" where
  "fades f \<longleftrightarrow> (\<forall>v. vScope (f v) = vScope v \<and> vCreatedAt (f v) = vCreatedAt v \<and> vHoldUntil (f v) = vHoldUntil v \<and>
     vPurpose (f v) = vPurpose v \<and> (vReleasedAt (f v) = None \<longrightarrow> vReleasedAt v = None) \<and>
     (vUser (f v) \<noteq> None \<longrightarrow> vUser (f v) = vUser v))"

lemma fadesD:
  assumes "fades f"
  shows "vScope (f v) = vScope v" "vCreatedAt (f v) = vCreatedAt v" "vHoldUntil (f v) = vHoldUntil v"
    "vPurpose (f v) = vPurpose v" "vReleasedAt (f v) = None \<Longrightarrow> vReleasedAt v = None"
    "vUser (f v) = Some u \<Longrightarrow> vUser v = Some u"
  using assms by (auto simp: fades_def)

lemma fades_busy:
  assumes "fades f" "\<And>v. own (f v) \<Longrightarrow> own v" "pReservations p' = map f (pReservations p)"
  shows "busy own t p' \<le> busy own t p"
proof -
  have "length (filter (\<lambda>v. own v \<and> vReleasedAt v = None \<and> vCreatedAt v \<le> t \<and> t < vHoldUntil v) (map f vs)) \<le>
      length (filter (\<lambda>v. own v \<and> vReleasedAt v = None \<and> vCreatedAt v \<le> t \<and> t < vHoldUntil v) vs)" for vs
    unfolding filter_map length_map o_def
    by (rule length_filter_mono) (use assms(2) fadesD [OF assms(1)] in metis)
  then show ?thesis by (simp add: busy_def assms(3))
qed

lemma fades_limited:
  assumes "limited scope cps most p" "fades f" "pReservations p' = map f (pReservations p)"
    "\<And>uid purpose. asked_at uid purpose p' = asked_at uid purpose p" "pCapacity p' = pCapacity p"
  shows "limited scope cps most p'"
proof -
  note f = fadesD [OF assms(2)]
  have acc: "on_account scope (f v) = on_account scope v" for v by (simp add: f(1) on_account_def)
  then have "map vCreatedAt (filter (on_account scope) (map f vs)) = map vCreatedAt (filter (on_account scope) vs)" for vs
    by (induction vs) (simp_all add: f(2))
  then have "paced scope gap p' = paced scope gap p" for gap
    by (simp add: paced_def account_calls_def next_free_def assms(3,5))
  moreover have "code_call uid (f v) \<Longrightarrow> code_call uid v" for uid v
    unfolding code_call_def f(4) using f(6) by blast
  then have "busy (code_call uid) t p' \<le> busy (code_call uid) t p" for uid t
    by (rule fades_busy [OF assms(2) _ assms(3)])
  moreover have "busy (on_account scope) t p' \<le> busy (on_account scope) t p" for t
    by (rule fades_busy [OF assms(2) _ assms(3)]) (simp add: acc)
  ultimately show ?thesis using assms(1) unfolding limited_def assms(4)
    by (meson order_trans zle_int [THEN iffD2])
qed

lemma release_limited:
  assumes "limited scope cps most p"
  shows "limited scope cps most (snd (ReleasePhoneReservation now rid p))"
  by (rule fades_limited [OF assms, of "\<lambda>v. if vID v = rid \<and> vReleasedAt v = None then v\<lparr>vReleasedAt := Some now\<rparr> else v"])
    (simp_all add: ReleasePhoneReservation_def fades_def asked_at_def)

lemma wipe_limited:
  assumes "limited scope cps most p"
  shows "limited scope cps most (wipe_people uid at' p)"
proof (rule fades_limited [OF assms, of "\<lambda>v. if vUser v = Some uid then v\<lparr>vUser := None\<rparr> else v"])
  have "map gCreatedAt (filter (\<lambda>g. gUser g = u \<and> (c = [] \<or> gPurpose g = c)) (map (\<lambda>g. if gUser g = uid then g\<lparr>gTo := None\<rparr> else g) gs)) =
      map gCreatedAt (filter (\<lambda>g. gUser g = u \<and> (c = [] \<or> gPurpose g = c)) gs)" for u c gs
    by (induction gs) auto
  then show "asked_at u c (wipe_people uid at' p) = asked_at u c p" for u c
    by (simp add: asked_at_def wipe_people_def DeleteUserTeamMemberships_def DeleteUserPhoneData_def DeleteUserLinkTokens_def
      DeleteUserExternalIdentities_def DeleteUserAPITokens_def AnonymizeUser_def SetUserDeletedAt_def)
qed (simp_all add: fades_def wipe_people_def DeleteUserTeamMemberships_def DeleteUserPhoneData_def DeleteUserLinkTokens_def
      DeleteUserExternalIdentities_def DeleteUserAPITokens_def AnonymizeUser_def SetUserDeletedAt_def)

section \<open>Every history\<close>

text \<open>The requests made for an account stay within its configured rate and number of calls.\<close>

fun abides :: "string \<Rightarrow> int \<Rightarrow> int \<Rightarrow> people_command \<Rightarrow> bool" where
  "abides scope cps most (DoReserve started req) \<longleftrightarrow>
     (qScope req = scope \<longrightarrow> qCPS req \<le> cps \<and> qMaxConcurrent req \<le> most)"
| "abides scope cps most c \<longleftrightarrow> True"

inductive account_move :: "string \<Rightarrow> int \<Rightarrow> int \<Rightarrow> people \<Rightarrow> people \<Rightarrow> bool" for scope cps most where
  command: "abides scope cps most c \<Longrightarrow> account_move scope cps most p (run_people h now fresh c p)"
| erasure: "account_move scope cps most p (wipe_people uid at' p)"
| staffing: "account_move scope cps most p (p\<lparr>pMembers := ms, pTeams := tms\<rparr>)"

inductive_cases account_moveE: "account_move scope cps most p q"

lemma granted_limited:
  assumes "limited scope cps most p" "1 \<le> cps" "1 \<le> qCPS req" "abides scope cps most (DoReserve started req)"
    "phoneAllowanceTx req now p = None" "accountCapacityTx req now free p = None"
    "free = (case next_free (qScope req) p of None \<Rightarrow> started | Some t \<Rightarrow> t)"
  shows "limited scope cps most (granted now fresh req p)"
  unfolding limited_def
proof (intro conjI allI)
  note p = assms(1) [unfolded limited_def]
  show "rationed (24 * Phone.Hour) phoneCallsPerDay (asked_at uid [] (granted now fresh req p))"
    "rationed Phone.Hour phoneVerifyCallsPerHour (asked_at uid ''verify'' (granted now fresh req p))" for uid
    using granted_rationed [OF assms(5)] p by blast+
  show "busy (code_call uid) t (granted now fresh req p) \<le> 1" for uid t
  proof (rule granted_busy)
    assume "code_call uid (reserved now fresh req)"
    then have "qUser req = uid" "qPurpose req = ''verify''" by (simp_all add: code_call_def reserved_def)
    then have "filter (\<lambda>v. code_call uid v \<and> vReleasedAt v = None \<and> now < vHoldUntil v) (pReservations p) = []"
      using allowance_None(1) [OF assms(5)] by (auto simp: own_in_flight_def code_call_def filter_empty_conv)
    then show "length (filter (\<lambda>v. code_call uid v \<and> vReleasedAt v = None \<and> now < vHoldUntil v) (pReservations p)) < 1" by simp
  qed (use p in blast)
  show "int (busy (on_account scope) t (granted now fresh req p)) \<le> most" for t
  proof -
    have "busy (on_account scope) t (granted now fresh req p) \<le> nat most"
    proof (rule granted_busy)
      show "busy (on_account scope) t p \<le> nat most" using p nat_mono [of "int (busy (on_account scope) t p)" most] by (simp only: nat_int)
      assume "on_account scope (reserved now fresh req)"
      then have s: "qScope req = scope" by (simp add: on_account_def reserved_def)
      then have "int (length (live_calls scope now p)) < most"
        using capacity_None(1) [OF assms(6)] assms(4) by simp
      then show "length (filter (\<lambda>v. on_account scope v \<and> vReleasedAt v = None \<and> now < vHoldUntil v) (pReservations p)) < nat most"
        by (simp add: live_calls_def on_account_def)
    qed
    moreover have "int (busy (on_account scope) t p) \<le> most" using p by blast
    then have "0 \<le> most" using of_nat_0_le_iff order_trans by blast
    ultimately show ?thesis by (simp add: le_nat_iff)
  qed
  have gap: "0 \<le> Phone.Second div cps" using assms(2) by (simp add: Phone.Second_def pos_imp_zdiv_nonneg_iff)
  show "paced scope (Phone.Second div cps) (granted now fresh req p)"
  proof (rule granted_paced [OF _ _ assms(7) capacity_None(2) [OF assms(6)] gap])
    show "paced scope (Phone.Second div cps) p" using p by blast
    assume "scope = qScope req"
    then have "qCPS req \<le> cps" using assms(4) by simp
    then show "Phone.Second div cps \<le> Phone.Second div qCPS req" using assms(3) by (intro zdiv_mono2) (simp_all add: Phone.Second_def)
  qed
qed

lemma account_move_limited:
  assumes "account_move scope cps most p q" "1 \<le> cps" "limited scope cps most p"
  shows "limited scope cps most q"
  using assms(1)
proof cases
  case (command c h now fresh)
  show ?thesis
  proof (cases "limiter_command c")
    case True
    then consider started req where "c = DoReserve started req" | rid where "c = DoRelease rid"
      by (cases c) auto
    then show ?thesis
    proof cases
      case (1 started req)
      show ?thesis unfolding command(1) 1 run_people.simps
      proof (rule ReservePhoneCall_cases [of started now fresh req p])
        fix free
        assume "snd (ReservePhoneCall started now fresh req p) = granted now fresh req p" "1 \<le> qCPS req"
          "phoneAllowanceTx req now p = None" "accountCapacityTx req now free p = None"
          "free = (case next_free (qScope req) p of None \<Rightarrow> started | Some t \<Rightarrow> t)"
        then show "limited scope cps most (snd (ReservePhoneCall started now fresh req p))"
          using granted_limited [OF assms(3,2)] command(2) 1 by metis
      qed (use assms(3) in simp)
    next
      case (2 rid)
      then show ?thesis using release_limited [OF assms(3)] command(1) by simp
    qed
  next
    case False
    then show ?thesis using limited_cong [OF others_untouched] assms(3) command(1) by blast
  qed
next
  case (erasure uid at')
  then show ?thesis using wipe_limited [OF assms(3)] by simp
next
  case (staffing ms tms)
  have "untouched p q" by (simp add: staffing)
  then show ?thesis using limited_cong assms(3) by blast
qed

lemma histories_limited:
  assumes "(account_move scope cps most)\<^sup>*\<^sup>* p q" "1 \<le> cps" "limited scope cps most p"
  shows "limited scope cps most q"
  using assms(1) by (induction rule: rtranclp_induct) (use assms(2,3) account_move_limited in blast)+

lemma quiet_limited:
  assumes "pCalls p = []" "pReservations p = []" "0 \<le> most"
  shows "limited scope cps most p"
  using assms by (simp add: limited_def asked_at_def busy_def paced_def account_calls_def spaced_def)

text \<open>
  C34. The limits on phone calls hold: at every instant, nobody has asked for more than ten calls
  in the last day, three of them for codes in the last hour, nor has more than one code call in
  flight; and an account never has more calls alive than it allows, nor two of them closer than
  its rate - in whatever order commands and erasures come and whatever the clock does.
\<close>

theorem call_limits_hold:
  assumes "(account_move scope cps most)\<^sup>*\<^sup>* p q" "pCalls p = []" "pReservations p = []" "1 \<le> cps" "0 \<le> most"
  shows "in_window (24 * Phone.Hour) t (asked_at uid [] q) \<le> 10 \<and> in_window Phone.Hour t (asked_at uid ''verify'' q) \<le> 3 \<and>
    busy (code_call uid) t q \<le> 1 \<and> int (busy (on_account scope) t q) \<le> most \<and>
    sorted_wrt (\<lambda>a b. a + Phone.Second div cps \<le> b) (account_calls scope q)"
  using histories_limited [OF assms(1,4) quiet_limited [OF assms(2,3,5)]]
  by (simp add: limited_def rationed_def phoneCallsPerDay_def phoneVerifyCallsPerHour_def paced_def spaced_def)

definition carol :: people where
  "carol = \<lparr>pUsers = [\<lparr>uID = ''carol'', uEmail = Some ''c'', uName = ''Carol'', uRole = UserRoleUser,
       uPasswordHash = Some [], uAuthProvider = Some [], uCreatedAt = 0, uDeletedAt = None\<rparr>],
     pTeams = [], pMembers = [], pTokens = [], pIdentities = [], pLinks = [],
     pContacts = [\<lparr>nID = ''n'', nUser = ''carol'', nValue = ''+1'', nVerifiedAt = None, nPinned = None, nUpdatedAt = 0\<rparr>],
     pChecks = [], pCalls = [], pCapacity = [], pReservations = []\<rparr>"

definition code_please :: call_request where
  "code_please = \<lparr>qUser = ''carol'', qPurpose = ''verify'', qTo = ''+1'', qFrom = ''+9'', qIntegration = ''i'', qScope = ''acc'',
     qCPS = 1, qMaxConcurrent = 1, qHold = 60, qRequireVerified = False\<rparr>"

lemma carol_called: "run_people id 100 ''v'' (DoReserve 100 code_please) carol = granted 100 ''v'' code_please carol"
  by (simp add: ReservePhoneCall_def code_please_def carol_def activeUser_def is_active_def next_free_def GetPhoneContact_def
    phoneAllowanceTx_def own_in_flight_def over_quota_def asked_calls_def phoneVerifyCallsPerHour_def phoneCallsPerDay_def
    accountCapacityTx_def live_calls_def written_def granted_def reserved_def logged_def Phone.Second_def)

theorem call_limits_hold_witness:
  "busy (on_account ''acc'') 120 (granted 100 ''v'' code_please carol) = 1 \<and>
   int (busy (on_account ''acc'') 120 (granted 100 ''v'' code_please carol)) \<le> 1"
proof -
  have "account_move ''acc'' 1 1 carol (granted 100 ''v'' code_please carol)"
    unfolding carol_called [symmetric] by (rule account_move.command) (simp add: code_please_def)
  then have m: "(account_move ''acc'' 1 1)\<^sup>*\<^sup>* carol (granted 100 ''v'' code_please carol)" by (rule r_into_rtranclp)
  have "int (busy (on_account ''acc'') 120 (granted 100 ''v'' code_please carol)) \<le> 1"
    using call_limits_hold [OF m, of 120 "''carol''"] by (simp add: carol_def)
  then show ?thesis by (simp add: busy_def granted_def carol_def code_please_def reserved_def on_account_def)
qed

end
