(* ===== verification/Render.thy ===== *)
theory Render
  imports ScheduleConfig
begin

text \<open>
  Who was on duty over a range (\<open>internal/schedulerender\<close>: \<open>types.go\<close>, \<open>layer.go\<close>, \<open>slot.go\<close>,
  \<open>renderer.go\<close> and \<open>RenderRange\<close> of \<open>service.go\<close>).

  A view is the tables at one moment.  The texts of errors are left out, and with them the
  names of the revisions around a gap.
\<close>

section \<open>Data\<close>

definition SourceRotation :: string where "SourceRotation = ''rotation''"
definition SourceOverride :: string where "SourceOverride = ''override''"

record assignment =
  asRevision :: string
  asLayer :: string
  asSource :: string
  asGroup :: string
  asUsers :: "string list"
  asSlotStart :: int
  asSlotEnd :: int
  asStart :: int
  asEnd :: int
  asOverride :: string
  asOverrideRevision :: string

datatype warning = HistoryIncomplete int int | ScheduleInactive int int string

datatype render_error = EmptyRange int int | RevisionGap int int | RevisionsOverlap | OverrideCollision string int int "string list"
  | RotationFailed string string rotation_error | ReadFailed schedule_error

record interval =
  ivStart :: int
  ivEnd :: int

definition iv_empty :: "interval \<Rightarrow> bool" where
  "iv_empty i \<longleftrightarrow> \<not> ivStart i < ivEnd i"

definition iv_intersect :: "interval \<Rightarrow> interval \<Rightarrow> interval" where
  "iv_intersect i j = \<lparr>ivStart = (if ivStart i < ivStart j then ivStart j else ivStart i),
     ivEnd = (if ivEnd j < ivEnd i then ivEnd j else ivEnd i)\<rparr>"

text \<open>The last day of the year 9999.\<close>

definition endOfTime :: int where "endOfTime = 2932896 * 86400 * 1000000000"

definition revisionInterval :: "schedule_revision \<Rightarrow> interval" where
  "revisionInterval r = \<lparr>ivStart = rvFrom r, ivEnd = (case rvTo r of None \<Rightarrow> endOfTime | Some e \<Rightarrow> e)\<rparr>"

section \<open>A layer of a revision\<close>

record layer_state =
  stLayer :: string
  stSnapshot :: layer_snapshot
  stGrid :: grid_interface
  stActive :: bool

definition layer_of :: "string \<Rightarrow> schedule_snapshot \<Rightarrow> layer_snapshot" where
  "layer_of layer s = (if layer = LayerL2 then ssL2 s else ssL1 s)"

definition resolveLayer :: "externals \<Rightarrow> schedule_revision \<Rightarrow> string \<Rightarrow> render_error + layer_state" where
  "resolveLayer ext r layer =
     (let snapshot = layer_of layer (rvSnapshot r)
      in case NewGrid (eZones ext) (ssTimezone (rvSnapshot r)) (lyPolicy snapshot) of
           Inl e \<Rightarrow> Inl (RotationFailed (rvID r) layer e)
         | Inr grid \<Rightarrow> Inr \<lparr>stLayer = layer, stSnapshot = snapshot, stGrid = grid,
             stActive = (lyEnabled snapshot \<and> 0 < length (lyGroups snapshot))\<rparr>)"

definition groupAt :: "layer_state \<Rightarrow> int \<Rightarrow> rotation_group" where
  "groupAt s position = lyGroups (stSnapshot s) ! nat position"

definition nextPosition :: "layer_state \<Rightarrow> int \<Rightarrow> int" where
  "nextPosition s position =
     (if position + 1 = int (length (lyGroups (stSnapshot s))) then 0 else position + 1)"

definition overridesOfLayer :: "string \<Rightarrow> override_revision list \<Rightarrow> override_revision list" where
  "overridesOfLayer layer = filter (\<lambda>x. ovLayer x = layer)"

section \<open>A slot\<close>

record slot_input =
  siRevision :: string
  siLayer :: string
  siSlot :: slot
  siBound :: interval
  siBase :: "rotation_group option"
  siOverrides :: "override_revision list"

definition overridesForSlot :: "override_revision list \<Rightarrow> interval \<Rightarrow> override_revision list" where
  "overridesForSlot os bound = filter (\<lambda>x. ivStart bound < ovTo x \<and> ovFrom x < ivEnd bound) os"

definition inner_points :: "interval \<Rightarrow> override_revision \<Rightarrow> int list" where
  "inner_points bound x = filter (\<lambda>t. ivStart bound < t \<and> t < ivEnd bound) [ovFrom x, ovTo x]"

definition elementaryPoints :: "override_revision list \<Rightarrow> interval \<Rightarrow> int list" where
  "elementaryPoints os bound =
     remdups_adj (sort ([ivStart bound, ivEnd bound] @ concat (map (inner_points bound) os)))"

definition coveringAt :: "override_revision list \<Rightarrow> int \<Rightarrow> override_revision list" where
  "coveringAt os t = filter (\<lambda>x. ovFrom x \<le> t \<and> t < ovTo x) os"

definition sameAssignment :: "assignment \<Rightarrow> assignment \<Rightarrow> bool" where
  "sameAssignment a b \<longleftrightarrow> asLayer a = asLayer b \<and> asSource a = asSource b \<and> asGroup a = asGroup b \<and>
     asOverride a = asOverride b \<and> asOverrideRevision a = asOverrideRevision b \<and> asUsers a = asUsers b"

definition appendAssignment :: "assignment list \<Rightarrow> assignment \<Rightarrow> assignment list" where
  "appendAssignment out next =
     (if out \<noteq> [] \<and> asEnd (last out) = asStart next \<and> sameAssignment (last out) next
      then butlast out @ [(last out)\<lparr>asEnd := asEnd next\<rparr>]
      else out @ [next])"

definition override_assignment :: "slot_input \<Rightarrow> override_revision \<Rightarrow> int \<Rightarrow> int \<Rightarrow> assignment" where
  "override_assignment i winner from until' = \<lparr>asRevision = siRevision i, asLayer = siLayer i, asSource = SourceOverride,
     asGroup = ovOverrideID winner, asUsers = [ovUser winner], asSlotStart = slStart (siSlot i), asSlotEnd = slEnd (siSlot i),
     asStart = from, asEnd = until', asOverride = ovOverrideID winner, asOverrideRevision = ovRevisionID winner\<rparr>"

definition rotation_assignment :: "slot_input \<Rightarrow> rotation_group \<Rightarrow> int \<Rightarrow> int \<Rightarrow> assignment" where
  "rotation_assignment i g from until' = \<lparr>asRevision = siRevision i, asLayer = siLayer i, asSource = SourceRotation,
     asGroup = rgID g, asUsers = rgMembers g, asSlotStart = slStart (siSlot i), asSlotEnd = slEnd (siSlot i),
     asStart = from, asEnd = until', asOverride = [], asOverrideRevision = []\<rparr>"

fun render_spans :: "slot_input \<Rightarrow> override_revision list \<Rightarrow> int list \<Rightarrow> assignment list \<Rightarrow> render_error + assignment list" where
  "render_spans i covering (p # q # ps) out =
     (if \<not> p < q then render_spans i covering (q # ps) out
      else case coveringAt covering p of
        [] \<Rightarrow> render_spans i covering (q # ps)
                (case siBase i of None \<Rightarrow> out | Some g \<Rightarrow> appendAssignment out (rotation_assignment i g p q))
      | [winner] \<Rightarrow> render_spans i covering (q # ps) (appendAssignment out (override_assignment i winner p q))
      | active \<Rightarrow> Inl (OverrideCollision (siLayer i) p q (sort (map ovOverrideID active))))"
| "render_spans i covering ps out = Inr out"

definition renderSlot :: "slot_input \<Rightarrow> render_error + assignment list" where
  "renderSlot i =
     (if iv_empty (siBound i) then Inr []
      else let covering = overridesForSlot (siOverrides i) (siBound i)
      in render_spans i covering (elementaryPoints covering (siBound i)) [])"

section \<open>A range\<close>

fun render_slots :: "schedule_revision \<Rightarrow> layer_state \<Rightarrow> interval \<Rightarrow> override_revision list \<Rightarrow> int \<Rightarrow> slot list
    \<Rightarrow> render_error + assignment list" where
  "render_slots r s bound os position [] = Inr []"
| "render_slots r s bound os position (slot # slots) =
     then_ok (renderSlot \<lparr>siRevision = rvID r, siLayer = stLayer s, siSlot = slot,
         siBound = iv_intersect \<lparr>ivStart = slStart slot, ivEnd = slEnd slot\<rparr> bound,
         siBase = (if stActive s then Some (groupAt s position) else None), siOverrides = os\<rparr>) (\<lambda>as.
     then_ok (render_slots r s bound os (if stActive s then nextPosition s position else position) slots) (\<lambda>out.
     Inr (as @ out)))"

definition renderLayer :: "externals \<Rightarrow> schedule_revision \<Rightarrow> string \<Rightarrow> interval \<Rightarrow> override_revision list
    \<Rightarrow> render_error + assignment list" where
  "renderLayer ext r layer bound overrides =
     then_ok (resolveLayer ext r layer) (\<lambda>s.
     let os = overridesOfLayer layer overrides
     in if \<not> stActive s \<and> os = [] then Inr []
        else let slots = SlotsOverlapping (stGrid s) (ivStart bound) (ivEnd bound)
        in case slots of
             [] \<Rightarrow> Inr []
           | first # _ \<Rightarrow>
               if stActive s
               then (case PositionAt (stGrid s) (stSnapshot s) (slStart first) of
                       Inl e \<Rightarrow> Inl (RotationFailed (rvID r) layer e)
                     | Inr (position, _) \<Rightarrow> render_slots r s bound os position slots)
               else render_slots r s bound os 0 slots)"

record range_result =
  reFrom :: int
  reUntil :: int
  reAssignments :: "assignment list"
  reHistoryComplete :: bool
  reHistoryFrom :: int
  reDeletedAt :: "int option"
  reWarnings :: "warning list"

definition cov_gap :: "interval \<Rightarrow> int \<Rightarrow> int \<Rightarrow> render_error + unit" where
  "cov_gap query from until' =
     (let gap = iv_intersect \<lparr>ivStart = from, ivEnd = until'\<rparr> query
      in if iv_empty gap then Inr () else Inl (RevisionGap (ivStart gap) (ivEnd gap)))"

definition advance :: "interval \<Rightarrow> int \<Rightarrow> interval \<Rightarrow> render_error + interval \<times> int" where
  "advance query cursor rvr =
     (let done' = (\<lambda>x. (x, if cursor < ivEnd x then ivEnd x else cursor))
      in if cursor < ivStart rvr then then_ok (cov_gap query cursor (ivStart rvr)) (\<lambda>_. Inr (done' rvr))
         else if ivStart rvr < cursor then
           (if \<not> iv_empty (iv_intersect \<lparr>ivStart = ivStart rvr, ivEnd = min cursor (ivEnd rvr)\<rparr> query)
            then Inl RevisionsOverlap
            else Inr (done' (rvr\<lparr>ivStart := cursor\<rparr>)))
         else Inr (done' rvr))"

fun render_revisions :: "externals \<Rightarrow> interval \<Rightarrow> override_revision list \<Rightarrow> int \<Rightarrow> schedule_revision list
    \<Rightarrow> render_error + warning list \<times> assignment list" where
  "render_revisions ext query overrides cursor [] =
     then_ok (cov_gap query cursor (ivEnd query)) (\<lambda>_. Inr ([], []))"
| "render_revisions ext query overrides cursor (r # rs) =
     then_ok (advance query cursor (revisionInterval r)) (\<lambda>(rvr, cursor').
     let bound = iv_intersect rvr query
     in if iv_empty bound then render_revisions ext query overrides cursor' rs
        else if rvKind r = RevisionDeleted then
          then_ok (render_revisions ext query overrides cursor' rs) (\<lambda>(ws, as).
          Inr (ScheduleInactive (ivStart bound) (ivEnd bound) (rvID r) # ws, as))
        else
          then_ok (renderLayer ext r LayerL1 bound overrides) (\<lambda>l1.
          then_ok (renderLayer ext r LayerL2 bound overrides) (\<lambda>l2.
          then_ok (render_revisions ext query overrides cursor' rs) (\<lambda>(ws, as).
          Inr (ws, l1 @ l2 @ as)))))"

definition Render :: "externals \<Rightarrow> schedule_root \<Rightarrow> schedule_revision list \<Rightarrow> override_revision list \<Rightarrow> int \<Rightarrow> int
    \<Rightarrow> render_error + range_result" where
  "Render ext root revisions overrides from0 until0 =
     (let from = NormalizeTimestamp from0; until' = NormalizeTimestamp until0; hcf = rtHistoryFrom root
      in if \<not> from < until' then Inl (EmptyRange from0 until0)
         else then_ok (render_revisions ext \<lparr>ivStart = from, ivEnd = until'\<rparr> overrides (max from hcf)
                (sort_key (\<lambda>r. (rvFrom r, rvVersion r)) revisions)) (\<lambda>(ws, as).
         Inr \<lparr>reFrom = from, reUntil = until',
              reAssignments = sort_key (\<lambda>a. (asLayer a, asStart a)) as,
              reHistoryComplete = (\<not> from < hcf), reHistoryFrom = hcf, reDeletedAt = rtDeletedAt root,
              reWarnings = (if from < hcf then [HistoryIncomplete from (min until' hcf)] else []) @ ws\<rparr>))"

text \<open>Two revisions in force at one instant is damage, whoever finds it.\<close>

definition read_failed :: "schedule_error \<Rightarrow> render_error" where
  "read_failed e = (if e = ErrRevisionOverlap then RevisionsOverlap else ReadFailed e)"

definition RenderRange :: "externals \<Rightarrow> string \<Rightarrow> int \<Rightarrow> int \<Rightarrow> office \<Rightarrow> render_error + range_result" where
  "RenderRange ext sid from0 until0 f =
     (let from = NormalizeTimestamp from0; until' = NormalizeTimestamp until0
      in case GetScheduleRoot sid f of
           Inl e \<Rightarrow> Inl (read_failed e)
         | Inr root \<Rightarrow>
             (case ReadRevisionsInRange ext sid from until' f of
                Inl e \<Rightarrow> Inl (read_failed e)
              | Inr revisions \<Rightarrow> Render ext root revisions
                  (GetOverrideProjectionInRange sid (Some from) (Some until') f) from until'))"

section \<open>What a list of assignments says\<close>

type_synonym duty_row = "string \<times> string \<times> string \<times> string list \<times> string \<times> string"

definition duty :: "assignment \<Rightarrow> duty_row" where
  "duty a = (asLayer a, asSource a, asGroup a, asUsers a, asOverride a, asOverrideRevision a)"

definition on_at :: "int \<Rightarrow> assignment \<Rightarrow> bool" where
  "on_at t a \<longleftrightarrow> asStart a \<le> t \<and> t < asEnd a"

definition duties :: "int \<Rightarrow> assignment list \<Rightarrow> duty_row list" where
  "duties t as = map duty (filter (on_at t) as)"

definition proper :: "assignment list \<Rightarrow> bool" where
  "proper as \<longleftrightarrow> (\<forall>a \<in> set as. asStart a < asEnd a)"

lemma duties_simps [simp]:
  "duties t [] = []" "duties t (as @ bs) = duties t as @ duties t bs"
  "duties t (a # as) = (if on_at t a then duty a # duties t as else duties t as)"
  by (simp_all add: duties_def)

lemma proper_simps [simp]:
  "proper []" "proper (as @ bs) \<longleftrightarrow> proper as \<and> proper bs" "proper (a # as) \<longleftrightarrow> asStart a < asEnd a \<and> proper as"
  by (auto simp: proper_def)

lemma sameAssignment_duty: "sameAssignment a b \<longleftrightarrow> duty a = duty b"
  by (auto simp: sameAssignment_def duty_def)

lemma appendAssignment_says:
  assumes "proper out" "asStart a < asEnd a"
  shows "proper (appendAssignment out a)" "duties t (appendAssignment out a) = duties t out @ duties t [a]"
proof -
  have "proper (appendAssignment out a) \<and> duties t (appendAssignment out a) = duties t out @ duties t [a]"
  proof (cases "out \<noteq> [] \<and> asEnd (last out) = asStart a \<and> sameAssignment (last out) a")
    case True
    then obtain os b where out: "out = os @ [b]" by (metis append_butlast_last_id)
    with True have b: "asEnd b = asStart a" "duty b = duty a" by (simp_all add: sameAssignment_duty)
    have "duty (b\<lparr>asEnd := asEnd a\<rparr>) = duty a" using b(2) by (simp add: duty_def)
    moreover have "asStart b < asEnd b" using assms(1) out by simp
    ultimately show ?thesis using assms b unfolding appendAssignment_def out by (auto simp: on_at_def)
  next
    case False
    then show ?thesis using assms by (auto simp: appendAssignment_def)
  qed
  then show "proper (appendAssignment out a)" "duties t (appendAssignment out a) = duties t out @ duties t [a]" by simp_all
qed

text \<open>Who is on duty at an instant of a slot: the override, or else the group.\<close>

definition slot_duty :: "string \<Rightarrow> rotation_group option \<Rightarrow> override_revision list \<Rightarrow> int \<Rightarrow> duty_row list" where
  "slot_duty layer base os t = (case coveringAt os t of
     [] \<Rightarrow> (case base of None \<Rightarrow> [] | Some g \<Rightarrow> [(layer, SourceRotation, rgID g, rgMembers g, [], [])])
   | r # _ \<Rightarrow> [(layer, SourceOverride, ovOverrideID r, [ovUser r], ovOverrideID r, ovRevisionID r)])"

section \<open>A slot is rendered point by point\<close>

definition breaks :: "override_revision list \<Rightarrow> int set" where
  "breaks os = ovFrom ` set os \<union> ovTo ` set os"

lemma coveringAt_constant:
  assumes "p \<le> t" "t < q" "\<forall>b \<in> breaks os. b \<le> p \<or> q \<le> b"
  shows "coveringAt os t = coveringAt os p"
  unfolding coveringAt_def
proof (rule filter_cong [OF refl])
  fix r assume "r \<in> set os"
  then have "ovFrom r \<le> p \<or> q \<le> ovFrom r" "ovTo r \<le> p \<or> q \<le> ovTo r" using assms(3) by (auto simp: breaks_def)
  with assms(1,2) show "(ovFrom r \<le> t \<and> t < ovTo r) = (ovFrom r \<le> p \<and> p < ovTo r)" by linarith
qed

lemma span_duties:
  "duties t [override_assignment i r p q] =
     (if p \<le> t \<and> t < q then [(siLayer i, SourceOverride, ovOverrideID r, [ovUser r], ovOverrideID r, ovRevisionID r)] else [])"
  "duties t [rotation_assignment i g p q] =
     (if p \<le> t \<and> t < q then [(siLayer i, SourceRotation, rgID g, rgMembers g, [], [])] else [])"
  by (simp_all add: override_assignment_def rotation_assignment_def on_at_def duty_def)

lemma span_times [simp]:
  "asStart (override_assignment i r p q) = p" "asEnd (override_assignment i r p q) = q"
  "asStart (rotation_assignment i g p q) = p" "asEnd (rotation_assignment i g p q) = q"
  by (simp_all add: override_assignment_def rotation_assignment_def)

lemma render_spans_says:
  assumes "render_spans i os ps out = Inr res" "proper out" "ps \<noteq> []" "sorted_wrt (<) ps"
    "\<forall>b \<in> breaks os. b \<le> hd ps \<or> last ps \<le> b \<or> b \<in> set ps"
  shows "proper res \<and> (\<forall>t. duties t res = duties t out @
     (if hd ps \<le> t \<and> t < last ps then slot_duty (siLayer i) (siBase i) os t else []))"
  using assms
proof (induction i os ps out rule: render_spans.induct)
  case (1 i os p q ps out)
  have less: "p < q" "\<forall>x \<in> set ps. q < x" using 1(7) by auto
  have le: "q \<le> last (q # ps)" using less(2) by (cases ps) (auto intro: less_imp_le)
  have br: "\<forall>b \<in> breaks os. b \<le> p \<or> q \<le> b" using 1(8) less le by fastforce
  have br': "\<forall>b \<in> breaks os. b \<le> hd (q # ps) \<or> last (q # ps) \<le> b \<or> b \<in> set (q # ps)" using 1(8) less by fastforce
  have con: "coveringAt os t = coveringAt os p" if "p \<le> t" "t < q" for t by (rule coveringAt_constant [OF that br])
  have next': ?case
    if r: "render_spans i os (q # ps) out' = Inr res" and pr: "proper out'"
      and d: "\<And>t. duties t out' = duties t out @ (if p \<le> t \<and> t < q then slot_duty (siLayer i) (siBase i) os p else [])"
      and IH: "proper res \<and> (\<forall>t. duties t res = duties t out' @
        (if hd (q # ps) \<le> t \<and> t < last (q # ps) then slot_duty (siLayer i) (siBase i) os t else []))" for out'
  proof -
    have "slot_duty (siLayer i) (siBase i) os t = slot_duty (siLayer i) (siBase i) os p" if "p \<le> t" "t < q" for t
      unfolding slot_duty_def con [OF that] ..
    note same = this
    have "duties t res = duties t out @ (if p \<le> t \<and> t < last (q # ps) then slot_duty (siLayer i) (siBase i) os t else [])" for t
    proof -
      have e: "duties t res = duties t out' @ (if q \<le> t \<and> t < last (q # ps) then slot_duty (siLayer i) (siBase i) os t else [])"
        using conjunct2 [OF IH] unfolding list.sel by blast
      consider "t < p" | "p \<le> t" "t < q" | "q \<le> t" by linarith
      then show ?thesis
      proof cases
        case 2
        moreover have "t < last (q # ps)" using 2(2) le by linarith
        ultimately show ?thesis unfolding e d same [OF 2] by simp
      qed (use less(1) in \<open>simp_all add: e d\<close>)
    qed
    then show ?thesis using conjunct1 [OF IH] by simp
  qed
  have sp: "sorted_wrt (<) (q # ps)" using 1(7) by simp
  show ?case
  proof (cases "coveringAt os p")
    case Nil
    let ?out = "case siBase i of None \<Rightarrow> out | Some g \<Rightarrow> appendAssignment out (rotation_assignment i g p q)"
    have r: "render_spans i os (q # ps) ?out = Inr res" using 1(4) less(1) Nil by simp
    have pr: "proper ?out" using appendAssignment_says(1) [OF 1(5)] less(1) 1(5) by (simp split: option.split)
    have d: "duties t ?out = duties t out @ (if p \<le> t \<and> t < q then slot_duty (siLayer i) (siBase i) os p else [])" for t
      using appendAssignment_says(2) [OF 1(5)] less(1) Nil by (simp add: slot_duty_def span_duties del: duties_simps(3) split: option.split)
    show ?thesis by (rule next' [OF r pr d 1(2) [OF _ Nil r pr _ sp br']]) (use less(1) in simp_all)
  next
    case (Cons w ws)
    show ?thesis
    proof (cases ws)
      case Nil
      let ?out = "appendAssignment out (override_assignment i w p q)"
      have r: "render_spans i os (q # ps) ?out = Inr res" using 1(4) less(1) Cons Nil by simp
      have pr: "proper ?out" using appendAssignment_says(1) [OF 1(5)] less(1) by simp
      have d: "duties t ?out = duties t out @ (if p \<le> t \<and> t < q then slot_duty (siLayer i) (siBase i) os p else [])" for t
        using appendAssignment_says(2) [OF 1(5)] less(1) Cons Nil by (simp add: slot_duty_def span_duties del: duties_simps(3))
      show ?thesis by (rule next' [OF r pr d 1(3) [OF _ Cons Nil r pr _ sp br']]) (use less(1) in simp_all)
    next
      case (Cons w' ws')
      with \<open>coveringAt os p = w # ws\<close> 1(4) less(1) show ?thesis by simp
    qed
  qed
qed auto

lemma render_spans_succeeds:
  assumes "\<And>t. length (coveringAt os t) \<le> 1"
  shows "succeeds (render_spans i os ps out)"
proof -
  have "(\<forall>t. length (coveringAt os t) \<le> 1) \<Longrightarrow> succeeds (render_spans i os ps out)"
  proof (induction i os ps out rule: render_spans.induct)
    case (1 i os p q ps out)
    have "length (coveringAt os p) \<le> 1" using 1(4) by blast
    then show ?case using 1 by (cases "coveringAt os p") (auto split: list.split)
  qed simp_all
  with assms show ?thesis by blast
qed

lemma sorted_remdups_adj_strict: "sorted xs \<Longrightarrow> sorted_wrt (<) (remdups_adj xs)" for xs :: "'a :: linorder list"
proof (induction xs rule: remdups_adj.induct)
  case (3 x y xs)
  then show ?case by (auto intro: order.strict_trans1 le_neq_trans)
qed simp_all

lemma hd_least: "sorted xs \<Longrightarrow> a \<in> set xs \<Longrightarrow> \<forall>x \<in> set xs. a \<le> x \<Longrightarrow> hd xs = a" for a :: "'a :: linorder"
  by (cases xs) (auto intro: antisym)

lemma last_greatest: "sorted xs \<Longrightarrow> a \<in> set xs \<Longrightarrow> \<forall>x \<in> set xs. x \<le> a \<Longrightarrow> last xs = a" for a :: "'a :: linorder"
proof (cases xs rule: rev_cases)
  case (snoc ys y)
  assume "sorted xs" "a \<in> set xs" "\<forall>x \<in> set xs. x \<le> a"
  with snoc show ?thesis by (auto simp: sorted_append intro: antisym)
qed simp

lemma elementaryPoints_facts:
  assumes "ivStart b < ivEnd b"
  shows "sorted_wrt (<) (elementaryPoints os b)" "elementaryPoints os b \<noteq> []"
    "hd (elementaryPoints os b) = ivStart b" "last (elementaryPoints os b) = ivEnd b"
    "\<forall>x \<in> breaks os. x \<le> ivStart b \<or> ivEnd b \<le> x \<or> x \<in> set (elementaryPoints os b)"
proof -
  let ?xs = "sort ([ivStart b, ivEnd b] @ concat (map (inner_points b) os))"
  have set: "set (elementaryPoints os b) = {ivStart b, ivEnd b} \<union> (\<Union>r \<in> set os. set (inner_points b r))"
    unfolding elementaryPoints_def remdups_adj_set set_sort by auto
  show st: "sorted_wrt (<) (elementaryPoints os b)"
    unfolding elementaryPoints_def by (rule sorted_remdups_adj_strict) (rule sorted_sort)
  then have so: "sorted (elementaryPoints os b)" by (rule strict_sorted_imp_sorted)
  have inner: "ivStart b < x \<and> x < ivEnd b" if "x \<in> set (inner_points b r)" for x r
    using that by (simp add: inner_points_def split: if_splits) auto
  have m: "ivStart b \<in> set (elementaryPoints os b)" "ivEnd b \<in> set (elementaryPoints os b)" by (simp_all add: set)
  then show "elementaryPoints os b \<noteq> []" by auto
  show "hd (elementaryPoints os b) = ivStart b"
    by (rule hd_least [OF so m(1)]) (use inner assms set in \<open>auto intro: less_imp_le\<close>)
  show "last (elementaryPoints os b) = ivEnd b"
    by (rule last_greatest [OF so m(2)]) (use inner assms set in \<open>auto intro: less_imp_le\<close>)
  show "\<forall>x \<in> breaks os. x \<le> ivStart b \<or> ivEnd b \<le> x \<or> x \<in> set (elementaryPoints os b)"
    unfolding set breaks_def inner_points_def by fastforce
qed

lemma coveringAt_for_slot:
  "ivStart b \<le> t \<Longrightarrow> t < ivEnd b \<Longrightarrow> coveringAt (overridesForSlot os b) t = coveringAt os t"
  unfolding coveringAt_def overridesForSlot_def filter_filter by (rule filter_cong) auto

lemma renderSlot_says:
  assumes "renderSlot i = Inr res"
  shows "proper res" "duties t res = (if ivStart (siBound i) \<le> t \<and> t < ivEnd (siBound i)
    then slot_duty (siLayer i) (siBase i) (siOverrides i) t else [])"
proof -
  let ?b = "siBound i"
  let ?os = "overridesForSlot (siOverrides i) ?b"
  have "proper res \<and> duties t res = (if ivStart ?b \<le> t \<and> t < ivEnd ?b
      then slot_duty (siLayer i) (siBase i) (siOverrides i) t else [])"
  proof (cases "iv_empty ?b")
    case True
    then show ?thesis using assms by (auto simp: renderSlot_def iv_empty_def)
  next
    case False
    then have b: "ivStart ?b < ivEnd ?b" by (simp add: iv_empty_def)
    note f = elementaryPoints_facts [OF b, of ?os]
    have "render_spans i ?os (elementaryPoints ?os ?b) [] = Inr res" using assms False by (simp add: renderSlot_def Let_def)
    from render_spans_says [OF this _ f(2,1)] f(3-5) have "proper res" "duties t res =
        (if ivStart ?b \<le> t \<and> t < ivEnd ?b then slot_duty (siLayer i) (siBase i) ?os t else [])" by simp_all
    then show ?thesis using coveringAt_for_slot [of ?b t "siOverrides i"] by (simp add: slot_duty_def)
  qed
  then show "proper res" "duties t res = (if ivStart ?b \<le> t \<and> t < ivEnd ?b
      then slot_duty (siLayer i) (siBase i) (siOverrides i) t else [])" by simp_all
qed

lemma length_filter_filter: "length (filter P (filter Q xs)) \<le> length (filter P xs)"
  by (induction xs) auto

lemma renderSlot_succeeds:
  assumes "\<And>t. length (coveringAt (siOverrides i) t) \<le> 1"
  shows "succeeds (renderSlot i)"
proof -
  have "length (coveringAt (overridesForSlot (siOverrides i) (siBound i)) t) \<le> 1" for t
    using length_filter_filter [of "\<lambda>x. ovFrom x \<le> t \<and> t < ovTo x"] assms [of t] unfolding coveringAt_def overridesForSlot_def
    by (rule le_trans)
  then show ?thesis by (simp add: renderSlot_def Let_def render_spans_succeeds)
qed

end
