(* ===== verification/Tiles.thy ===== *)
theory Tiles
  imports Render Covers
begin

text \<open>
  A layer and a range are rendered point by point: at every instant of the range the list of
  assignments says what the revision in force, its grid and the overrides say of that instant.
\<close>

section \<open>The slots of a range\<close>

fun tiled :: "grid_interface \<Rightarrow> int \<Rightarrow> int \<Rightarrow> Grid.slot list \<Rightarrow> bool" where
  "tiled g a u [] \<longleftrightarrow> u \<le> a"
| "tiled g a u (sl # ss) \<longleftrightarrow> a < u \<and> sl = SlotContaining g a \<and> slStart sl = a \<and> tiled g (slEnd sl) u ss"

lemma collect_slots_tiled:
  assumes "adjacent g start finis"
  shows "tiled (methods g) (cInstant start) u (collect_slots g start finis u)"
  using assms
proof (induction g start finis u rule: collect_slots.induct)
  case (1 g start finis u)
  show ?case
  proof (cases "cInstant start < u")
    case True
    have on: "on_boundary g start" "on_boundary g finis" using 1(2) by (simp_all add: adjacent_def)
    have slot: "grid_SlotContaining g (cInstant start) = \<lparr>slStart = cInstant start, slEnd = cInstant finis\<rparr>"
      using 1(2) by (intro slot_unique on_boundary_in [OF on(1)] on_boundary_in [OF on(2)]) (simp_all add: adjacent_def)
    show ?thesis using 1(1) [OF True nextAfter_adjacent [OF on(2)]] True slot
      by (simp add: collect_slots.simps [of g start] methods_def)
  next
    case False
    then show ?thesis by (simp add: collect_slots.simps [of g start])
  qed
qed

lemma SlotsOverlapping_tiled:
  assumes "a < u"
  shows "tiled (methods g) (slStart (SlotContaining (methods g) a)) u (SlotsOverlapping (methods g) a u)"
proof -
  obtain start finis where f: "slotContaining g a = (start, finis)" "adjacent g start finis"
    using slotContaining_adjacent by blast
  then show ?thesis using collect_slots_tiled [OF f(2), of u] assms
    by (simp add: methods_def grid_SlotsOverlapping_def grid_SlotContaining_def)
qed

text \<open>The interface as the calendar needs it: the slots of a range follow one another.\<close>

locale tiling_grid = handoff_grid +
  assumes overlapping_tiled: "a < u \<Longrightarrow> tiled g (slStart (SlotContaining g a)) u (SlotsOverlapping g a u)"
begin

definition base_of :: "layer_state \<Rightarrow> int \<Rightarrow> rotation_group option" where
  "base_of s t = (if stActive s then (case PositionAt g (stSnapshot s) t of
     Inl _ \<Rightarrow> None | Inr (k, _) \<Rightarrow> Some (groupAt s k)) else None)"

lemma nextPosition_mod:
  assumes "0 \<le> k" "k < int (length (lyGroups (stSnapshot s)))"
  shows "nextPosition s k = (k + 1) mod int (length (lyGroups (stSnapshot s)))"
  using assms by (simp add: nextPosition_def)

lemma render_slots_says:
  assumes "render_slots r s bound os k slots = Inr res" "tiled g a u slots" "ivEnd bound \<le> u"
    "stActive s \<Longrightarrow> in_phase g (stSnapshot s) anchor p \<and> PositionAt g (stSnapshot s) a = Inr (k, SlotContaining g a)"
  shows "proper res \<and> (\<forall>t. duties t res = (if a \<le> t \<and> ivStart bound \<le> t \<and> t < ivEnd bound
     then slot_duty (stLayer s) (base_of s t) os t else []))"
  using assms
proof (induction slots arbitrary: a k res)
  case (Cons sl slots)
  let ?i = "\<lparr>siRevision = rvID r, siLayer = stLayer s, siSlot = sl,
         siBound = iv_intersect \<lparr>ivStart = slStart sl, ivEnd = slEnd sl\<rparr> bound,
         siBase = (if stActive s then Some (groupAt s k) else None), siOverrides = os\<rparr>"
  obtain as out where r: "renderSlot ?i = Inr as"
    "render_slots r s bound os (if stActive s then nextPosition s k else k) slots = Inr out" "res = as @ out"
    using Cons.prems(1) by auto
  have sl: "a < u" "sl = SlotContaining g a" "slStart sl = a" "tiled g (slEnd sl) u slots"
    using Cons.prems(2) unfolding tiled.simps by blast+
  have e: "a < slEnd sl" using slot_around(2) [of a] sl(2) by simp
  have "PositionAt g (stSnapshot s) (slEnd sl) = Inr ((if stActive s then nextPosition s k else k), SlotContaining g (slEnd sl))"
    if "stActive s"
  proof -
    have ph: "in_phase g (stSnapshot s) anchor p" and k: "PositionAt g (stSnapshot s) a = Inr (k, SlotContaining g a)"
      using Cons.prems(4) [OF that] by auto
    have "0 \<le> k" "k < int (length (lyGroups (stSnapshot s)))" using position_total [OF ph, of a] k by auto
    then show ?thesis using position_next [OF ph k] that sl(2) by (simp add: nextPosition_mod)
  qed
  then have IH: "proper out" "duties t out = (if slEnd sl \<le> t \<and> ivStart bound \<le> t \<and> t < ivEnd bound
     then slot_duty (stLayer s) (base_of s t) os t else [])" for t
    using Cons.IH [OF r(2) sl(4) Cons.prems(3)] Cons.prems(4) by auto
  have base: "base_of s t = (if stActive s then Some (groupAt s k) else None)" if "a \<le> t" "t < slEnd sl" for t
  proof (cases "stActive s")
    case True
    then have ph: "in_phase g (stSnapshot s) anchor p" and k: "PositionAt g (stSnapshot s) a = Inr (k, SlotContaining g a)"
      using Cons.prems(4) by auto
    have "PositionAt g (stSnapshot s) t = PositionAt g (stSnapshot s) a"
      by (rule position_same [OF ph]) (use sl that in simp_all)
    then show ?thesis using True k by (simp add: base_of_def)
  qed (simp add: base_of_def)
  have as: "proper as" "duties t as = (if a \<le> t \<and> t < slEnd sl \<and> ivStart bound \<le> t \<and> t < ivEnd bound
      then slot_duty (stLayer s) (base_of s t) os t else [])" for t
    using renderSlot_says(1) [OF r(1)] renderSlot_says(2) [OF r(1), of t] base [of t] by (auto simp: iv_intersect_def sl(3) split: if_splits)
  show ?case unfolding r(3) using IH as e by auto
qed auto

lemma first_slot:
  assumes "a < u"
  obtains ss where "SlotsOverlapping g a u = SlotContaining g a # ss"
proof -
  let ?a = "slStart (SlotContaining g a)"
  have "?a < u" using slot_around(1) [of a] assms by simp
  moreover have "SlotContaining g ?a = SlotContaining g a"
    using slot_same [of a ?a] slot_around [of a] by simp
  ultimately show thesis using overlapping_tiled [OF assms] that by (cases "SlotsOverlapping g a u") auto
qed

end

interpretation drawn: tiling_grid "methods g" for g
  by unfold_locales (rule SlotsOverlapping_tiled)

lemma render_slots_succeeds:
  assumes "\<And>t. length (coveringAt os t) \<le> 1"
  shows "succeeds (render_slots r s bound os k slots)"
proof (induction slots arbitrary: k)
  case (Cons sl slots)
  let ?i = "\<lparr>siRevision = rvID r, siLayer = stLayer s, siSlot = sl,
         siBound = iv_intersect \<lparr>ivStart = slStart sl, ivEnd = slEnd sl\<rparr> bound,
         siBase = (if stActive s then Some (groupAt s k) else None), siOverrides = os\<rparr>"
  have "succeeds (renderSlot ?i)" by (rule renderSlot_succeeds) (use assms in simp)
  then obtain as where "renderSlot ?i = Inr as" unfolding succeeds_iff ..
  then show ?case using Cons [of "if stActive s then nextPosition s k else k"] by (auto simp: succeeds_iff)
qed simp

section \<open>A layer\<close>

text \<open>The group on duty, by the rotation alone.\<close>

definition layer_base :: "externals \<Rightarrow> schedule_revision \<Rightarrow> string \<Rightarrow> int \<Rightarrow> rotation_group option" where
  "layer_base ext r layer t =
     (let l = layer_of layer (rvSnapshot r)
      in case NewGrid (eZones ext) (ssTimezone (rvSnapshot r)) (lyPolicy l) of
           Inl _ \<Rightarrow> None
         | Inr g \<Rightarrow> (case ActiveGroupAt g l t of Inr (Some (grp, _)) \<Rightarrow> Some grp | _ \<Rightarrow> None))"

definition readable :: "externals \<Rightarrow> schedule_revision \<Rightarrow> bool" where
  "readable ext r \<longleftrightarrow> snapshot_validate ext (rvSnapshot r) = Inr ()"

lemma validateLayer_phase:
  assumes "validateLayer ext name l tz = Inr ()" "validateTimezone (eZones ext) tz = Inr loc"
  obtains gr where "NewGrid (eZones ext) tz (lyPolicy l) = Inr (methods gr)"
    "lyEnabled l \<Longrightarrow> lyGroups l \<noteq> [] \<Longrightarrow> \<exists>a p. in_phase (methods gr) l a p"
proof -
  have p: "policy_validate (lyPolicy l) = Inr ()" using assms(1) by (auto simp: validateLayer_def)
  let ?gr = "grid_of loc (lyPolicy l)"
  have g: "NewGrid (eZones ext) tz (lyPolicy l) = Inr (methods ?gr)" using p assms(2) by (simp add: NewGrid_def)
  have "\<exists>a p. in_phase (methods ?gr) l a p" if act: "lyEnabled l" "lyGroups l \<noteq> []"
  proof -
    have "lyAnchor l \<noteq> None \<and> lyPosition l \<noteq> None" using assms(1) act
      by (auto simp: validateLayer_def Let_def split: if_splits)
    then obtain a p where ap: "lyAnchor l = Some a" "lyPosition l = Some p" by auto
    then have "0 \<le> p" "p < int (length (lyGroups l))" "slStart (SlotContaining (methods ?gr) a) = a"
      using assms(1) act g by (auto simp: validateLayer_def Let_def split: if_splits)
    then show ?thesis using act ap by (auto simp: in_phase_def)
  qed
  with g that show thesis by blast
qed

lemma readable_layer:
  assumes "readable ext r"
  obtains gr where "NewGrid (eZones ext) (ssTimezone (rvSnapshot r)) (lyPolicy (layer_of layer (rvSnapshot r))) = Inr (methods gr)"
    "lyEnabled (layer_of layer (rvSnapshot r)) \<Longrightarrow> lyGroups (layer_of layer (rvSnapshot r)) \<noteq> [] \<Longrightarrow>
      \<exists>a p. in_phase (methods gr) (layer_of layer (rvSnapshot r)) a p"
proof -
  let ?s = "rvSnapshot r"
  obtain loc where z: "validateTimezone (eZones ext) (ssTimezone ?s) = Inr loc"
    and l1: "validateLayer ext ''l1'' (ssL1 ?s) (ssTimezone ?s) = Inr ()"
    and l2: "validateLayer ext ''l2'' (ssL2 ?s) (ssTimezone ?s) = Inr ()"
    using assms by (auto simp: readable_def snapshot_validate_def split: if_splits)
  show thesis
  proof (cases "layer = LayerL2")
    case True
    with validateLayer_phase [OF l2 z] that show thesis by (auto simp: layer_of_def)
  next
    case False
    with validateLayer_phase [OF l1 z] that show thesis by (auto simp: layer_of_def)
  qed
qed

lemma resolveLayer_readable:
  assumes "readable ext r"
  obtains s gr where "resolveLayer ext r layer = Inr s" "stLayer s = layer" "stGrid s = methods gr"
    "\<And>t. layer_base ext r layer t = tiling_grid.base_of (methods gr) s t"
    "stActive s \<Longrightarrow> \<exists>a p. in_phase (methods gr) (stSnapshot s) a p"
proof -
  let ?l = "layer_of layer (rvSnapshot r)"
  obtain gr where g: "NewGrid (eZones ext) (ssTimezone (rvSnapshot r)) (lyPolicy ?l) = Inr (methods gr)"
    and ph: "lyEnabled ?l \<Longrightarrow> lyGroups ?l \<noteq> [] \<Longrightarrow> \<exists>a p. in_phase (methods gr) ?l a p"
    using readable_layer [OF assms, of layer] by blast
  let ?s = "\<lparr>stLayer = layer, stSnapshot = ?l, stGrid = methods gr, stActive = (lyEnabled ?l \<and> 0 < length (lyGroups ?l))\<rparr>"
  have "layer_base ext r layer t = drawn.base_of gr ?s t" for t
    by (auto simp: layer_base_def g drawn.base_of_def ActiveGroupAt_def groupAt_def Let_def
      split: sum.split option.split prod.split)
  with ph that [of ?s gr] show thesis by (simp add: resolveLayer_def Let_def g)
qed

lemma slot_duty_idle: "slot_duty layer None [] t = []"
  by (simp add: slot_duty_def coveringAt_def)

lemma renderLayer_says:
  assumes "readable ext r" "renderLayer ext r layer bound overrides = Inr res" "ivStart bound < ivEnd bound"
  shows "proper res" "duties t res = (if ivStart bound \<le> t \<and> t < ivEnd bound
    then slot_duty layer (layer_base ext r layer t) (overridesOfLayer layer overrides) t else [])"
proof -
  let ?os = "overridesOfLayer layer overrides"
  obtain s gr where s: "resolveLayer ext r layer = Inr s" "stLayer s = layer" "stGrid s = methods gr"
    and base: "\<And>t. layer_base ext r layer t = drawn.base_of gr s t"
    and ph: "stActive s \<Longrightarrow> \<exists>a p. in_phase (methods gr) (stSnapshot s) a p"
    using resolveLayer_readable [OF assms(1), of layer] by blast
  obtain ss where first: "SlotsOverlapping (methods gr) (ivStart bound) (ivEnd bound) = SlotContaining (methods gr) (ivStart bound) # ss"
    using drawn.first_slot [OF assms(3)] by blast
  note tiles = drawn.overlapping_tiled [OF assms(3), of gr]
  let ?a = "slStart (SlotContaining (methods gr) (ivStart bound))"
  have a: "?a \<le> ivStart bound" by (rule built.slot_around)
  have "proper res \<and> duties t res = (if ivStart bound \<le> t \<and> t < ivEnd bound
    then slot_duty layer (layer_base ext r layer t) ?os t else [])"
  proof (cases "stActive s")
    case True
    then obtain anchor p where in_phase: "in_phase (methods gr) (stSnapshot s) anchor p" using ph by blast
    obtain k where k: "PositionAt (methods gr) (stSnapshot s) ?a = Inr (k, SlotContaining (methods gr) ?a)"
      using built.position_total [OF in_phase, of ?a] by blast
    have "render_slots r s bound ?os k (SlotsOverlapping (methods gr) (ivStart bound) (ivEnd bound)) = Inr res"
      using assms(2) s True first k by (simp add: renderLayer_def Let_def)
    from drawn.render_slots_says [OF this tiles order_refl] in_phase k a base s(2) show ?thesis by auto
  next
    case idle: False
    show ?thesis
    proof (cases "?os = []")
      case True
      then have "res = []" using assms(2) s idle by (simp add: renderLayer_def Let_def)
      with True idle show ?thesis unfolding base by (simp add: drawn.base_of_def slot_duty_idle)
    next
      case False
      then have "render_slots r s bound ?os 0 (SlotsOverlapping (methods gr) (ivStart bound) (ivEnd bound)) = Inr res"
        using assms(2) s idle first by (simp add: renderLayer_def Let_def)
      from drawn.render_slots_says [OF this tiles order_refl] idle a base s(2) show ?thesis by auto
    qed
  qed
  then show "proper res" "duties t res = (if ivStart bound \<le> t \<and> t < ivEnd bound
    then slot_duty layer (layer_base ext r layer t) ?os t else [])" by blast+
qed

lemma renderLayer_succeeds:
  assumes "readable ext r" "\<And>t. length (coveringAt (overridesOfLayer layer overrides) t) \<le> 1"
  shows "succeeds (renderLayer ext r layer bound overrides)"
proof -
  obtain s gr where s: "resolveLayer ext r layer = Inr s" "stGrid s = methods gr"
    and ph: "stActive s \<Longrightarrow> \<exists>a p. in_phase (methods gr) (stSnapshot s) a p"
    using resolveLayer_readable [OF assms(1), of layer] by metis
  have "succeeds (case PositionAt (methods gr) (stSnapshot s) t of Inl e \<Rightarrow> Inl (RotationFailed (rvID r) layer e)
      | Inr (position, _) \<Rightarrow> render_slots r s bound (overridesOfLayer layer overrides) position slots)" if act: "stActive s" for t slots
  proof -
    obtain a p where "in_phase (methods gr) (stSnapshot s) a p" using ph [OF act] by blast
    from built.position_total [OF this, of t] obtain k where
      "PositionAt (methods gr) (stSnapshot s) t = Inr (k, SlotContaining (methods gr) t)" by blast
    then show ?thesis using render_slots_succeeds [OF assms(2)] by simp
  qed
  then show ?thesis using s render_slots_succeeds [OF assms(2)]
    by (auto simp: renderLayer_def Let_def split: list.split)
qed

end
