(* ===== verification/Calendar.thy ===== *)
theory Calendar
  imports Tiles
begin

text \<open>
  The calendar of a range: over a chain of revisions without gaps and overrides that do not
  collide it is always drawn, and says of every instant what the reference \<open>duty_at\<close> says.
\<close>

section \<open>A run of revisions\<close>

abbreviation rev_end :: "schedule_revision \<Rightarrow> int" where "rev_end r \<equiv> ivEnd (revisionInterval r)"

text \<open>Each revision begins where the cover ends; the first may begin before the range.\<close>

fun links :: "int \<Rightarrow> int \<Rightarrow> schedule_revision list \<Rightarrow> bool" where
  "links q c [] \<longleftrightarrow> True"
| "links q c (r # rs) \<longleftrightarrow> rvFrom r \<le> c \<and> (rvFrom r = c \<or> c \<le> q) \<and> c < rev_end r \<and> links q (rev_end r) rs"

definition last_end :: "int \<Rightarrow> schedule_revision list \<Rightarrow> int" where
  "last_end c rs = (if rs = [] then c else rev_end (last rs))"

definition layer_duties :: "string \<Rightarrow> int \<Rightarrow> assignment list \<Rightarrow> duty_row list" where
  "layer_duties layer t as = filter (\<lambda>d. fst d = layer) (duties t as)"

definition running :: "int \<Rightarrow> schedule_revision \<Rightarrow> bool" where
  "running t r \<longleftrightarrow> rvFrom r \<le> t \<and> t < rev_end r"

definition shown :: "externals \<Rightarrow> override_revision list \<Rightarrow> string \<Rightarrow> schedule_revision list \<Rightarrow> int \<Rightarrow> duty_row list" where
  "shown ext os layer rs t = (case find (running t) rs of None \<Rightarrow> []
     | Some r \<Rightarrow> if rvKind r = RevisionDeleted then []
               else slot_duty layer (layer_base ext r layer t) (overridesOfLayer layer os) t)"

lemma layer_duties_append [simp]: "layer_duties layer t (as @ bs) = layer_duties layer t as @ layer_duties layer t bs"
  by (simp add: layer_duties_def)

lemma layer_duties_Nil [simp]: "layer_duties layer t [] = []"
  by (simp add: layer_duties_def)

lemma slot_duty_layer: "filter (\<lambda>d. fst d = layer) (slot_duty layer' base os t) = (if layer = layer' then slot_duty layer' base os t else [])"
  by (auto simp: slot_duty_def split: list.split option.split)

lemma layers_differ [simp]: "LayerL1 \<noteq> LayerL2" "LayerL2 \<noteq> LayerL1"
  by (simp_all add: LayerL1_def LayerL2_def)

lemma advance_links:
  assumes "rvFrom r \<le> c" "rvFrom r = c \<or> c \<le> ivStart q" "c < rev_end r"
  shows "advance q c (revisionInterval r) = Inr (\<lparr>ivStart = c, ivEnd = rev_end r\<rparr>, rev_end r)"
  using assms by (auto simp: advance_def Let_def revisionInterval_def iv_empty_def iv_intersect_def)

lemma render_revisions_says:
  assumes "render_revisions ext q os c rs = Inr (ws, as)" "links (ivStart q) c rs" "\<forall>r \<in> set rs. readable ext r"
    "layer = LayerL1 \<or> layer = LayerL2"
  shows "layer_duties layer t as = (if ivStart q \<le> t \<and> t < ivEnd q \<and> c \<le> t then shown ext os layer rs t else [])"
  using assms
proof (induction rs arbitrary: c ws as)
  case Nil
  then show ?case by (auto simp: shown_def)
next
  case (Cons r rs)
  let ?e = "rev_end r"
  let ?b = "iv_intersect \<lparr>ivStart = c, ivEnd = ?e\<rparr> q"
  have l: "rvFrom r \<le> c" "c < ?e" "links (ivStart q) ?e rs" using Cons.prems(2) by auto
  have adv: "advance q c (revisionInterval r) = Inr (\<lparr>ivStart = c, ivEnd = ?e\<rparr>, ?e)"
    using Cons.prems(2) by (intro advance_links) auto
  have IH: "layer_duties layer t as' = (if ivStart q \<le> t \<and> t < ivEnd q \<and> ?e \<le> t then shown ext os layer rs t else [])"
    if "render_revisions ext q os ?e rs = Inr (ws', as')" for ws' as'
    by (rule Cons.IH [OF that l(3)]) (use Cons.prems(3,4) in auto)
  have bound: "ivStart ?b \<le> t \<and> t < ivEnd ?b \<longleftrightarrow> c \<le> t \<and> t < ?e \<and> ivStart q \<le> t \<and> t < ivEnd q"
    by (auto simp: iv_intersect_def)
  have later: "shown ext os layer (r # rs) t = shown ext os layer rs t" if "?e \<le> t"
    using that by (simp add: shown_def running_def)
  have now: "shown ext os layer (r # rs) t = (if rvKind r = RevisionDeleted then []
      else slot_duty layer (layer_base ext r layer t) (overridesOfLayer layer os) t)" if "c \<le> t" "t < ?e"
    using that l(1) by (simp add: shown_def running_def)
  show ?case
  proof (cases "iv_empty ?b")
    case True
    then have "\<not> (ivStart ?b \<le> t \<and> t < ivEnd ?b)" by (simp add: iv_empty_def)
    moreover have "render_revisions ext q os ?e rs = Inr (ws, as)" using Cons.prems(1) adv True by (simp add: Let_def)
    ultimately show ?thesis using IH later bound l(2) by auto
  next
    case False
    then have ne: "ivStart ?b < ivEnd ?b" by (simp add: iv_empty_def)
    show ?thesis
    proof (cases "rvKind r = RevisionDeleted")
      case True
      then obtain ws' where "render_revisions ext q os ?e rs = Inr (ws', as)"
        using Cons.prems(1) adv False by (auto simp: Let_def)
      then show ?thesis using IH later now l(2) True by (cases "t < ?e") auto
    next
      case active: False
      then obtain l1 l2 ws' as' where ls: "renderLayer ext r LayerL1 ?b os = Inr l1" "renderLayer ext r LayerL2 ?b os = Inr l2"
        "render_revisions ext q os ?e rs = Inr (ws', as')" "as = l1 @ l2 @ as'"
        using Cons.prems(1) adv False by (auto simp: Let_def)
      have rd: "readable ext r" using Cons.prems(3) by simp
      have "layer_duties layer t (l1 @ l2) = (if c \<le> t \<and> t < ?e \<and> ivStart q \<le> t \<and> t < ivEnd q
          then slot_duty layer (layer_base ext r layer t) (overridesOfLayer layer os) t else [])"
        using renderLayer_says(2) [OF rd ls(1) ne, of t] renderLayer_says(2) [OF rd ls(2) ne, of t] Cons.prems(4)
        unfolding layer_duties_def bound by (auto simp: slot_duty_layer)
      then show ?thesis unfolding ls(4) append_assoc [symmetric] layer_duties_append [of layer t "l1 @ l2"]
        using IH [OF ls(3)] later now l(2) active by (cases "t < ?e") auto
    qed
  qed
qed

lemma render_revisions_succeeds:
  assumes "links (ivStart q) c rs" "\<forall>r \<in> set rs. readable ext r" "ivEnd q \<le> last_end c rs"
    "\<And>layer t. length (coveringAt (overridesOfLayer layer os) t) \<le> 1"
  shows "succeeds (render_revisions ext q os c rs)"
  using assms(1-3)
proof (induction rs arbitrary: c)
  case Nil
  then show ?case by (simp add: cov_gap_def Let_def iv_empty_def iv_intersect_def last_end_def)
next
  case (Cons r rs)
  have adv: "advance q c (revisionInterval r) = Inr (\<lparr>ivStart = c, ivEnd = rev_end r\<rparr>, rev_end r)"
    using Cons.prems(1) by (intro advance_links) auto
  have "ivEnd q \<le> last_end (rev_end r) rs" using Cons.prems(3) by (simp add: last_end_def split: if_splits)
  then obtain x where x: "render_revisions ext q os (rev_end r) rs = Inr x"
    using Cons.IH [of "rev_end r"] Cons.prems(1,2) by (auto simp: succeeds_iff)
  have "succeeds (renderLayer ext r layer b os)" for layer b
    by (rule renderLayer_succeeds) (use Cons.prems(2) assms(4) in simp_all)
  then have "\<exists>l. renderLayer ext r layer b os = Inr l" for layer b by (simp add: succeeds_iff)
  then obtain l1 l2 where "renderLayer ext r LayerL1 (iv_intersect \<lparr>ivStart = c, ivEnd = rev_end r\<rparr> q) os = Inr l1"
    "renderLayer ext r LayerL2 (iv_intersect \<lparr>ivStart = c, ivEnd = rev_end r\<rparr> q) os = Inr l2" by blast
  then show ?case using adv x by (cases x) (simp add: Let_def)
qed

section \<open>A chain, cut to a range\<close>

definition touches :: "int \<Rightarrow> int \<Rightarrow> schedule_revision \<Rightarrow> bool" where
  "touches from until' r \<longleftrightarrow> rvFrom r < until' \<and> (case rvTo r of None \<Rightarrow> True | Some e \<Rightarrow> from < e)"

lemma last_end_Cons: "last_end c (r # rs) = last_end (rev_end r) rs"
  by (simp add: last_end_def)

lemma linked_links:
  assumes "linked rs" "from < until'" "until' \<le> endOfTime"
  shows "links from (max from (rvFrom (hd rs))) (filter (touches from until') rs) \<and>
    until' \<le> last_end (max from (rvFrom (hd rs))) (filter (touches from until') rs)"
  using assms
proof (induction rs rule: linked.induct)
  case (2 r)
  then show ?case by (auto simp: touches_def last_end_def revisionInterval_def)
next
  case (3 r s rs)
  have r: "rvTo r = Some (rvFrom s)" "rvFrom r < rvFrom s" "linked (s # rs)" using 3(2) by simp_all
  note IH = 3(1) [OF r(3) 3(3,4)]
  show ?case
  proof (cases "rvFrom s \<le> from")
    case True
    then show ?thesis using IH r by (simp add: touches_def)
  next
    case later: False
    show ?thesis
    proof (cases "rvFrom r < until'")
      case True
      have "max from (rvFrom s) = rvFrom s" using later by simp
      then have "links from (rvFrom s) (filter (touches from until') (s # rs)) \<and>
          until' \<le> last_end (rvFrom s) (filter (touches from until') (s # rs))" using IH by (simp only: list.sel)
      moreover have "rev_end r = rvFrom s" using r(1) by (simp add: revisionInterval_def)
      moreover have "filter (touches from until') (r # s # rs) = r # filter (touches from until') (s # rs)"
        using True r(1) later by (simp add: touches_def)
      ultimately show ?thesis using later r(2) by (simp add: last_end_Cons max_def)
    next
      case False
      have "\<forall>x \<in> set (s # rs). rvFrom s \<le> rvFrom x" using linked_starts [OF r(3)] by simp
      then have "filter (touches from until') (r # s # rs) = []" using False r(2)
        by (force simp: touches_def filter_empty_conv)
      then show ?thesis using False by (simp only: last_end_def) auto
    qed
  qed
qed simp

lemma linked_sorted: "linked rs \<Longrightarrow> sorted (map rvFrom rs)"
proof (induction rs rule: linked.induct)
  case (3 r s rs)
  then show ?case by (auto simp del: linked.simps(3)) (use 3 in auto)
qed auto

section \<open>Overrides that do not collide\<close>

definition counts :: "string \<Rightarrow> office \<Rightarrow> override_revision \<Rightarrow> bool" where
  "counts sid f r \<longleftrightarrow> is_head sid (fOverrides f) r \<and> \<not> ovDeleted r"

definition stand_in :: "string \<Rightarrow> string \<Rightarrow> int \<Rightarrow> office \<Rightarrow> override_revision list" where
  "stand_in sid layer t f = filter (\<lambda>r. counts sid f r \<and> ovLayer r = layer \<and> ovFrom r \<le> t \<and> t < ovTo r) (fOverrides f)"

lemma counts_live: "r \<in> set (fOverrides f) \<Longrightarrow> counts sid f r \<longleftrightarrow> live f r \<and> ovSchedule r = sid"
  by (auto simp: counts_def live_head dest: is_head_schedule)

lemma at_most_one:
  assumes "distinct xs" "\<And>x y. x \<in> set xs \<Longrightarrow> y \<in> set xs \<Longrightarrow> x = y"
  shows "length xs \<le> 1"
proof (cases xs)
  case (Cons x ys)
  then have "set ys \<subseteq> {x}" "x \<notin> set ys" using assms by auto
  with Cons show ?thesis by (cases ys) auto
qed simp

lemma stand_in_one:
  assumes "roster f"
  shows "length (stand_in sid layer t f) \<le> 1"
proof (rule at_most_one)
  have "distinct (fOverrides f)" using assms unfolding roster_def tidy_def by (elim conjE)
  then show "distinct (stand_in sid layer t f)" by (simp add: stand_in_def)
  have m: "live f z \<and> ovSchedule z = sid \<and> ovLayer z = layer \<and> ovFrom z \<le> t \<and> t < ovTo z"
    if "z \<in> set (stand_in sid layer t f)" for z
    using that counts_live [of z f sid] by (simp add: stand_in_def)
  fix x y assume "x \<in> set (stand_in sid layer t f)" "y \<in> set (stand_in sid layer t f)"
  then have x: "live f x" "ovSchedule x = sid" "ovLayer x = layer" "ovFrom x \<le> t" "t < ovTo x"
    and y: "live f y" "ovSchedule y = sid" "ovLayer y = layer" "ovFrom y \<le> t" "t < ovTo y"
    using m [of x] m [of y] by simp_all
  have "\<not> apart x y" using x(4,5) y(4,5) by (simp add: apart_def)
  moreover have "x \<noteq> y \<Longrightarrow> apart x y"
    using disjoint_headsD [OF conjunct2 [OF assms [unfolded roster_def]] x(1) y(1)] x(2,3) y(2,3) by metis
  ultimately show "x = y" by blast
qed

lemma filter_sort_one:
  fixes k :: "'a \<Rightarrow> 'b :: linorder"
  assumes "length (filter P xs) \<le> 1"
  shows "filter P (sort_key k xs) = filter P xs"
proof -
  have "filter P (sort_key k xs) = sort_key k (filter P xs)" by (rule filter_sort)
  also have "\<dots> = filter P xs" using assms by (cases "filter P xs") auto
  finally show ?thesis .
qed

lemma projection_covers:
  assumes "roster f"
  shows "length (coveringAt (overridesOfLayer layer (GetOverrideProjectionInRange sid from until' f)) t) \<le> 1"
    "(case from of None \<Rightarrow> True | Some a \<Rightarrow> NormalizeTimestamp a \<le> t) \<Longrightarrow> (case until' of None \<Rightarrow> True | Some b \<Rightarrow> t < NormalizeTimestamp b) \<Longrightarrow>
      coveringAt (overridesOfLayer layer (GetOverrideProjectionInRange sid from until' f)) t = stand_in sid layer t f"
proof -
  let ?in = "\<lambda>r. (case from of None \<Rightarrow> True | Some a \<Rightarrow> NormalizeTimestamp a < ovTo r) \<and>
       (case until' of None \<Rightarrow> True | Some b \<Rightarrow> ovFrom r < NormalizeTimestamp b)"
  let ?P = "\<lambda>r. ovLayer r = layer \<and> ovFrom r \<le> t \<and> t < ovTo r"
  let ?xs = "filter (\<lambda>r. counts sid f r \<and> ?in r) (fOverrides f)"
  have eq: "coveringAt (overridesOfLayer layer (GetOverrideProjectionInRange sid from until' f)) t = filter ?P (by_start ?xs)"
    unfolding coveringAt_def overridesOfLayer_def GetOverrideProjectionInRange_def filter_filter counts_def
    by (rule arg_cong2 [where f = filter]) (auto intro!: arg_cong [where f = by_start] filter_cong)
  have sub: "filter ?P ?xs = filter ?in (stand_in sid layer t f)"
    unfolding stand_in_def filter_filter by (rule filter_cong) auto
  have one: "length (filter ?P ?xs) \<le> 1"
    unfolding sub using length_filter_le le_trans stand_in_one [OF assms] by blast
  have same: "coveringAt (overridesOfLayer layer (GetOverrideProjectionInRange sid from until' f)) t = filter ?in (stand_in sid layer t f)"
    unfolding eq by_start_def filter_sort_one [OF one] by (rule sub)
  then show "length (coveringAt (overridesOfLayer layer (GetOverrideProjectionInRange sid from until' f)) t) \<le> 1"
    using one sub by simp
  assume "case from of None \<Rightarrow> True | Some a \<Rightarrow> NormalizeTimestamp a \<le> t" "case until' of None \<Rightarrow> True | Some b \<Rightarrow> t < NormalizeTimestamp b"
  then have "\<forall>r \<in> set (stand_in sid layer t f). ?in r" by (auto simp: stand_in_def split: option.splits)
  then show "coveringAt (overridesOfLayer layer (GetOverrideProjectionInRange sid from until' f)) t = stand_in sid layer t f"
    unfolding same by (simp add: filter_id_conv)
qed

section \<open>The reference\<close>

text \<open>Who is on duty: the stand-in, or else the group of the revision in force; in a deleted period nobody.\<close>

definition duty_of :: "externals \<Rightarrow> schedule_revision \<Rightarrow> string \<Rightarrow> int \<Rightarrow> office \<Rightarrow> duty_row list" where
  "duty_of ext r layer t f =
     (if rvKind r = RevisionDeleted then []
      else case stand_in (rvSchedule r) layer t f of
        x # _ \<Rightarrow> [(layer, SourceOverride, ovOverrideID x, [ovUser x], ovOverrideID x, ovRevisionID x)]
      | [] \<Rightarrow> (case layer_base ext r layer t of None \<Rightarrow> []
             | Some g \<Rightarrow> [(layer, SourceRotation, rgID g, rgMembers g, [], [])]))"

definition duty_at :: "externals \<Rightarrow> string \<Rightarrow> string \<Rightarrow> int \<Rightarrow> office \<Rightarrow> duty_row list" where
  "duty_at ext sid layer t f = (case GetEffectiveRevision sid t f of Inl _ \<Rightarrow> [] | Inr r \<Rightarrow> duty_of ext r layer t f)"

lemma slot_duty_of:
  assumes "coveringAt os t = stand_in (rvSchedule r) layer t f" "rvKind r \<noteq> RevisionDeleted"
  shows "slot_duty layer (layer_base ext r layer t) os t = duty_of ext r layer t f"
  using assms by (simp add: slot_duty_def duty_of_def split: list.split)


section \<open>The calendar\<close>

lemma linked_strict: "linked rs \<Longrightarrow> sorted_wrt (<) (map rvFrom rs)"
proof (induction rs rule: linked.induct)
  case (3 r s rs)
  have "\<forall>x \<in> set (s # rs). rvFrom s \<le> rvFrom x" using linked_starts [of "s # rs"] 3(2) by simp
  moreover have "rvFrom r < rvFrom s" "sorted_wrt (<) (map rvFrom (s # rs))" using 3 by simp_all
  ultimately show ?case by fastforce
qed simp_all

lemma strict_versions:
  "sorted_wrt (<) (map rvFrom rs) \<Longrightarrow> sorted (map rvFrom rs) \<and> sorted (map (\<lambda>r. (rvFrom r, rvVersion r)) rs)"
  by (induction rs) (auto simp: less_imp_le)

lemma filter_strict: "sorted_wrt (<) (map rvFrom rs) \<Longrightarrow> sorted_wrt (<) (map rvFrom (filter P rs))"
  by (induction rs) auto

lemma linked_ends:
  "linked rs \<Longrightarrow> \<forall>r \<in> set rs. aligned (rvFrom r) \<Longrightarrow> \<forall>r \<in> set rs. case rvTo r of None \<Rightarrow> True | Some e \<Rightarrow> aligned e"
  by (induction rs rule: linked.induct) auto

lemma aligned_compare: "aligned e \<Longrightarrow> e \<le> NormalizeTimestamp t \<longleftrightarrow> e \<le> t" "aligned e \<Longrightarrow> NormalizeTimestamp t < e \<longleftrightarrow> t < e"
  using aligned_less_Normalize [of e t] Normalize_mono [of e t] Normalize_le(1) [of t] by fastforce+

lemma in_force_normal:
  assumes "aligned (rvFrom r)" "case rvTo r of None \<Rightarrow> True | Some e \<Rightarrow> aligned e"
  shows "in_force (NormalizeTimestamp t) r = in_force t r"
  using assms by (simp add: in_force_def aligned_compare split: option.splits)

lemma find_filter: "find P xs = (case filter P xs of [] \<Rightarrow> None | x # _ \<Rightarrow> Some x)"
  by (induction xs) auto

lemma running_in_force: "t < endOfTime \<Longrightarrow> running t r = in_force t r"
  by (simp add: running_def in_force_def revisionInterval_def split: option.split)

lemma layer_duties_filter: "layer_duties layer t as = map duty (filter (\<lambda>a. on_at t a \<and> asLayer a = layer) as)"
  by (simp add: layer_duties_def duties_def filter_map o_def duty_def conj_commute)

lemma duty_of_one: "length (duty_of ext r layer t f) \<le> 1"
  by (simp add: duty_of_def split: list.split option.split)

lemma duty_at_one: "length (duty_at ext sid layer t f) \<le> 1"
  by (simp add: duty_at_def duty_of_one [simplified] split: sum.split)

lemma chain_in_range:
  assumes "chronicle f" "s \<in> set (fRoots f)"
  shows "linked (revs (rtID s) f)" "rvFrom (hd (revs (rtID s) f)) = rtHistoryFrom s"
    "r \<in> set (revs (rtID s) f) \<Longrightarrow> in_force (NormalizeTimestamp t) r = in_force t r"
    "r \<in> set (revs (rtID s) f) \<Longrightarrow> rvSchedule r = rtID s"
    "GetRevisionsInRange (rtID s) from until' f = filter (touches (NormalizeTimestamp from) (NormalizeTimestamp until')) (revs (rtID s) f)"
    "sort_key (\<lambda>r. (rvFrom r, rvVersion r)) (filter P (revs (rtID s) f)) = filter P (revs (rtID s) f)"
proof -
  let ?rs = "revs (rtID s) f"
  have ch: "chain f s" using assms by (simp add: chronicle_def)
  then show l: "linked ?rs" and "rvFrom (hd ?rs) = rtHistoryFrom s" by (simp_all add: chain_def Let_def)
  have al: "\<forall>r \<in> set ?rs. aligned (rvFrom r)" using ch by (simp add: chain_def Let_def)
  show "r \<in> set ?rs \<Longrightarrow> in_force (NormalizeTimestamp t) r = in_force t r"
    using al linked_ends [OF l al] by (intro in_force_normal) auto
  show "r \<in> set ?rs \<Longrightarrow> rvSchedule r = rtID s" by (simp add: revs_def)
  have sorted: "sorted (map rvFrom (filter P ?rs)) \<and> sorted (map (\<lambda>r. (rvFrom r, rvVersion r)) (filter P ?rs))" for P
    by (rule strict_versions [OF filter_strict [OF linked_strict [OF l]]])
  then show "sort_key (\<lambda>r. (rvFrom r, rvVersion r)) (filter P ?rs) = filter P ?rs" by (simp add: sort_key_id_if_sorted)
  have "filter (\<lambda>r. rvSchedule r = rtID s \<and> rvFrom r < NormalizeTimestamp until' \<and>
       (case rvTo r of None \<Rightarrow> True | Some e \<Rightarrow> NormalizeTimestamp from < e)) (fRevisions f)
     = filter (touches (NormalizeTimestamp from) (NormalizeTimestamp until')) ?rs"
    unfolding revs_def filter_filter touches_def by (rule filter_cong) auto
  then show "GetRevisionsInRange (rtID s) from until' f = filter (touches (NormalizeTimestamp from) (NormalizeTimestamp until')) ?rs"
    unfolding GetRevisionsInRange_def using sorted by (simp add: sort_key_id_if_sorted)
qed

lemma shown_on_duty:
  assumes "chronicle f" "roster f" "s \<in> set (fRoots f)" "from \<le> t" "t < until'" "until' \<le> endOfTime" "rtHistoryFrom s \<le> t"
    "aligned from" "aligned until'"
  shows "shown ext (GetOverrideProjectionInRange (rtID s) (Some from) (Some until') f) layer
      (filter (touches from until') (revs (rtID s) f)) t = duty_at ext (rtID s) layer t f"
proof -
  let ?rs = "revs (rtID s) f"
  note c = chain_in_range [OF assms(1,3)]
  obtain r where r: "filter (in_force t) ?rs = [r]"
    using linked_in_force [OF c(1)] assms(7) unfolding c(2) by blast
  have "r \<in> set (filter (in_force t) ?rs)" unfolding r by simp
  then have m: "r \<in> set ?rs" by simp
  have "filter (running t) (filter (touches from until') ?rs) = filter (in_force t) ?rs"
    unfolding filter_filter using assms(4-6)
    by (intro filter_cong) (auto simp: running_in_force touches_def in_force_def split: option.splits)
  then have found: "find (running t) (filter (touches from until') ?rs) = Some r" unfolding find_filter r by simp
  have "filter (in_force (NormalizeTimestamp t)) ?rs = [r]" unfolding r [symmetric] by (rule filter_cong) (simp_all add: c(3))
  then have e: "GetEffectiveRevision (rtID s) t f = Inr r" by (simp add: GetEffectiveRevision_revs)
  have "coveringAt (overridesOfLayer layer (GetOverrideProjectionInRange (rtID s) (Some from) (Some until') f)) t = stand_in (rvSchedule r) layer t f"
    unfolding c(4) [OF m] by (rule projection_covers(2) [OF assms(2)]) (use assms in simp_all)
  then show ?thesis unfolding shown_def found duty_at_def e using slot_duty_of by (simp add: duty_of_def)
qed

text \<open>Rows that can still be read are read as they stand.\<close>

lemma legible_readable: "legible ext f r \<Longrightarrow> readable ext r"
  by (simp add: legible_iff readable_def)

lemma chain_is_read:
  assumes "\<forall>r \<in> set (revs sid f). legible ext f r"
  shows "ReadEffectiveRevision ext sid t f = GetEffectiveRevision sid t f"
    "ReadRevisionsInRange ext sid from until' f = Inr (GetRevisionsInRange sid from until' f)"
proof -
  have l: "\<forall>r \<in> set (fRevisions f). rvSchedule r = sid \<longrightarrow> legible ext f r" using assms by (simp add: revs_def)
  show "ReadEffectiveRevision ext sid t f = GetEffectiveRevision sid t f" by (rule ReadEffectiveRevision_legible [OF l])
  show "ReadRevisionsInRange ext sid from until' f = Inr (GetRevisionsInRange sid from until' f)"
    by (rule ReadRevisionsInRange_legible [OF l])
qed

lemma range_is_drawn:
  assumes "chronicle f" "roster f" "s \<in> set (fRoots f)" "\<forall>r \<in> set (revs (rtID s) f). legible ext f r"
    "NormalizeTimestamp from < NormalizeTimestamp until'" "NormalizeTimestamp until' \<le> endOfTime"
  shows "\<exists>res. RenderRange ext (rtID s) from until' f = Inr res \<and>
    (\<forall>layer t. (layer = LayerL1 \<or> layer = LayerL2) \<and> NormalizeTimestamp from \<le> t \<and> t < NormalizeTimestamp until' \<longrightarrow>
      layer_duties layer t (reAssignments res) = duty_at ext (rtID s) layer t f)"
proof -
  let ?a = "NormalizeTimestamp from" and ?b = "NormalizeTimestamp until'" and ?rs = "revs (rtID s) f"
  let ?q = "\<lparr>ivStart = ?a, ivEnd = ?b\<rparr>" and ?c = "max ?a (rtHistoryFrom s)" and ?in = "filter (touches ?a ?b) ?rs"
  let ?os = "GetOverrideProjectionInRange (rtID s) (Some ?a) (Some ?b) f"
  note c = chain_in_range [OF assms(1,3)]
  have links: "links ?a ?c ?in" "?b \<le> last_end ?c ?in" using linked_links [OF c(1) assms(5,6)] c(2) by simp_all
  have rd: "\<forall>r \<in> set ?in. readable ext r" using assms(4) legible_readable by auto
  obtain ws as where r: "render_revisions ext ?q ?os ?c ?in = Inr (ws, as)"
    using render_revisions_succeeds [of ?q ?c ?in ext ?os] links rd projection_covers(1) [OF assms(2)]
    by (force simp: succeeds_iff)
  define res where "res = \<lparr>reFrom = ?a, reUntil = ?b, reAssignments = sort_key (\<lambda>a. (asLayer a, asStart a)) as,
      reHistoryComplete = (\<not> ?a < rtHistoryFrom s), reHistoryFrom = rtHistoryFrom s, reDeletedAt = rtDeletedAt s,
      reWarnings = (if ?a < rtHistoryFrom s then [HistoryIncomplete ?a (min ?b (rtHistoryFrom s))] else []) @ ws\<rparr>"
  have "RenderRange ext (rtID s) from until' f = Inr res"
    unfolding RenderRange_def Render_def Let_def GetScheduleRoot_found(1) [OF assms(1,3)] chain_is_read(2) [OF assms(4)] sum.case
      c(5) c(6) res_def
    using assms(5) r by simp
  moreover have "layer_duties layer t (reAssignments res) = duty_at ext (rtID s) layer t f"
    if "layer = LayerL1 \<or> layer = LayerL2" "?a \<le> t" "t < ?b" for layer t
  proof -
    have says: "layer_duties layer t as = (if ?c \<le> t then shown ext ?os layer ?in t else [])"
      using render_revisions_says [OF r _ rd that(1), of t] links(1) that(2,3) by simp
    have drawn: "layer_duties layer t as = duty_at ext (rtID s) layer t f"
    proof (cases "rtHistoryFrom s \<le> t")
      case True
      then show ?thesis using says shown_on_duty [OF assms(1-3) that(2,3) assms(6)] that(2) by simp
    next
      case False
      then have "NormalizeTimestamp t < rtHistoryFrom s" using Normalize_le(1) [of t] by linarith
      then have "GetEffectiveRevision (rtID s) t f = Inl ErrRevisionNotFound"
        using chronicle_in_force [OF assms(1,3), of t] by simp
      then show ?thesis using says False by (simp add: duty_at_def)
    qed
    have "length (filter (\<lambda>a. on_at t a \<and> asLayer a = layer) as) \<le> 1"
      using drawn duty_at_one [of ext "rtID s" layer t f] by (metis layer_duties_filter length_map)
    from filter_sort_one [OF this, of "\<lambda>a. (asLayer a, asStart a)"] have "layer_duties layer t (reAssignments res) = layer_duties layer t as"
      by (simp add: res_def layer_duties_filter)
    then show ?thesis using drawn by simp
  qed
  ultimately show ?thesis by blast
qed

end
