(* ===== verification/OnCall.thy ===== *)
theory OnCall
  imports Calendar
begin

text \<open>
  The projection of one instant (\<open>oncall.go\<close>, \<open>service.go\<close>, \<open>bulk.go\<close>): who is on duty now, of one
  schedule, of a team and of every schedule at once.  It looks at one slot of each layer, and it
  says what the calendar of any range around the instant says.
\<close>

section \<open>The projection\<close>

record layer_on_call =
  loGroup :: string
  loUsers :: "string list"
  loGridStart :: int
  loGridEnd :: int
  loStart :: int
  loEnd :: int
  loRevision :: string
  loSource :: string
  loOverride :: string
  loOverrideRevision :: string

record on_call =
  ocAt :: int
  ocL1 :: "layer_on_call option"
  ocL2 :: "layer_on_call option"

definition nobody :: "int \<Rightarrow> on_call" where
  "nobody t = \<lparr>ocAt = t, ocL1 = None, ocL2 = None\<rparr>"

record layer_slot =
  lsLayer :: string
  lsSlot :: Grid.slot
  lsBound :: interval
  lsBase :: "rotation_group option"

definition layer_slot_at :: "externals \<Rightarrow> schedule_revision \<Rightarrow> int \<Rightarrow> string \<Rightarrow> render_error + layer_slot" where
  "layer_slot_at ext r t layer =
     then_ok (resolveLayer ext r layer) (\<lambda>s.
     let sl = SlotContaining (stGrid s) t;
         ls = \<lparr>lsLayer = layer, lsSlot = sl,
           lsBound = iv_intersect \<lparr>ivStart = slStart sl, ivEnd = slEnd sl\<rparr> (revisionInterval r), lsBase = None\<rparr>
     in if stActive s
        then (case PositionAt (stGrid s) (stSnapshot s) t of
                Inl e \<Rightarrow> Inl (RotationFailed (rvID r) layer e)
              | Inr (position, _) \<Rightarrow> Inr (ls\<lparr>lsBase := Some (groupAt s position)\<rparr>))
        else Inr ls)"

definition onCallSlots :: "externals \<Rightarrow> schedule_revision \<Rightarrow> int \<Rightarrow> render_error + layer_slot list" where
  "onCallSlots ext r t =
     then_ok (layer_slot_at ext r t LayerL1) (\<lambda>l1. then_ok (layer_slot_at ext r t LayerL2) (\<lambda>l2. Inr [l1, l2]))"

text \<open>A slot of an override may end before the override does.\<close>

definition overrideSpan :: "assignment \<Rightarrow> override_revision list \<Rightarrow> interval \<Rightarrow> interval" where
  "overrideSpan a overrides revBound =
     (let own = \<lparr>ivStart = asStart a, ivEnd = asEnd a\<rparr>
      in if asSource a \<noteq> SourceOverride then own
         else case find (\<lambda>x. ovOverrideID x = asOverride a) overrides of
                None \<Rightarrow> own
              | Some x \<Rightarrow> iv_intersect \<lparr>ivStart = ovFrom x, ivEnd = ovTo x\<rparr> revBound)"

definition assignmentAt :: "assignment list \<Rightarrow> int \<Rightarrow> assignment option" where
  "assignmentAt as t = find (\<lambda>a. asStart a \<le> t \<and> t < asEnd a) as"

definition layer_answer :: "schedule_revision \<Rightarrow> override_revision list \<Rightarrow> assignment \<Rightarrow> layer_on_call" where
  "layer_answer r overrides a =
     (let sp = overrideSpan a overrides (revisionInterval r)
      in \<lparr>loGroup = asGroup a, loUsers = asUsers a, loGridStart = asSlotStart a, loGridEnd = asSlotEnd a,
          loStart = ivStart sp, loEnd = ivEnd sp, loRevision = asRevision a, loSource = asSource a,
          loOverride = asOverride a, loOverrideRevision = asOverrideRevision a\<rparr>)"

fun project_slots :: "schedule_revision \<Rightarrow> int \<Rightarrow> override_revision list \<Rightarrow> layer_slot list \<Rightarrow> on_call
    \<Rightarrow> render_error + on_call" where
  "project_slots r t overrides [] out = Inr out"
| "project_slots r t overrides (ls # rest) out =
     then_ok (renderSlot \<lparr>siRevision = rvID r, siLayer = lsLayer ls, siSlot = lsSlot ls, siBound = lsBound ls,
         siBase = lsBase ls, siOverrides = overridesOfLayer (lsLayer ls) overrides\<rparr>) (\<lambda>as.
     project_slots r t overrides rest
       (case assignmentAt as t of
          None \<Rightarrow> out
        | Some found \<Rightarrow>
            if lsLayer ls = LayerL1 then out\<lparr>ocL1 := Some (layer_answer r overrides found)\<rparr>
            else out\<lparr>ocL2 := Some (layer_answer r overrides found)\<rparr>))"

definition projectOnCall :: "schedule_revision \<Rightarrow> int \<Rightarrow> layer_slot list \<Rightarrow> override_revision list \<Rightarrow> render_error + on_call" where
  "projectOnCall r t slots overrides = project_slots r t overrides slots (nobody t)"

definition wider :: "interval option \<Rightarrow> layer_slot \<Rightarrow> interval option" where
  "wider acc ls =
     (if iv_empty (lsBound ls) then acc
      else case acc of
             None \<Rightarrow> Some (lsBound ls)
           | Some i \<Rightarrow> Some \<lparr>ivStart = min (ivStart i) (ivStart (lsBound ls)), ivEnd = max (ivEnd i) (ivEnd (lsBound ls))\<rparr>)"

definition onCallOverrideRange :: "layer_slot list \<Rightarrow> interval option" where
  "onCallOverrideRange slots = foldl wider None slots"

definition onCallOfRevision :: "externals \<Rightarrow> schedule_revision \<Rightarrow> int \<Rightarrow> office \<Rightarrow> render_error + on_call" where
  "onCallOfRevision ext r t f =
     then_ok (onCallSlots ext r t) (\<lambda>slots.
     case onCallOverrideRange slots of
       None \<Rightarrow> Inr (nobody t)
     | Some i \<Rightarrow> projectOnCall r t slots
         (GetOverrideProjectionInRange (rvSchedule r) (Some (ivStart i)) (Some (ivEnd i)) f))"

definition onCallOfRoot :: "externals \<Rightarrow> schedule_root \<Rightarrow> int \<Rightarrow> office \<Rightarrow> render_error + on_call \<times> schedule_revision option" where
  "onCallOfRoot ext s t f =
     (if t < rtHistoryFrom s then Inr (nobody t, None)
      else case ReadEffectiveRevision ext (rtID s) t f of
             Inl e \<Rightarrow> if e = ErrRevisionNotFound \<or> e = ErrScheduleNotFound then Inl (RevisionGap t t) else Inl (read_failed e)
           | Inr r \<Rightarrow>
               if rvKind r = RevisionDeleted then Inr (nobody t, Some r)
               else then_ok (onCallOfRevision ext r t f) (\<lambda>out. Inr (out, Some r)))"

definition CurrentOnCall :: "externals \<Rightarrow> string \<Rightarrow> int \<Rightarrow> office \<Rightarrow> render_error + on_call" where
  "CurrentOnCall ext sid at0 f =
     (let t = NormalizeTimestamp at0
      in case GetScheduleRoot sid f of
           Inl e \<Rightarrow> if e = ErrScheduleNotFound then Inr (nobody t) else Inl (read_failed e)
         | Inr s \<Rightarrow> then_ok (onCallOfRoot ext s t f) (\<lambda>(out, _). Inr out))"

record team_on_call =
  tcSchedule :: string
  tcDeletedAt :: "int option"
  tcOnCall :: on_call

definition CurrentTeamOnCallNow :: "externals \<Rightarrow> string \<Rightarrow> int \<Rightarrow> office \<Rightarrow> render_error + team_on_call" where
  "CurrentTeamOnCallNow ext tid now f =
     (let t = NormalizeTimestamp now
      in case GetScheduleRootByTeam tid f of
           Inl e \<Rightarrow> if e = ErrScheduleNotFound then Inr \<lparr>tcSchedule = [], tcDeletedAt = None, tcOnCall = nobody t\<rparr>
                   else Inl (read_failed e)
         | Inr s \<Rightarrow> then_ok (onCallOfRoot ext s t f) (\<lambda>(out, _).
             Inr \<lparr>tcSchedule = rtID s, tcDeletedAt = rtDeletedAt s, tcOnCall = out\<rparr>))"

section \<open>Every schedule at once\<close>

datatype failure_reason = FailureSnapshotDecode | FailureRevisionMetadata | FailureRevisionGap | FailureRevisionOverlap
  | FailureOverrideCollision | FailureRotation

fun FailureReasonOf :: "render_error \<Rightarrow> failure_reason option" where
  "FailureReasonOf (ReadFailed e) =
     (if e = ErrSnapshotDecode then Some FailureSnapshotDecode
      else if e = ErrRevisionMetadataDecode then Some FailureRevisionMetadata
      else None)"
| "FailureReasonOf (RevisionGap _ _) = Some FailureRevisionGap"
| "FailureReasonOf RevisionsOverlap = Some FailureRevisionOverlap"
| "FailureReasonOf (OverrideCollision _ _ _ _) = Some FailureOverrideCollision"
| "FailureReasonOf (RotationFailed _ _ _) = Some FailureRotation"
| "FailureReasonOf _ = None"

record schedule_on_call =
  soSchedule :: string
  soTeam :: string
  soTimezone :: string
  soSlackUsergroup :: string
  soDeletedAt :: "int option"
  soOnCall :: on_call

record projection_failure =
  pfSchedule :: string
  pfTeam :: string
  pfReason :: failure_reason
  pfError :: render_error

definition ListScheduleRoots :: "office \<Rightarrow> schedule_root list" where
  "ListScheduleRoots f = sort_key rtID (fRoots f)"

fun project_roots :: "externals \<Rightarrow> int \<Rightarrow> office \<Rightarrow> schedule_root list
    \<Rightarrow> render_error + schedule_on_call list \<times> projection_failure list" where
  "project_roots ext t f [] = Inr ([], [])"
| "project_roots ext t f (s # ss) =
     (case onCallOfRoot ext s t f of
        Inl e \<Rightarrow>
          (case FailureReasonOf e of
             None \<Rightarrow> Inl e
           | Some reason \<Rightarrow> then_ok (project_roots ext t f ss) (\<lambda>(out, failures).
               Inr (out, \<lparr>pfSchedule = rtID s, pfTeam = rtTeam s, pfReason = reason, pfError = e\<rparr> # failures)))
      | Inr (oc, r) \<Rightarrow> then_ok (project_roots ext t f ss) (\<lambda>(out, failures).
          Inr (\<lparr>soSchedule = rtID s, soTeam = rtTeam s,
              soTimezone = (case r of None \<Rightarrow> [] | Some r \<Rightarrow> ssTimezone (rvSnapshot r)),
              soSlackUsergroup = (case r of None \<Rightarrow> [] | Some r \<Rightarrow> ssSlackUsergroupID (rvSnapshot r)),
              soDeletedAt = rtDeletedAt s, soOnCall = oc\<rparr> # out, failures)))"

definition CurrentOnCallForAll :: "externals \<Rightarrow> int \<Rightarrow> office
    \<Rightarrow> render_error + schedule_on_call list \<times> projection_failure list" where
  "CurrentOnCallForAll ext at0 f = project_roots ext (NormalizeTimestamp at0) f (ListScheduleRoots f)"


section \<open>Boundaries are whole microseconds\<close>

lemma occurrence_whole: "t \<in> set (localOccurrences z c hh mm) \<Longrightarrow> second dvd t"
  by (drule occurrences_cand) (auto simp: utc_date_def)

lemma whole_seconds: "second dvd resolveLocalBoundary z c hh mm"
proof -
  have hd: "second dvd t" if "localOccurrences z c hh mm = t # ts" for c hh mm t ts
    using occurrence_whole [of t z c hh mm] that by simp
  have "second dvd local_date z c hh mm" for c hh mm by (simp add: local_date_def Let_def)
  then show ?thesis unfolding resolveLocalBoundary_def by (auto split: list.split prod.split dest: hd)
qed

lemma dvd_aligned: "TimestampResolution dvd t \<Longrightarrow> aligned t"
  by (simp add: aligned_def NormalizeTimestamp_def)

lemma slot_end_aligned: "aligned (slEnd (SlotContaining (methods g) t))"
proof -
  have "slEnd (SlotContaining (methods g) t) \<in> boundaries g" by (simp add: methods_def slot_facts)
  then have "second dvd slEnd (SlotContaining (methods g) t)" using whole_seconds by (auto simp: boundaries_def resolve_def)
  moreover have "TimestampResolution dvd second" by (simp add: TimestampResolution_def)
  ultimately show ?thesis by (intro dvd_aligned) (rule dvd_trans)
qed

lemma endOfTime_aligned: "aligned endOfTime"
  by (simp add: dvd_aligned endOfTime_def TimestampResolution_def)

lemma aligned_min: "aligned a \<Longrightarrow> aligned b \<Longrightarrow> aligned (min a b)" for a b :: int
  by (simp add: min_def)

lemma aligned_max: "aligned a \<Longrightarrow> aligned b \<Longrightarrow> aligned (max a b)" for a b :: int
  by (simp add: max_def)

section \<open>One slot of each layer is enough\<close>

definition holds_at :: "int \<Rightarrow> layer_slot \<Rightarrow> bool" where
  "holds_at t ls \<longleftrightarrow> ivStart (lsBound ls) \<le> t \<and> t < ivEnd (lsBound ls) \<and> aligned (ivEnd (lsBound ls))"

lemma layer_slot_at_readable:
  assumes "readable ext r" "rvFrom r \<le> t" "t < rev_end r" "aligned (rev_end r)"
  obtains ls where "layer_slot_at ext r t layer = Inr ls" "lsLayer ls = layer" "lsBase ls = layer_base ext r layer t" "holds_at t ls"
proof -
  obtain s gr where s: "resolveLayer ext r layer = Inr s" "stLayer s = layer" "stGrid s = methods gr"
    and base: "\<And>t. layer_base ext r layer t = drawn.base_of gr s t"
    and ph: "stActive s \<Longrightarrow> \<exists>a p. in_phase (methods gr) (stSnapshot s) a p"
    using resolveLayer_readable [OF assms(1), of layer] by blast
  let ?sl = "SlotContaining (methods gr) t"
  let ?b = "iv_intersect \<lparr>ivStart = slStart ?sl, ivEnd = slEnd ?sl\<rparr> (revisionInterval r)"
  have b: "ivStart ?b \<le> t" "t < ivEnd ?b" "aligned (ivEnd ?b)"
    using assms(2-4) built.slot_around [where t = t and g = gr] slot_end_aligned [of gr t]
    by (simp_all add: iv_intersect_def revisionInterval_def)
  show thesis
  proof (cases "stActive s")
    case True
    then obtain a p where "in_phase (methods gr) (stSnapshot s) a p" using ph by blast
    from built.position_total [OF this, of t] obtain k where
      k: "PositionAt (methods gr) (stSnapshot s) t = Inr (k, ?sl)" by blast
    show thesis
      by (rule that [of "\<lparr>lsLayer = layer, lsSlot = ?sl, lsBound = ?b, lsBase = Some (groupAt s k)\<rparr>"])
        (use True s k b in \<open>simp_all add: layer_slot_at_def Let_def base drawn.base_of_def holds_at_def\<close>)
  next
    case False
    show thesis
      by (rule that [of "\<lparr>lsLayer = layer, lsSlot = ?sl, lsBound = ?b, lsBase = None\<rparr>"])
        (use False s b in \<open>simp_all add: layer_slot_at_def Let_def base drawn.base_of_def holds_at_def\<close>)
  qed
qed

lemma slot_duty_one: "length (slot_duty layer base os t) \<le> 1"
  by (simp add: slot_duty_def split: list.split option.split)

lemma slot_is_answered:
  assumes "holds_at t ls" "\<And>t. length (coveringAt os t) \<le> 1"
  obtains as where "renderSlot \<lparr>siRevision = rid, siLayer = lsLayer ls, siSlot = lsSlot ls, siBound = lsBound ls,
      siBase = lsBase ls, siOverrides = os\<rparr> = Inr as"
    "map duty (case assignmentAt as t of None \<Rightarrow> [] | Some a \<Rightarrow> [a]) = slot_duty (lsLayer ls) (lsBase ls) os t"
proof -
  let ?i = "\<lparr>siRevision = rid, siLayer = lsLayer ls, siSlot = lsSlot ls, siBound = lsBound ls,
      siBase = lsBase ls, siOverrides = os\<rparr>"
  have "succeeds (renderSlot ?i)" by (rule renderSlot_succeeds) (use assms(2) in simp)
  then obtain as where as: "renderSlot ?i = Inr as" by (auto simp: succeeds_iff)
  have d: "map duty (filter (on_at t) as) = slot_duty (lsLayer ls) (lsBase ls) os t"
    using renderSlot_says(2) [OF as, of t] assms(1) by (simp add: holds_at_def duties_def)
  have "length (filter (on_at t) as) \<le> 1" using slot_duty_one d by (metis length_map)
  then have "(case assignmentAt as t of None \<Rightarrow> [] | Some a \<Rightarrow> [a]) = filter (on_at t) as"
    by (cases "filter (on_at t) as") (simp_all add: assignmentAt_def on_at_def [abs_def] find_filter)
  with as d that show thesis by simp
qed

text \<open>What a projection says of a layer.\<close>

definition answered :: "string \<Rightarrow> layer_on_call \<Rightarrow> duty_row" where
  "answered layer a = (layer, loSource a, loGroup a, loUsers a, loOverride a, loOverrideRevision a)"

definition projected :: "string \<Rightarrow> on_call \<Rightarrow> duty_row list" where
  "projected layer oc = map (answered layer)
     (case (if layer = LayerL1 then ocL1 oc else ocL2 oc) of None \<Rightarrow> [] | Some a \<Rightarrow> [a])"

lemma projected_nobody [simp]: "projected layer (nobody t) = []" "ocAt (nobody t) = t"
  by (simp_all add: projected_def nobody_def)

lemma answered_duty: "asLayer a = layer \<Longrightarrow> answered layer (layer_answer r os a) = duty a"
  by (simp add: answered_def layer_answer_def Let_def duty_def)

lemma slot_duty_in: "d \<in> set (slot_duty layer base os t) \<Longrightarrow> fst d = layer"
  by (auto simp: slot_duty_def split: list.splits option.splits)

lemma project_slots_says:
  assumes "holds_at t l1" "holds_at t l2" "lsLayer l1 = LayerL1" "lsLayer l2 = LayerL2"
    "\<And>layer t. length (coveringAt (overridesOfLayer layer os) t) \<le> 1"
  shows "\<exists>oc. projectOnCall r t [l1, l2] os = Inr oc \<and> ocAt oc = t \<and>
    projected LayerL1 oc = slot_duty LayerL1 (lsBase l1) (overridesOfLayer LayerL1 os) t \<and>
    projected LayerL2 oc = slot_duty LayerL2 (lsBase l2) (overridesOfLayer LayerL2 os) t"
proof -
  obtain as1 where 1: "renderSlot \<lparr>siRevision = rvID r, siLayer = LayerL1, siSlot = lsSlot l1, siBound = lsBound l1,
      siBase = lsBase l1, siOverrides = overridesOfLayer LayerL1 os\<rparr> = Inr as1"
    "map duty (case assignmentAt as1 t of None \<Rightarrow> [] | Some a \<Rightarrow> [a]) = slot_duty LayerL1 (lsBase l1) (overridesOfLayer LayerL1 os) t"
    by (rule slot_is_answered [OF assms(1,5), of "rvID r" LayerL1, unfolded assms(3)]) (rule that)
  obtain as2 where 2: "renderSlot \<lparr>siRevision = rvID r, siLayer = LayerL2, siSlot = lsSlot l2, siBound = lsBound l2,
      siBase = lsBase l2, siOverrides = overridesOfLayer LayerL2 os\<rparr> = Inr as2"
    "map duty (case assignmentAt as2 t of None \<Rightarrow> [] | Some a \<Rightarrow> [a]) = slot_duty LayerL2 (lsBase l2) (overridesOfLayer LayerL2 os) t"
    by (rule slot_is_answered [OF assms(2,5), of "rvID r" LayerL2, unfolded assms(4)]) (rule that)
  have "asLayer a = layer" if "map duty [a] = slot_duty layer base os' t" for a layer base os'
    using slot_duty_in [of "duty a" layer base os' t] that by (simp add: duty_def flip: that)
  then have said: "map (answered layer) (map (layer_answer r os) (case x of None \<Rightarrow> [] | Some a \<Rightarrow> [a])) = slot_duty layer base os' t"
    if "map duty (case x of None \<Rightarrow> [] | Some a \<Rightarrow> [a]) = slot_duty layer base os' t" for x layer base os'
    using that by (cases x) (auto simp: answered_duty)
  let ?oc = "\<lparr>ocAt = t, ocL1 = map_option (layer_answer r os) (assignmentAt as1 t),
      ocL2 = map_option (layer_answer r os) (assignmentAt as2 t)\<rparr>"
  have "projectOnCall r t [l1, l2] os = Inr ?oc"
    unfolding projectOnCall_def project_slots.simps assms(3,4) 1(1) 2(1) then_ok_simps nobody_def
    by (simp split: option.split)
  moreover have "projected LayerL1 ?oc = map (answered LayerL1) (map (layer_answer r os) (case assignmentAt as1 t of None \<Rightarrow> [] | Some a \<Rightarrow> [a]))"
    "projected LayerL2 ?oc = map (answered LayerL2) (map (layer_answer r os) (case assignmentAt as2 t of None \<Rightarrow> [] | Some a \<Rightarrow> [a]))"
    by (simp_all add: projected_def split: option.split)
  ultimately show ?thesis unfolding said [OF 1(2)] said [OF 2(2)] by (intro exI [of _ ?oc]) simp
qed

lemma range_holds:
  assumes "holds_at t l1" "holds_at t l2"
  obtains i where "onCallOverrideRange [l1, l2] = Some i" "ivStart i \<le> t" "t < ivEnd i" "aligned (ivEnd i)"
proof -
  let ?i = "\<lparr>ivStart = min (ivStart (lsBound l1)) (ivStart (lsBound l2)), ivEnd = max (ivEnd (lsBound l1)) (ivEnd (lsBound l2))\<rparr>"
  have "onCallOverrideRange [l1, l2] = Some ?i"
    using assms by (auto simp: onCallOverrideRange_def wider_def iv_empty_def holds_at_def)
  then show thesis by (rule that) (use assms in \<open>auto simp: holds_at_def aligned_max min_le_iff_disj less_max_iff_disj\<close>)
qed

lemma revision_is_projected:
  assumes "readable ext r" "rvKind r \<noteq> RevisionDeleted" "rvFrom r \<le> t" "t < rev_end r" "aligned (rev_end r)" "roster f"
  shows "\<exists>oc. onCallOfRevision ext r t f = Inr oc \<and> ocAt oc = t \<and>
    projected LayerL1 oc = duty_of ext r LayerL1 t f \<and> projected LayerL2 oc = duty_of ext r LayerL2 t f"
proof -
  obtain l1 where l1: "layer_slot_at ext r t LayerL1 = Inr l1" "lsLayer l1 = LayerL1" "lsBase l1 = layer_base ext r LayerL1 t" "holds_at t l1"
    by (rule layer_slot_at_readable [OF assms(1,3-5)])
  obtain l2 where l2: "layer_slot_at ext r t LayerL2 = Inr l2" "lsLayer l2 = LayerL2" "lsBase l2 = layer_base ext r LayerL2 t" "holds_at t l2"
    by (rule layer_slot_at_readable [OF assms(1,3-5)])
  obtain i where i: "onCallOverrideRange [l1, l2] = Some i" "ivStart i \<le> t" "t < ivEnd i" "aligned (ivEnd i)"
    by (rule range_holds [OF l1(4) l2(4)])
  let ?os = "GetOverrideProjectionInRange (rvSchedule r) (Some (ivStart i)) (Some (ivEnd i)) f"
  have one: "length (coveringAt (overridesOfLayer layer ?os) u) \<le> 1" for layer u by (rule projection_covers(1) [OF assms(6)])
  have "NormalizeTimestamp (ivStart i) \<le> t" using Normalize_le(1) [of "ivStart i"] i(2) by linarith
  then have "coveringAt (overridesOfLayer layer ?os) t = stand_in (rvSchedule r) layer t f" for layer
    using i(3,4) by (intro projection_covers(2) [OF assms(6)]) simp_all
  then have d: "slot_duty layer (layer_base ext r layer t) (overridesOfLayer layer ?os) t = duty_of ext r layer t f" for layer
    using assms(2) by (rule slot_duty_of)
  have e: "onCallOfRevision ext r t f = projectOnCall r t [l1, l2] ?os"
    using l1(1) l2(1) i(1) by (simp add: onCallOfRevision_def onCallSlots_def)
  show ?thesis unfolding e using project_slots_says [OF l1(4) l2(4) l1(2) l2(2) one, of r] unfolding l1(3) l2(3) d .
qed


lemma chain_end_aligned:
  assumes "chronicle f" "s \<in> set (fRoots f)" "r \<in> set (revs (rtID s) f)"
  shows "aligned (rev_end r)"
proof -
  have "linked (revs (rtID s) f)" "\<forall>r \<in> set (revs (rtID s) f). aligned (rvFrom r)"
    using assms(1,2) by (auto simp: chronicle_def chain_def Let_def)
  from linked_ends [OF this] assms(3) show ?thesis
    by (auto simp: revisionInterval_def endOfTime_aligned split: option.split)
qed

lemma root_is_projected:
  assumes "chronicle f" "roster f" "s \<in> set (fRoots f)" "\<forall>r \<in> set (revs (rtID s) f). legible ext f r"
    "aligned t" "t < endOfTime"
  shows "\<exists>oc r. onCallOfRoot ext s t f = Inr (oc, r) \<and> ocAt oc = t \<and>
    (\<forall>layer. layer = LayerL1 \<or> layer = LayerL2 \<longrightarrow> projected layer oc = duty_at ext (rtID s) layer t f)"
proof (cases "t < rtHistoryFrom s")
  case True
  then have "GetEffectiveRevision (rtID s) t f = Inl ErrRevisionNotFound"
    using chronicle_in_force [OF assms(1,3), of t] assms(5) by simp
  then show ?thesis using True by (simp add: onCallOfRoot_def duty_at_def)
next
  case False
  then obtain r where r: "r \<in> set (revs (rtID s) f)" "GetEffectiveRevision (rtID s) t f = Inr r"
    using chronicle_in_force [OF assms(1,3), of t] assms(5) by auto
  have "in_force t r" using r(2) assms(5)
    by (auto simp: GetEffectiveRevision_revs dest!: filter_eq_ConsD split: list.splits)
  then have in_r: "rvFrom r \<le> t" "t < rev_end r" using running_in_force [OF assms(6), of r] by (simp_all add: running_def)
  show ?thesis
  proof (cases "rvKind r = RevisionDeleted")
    case True
    then show ?thesis using r False by (simp add: onCallOfRoot_def chain_is_read(1) [OF assms(4)] duty_at_def duty_of_def)
  next
    case active: False
    have "readable ext r" "aligned (rev_end r)"
      using legible_readable [OF bspec [OF assms(4) r(1)]] r(1) chain_end_aligned [OF assms(1,3)] by simp_all
    from revision_is_projected [OF this(1) active in_r this(2) assms(2)] obtain oc where
      "onCallOfRevision ext r t f = Inr oc" "ocAt oc = t" "projected LayerL1 oc = duty_of ext r LayerL1 t f"
      "projected LayerL2 oc = duty_of ext r LayerL2 t f" by blast
    then show ?thesis using r(2) False active by (auto simp: onCallOfRoot_def chain_is_read(1) [OF assms(4)] duty_at_def)
  qed
qed

lemma current_is_on_duty:
  assumes "chronicle f" "roster f" "s \<in> set (fRoots f)" "\<forall>r \<in> set (revs (rtID s) f). legible ext f r"
    "NormalizeTimestamp at0 < endOfTime"
  obtains oc where "CurrentOnCall ext (rtID s) at0 f = Inr oc"
    "CurrentTeamOnCallNow ext (rtTeam s) at0 f = Inr \<lparr>tcSchedule = rtID s, tcDeletedAt = rtDeletedAt s, tcOnCall = oc\<rparr>"
    "ocAt oc = NormalizeTimestamp at0"
    "\<And>layer. layer = LayerL1 \<or> layer = LayerL2 \<Longrightarrow> projected layer oc = duty_at ext (rtID s) layer (NormalizeTimestamp at0) f"
proof -
  obtain oc r where oc: "onCallOfRoot ext s (NormalizeTimestamp at0) f = Inr (oc, r)" "ocAt oc = NormalizeTimestamp at0"
    "\<forall>layer. layer = LayerL1 \<or> layer = LayerL2 \<longrightarrow> projected layer oc = duty_at ext (rtID s) layer (NormalizeTimestamp at0) f"
    using root_is_projected [OF assms(1-4) Normalize_aligned assms(5)] by blast
  show thesis
  proof (rule that [of oc])
    show "CurrentOnCall ext (rtID s) at0 f = Inr oc"
      "CurrentTeamOnCallNow ext (rtTeam s) at0 f = Inr \<lparr>tcSchedule = rtID s, tcDeletedAt = rtDeletedAt s, tcOnCall = oc\<rparr>"
      using oc(1) GetScheduleRoot_found [OF assms(1,3)] by (simp_all add: CurrentOnCall_def CurrentTeamOnCallNow_def)
  qed (use oc(2,3) in blast)+
qed

section \<open>Damage is confined\<close>

definition blames :: "('e \<Rightarrow> bool) \<Rightarrow> 'e + 'a \<Rightarrow> bool" where
  "blames P x \<longleftrightarrow> (case x of Inl e \<Rightarrow> P e | Inr _ \<Rightarrow> True)"

lemma blames_simps [simp]:
  "blames P (Inl e) = P e" "blames P (Inr y)"
  by (simp_all add: blames_def)

lemma blames_then_ok: "blames P x \<Longrightarrow> (\<And>y. x = Inr y \<Longrightarrow> blames P (f y)) \<Longrightarrow> blames P (then_ok x f)"
  by (cases x) simp_all

definition local_damage :: "render_error \<Rightarrow> bool" where
  "local_damage e \<longleftrightarrow> FailureReasonOf e \<noteq> None"

lemma local_damage_simps [simp]:
  "local_damage (RevisionGap a b)" "local_damage RevisionsOverlap" "local_damage (OverrideCollision l a b us)"
  "local_damage (RotationFailed l m x)" "local_damage (ReadFailed ErrSnapshotDecode)"
  "local_damage (ReadFailed ErrRevisionMetadataDecode)"
  by (simp_all add: local_damage_def)

lemma render_spans_blames: "blames local_damage (render_spans i covering ps out)"
  by (induction i covering ps out rule: render_spans.induct) (auto split: list.split)

lemma layer_slot_blames: "blames local_damage (layer_slot_at ext r t layer)"
proof -
  have "blames local_damage (resolveLayer ext r layer)"
    by (simp add: resolveLayer_def Let_def split: sum.split)
  then show ?thesis unfolding layer_slot_at_def
    by (rule blames_then_ok) (auto simp: Let_def split: sum.split prod.split)
qed

lemma project_slots_blames: "blames local_damage (project_slots r t os slots out)"
proof (induction slots arbitrary: out)
  case (Cons ls slots)
  have "blames local_damage (renderSlot i)" for i by (simp add: renderSlot_def Let_def render_spans_blames)
  then show ?case unfolding project_slots.simps by (rule blames_then_ok) (rule Cons)
qed simp

lemma root_blames: "blames local_damage (onCallOfRoot ext s t f)"
proof -
  have slots: "blames local_damage (onCallSlots ext r t)" for r
    unfolding onCallSlots_def by (intro blames_then_ok layer_slot_blames blames_simps)
  have "blames local_damage (onCallOfRevision ext r t f)" for r
    unfolding onCallOfRevision_def using slots
    by (rule blames_then_ok) (simp add: projectOnCall_def project_slots_blames split: option.split)
  then have rv: "blames local_damage (then_ok (onCallOfRevision ext r t f) (\<lambda>out. Inr (out, Some r)))" for r
    by (rule blames_then_ok) simp
  then show ?thesis using ReadEffectiveRevision_blames [of ext "rtID s" t f]
    by (auto simp: onCallOfRoot_def read_failed_def split: sum.split)
qed

text \<open>The entry or the failure of one root.\<close>

definition listed :: "externals \<Rightarrow> int \<Rightarrow> office \<Rightarrow> schedule_on_call list \<Rightarrow> projection_failure list \<Rightarrow> schedule_root \<Rightarrow> bool" where
  "listed ext t f out failures s \<longleftrightarrow> (case onCallOfRoot ext s t f of
     Inl e \<Rightarrow> \<exists>x \<in> set failures. pfSchedule x = rtID s \<and> pfTeam x = rtTeam s \<and> pfError x = e \<and> FailureReasonOf e = Some (pfReason x)
   | Inr (oc, _) \<Rightarrow> \<exists>x \<in> set out. soSchedule x = rtID s \<and> soTeam x = rtTeam s \<and> soDeletedAt x = rtDeletedAt s \<and> soOnCall x = oc)"

lemma listed_mono:
  "listed ext t f out failures s \<Longrightarrow> set out \<subseteq> set out' \<Longrightarrow> set failures \<subseteq> set failures' \<Longrightarrow> listed ext t f out' failures' s"
  by (auto simp: listed_def split: sum.splits)

lemma project_roots_lists:
  "\<exists>out failures. project_roots ext t f ss = Inr (out, failures) \<and> length out + length failures = length ss \<and>
     (\<forall>s \<in> set ss. listed ext t f out failures s)"
proof (induction ss)
  case (Cons s ss)
  then obtain out failures where IH: "project_roots ext t f ss = Inr (out, failures)" "length out + length failures = length ss"
    "\<forall>s \<in> set ss. listed ext t f out failures s" by blast
  show ?case
  proof (cases "onCallOfRoot ext s t f")
    case (Inl e)
    then obtain reason where reason: "FailureReasonOf e = Some reason"
      using root_blames [of ext s t f] by (auto simp: local_damage_def)
    let ?x = "\<lparr>pfSchedule = rtID s, pfTeam = rtTeam s, pfReason = reason, pfError = e\<rparr>"
    have "listed ext t f out (?x # failures) s" using Inl reason by (simp add: listed_def)
    moreover have "\<forall>y \<in> set ss. listed ext t f out (?x # failures) y" using IH(3) by (auto elim!: listed_mono)
    ultimately show ?thesis using Inl reason IH(1,2) by simp
  next
    case (Inr p)
    obtain oc r where p: "p = (oc, r)" by force
    let ?x = "\<lparr>soSchedule = rtID s, soTeam = rtTeam s, soTimezone = (case r of None \<Rightarrow> [] | Some r \<Rightarrow> ssTimezone (rvSnapshot r)),
        soSlackUsergroup = (case r of None \<Rightarrow> [] | Some r \<Rightarrow> ssSlackUsergroupID (rvSnapshot r)),
        soDeletedAt = rtDeletedAt s, soOnCall = oc\<rparr>"
    have "listed ext t f (?x # out) failures s" using Inr p by (simp add: listed_def)
    moreover have "\<forall>y \<in> set ss. listed ext t f (?x # out) failures y" using IH(3) by (auto elim!: listed_mono)
    ultimately show ?thesis using Inr p IH(1,2) by simp
  qed
qed simp

end
