(* ===== verification/Preview.thy ===== *)
theory Preview
  imports OnCall Charter
begin

text \<open>
  The preview of a save (\<open>preview.go\<close>) and the shifts a calendar shows (\<open>merge.go\<close>).  A preview
  draws the history as it would be; what it shows is what the calendar says after the save.
\<close>

section \<open>Shifts\<close>

record shift =
  sfLayer :: string
  sfSource :: string
  sfGroup :: string
  sfUsers :: "string list"
  sfStart :: int
  sfEnd :: int
  sfOverride :: string
  sfOverrideRevision :: string

definition newShift :: "assignment \<Rightarrow> shift" where
  "newShift a = \<lparr>sfLayer = asLayer a, sfSource = asSource a, sfGroup = asGroup a, sfUsers = asUsers a,
     sfStart = asStart a, sfEnd = asEnd a, sfOverride = asOverride a, sfOverrideRevision = asOverrideRevision a\<rparr>"

definition canExtend :: "shift \<Rightarrow> assignment \<Rightarrow> bool" where
  "canExtend s a \<longleftrightarrow> sfLayer s = asLayer a \<and> sfSource s = asSource a \<and> sfGroup s = asGroup a \<and>
     sfOverride s = asOverride a \<and> sfOverrideRevision s = asOverrideRevision a \<and> sfUsers s = asUsers a \<and>
     sfEnd s = asStart a"

definition extend_shifts :: "shift list \<Rightarrow> assignment \<Rightarrow> shift list" where
  "extend_shifts out a =
     (if out \<noteq> [] \<and> canExtend (last out) a then butlast out @ [(last out)\<lparr>sfEnd := asEnd a\<rparr>]
      else out @ [newShift a])"

definition MergeAdjacent :: "assignment list \<Rightarrow> shift list" where
  "MergeAdjacent as = foldl extend_shifts [] as"

section \<open>The preview\<close>

definition PreviewDefaultWindow :: int where "PreviewDefaultWindow = 14 * 24 * 3600 * 1000000000"
definition PreviewMaxWindow :: int where "PreviewMaxWindow = 90 * 24 * 3600 * 1000000000"
definition PreviewRevisionID :: string where "PreviewRevisionID = ''preview''"

record preview_result =
  pvEvaluatedAt :: int
  pvBaseVersion :: int
  pvBefore :: on_call
  pvAfter :: on_call
  pvChanged :: bool
  pvEntries :: "shift list"
  pvWarnings :: "warning list"

datatype preview_error = PreviewRefused schedule_error | PreviewUnplanned rotation_error | PreviewUndrawn render_error

record preview_base =
  pbSchedule :: string
  pbRoot :: schedule_root
  pbCurrent :: "schedule_snapshot option"
  pbOnCall :: on_call
  pbRevisions :: "schedule_revision list"
  pbOverrides :: "override_revision list"

definition previewWindow :: "int \<Rightarrow> int option \<Rightarrow> int" where
  "previewWindow evaluatedAt until' =
     (case until' of
        None \<Rightarrow> evaluatedAt + PreviewDefaultWindow
      | Some u \<Rightarrow>
          let requested = NormalizeTimestamp u; most = evaluatedAt + PreviewMaxWindow
          in if \<not> evaluatedAt < requested then evaluatedAt + PreviewDefaultWindow
             else if most < requested then most else requested)"

definition previewRoot :: "schedule_root \<Rightarrow> schedule_root" where
  "previewRoot s = s\<lparr>rtDeletedAt := None\<rparr>"

definition hypothetical :: "string \<Rightarrow> int \<Rightarrow> schedule_snapshot \<Rightarrow> int \<Rightarrow> schedule_revision" where
  "hypothetical sid version snapshot evaluatedAt = \<lparr>rvID = PreviewRevisionID, rvSchedule = sid, rvVersion = version,
     rvKind = RevisionActive, rvSnapshot = snapshot, rvFrom = evaluatedAt, rvTo = None, rvRecordedAt = evaluatedAt,
     rvCreatedBy = None, rvReason = None, rvSummary = None\<rparr>"

definition spliceHypothetical :: "schedule_revision list \<Rightarrow> string \<Rightarrow> int \<Rightarrow> schedule_snapshot \<Rightarrow> int
    \<Rightarrow> schedule_revision list" where
  "spliceHypothetical revisions sid version snapshot evaluatedAt =
     map (\<lambda>r. if rvTo r = None then r\<lparr>rvTo := Some evaluatedAt\<rparr> else r) revisions @
     [hypothetical sid version snapshot evaluatedAt]"

definition loadPreviewBase :: "externals \<Rightarrow> string \<Rightarrow> int \<Rightarrow> int \<Rightarrow> office \<Rightarrow> preview_error + preview_base" where
  "loadPreviewBase ext tid evaluatedAt windowUntil f =
     (case GetScheduleRootByTeam tid f of
        Inl e \<Rightarrow>
          if e = ErrScheduleNotFound
          then Inr \<lparr>pbSchedule = [], pbRoot = \<lparr>rtID = [], rtTeam = tid, rtVersion = 0, rtHistoryFrom = evaluatedAt,
                 rtDeletedAt = None\<rparr>, pbCurrent = None, pbOnCall = nobody evaluatedAt, pbRevisions = [], pbOverrides = []\<rparr>
          else Inl (PreviewRefused e)
      | Inr s \<Rightarrow>
          (case onCallOfRoot ext s evaluatedAt f of
             Inl e \<Rightarrow> Inl (PreviewUndrawn e)
           | Inr (oc, effective) \<Rightarrow>
             (case ReadRevisionsInRange ext (rtID s) evaluatedAt windowUntil f of
                Inl e \<Rightarrow> Inl (PreviewRefused e)
              | Inr revisions \<Rightarrow>
               Inr \<lparr>pbSchedule = rtID s, pbRoot = previewRoot s,
                 pbCurrent = (case effective of None \<Rightarrow> None
                   | Some r \<Rightarrow> if rvKind r = RevisionActive then Some (rvSnapshot r) else None),
                 pbOnCall = oc\<lparr>ocAt := evaluatedAt\<rparr>,
                 pbRevisions = revisions,
                 pbOverrides = GetOverrideProjectionInRange (rtID s) (Some evaluatedAt) (Some windowUntil) f\<rparr>)))"

definition projectRevisionOnCall :: "externals \<Rightarrow> schedule_revision \<Rightarrow> int \<Rightarrow> override_revision list \<Rightarrow> render_error + on_call" where
  "projectRevisionOnCall ext r t overrides = then_ok (onCallSlots ext r t) (\<lambda>slots. projectOnCall r t slots overrides)"

definition onCallAfter :: "externals \<Rightarrow> preview_base \<Rightarrow> schedule_snapshot \<Rightarrow> int \<Rightarrow> office \<Rightarrow> render_error + on_call" where
  "onCallAfter ext base snapshot t f =
     (let r = hypothetical (pbSchedule base) (rtVersion (pbRoot base) + 1) snapshot t
      in if pbSchedule base = [] then projectRevisionOnCall ext r t [] else onCallOfRevision ext r t f)"

definition equalUserSets :: "string list \<Rightarrow> string list \<Rightarrow> bool" where
  "equalUserSets a b \<longleftrightarrow> length a = length b \<and> sort a = sort b"

definition sameLayerDuty :: "layer_on_call option \<Rightarrow> layer_on_call option \<Rightarrow> bool" where
  "sameLayerDuty a b = (case (a, b) of
     (Some x, Some y) \<Rightarrow> loSource x = loSource y \<and> equalUserSets (loUsers x) (loUsers y)
   | _ \<Rightarrow> a = None \<and> b = None)"

definition sameDuty :: "on_call \<Rightarrow> on_call \<Rightarrow> bool" where
  "sameDuty a b \<longleftrightarrow> sameLayerDuty (ocL1 a) (ocL1 b) \<and> sameLayerDuty (ocL2 a) (ocL2 b)"

definition previewed :: "externals \<Rightarrow> string \<Rightarrow> schedule_configuration \<Rightarrow> int \<Rightarrow> int \<Rightarrow> preview_base \<Rightarrow> office
    \<Rightarrow> preview_error + preview_result" where
  "previewed ext tid desired evaluatedAt windowUntil base f =
     (case ValidateMembership tid (ConfigurationUserIDs desired) f of
        Inl e \<Rightarrow> Inl (PreviewRefused e)
      | Inr _ \<Rightarrow>
          (case PlanTransition ext \<lparr>tiCurrent = pbCurrent base, tiDesired = desired, tiEffectiveAt = evaluatedAt\<rparr> of
             Inl e \<Rightarrow> Inl (PreviewUnplanned e)
           | Inr plan \<Rightarrow>
               let revisions = (case plan of NoopPlan \<Rightarrow> pbRevisions base
                     | Plan snapshot _ _ _ \<Rightarrow> spliceHypothetical (pbRevisions base) (pbSchedule base)
                         (rtVersion (pbRoot base) + 1) snapshot evaluatedAt)
               in (case Render ext (pbRoot base) revisions (pbOverrides base) evaluatedAt windowUntil of
                     Inl e \<Rightarrow> Inl (PreviewUndrawn e)
                   | Inr rendered \<Rightarrow>
                       let res = \<lparr>pvEvaluatedAt = evaluatedAt, pvBaseVersion = rtVersion (pbRoot base),
                             pvBefore = pbOnCall base, pvAfter = pbOnCall base, pvChanged = False,
                             pvEntries = MergeAdjacent (reAssignments rendered), pvWarnings = reWarnings rendered\<rparr>
                       in (case plan of
                             NoopPlan \<Rightarrow> Inr res
                           | Plan snapshot _ _ _ \<Rightarrow>
                               (case onCallAfter ext base snapshot evaluatedAt f of
                                  Inl e \<Rightarrow> Inl (PreviewUndrawn e)
                                | Inr after \<Rightarrow>
                                    Inr (res\<lparr>pvAfter := after, pvChanged := \<not> sameDuty (pbOnCall base) after\<rparr>))))))"

definition Preview :: "externals \<Rightarrow> int \<Rightarrow> string \<Rightarrow> schedule_configuration \<Rightarrow> int option \<Rightarrow> office
    \<Rightarrow> preview_error + preview_result" where
  "Preview ext now tid desired until' f =
     (case NormalizeConfiguration ext desired of
        Inl e \<Rightarrow> Inl (PreviewRefused (InvalidConfiguration e))
      | Inr normalized \<Rightarrow>
          let evaluatedAt = NormalizeTimestamp now; windowUntil = previewWindow evaluatedAt until'
          in then_ok (loadPreviewBase ext tid evaluatedAt windowUntil f) (\<lambda>base.
             previewed ext tid normalized evaluatedAt windowUntil base f))"

section \<open>Shifts say what assignments say\<close>

definition shift_duty :: "shift \<Rightarrow> duty_row" where
  "shift_duty s = (sfLayer s, sfSource s, sfGroup s, sfUsers s, sfOverride s, sfOverrideRevision s)"

definition shift_duties :: "string \<Rightarrow> int \<Rightarrow> shift list \<Rightarrow> duty_row list" where
  "shift_duties layer t ss = map shift_duty (filter (\<lambda>s. sfLayer s = layer \<and> sfStart s \<le> t \<and> t < sfEnd s) ss)"

lemma shift_duties_simps [simp]:
  "shift_duties layer t [] = []" "shift_duties layer t (ss @ us) = shift_duties layer t ss @ shift_duties layer t us"
  "shift_duties layer t [s] = (if sfLayer s = layer \<and> sfStart s \<le> t \<and> t < sfEnd s then [shift_duty s] else [])"
  by (simp_all add: shift_duties_def)

lemma extend_shifts_says:
  assumes "\<forall>s \<in> set out. sfStart s < sfEnd s" "asStart a < asEnd a"
  shows "(\<forall>s \<in> set (extend_shifts out a). sfStart s < sfEnd s) \<and>
    shift_duties layer t (extend_shifts out a) = shift_duties layer t out @ layer_duties layer t [a]"
proof (cases "out \<noteq> [] \<and> canExtend (last out) a")
  case True
  then obtain os s where out: "out = os @ [s]" by (metis append_butlast_last_id)
  with True have s: "sfLayer s = asLayer a" "sfEnd s = asStart a" "shift_duty s = duty a"
    by (simp_all add: canExtend_def shift_duty_def duty_def)
  have "shift_duty (s\<lparr>sfEnd := asEnd a\<rparr>) = duty a" using s(3) by (simp add: shift_duty_def)
  moreover have "sfStart s < asStart a" using assms(1) out s(2) by simp
  moreover have "extend_shifts out a = os @ [s\<lparr>sfEnd := asEnd a\<rparr>]" using True out by (simp add: extend_shifts_def)
  moreover have "\<forall>s \<in> set os. sfStart s < sfEnd s" using assms(1) out by simp
  ultimately show ?thesis using assms(2) s out by (auto simp: layer_duties_filter on_at_def)
next
  case False
  then show ?thesis using assms
    by (auto simp: extend_shifts_def newShift_def shift_duty_def layer_duties_filter on_at_def duty_def)
qed

lemma MergeAdjacent_says:
  assumes "proper as"
  shows "shift_duties layer t (MergeAdjacent as) = layer_duties layer t as"
proof -
  have "shift_duties layer t (foldl extend_shifts out as) = shift_duties layer t out @ layer_duties layer t as"
    if "\<forall>s \<in> set out. sfStart s < sfEnd s" for out
    using that assms
  proof (induction as arbitrary: out)
    case (Cons a as)
    then have a: "asStart a < asEnd a" "proper as" by simp_all
    note e = extend_shifts_says [OF Cons.prems(1) a(1), of layer t]
    show ?case using Cons.IH [OF conjunct1 [OF e] a(2)] conjunct2 [OF e]
      by (simp add: layer_duties_append [of layer t "[a]" as, simplified])
  qed simp
  from this [of "[]"] show ?thesis by (simp add: MergeAdjacent_def)
qed


section \<open>A window drawn from one revision\<close>

lemma layer_base_cong: "rvSnapshot r = rvSnapshot r' \<Longrightarrow> layer_base ext r = layer_base ext r'"
  by (simp add: layer_base_def fun_eq_iff)

lemma readable_cong: "rvSnapshot r = rvSnapshot r' \<Longrightarrow> readable ext r = readable ext r'"
  by (simp add: readable_def)

lemma render_revisions_proper:
  assumes "render_revisions ext q os c rs = Inr (ws, as)" "\<forall>r \<in> set rs. readable ext r"
  shows "proper as"
  using assms
proof (induction rs arbitrary: c ws as)
  case (Cons r rs)
  then obtain rvr c' where adv: "advance q c (revisionInterval r) = Inr (rvr, c')" by (auto elim: then_ok_InrE)
  let ?b = "iv_intersect rvr q"
  have rd: "readable ext r" "\<forall>r \<in> set rs. readable ext r" using Cons.prems(2) by simp_all
  consider (skip) "iv_empty ?b" | (dead) "\<not> iv_empty ?b" "rvKind r = RevisionDeleted"
    | (drawn) "\<not> iv_empty ?b" "rvKind r \<noteq> RevisionDeleted" by blast
  then show ?case
  proof cases
    case skip
    then show ?thesis using Cons.prems(1) adv Cons.IH [OF _ rd(2)] by (simp add: Let_def)
  next
    case dead
    then obtain ws' where "render_revisions ext q os c' rs = Inr (ws', as)" using Cons.prems(1) adv by (auto simp: Let_def)
    then show ?thesis using Cons.IH [OF _ rd(2)] by blast
  next
    case drawn
    then obtain l1 l2 ws' as' where ls: "renderLayer ext r LayerL1 ?b os = Inr l1" "renderLayer ext r LayerL2 ?b os = Inr l2"
      "render_revisions ext q os c' rs = Inr (ws', as')" "as = l1 @ l2 @ as'"
      using Cons.prems(1) adv by (auto simp: Let_def)
    have ne: "ivStart ?b < ivEnd ?b" using drawn(1) by (simp add: iv_empty_def)
    show ?thesis using renderLayer_says(1) [OF rd(1) ls(1) ne] renderLayer_says(1) [OF rd(1) ls(2) ne]
      Cons.IH [OF ls(3) rd(2)] by (simp add: ls(4))
  qed
qed (auto elim: then_ok_InrE)

lemma dead_prefix:
  assumes "rvFrom x < e" "e < u"
  shows "render_revisions ext \<lparr>ivStart = e, ivEnd = u\<rparr> os e (x\<lparr>rvTo := Some e\<rparr> # rs) =
    render_revisions ext \<lparr>ivStart = e, ivEnd = u\<rparr> os e rs"
  using assms by (simp add: advance_def Let_def revisionInterval_def iv_empty_def iv_intersect_def)

lemma proper_sort [simp]: "proper (sort_key k as) = proper as"
  by (simp add: proper_def)

lemma drawn_window:
  assumes r: "rvTo r = None" "rvFrom r \<le> e" "readable ext r" "rvKind r \<noteq> RevisionDeleted"
    and win: "e < u" "u \<le> endOfTime" "aligned e" "aligned u" "rtHistoryFrom s \<le> e"
    and one: "\<And>layer t. length (coveringAt (overridesOfLayer layer os) t) \<le> 1"
    and rs: "rs = [r] \<or> (\<exists>x. rs = [x\<lparr>rvTo := Some e\<rparr>, r] \<and> rvFrom x < e \<and> rvFrom r = e)"
  shows "\<exists>res. Render ext s rs os e u = Inr res \<and> proper (reAssignments res) \<and>
    (\<forall>layer t. (layer = LayerL1 \<or> layer = LayerL2) \<and> e \<le> t \<and> t < u \<longrightarrow>
      layer_duties layer t (reAssignments res) = slot_duty layer (layer_base ext r layer t) (overridesOfLayer layer os) t)"
proof -
  let ?q = "\<lparr>ivStart = e, ivEnd = u\<rparr>"
  have sorted: "sort_key (\<lambda>r. (rvFrom r, rvVersion r)) rs = rs" using rs by auto
  have one_left: "render_revisions ext ?q os e rs = render_revisions ext ?q os e [r]"
    using rs dead_prefix [OF _ win(1)] by metis
  have ends: "rev_end r = endOfTime" using r(1) by (simp add: revisionInterval_def)
  have links: "links (ivStart ?q) e [r]" "ivEnd ?q \<le> last_end e [r]" "\<forall>x \<in> set [r]. readable ext x"
    using r(2,3) win(1,2) ends by (simp_all add: last_end_def)
  obtain ws as where as: "render_revisions ext ?q os e [r] = Inr (ws, as)"
    using render_revisions_succeeds [OF links(1,3,2) one] by (auto simp: succeeds_iff)
  define res where "res = \<lparr>reFrom = e, reUntil = u, reAssignments = sort_key (\<lambda>a. (asLayer a, asStart a)) as,
      reHistoryComplete = (\<not> e < rtHistoryFrom s), reHistoryFrom = rtHistoryFrom s, reDeletedAt = rtDeletedAt s,
      reWarnings = (if e < rtHistoryFrom s then [HistoryIncomplete e (min u (rtHistoryFrom s))] else []) @ ws\<rparr>"
  have "Render ext s rs os e u = Inr res"
    using win as sorted one_left by (simp add: Render_def Let_def max_def res_def del: render_revisions.simps)
  moreover have "layer_duties layer t (reAssignments res) = slot_duty layer (layer_base ext r layer t) (overridesOfLayer layer os) t"
    if "layer = LayerL1 \<or> layer = LayerL2" "e \<le> t" "t < u" for layer t
  proof -
    have says: "layer_duties layer t as = slot_duty layer (layer_base ext r layer t) (overridesOfLayer layer os) t"
      using render_revisions_says [OF as links(1,3) that(1), of t] that(2,3) r win(2) ends
      by (simp add: shown_def running_def)
    have "length (filter (\<lambda>a. on_at t a \<and> asLayer a = layer) as) \<le> 1"
      using says slot_duty_one [of layer "layer_base ext r layer t"] by (metis layer_duties_filter length_map)
    from filter_sort_one [OF this, of "\<lambda>a. (asLayer a, asStart a)"]
    show ?thesis using says by (simp add: res_def layer_duties_filter)
  qed
  moreover have "proper (reAssignments res)" using render_revisions_proper [OF as links(3)] by (simp add: res_def)
  ultimately show ?thesis by blast
qed

lemma aligned_add: "aligned a \<Longrightarrow> TimestampResolution dvd d \<Longrightarrow> aligned (a + d)"
  by (auto simp: aligned_def NormalizeTimestamp_def TimestampResolution_def)

lemma window_facts:
  assumes "aligned e"
  shows "e < previewWindow e until'" "previewWindow e until' \<le> e + PreviewMaxWindow" "aligned (previewWindow e until')"
proof -
  have "aligned (e + PreviewDefaultWindow)" "aligned (e + PreviewMaxWindow)"
    using assms by (simp_all add: aligned_add PreviewDefaultWindow_def PreviewMaxWindow_def TimestampResolution_def)
  then show "e < previewWindow e until'" "previewWindow e until' \<le> e + PreviewMaxWindow" "aligned (previewWindow e until')"
    by (auto simp: previewWindow_def Let_def PreviewDefaultWindow_def PreviewMaxWindow_def split: option.split)
qed

section \<open>What a preview shows\<close>

lemma linked_tail_only:
  assumes "linked rs" "rvFrom (last rs) < e" "e < u"
  shows "filter (touches e u) rs = [last rs]"
  using assms
proof (induction rs rule: linked.induct)
  case (3 r s rs)
  have "rvFrom s \<le> rvFrom (last (s # rs))" using linked_starts [of "s # rs" s] 3(2) by simp
  then have "\<not> touches e u r" using 3 by (simp add: touches_def)
  then show ?case using 3 by simp
qed (simp_all add: touches_def)

definition planned_revision :: "schedule_revision \<Rightarrow> transition_plan \<Rightarrow> string \<Rightarrow> int \<Rightarrow> int \<Rightarrow> schedule_revision" where
  "planned_revision T plan sid version t = (case plan of NoopPlan \<Rightarrow> T | Plan snapshot _ _ _ \<Rightarrow> hypothetical sid version snapshot t)"

lemma checked_plan:
  "(case x of Inl e \<Rightarrow> Inl (g e) | Inr _ \<Rightarrow> Inr p) = Inr q \<longleftrightarrow> x = Inr () \<and> p = q" for x :: "'e + unit"
  by (cases x) auto

lemma planned_valid: "PlanTransition ext inp = Inr (Plan snap t1 t2 ch) \<Longrightarrow> snapshot_validate ext snap = Inr ()"
  unfolding PlanTransition_cases by (auto simp: checked_plan elim!: then_ok_InrE split: if_splits)

lemma noop_has_current: "PlanTransition ext inp = Inr NoopPlan \<Longrightarrow> tiCurrent inp \<noteq> None"
  unfolding PlanTransition_cases
  by (cases "tiCurrent inp") (auto simp: checked_plan unchanged_def elim!: then_ok_InrE split: if_splits)

lemma hypothetical_sel [simp]:
  "rvTo (hypothetical sid v snap t) = None" "rvFrom (hypothetical sid v snap t) = t"
  "rvKind (hypothetical sid v snap t) = RevisionActive" "rvSnapshot (hypothetical sid v snap t) = snap"
  "rvSchedule (hypothetical sid v snap t) = sid"
  by (simp_all add: hypothetical_def)

lemma hypothetical_is_projected:
  assumes "snapshot_validate ext snap = Inr ()" "aligned t" "t < endOfTime" "roster f"
  shows "succeeds (onCallAfter ext base snap t f)"
proof -
  let ?r = "hypothetical (pbSchedule base) (rtVersion (pbRoot base) + 1) snap t"
  have r: "readable ext ?r" "rvKind ?r \<noteq> RevisionDeleted" "rvFrom ?r \<le> t" "t < rev_end ?r" "aligned (rev_end ?r)"
    using assms(1,3) endOfTime_aligned by (simp_all add: readable_def revisionInterval_def)
  obtain l1 where l1: "layer_slot_at ext ?r t LayerL1 = Inr l1" "lsLayer l1 = LayerL1" "holds_at t l1"
    by (rule layer_slot_at_readable [OF r(1,3-5)])
  obtain l2 where l2: "layer_slot_at ext ?r t LayerL2 = Inr l2" "lsLayer l2 = LayerL2" "holds_at t l2"
    by (rule layer_slot_at_readable [OF r(1,3-5)])
  have none: "length (coveringAt (overridesOfLayer layer []) u) \<le> 1" for layer u
    by (simp add: coveringAt_def overridesOfLayer_def)
  have "succeeds (projectRevisionOnCall ext ?r t [])"
    using project_slots_says [OF l1(3) l2(3) l1(2) l2(2) none, of ?r] l1(1) l2(1)
    by (auto simp: projectRevisionOnCall_def onCallSlots_def succeeds_iff)
  moreover have "succeeds (onCallOfRevision ext ?r t f)"
    using revision_is_projected [OF r assms(4)] by (auto simp: succeeds_iff)
  ultimately show ?thesis unfolding onCallAfter_def Let_def by (split if_split) blast
qed

text \<open>A preview over a base whose revisions are drawn.\<close>

lemma previewed_shows:
  assumes "ValidateMembership tid (ConfigurationUserIDs desired) f = Inr ()"
    "PlanTransition ext \<lparr>tiCurrent = pbCurrent base, tiDesired = desired, tiEffectiveAt = e\<rparr> = Inr plan"
    "plan = NoopPlan \<Longrightarrow> pbRevisions base = [T]"
    "pbRevisions base = [T] \<Longrightarrow> rvTo T = None \<and> rvFrom T < e \<and> readable ext T"
    "pbRevisions base = [] \<or> pbRevisions base = [T]" "plan = NoopPlan \<Longrightarrow> rvKind T \<noteq> RevisionDeleted"
    "e < u" "u \<le> endOfTime" "aligned e" "aligned u" "rtHistoryFrom (pbRoot base) \<le> e" "roster f"
    and one: "\<And>layer t. length (coveringAt (overridesOfLayer layer (pbOverrides base)) t) \<le> 1"
  shows "\<exists>p. previewed ext tid desired e u base f = Inr p \<and> pvEvaluatedAt p = e \<and>
    (\<forall>layer t. (layer = LayerL1 \<or> layer = LayerL2) \<and> e \<le> t \<and> t < u \<longrightarrow> shift_duties layer t (pvEntries p) =
       slot_duty layer (layer_base ext (planned_revision T plan (pbSchedule base) (rtVersion (pbRoot base) + 1) e) layer t)
         (overridesOfLayer layer (pbOverrides base)) t)"
proof -
  let ?r = "planned_revision T plan (pbSchedule base) (rtVersion (pbRoot base) + 1) e"
  let ?rs = "case plan of NoopPlan \<Rightarrow> pbRevisions base | Plan snapshot _ _ _ \<Rightarrow>
    spliceHypothetical (pbRevisions base) (pbSchedule base) (rtVersion (pbRoot base) + 1) snapshot e"
  have r: "rvTo ?r = None" "rvFrom ?r \<le> e" "readable ext ?r" "rvKind ?r \<noteq> RevisionDeleted"
    using assms(3,4,6) planned_valid assms(2)
    by (cases plan; simp add: planned_revision_def readable_def)+
  have rs: "?rs = [?r] \<or> (\<exists>x. ?rs = [x\<lparr>rvTo := Some e\<rparr>, ?r] \<and> rvFrom x < e \<and> rvFrom ?r = e)"
    using assms(3-5) by (cases plan) (auto simp: planned_revision_def spliceHypothetical_def)
  obtain res where res: "Render ext (pbRoot base) ?rs (pbOverrides base) e u = Inr res" "proper (reAssignments res)"
    "\<forall>layer t. (layer = LayerL1 \<or> layer = LayerL2) \<and> e \<le> t \<and> t < u \<longrightarrow>
      layer_duties layer t (reAssignments res) = slot_duty layer (layer_base ext ?r layer t) (overridesOfLayer layer (pbOverrides base)) t"
    using drawn_window [OF r assms(7-11) one rs] by blast
  have "\<exists>p. previewed ext tid desired e u base f = Inr p \<and> pvEvaluatedAt p = e \<and> pvEntries p = MergeAdjacent (reAssignments res)"
  proof (cases plan)
    case NoopPlan
    then show ?thesis using assms(1,2) res(1) by (simp add: previewed_def Let_def)
  next
    case (Plan snap t1 t2 ch)
    have "succeeds (onCallAfter ext base snap e f)"
      by (rule hypothetical_is_projected) (use planned_valid assms(2,7-9,12) Plan in auto)
    then show ?thesis using assms(1,2) res(1) Plan by (auto simp: previewed_def Let_def succeeds_iff)
  qed
  then show ?thesis using res(3) MergeAdjacent_says [OF res(2)] by auto
qed


section \<open>A preview and the save it announces\<close>

lemma stand_in_cong: "fOverrides f' = fOverrides f \<Longrightarrow> stand_in sid layer t f' = stand_in sid layer t f"
  by (simp add: stand_in_def counts_def)

text \<open>The base of a preview of a schedule that exists: its last revision alone, and the overrides.\<close>

lemma base_of_schedule:
  assumes "chronicle f" "roster f" "s \<in> set (fRoots f)" "\<forall>r \<in> set (revs (rtID s) f). legible ext f r"
    "rvFrom (tail_of f s) < e" "e < u" "u \<le> endOfTime" "aligned e" "aligned u"
  shows "\<exists>oc. loadPreviewBase ext (rtTeam s) e u f = Inr \<lparr>pbSchedule = rtID s, pbRoot = previewRoot s,
      pbCurrent = (if rtDeletedAt s = None then Some (rvSnapshot (tail_of f s)) else None), pbOnCall = oc,
      pbRevisions = [tail_of f s], pbOverrides = GetOverrideProjectionInRange (rtID s) (Some e) (Some u) f\<rparr>"
    "rtHistoryFrom s \<le> e" "rvKind (tail_of f s) = RevisionActive \<longleftrightarrow> rtDeletedAt s = None"
proof -
  let ?T = "tail_of f s"
  have ch: "chain f s" using assms(1,3) by (simp add: chronicle_def)
  note c = chain_in_range [OF assms(1,3)]
  have T: "?T \<in> set (revs (rtID s) f)" "rvTo ?T = None" using chain_tail [OF assms(1,3)] by simp_all
  have hist: "rtHistoryFrom s \<le> rvFrom ?T" using linked_starts [OF c(1) T(1)] c(2) by simp
  then show "rtHistoryFrom s \<le> e" using assms(5) by simp
  have kind: "rvKind ?T = RevisionActive \<or> rvKind ?T = RevisionDeleted" "rvKind ?T = RevisionDeleted \<longleftrightarrow> rtDeletedAt s \<noteq> None"
    using ch T(1) unfolding chain_def Let_def tail_of_def by blast+
  then show k: "rvKind ?T = RevisionActive \<longleftrightarrow> rtDeletedAt s = None" by auto
  have eff: "GetEffectiveRevision (rtID s) e f = Inr ?T"
    by (rule GetEffectiveRevision_tail [OF assms(1,3)]) (use assms(5) in simp)
  obtain oc r where oc: "onCallOfRoot ext s e f = Inr (oc, r)"
    using root_is_projected [OF assms(1-4,8)] assms(6,7) by fastforce
  then have "r = Some ?T" using eff hist assms(5)
    by (auto simp: onCallOfRoot_def chain_is_read(1) [OF assms(4)] elim!: then_ok_InrE split: if_splits)
  moreover have "GetRevisionsInRange (rtID s) e u f = [?T]"
    unfolding c(5) using linked_tail_only [OF c(1) _ assms(6)] assms(5,8,9) by (simp add: tail_of_def)
  ultimately show "\<exists>oc. loadPreviewBase ext (rtTeam s) e u f = Inr \<lparr>pbSchedule = rtID s, pbRoot = previewRoot s,
      pbCurrent = (if rtDeletedAt s = None then Some (rvSnapshot (tail_of f s)) else None), pbOnCall = oc,
      pbRevisions = [tail_of f s], pbOverrides = GetOverrideProjectionInRange (rtID s) (Some e) (Some u) f\<rparr>"
    using oc k by (auto simp: loadPreviewBase_def GetScheduleRoot_found [OF assms(1,3)] chain_is_read(2) [OF assms(4)])
qed

text \<open>What is on duty once a revision with the planned snapshot is the last of the schedule.\<close>

lemma duty_after:
  assumes "chronicle f'" "roster f'" "s' \<in> set (fRoots f')" "rvSnapshot (tail_of f' s') = rvSnapshot r"
    "rvFrom (tail_of f' s') \<le> t" "rvKind (tail_of f' s') \<noteq> RevisionDeleted"
    "coveringAt os t = stand_in (rtID s') layer t f'"
  shows "duty_at ext (rtID s') layer t f' = slot_duty layer (layer_base ext r layer t) os t"
proof -
  have "rvSchedule (tail_of f' s') = rtID s'" using chain_tail(1) [OF assms(1,3)] by (simp add: revs_def)
  then have "slot_duty layer (layer_base ext (tail_of f' s') layer t) os t = duty_of ext (tail_of f' s') layer t f'"
    using assms(6,7) by (intro slot_duty_of) simp_all
  then show ?thesis using GetEffectiveRevision_tail [OF assms(1,3,5)] layer_base_cong [OF assms(4), of ext]
    by (simp add: duty_at_def)
qed

definition shows_until :: "externals \<Rightarrow> preview_result \<Rightarrow> int \<Rightarrow> string \<Rightarrow> office \<Rightarrow> bool" where
  "shows_until ext p u sid f' \<longleftrightarrow> (\<forall>layer t. (layer = LayerL1 \<or> layer = LayerL2) \<and> pvEvaluatedAt p \<le> t \<and> t < u \<longrightarrow>
     shift_duties layer t (pvEntries p) = duty_at ext sid layer t f')"

lemma preview_of_schedule:
  assumes "chronicle f" "roster f" "s \<in> set (fRoots f)" "\<forall>r \<in> set (revs (rtID s) f). legible ext f r"
    "NormalizeConfiguration ext desired0 = Inr desired" "ValidateMembership (rtTeam s) (ConfigurationUserIDs desired) f = Inr ()"
    "rvFrom (tail_of f s) < NormalizeTimestamp now" "NormalizeTimestamp now + PreviewMaxWindow \<le> endOfTime"
    "PlanTransition ext \<lparr>tiCurrent = (if rtDeletedAt s = None then Some (rvSnapshot (tail_of f s)) else None),
       tiDesired = desired, tiEffectiveAt = NormalizeTimestamp now\<rparr> = Inr plan"
    and after: "chronicle f'" "roster f'" "s' \<in> set (fRoots f')" "rtID s' = rtID s" "fOverrides f' = fOverrides f"
      "rvFrom (tail_of f' s') \<le> NormalizeTimestamp now" "rvKind (tail_of f' s') \<noteq> RevisionDeleted"
      "rvSnapshot (tail_of f' s') = (case plan of NoopPlan \<Rightarrow> rvSnapshot (tail_of f s) | Plan snapshot _ _ _ \<Rightarrow> snapshot)"
  shows "\<exists>p. Preview ext now (rtTeam s) desired0 until' f = Inr p \<and>
    shows_until ext p (previewWindow (NormalizeTimestamp now) until') (rtID s) f'"
proof -
  let ?e = "NormalizeTimestamp now" and ?T = "tail_of f s"
  let ?u = "previewWindow ?e until'"
  note u = window_facts [OF Normalize_aligned, of now until']
  have ue: "?u \<le> endOfTime" using u(2) assms(8) by simp
  note b = base_of_schedule [OF assms(1-4,7) u(1) ue Normalize_aligned u(3)]
  obtain oc where load: "loadPreviewBase ext (rtTeam s) ?e ?u f = Inr \<lparr>pbSchedule = rtID s, pbRoot = previewRoot s,
      pbCurrent = (if rtDeletedAt s = None then Some (rvSnapshot ?T) else None), pbOnCall = oc,
      pbRevisions = [?T], pbOverrides = GetOverrideProjectionInRange (rtID s) (Some ?e) (Some ?u) f\<rparr>"
    (is "_ = Inr ?base") using b(1) by blast
  have T: "?T \<in> set (revs (rtID s) f)" "rvTo ?T = None" using chain_tail [OF assms(1,3)] by simp_all
  have kind: "rvKind ?T \<noteq> RevisionDeleted" if "plan = NoopPlan"
    using noop_has_current [OF assms(9) [unfolded that]] b(3) by (auto split: if_splits)
  have "\<exists>p. previewed ext (rtTeam s) desired ?e ?u ?base f = Inr p \<and> pvEvaluatedAt p = ?e \<and>
    (\<forall>layer t. (layer = LayerL1 \<or> layer = LayerL2) \<and> ?e \<le> t \<and> t < ?u \<longrightarrow> shift_duties layer t (pvEntries p) =
       slot_duty layer (layer_base ext (planned_revision ?T plan (pbSchedule ?base) (rtVersion (pbRoot ?base) + 1) ?e) layer t)
         (overridesOfLayer layer (pbOverrides ?base)) t)"
    by (rule previewed_shows [where T = ?T])
      (use assms(2,6,7,9) legible_readable [of ext f ?T] bspec [OF assms(4) T(1)] T u ue b(2) kind projection_covers(1) [OF assms(2)] in \<open>simp_all add: previewRoot_def\<close>)
  then obtain p where p: "previewed ext (rtTeam s) desired ?e ?u ?base f = Inr p" "pvEvaluatedAt p = ?e"
    "\<And>layer t. (layer = LayerL1 \<or> layer = LayerL2) \<Longrightarrow> ?e \<le> t \<Longrightarrow> t < ?u \<Longrightarrow> shift_duties layer t (pvEntries p) =
       slot_duty layer (layer_base ext (planned_revision ?T plan (rtID s) (rtVersion (previewRoot s) + 1) ?e) layer t)
         (overridesOfLayer layer (GetOverrideProjectionInRange (rtID s) (Some ?e) (Some ?u) f)) t"
    by auto
  have "shift_duties layer t (pvEntries p) = duty_at ext (rtID s) layer t f'"
    if "layer = LayerL1 \<or> layer = LayerL2" "?e \<le> t" "t < ?u" for layer t
  proof -
    have "coveringAt (overridesOfLayer layer (GetOverrideProjectionInRange (rtID s) (Some ?e) (Some ?u) f)) t = stand_in (rtID s') layer t f'"
      unfolding after(4) stand_in_cong [OF after(5)]
      by (rule projection_covers(2) [OF assms(2)]) (use that(2,3) u(3) in simp_all)
    moreover have "rvSnapshot (tail_of f' s') = rvSnapshot (planned_revision ?T plan (rtID s) (rtVersion (previewRoot s) + 1) ?e)"
      using after(8) by (simp add: planned_revision_def split: transition_plan.split)
    ultimately show ?thesis unfolding p(3) [OF that]
      using duty_after [OF after(1-3) _ _ after(7)] after(4,6) that(2) by fastforce
  qed
  then have "shows_until ext p ?u (rtID s) f'" by (simp add: shows_until_def p(2))
  moreover have "Preview ext now (rtTeam s) desired0 until' f = Inr p"
    using assms(5) load p(1) by (simp add: Preview_def Let_def)
  ultimately show ?thesis by blast
qed

lemma preview_of_nothing:
  assumes "chronicle f'" "roster f'" "GetScheduleRootByTeam tid f = Inl ErrScheduleNotFound" "roster f"
    "NormalizeConfiguration ext desired0 = Inr desired" "ValidateMembership tid (ConfigurationUserIDs desired) f = Inr ()"
    "NormalizeTimestamp now + PreviewMaxWindow \<le> endOfTime"
    "PlanTransition ext \<lparr>tiCurrent = None, tiDesired = desired, tiEffectiveAt = NormalizeTimestamp now\<rparr> = Inr (Plan snap t1 t2 ch)"
    and after: "s' \<in> set (fRoots f')" "\<And>layer t. stand_in (rtID s') layer t f' = []"
      "rvFrom (tail_of f' s') \<le> NormalizeTimestamp now" "rvKind (tail_of f' s') \<noteq> RevisionDeleted"
      "rvSnapshot (tail_of f' s') = snap"
  shows "\<exists>p. Preview ext now tid desired0 until' f = Inr p \<and>
    shows_until ext p (previewWindow (NormalizeTimestamp now) until') (rtID s') f'"
proof -
  let ?e = "NormalizeTimestamp now" and ?T = "tail_of f' s'"
  let ?u = "previewWindow ?e until'"
  let ?base = "\<lparr>pbSchedule = [], pbRoot = \<lparr>rtID = [], rtTeam = tid, rtVersion = 0, rtHistoryFrom = ?e,
    rtDeletedAt = None\<rparr>, pbCurrent = None, pbOnCall = nobody ?e, pbRevisions = [], pbOverrides = []\<rparr>"
  note u = window_facts [OF Normalize_aligned, of now until']
  have ue: "?u \<le> endOfTime" using u(2) assms(7) by simp
  have none: "length (coveringAt (overridesOfLayer layer []) t) \<le> 1" "coveringAt (overridesOfLayer layer []) t = []" for layer t
    by (simp_all add: coveringAt_def overridesOfLayer_def)
  have "\<exists>p. previewed ext tid desired ?e ?u ?base f = Inr p \<and> pvEvaluatedAt p = ?e \<and>
    (\<forall>layer t. (layer = LayerL1 \<or> layer = LayerL2) \<and> ?e \<le> t \<and> t < ?u \<longrightarrow> shift_duties layer t (pvEntries p) =
       slot_duty layer (layer_base ext (planned_revision ?T (Plan snap t1 t2 ch) (pbSchedule ?base) (rtVersion (pbRoot ?base) + 1) ?e) layer t)
         (overridesOfLayer layer (pbOverrides ?base)) t)"
    by (rule previewed_shows [where T = ?T]) (use assms(4,6,8) u ue none in simp_all)
  then obtain p where p: "previewed ext tid desired ?e ?u ?base f = Inr p" "pvEvaluatedAt p = ?e"
    "\<And>layer t. (layer = LayerL1 \<or> layer = LayerL2) \<Longrightarrow> ?e \<le> t \<Longrightarrow> t < ?u \<Longrightarrow> shift_duties layer t (pvEntries p) =
       slot_duty layer (layer_base ext (planned_revision ?T (Plan snap t1 t2 ch) [] 1 ?e) layer t) (overridesOfLayer layer []) t"
    by auto
  have "shift_duties layer t (pvEntries p) = duty_at ext (rtID s') layer t f'"
    if "layer = LayerL1 \<or> layer = LayerL2" "?e \<le> t" "t < ?u" for layer t
    unfolding p(3) [OF that] using after that(2) none(2) [of layer t]
    by (intro duty_after [OF assms(1,2) after(1), symmetric]) (simp_all add: planned_revision_def)
  then have "shows_until ext p ?u (rtID s') f'" by (simp add: shows_until_def p(2))
  moreover have "Preview ext now tid desired0 until' f = Inr p"
    using assms(3,5) p(1) by (simp add: Preview_def Let_def loadPreviewBase_def)
  ultimately show ?thesis by blast
qed

end
