(* ===== verification/Timetable.thy ===== *)
theory Timetable
  imports Preview
begin

text \<open>
  What the calendar, the projection and the preview promise their users, in every state the
  commands can reach: one reference (\<open>duty_at\<close>), and all three agree with it.
\<close>

definition all_readable :: "externals \<Rightarrow> office \<Rightarrow> bool" where
  "all_readable ext f \<longleftrightarrow> list_all (legible ext f) (fRevisions f)"

lemma all_readableD: "all_readable ext f \<Longrightarrow> \<forall>r \<in> set (revs sid f). legible ext f r"
  by (auto simp: all_readable_def list_all_iff revs_def)

section \<open>The calendar and the projection\<close>

text \<open>
  C35. The calendar is exact: over every range of a schedule whose revisions can still be read it is
  drawn, and at every instant of the range the assignments drawn for a layer, the projection of
  that instant and the reference - the stand-in, or else the group the grid puts on duty - are one.
\<close>

theorem calendar_is_exact:
  assumes "reached (now, w)" "s \<in> set (fRoots (wOffice w))" "all_readable ext (wOffice w)"
    "NormalizeTimestamp from < NormalizeTimestamp until'" "NormalizeTimestamp until' \<le> endOfTime"
  shows "\<exists>res. RenderRange ext (rtID s) from until' (wOffice w) = Inr res \<and>
    (\<forall>layer t. (layer = LayerL1 \<or> layer = LayerL2) \<and> NormalizeTimestamp from \<le> t \<and> t < NormalizeTimestamp until' \<longrightarrow>
      layer_duties layer t (reAssignments res) = duty_at ext (rtID s) layer t (wOffice w) \<and>
      (aligned t \<longrightarrow> (\<exists>oc. CurrentOnCall ext (rtID s) t (wOffice w) = Inr oc \<and>
        projected layer oc = layer_duties layer t (reAssignments res))))"
proof -
  let ?f = "wOffice w"
  have f: "chronicle ?f" "roster ?f" using reached_in_order [OF assms(1)] by (simp_all add: in_order_def)
  note rd = all_readableD [OF assms(3), of "rtID s"]
  obtain res where res: "RenderRange ext (rtID s) from until' ?f = Inr res"
    "\<And>layer t. (layer = LayerL1 \<or> layer = LayerL2) \<and> NormalizeTimestamp from \<le> t \<and> t < NormalizeTimestamp until' \<Longrightarrow>
      layer_duties layer t (reAssignments res) = duty_at ext (rtID s) layer t ?f"
    using range_is_drawn [OF f assms(2) rd assms(4,5)] by blast
  have "\<exists>oc. CurrentOnCall ext (rtID s) t ?f = Inr oc \<and> projected layer oc = duty_at ext (rtID s) layer t ?f"
    if "layer = LayerL1 \<or> layer = LayerL2" "t < NormalizeTimestamp until'" "aligned t" for layer t
  proof -
    have "NormalizeTimestamp t < endOfTime" using that(2,3) assms(5) by simp
    then obtain oc where "CurrentOnCall ext (rtID s) t ?f = Inr oc"
      "\<And>layer. layer = LayerL1 \<or> layer = LayerL2 \<Longrightarrow> projected layer oc = duty_at ext (rtID s) layer (NormalizeTimestamp t) ?f"
      using current_is_on_duty [OF f assms(2) rd] by metis
    then show ?thesis using that(1,3) by auto
  qed
  with res show ?thesis by (intro exI [of _ res]) auto
qed

text \<open>
  C29. The calendar has one answer: from the start of its history on, a schedule has exactly one
  revision in force at every instant, before it none; and of the overrides the calendar reads for
  whatever range, at most one of a layer covers an instant, so that no two stand-ins collide.
\<close>

theorem calendar_has_one_answer:
  assumes "reached (now, w)" "s \<in> set (fRoots (wOffice w))"
  shows "(if NormalizeTimestamp t < rtHistoryFrom s
      then GetEffectiveRevision (rtID s) t (wOffice w) = Inl ErrRevisionNotFound
      else succeeds (GetEffectiveRevision (rtID s) t (wOffice w))) \<and>
    length (coveringAt (overridesOfLayer layer (GetOverrideProjectionInRange (rtID s) from until' (wOffice w))) t) \<le> 1"
proof -
  have f: "chronicle (wOffice w)" "roster (wOffice w)" using reached_in_order [OF assms(1)] by (simp_all add: in_order_def)
  show ?thesis using chronicle_in_force [OF f(1) assms(2), of t] projection_covers(1) [OF f(2)]
    by (auto simp: succeeds_iff split: if_splits)
qed

section \<open>Every schedule at once\<close>

text \<open>
  C36. Damage is confined: whatever rows the tables hold (the identifiers of schedules, a primary key,
  being distinct) - gaps, overlaps, colliding overrides,
  configurations the rotation refuses, text that no longer decodes - the projection of every
  schedule succeeds; each schedule is answered exactly as it is when it is asked alone, or is
  listed as a failure with the error it gives alone and a reason of the closed set - none is lost
  and none fails the others.
\<close>

theorem damage_is_confined:
  assumes "distinct (map rtID (fRoots f))"
  shows "\<exists>out failures. CurrentOnCallForAll ext at0 f = Inr (out, failures) \<and>
    length out + length failures = length (fRoots f) \<and>
    (\<forall>s \<in> set (fRoots f). case CurrentOnCall ext (rtID s) at0 f of
       Inr oc \<Rightarrow> \<exists>x \<in> set out. soSchedule x = rtID s \<and> soTeam x = rtTeam s \<and> soOnCall x = oc
     | Inl e \<Rightarrow> \<exists>x \<in> set failures. pfSchedule x = rtID s \<and> pfError x = e \<and> FailureReasonOf e = Some (pfReason x))"
proof -
  let ?t = "NormalizeTimestamp at0"
  obtain out failures where out: "project_roots ext ?t f (ListScheduleRoots f) = Inr (out, failures)"
    "length out + length failures = length (ListScheduleRoots f)" "\<forall>s \<in> set (ListScheduleRoots f). listed ext ?t f out failures s"
    using project_roots_lists by blast
  have "case CurrentOnCall ext (rtID s) at0 f of
       Inr oc \<Rightarrow> \<exists>x \<in> set out. soSchedule x = rtID s \<and> soTeam x = rtTeam s \<and> soOnCall x = oc
     | Inl e \<Rightarrow> \<exists>x \<in> set failures. pfSchedule x = rtID s \<and> pfError x = e \<and> FailureReasonOf e = Some (pfReason x)"
    if s: "s \<in> set (fRoots f)" for s
  proof -
    have "GetScheduleRoot (rtID s) f = Inr s" using find_key [OF assms s] by (simp add: GetScheduleRoot_def)
    then have "CurrentOnCall ext (rtID s) at0 f = then_ok (onCallOfRoot ext s ?t f) (\<lambda>(oc, _). Inr oc)"
      by (simp add: CurrentOnCall_def Let_def)
    moreover have "listed ext ?t f out failures s" using out(3) s by (simp add: ListScheduleRoots_def)
    ultimately show ?thesis by (cases "onCallOfRoot ext s ?t f") (auto simp: listed_def)
  qed
  then show ?thesis using out(1,2) by (simp add: CurrentOnCallForAll_def ListScheduleRoots_def)
qed

section \<open>A preview is what the save does\<close>

lemma no_stand_in:
  assumes "roster f" "sid \<notin> rtID ` set (fRoots f)"
  shows "stand_in sid layer t f = []"
proof -
  have "\<forall>r \<in> set (fOverrides f). tidy_row f r" using assms(1) unfolding roster_def tidy_def by blast
  then have "\<not> counts sid f r" if "r \<in> set (fOverrides f)" for r
    using that assms(2) is_head_schedule [of sid "fOverrides f" r] unfolding counts_def tidy_row_def by metis
  then show ?thesis by (simp add: stand_in_def filter_empty_conv)
qed

text \<open>
  C37. A preview is what the save does: if a save of a configuration succeeds and takes effect at the
  present instant, a preview of it at that instant succeeds, and the shifts it shows say at every
  instant of its window, for both layers, what the calendar says after the save.
\<close>

theorem preview_is_what_a_save_does:
  assumes "reached (now, w)" "all_readable (ckExt ck) (wOffice w)" "Save ck tid cmd (wOffice w) = Inr (res, f')"
    "srEffectiveAt res = NormalizeTimestamp (ckNow ck)" "NormalizeTimestamp (ckNow ck) + PreviewMaxWindow \<le> endOfTime"
  shows "\<exists>p s. Preview (ckExt ck) (ckNow ck) tid (svDesired cmd) until' (wOffice w) = Inr p \<and>
    s \<in> set (fRoots f') \<and> rtTeam s = tid \<and>
    shows_until (ckExt ck) p (previewWindow (NormalizeTimestamp (ckNow ck)) until') (rtID s) f'"
proof -
  let ?f = "wOffice w" and ?ext = "ckExt ck" and ?e = "NormalizeTimestamp (ckNow ck)"
  have f: "chronicle ?f" "roster ?f" using reached_in_order [OF assms(1)] by (simp_all add: in_order_def)
  note rd = all_readableD [OF assms(2)]
  from f(1) assms(3) show ?thesis
  proof (cases rule: Save_Inr)
    case (noop s)
    let ?cur = "if rtDeletedAt s = None then Some (rvSnapshot (tail_of ?f s)) else None"
    obtain desired where d: "NormalizeConfiguration ?ext (svDesired cmd) = Inr desired"
      "PlanTransition ?ext \<lparr>tiCurrent = ?cur, tiDesired = desired, tiEffectiveAt = ?e\<rparr> = Inr NoopPlan"
      "ValidateMembership tid (ConfigurationUserIDs desired) ?f = Inr ()"
      using noop(7) unfolding assms(4) noop_for_def tail_of_def by blast
    have t: "rvFrom (tail_of ?f s) < ?e" using noop(8) assms(4) by (simp add: tail_of_def)
    have "rtDeletedAt s = None" using noop_has_current [OF d(2)] by (simp split: if_splits)
    then have "rvKind (tail_of ?f s) \<noteq> RevisionDeleted"
      using f(1) noop(3) by (simp add: chronicle_def chain_def Let_def tail_of_def)
    with preview_of_schedule [OF f noop(3) rd d(1) _ t assms(5) d(2) f noop(3), of until'] d(3) t noop(4)
    obtain p where "Preview ?ext (ckNow ck) tid (svDesired cmd) until' ?f = Inr p"
      "shows_until ?ext p (previewWindow ?e until') (rtID s) ?f" by auto
    then show ?thesis using noop(1,3,4) by blast
  next
    case (founded s r desired)
    have f': "chronicle f'" "roster f'" using founds_chronicle [OF f(1)] founds_roster [OF f(2)] founded(2,3) by simp_all
    have tail: "tail_of f' s = r" using tail_founds [OF founded(2) f(1)] founded(3) by simp
    obtain t1 t2 ch where plan: "PlanTransition ?ext \<lparr>tiCurrent = None, tiDesired = desired, tiEffectiveAt = ?e\<rparr>
        = Inr (Plan (rvSnapshot r) t1 t2 ch)"
      using founded(6,7) by (auto simp: planned_for_def)
    have s: "s \<in> set (fRoots f')" using founded(3) by (simp add: founds_def)
    have alone: "stand_in (rtID s) layer t f' = []" for layer t
      using no_stand_in [OF f(2), of "rtID s"] stand_in_cong [of f' ?f] founded(2,3)
      by (simp add: founds_ok_def founds_def)
    have "rvKind r \<noteq> RevisionDeleted" using founded(2) by (simp add: founds_ok_def)
    with preview_of_nothing [OF f' founded(12) f(2) founded(1,8) assms(5) plan s alone, of until'] tail founded(6)
    obtain p where "Preview ?ext (ckNow ck) tid (svDesired cmd) until' ?f = Inr p"
      "shows_until ?ext p (previewWindow ?e until') (rtID s) f'" by auto
    then show ?thesis using founded(4) s by blast
  next
    case (extended s r desired)
    let ?cur = "if rtDeletedAt s = None then Some (rvSnapshot (tail_of ?f s)) else None"
    have f': "chronicle f'" "roster f'" using extends_chronicle [OF f(1)] extends_roster [OF f(2)] extended(5,6) by simp_all
    have r: "rvFrom r = ?e" using extended(14) assms(4) by simp
    obtain t1 t2 ch where plan: "PlanTransition ?ext \<lparr>tiCurrent = ?cur, tiDesired = desired, tiEffectiveAt = ?e\<rparr>
        = Inr (Plan (rvSnapshot r) t1 t2 ch)"
      using extended(9) unfolding planned_for_def r tail_of_def by blast
    have t: "rvFrom (tail_of ?f s) < ?e" using extended(5) r by (simp add: extends_ok_def tail_of_def)
    let ?s = "s\<lparr>rtVersion := rtVersion s + 1, rtDeletedAt := None\<rparr>"
    have s: "?s \<in> set (fRoots f')" using extended(2,6) by (force simp: extends_def)
    have tail: "tail_of f' ?s = r" using tail_extends [OF extended(5), of ?s] extended(6) by simp
    have "fOverrides f' = fOverrides ?f" using extended(6) by (simp add: extends_def)
    from preview_of_schedule [OF f extended(2) rd extended(1) _ t assms(5) plan f' s _ this, of until'] tail r extended(3,8,10)
    obtain p where "Preview ?ext (ckNow ck) tid (svDesired cmd) until' ?f = Inr p"
      "shows_until ?ext p (previewWindow ?e until') (rtID ?s) f'" by auto
    then show ?thesis using s extended(3) by (intro exI [of _ p] exI [of _ ?s]) simp
  qed
qed


section \<open>Witnesses\<close>

theorem calendar_is_exact_witness:
  "\<exists>res oc. RenderRange everywhere_utc ''s'' 5000 1000000 (wOffice ann_scheduled) = Inr res \<and>
     CurrentOnCall everywhere_utc ''s'' 7000 (wOffice ann_scheduled) = Inr oc \<and>
     projected LayerL1 oc = layer_duties LayerL1 7000 (reAssignments res)"
proof (rule ann_scheduled_office)
  fix r assume w: "wOffice ann_scheduled = (ann_office ann_people)\<lparr>fRoots := [\<lparr>rtID = ''s'', rtTeam = ''t'', rtVersion = 1,
      rtHistoryFrom = 5000, rtDeletedAt = None\<rparr>], fRevisions := [r]\<rparr>"
    and r: "snapshot_validate everywhere_utc (rvSnapshot r) = Inr ()"
  let ?s = "\<lparr>rtID = ''s'', rtTeam = ''t'', rtVersion = 1, rtHistoryFrom = 5000, rtDeletedAt = None\<rparr>"
  have at': "NormalizeTimestamp 1000000 = 1000000" "aligned 7000" "1000000 \<le> endOfTime"
    by (simp_all add: NormalizeTimestamp_def TimestampResolution_def aligned_def endOfTime_def)
  have "?s \<in> set (fRoots (wOffice ann_scheduled))" "all_readable everywhere_utc (wOffice ann_scheduled)"
    using r by (simp_all add: w all_readable_def legible_iff ann_office_def)
  from calendar_is_exact [OF ann_scheduled_reached this, of 5000 1000000]
  obtain res where res: "RenderRange everywhere_utc ''s'' 5000 1000000 (wOffice ann_scheduled) = Inr res"
    "\<forall>layer t. (layer = LayerL1 \<or> layer = LayerL2) \<and> 5000 \<le> t \<and> t < 1000000 \<longrightarrow>
      layer_duties layer t (reAssignments res) = duty_at everywhere_utc ''s'' layer t (wOffice ann_scheduled) \<and>
      (aligned t \<longrightarrow> (\<exists>oc. CurrentOnCall everywhere_utc ''s'' t (wOffice ann_scheduled) = Inr oc \<and>
        projected layer oc = layer_duties layer t (reAssignments res)))"
    using at' aligned_instants by auto
  from res(2) [rule_format, of LayerL1 7000] at'(2) res(1) show ?thesis by auto
qed

theorem calendar_has_one_answer_witness:
  "succeeds (GetEffectiveRevision ''s'' 7000 (wOffice ann_scheduled)) \<and>
     length (coveringAt (overridesOfLayer LayerL1 (GetOverrideProjectionInRange ''s'' None None (wOffice ann_scheduled))) 7000) \<le> 1"
proof (rule ann_scheduled_office)
  fix r assume w: "wOffice ann_scheduled = (ann_office ann_people)\<lparr>fRoots := [\<lparr>rtID = ''s'', rtTeam = ''t'', rtVersion = 1,
      rtHistoryFrom = 5000, rtDeletedAt = None\<rparr>], fRevisions := [r]\<rparr>"
  let ?s = "\<lparr>rtID = ''s'', rtTeam = ''t'', rtVersion = 1, rtHistoryFrom = 5000, rtDeletedAt = None\<rparr>"
  have "?s \<in> set (fRoots (wOffice ann_scheduled))" by (simp add: w)
  from calendar_has_one_answer [OF ann_scheduled_reached this, of 7000 LayerL1 None None] show ?thesis using aligned_instants by simp
qed

text \<open>
  One schedule whose revisions are lost, one that has not begun, and one whose only revision is
  stored as text the codec refuses.
\<close>

definition torn_row :: schedule_revision where
  "torn_row = (let l = \<lparr>lyEnabled = False, lyPolicy = \<lparr>rpCadence = [], rpHandoffTime = [], rpHandoffDay = None\<rparr>,
       lyGroups = [], lyAnchor = None, lyPosition = None\<rparr>
     in \<lparr>rvID = ''torn'', rvSchedule = ''u'', rvVersion = 1, rvKind = RevisionActive,
       rvSnapshot = \<lparr>ssSchemaVersion = 1, ssTimezone = [], ssSlackUsergroupID = [], ssL1 = l, ssL2 = l, ssL2Timeout = 1\<rparr>,
       rvFrom = 5000, rvTo = None, rvRecordedAt = 5000, rvCreatedBy = None, rvReason = None, rvSummary = None\<rparr>)"

definition broken_office :: office where
  "broken_office = (ann_office ann_people)\<lparr>fRoots :=
     [\<lparr>rtID = ''s'', rtTeam = ''t'', rtVersion = 1, rtHistoryFrom = 5000, rtDeletedAt = None\<rparr>,
      \<lparr>rtID = ''u'', rtTeam = ''v'', rtVersion = 1, rtHistoryFrom = 5000, rtDeletedAt = None\<rparr>,
      \<lparr>rtID = ''z'', rtTeam = ''w'', rtVersion = 1, rtHistoryFrom = 9000, rtDeletedAt = None\<rparr>],
     fRevisions := [torn_row], fBroken := (\<lambda>_. Some BrokenSnapshot)\<rparr>"

theorem damage_is_confined_witness:
  "\<exists>out failures. CurrentOnCallForAll everywhere_utc 7000 broken_office = Inr (out, failures) \<and>
     length out + length failures = 3 \<and> (\<exists>x. x \<in> set out \<and> soSchedule x = ''z'') \<and>
     (\<exists>y. y \<in> set failures \<and> pfSchedule y = ''s'' \<and> pfReason y = FailureRevisionGap) \<and>
     (\<exists>y. y \<in> set failures \<and> pfSchedule y = ''u'' \<and> pfReason y = FailureSnapshotDecode)"
proof -
  have none: "ReadEffectiveRevision everywhere_utc ''s'' 7000 broken_office = Inl ErrRevisionNotFound"
    by (simp add: ReadEffectiveRevision_def broken_office_def torn_row_def Let_def)
  have torn: "ReadEffectiveRevision everywhere_utc ''u'' 7000 broken_office = Inl ErrSnapshotDecode"
    using aligned_instants
    by (simp add: ReadEffectiveRevision_def broken_office_def torn_row_def Let_def in_force_def scanScheduleRevision_def)
  have alone: "CurrentOnCall everywhere_utc ''s'' 7000 broken_office = Inl (RevisionGap 7000 7000)"
    "CurrentOnCall everywhere_utc ''u'' 7000 broken_office = Inl (ReadFailed ErrSnapshotDecode)"
    "CurrentOnCall everywhere_utc ''z'' 7000 broken_office = Inr (nobody 7000)"
    using aligned_instants none torn
    by (simp_all add: CurrentOnCall_def broken_office_def GetScheduleRoot_def onCallOfRoot_def read_failed_def)
  have roots: "fRoots broken_office =
     [\<lparr>rtID = ''s'', rtTeam = ''t'', rtVersion = 1, rtHistoryFrom = 5000, rtDeletedAt = None\<rparr>,
      \<lparr>rtID = ''u'', rtTeam = ''v'', rtVersion = 1, rtHistoryFrom = 5000, rtDeletedAt = None\<rparr>,
      \<lparr>rtID = ''z'', rtTeam = ''w'', rtVersion = 1, rtHistoryFrom = 9000, rtDeletedAt = None\<rparr>]" by (simp add: broken_office_def)
  then have "distinct (map rtID (fRoots broken_office))" by simp
  from damage_is_confined [OF this, of everywhere_utc 7000]
  obtain out failures where out: "CurrentOnCallForAll everywhere_utc 7000 broken_office = Inr (out, failures)"
    "length out + length failures = length (fRoots broken_office)"
    and all: "\<forall>s \<in> set (fRoots broken_office). case CurrentOnCall everywhere_utc (rtID s) 7000 broken_office of
       Inr oc \<Rightarrow> \<exists>x \<in> set out. soSchedule x = rtID s \<and> soTeam x = rtTeam s \<and> soOnCall x = oc
     | Inl e \<Rightarrow> \<exists>x \<in> set failures. pfSchedule x = rtID s \<and> pfError x = e \<and> FailureReasonOf e = Some (pfReason x)"
    by blast
  have "\<exists>x. x \<in> set out \<and> soSchedule x = ''z''"
    "\<exists>y. y \<in> set failures \<and> pfSchedule y = ''s'' \<and> pfReason y = FailureRevisionGap"
    "\<exists>y. y \<in> set failures \<and> pfSchedule y = ''u'' \<and> pfReason y = FailureSnapshotDecode"
    using all unfolding roots by (auto simp: alone)
  with out show ?thesis by (intro exI [of _ out] exI [of _ failures]) (simp add: roots)
qed

lemma ann_save_succeeds:
  obtains res f' where "Save ann_clerk ''t'' ann_save (wOffice (ann_world ann_people)) = Inr (res, f')"
    "srEffectiveAt res = 5000"
proof -
  have office: "wOffice (ann_world ann_people) = ann_office ann_people" by (simp add: ann_world_def)
  have "fRoots (run_schedule ann_clerk (DoSave ''t'' ann_save) (ann_office ann_people)) \<noteq> []"
    by (rule ann_scheduled_office) (simp add: ann_scheduled_def)
  then obtain res f' where s: "Save ann_clerk ''t'' ann_save (ann_office ann_people) = Inr (res, f')"
    by (cases "Save ann_clerk ''t'' ann_save (ann_office ann_people)") auto
  have "NormalizeConfiguration (ckExt ann_clerk) (svDesired ann_save) = Inr without_bob"
    by (simp add: ann_clerk_def ann_save_def without_bob_normal)
  then have "initialize ann_clerk ''t'' without_bob [] None (ann_office ann_people) = Inr (res, f')"
    using s by (simp add: Save_def save_schedule_def requireActiveActor_def GetScheduleRootByTeam_def ann_save_def)
  then have "srEffectiveAt res = 5000" using aligned_instants
    by (auto simp: initialize_def Let_def ann_clerk_def elim!: then_ok_InrE split: sum.splits transition_plan.splits)
  with s that show thesis by (simp add: office)
qed

theorem preview_is_what_a_save_does_witness:
  "\<exists>p s res f'. Preview everywhere_utc 5000 ''t'' without_bob None (ann_office ann_people) = Inr p \<and>
     Save ann_clerk ''t'' ann_save (ann_office ann_people) = Inr (res, f') \<and> s \<in> set (fRoots f') \<and>
     shows_until everywhere_utc p (previewWindow 5000 None) (rtID s) f'"
proof (rule ann_save_succeeds)
  fix res f' assume s: "Save ann_clerk ''t'' ann_save (wOffice (ann_world ann_people)) = Inr (res, f')" "srEffectiveAt res = 5000"
  have ck: "ckExt ann_clerk = everywhere_utc" "ckNow ann_clerk = 5000" "svDesired ann_save = without_bob"
    "wOffice (ann_world ann_people) = ann_office ann_people"
    by (simp_all add: ann_clerk_def ann_save_def ann_world_def)
  have "all_readable (ckExt ann_clerk) (wOffice (ann_world ann_people))" by (simp add: ck all_readable_def)
  moreover have "srEffectiveAt res = NormalizeTimestamp (ckNow ann_clerk)"
    "NormalizeTimestamp (ckNow ann_clerk) + PreviewMaxWindow \<le> endOfTime"
    using s(2) by (simp_all add: ck aligned_instants PreviewMaxWindow_def endOfTime_def)
  ultimately have "\<exists>p s. Preview everywhere_utc 5000 ''t'' without_bob None (ann_office ann_people) = Inr p \<and>
     s \<in> set (fRoots f') \<and> rtTeam s = ''t'' \<and> shows_until everywhere_utc p (previewWindow 5000 None) (rtID s) f'"
    using preview_is_what_a_save_does [OF ann_reached _ s(1), where until' = None] unfolding ck aligned_instants by blast
  then show ?thesis using s(1) unfolding ck by blast
qed

end
