(* ===== verification/Incident.thy ===== *)
theory Incident
  imports Prelude "HOL-Library.AList" "HOL-Library.Finite_Map" "HOL-Library.Char_ord"
    "HOL-Library.List_Lexorder" "HOL-Library.Product_Lexorder"
begin

text \<open>
  What Alertmanager sends and what an open incident holds (\<open>internal/alertgroup/merge.go\<close>): the
  alerts of a payload are merged into the incident's, an alert a whole payload no longer names is
  marked, and the incident is over when nothing it holds is firing.

  A Go map from fingerprints to alerts is an association list; one of labels is a finite map.
  Of the transaction around these functions only what it does to the alerts and to the incident's
  being open is modelled (\<open>hear\<close>).
\<close>

section \<open>Alerts\<close>

definition AlertStatusFiring :: string where "AlertStatusFiring = ''firing''"
definition AlertStatusResolved :: string where "AlertStatusResolved = ''resolved''"

type_synonym labels = "(string, string) fmap"

record alert =
  alFingerprint :: string
  alStatus :: string
  alLabels :: labels
  alAnnotations :: labels
  alStartsAt :: int
  alEndsAt :: int
  alGeneratorURL :: string
  alStaleSince :: "int option"

datatype alert_state = AlertStateFiring | AlertStateStale | AlertStateResolved

definition State :: "alert \<Rightarrow> alert_state" where
  "State a = (if alStatus a \<noteq> AlertStatusFiring then AlertStateResolved
     else if alStaleSince a \<noteq> None then AlertStateStale else AlertStateFiring)"

record notification =
  ntAlerts :: "alert list"
  ntSnapshot :: bool
  ntIntegrationID :: string
  ntStaleAfterSeconds :: int

section \<open>Merging\<close>

definition FingerprintsOf :: "alert list \<Rightarrow> (string \<rightharpoonup> string)" where
  "FingerprintsOf alerts = fold (\<lambda>a out. out(alFingerprint a \<mapsto> alStatus a)) alerts Map.empty"

definition FilterMergeable :: "alert list \<Rightarrow> (string \<rightharpoonup> string) \<Rightarrow> alert list" where
  "FilterMergeable incoming existing =
     filter (\<lambda>a. \<not> (existing (alFingerprint a) = None \<and> alStatus a \<noteq> AlertStatusFiring)) incoming"

definition put_all :: "alert list \<Rightarrow> (string \<times> alert) list \<Rightarrow> (string \<times> alert) list" where
  "put_all = fold (\<lambda>a. AList.update (alFingerprint a) a)"

definition MergeAlerts :: "alert list \<Rightarrow> alert list \<Rightarrow> alert list" where
  "MergeAlerts existing incoming =
     sort_key (\<lambda>a. (alStartsAt a, alFingerprint a)) (map snd (put_all incoming (put_all existing [])))"

definition sameInstant :: "int option \<Rightarrow> int option \<Rightarrow> bool" where
  "sameInstant x y = (case (x, y) of (Some a, Some b) \<Rightarrow> a = b | _ \<Rightarrow> x = None \<and> y = None)"

definition sameStrings :: "labels \<Rightarrow> labels \<Rightarrow> bool" where
  "sameStrings x y \<longleftrightarrow> fcard (fmdom x) = fcard (fmdom y) \<and> fBall (fmdom x) (\<lambda>k. fmlookup y k = fmlookup x k)"

definition sameAlert :: "alert \<Rightarrow> alert \<Rightarrow> bool" where
  "sameAlert x y \<longleftrightarrow> alFingerprint x = alFingerprint y \<and> alStatus x = alStatus y \<and>
     sameInstant (alStaleSince x) (alStaleSince y) \<and> alGeneratorURL x = alGeneratorURL y \<and>
     alStartsAt x = alStartsAt y \<and> alEndsAt x = alEndsAt y \<and>
     sameStrings (alLabels x) (alLabels y) \<and> sameStrings (alAnnotations x) (alAnnotations y)"

definition SameAlerts :: "alert list \<Rightarrow> alert list \<Rightarrow> bool" where
  "SameAlerts a b \<longleftrightarrow> length a = length b \<and> list_all2 sameAlert a b"

section \<open>Silence\<close>

definition ReportedIn :: "alert list \<Rightarrow> string set" where
  "ReportedIn payload = alFingerprint ` set payload"

definition goes_stale :: "string set \<Rightarrow> alert \<Rightarrow> bool" where
  "goes_stale reported a \<longleftrightarrow>
     \<not> (alStatus a \<noteq> AlertStatusFiring \<or> alFingerprint a \<in> reported) \<and> alStaleSince a = None"

definition MarkStale :: "alert list \<Rightarrow> string set \<Rightarrow> int \<Rightarrow> alert list \<times> nat" where
  "MarkStale alerts reported t =
     (map (\<lambda>a. if goes_stale reported a then a\<lparr>alStaleSince := Some t\<rparr> else a) alerts,
      length (filter (goes_stale reported) alerts))"

definition silent_since :: "alert list \<Rightarrow> (string \<rightharpoonup> int)" where
  "silent_since held = fold (\<lambda>a silent. case alStaleSince a of None \<Rightarrow> silent
     | Some t \<Rightarrow> silent(alFingerprint a \<mapsto> t)) held Map.empty"

definition ReportedAgain :: "alert list \<Rightarrow> alert list \<Rightarrow> int \<Rightarrow> (string \<times> int) list" where
  "ReportedAgain held payload t = List.map_filter (\<lambda>a.
     case silent_since held (alFingerprint a) of None \<Rightarrow> None
     | Some since \<Rightarrow> Some (alStatus a, if t - since < 0 then 0 else t - since)) payload"

fun HeldOnlyByStale_from :: "bool \<Rightarrow> alert list \<Rightarrow> bool" where
  "HeldOnlyByStale_from stale' [] = stale'"
| "HeldOnlyByStale_from stale' (a # as) =
     (case State a of AlertStateFiring \<Rightarrow> False | AlertStateStale \<Rightarrow> HeldOnlyByStale_from True as
      | AlertStateResolved \<Rightarrow> HeldOnlyByStale_from stale' as)"

definition HeldOnlyByStale :: "alert list \<Rightarrow> bool" where
  "HeldOnlyByStale = HeldOnlyByStale_from False"

fun AllResolved :: "alert list \<Rightarrow> bool" where
  "AllResolved [] = True"
| "AllResolved (a # as) = (if alStatus a = AlertStatusFiring then False else AllResolved as)"

record applied =
  apAlerts :: "alert list"
  apRelevant :: "alert list"
  apResolving :: bool
  apMarked :: nat
  apBack :: "(string \<times> int) list"
  apHeldOnlyByStale :: bool

definition Apply :: "alert list \<Rightarrow> notification \<Rightarrow> int \<Rightarrow> applied" where
  "Apply held n t =
     (let relevant = FilterMergeable (ntAlerts n) (FingerprintsOf held);
          merged = MergeAlerts held relevant;
          back = ReportedAgain held (ntAlerts n) t;
          heldBefore = HeldOnlyByStale held;
          (alerts, marked) = (if ntSnapshot n then MarkStale merged (ReportedIn (ntAlerts n)) t else (merged, 0))
      in \<lparr>apAlerts = alerts, apRelevant = relevant, apResolving = AllResolved alerts, apMarked = marked,
          apBack = back, apHeldOnlyByStale = (\<not> heldBefore \<and> HeldOnlyByStale alerts)\<rparr>)"

section \<open>The history\<close>

datatype timeline_type = TimelineEventAlertAdded | TimelineEventAlertResolved

record timeline_event =
  teID :: string
  teAlertGroup :: string
  teType :: timeline_type
  teMessage :: string
  teActor :: string
  teMetadata :: "(string \<times> string) list"
  teCreatedAt :: int

definition alertname :: "alert \<Rightarrow> string" where
  "alertname a = (case fmlookup (alLabels a) ''alertname'' of None \<Rightarrow> [] | Some v \<Rightarrow> v)"

definition change_of :: "(string \<rightharpoonup> string) \<Rightarrow> alert \<Rightarrow> (timeline_type \<times> string) option" where
  "change_of existing a =
     (let previous = existing (alFingerprint a)
      in if previous = None \<and> alStatus a = AlertStatusFiring
         then Some (TimelineEventAlertAdded, ''Alert added: '' @ alertname a)
         else if previous = Some AlertStatusFiring \<and> alStatus a = AlertStatusResolved
         then Some (TimelineEventAlertResolved, ''Alert resolved: '' @ alertname a)
         else if previous = Some AlertStatusResolved \<and> alStatus a = AlertStatusFiring
         then Some (TimelineEventAlertAdded, ''Alert re-fired: '' @ alertname a)
         else None)"

fun timeline_from :: "(nat \<Rightarrow> string) \<Rightarrow> string \<Rightarrow> (string \<rightharpoonup> string) \<Rightarrow> int \<Rightarrow> nat \<Rightarrow> alert list \<Rightarrow> timeline_event list" where
  "timeline_from fresh gid existing base n [] = []"
| "timeline_from fresh gid existing base n (a # as) =
     (case change_of existing a of
        None \<Rightarrow> timeline_from fresh gid existing base n as
      | Some (ty, message) \<Rightarrow>
          \<lparr>teID = fresh n, teAlertGroup = gid, teType = ty, teMessage = message, teActor = ''system'',
           teMetadata = [(''fingerprint'', alFingerprint a)], teCreatedAt = base + (int n + 1) * 1000\<rparr>
          # timeline_from fresh gid existing base (Suc n) as)"

definition MergeTimelineEvents :: "(nat \<Rightarrow> string) \<Rightarrow> string \<Rightarrow> alert list \<Rightarrow> (string \<rightharpoonup> string) \<Rightarrow> int \<Rightarrow> timeline_event list" where
  "MergeTimelineEvents fresh gid incoming existing base = timeline_from fresh gid existing base 0 incoming"


section \<open>The last word about an alert\<close>

definition last_word :: "alert list \<Rightarrow> string \<Rightarrow> alert option" where
  "last_word as x = find (\<lambda>a. alFingerprint a = x) (rev as)"

lemma last_word_Nil [simp]: "last_word [] x = None"
  by (simp add: last_word_def)

lemma last_word_snoc [simp]: "last_word (as @ [a]) x = (if alFingerprint a = x then Some a else last_word as x)"
  by (simp add: last_word_def)

lemma last_word_append:
  "last_word (as @ bs) x = (case last_word bs x of None \<Rightarrow> last_word as x | Some b \<Rightarrow> Some b)"
  by (induction bs rule: rev_induct) (simp_all flip: append_assoc)

lemma last_word_in: "last_word as x = Some a \<Longrightarrow> a \<in> set as \<and> alFingerprint a = x"
  by (induction as rule: rev_induct) (auto split: if_splits)

lemma last_word_None: "last_word as x = None \<longleftrightarrow> x \<notin> alFingerprint ` set as"
  by (auto simp: last_word_def find_None_iff)

lemma last_word_unique:
  assumes "distinct (map alFingerprint as)" "a \<in> set as"
  shows "last_word as (alFingerprint a) = Some a"
proof -
  obtain b where b: "last_word as (alFingerprint a) = Some b"
    using assms(2) last_word_None [of as "alFingerprint a"] by auto
  then have "b = a" using last_word_in [OF b] assms by (auto simp: distinct_map dest: inj_onD)
  with b show ?thesis by simp
qed

lemma last_word_filter:
  assumes "distinct (map alFingerprint as)"
  shows "last_word (filter P as) x = (case last_word as x of None \<Rightarrow> None | Some a \<Rightarrow> if P a then Some a else None)"
proof (cases "last_word as x")
  case None
  then have "x \<notin> alFingerprint ` set (filter P as)" by (auto simp: last_word_None)
  then show ?thesis using None last_word_None [of "filter P as" x] by simp
next
  case (Some a)
  note a = last_word_in [OF Some]
  show ?thesis
  proof (cases "P a")
    case True
    have "distinct (map alFingerprint (filter P as))" using assms by (simp add: distinct_map_filter)
    with last_word_unique [OF this, of a] True a Some show ?thesis by simp
  next
    case False
    have "x \<notin> alFingerprint ` set (filter P as)" using a False assms by (auto simp: distinct_map dest: inj_onD)
    then show ?thesis using False Some last_word_None [of "filter P as" x] by simp
  qed
qed

lemma FingerprintsOf_word: "FingerprintsOf as x = map_option alStatus (last_word as x)"
  unfolding FingerprintsOf_def by (induction as rule: rev_induct) simp_all

lemma put_all_snoc [simp]: "put_all (as @ [a]) st = AList.update (alFingerprint a) a (put_all as st)"
  by (simp add: put_all_def)

lemma put_all_word: "map_of (put_all as []) x = last_word as x"
  by (induction as rule: rev_induct) (simp_all add: put_all_def update_conv')

lemma put_all_distinct: "distinct (map fst st) \<Longrightarrow> distinct (map fst (put_all as st))"
  by (induction as rule: rev_induct) (simp_all add: put_all_def distinct_update)

lemma put_all_append: "put_all bs (put_all as st) = put_all (as @ bs) st"
  by (simp add: put_all_def)

lemma put_all_in: "(x, a) \<in> set (put_all as []) \<longleftrightarrow> last_word as x = Some a"
  using put_all_distinct [of "[]" as] by (simp flip: put_all_word)

abbreviation alert_key :: "alert \<Rightarrow> int \<times> string" where
  "alert_key \<equiv> \<lambda>a. (alStartsAt a, alFingerprint a)"

definition canonical :: "alert list \<Rightarrow> bool" where
  "canonical as \<longleftrightarrow> distinct (map alFingerprint as) \<and> sorted (map alert_key as)"

lemma MergeAlerts_facts:
  shows "canonical (MergeAlerts held incoming)"
    and "a \<in> set (MergeAlerts held incoming) \<longleftrightarrow> last_word (held @ incoming) (alFingerprint a) = Some a"
    and "last_word (MergeAlerts held incoming) x = last_word (held @ incoming) x"
proof -
  let ?st = "put_all (held @ incoming) []"
  have m: "MergeAlerts held incoming = sort_key alert_key (map snd ?st)"
    by (simp add: MergeAlerts_def put_all_append)
  have keys: "map alFingerprint (map snd ?st) = map fst ?st"
    using last_word_in by (auto simp: put_all_in)
  have d: "distinct (map alFingerprint (map snd ?st))" unfolding keys by (rule put_all_distinct) simp
  then have "distinct (map alFingerprint (MergeAlerts held incoming))"
    using d unfolding m by (simp only: distinct_map set_sort distinct_sort)
  then show c: "canonical (MergeAlerts held incoming)" by (simp add: canonical_def m)
  show set: "a \<in> set (MergeAlerts held incoming) \<longleftrightarrow> last_word (held @ incoming) (alFingerprint a) = Some a" for a
  proof
    assume "a \<in> set (MergeAlerts held incoming)"
    then obtain k where "(k, a) \<in> set ?st" by (auto simp: m)
    then show "last_word (held @ incoming) (alFingerprint a) = Some a" using last_word_in by (auto simp: put_all_in)
  next
    assume "last_word (held @ incoming) (alFingerprint a) = Some a"
    then have "(alFingerprint a, a) \<in> set ?st" by (simp add: put_all_in)
    then show "a \<in> set (MergeAlerts held incoming)" unfolding m by force
  qed
  show "last_word (MergeAlerts held incoming) x = last_word (held @ incoming) x"
  proof (cases "last_word (held @ incoming) x")
    case None
    have "x \<notin> alFingerprint ` set (MergeAlerts held incoming)" using set None by auto
    then show ?thesis using None by (simp add: last_word_None [symmetric])
  next
    case (Some a)
    then have "a \<in> set (MergeAlerts held incoming)" "alFingerprint a = x" using set last_word_in [OF Some] by auto
    then show ?thesis using last_word_unique c Some by (auto simp: canonical_def)
  qed
qed

lemma canonical_unique:
  assumes "canonical xs" "canonical ys" "set xs = set ys"
  shows "xs = ys"
proof -
  have inj: "inj_on alert_key (set xs \<union> set ys)"
    using assms by (auto simp: canonical_def distinct_map inj_on_def)
  have "distinct (map alert_key xs)" "distinct (map alert_key ys)"
    using assms by (auto simp: canonical_def distinct_map inj_on_def)
  then have "map alert_key xs = map alert_key ys"
    using assms by (intro sorted_distinct_set_unique) (simp_all add: canonical_def)
  then show ?thesis by (rule map_inj_on) (rule inj)
qed

section \<open>Marks\<close>

definition marked :: "notification \<Rightarrow> int \<Rightarrow> alert \<Rightarrow> alert" where
  "marked n t a = (if ntSnapshot n \<and> goes_stale (ReportedIn (ntAlerts n)) a then a\<lparr>alStaleSince := Some t\<rparr> else a)"

lemma marked_sel [simp]:
  "alFingerprint (marked n t a) = alFingerprint a" "alStatus (marked n t a) = alStatus a"
  "alStartsAt (marked n t a) = alStartsAt a"
  by (simp_all add: marked_def)

lemma last_word_map:
  assumes "\<And>a. alFingerprint (g a) = alFingerprint a"
  shows "last_word (map g as) x = map_option g (last_word as x)"
  using assms by (induction as rule: rev_induct) simp_all

definition relevant_of :: "alert list \<Rightarrow> notification \<Rightarrow> alert list" where
  "relevant_of held n = FilterMergeable (ntAlerts n) (FingerprintsOf held)"

lemma Apply_sel:
  "apAlerts (Apply held n t) = map (marked n t) (MergeAlerts held (relevant_of held n))"
  "apRelevant (Apply held n t) = relevant_of held n"
  "apResolving (Apply held n t) = AllResolved (apAlerts (Apply held n t))"
  "apBack (Apply held n t) = ReportedAgain held (ntAlerts n) t"
  "apMarked (Apply held n t) = (if ntSnapshot n then length (filter (goes_stale (ReportedIn (ntAlerts n))) (MergeAlerts held (relevant_of held n))) else 0)"
  "apHeldOnlyByStale (Apply held n t) \<longleftrightarrow> \<not> HeldOnlyByStale held \<and> HeldOnlyByStale (apAlerts (Apply held n t))"
  by (simp_all add: Apply_def Let_def relevant_of_def MarkStale_def marked_def [abs_def])

lemma Apply_canonical: "canonical (apAlerts (Apply held n t))"
  using MergeAlerts_facts(1) [of held "relevant_of held n"] by (simp add: Apply_sel(1) canonical_def o_def)

lemma Apply_word: "last_word (apAlerts (Apply held n t)) x = map_option (marked n t) (last_word (held @ relevant_of held n) x)"
  by (simp add: Apply_sel(1) last_word_map MergeAlerts_facts(3))

lemma relevant_iff: "a \<in> set (relevant_of held n) \<longleftrightarrow> a \<in> set (ntAlerts n) \<and>
    (alFingerprint a \<in> alFingerprint ` set held \<or> alStatus a = AlertStatusFiring)"
  by (auto simp: relevant_of_def FilterMergeable_def FingerprintsOf_word last_word_None)

lemma relevant_word:
  assumes "distinct (map alFingerprint (ntAlerts n))"
  shows "last_word (relevant_of held n) x = (case last_word (ntAlerts n) x of None \<Rightarrow> None
    | Some a \<Rightarrow> if last_word held x = None \<and> alStatus a \<noteq> AlertStatusFiring then None else Some a)"
  using last_word_in [of "ntAlerts n" x]
  by (auto simp: relevant_of_def FilterMergeable_def last_word_filter [OF assms] FingerprintsOf_word split: option.split)

lemma AllResolved_iff: "AllResolved as \<longleftrightarrow> (\<forall>a \<in> set as. alStatus a \<noteq> AlertStatusFiring)"
  by (induction as) auto

section \<open>A repeat is no news\<close>

lemma sameStrings_iff: "sameStrings x y \<longleftrightarrow> x = y"
proof
  assume same: "sameStrings x y"
  have sub: "fmdom x |\<subseteq>| fmdom y"
  proof
    fix k assume "k |\<in>| fmdom x"
    then obtain v where "fmlookup x k = Some v" by (auto simp: fmlookup_dom_iff)
    moreover have "fmlookup y k = fmlookup x k" using same \<open>k |\<in>| fmdom x\<close> by (auto simp: sameStrings_def)
    ultimately show "k |\<in>| fmdom y" by (auto simp: fmlookup_dom_iff)
  qed
  have "fmdom x = fmdom y"
  proof (rule ccontr)
    assume "fmdom x \<noteq> fmdom y"
    with sub have "fmdom x |\<subset>| fmdom y" by blast
    then have "fcard (fmdom x) < fcard (fmdom y)" by (rule pfsubset_fcard_mono)
    then show False using same by (simp add: sameStrings_def)
  qed
  then show "x = y" using same by (intro fmap_ext) (metis fmdom_notI sameStrings_def fBallE fmdomE fmlookup_dom_iff option.exhaust)
qed (simp add: sameStrings_def)

lemma sameAlert_iff: "sameAlert x y \<longleftrightarrow> x = y"
proof -
  have "sameInstant a b \<longleftrightarrow> a = b" for a b by (auto simp: sameInstant_def split: option.splits)
  then show ?thesis by (auto simp: sameAlert_def sameStrings_iff)
qed

lemma SameAlerts_iff: "SameAlerts as bs \<longleftrightarrow> as = bs"
proof -
  have "sameAlert = (=)" by (intro ext) (rule sameAlert_iff)
  then show ?thesis by (auto simp: SameAlerts_def list.rel_eq)
qed

lemma map_filter_none: "(\<And>a. a \<in> set as \<Longrightarrow> g a = None) \<Longrightarrow> List.map_filter g as = []"
  by (induction as) (simp_all add: map_filter_simps)

lemma Apply_again:
  fixes held :: "alert list" and t t' :: int
  assumes "distinct (map alFingerprint (ntAlerts n))" "\<forall>a \<in> set (ntAlerts n). alStaleSince a = None"
  defines "after \<equiv> apAlerts (Apply held n t)"
  shows "relevant_of after n = relevant_of held n" "apAlerts (Apply after n t') = after"
    "ReportedAgain after (ntAlerts n) t' = []"
    "ntSnapshot n \<Longrightarrow> filter (goes_stale (ReportedIn (ntAlerts n))) (MergeAlerts after (relevant_of after n)) = []"
    "a \<in> set (relevant_of held n) \<Longrightarrow> FingerprintsOf after (alFingerprint a) = Some (alStatus a)"
proof -
  let ?p = "ntAlerts n" and ?R = "relevant_of held n"
  have word: "last_word after x = map_option (marked n t) (last_word (held @ ?R) x)" for x
    unfolding after_def by (rule Apply_word)
  have R: "last_word ?R x = Some a \<Longrightarrow> last_word after x = Some a" for x a
    using last_word_in [of ?R x a] assms(2)
    by (auto simp: word last_word_append marked_def goes_stale_def ReportedIn_def relevant_iff)
  have dR: "distinct (map alFingerprint ?R)"
    using assms(1) by (simp add: relevant_of_def FilterMergeable_def distinct_map_filter)
  show R2: "relevant_of after n = ?R"
    unfolding relevant_of_def FilterMergeable_def
  proof (rule filter_cong [OF refl])
    fix a assume a: "a \<in> set ?p"
    have "last_word after (alFingerprint a) = None \<and> alStatus a \<noteq> AlertStatusFiring \<longleftrightarrow>
        last_word held (alFingerprint a) = None \<and> alStatus a \<noteq> AlertStatusFiring"
      using relevant_word [OF assms(1), of held "alFingerprint a"] last_word_unique [OF assms(1) a]
      by (auto simp: word last_word_append split: option.splits if_splits)
    then show "(\<not> (FingerprintsOf after (alFingerprint a) = None \<and> alStatus a \<noteq> AlertStatusFiring)) =
        (\<not> (FingerprintsOf held (alFingerprint a) = None \<and> alStatus a \<noteq> AlertStatusFiring))"
      by (simp add: FingerprintsOf_word)
  qed
  show "FingerprintsOf after (alFingerprint a) = Some (alStatus a)" if "a \<in> set ?R" for a
    using R [OF last_word_unique [OF dR that]] by (simp add: FingerprintsOf_word)
  have can: "canonical after" unfolding after_def by (rule Apply_canonical)
  have "last_word (after @ ?R) x = last_word after x" for x
    using R [of x] by (simp add: last_word_append split: option.split)
  then have "a \<in> set (MergeAlerts after ?R) \<longleftrightarrow> last_word after (alFingerprint a) = Some a" for a
    by (simp add: MergeAlerts_facts(2))
  moreover have "a \<in> set after \<longleftrightarrow> last_word after (alFingerprint a) = Some a" for a
    using can last_word_unique [of after a] last_word_in [of after "alFingerprint a" a] by (auto simp: canonical_def)
  ultimately have "set (MergeAlerts after ?R) = set after" by blast
  then have same: "MergeAlerts after ?R = after"
    by (rule canonical_unique [OF MergeAlerts_facts(1) can])
  have "marked n t' (marked n t a) = marked n t a" for a by (simp add: marked_def goes_stale_def)
  then have "map (marked n t') after = after" unfolding after_def Apply_sel(1) by simp
  then show "apAlerts (Apply after n t') = after" by (simp add: Apply_sel(1) R2 same)
  show "filter (goes_stale (ReportedIn ?p)) (MergeAlerts after (relevant_of after n)) = []" if "ntSnapshot n"
    unfolding R2 same unfolding after_def Apply_sel(1) using that
    by (auto simp: filter_empty_conv marked_def goes_stale_def)
  have silent: "silent_since as x = Some s \<Longrightarrow> \<exists>a \<in> set as. alFingerprint a = x \<and> alStaleSince a = Some s" for as x s
    unfolding silent_since_def
    by (induction as rule: rev_induct) (auto split: option.splits if_splits)
  have "silent_since after (alFingerprint a) = None" if a: "a \<in> set ?p" for a
  proof (rule ccontr)
    assume "silent_since after (alFingerprint a) \<noteq> None"
    then obtain b s where b: "b \<in> set after" "alFingerprint b = alFingerprint a" "alStaleSince b = Some s"
      using silent [of after "alFingerprint a"] by auto
    then have "last_word after (alFingerprint a) = Some b"
      using last_word_unique can unfolding canonical_def by metis
    moreover from this have "last_word ?R (alFingerprint a) = Some a"
      using relevant_word [OF assms(1), of held "alFingerprint a"] last_word_unique [OF assms(1) a]
      by (auto simp: word last_word_append split: option.splits if_splits)
    ultimately show False using R [of "alFingerprint a" a] b(3) assms(2) a by simp
  qed
  then show "ReportedAgain after ?p t' = []"
    unfolding ReportedAgain_def by (intro map_filter_none) simp
qed

lemma no_change:
  "(\<And>a. a \<in> set as \<Longrightarrow> existing (alFingerprint a) = Some (alStatus a)) \<Longrightarrow> timeline_from fresh gid existing base k as = []"
proof (induction as)
  case (Cons a as)
  then have "change_of existing a = None"
    by (auto simp: change_of_def Let_def AlertStatusFiring_def AlertStatusResolved_def)
  with Cons show ?case by simp
qed simp

text \<open>
  C38. A repeat is no news: a payload that names each of its alerts once and carries no mark of
  silence (only this system writes one), applied a second time at whatever instant, changes
  nothing of the incident - no alert, no mark, no silence said to have ended - so that its alerts compare as the same, and the history gains no line by it.
\<close>

theorem repeat_is_no_news:
  fixes held :: "alert list" and t :: int
  assumes "distinct (map alFingerprint (ntAlerts n))" "\<forall>a \<in> set (ntAlerts n). alStaleSince a = None"
  defines "once \<equiv> Apply held n t" and "twice \<equiv> \<lambda>t'. Apply (apAlerts (Apply held n t)) n t'"
  shows "twice t' = once\<lparr>apMarked := 0, apBack := [], apHeldOnlyByStale := False\<rparr> \<and>
    SameAlerts (apAlerts once) (apAlerts (twice t')) \<and>
    MergeTimelineEvents fresh gid (apRelevant (twice t')) (FingerprintsOf (apAlerts once)) base = []"
proof -
  note again = Apply_again [OF assms(1,2)]
  have b: "apAlerts (twice t') = apAlerts once" "apRelevant (twice t') = apRelevant once"
    "apResolving (twice t') = apResolving once" "apMarked (twice t') = 0" "apBack (twice t') = []"
    "\<not> apHeldOnlyByStale (twice t')"
    unfolding once_def twice_def using again(1-4) by (simp_all add: Apply_sel(2-6))
  have "FingerprintsOf (apAlerts once) (alFingerprint a) = Some (alStatus a)" if "a \<in> set (apRelevant (twice t'))" for a
    using again(5) that unfolding b(2) once_def Apply_sel(2) by blast
  then have "MergeTimelineEvents fresh gid (apRelevant (twice t')) (FingerprintsOf (apAlerts once)) base = []"
    unfolding MergeTimelineEvents_def by (rule no_change)
  with b show ?thesis by (simp add: SameAlerts_iff)
qed

section \<open>An incident ends by word only\<close>

definition heard :: "alert list \<Rightarrow> (notification \<times> int) list \<Rightarrow> alert list" where
  "heard = foldl (\<lambda>held (n, t). apAlerts (Apply held n t))"

definition said :: "alert list \<Rightarrow> (notification \<times> int) list \<Rightarrow> alert list" where
  "said held ps = held @ concat (map (\<lambda>(n, t). ntAlerts n) ps)"

lemma heard_snoc: "heard held (ps @ [(n, t)]) = apAlerts (Apply (heard held ps) n t)"
  by (simp add: heard_def)

lemma said_snoc: "said held (ps @ [(n, t)]) = said held ps @ ntAlerts n"
  by (simp add: said_def)

text \<open>Alert by alert: what is held agrees with the last word; what is not held was last said not to fire.\<close>

lemma heard_word:
  assumes "\<forall>(n, t) \<in> set ps. distinct (map alFingerprint (ntAlerts n))"
  shows "case last_word (heard held ps) x of
      Some a \<Rightarrow> (\<exists>b. last_word (said held ps) x = Some b \<and> alStatus b = alStatus a)
    | None \<Rightarrow> (\<forall>b. last_word (said held ps) x = Some b \<longrightarrow> alStatus b \<noteq> AlertStatusFiring)"
  using assms
proof (induction ps rule: rev_induct)
  case Nil
  show ?case by (simp add: heard_def said_def split: option.split)
next
  case (snoc p ps)
  obtain n t where p: "p = (n, t)" by force
  have d: "distinct (map alFingerprint (ntAlerts n))" using snoc.prems p by simp
  note IH = snoc.IH
  show ?case
    using IH snoc.prems
    unfolding p heard_snoc said_snoc Apply_word last_word_append relevant_word [OF d]
    by (auto split: option.splits if_splits)
qed

lemma heard_canonical: "ps \<noteq> [] \<Longrightarrow> distinct (map alFingerprint (heard held ps))"
  using Apply_canonical by (cases ps rule: rev_cases) (auto simp: heard_snoc canonical_def)

lemma held_word:
  assumes "\<forall>(n, t) \<in> set ps. distinct (map alFingerprint (ntAlerts n))" "ps \<noteq> []"
  shows "AllResolved (heard held ps) \<longleftrightarrow> (\<forall>x b. last_word (said held ps) x = Some b \<longrightarrow> alStatus b \<noteq> AlertStatusFiring)"
    (is "?l \<longleftrightarrow> ?r")
proof
  assume ?l
  show ?r
  proof (intro allI impI)
    fix x b assume "last_word (said held ps) x = Some b"
    then show "alStatus b \<noteq> AlertStatusFiring"
      using heard_word [OF assms(1), of held x] last_word_in [of "heard held ps" x] \<open>?l\<close>
      by (auto simp: AllResolved_iff split: option.splits)
  qed
next
  assume ?r
  have "\<exists>b. last_word (said held ps) (alFingerprint a) = Some b \<and> alStatus b = alStatus a" if "a \<in> set (heard held ps)" for a
    using heard_word [OF assms(1), of held "alFingerprint a"] last_word_unique [OF heard_canonical [OF assms(2)] that] by simp
  with \<open>?r\<close> show ?l unfolding AllResolved_iff by metis
qed

text \<open>
  \<open>Store.MergeAlerts\<close>: an open incident takes payloads until one of them ends it, and a payload
  that comes later is not its own.  Alerts that compare as the same are not written again.
\<close>

datatype incident = Open "alert list" | Over "alert list"

fun hear :: "incident \<Rightarrow> notification \<times> int \<Rightarrow> incident" where
  "hear (Open held) (n, t) = (let merge = Apply held n t
     in if \<not> apResolving merge \<and> SameAlerts held (apAlerts merge) then Open held
        else if apResolving merge then Over (apAlerts merge) else Open (apAlerts merge))"
| "hear (Over as) p = Over as"

lemma hears:
  "foldl hear (Open held) ps \<in> range Over \<longleftrightarrow> (\<exists>k \<in> {1..length ps}. AllResolved (heard held (take k ps)))"
  "foldl hear (Open held) ps \<notin> range Over \<Longrightarrow> foldl hear (Open held) ps = Open (heard held ps)"
proof (induction ps rule: rev_induct)
  case Nil
  { case 1 show ?case by auto }
  { case 2 show ?case by (simp add: heard_def) }
next
  case (snoc p ps)
  obtain n t where p: "p = (n, t)" by force
  have last: "hear (Open (heard held ps)) p = (if AllResolved (heard held (ps @ [p]))
      then Over (heard held (ps @ [p])) else Open (heard held (ps @ [p])))"
    by (simp add: p heard_snoc Let_def Apply_sel(3) SameAlerts_iff)
  have split: "(\<exists>k \<in> {1..length (ps @ [p])}. AllResolved (heard held (take k (ps @ [p])))) \<longleftrightarrow>
      (\<exists>k \<in> {1..length ps}. AllResolved (heard held (take k ps))) \<or> AllResolved (heard held (ps @ [p]))"
    by (auto simp: atLeastAtMostSuc_conv)
  show 1: "foldl hear (Open held) (ps @ [p]) \<in> range Over \<longleftrightarrow>
      (\<exists>k \<in> {1..length (ps @ [p])}. AllResolved (heard held (take k (ps @ [p]))))"
  proof (cases "foldl hear (Open held) ps \<in> range Over")
    case True
    then obtain as where "foldl hear (Open held) ps = Over as" by blast
    then show ?thesis unfolding split using True snoc.IH(1) by simp
  next
    case False
    then show ?thesis unfolding split using snoc.IH last by auto
  qed
  show "foldl hear (Open held) (ps @ [p]) = Open (heard held (ps @ [p]))" if out: "foldl hear (Open held) (ps @ [p]) \<notin> range Over"
  proof (cases "foldl hear (Open held) ps \<in> range Over")
    case True
    then show ?thesis using out by auto
  next
    case False
    then show ?thesis using out snoc.IH(2) last by (auto split: if_splits)
  qed
qed

text \<open>
  C39. An incident ends by word only: over payloads that each name an alert once, whole or cut short,
  what Alertmanager sends ends an open incident exactly when at some payload, of every alert named
  so far - held at the start or sent since - the last thing said was that it does not fire; until
  then it stays open.  Silence ends nothing.
\<close>

theorem incident_ends_by_word_only:
  assumes "\<forall>(n, t) \<in> set ps. distinct (map alFingerprint (ntAlerts n))"
  shows "(\<exists>as. foldl hear (Open held) ps = Over as) \<longleftrightarrow>
    (\<exists>k. 1 \<le> k \<and> k \<le> length ps \<and> (\<forall>x b. last_word (said held (take k ps)) x = Some b \<longrightarrow> alStatus b \<noteq> AlertStatusFiring))"
proof -
  have "AllResolved (heard held (take k ps)) \<longleftrightarrow>
      (\<forall>x b. last_word (said held (take k ps)) x = Some b \<longrightarrow> alStatus b \<noteq> AlertStatusFiring)" if "1 \<le> k" "k \<le> length ps" for k
    by (rule held_word) (use assms that in \<open>auto dest: in_set_takeD\<close>)
  moreover have "(\<exists>as. foldl hear (Open held) ps = Over as) \<longleftrightarrow> foldl hear (Open held) ps \<in> range Over" by auto
  ultimately show ?thesis unfolding hears(1) by (metis (no_types, lifting) atLeastAtMost_iff)
qed

section \<open>Witnesses\<close>

definition disk_alert :: "string \<Rightarrow> string \<Rightarrow> alert" where
  "disk_alert x status = \<lparr>alFingerprint = x, alStatus = status, alLabels = fmempty, alAnnotations = fmempty,
     alStartsAt = 0, alEndsAt = 0, alGeneratorURL = [], alStaleSince = None\<rparr>"

definition whole :: "alert list \<Rightarrow> notification" where
  "whole as = \<lparr>ntAlerts = as, ntSnapshot = True, ntIntegrationID = [], ntStaleAfterSeconds = 0\<rparr>"

text \<open>The disk of one host is silent in the second payload; the repeat of it changes nothing.\<close>

theorem repeat_is_no_news_witness:
  "Apply (apAlerts (Apply [disk_alert ''a'' AlertStatusFiring, disk_alert ''b'' AlertStatusFiring]
       (whole [disk_alert ''b'' AlertStatusFiring]) 100)) (whole [disk_alert ''b'' AlertStatusFiring]) 200 =
     (Apply [disk_alert ''a'' AlertStatusFiring, disk_alert ''b'' AlertStatusFiring]
       (whole [disk_alert ''b'' AlertStatusFiring]) 100)\<lparr>apMarked := 0, apBack := [], apHeldOnlyByStale := False\<rparr>"
  by (rule conjunct1 [OF repeat_is_no_news]) (simp_all add: whole_def disk_alert_def)

theorem incident_ends_by_word_only_witness:
  "\<not> (\<exists>as. foldl hear (Open [disk_alert ''a'' AlertStatusFiring]) [(whole [disk_alert ''b'' AlertStatusResolved], 100)] = Over as)"
proof -
  let ?ps = "[(whole [disk_alert ''b'' AlertStatusResolved], 100)]"
  have d: "\<forall>(n, t) \<in> set ?ps. distinct (map alFingerprint (ntAlerts n))" by (simp add: whole_def disk_alert_def)
  have "last_word (said [disk_alert ''a'' AlertStatusFiring] (take k ?ps)) ''a'' = Some (disk_alert ''a'' AlertStatusFiring)"
    if "1 \<le> k" for k
    using that by (cases k) (simp_all add: said_def whole_def disk_alert_def last_word_def)
  moreover have "alStatus (disk_alert ''a'' AlertStatusFiring) = AlertStatusFiring" by (simp add: disk_alert_def)
  ultimately show ?thesis unfolding incident_ends_by_word_only [OF d] by metis
qed

end
