(* ===== verification/Claiming.thy ===== *)
theory Claiming
  imports Slots Cycle "HOL-Library.While_Combinator"
begin

text \<open>
  How a worker takes work for its free slots: \<open>claim\<close> of \<open>internal/outbound/worker.go\<close>.  The slots
  are shared by demand, each provider is asked for its two phases, and what was asked for and did
  not come is offered to the others in another pass.

  The store is an argument (locale \<open>lender\<close>): the queue of theory Queue is one.  A loop that might
  not end is \<open>while_option\<close>; that it ends is a theorem.  Log lines are left out.
\<close>

section \<open>The loop\<close>

type_synonym leased = "intent \<times> string \<times> int"
type_synonym 's store = "claim_request \<Rightarrow> 's \<Rightarrow> store_error + leased list \<times> 's"

record worker =
  wkFamily :: family
  wkChannels :: "string list"
  wkLease :: int
  wkWorkerID :: string

record 's claim_state =
  csRemaining :: int
  csDemand :: "(string \<times> int) list"
  csFresh :: "(string \<times> int) list"
  csTaken :: "leased list"
  csGot :: nat
  csDone :: bool
  csStore :: 's

definition set_entry :: "string \<Rightarrow> int \<Rightarrow> (string \<times> int) list \<Rightarrow> (string \<times> int) list" where
  "set_entry p n = map (\<lambda>(q, m). (q, if q = p then n else m))"

definition request :: "worker \<Rightarrow> string \<Rightarrow> claim_phase \<Rightarrow> int \<Rightarrow> claim_request" where
  "request wk p phase limit = \<lparr>cqFamily = wkFamily wk, cqProvider = p, cqPhase = phase, cqLimit = limit,
     cqLease = wkLease wk, cqWorkerID = wkWorkerID wk\<rparr>"

text \<open>The two phases of one provider; an error ends them.\<close>

fun claim_phases :: "worker \<Rightarrow> 's store \<Rightarrow> string \<Rightarrow> (claim_phase \<times> int) list \<Rightarrow> 's claim_state \<Rightarrow> 's claim_state" where
  "claim_phases wk ask p [] st = st"
| "claim_phases wk ask p ((phase, limit) # rest) st =
     (if limit = 0 then claim_phases wk ask p rest st
      else case ask (request wk p phase limit) (csStore st) of
        Inl e \<Rightarrow> st
      | Inr (ls, s') \<Rightarrow> claim_phases wk ask p rest
          (st\<lparr>csTaken := csTaken st @ ls, csGot := csGot st + length ls, csRemaining := csRemaining st - int (length ls),
             csFresh := (if phase = ClaimFirstAttempts
               then set_entry p (max 0 (wanted (csFresh st) p - limit)) (csFresh st) else csFresh st),
             csStore := s'\<rparr>))"

definition settle_demand :: "string \<Rightarrow> int \<Rightarrow> 's claim_state \<Rightarrow> 's claim_state" where
  "settle_demand p limit st =
     (let left = max 0 (wanted (csDemand st) p - limit)
      in st\<lparr>csDemand := set_entry p left (csDemand st),
           csFresh := (if left < wanted (csFresh st) p then set_entry p left (csFresh st) else csFresh st)\<rparr>)"

fun claim_providers :: "worker \<Rightarrow> 's store \<Rightarrow> nat \<Rightarrow> (string \<rightharpoonup> int) \<Rightarrow> string list \<Rightarrow> 's claim_state \<Rightarrow> 's claim_state" where
  "claim_providers wk ask tick shares [] st = st"
| "claim_providers wk ask tick shares (p # ps) st =
     (let limit = taken shares p;
          (first, retries) = splitPhases limit (wanted (csFresh st) p) (wanted (csDemand st) p - wanted (csFresh st) p) tick;
          st' = settle_demand p limit (claim_phases wk ask p [(ClaimFirstAttempts, first), (ClaimRetriesFirst, retries)] st)
      in if csRemaining st' \<le> 0 then st' else claim_providers wk ask tick shares ps st')"

definition sortedProviders :: "(string \<times> int) list \<Rightarrow> (string \<rightharpoonup> int) \<Rightarrow> string list" where
  "sortedProviders demand shares = sort (filter (\<lambda>p. shares p \<noteq> None) (map fst demand))"

definition claim_pass :: "worker \<Rightarrow> 's store \<Rightarrow> nat \<Rightarrow> 's claim_state \<Rightarrow> 's claim_state" where
  "claim_pass wk ask tick st =
     (let shares = shareSlots (csRemaining st) (csDemand st) tick;
          ps = sortedProviders (csDemand st) shares
      in if ps = [] then st\<lparr>csDone := True\<rparr>
         else let st' = claim_providers wk ask tick shares ps (st\<lparr>csGot := 0\<rparr>)
              in if csGot st' = 0 then st'\<lparr>csDone := True\<rparr> else st')"

definition claim_more :: "'s claim_state \<Rightarrow> bool" where
  "claim_more st \<longleftrightarrow> 0 < csRemaining st \<and> \<not> csDone st"

definition claim_start :: "worker \<Rightarrow> provider_due list \<Rightarrow> int \<Rightarrow> 's \<Rightarrow> 's claim_state" where
  "claim_start wk due free s =
     (let served = filter (\<lambda>x. pdProvider x \<in> set (wkChannels wk)) due
      in \<lparr>csRemaining = free, csDemand = map (\<lambda>x. (pdProvider x, int (pdClaimableDue x))) served,
          csFresh = map (\<lambda>x. (pdProvider x, int (pdClaimableFresh x))) served,
          csTaken = [], csGot = 0, csDone = False, csStore = s\<rparr>)"

definition claim_all :: "worker \<Rightarrow> 's store \<Rightarrow> nat \<Rightarrow> 's claim_state \<Rightarrow> 's claim_state option" where
  "claim_all wk ask tick = while_option claim_more (claim_pass wk ask tick)"

definition worker_claim :: "worker \<Rightarrow> 's store \<Rightarrow> store_error + provider_due list \<Rightarrow> int \<Rightarrow> nat \<Rightarrow> 's \<Rightarrow> (leased list \<times> 's) option" where
  "worker_claim wk ask due free tick s =
     (case due of
        Inl e \<Rightarrow> Some ([], s)
      | Inr due \<Rightarrow> map_option (\<lambda>st. (csTaken st, csStore st)) (claim_all wk ask tick (claim_start wk due free s)))"

section \<open>The loop ends\<close>

lemma share_round_dom:
  assumes "share_round each demand ps remaining shares = (remaining', shares', still)"
  shows "dom shares' \<subseteq> dom shares \<union> set ps \<and> set still \<subseteq> set ps"
  using assms
proof (induction ps arbitrary: remaining shares remaining' shares' still)
  case (Cons p ps)
  show ?case
  proof (cases "remaining = 0")
    case False
    define given where "given = min (min each (demand p - taken shares p)) remaining"
    obtain r s st where rec: "share_round each demand ps (remaining - given) (shares(p \<mapsto> taken shares p + given)) = (r, s, st)"
      by (metis prod_cases3)
    have "shares' = s" "still = (if taken shares p + given < demand p then p # st else st)"
      using Cons.prems False rec by (simp_all add: Let_def given_def)
    with Cons.IH [OF rec] show ?thesis by auto
  qed (use Cons.prems in auto)
qed auto

lemma fill_dom: "dom (fill demand ps remaining shares) \<subseteq> dom shares \<union> set ps"
proof (induction demand ps remaining shares rule: fill.induct)
  case (1 demand ps remaining shares)
  show ?case
  proof (cases "remaining \<le> 0 \<or> ps = []")
    case True
    then show ?thesis by (simp add: fill.simps [of demand ps])
  next
    case False
    obtain r s st where rec: "share_round (max 1 (remaining div int (length ps))) demand ps remaining shares = (r, s, st)"
      by (metis prod_cases3)
    have "dom (fill demand st r s) \<subseteq> dom s \<union> set st" using 1 [OF False refl, of r "(s, st)" s st] rec by simp
    moreover have "fill demand ps remaining shares = fill demand st r s"
      using False rec by (simp add: fill.simps [of demand ps])
    ultimately show ?thesis using share_round_dom [OF rec] by (metis (no_types, lifting) Un_mono dual_order.trans le_sup_iff order_refl sup.cobounded2)
  qed
qed

lemma shares_dom: "shareSlots free demand tick p \<noteq> None \<Longrightarrow> p \<in> set (candidates_of demand)"
  using fill_dom [of "wanted demand" "rotated tick (candidates_of demand)" free Map.empty]
  by (auto simp: shareSlots_def rotated_set split: if_splits)

lemma set_entry_keys [simp]: "map fst (set_entry p n xs) = map fst xs"
  by (induction xs) (auto simp: set_entry_def)

lemma splitPhases_sum:
  assumes "0 \<le> limit"
  shows "fst (splitPhases limit fresh retries tick) + snd (splitPhases limit fresh retries tick) = limit"
    "0 \<le> fst (splitPhases limit fresh retries tick)" "0 \<le> snd (splitPhases limit fresh retries tick)"
  using assms by (auto simp: splitPhases_def Let_def)

text \<open>What a worker relies on: a claim answers with at most as many as it was asked for.\<close>

locale lender =
  fixes ask :: "'s store" and fine :: "'s \<Rightarrow> bool"
  assumes lends: "fine s \<Longrightarrow> ask req s = Inr (ls, s') \<Longrightarrow> fine s' \<and> int (length ls) \<le> max 0 (cqLimit req)"
begin

definition grew :: "int \<Rightarrow> 's claim_state \<Rightarrow> 's claim_state \<Rightarrow> bool" where
  "grew most st st' \<longleftrightarrow> fine (csStore st') \<and> map fst (csDemand st') = map fst (csDemand st) \<and> csDone st' = csDone st \<and>
     (\<exists>ls. csTaken st' = csTaken st @ ls \<and> csGot st' = csGot st + length ls \<and>
       csRemaining st' = csRemaining st - int (length ls) \<and> int (length ls) \<le> most)"

lemma grew_refl: "fine (csStore st) \<Longrightarrow> 0 \<le> most \<Longrightarrow> grew most st st"
  by (simp add: grew_def)

lemma grew_trans: "grew a st st' \<Longrightarrow> grew b st' st'' \<Longrightarrow> a + b \<le> c \<Longrightarrow> grew c st st''"
  by (auto simp: grew_def)

lemma grew_fine: "grew most st st' \<Longrightarrow> fine (csStore st')"
  by (simp add: grew_def)

lemma grew_mono: "grew a st st' \<Longrightarrow> a \<le> b \<Longrightarrow> grew b st st'"
  by (auto simp: grew_def)

lemma grew_then:
  "grew a st u \<Longrightarrow> grew b u v \<Longrightarrow> 0 \<le> b \<Longrightarrow> grew (a + b) st v"
  "grew a st u \<Longrightarrow> 0 \<le> b \<Longrightarrow> grew (a + b) st u"
  by (auto simp: grew_def)

lemma phases_grow:
  assumes "fine (csStore st)" "\<forall>x \<in> set phases. 0 \<le> snd x"
  shows "grew (sum_list (map snd phases)) st (claim_phases wk ask p phases st)"
  using assms
proof (induction phases arbitrary: st)
  case (Cons x phases)
  obtain phase limit where x: "x = (phase, limit)" by force
  have l: "0 \<le> limit" "\<forall>x \<in> set phases. 0 \<le> snd x" using Cons.prems(2) x by auto
  have rest: "0 \<le> sum_list (map snd phases)" using l(2) by (intro sum_list_nonneg) auto
  show ?case
  proof (cases "limit = 0")
    case True
    then show ?thesis using Cons.IH [OF Cons.prems(1) l(2)] x by simp
  next
    case False
    show ?thesis
    proof (cases "ask (request wk p phase limit) (csStore st)")
      case (Inl e)
      then show ?thesis using False x l rest Cons.prems(1) by (simp add: grew_refl)
    next
      case (Inr y)
      obtain ls s' where y: "y = (ls, s')" by force
      have ls: "fine s'" "int (length ls) \<le> limit"
        using lends [OF Cons.prems(1)] Inr y l(1) by (fastforce simp: request_def)+
      let ?st = "st\<lparr>csTaken := csTaken st @ ls, csGot := csGot st + length ls, csRemaining := csRemaining st - int (length ls),
          csFresh := (if phase = ClaimFirstAttempts
            then set_entry p (max 0 (wanted (csFresh st) p - limit)) (csFresh st) else csFresh st), csStore := s'\<rparr>"
      have "grew limit st ?st" using ls by (simp add: grew_def)
      moreover have "grew (sum_list (map snd phases)) ?st (claim_phases wk ask p phases ?st)"
        by (rule Cons.IH) (use ls l(2) in simp_all)
      ultimately show ?thesis using grew_trans [of limit st ?st] False Inr x y by simp
    qed
  qed
qed (simp add: grew_refl)

lemma providers_grow:
  assumes "fine (csStore st)" "\<forall>p \<in> set ps. 0 \<le> taken shares p"
  shows "grew (sum_list (map (taken shares) ps)) st (claim_providers wk ask tick shares ps st)"
  using assms
proof (induction ps arbitrary: st)
  case (Cons p ps)
  let ?limit = "taken shares p"
  obtain first retries where sp: "splitPhases ?limit (wanted (csFresh st) p) (wanted (csDemand st) p - wanted (csFresh st) p) tick = (first, retries)"
    by force
  have l: "0 \<le> ?limit" "\<forall>p \<in> set ps. 0 \<le> taken shares p" using Cons.prems(2) by simp_all
  have f: "first + retries = ?limit" "0 \<le> first" "0 \<le> retries"
    using splitPhases_sum [OF l(1), of "wanted (csFresh st) p" "wanted (csDemand st) p - wanted (csFresh st) p" tick] sp by simp_all
  let ?st = "claim_phases wk ask p [(ClaimFirstAttempts, first), (ClaimRetriesFirst, retries)] st"
  let ?st' = "settle_demand p ?limit ?st"
  have "grew (sum_list (map snd [(ClaimFirstAttempts, first), (ClaimRetriesFirst, retries)])) st ?st"
    by (rule phases_grow) (use Cons.prems(1) f in simp_all)
  then have first: "grew ?limit st ?st'" using f(1) by (simp add: grew_def settle_demand_def Let_def)
  have rest: "0 \<le> sum_list (map (taken shares) ps)" using l(2) by (intro sum_list_nonneg) auto
  have "grew (sum_list (map (taken shares) ps)) ?st' (claim_providers wk ask tick shares ps ?st')"
    by (rule Cons.IH [OF grew_fine [OF first] l(2)])
  note both = grew_then(1) [OF first this rest] grew_then(2) [OF first rest]
  have step: "claim_providers wk ask tick shares (p # ps) st =
      (if csRemaining ?st' \<le> 0 then ?st' else claim_providers wk ask tick shares ps ?st')"
    unfolding claim_providers.simps Let_def sp prod.case ..
  show ?case unfolding step list.map sum_list.Cons using both by presburger
qed (simp add: grew_refl)

definition counted_in :: "int \<Rightarrow> 's claim_state \<Rightarrow> bool" where
  "counted_in free st \<longleftrightarrow> fine (csStore st) \<and> distinct (map fst (csDemand st)) \<and> 0 \<le> csRemaining st \<and>
     int (length (csTaken st)) + csRemaining st = free"

lemma pass_progress:
  assumes "counted_in free st" "claim_more st"
  shows "counted_in free (claim_pass wk ask tick st) \<and>
    nat (csRemaining (claim_pass wk ask tick st)) + (if csDone (claim_pass wk ask tick st) then 0 else 1)
      < nat (csRemaining st) + (if csDone st then 0 else 1)"
proof -
  let ?shares = "shareSlots (csRemaining st) (csDemand st) tick"
  let ?ps = "sortedProviders (csDemand st) ?shares"
  let ?st = "claim_providers wk ask tick ?shares ?ps (st\<lparr>csGot := 0\<rparr>)"
  have st: "fine (csStore st)" "distinct (map fst (csDemand st))" "0 < csRemaining st" "\<not> csDone st"
    "int (length (csTaken st)) + csRemaining st = free"
    using assms by (simp_all add: counted_in_def claim_more_def)
  show ?thesis
  proof (cases "?ps = []")
    case True
    then show ?thesis using assms st by (simp add: claim_pass_def counted_in_def Let_def)
  next
    case False
    have nonneg: "0 \<le> taken ?shares p" and sum: "(\<Sum>p\<in>set (candidates_of (csDemand st)). taken ?shares p) \<le> csRemaining st" for p
      using shared_max_min [OF st(2), of "csRemaining st" tick] st(3) by auto
    have "set ?ps \<subseteq> set (candidates_of (csDemand st))" "distinct ?ps"
      using shares_dom [of "csRemaining st" "csDemand st" tick] st(2) by (auto simp: sortedProviders_def)
    then have "sum_list (map (taken ?shares) ?ps) \<le> (\<Sum>p\<in>set (candidates_of (csDemand st)). taken ?shares p)"
      using nonneg by (simp add: sum_list_distinct_conv_sum_set sum_mono2)
    then have "grew (csRemaining st) (st\<lparr>csGot := 0\<rparr>) ?st"
      using providers_grow [of "st\<lparr>csGot := 0\<rparr>" ?ps ?shares wk tick] st(1) nonneg sum by (auto intro: grew_mono)
    then obtain ls where "fine (csStore ?st)" "map fst (csDemand ?st) = map fst (csDemand st)" "csDone ?st = csDone st"
      "csTaken ?st = csTaken st @ ls" "csGot ?st = length ls" "csRemaining ?st = csRemaining st - int (length ls)"
      "int (length ls) \<le> csRemaining st" by (auto simp: grew_def)
    then show ?thesis using False st by (auto simp: claim_pass_def counted_in_def Let_def)
  qed
qed

lemma claiming_ends:
  assumes "counted_in free st"
  shows "\<exists>st'. claim_all wk ask tick st = Some st' \<and> counted_in free st'"
proof -
  obtain st' where "claim_all wk ask tick st = Some st'"
    unfolding claim_all_def using measure_while_option_Some [of "counted_in free" claim_more "claim_pass wk ask tick"
      "\<lambda>st. nat (csRemaining st) + (if csDone st then 0 else 1)"] pass_progress assms by blast
  then have st': "while_option claim_more (claim_pass wk ask tick) st = Some st'" by (simp add: claim_all_def)
  have "counted_in free st'"
    by (rule while_option_rule [where P = "counted_in free", OF _ st' assms]) (use pass_progress in blast)
  then show ?thesis using st' by (auto simp: claim_all_def)
qed

lemma claim_within:
  assumes "fine s" "distinct (map pdProvider due)"
  shows "\<exists>ls s'. worker_claim wk ask (Inr due) free tick s = Some (ls, s') \<and> int (length ls) \<le> max 0 free \<and> fine s'"
proof (cases "0 \<le> free")
  case True
  have "distinct (map fst (csDemand (claim_start wk due free s)))"
    using assms(2) by (simp add: claim_start_def Let_def o_def distinct_map_filter)
  then have "counted_in free (claim_start wk due free s)" using assms(1) True
    by (simp add: counted_in_def claim_start_def Let_def)
  from claiming_ends [OF this] obtain st' where st': "claim_all wk ask tick (claim_start wk due free s) = Some st'"
    "counted_in free st'" by blast
  then have "worker_claim wk ask (Inr due) free tick s = Some (csTaken st', csStore st')"
    by (simp add: worker_claim_def)
  then show ?thesis using st'(2) by (auto simp: counted_in_def)
next
  case False
  then have "claim_all wk ask tick (claim_start wk due free s) = Some (claim_start wk due free s)"
    unfolding claim_all_def by (subst while_option_unfold) (simp add: claim_more_def claim_start_def Let_def)
  then show ?thesis using assms(1) by (simp add: worker_claim_def claim_start_def Let_def)
qed

end

section \<open>The queue as a lender\<close>

lemma ClaimDueIntents_lends:
  assumes "sound d" "ClaimDueIntents busy now clock tokens req d = Inr (ls, d')"
  shows "sound d' \<and> int (length ls) \<le> max 0 (cqLimit req)"
proof -
  have s: "sound d'" using quiet_step_sound [OF ClaimDueIntents_quiet [OF assms]] .
  show ?thesis
  proof (cases "cqLimit req \<le> 0")
    case True
    then show ?thesis using assms(2) s by (simp add: ClaimDueIntents_def)
  next
    case False
    let ?picks = "map rID (claim_picks busy now req d)"
    have ls: "length ls = length (filter (\<lambda>r. rID r \<in> set ?picks) (dbIntents d'))"
      using assms(2) False by (auto simp: ClaimDueIntents_def Let_def elim!: then_ok_InrE split: claim_phase.splits)
    have "distinct (map rID (filter (\<lambda>r. rID r \<in> set ?picks) (dbIntents d')))"
      using s by (simp add: sound_def distinct_map_filter)
    then have "length (filter (\<lambda>r. rID r \<in> set ?picks) (dbIntents d')) =
        Finite_Set.card (set (map rID (filter (\<lambda>r. rID r \<in> set ?picks) (dbIntents d'))))"
      using distinct_card by fastforce
    also have "\<dots> \<le> Finite_Set.card (set ?picks)" by (intro card_mono) auto
    also have "\<dots> \<le> length ?picks" by (rule card_length)
    also have "\<dots> \<le> nat (cqLimit req)" by (simp add: claim_picks_def)
    finally show ?thesis using s ls by simp
  qed
qed

interpretation lending: lender "ClaimDueIntents busy now clock tokens" sound for busy now clock tokens
  by unfold_locales (rule ClaimDueIntents_lends)

lemma DueSnapshot_distinct: "distinct (map pdProvider (DueSnapshot now family d))"
  by (simp add: DueSnapshot_def Let_def o_def)

text \<open>
  C40. A tick claims within its slots: whatever the queue said was due, the loop that takes work for
  the free slots of a worker ends, takes no more than the slots, and leaves the tables sound.
\<close>

theorem a_tick_claims_within_its_slots:
  assumes "sound d"
  shows "\<exists>ls d'. worker_claim wk (ClaimDueIntents busy now clock tokens) (Inr (DueSnapshot seen (wkFamily wk) before))
      free tick d = Some (ls, d') \<and> int (length ls) \<le> max 0 free \<and> sound d'"
  by (rule lending.claim_within [OF assms DueSnapshot_distinct])

definition pager :: worker where
  "pager = \<lparr>wkFamily = iFamily (intent_of 0 due_row), wkChannels = [rProvider due_row], wkLease = 60, wkWorkerID = ''w1''\<rparr>"

theorem a_tick_claims_within_its_slots_witness:
  "\<exists>ls d'. worker_claim pager (ClaimDueIntents (\<lambda>i. False) 10 10 (\<lambda>i. ''t1''))
      (Inr (DueSnapshot 10 (wkFamily pager) due_db)) 2 7 due_db = Some (ls, d') \<and> int (length ls) \<le> 2"
proof -
  from a_tick_claims_within_its_slots [OF due_sound, of pager "\<lambda>i. False" 10 10 "\<lambda>i. ''t1''" 10 due_db 2 7]
  show ?thesis by (auto simp del: claim_phases.simps)
qed

end
