(* ===== verification/Spec2Isabelle.thy ===== *)
theory Spec2Isabelle
  imports Cycle Slots Access CallLimits Timetable Incident Claiming
begin

text \<open>
  A model of TokayOps, an on-call and alert delivery service written in Go, and what is proved
  of it.  The program is a web service over one PostgreSQL database, run by any number of
  processes at once.  It keeps teams, users and schedules, decides who is on call, and turns
  alerts into deliveries - messages, phone calls, webhooks - that a pool of workers carries out
  exactly as often as was promised.  This development models the parts that decide: the state
  machine of a delivery and the transactions around it, the rotation of a schedule and its
  history, the calendar drawn from it, the alerts of an incident, the directory of people,
  erasure, and access control.

  \<^bold>\<open>How the code is rendered.\<close>  A Go function that answers a value and an error is a function into
  \<open>error + value\<close> (theory Prelude: \<open>then_ok\<close> is \<open>if err != nil\<close>).  A struct is a record, an
  enumeration a datatype, an instant and a duration a number of nanoseconds, a nullable column an
  option.  A table is the list of its rows; a transaction is a function from the tables to an
  error or a result with the tables after it, so a refused transaction leaves nothing behind,
  and a constraint of the schema is a check the write makes.  What the code reads from elsewhere -
  SHA-256, new identifiers, the timezone database, the UUID parser, the clock - is an argument.

  \<^bold>\<open>Deliveries\<close> (\<open>internal/outbound\<close>, \<open>internal/store/outbound_*.go\<close>).
  Vocabulary and Kinds: the enumerations.  Machine: \<open>Decide\<close> of \<open>machine.go\<close>, one input to one
  decision; MachineGraph and MachineLaws: its graph, its domain and what every answer ensures.
  Families: the numbers of \<open>policy.go\<close> and the backoff.  Receipts: the verdict over external
  objects (\<open>receipt.go\<close>).  Codec and Identity: the byte grammar, the keys and fingerprints of
  \<open>internal/outbound/keys\<close>; equal bytes are equal contents.  Tables: the rows and the CHECKs of
  \<open>outbound_schema.go\<close>, the database \<open>db\<close>.  Apply and Writer: \<open>applyTransitionTx\<close>, and that
  what the machine decides can always be written.  Content: what a call carries.  Waits: provider
  events and receipt waits.  Stop: the stop of an escalation and its satellites.  Begin and Finish:
  the opening and the closing of an attempt, recovery.  Queue and Slots: claiming and sharing;
  Claiming: the loop of \<open>worker.go\<close> that takes work for the free slots.  Pact, Protocol and
  Delivery: the relation \<open>delivery_step\<close> of all these transactions in any order, its runs
  \<open>delivery_run\<close>, its invariant \<open>pact\<close> and what it says; Cycle: an abandoned attempt is closed,
  and one commitment taken through its life as the witness of these theorems.

  \<^bold>\<open>Schedules\<close> (\<open>internal/rotation\<close>, \<open>internal/scheduleconfig\<close>, \<open>internal/schedulerender\<close>).
  Handoff: policies and handoff times.  Zone: local times and daylight saving; a zone is any
  function of offsets with the documented properties of \<open>time.Location\<close>.  Grid: the slots of a
  layer, with the interface \<open>handoff_grid\<close>.  Rotation: snapshots, validation, the group on duty.
  Transition: planning a save.  Revisions: the tables of the history and their reads and writes.
  ScheduleConfig: the commands.  Chain: the history is a chain without gaps, and no command
  changes what was in force.  Covers and Duties: overrides as steps that keep them disjoint.
  Staffed: everybody on call is a member.  Render: the calendar of a range (\<open>renderer.go\<close>,
  \<open>slot.go\<close>, \<open>layer.go\<close>).  Tiles: the revisions of a range tile it.  Calendar: the calendar says
  at every instant what the reference \<open>duty_at\<close> says.  OnCall: the projection of an instant
  (\<open>oncall.go\<close>, \<open>service.go\<close>, \<open>bulk.go\<close>).  Preview: what a save would do (\<open>preview.go\<close>,
  \<open>merge.go\<close>).  Timetable: calendar, projection, preview and saves agree.

  \<^bold>\<open>People\<close> (\<open>internal/store/store.go\<close>, \<open>identity_store.go\<close>, \<open>phone_store.go\<close>,
  \<open>internal/erasure\<close>, \<open>internal/rbac\<close>, \<open>internal/api\<close>).  People and Phone: users, memberships,
  tokens, identities, numbers, the limiter.  CallLimits: the limits hold at every instant.  Erasure and
  Erase: the erasure of a person, of their deliveries and of everything else.  Directory: every
  command on people is gentle.  Access: sessions, permissions and scopes.

  \<^bold>\<open>Incidents\<close> (\<open>internal/alertgroup\<close>).  Incident: the alerts an open incident holds, what a payload
  does to them and when the incident is over (\<open>merge.go\<close>).

  \<^bold>\<open>The whole.\<close>  Leaving, Company and Charter put people, schedules and deliveries side by side: a
  state is the clock of the commands and the tables, a move is any command of any of them, and
  the theorems of Charter and Access hold in every state such moves reach from an empty database.

  \<^bold>\<open>Bounds.\<close>  No fuel is used anywhere: every loop is structural or has a measure (the walks over
  the grid, termination by the distance to the target), except the loop of Claiming, which is
  \<open>while_option\<close> and is proved to end.  Lengths that the code writes in four
  bytes are taken modulo \<open>2 ^ 32\<close>, and the theorems that need them not to wrap say so.

  \<^bold>\<open>Assumptions worth knowing.\<close>  A transaction is one step; the row locks that make it so, and the
  order they are taken in, are not modelled.  The clock of the schedule commands never runs
  backwards (the rule \<open>tick\<close> of \<open>moves\<close>); the database clock of deliveries and of people
  is not assumed to agree with it, nor to be monotone.  Between the moves of schedules and people
  the deliveries may change in any way, and their own theorems are stated over
  \<open>delivery_step\<close> and \<open>delivery_run\<close>.

  \<^bold>\<open>Not modelled.\<close>  HTTP, JSON, SQL text, metrics and logs; the admission of a commitment and the
  operator's console over the journal; the providers' own clients (Slack, Telegram, Twilio, generic
  webhooks); reading a payload from the network, the transaction around a merge of alerts and the
  choice of escalation steps; the goroutines and timers of the workers; retention; migrations; the web
  interface and the tests.  The text of a stored snapshot is not modelled either: a row carries
  the mark that its text no longer decodes (\<open>fBroken\<close>), which the calendar, the projection and the
  preview heed (\<open>scanScheduleRevision\<close>); the schedule commands read rows that decode.  \<open>store.RemoveTeamMember\<close> and \<open>store.DeleteUser\<close> exist and
  are not called by the server.
\<close>

end
